(* ===== verification/Prelude.thy ===== *)
theory Prelude
  imports Main "HOL-Library.Word" "HOL-Library.Monad_Syntax"
begin

unbundle bit_operations_syntax

section \<open>Prelude: machine types, hint collections, generic lemmas\<close>

text \<open>
  What the components share: the C integer types of \<^verbatim>\<open>include/global_type.h\<close> as machine words,
  byte views of a word in the big-endian order of the target, the named collections that carry the
  proofs, and lemmas on words and lists that are about no component in particular.
\<close>

type_synonym u8 = "8 word"
type_synonym u16 = "16 word"
type_synonym u32 = "32 word"
type_synonym u64 = "64 word"

text \<open>
  \<open>reg_defs\<close> unfolds register constants of the headers, \<open>io_simps\<close> evaluates accesses to registers
  and memory, \<open>crc_laws\<close> holds the algebra of the CRC registers.
\<close>

named_theorems reg_defs
named_theorems io_simps
named_theorems crc_laws

subsection \<open>Words\<close>

lemma unat_lt_256 [simp]: "unat (b :: u8) < 256"
  using unsigned_less [of b] by simp

lemma unat_ucast_u8 [simp]: "unat (ucast (b :: u8) :: u32) = unat b"
proof -
  have "unat b < 2 ^ 32"
    using unat_lt_256 [of b] by (rule less_trans) simp
  then show ?thesis
    by (simp add: unsigned_ucast_eq take_bit_nat_eq_self)
qed

lemma nth_map_upt_256 [simp]: "map f [0..<256] ! unat (b :: u8) = f (unat b)"
  by simp

lemma word_xor_cancel [simp]: "(a :: 'a::len word) XOR (a XOR b) = b"
  by (simp flip: xor.assoc)

lemma word_xor_eq_iff: "(a :: 'a::len word) XOR b = a XOR c \<longleftrightarrow> b = c"
  by (metis word_xor_cancel)

lemma word_xor_zero_iff: "(a :: 'a::len word) XOR b = 0 \<longleftrightarrow> a = b"
  by (metis word_xor_cancel xor.right_neutral xor_self_eq)

lemma ucast_xor_8: "(ucast (a XOR b :: u8) :: 'a::len word) = ucast a XOR ucast b"
  by (rule bit_word_eqI) (auto simp: bit_simps)

lemma and_one_neq_zero_iff: "(w :: 'a::len word) AND 1 \<noteq> 0 \<longleftrightarrow> bit w 0"
  by (simp add: bit_0 and_one_eq odd_iff_mod_2_eq_one)

lemma not_bit_u8 [simp]: "8 \<le> n \<Longrightarrow> \<not> bit (b :: u8) n"
  by (auto dest: bit_imp_le_length)

lemma not_bit_u32 [simp]: "32 \<le> n \<Longrightarrow> \<not> bit (w :: u32) n"
  by (auto dest: bit_imp_le_length)

lemma bit_times_2_iff [bit_simps]:
  "bit (w * 2 :: 'a::len word) n \<longleftrightarrow> 0 < n \<and> n < LENGTH('a) \<and> bit w (n - 1)"
  by (auto simp: bit_double_iff mult.commute [of w 2])

lemma word_reverse_inj [simp]: "word_reverse x = word_reverse y \<longleftrightarrow> x = y"
  by (metis word_rev_rev)

lemma ucast_u32_u8 [simp]: "ucast (ucast (b :: u8) :: u32) = b"
  by (rule bit_word_eqI) (simp add: bit_simps)

text \<open>Masking one bit, the test \<open>w & (1 << n)\<close> of the C code.\<close>

lemma and_single_bit_iff:
  "(w :: 'a::len word) AND push_bit n 1 \<noteq> 0 \<longleftrightarrow> n < LENGTH('a) \<and> bit w n"
proof -
  have "bit (w AND push_bit n 1) i \<longleftrightarrow> i = n \<and> n < LENGTH('a) \<and> bit w n" for i
    by (auto simp: bit_simps)
  then show ?thesis
    by (metis (no_types) bit_word_eqI bit_0_eq bot_apply bot_bool_def)
qed

lemma and_single_bit_0_iff:
  "(w :: 'a::len word) AND push_bit n 1 = 0 \<longleftrightarrow> \<not> (n < LENGTH('a) \<and> bit w n)"
  using and_single_bit_iff [of w n] by blast

text \<open>Addresses modulo four.\<close>

lemma and_3_take_bit: "(w :: u32) AND 3 = take_bit 2 w"
  by (simp add: take_bit_eq_mask mask_eq_exp_minus_1)

lemma unat_round_down:
  assumes "n < 32"
  shows "unat ((a :: u32) AND NOT (mask n)) = unat a div 2 ^ n * 2 ^ n"
proof -
  have "a AND NOT (mask n) = push_bit n (drop_bit n a)"
    by (rule bit_word_eqI) (auto simp: bit_simps not_le)
  moreover have "unat (drop_bit n a) = unat a div 2 ^ n" by (simp only: unat_drop_bit_eq) (simp add: drop_bit_eq_div)
  moreover have "unat (2 ^ n :: u32) = 2 ^ n"
    using unat_of_nat [of "2 ^ n", where 'a = 32] power_strict_increasing [OF assms, of "2 :: nat"] by simp
  moreover have "unat a div 2 ^ n * 2 ^ n < 2 ^ 32"
    using div_times_less_eq_dividend [of "unat a" "2 ^ n"] by (rule order_le_less_trans) (rule order_less_le_trans [OF unsigned_less], simp)
  ultimately show ?thesis by (simp add: push_bit_eq_mult unat_word_ariths)
qed

lemma add_4_and_3 [simp]: "((b :: u32) + 4) AND 3 = b AND 3"
  unfolding and_3_take_bit by transfer (simp add: take_bit_eq_mod)

subsection \<open>Bytes of a word\<close>

text \<open>
  The \<open>BYTE(d, n)\<close> macro of \<^verbatim>\<open>global_type.h\<close> reads byte \<open>n\<close> of \<open>d\<close>, least significant first; the
  target stores words most significant byte first.
\<close>

definition be32_bytes :: "u32 \<Rightarrow> u8 list" where
  "be32_bytes w = [ucast (drop_bit 24 w), ucast (drop_bit 16 w), ucast (drop_bit 8 w), ucast w]"

definition be32_of_bytes :: "u8 \<Rightarrow> u8 \<Rightarrow> u8 \<Rightarrow> u8 \<Rightarrow> u32" where
  "be32_of_bytes a b c d =
     push_bit 24 (ucast a) OR push_bit 16 (ucast b) OR push_bit 8 (ucast c) OR ucast d"

lemma length_be32_bytes [simp]: "length (be32_bytes w) = 4"
  by (simp add: be32_bytes_def)

lemma be32_of_bytes_bytes [simp]:
  "be32_of_bytes (ucast (drop_bit 24 w)) (ucast (drop_bit 16 w)) (ucast (drop_bit 8 w)) (ucast w) = w"
proof (rule bit_word_eqI)
  fix n assume "n < LENGTH(32)"
  then consider "n < 8" | "8 \<le> n" "n < 16" | "16 \<le> n" "n < 24" | "24 \<le> n" "n < 32"
    by fastforce
  then show "bit (be32_of_bytes (ucast (drop_bit 24 w)) (ucast (drop_bit 16 w))
      (ucast (drop_bit 8 w)) (ucast w)) n = bit w n"
    by cases (auto simp: be32_of_bytes_def bit_simps)
qed

lemma be32_of_bytes_get [simp]:
  "ucast (drop_bit 24 (be32_of_bytes a b c d)) = a"
  "ucast (drop_bit 16 (be32_of_bytes a b c d)) = b"
  "ucast (drop_bit 8 (be32_of_bytes a b c d)) = c"
  "ucast (be32_of_bytes a b c d) = d"
  by (auto intro!: bit_word_eqI simp: be32_of_bytes_def bit_simps)

lemma be32_of_bytes_inj:
  "be32_of_bytes a b c d = be32_of_bytes a' b' c' d' \<longleftrightarrow> a = a' \<and> b = b' \<and> c = c' \<and> d = d'"
  by (metis be32_of_bytes_get)

lemma be32_bytes_of_bytes [simp]: "be32_bytes (be32_of_bytes a b c d) = [a, b, c, d]"
  by (simp add: be32_bytes_def)

subsection \<open>Lists and iteration\<close>

lemma list_all_nth_upt:
  "list_all P (map f [0..<n]) \<longleftrightarrow> (\<forall>i < n. P (f i))"
  by (auto simp: list_all_iff)

lemma funpow_add_apply: "(f ^^ (m + n)) x = (f ^^ m) ((f ^^ n) x)"
  by (simp add: funpow_add)

lemma funpow_8: "(f ^^ 8) x = f (f (f (f (f (f (f (f x)))))))"
  by (simp add: numeral_eq_Suc)

lemma take_drop_append_split:
  "length xs = n \<Longrightarrow> take n (xs @ ys) = xs \<and> drop n (xs @ ys) = ys"
  by simp

end
