(* ===== verification/Crc_Engine.thy ===== *)
theory Crc_Engine
  imports Prelude
begin

unbundle bit_operations_syntax

section \<open>CRC registers: the laws every implementation in the tree relies on\<close>

text \<open>
  The repository computes CRCs in three places (\<^verbatim>\<open>lib/crc32.c\<close>, \<^verbatim>\<open>lib/crc32_old.c\<close>,
  \<^verbatim>\<open>tools/src/bh/bhdr.c\<close>), most significant bit first or least significant bit first, bit by bit or
  by table. What they share is an interface: a register that is stepped one bit at a time, and the
  place where the next message byte enters it. This theory states that interface as locales, proves
  the client lemmas once, and provides the two kinds of register; the implementations interpret the
  locales on their own definitions.
\<close>

subsection \<open>One byte and one message\<close>

definition crc_byte :: "('w::len word \<Rightarrow> 'w word) \<Rightarrow> (u8 \<Rightarrow> 'w word) \<Rightarrow> 'w word \<Rightarrow> u8 \<Rightarrow> 'w word" where
  "crc_byte stp feed r b = (stp ^^ 8) (r XOR feed b)"

definition crc_run :: "('w::len word \<Rightarrow> 'w word) \<Rightarrow> (u8 \<Rightarrow> 'w word) \<Rightarrow> 'w word \<Rightarrow> u8 list \<Rightarrow> 'w word" where
  "crc_run stp feed r bs = foldl (crc_byte stp feed) r bs"

lemma crc_run_Nil [simp]: "crc_run stp feed r [] = r"
  by (simp add: crc_run_def)

lemma crc_run_Cons [simp]: "crc_run stp feed r (b # bs) = crc_run stp feed (crc_byte stp feed r b) bs"
  by (simp add: crc_run_def)

lemma crc_run_append: "crc_run stp feed r (xs @ ys) = crc_run stp feed (crc_run stp feed r xs) ys"
  by (simp add: crc_run_def)

subsection \<open>Linear registers\<close>

locale crc_register =
  fixes stp :: "'w::len word \<Rightarrow> 'w word"
    and feed :: "u8 \<Rightarrow> 'w word"
  assumes stp_xor: "stp (a XOR b) = stp a XOR stp b"
    and feed_xor: "feed (x XOR y) = feed x XOR feed y"
begin

lemma stp_0 [simp]: "stp 0 = 0"
  using stp_xor [of 0 0] by simp

lemma feed_0 [simp]: "feed 0 = 0"
  using feed_xor [of 0 0] by simp

lemma steps_0 [simp]: "(stp ^^ n) 0 = 0"
  by (induction n) simp_all

lemma steps_xor: "(stp ^^ n) (a XOR b) = (stp ^^ n) a XOR (stp ^^ n) b"
  by (induction n) (simp_all add: stp_xor)

lemma byte_xor:
  "crc_byte stp feed (r XOR s) (x XOR y) = crc_byte stp feed r x XOR crc_byte stp feed s y"
  by (simp add: crc_byte_def feed_xor steps_xor xor.assoc xor.left_commute)

text \<open>The CRC of the bytewise exclusive-or of two messages of one length.\<close>

lemma run_xor:
  "length xs = length ys \<Longrightarrow>
   crc_run stp feed (r XOR s) (map2 (XOR) xs ys) = crc_run stp feed r xs XOR crc_run stp feed s ys"
  by (induction xs ys arbitrary: r s rule: list_induct2) (simp_all add: byte_xor)

end

subsection \<open>Table lookup\<close>

text \<open>
  A table driven implementation takes the byte \<open>idx r\<close> that leaves the register, combines it with the
  next message byte and looks the result up; \<open>rest r\<close> is the register shifted by a byte.
\<close>

locale crc_table = crc_register +
  fixes idx :: "'w::len word \<Rightarrow> u8"
    and rest :: "'w word \<Rightarrow> 'w word"
    and tab :: "'w word list"
  assumes shift_out: "(stp ^^ 8) (r XOR feed (idx r)) = rest r"
    and tab_entry: "i < 256 \<Longrightarrow> tab ! i = (stp ^^ 8) (feed (of_nat i))"
begin

lemma tab_unat: "tab ! unat (b :: u8) = (stp ^^ 8) (feed b)"
  by (simp add: tab_entry)

lemma lookup: "tab ! unat (b XOR idx r) XOR rest r = crc_byte stp feed r b"
proof -
  have "tab ! unat (b XOR idx r) XOR rest r
      = (stp ^^ 8) (feed (b XOR idx r)) XOR (stp ^^ 8) (r XOR feed (idx r))"
    by (simp add: tab_unat shift_out)
  also have "\<dots> = (stp ^^ 8) (feed (b XOR idx r) XOR (r XOR feed (idx r)))"
    by (simp add: steps_xor)
  also have "feed (b XOR idx r) XOR (r XOR feed (idx r)) = r XOR feed b"
    by (simp add: feed_xor xor.commute xor.left_commute)
  finally show ?thesis by (simp add: crc_byte_def)
qed

lemma lookup_run:
  "foldl (\<lambda>r b. tab ! unat (b XOR idx r) XOR rest r) r bs = crc_run stp feed r bs"
  by (simp add: lookup crc_run_def)

end

subsection \<open>Error detection\<close>

text \<open>
  A register that can be stepped back (both CRC polynomials of the tree have a non-zero constant
  term) never merges two states, so no difference that has entered it can vanish again.
\<close>

locale crc_reversible = crc_register +
  assumes stp_inj: "stp a = stp b \<Longrightarrow> a = b"
    and feed_inj: "feed x = feed y \<Longrightarrow> x = y"
begin

lemma steps_inj: "(stp ^^ n) a = (stp ^^ n) b \<longleftrightarrow> a = b"
  by (induction n) (auto dest: stp_inj)

lemma byte_inj: "crc_byte stp feed r b = crc_byte stp feed s b \<longleftrightarrow> r = s"
  by (simp add: crc_byte_def steps_inj) (metis word_xor_eq_iff xor.commute)

lemma byte_data_inj: "crc_byte stp feed r x = crc_byte stp feed r y \<longleftrightarrow> x = y"
  by (auto simp: crc_byte_def steps_inj word_xor_eq_iff dest: feed_inj)

lemma run_inj: "crc_run stp feed r bs = crc_run stp feed s bs \<longleftrightarrow> r = s"
  by (induction bs arbitrary: r s) (simp_all add: byte_inj)

lemma one_byte:
  "crc_run stp feed r (as @ x # bs) = crc_run stp feed r (as @ y # bs) \<longleftrightarrow> x = y"
  by (simp add: crc_run_append run_inj byte_data_inj)

end

text \<open>
  A 32 bit register that takes four bytes at once: \<open>pack\<close> is the word the four bytes make in the
  register's byte order.
\<close>

locale crc_wide = crc_reversible stp feed for stp :: "u32 \<Rightarrow> u32" and feed +
  fixes pack :: "u8 \<Rightarrow> u8 \<Rightarrow> u8 \<Rightarrow> u8 \<Rightarrow> u32"
  assumes four_bytes: "crc_run stp feed r [a, b, c, d] = (stp ^^ 32) (r XOR pack a b c d)"
    and pack_inj: "pack a b c d = pack a' b' c' d' \<Longrightarrow> [a, b, c, d] = [a', b', c', d']"
begin

lemma four_bytes_inj:
  assumes "length xs = 4" "length ys = 4"
  shows "crc_run stp feed r xs = crc_run stp feed r ys \<longleftrightarrow> xs = ys"
proof -
  obtain a b c d where xs: "xs = [a, b, c, d]"
    using assms(1) by (auto simp: numeral_eq_Suc length_Suc_conv)
  obtain a' b' c' d' where ys: "ys = [a', b', c', d']"
    using assms(2) by (auto simp: numeral_eq_Suc length_Suc_conv)
  show ?thesis
    unfolding xs ys four_bytes steps_inj word_xor_eq_iff by (auto dest: pack_inj)
qed

text \<open>Any change confined to four consecutive bytes changes the CRC.\<close>

lemma burst:
  assumes "length xs = 4" "length ys = 4"
  shows "crc_run stp feed r (as @ xs @ bs) = crc_run stp feed r (as @ ys @ bs) \<longleftrightarrow> xs = ys"
  using assms by (simp add: crc_run_append run_inj four_bytes_inj)

text \<open>Feeding a register its own value, in its own byte order, clears it.\<close>

lemma cancel: "pack a b c d = r \<Longrightarrow> crc_run stp feed r [a, b, c, d] = 0"
  by (simp only: four_bytes) simp

end

subsection \<open>Most significant bit first\<close>

definition msb_step :: "'w::len word \<Rightarrow> 'w word \<Rightarrow> 'w word" where
  "msb_step poly r = (if r AND push_bit (LENGTH('w) - 1) 1 \<noteq> 0 then push_bit 1 r XOR poly else push_bit 1 r)"

definition msb_feed :: "u8 \<Rightarrow> 'w::len word" where
  "msb_feed b = push_bit (LENGTH('w) - 8) (ucast b)"

lemma msb_step_alt:
  "msb_step poly (r :: 'w::len word) = push_bit 1 r XOR (if bit r (LENGTH('w) - 1) then poly else 0)"
  by (simp add: msb_step_def and_exp_eq_0_iff_not_bit)

lemma msb_step_xor: "msb_step poly (a XOR b) = msb_step poly a XOR msb_step poly b"
  by (auto simp: msb_step_alt bit_xor_iff xor.assoc xor.left_commute)

lemma msb_feed_xor: "msb_feed (x XOR y) = msb_feed x XOR msb_feed y"
  by (simp add: msb_feed_def ucast_xor_8)

lemma msb_steps_shift:
  "(\<And>i. LENGTH('w) - k \<le> i \<Longrightarrow> \<not> bit r i) \<Longrightarrow> (msb_step poly ^^ k) (r :: 'w::len word) = push_bit k r"
proof (induction k arbitrary: r)
  case 0
  then show ?case by simp
next
  case (Suc k)
  have "msb_step poly r = push_bit 1 r"
    using Suc.prems [of "LENGTH('w) - 1"] by (simp add: msb_step_alt)
  moreover have "(msb_step poly ^^ k) (push_bit 1 r) = push_bit k (push_bit 1 r)"
    using Suc.prems by (intro Suc.IH) (auto simp: bit_simps)
  ultimately show ?case
    by (simp add: funpow_Suc_right del: funpow.simps)
qed

lemma msb_shift_out:
  assumes "8 \<le> LENGTH('w)"
  shows "(msb_step poly ^^ 8) (r XOR msb_feed (ucast (drop_bit (LENGTH('w) - 8) r))) = push_bit 8 (r :: 'w::len word)"
proof -
  let ?r = "r XOR msb_feed (ucast (drop_bit (LENGTH('w) - 8) r))"
  have "\<not> bit ?r i" if "LENGTH('w) - 8 \<le> i" for i
    using that assms by (auto simp: msb_feed_def bit_simps dest: bit_imp_le_length)
  then have "(msb_step poly ^^ 8) ?r = push_bit 8 ?r"
    by (rule msb_steps_shift)
  also have "\<dots> = push_bit 8 r"
    using assms by (intro bit_word_eqI) (auto simp: msb_feed_def bit_simps)
  finally show ?thesis .
qed

lemma msb_step_inj:
  assumes odd: "bit poly 0" and eq: "msb_step poly a = msb_step poly (b :: 'w::len word)"
  shows "a = b"
proof -
  have "bit (msb_step poly a) 0 \<longleftrightarrow> bit a (LENGTH('w) - 1)" for a :: "'w word"
    using odd by (auto simp: msb_step_alt bit_simps)
  with eq have top: "bit a (LENGTH('w) - 1) \<longleftrightarrow> bit b (LENGTH('w) - 1)" by metis
  then have eq1: "push_bit 1 a = push_bit 1 b"
    using eq by (auto simp: msb_step_alt xor.commute word_xor_eq_iff)
  show ?thesis
  proof (rule bit_word_eqI)
    fix i assume i: "i < LENGTH('w)"
    show "bit a i = bit b i"
    proof (cases "i = LENGTH('w) - 1")
      case False
      with i have "bit (push_bit 1 x) (Suc i) = bit x i" for x :: "'w word"
        by (auto simp: bit_simps)
      with eq1 show ?thesis by metis
    qed (use top in simp)
  qed
qed

lemma msb_feed_inj: "8 \<le> LENGTH('w) \<Longrightarrow> msb_feed x = (msb_feed y :: 'w::len word) \<Longrightarrow> x = y"
proof (rule bit_word_eqI)
  fix n assume len: "8 \<le> LENGTH('w)" and eq: "msb_feed x = (msb_feed y :: 'w word)" and n: "n < LENGTH(8)"
  have "bit (msb_feed z :: 'w word) (n + (LENGTH('w) - 8)) = bit z n" for z
    using len n by (auto simp: msb_feed_def bit_simps)
  with eq show "bit x n = bit y n" by metis
qed

lemma crc_register_msb: "crc_register (msb_step poly) msb_feed"
  by unfold_locales (simp_all add: msb_step_xor msb_feed_xor)

lemma crc_reversible_msb:
  "8 \<le> LENGTH('w) \<Longrightarrow> bit poly 0 \<Longrightarrow> crc_reversible (msb_step (poly :: 'w::len word)) msb_feed"
  by (intro crc_reversible.intro crc_register_msb crc_reversible_axioms.intro)
    (auto intro: msb_step_inj msb_feed_inj)

subsection \<open>Least significant bit first\<close>

definition lsb_step :: "'w::len word \<Rightarrow> 'w word \<Rightarrow> 'w word" where
  "lsb_step poly r = (if r AND 1 \<noteq> 0 then drop_bit 1 r XOR poly else drop_bit 1 r)"

definition lsb_feed :: "u8 \<Rightarrow> 'w::len word" where
  "lsb_feed b = ucast b"

lemma lsb_step_alt:
  "lsb_step poly r = drop_bit 1 r XOR (if bit r 0 then poly else 0)"
  by (simp add: lsb_step_def and_one_neq_zero_iff)

lemma lsb_step_xor: "lsb_step poly (a XOR b) = lsb_step poly a XOR lsb_step poly b"
  by (auto simp: lsb_step_alt bit_xor_iff xor.assoc xor.left_commute)

lemma lsb_feed_xor: "lsb_feed (x XOR y) = lsb_feed x XOR lsb_feed y"
  by (simp add: lsb_feed_def ucast_xor_8)

lemma lsb_steps_shift:
  "(\<And>i. i < k \<Longrightarrow> \<not> bit r i) \<Longrightarrow> (lsb_step poly ^^ k) r = drop_bit k r"
proof (induction k arbitrary: r)
  case 0
  then show ?case by simp
next
  case (Suc k)
  have "lsb_step poly r = drop_bit 1 r"
    using Suc.prems [of 0] by (simp add: lsb_step_alt)
  moreover have "(lsb_step poly ^^ k) (drop_bit 1 r) = drop_bit k (drop_bit 1 r)"
    using Suc.prems by (intro Suc.IH) (auto simp: bit_drop_bit_eq)
  ultimately show ?case
    by (simp add: funpow_Suc_right del: funpow.simps)
qed

lemma lsb_shift_out:
  assumes "8 \<le> LENGTH('w)"
  shows "(lsb_step poly ^^ 8) (r XOR lsb_feed (ucast r)) = drop_bit 8 (r :: 'w::len word)"
proof -
  let ?r = "r XOR lsb_feed (ucast r)"
  have "\<not> bit ?r i" if "i < 8" for i
    using that assms by (auto simp: lsb_feed_def bit_simps dest: bit_imp_le_length)
  then have "(lsb_step poly ^^ 8) ?r = drop_bit 8 ?r"
    by (rule lsb_steps_shift)
  also have "\<dots> = drop_bit 8 r"
    by (intro bit_word_eqI) (auto simp: lsb_feed_def bit_simps)
  finally show ?thesis .
qed

lemma lsb_step_inj:
  assumes top: "bit poly (LENGTH('w) - 1)" and eq: "lsb_step poly a = lsb_step poly (b :: 'w::len word)"
  shows "a = b"
proof -
  have "bit (lsb_step poly a) (LENGTH('w) - 1) \<longleftrightarrow> bit a 0" for a :: "'w word"
    using top by (auto simp: lsb_step_alt bit_simps)
  with eq have low: "bit a 0 \<longleftrightarrow> bit b 0" by metis
  then have eq1: "drop_bit 1 a = drop_bit 1 b"
    using eq by (auto simp: lsb_step_alt xor.commute word_xor_eq_iff)
  show ?thesis
  proof (rule bit_word_eqI)
    fix i assume "i < LENGTH('w)"
    show "bit a i = bit b i"
    proof (cases i)
      case (Suc j)
      have "bit (drop_bit 1 x) j = bit x i" for x :: "'w word"
        by (simp add: bit_drop_bit_eq Suc)
      with eq1 show ?thesis by metis
    qed (use low in simp)
  qed
qed

lemma lsb_feed_inj: "8 \<le> LENGTH('w) \<Longrightarrow> lsb_feed x = (lsb_feed y :: 'w::len word) \<Longrightarrow> x = y"
proof (rule bit_word_eqI)
  fix n assume len: "8 \<le> LENGTH('w)" and eq: "lsb_feed x = (lsb_feed y :: 'w word)" and n: "n < LENGTH(8)"
  have "bit (lsb_feed z :: 'w word) n = bit z n" for z
    using len n by (auto simp: lsb_feed_def bit_simps)
  with eq show "bit x n = bit y n" by metis
qed

lemma crc_register_lsb: "crc_register (lsb_step poly) lsb_feed"
  by unfold_locales (simp_all add: lsb_step_xor lsb_feed_xor)

lemma crc_reversible_lsb:
  "8 \<le> LENGTH('w) \<Longrightarrow> bit poly (LENGTH('w) - 1) \<Longrightarrow>
   crc_reversible (lsb_step (poly :: 'w::len word)) lsb_feed"
  by (intro crc_reversible.intro crc_register_lsb crc_reversible_axioms.intro)
    (auto intro: lsb_step_inj lsb_feed_inj)

subsection \<open>Four bytes at once\<close>

text \<open>
  Both 32 bit registers take four bytes as one word, least significant byte first for the one and most
  significant byte first for the other.
\<close>

lemma be32_low_byte: "be32_of_bytes d c b a = lsb_feed a XOR be32_of_bytes d c b 0"
  by (rule bit_word_eqI) (auto simp: be32_of_bytes_def lsb_feed_def bit_simps)

lemma be32_high_byte: "be32_of_bytes a b c d = msb_feed a XOR be32_of_bytes 0 b c d"
  by (rule bit_word_eqI) (auto simp: be32_of_bytes_def msb_feed_def bit_simps)

lemma lsb_steps_byte: "(lsb_step poly ^^ 8) (be32_of_bytes d c b 0) = be32_of_bytes 0 d c b"
proof -
  have "(lsb_step poly ^^ 8) (be32_of_bytes d c b 0) = drop_bit 8 (be32_of_bytes d c b 0)"
    by (rule lsb_steps_shift) (auto simp: be32_of_bytes_def bit_simps)
  also have "\<dots> = be32_of_bytes 0 d c b"
    by (rule bit_word_eqI) (auto simp: be32_of_bytes_def bit_simps)
  finally show ?thesis .
qed

lemma msb_steps_byte: "(msb_step poly ^^ 8) (be32_of_bytes 0 b c d) = be32_of_bytes b c d 0"
proof -
  have "(msb_step poly ^^ 8) (be32_of_bytes 0 b c d) = push_bit 8 (be32_of_bytes 0 b c d)"
    by (rule msb_steps_shift) (auto simp: be32_of_bytes_def bit_simps)
  also have "\<dots> = be32_of_bytes b c d 0"
    by (rule bit_word_eqI) (auto simp: be32_of_bytes_def bit_simps)
  finally show ?thesis .
qed

lemma funpow_32: "(f ^^ 32) x = (f ^^ 8) ((f ^^ 8) ((f ^^ 8) ((f ^^ 8) x)))"
  by (simp only: funpow_add_apply [symmetric]) simp

lemma be32_zero [simp]: "be32_of_bytes 0 0 0 0 = 0"
  by (simp add: be32_of_bytes_def)

lemma lsb_four_bytes:
  "crc_run (lsb_step poly) lsb_feed r [a, b, c, d] = (lsb_step poly ^^ 32) (r XOR be32_of_bytes d c b a)"
proof -
  have s: "(lsb_step poly ^^ 8) (r XOR be32_of_bytes z y x w)
      = crc_byte (lsb_step poly) lsb_feed r w XOR be32_of_bytes 0 z y x" for r w x y z
    by (simp add: crc_byte_def be32_low_byte [of z y x w] lsb_steps_byte
        crc_register.steps_xor [OF crc_register_lsb] xor.assoc [symmetric])
  show ?thesis
    by (simp add: funpow_32 s)
qed

lemma msb_four_bytes:
  "crc_run (msb_step poly) msb_feed r [a, b, c, d] = (msb_step poly ^^ 32) (r XOR be32_of_bytes a b c d)"
proof -
  have s: "(msb_step poly ^^ 8) (r XOR be32_of_bytes w x y z)
      = crc_byte (msb_step poly) msb_feed r w XOR be32_of_bytes x y z 0" for r w x y z
    by (simp add: crc_byte_def be32_high_byte [of w x y z] msb_steps_byte
        crc_register.steps_xor [OF crc_register_msb] xor.assoc [symmetric])
  show ?thesis
    by (simp add: funpow_32 s)
qed

lemma crc_wide_lsb:
  "bit poly 31 \<Longrightarrow> crc_wide (lsb_step poly) lsb_feed (\<lambda>a b c d. be32_of_bytes d c b a)"
  by (intro crc_wide.intro crc_reversible_lsb crc_wide_axioms.intro lsb_four_bytes)
    (simp_all add: be32_of_bytes_inj)

lemma crc_wide_msb:
  "bit poly 0 \<Longrightarrow> crc_wide (msb_step poly) msb_feed be32_of_bytes"
  by (intro crc_wide.intro crc_reversible_msb crc_wide_axioms.intro msb_four_bytes)
    (simp_all add: be32_of_bytes_inj)

subsection \<open>Evaluation\<close>

text \<open>Equations that keep the register within its width, so that the simplifier evaluates a run.\<close>

lemma msb_step_masked:
  "msb_step poly (r :: 'w::len word) =
     (if r AND 2 ^ (LENGTH('w) - 1) = 0 then 2 * r else 2 * (r AND mask (LENGTH('w) - 1)) XOR poly)"
proof -
  have "2 * (r AND mask (LENGTH('w) - 1)) = 2 * r"
    by (rule bit_word_eqI) (auto simp: bit_double_iff bit_and_iff bit_mask_iff)
  then show ?thesis
    by (simp add: msb_step_alt and_exp_eq_0_iff_not_bit mult.commute)
qed

lemma msb_step_eval:
  "msb_step poly (numeral r :: u16) =
     (if numeral r AND (0x8000 :: u16) = 0 then 2 * numeral r else 2 * (numeral r AND 0x7FFF) XOR poly)"
  "msb_step poly' (numeral r :: u32) =
     (if numeral r AND (0x80000000 :: u32) = 0 then 2 * numeral r else 2 * (numeral r AND 0x7FFFFFFF) XOR poly')"
  "msb_step poly'' 0 = (0 :: 'w::len word)"
  by (simp_all add: msb_step_masked mask_eq_exp_minus_1)

lemma crc_byte_eval:
  "crc_byte (msb_step poly) msb_feed (numeral r) (numeral b) =
     (msb_step poly ^^ 8) (numeral r XOR msb_feed (numeral b))"
  "crc_byte (msb_step poly) msb_feed 0 (numeral b) = (msb_step poly ^^ 8) (msb_feed (numeral b))"
  by (simp_all add: crc_byte_def)

lemma lsb_step_eval:
  "lsb_step poly (numeral r :: 'w::len word) =
     (if numeral r AND (1 :: 'w word) \<noteq> 0 then drop_bit 1 (numeral r) XOR poly else drop_bit 1 (numeral r))"
  "lsb_step poly 0 = (0 :: 'w::len word)"
  "lsb_step poly (1 :: 'w::len word) = (if LENGTH('w) = 1 then drop_bit 1 1 XOR poly else poly)"
  by (simp_all only: lsb_step_def) simp_all

end
