(* ===== verification/Crc_Lib.thy ===== *)
theory Crc_Lib
  imports Crc_Engine
begin

unbundle bit_operations_syntax

section \<open>The CRC library of the NAND boot path (lib/crc32.c, lib/include/lib_crc.h)\<close>

text \<open>
  \<^verbatim>\<open>lib_crc.h\<close> selects one of three CRC standards at compile time; here a standard is a value, and the
  routines of \<^verbatim>\<open>crc32.c\<close> take it as their first argument. The C type \<open>crc\<close> is the word type of the
  standard: 16 bits for the two short standards, 32 bits for \<open>CRC32\<close> (\<open>unsigned long\<close> of the MIPS32
  target). A message is the list of its bytes and its length is passed beside it, as in C.
\<close>

record 'c crc_std =
  POLYNOMIAL :: 'c
  INITIAL_REMAINDER :: 'c
  FINAL_XOR_VALUE :: 'c
  REFLECT_DATA :: bool
  REFLECT_REMAINDER :: bool
  CHECK_VALUE :: 'c

definition CRC_CCITT :: "u16 crc_std" where
  "CRC_CCITT = \<lparr>POLYNOMIAL = 0x1021, INITIAL_REMAINDER = 0xFFFF, FINAL_XOR_VALUE = 0x0000,
     REFLECT_DATA = False, REFLECT_REMAINDER = False, CHECK_VALUE = 0x29B1\<rparr>"

definition CRC16 :: "u16 crc_std" where
  "CRC16 = \<lparr>POLYNOMIAL = 0x8005, INITIAL_REMAINDER = 0x0000, FINAL_XOR_VALUE = 0x0000,
     REFLECT_DATA = True, REFLECT_REMAINDER = True, CHECK_VALUE = 0xBB3D\<rparr>"

definition CRC32 :: "u32 crc_std" where
  "CRC32 = \<lparr>POLYNOMIAL = 0x04C11DB7, INITIAL_REMAINDER = 0xFFFFFFFF, FINAL_XOR_VALUE = 0,
     REFLECT_DATA = True, REFLECT_REMAINDER = True, CHECK_VALUE = 0xCBF43926\<rparr>"

subsection \<open>reflect\<close>

text \<open>
  The loop runs \<open>bit\<close> from 0 up to \<open>nBits\<close>; the model recurses on the rounds that are left, so that
  \<open>(nBits - 1) - bit\<close> is the recursion argument.
\<close>

fun reflect_loop :: "nat \<Rightarrow> u32 \<Rightarrow> u32 \<Rightarrow> u32" where
  "reflect_loop 0 data reflection = reflection"
| "reflect_loop (Suc k) data reflection =
     reflect_loop k (drop_bit 1 data)
       (if data AND 1 \<noteq> 0 then reflection OR push_bit k 1 else reflection)"

definition reflect :: "u32 \<Rightarrow> nat \<Rightarrow> u32" where
  "reflect data nBits = reflect_loop nBits data 0"

lemma bit_reflect_loop:
  "n \<le> 32 \<Longrightarrow> bit (reflect_loop n d r) i \<longleftrightarrow> bit r i \<or> (i < n \<and> bit d (n - 1 - i))"
proof (induction n arbitrary: d r)
  case 0
  then show ?case by simp
next
  case (Suc k)
  let ?r = "if d AND 1 \<noteq> 0 then r OR push_bit k 1 else r"
  have r: "bit ?r i \<longleftrightarrow> bit r i \<or> (i = k \<and> bit d 0)"
    using Suc.prems by (auto simp: and_one_neq_zero_iff bit_simps)
  have d: "bit (drop_bit 1 d) (k - 1 - i) \<longleftrightarrow> bit d (k - i)" if "i < k"
  proof -
    have "1 + (k - 1 - i) = k - i"
      using that by arith
    then show ?thesis
      by (simp only: bit_drop_bit_eq comp_def)
  qed
  have "bit (reflect_loop k (drop_bit 1 d) ?r) i \<longleftrightarrow> bit ?r i \<or> (i < k \<and> bit (drop_bit 1 d) (k - 1 - i))"
    by (rule Suc.IH) (use Suc.prems in simp)
  then have "bit (reflect_loop k (drop_bit 1 d) ?r) i \<longleftrightarrow> bit ?r i \<or> (i < k \<and> bit d (k - i))"
    using d by blast
  then show ?case
    unfolding reflect_loop.simps r by (cases "i = k") (simp_all add: less_Suc_eq)
qed

lemma bit_reflect: "n \<le> 32 \<Longrightarrow> bit (reflect d n) i \<longleftrightarrow> i < n \<and> bit d (n - 1 - i)"
  by (simp add: reflect_def bit_reflect_loop)

lemma reflect_32: "reflect d 32 = word_reverse d"
  by (rule bit_word_eqI) (simp add: bit_reflect bit_simps)

lemma reflect_8: "reflect (ucast (b :: u8)) 8 = ucast (word_reverse b)"
  by (rule bit_word_eqI) (auto simp: bit_reflect bit_simps)

text \<open>
  For every bit count up to 32 \<open>reflect\<close> mirrors the low \<open>nBits\<close> bits about their middle and
  clears the rest, so applying it twice gives back the value truncated to \<open>nBits\<close> bits.
\<close>

theorem reflect_involution:
  assumes "n \<le> 32"
  shows "reflect (reflect d n) n = take_bit n d \<and>
    (\<forall>i. bit (reflect d n) i \<longleftrightarrow> i < n \<and> bit d (n - 1 - i))"
  using assms by (auto intro!: bit_word_eqI simp: bit_reflect bit_simps)

theorem reflect_involution_witness:
  "(8 :: nat) \<le> 32 \<and> reflect (reflect 0x131 8) 8 = take_bit 8 0x131"
  using reflect_involution [of 8 "0x131"] by simp

subsection \<open>crcSlow, crcInit and crcFast\<close>

definition reflect_data :: "'c crc_std \<Rightarrow> u8 \<Rightarrow> u8" where
  "reflect_data S X = (if REFLECT_DATA S then ucast (reflect (ucast X) 8) else X)"

definition reflect_remainder :: "'w::len word crc_std \<Rightarrow> 'w word \<Rightarrow> 'w word" where
  "reflect_remainder S X = (if REFLECT_REMAINDER S then ucast (reflect (ucast X) LENGTH('w)) else X)"

definition crc_divide_bit :: "'w::len word crc_std \<Rightarrow> 'w word \<Rightarrow> 'w word" where
  "crc_divide_bit S remainder =
     (if remainder AND push_bit (LENGTH('w) - 1) 1 \<noteq> 0
      then push_bit 1 remainder XOR POLYNOMIAL S
      else push_bit 1 remainder)"

definition crcSlow :: "'w::len word crc_std \<Rightarrow> u8 list \<Rightarrow> int \<Rightarrow> 'w word" where
  "crcSlow S message nBytes =
     (let remainder =
        foldl (\<lambda>remainder m.
            (crc_divide_bit S ^^ 8) (remainder XOR push_bit (LENGTH('w) - 8) (ucast (reflect_data S m))))
          (INITIAL_REMAINDER S) (take (nat nBytes) message)
      in reflect_remainder S remainder XOR FINAL_XOR_VALUE S)"

definition crcInit :: "'w::len word crc_std \<Rightarrow> 'w word list" where
  "crcInit S =
     map (\<lambda>dividend. (crc_divide_bit S ^^ 8) (push_bit (LENGTH('w) - 8) (of_nat dividend))) [0..<256]"

definition crcFast :: "'w::len word crc_std \<Rightarrow> 'w word list \<Rightarrow> u8 list \<Rightarrow> int \<Rightarrow> 'w word" where
  "crcFast S crcTable message nBytes =
     (let remainder =
        foldl (\<lambda>remainder m.
            (let data = reflect_data S m XOR ucast (drop_bit (LENGTH('w) - 8) remainder)
             in crcTable ! unat data XOR push_bit 8 remainder))
          (INITIAL_REMAINDER S) (take (nat nBytes) message)
      in reflect_remainder S remainder XOR FINAL_XOR_VALUE S)"

lemma crc_divide_bit_msb: "crc_divide_bit S = msb_step (POLYNOMIAL S)"
  by (rule ext) (simp add: crc_divide_bit_def msb_step_def)

lemma length_crcInit [simp]: "length (crcInit S) = 256"
  by (simp add: crcInit_def)

lemma crcInit_nth:
  "i < 256 \<Longrightarrow> crcInit S ! i = (msb_step (POLYNOMIAL S) ^^ 8) (msb_feed (of_nat i))"
  by (simp add: crcInit_def crc_divide_bit_msb msb_feed_def take_bit_nat_eq_self unsigned_of_nat)

lemma crc_table_lib:
  "8 \<le> LENGTH('w) \<Longrightarrow>
   crc_table (msb_step (POLYNOMIAL (S :: 'w::len word crc_std))) msb_feed
     (\<lambda>r. ucast (drop_bit (LENGTH('w) - 8) r)) (push_bit 8) (crcInit S)"
  by (intro crc_table.intro crc_register_msb crc_table_axioms.intro)
    (simp_all add: msb_shift_out crcInit_nth)

lemma crcSlow_run:
  "crcSlow S message n = reflect_remainder S
     (crc_run (msb_step (POLYNOMIAL S)) msb_feed (INITIAL_REMAINDER S)
       (map (reflect_data S) (take (nat n) message))) XOR FINAL_XOR_VALUE S"
  by (simp add: crcSlow_def crc_run_def crc_byte_def msb_feed_def crc_divide_bit_msb foldl_map)

lemma crcFast_run:
  assumes "8 \<le> LENGTH('w)"
  shows "crcFast S (crcInit S) message n = reflect_remainder (S :: 'w::len word crc_std)
     (crc_run (msb_step (POLYNOMIAL S)) msb_feed (INITIAL_REMAINDER S)
       (map (reflect_data S) (take (nat n) message))) XOR FINAL_XOR_VALUE S"
proof -
  have "foldl (\<lambda>r m. crcInit S ! unat (reflect_data S m XOR ucast (drop_bit (LENGTH('w) - 8) r))
      XOR push_bit 8 r) r ms
    = crc_run (msb_step (POLYNOMIAL S)) msb_feed r (map (reflect_data S) ms)" for r ms
    using crc_table.lookup_run [OF crc_table_lib [OF assms, of S], of r "map (reflect_data S) ms"]
    by (simp add: foldl_map)
  then show ?thesis
    by (simp add: crcFast_def Let_def)
qed

text \<open>The three standards interpret the interfaces: all are table driven and reversible.\<close>

interpretation ccitt: crc_table "msb_step (POLYNOMIAL CRC_CCITT)" msb_feed
  "\<lambda>r. ucast (drop_bit (LENGTH(16) - 8) r)" "push_bit 8" "crcInit CRC_CCITT"
  by (rule crc_table_lib) simp

interpretation crc16: crc_table "msb_step (POLYNOMIAL CRC16)" msb_feed
  "\<lambda>r. ucast (drop_bit (LENGTH(16) - 8) r)" "push_bit 8" "crcInit CRC16"
  by (rule crc_table_lib) simp

interpretation crc32: crc_table "msb_step (POLYNOMIAL CRC32)" msb_feed
  "\<lambda>r. ucast (drop_bit (LENGTH(32) - 8) r)" "push_bit 8" "crcInit CRC32"
  by (rule crc_table_lib) simp

text \<open>
  C18. The table driven \<open>crcFast\<close>, run with the table \<open>crcInit\<close> fills, returns what the bit by bit
  \<open>crcSlow\<close> returns, for every standard of a width of at least eight bits, every message and every
  byte count.
\<close>

theorem crcFast_eq_crcSlow:
  assumes "8 \<le> LENGTH('w)"
  shows "crcFast S (crcInit S) message nBytes = crcSlow (S :: 'w::len word crc_std) message nBytes"
  using crcFast_run [OF assms, of S message nBytes] by (simp add: crcSlow_run)

theorem crcFast_eq_crcSlow_witness:
  "8 \<le> LENGTH(16) \<and> crcFast CRC16 (crcInit CRC16) [0x31, 0x32] 2 = crcSlow CRC16 [0x31, 0x32] 2"
  using crcFast_eq_crcSlow [of CRC16 "[0x31, 0x32]" 2] by simp

definition crc_test_message :: "u8 list" where
  "crc_test_message = [0x31, 0x32, 0x33, 0x34, 0x35, 0x36, 0x37, 0x38, 0x39]"

text \<open>The conversion of a run on literals is by the equations of the engine and these.\<close>

lemma reflect_loop_eval:
  "reflect_loop (numeral k) d r =
     reflect_loop (pred_numeral k) (drop_bit 1 d) (if d AND 1 = 0 then r else r OR 2 ^ pred_numeral k)"
  by (simp add: numeral_eq_Suc)

lemma reflect_eval: "reflect (numeral d) n = reflect_loop n (numeral d) 0"
  by (simp add: reflect_def)

lemmas crc_eval = crcSlow_run msb_feed_def msb_step_eval crc_byte_eval funpow_8
  crc_test_message_def reflect_data_def reflect_remainder_def reflect_eval reflect_loop_eval

lemma crcSlow_ccitt_test: "crcSlow CRC_CCITT crc_test_message 9 = 0x29B1"
  by (simp add: crc_eval CRC_CCITT_def)
lemma crcSlow_crc16_test: "crcSlow CRC16 crc_test_message 9 = 0xBB3D"
  by (simp add: crc_eval CRC16_def)
lemma crcSlow_crc32_test: "crcSlow CRC32 crc_test_message 9 = 0x340BC6D9"
  by (simp add: crc_eval CRC32_def)

text \<open>
  The test message \<open>123456789\<close> of \<^verbatim>\<open>crc32.c\<close>: the two 16 bit standards return the check value
  that \<^verbatim>\<open>lib_crc.h\<close> lists for them, the 32 bit standard does not, because the header sets its final
  exclusive-or to 0: it returns the complement of the listed value.
\<close>

theorem crc_check_values:
  "crcFast CRC_CCITT (crcInit CRC_CCITT) crc_test_message 9 = CHECK_VALUE CRC_CCITT
   \<and> crcFast CRC16 (crcInit CRC16) crc_test_message 9 = CHECK_VALUE CRC16
   \<and> crcFast CRC32 (crcInit CRC32) crc_test_message 9 = NOT (CHECK_VALUE CRC32)"
proof (intro conjI)
  show "crcFast CRC_CCITT (crcInit CRC_CCITT) crc_test_message 9 = CHECK_VALUE CRC_CCITT"
    using crcSlow_ccitt_test by (simp add: crcFast_run crcSlow_run CRC_CCITT_def)
  show "crcFast CRC16 (crcInit CRC16) crc_test_message 9 = CHECK_VALUE CRC16"
    using crcSlow_crc16_test by (simp add: crcFast_run crcSlow_run CRC16_def)
  show "crcFast CRC32 (crcInit CRC32) crc_test_message 9 = NOT (CHECK_VALUE CRC32)"
    using crcSlow_crc32_test by (simp add: crcFast_run crcSlow_run CRC32_def)
qed

subsection \<open>Error detection\<close>

lemma reflect_data_inj: "reflect_data S x = reflect_data S y \<longleftrightarrow> x = y"
  by (simp add: reflect_data_def reflect_8)

lemma reflect_remainder_inj:
  assumes "LENGTH('w) \<le> 32"
  shows "reflect_remainder (S :: 'w::len word crc_std) x = reflect_remainder S y \<longleftrightarrow> x = y"
proof -
  have rev: "ucast (reflect (ucast x) LENGTH('w)) = word_reverse x" for x :: "'w word"
    by (rule bit_word_eqI) (use assms in \<open>auto simp: bit_reflect bit_simps\<close>)
  show ?thesis
    by (simp add: reflect_remainder_def rev)
qed

text \<open>
  Error detection: with a polynomial whose constant term is one (all three standards), two
  messages of one length that differ in exactly one byte never have the same CRC.
\<close>

theorem crcSlow_detects_byte:
  assumes "8 \<le> LENGTH('w)" "LENGTH('w) \<le> 32" and "bit (POLYNOMIAL S) 0"
  shows "crcSlow (S :: 'w::len word crc_std) (as @ x # bs) (int (length as + length bs + 1))
       = crcSlow S (as @ y # bs) (int (length as + length bs + 1)) \<longleftrightarrow> x = y"
proof -
  let ?n = "int (length as + length bs + 1)"
  have nat_n: "nat ?n = Suc (length as + length bs)" by simp
  have "crcSlow S (as @ x # bs) ?n = crcSlow S (as @ y # bs) ?n \<longleftrightarrow>
      crc_run (msb_step (POLYNOMIAL S)) msb_feed (INITIAL_REMAINDER S) (map (reflect_data S) as @ reflect_data S x # map (reflect_data S) bs)
    = crc_run (msb_step (POLYNOMIAL S)) msb_feed (INITIAL_REMAINDER S) (map (reflect_data S) as @ reflect_data S y # map (reflect_data S) bs)"
    unfolding crcSlow_run nat_n
    by (simp add: xor.commute [of _ "FINAL_XOR_VALUE S"] word_xor_eq_iff reflect_remainder_inj [OF assms(2)])
  also have "\<dots> \<longleftrightarrow> x = y"
    using crc_reversible.one_byte [OF crc_reversible_msb [OF assms(1) assms(3)]]
    by (simp add: reflect_data_inj)
  finally show ?thesis .
qed

theorem crcSlow_detects_byte_witness:
  "crcSlow CRC32 [0x31, 0x32, 0x33] 3 \<noteq> crcSlow CRC32 [0x31, 0x42, 0x33] 3"
  using crcSlow_detects_byte [of CRC32 "[0x31]" "0x32" "[0x33]" "0x42"]
  by (simp add: CRC32_def bit_0)

end
