(* ===== verification/General_Ops.thy ===== *)
theory General_Ops
  imports Prelude
begin

unbundle bit_operations_syntax

section \<open>The macro headers: byte order, ring indices and register fields\<close>

text \<open>
  \<^verbatim>\<open>include/global_type.h\<close>, \<^verbatim>\<open>include/general_endian.h\<close> and \<^verbatim>\<open>include/general_bitsop.h\<close> hold the macros
  the rest of the tree is written with: byte selection and byte swapping, index wrap-around, and reads
  and writes of bit fields. Each macro is a function of the C values its arguments have; a field,
  which the macros build from the names \<open>F_FST\<close>/\<open>F_LEN\<close> or \<open>F_MSK\<close>/\<open>F_SHF\<close>, is a pair of numbers.
\<close>

subsection \<open>Bytes and byte order\<close>

definition BYTE :: "'w::len word \<Rightarrow> nat \<Rightarrow> 'w word" where
  "BYTE d n = drop_bit (n * 8) d AND 0xff"

definition SWAPEND32 :: "u32 \<Rightarrow> u32" where
  "SWAPEND32 d = push_bit 24 (BYTE d 0) OR push_bit 16 (BYTE d 1) OR
     push_bit 8 (BYTE d 2) OR push_bit 0 (BYTE d 3)"

definition SWAPEND64 :: "u64 \<Rightarrow> u64" where
  "SWAPEND64 d = push_bit 56 (BYTE d 0) OR push_bit 48 (BYTE d 1) OR
     push_bit 40 (BYTE d 2) OR push_bit 32 (BYTE d 3) OR
     push_bit 24 (BYTE d 4) OR push_bit 16 (BYTE d 5) OR
     push_bit 8 (BYTE d 6) OR push_bit 0 (BYTE d 7)"

definition HI32 :: "u64 \<Rightarrow> u32" where "HI32 d = ucast (drop_bit 32 d AND 0xffffffff)"
definition LO32 :: "u64 \<Rightarrow> u32" where "LO32 d = ucast (drop_bit 0 d AND 0xffffffff)"
definition HI16 :: "u32 \<Rightarrow> u16" where "HI16 d = ucast (drop_bit 16 d AND 0xffff)"
definition LO16 :: "u32 \<Rightarrow> u16" where "LO16 d = ucast (drop_bit 0 d AND 0xffff)"

definition SWAP_BYTEADDR32 :: "u32 \<Rightarrow> u32" where
  "SWAP_BYTEADDR32 a = (a AND NOT 3) OR (3 - (a AND 3))"

definition SWAP_UINT16ADDR32 :: "u32 \<Rightarrow> u32" where
  "SWAP_UINT16ADDR32 a = (a AND NOT 2) OR (2 - (a AND 2))"

text \<open>\<open>EB\<close> selects the big-endian build, in which the \<open>LE\<close> conversions swap and the \<open>BE\<close> ones do not.\<close>

definition CPU_TO_LE32 :: "bool \<Rightarrow> u32 \<Rightarrow> u32" where
  "CPU_TO_LE32 EB v = (if \<not> EB then v else
     push_bit 24 v OR push_bit 8 (0x0000FF00 AND v) OR drop_bit 8 (0x00FF0000 AND v) OR drop_bit 24 v)"

definition CPU_TO_BE32 :: "bool \<Rightarrow> u32 \<Rightarrow> u32" where
  "CPU_TO_BE32 EB v = (if EB then v else
     push_bit 24 v OR push_bit 8 (0x0000ff00 AND v) OR drop_bit 8 (0x00ff0000 AND v) OR drop_bit 24 v)"

definition CPU_TO_LE16 :: "bool \<Rightarrow> u16 \<Rightarrow> u16" where
  "CPU_TO_LE16 EB v = (if \<not> EB then v else push_bit 8 v OR drop_bit 8 v)"

definition CPU_TO_BE16 :: "bool \<Rightarrow> u16 \<Rightarrow> u16" where
  "CPU_TO_BE16 EB v = (if EB then v else push_bit 8 v OR drop_bit 8 v)"

lemma and_0xff: "(d :: 'a::len word) AND 0xff = take_bit 8 d"
  by (simp add: take_bit_eq_mask mask_eq_exp_minus_1)

lemma bit_BYTE [bit_simps]:
  "bit (BYTE (d :: 'w::len word) n) i \<longleftrightarrow> i < 8 \<and> i < LENGTH('w) \<and> bit d (n * 8 + i)"
  by (auto simp: BYTE_def and_0xff bit_simps dest: bit_imp_le_length)

lemma BYTE_ucast:
  "BYTE (d :: u32) 0 = ucast (ucast d :: u8)" "BYTE d 1 = ucast (ucast (drop_bit 8 d) :: u8)"
  "BYTE d 2 = ucast (ucast (drop_bit 16 d) :: u8)" "BYTE d 3 = ucast (ucast (drop_bit 24 d) :: u8)"
  by (auto intro!: bit_word_eqI simp: bit_simps)

lemma SWAPEND32_bytes:
  "SWAPEND32 d = be32_of_bytes (ucast d) (ucast (drop_bit 8 d)) (ucast (drop_bit 16 d)) (ucast (drop_bit 24 d))"
  unfolding SWAPEND32_def be32_of_bytes_def BYTE_ucast by simp

lemma SWAPEND32_of_bytes: "SWAPEND32 (be32_of_bytes a b c d) = be32_of_bytes d c b a"
  by (simp add: SWAPEND32_bytes)

lemma SWAPEND32_twice [simp]: "SWAPEND32 (SWAPEND32 d) = d"
  by (simp add: SWAPEND32_bytes)

lemma bit_SWAPEND32:
  assumes "j < 8" "k < 4"
  shows "bit (SWAPEND32 d) (8 * k + j) \<longleftrightarrow> bit d (8 * (3 - k) + j)"
proof -
  from \<open>k < 4\<close> consider "k = 0" | "k = 1" | "k = 2" | "k = 3"
    by linarith
  then show ?thesis
    by cases (use \<open>j < 8\<close> in \<open>simp_all add: SWAPEND32_def bit_simps\<close>)
qed

lemma bit_SWAPEND32_iff: "i < 32 \<Longrightarrow> bit (SWAPEND32 e) i \<longleftrightarrow> bit e (8 * (3 - i div 8) + i mod 8)"
  using bit_SWAPEND32 [of "i mod 8" "i div 8" e] by simp

lemma bit_SWAPEND64:
  assumes "j < 8" "k < 8"
  shows "bit (SWAPEND64 d) (8 * k + j) \<longleftrightarrow> bit d (8 * (7 - k) + j)"
proof -
  from \<open>k < 8\<close> consider "k = 0" | "k = 1" | "k = 2" | "k = 3" | "k = 4" | "k = 5" | "k = 6" | "k = 7"
    by linarith
  then show ?thesis
    by cases (use \<open>j < 8\<close> in \<open>simp_all add: SWAPEND64_def bit_simps\<close>)
qed

lemma SWAPEND64_twice [simp]: "SWAPEND64 (SWAPEND64 d) = d"
proof (rule bit_word_eqI)
  fix i assume i: "i < LENGTH(64)"
  have "i = 8 * (i div 8) + i mod 8" "i mod 8 < 8" "i div 8 < 8"
    using i by auto
  then show "bit (SWAPEND64 (SWAPEND64 d)) i = bit d i"
    using bit_SWAPEND64 [of "i mod 8" "i div 8" "SWAPEND64 d"] bit_SWAPEND64 [of "i mod 8" "7 - i div 8" d]
    by simp
qed

lemma and_field_mask:
  "(v :: 'a::len word) AND push_bit n (mask k) = push_bit n (take_bit k (drop_bit n v))"
  by (rule bit_word_eqI) (auto simp: bit_simps)

lemma CPU_TO_LE32_swap: "CPU_TO_LE32 EB v = (if EB then SWAPEND32 v else v)"
proof -
  have "push_bit 24 v OR push_bit 8 (0x0000FF00 AND v) OR drop_bit 8 (0x00FF0000 AND v) OR drop_bit 24 v
      = SWAPEND32 v"
  proof (rule bit_word_eqI)
    fix i assume "i < LENGTH(32)"
    have m: "0x0000FF00 AND v = push_bit 8 (take_bit 8 (drop_bit 8 v))"
      "0x00FF0000 AND v = push_bit 16 (take_bit 8 (drop_bit 16 v))"
      using and_field_mask [of v 8 8] and_field_mask [of v 16 8]
      by (simp_all add: and.commute mask_eq_exp_minus_1)
    consider "i < 8" | "8 \<le> i" "i < 16" | "16 \<le> i" "i < 24" | "24 \<le> i" "i < 32"
      using \<open>i < LENGTH(32)\<close> by fastforce
    then show "bit (push_bit 24 v OR push_bit 8 (0x0000FF00 AND v) OR drop_bit 8 (0x00FF0000 AND v)
        OR drop_bit 24 v) i = bit (SWAPEND32 v) i"
      unfolding m by cases (auto simp: SWAPEND32_def bit_simps)
  qed
  then show ?thesis by (simp add: CPU_TO_LE32_def)
qed

lemma SWAPEND32_xor: "SWAPEND32 (v XOR w) = SWAPEND32 v XOR SWAPEND32 w"
  by (rule bit_word_eqI) (simp add: bit_SWAPEND32_iff bit_xor_iff)

lemma CPU_TO_BE32_swap: "CPU_TO_BE32 EB v = (if EB then v else SWAPEND32 v)"
  using CPU_TO_LE32_swap [of "\<not> EB" v] by (simp add: CPU_TO_LE32_def CPU_TO_BE32_def)

subsection \<open>Ring indices\<close>

definition INC_WRAP :: "u32 \<Rightarrow> u32 \<Rightarrow> u32" where
  "INC_WRAP p sz = (p + 1) mod sz"

definition DEC_WRAP :: "u32 \<Rightarrow> u32 \<Rightarrow> u32" where
  "DEC_WRAP p sz = (if p = 0 then sz - 1 else p - 1)"

subsection \<open>Register fields\<close>

text \<open>A field given by mask and shift, as \<open>REGAWRI\<close>, \<open>REGWRI\<close> and \<open>REGARD\<close> take it.\<close>

definition REGARD :: "u32 \<Rightarrow> u32 \<Rightarrow> nat \<Rightarrow> u32" where
  "REGARD v msk shf = drop_bit shf (v AND msk)"

definition REGAWRI :: "u32 \<Rightarrow> u32 \<Rightarrow> nat \<Rightarrow> u32 \<Rightarrow> u32" where
  "REGAWRI v msk shf intval = (v AND NOT msk) OR push_bit shf intval"

definition REGWRI :: "u32 \<Rightarrow> u32 \<Rightarrow> nat \<Rightarrow> u32 \<Rightarrow> u32" where
  "REGWRI v msk shf intval = (v AND NOT msk) OR (push_bit shf intval AND msk)"

text \<open>A field given by its lowest bit and its length, as \<open>SETFIELD\<close> and \<open>GETFIELD\<close> take it.\<close>

definition ZEROMASK :: "nat \<Rightarrow> u32" where
  "ZEROMASK len = push_bit len 1 - 1"

definition FLDMASK :: "nat \<Rightarrow> nat \<Rightarrow> u32" where
  "FLDMASK lo len = push_bit lo (ZEROMASK len)"

definition SETFIELD :: "u32 \<Rightarrow> nat \<Rightarrow> nat \<Rightarrow> u32 \<Rightarrow> u32" where
  "SETFIELD var lo len v = (var AND NOT (FLDMASK lo len)) OR push_bit lo (v AND ZEROMASK len)"

definition GETFIELD :: "u32 \<Rightarrow> nat \<Rightarrow> nat \<Rightarrow> u32" where
  "GETFIELD v lo len = drop_bit lo v AND ZEROMASK len"

definition SETBIT :: "u32 \<Rightarrow> nat \<Rightarrow> bool \<Rightarrow> u32" where
  "SETBIT var n v = (if v then var OR push_bit n 1 else var AND NOT (push_bit n 1))"

definition GETBIT :: "u32 \<Rightarrow> nat \<Rightarrow> u32" where
  "GETBIT var n = drop_bit n var AND 1"

lemma ZEROMASK_mask: "ZEROMASK len = mask len"
  by (simp add: ZEROMASK_def mask_eq_exp_minus_1)

lemma bit_GETFIELD [bit_simps]: "bit (GETFIELD v lo len) n \<longleftrightarrow> n < len \<and> bit v (lo + n)"
  by (auto simp: GETFIELD_def ZEROMASK_mask bit_simps dest: bit_imp_le_length)

lemma bit_SETFIELD [bit_simps]:
  "bit (SETFIELD var lo len v) n \<longleftrightarrow>
     (if lo \<le> n \<and> n < lo + len then n < 32 \<and> bit v (n - lo) else bit var n)"
  by (auto simp: SETFIELD_def FLDMASK_def ZEROMASK_mask bit_simps dest: bit_imp_le_length)

lemma GETFIELD_SETFIELD_other:
  "lo2 + len2 \<le> lo \<or> lo + len \<le> lo2 \<Longrightarrow>
   GETFIELD (SETFIELD var lo len v) lo2 len2 = GETFIELD var lo2 len2"
  by (rule bit_word_eqI) (auto simp: bit_simps)

lemma GETFIELD_SETFIELD_same:
  "lo + len \<le> 32 \<Longrightarrow> GETFIELD (SETFIELD var lo len v) lo len = take_bit len v"
  by (rule bit_word_eqI) (auto simp: bit_simps)

subsection \<open>The laws of the macros\<close>

lemma SWAPEND64_halves:
  "HI32 (SWAPEND64 d) = SWAPEND32 (LO32 d) \<and> LO32 (SWAPEND64 d) = SWAPEND32 (HI32 d)"
proof -
  have m: "x AND 0xffffffff = take_bit 32 x" for x :: u64
    by (simp add: take_bit_eq_mask mask_eq_exp_minus_1)
  have s64: "bit (SWAPEND64 d) i \<longleftrightarrow> bit d (8 * (7 - i div 8) + i mod 8)" if "i < 64" for i
    using bit_SWAPEND64 [of "i mod 8" "i div 8" d] that by simp
  have mod8: "(32 + i) mod 8 = i mod 8" for i :: nat
    by presburger
  have hi: "8 * (7 - (32 + i) div 8) + (32 + i) mod 8 = 8 * (3 - i div 8) + i mod 8"
    "8 * (3 - i div 8) + i mod 8 < 32"
    "8 * (7 - i div 8) + i mod 8 = 32 + (8 * (3 - i div 8) + i mod 8)" if "i < 32" for i :: nat
    using that by (auto simp: div_add1_eq mod8)
  show ?thesis
    by (intro conjI bit_word_eqI)
      (simp_all add: HI32_def LO32_def m bit_simps bit_SWAPEND32_iff s64 hi)
qed

text \<open>
  The byte order macros agree with each other: \<open>SWAPEND32\<close> reverses the four bytes and undoes itself,
  \<open>SWAPEND64\<close> swaps and exchanges the two halves and undoes itself, and on either build
  \<open>CPU_TO_LE32\<close> and \<open>CPU_TO_BE32\<close> undo themselves and differ by exactly one swap.
\<close>

theorem byte_order_laws:
  "be32_bytes (SWAPEND32 w) = rev (be32_bytes w) \<and> SWAPEND32 (SWAPEND32 w) = w
   \<and> HI32 (SWAPEND64 d) = SWAPEND32 (LO32 d) \<and> LO32 (SWAPEND64 d) = SWAPEND32 (HI32 d)
   \<and> SWAPEND64 (SWAPEND64 d) = d
   \<and> CPU_TO_LE32 EB (CPU_TO_LE32 EB w) = w \<and> CPU_TO_BE32 EB (CPU_TO_BE32 EB w) = w
   \<and> CPU_TO_BE32 EB w = SWAPEND32 (CPU_TO_LE32 EB w)"
  using SWAPEND64_halves [of d]
  by (simp add: be32_bytes_def SWAPEND32_bytes CPU_TO_LE32_swap CPU_TO_BE32_swap)

text \<open>
  The field macros are a store over disjoint fields: reading a field just set gives the value's low
  bits, reading any field that does not overlap it gives what was there, and the masked write
  \<open>REGWRI\<close> of the same field is the same word.
\<close>

theorem field_get_set:
  assumes "lo + len \<le> 32" and "lo2 + len2 \<le> lo \<or> lo + len \<le> lo2"
  shows "GETFIELD (SETFIELD var lo len v) lo len = take_bit len v
    \<and> GETFIELD (SETFIELD var lo len v) lo2 len2 = GETFIELD var lo2 len2
    \<and> REGWRI var (FLDMASK lo len) lo v = SETFIELD var lo len v"
proof -
  have "REGWRI var (FLDMASK lo len) lo v = SETFIELD var lo len v"
    by (rule bit_word_eqI) (auto simp: REGWRI_def SETFIELD_def FLDMASK_def ZEROMASK_mask bit_simps)
  then show ?thesis
    using assms by (simp add: GETFIELD_SETFIELD_same GETFIELD_SETFIELD_other)
qed

theorem field_get_set_witness:
  "GETFIELD (SETFIELD 0xFFFFFFFF 4 8 0x12) 4 8 = take_bit 8 0x12
   \<and> GETFIELD (SETFIELD 0xFFFFFFFF 4 8 0x12) 12 4 = GETFIELD 0xFFFFFFFF 12 4
   \<and> REGWRI 0xFFFFFFFF (FLDMASK 4 8) 4 0x12 = SETFIELD 0xFFFFFFFF 4 8 0x12"
  by (rule field_get_set) simp_all

text \<open>
  The unmasked field write \<open>REGAWRI\<close> agrees with the masked one exactly when the value fits its
  field; a value that does not spills into the neighbouring bits.
\<close>

theorem REGAWRI_eq_REGWRI_iff:
  "REGAWRI v msk shf n = REGWRI v msk shf n \<longleftrightarrow> push_bit shf n AND NOT msk AND NOT v = 0"
proof
  assume eq: "REGAWRI v msk shf n = REGWRI v msk shf n"
  have "bit (REGAWRI v msk shf n) i = bit (REGWRI v msk shf n) i" for i
    using eq by simp
  then show "push_bit shf n AND NOT msk AND NOT v = 0"
    by (intro bit_word_eqI) (auto simp: REGAWRI_def REGWRI_def bit_simps)
next
  assume z: "push_bit shf n AND NOT msk AND NOT v = 0"
  have "\<not> bit (push_bit shf n AND NOT msk AND NOT v) i" for i
    using z by simp
  then show "REGAWRI v msk shf n = REGWRI v msk shf n"
    by (intro bit_word_eqI) (auto simp: REGAWRI_def REGWRI_def bit_simps)
qed

lemma INC_WRAP_less:
  assumes "p < sz"
  shows "INC_WRAP p sz = (if p + 1 = sz then 0 else p + 1)" "p + 1 \<noteq> sz \<Longrightarrow> p + 1 < sz"
    "p + 1 \<noteq> 0 \<or> p + 1 = sz"
proof -
  show lt: "p + 1 \<noteq> sz \<Longrightarrow> p + 1 < sz"
    using assms by unat_arith
  then show "INC_WRAP p sz = (if p + 1 = sz then 0 else p + 1)"
    by (auto simp: INC_WRAP_def mod_word_less)
  show "p + 1 \<noteq> 0 \<or> p + 1 = sz"
    using assms by unat_arith
qed

text \<open>
  On a ring of \<open>sz\<close> entries the two index macros stay inside it and undo each other.
\<close>

theorem ring_wrap_inverse:
  assumes "p < sz"
  shows "INC_WRAP p sz < sz \<and> DEC_WRAP p sz < sz
    \<and> DEC_WRAP (INC_WRAP p sz) sz = p \<and> INC_WRAP (DEC_WRAP p sz) sz = p"
proof -
  have pos: "0 < sz" "sz - 1 < sz" using assms by unat_arith+
  have dec: "p - 1 < sz" if "p \<noteq> 0"
    using assms that by unat_arith
  have "DEC_WRAP (INC_WRAP p sz) sz = p"
    using INC_WRAP_less [OF assms] pos(1) by (auto simp: DEC_WRAP_def)
  moreover have "INC_WRAP (DEC_WRAP p sz) sz = p"
  proof (cases "p = 0")
    case True
    then show ?thesis using INC_WRAP_less [OF pos(2)] by (simp add: DEC_WRAP_def)
  next
    case False
    then show ?thesis using INC_WRAP_less [OF dec] assms by (auto simp: DEC_WRAP_def)
  qed
  ultimately show ?thesis
    using INC_WRAP_less [OF assms] pos dec by (auto simp: DEC_WRAP_def)
qed

theorem ring_wrap_inverse_witness:
  "DEC_WRAP (INC_WRAP 7 8) 8 = 7 \<and> INC_WRAP (DEC_WRAP 7 8) 8 = 7"
  using ring_wrap_inverse [of 7 8] by simp

end
