(* ===== verification/Crc_Old.thy ===== *)
theory Crc_Old
  imports Crc_Engine General_Ops
begin

unbundle bit_operations_syntax

section \<open>The kernel CRC of the UBI boot path (lib/crc32_old.c, lib/include/lib_crc32_*.h)\<close>

text \<open>
  \<^verbatim>\<open>crc32_old.c\<close> is the CRC-32 of the Linux kernel, in a bit by bit variant and a table variant that
  reads four bytes at a time once its pointer is aligned. The table variant runs in the byte order of
  the host and converts the register at entry and exit; the conversions \<open>__cpu_to_le32\<close>,
  \<open>__constant_cpu_to_le32\<close> and their big-endian counterparts come from headers that are not in the
  repository, so the host is a record of them, and what the code relies on is \<open>host_ok\<close>.
\<close>

definition CRCPOLY_LE :: u32 where "CRCPOLY_LE = 0xedb88320"
definition CRCPOLY_BE :: u32 where "CRCPOLY_BE = 0x04c11db7"

record crc_host =
  LITTLE_ENDIAN :: bool
  cpu_to_le32 :: "u32 \<Rightarrow> u32"
  le32_to_cpu :: "u32 \<Rightarrow> u32"
  constant_cpu_to_le32 :: "u32 \<Rightarrow> u32"
  cpu_to_be32 :: "u32 \<Rightarrow> u32"
  be32_to_cpu :: "u32 \<Rightarrow> u32"
  constant_cpu_to_be32 :: "u32 \<Rightarrow> u32"

definition host_ok :: "crc_host \<Rightarrow> bool" where
  "host_ok h \<longleftrightarrow>
     cpu_to_le32 h = CPU_TO_LE32 (\<not> LITTLE_ENDIAN h) \<and> le32_to_cpu h = CPU_TO_LE32 (\<not> LITTLE_ENDIAN h) \<and>
     constant_cpu_to_le32 h = CPU_TO_LE32 (\<not> LITTLE_ENDIAN h) \<and>
     cpu_to_be32 h = CPU_TO_BE32 (\<not> LITTLE_ENDIAN h) \<and> be32_to_cpu h = CPU_TO_BE32 (\<not> LITTLE_ENDIAN h) \<and>
     constant_cpu_to_be32 h = CPU_TO_BE32 (\<not> LITTLE_ENDIAN h)"

definition the_host :: "bool \<Rightarrow> crc_host" where
  "the_host le = \<lparr>LITTLE_ENDIAN = le, cpu_to_le32 = CPU_TO_LE32 (\<not> le), le32_to_cpu = CPU_TO_LE32 (\<not> le),
     constant_cpu_to_le32 = CPU_TO_LE32 (\<not> le), cpu_to_be32 = CPU_TO_BE32 (\<not> le),
     be32_to_cpu = CPU_TO_BE32 (\<not> le), constant_cpu_to_be32 = CPU_TO_BE32 (\<not> le)\<rparr>"

subsection \<open>The tables of lib\_crc32\_tab.h\<close>

definition crc32table_le :: "u32 list" where
  "crc32table_le = [
  0x00000000, 0x77073096, 0xee0e612c, 0x990951ba, 0x076dc419, 0x706af48f, 0xe963a535, 0x9e6495a3,
  0x0edb8832, 0x79dcb8a4, 0xe0d5e91e, 0x97d2d988, 0x09b64c2b, 0x7eb17cbd, 0xe7b82d07, 0x90bf1d91,
  0x1db71064, 0x6ab020f2, 0xf3b97148, 0x84be41de, 0x1adad47d, 0x6ddde4eb, 0xf4d4b551, 0x83d385c7,
  0x136c9856, 0x646ba8c0, 0xfd62f97a, 0x8a65c9ec, 0x14015c4f, 0x63066cd9, 0xfa0f3d63, 0x8d080df5,
  0x3b6e20c8, 0x4c69105e, 0xd56041e4, 0xa2677172, 0x3c03e4d1, 0x4b04d447, 0xd20d85fd, 0xa50ab56b,
  0x35b5a8fa, 0x42b2986c, 0xdbbbc9d6, 0xacbcf940, 0x32d86ce3, 0x45df5c75, 0xdcd60dcf, 0xabd13d59,
  0x26d930ac, 0x51de003a, 0xc8d75180, 0xbfd06116, 0x21b4f4b5, 0x56b3c423, 0xcfba9599, 0xb8bda50f,
  0x2802b89e, 0x5f058808, 0xc60cd9b2, 0xb10be924, 0x2f6f7c87, 0x58684c11, 0xc1611dab, 0xb6662d3d,
  0x76dc4190, 0x01db7106, 0x98d220bc, 0xefd5102a, 0x71b18589, 0x06b6b51f, 0x9fbfe4a5, 0xe8b8d433,
  0x7807c9a2, 0x0f00f934, 0x9609a88e, 0xe10e9818, 0x7f6a0dbb, 0x086d3d2d, 0x91646c97, 0xe6635c01,
  0x6b6b51f4, 0x1c6c6162, 0x856530d8, 0xf262004e, 0x6c0695ed, 0x1b01a57b, 0x8208f4c1, 0xf50fc457,
  0x65b0d9c6, 0x12b7e950, 0x8bbeb8ea, 0xfcb9887c, 0x62dd1ddf, 0x15da2d49, 0x8cd37cf3, 0xfbd44c65,
  0x4db26158, 0x3ab551ce, 0xa3bc0074, 0xd4bb30e2, 0x4adfa541, 0x3dd895d7, 0xa4d1c46d, 0xd3d6f4fb,
  0x4369e96a, 0x346ed9fc, 0xad678846, 0xda60b8d0, 0x44042d73, 0x33031de5, 0xaa0a4c5f, 0xdd0d7cc9,
  0x5005713c, 0x270241aa, 0xbe0b1010, 0xc90c2086, 0x5768b525, 0x206f85b3, 0xb966d409, 0xce61e49f,
  0x5edef90e, 0x29d9c998, 0xb0d09822, 0xc7d7a8b4, 0x59b33d17, 0x2eb40d81, 0xb7bd5c3b, 0xc0ba6cad,
  0xedb88320, 0x9abfb3b6, 0x03b6e20c, 0x74b1d29a, 0xead54739, 0x9dd277af, 0x04db2615, 0x73dc1683,
  0xe3630b12, 0x94643b84, 0x0d6d6a3e, 0x7a6a5aa8, 0xe40ecf0b, 0x9309ff9d, 0x0a00ae27, 0x7d079eb1,
  0xf00f9344, 0x8708a3d2, 0x1e01f268, 0x6906c2fe, 0xf762575d, 0x806567cb, 0x196c3671, 0x6e6b06e7,
  0xfed41b76, 0x89d32be0, 0x10da7a5a, 0x67dd4acc, 0xf9b9df6f, 0x8ebeeff9, 0x17b7be43, 0x60b08ed5,
  0xd6d6a3e8, 0xa1d1937e, 0x38d8c2c4, 0x4fdff252, 0xd1bb67f1, 0xa6bc5767, 0x3fb506dd, 0x48b2364b,
  0xd80d2bda, 0xaf0a1b4c, 0x36034af6, 0x41047a60, 0xdf60efc3, 0xa867df55, 0x316e8eef, 0x4669be79,
  0xcb61b38c, 0xbc66831a, 0x256fd2a0, 0x5268e236, 0xcc0c7795, 0xbb0b4703, 0x220216b9, 0x5505262f,
  0xc5ba3bbe, 0xb2bd0b28, 0x2bb45a92, 0x5cb36a04, 0xc2d7ffa7, 0xb5d0cf31, 0x2cd99e8b, 0x5bdeae1d,
  0x9b64c2b0, 0xec63f226, 0x756aa39c, 0x026d930a, 0x9c0906a9, 0xeb0e363f, 0x72076785, 0x05005713,
  0x95bf4a82, 0xe2b87a14, 0x7bb12bae, 0x0cb61b38, 0x92d28e9b, 0xe5d5be0d, 0x7cdcefb7, 0x0bdbdf21,
  0x86d3d2d4, 0xf1d4e242, 0x68ddb3f8, 0x1fda836e, 0x81be16cd, 0xf6b9265b, 0x6fb077e1, 0x18b74777,
  0x88085ae6, 0xff0f6a70, 0x66063bca, 0x11010b5c, 0x8f659eff, 0xf862ae69, 0x616bffd3, 0x166ccf45,
  0xa00ae278, 0xd70dd2ee, 0x4e048354, 0x3903b3c2, 0xa7672661, 0xd06016f7, 0x4969474d, 0x3e6e77db,
  0xaed16a4a, 0xd9d65adc, 0x40df0b66, 0x37d83bf0, 0xa9bcae53, 0xdebb9ec5, 0x47b2cf7f, 0x30b5ffe9,
  0xbdbdf21c, 0xcabac28a, 0x53b39330, 0x24b4a3a6, 0xbad03605, 0xcdd70693, 0x54de5729, 0x23d967bf,
  0xb3667a2e, 0xc4614ab8, 0x5d681b02, 0x2a6f2b94, 0xb40bbe37, 0xc30c8ea1, 0x5a05df1b, 0x2d02ef8d]"

definition crc32table_be :: "u32 list" where
  "crc32table_be = [
  0x00000000, 0x04c11db7, 0x09823b6e, 0x0d4326d9, 0x130476dc, 0x17c56b6b, 0x1a864db2, 0x1e475005,
  0x2608edb8, 0x22c9f00f, 0x2f8ad6d6, 0x2b4bcb61, 0x350c9b64, 0x31cd86d3, 0x3c8ea00a, 0x384fbdbd,
  0x4c11db70, 0x48d0c6c7, 0x4593e01e, 0x4152fda9, 0x5f15adac, 0x5bd4b01b, 0x569796c2, 0x52568b75,
  0x6a1936c8, 0x6ed82b7f, 0x639b0da6, 0x675a1011, 0x791d4014, 0x7ddc5da3, 0x709f7b7a, 0x745e66cd,
  0x9823b6e0, 0x9ce2ab57, 0x91a18d8e, 0x95609039, 0x8b27c03c, 0x8fe6dd8b, 0x82a5fb52, 0x8664e6e5,
  0xbe2b5b58, 0xbaea46ef, 0xb7a96036, 0xb3687d81, 0xad2f2d84, 0xa9ee3033, 0xa4ad16ea, 0xa06c0b5d,
  0xd4326d90, 0xd0f37027, 0xddb056fe, 0xd9714b49, 0xc7361b4c, 0xc3f706fb, 0xceb42022, 0xca753d95,
  0xf23a8028, 0xf6fb9d9f, 0xfbb8bb46, 0xff79a6f1, 0xe13ef6f4, 0xe5ffeb43, 0xe8bccd9a, 0xec7dd02d,
  0x34867077, 0x30476dc0, 0x3d044b19, 0x39c556ae, 0x278206ab, 0x23431b1c, 0x2e003dc5, 0x2ac12072,
  0x128e9dcf, 0x164f8078, 0x1b0ca6a1, 0x1fcdbb16, 0x018aeb13, 0x054bf6a4, 0x0808d07d, 0x0cc9cdca,
  0x7897ab07, 0x7c56b6b0, 0x71159069, 0x75d48dde, 0x6b93dddb, 0x6f52c06c, 0x6211e6b5, 0x66d0fb02,
  0x5e9f46bf, 0x5a5e5b08, 0x571d7dd1, 0x53dc6066, 0x4d9b3063, 0x495a2dd4, 0x44190b0d, 0x40d816ba,
  0xaca5c697, 0xa864db20, 0xa527fdf9, 0xa1e6e04e, 0xbfa1b04b, 0xbb60adfc, 0xb6238b25, 0xb2e29692,
  0x8aad2b2f, 0x8e6c3698, 0x832f1041, 0x87ee0df6, 0x99a95df3, 0x9d684044, 0x902b669d, 0x94ea7b2a,
  0xe0b41de7, 0xe4750050, 0xe9362689, 0xedf73b3e, 0xf3b06b3b, 0xf771768c, 0xfa325055, 0xfef34de2,
  0xc6bcf05f, 0xc27dede8, 0xcf3ecb31, 0xcbffd686, 0xd5b88683, 0xd1799b34, 0xdc3abded, 0xd8fba05a,
  0x690ce0ee, 0x6dcdfd59, 0x608edb80, 0x644fc637, 0x7a089632, 0x7ec98b85, 0x738aad5c, 0x774bb0eb,
  0x4f040d56, 0x4bc510e1, 0x46863638, 0x42472b8f, 0x5c007b8a, 0x58c1663d, 0x558240e4, 0x51435d53,
  0x251d3b9e, 0x21dc2629, 0x2c9f00f0, 0x285e1d47, 0x36194d42, 0x32d850f5, 0x3f9b762c, 0x3b5a6b9b,
  0x0315d626, 0x07d4cb91, 0x0a97ed48, 0x0e56f0ff, 0x1011a0fa, 0x14d0bd4d, 0x19939b94, 0x1d528623,
  0xf12f560e, 0xf5ee4bb9, 0xf8ad6d60, 0xfc6c70d7, 0xe22b20d2, 0xe6ea3d65, 0xeba91bbc, 0xef68060b,
  0xd727bbb6, 0xd3e6a601, 0xdea580d8, 0xda649d6f, 0xc423cd6a, 0xc0e2d0dd, 0xcda1f604, 0xc960ebb3,
  0xbd3e8d7e, 0xb9ff90c9, 0xb4bcb610, 0xb07daba7, 0xae3afba2, 0xaafbe615, 0xa7b8c0cc, 0xa379dd7b,
  0x9b3660c6, 0x9ff77d71, 0x92b45ba8, 0x9675461f, 0x8832161a, 0x8cf30bad, 0x81b02d74, 0x857130c3,
  0x5d8a9099, 0x594b8d2e, 0x5408abf7, 0x50c9b640, 0x4e8ee645, 0x4a4ffbf2, 0x470cdd2b, 0x43cdc09c,
  0x7b827d21, 0x7f436096, 0x7200464f, 0x76c15bf8, 0x68860bfd, 0x6c47164a, 0x61043093, 0x65c52d24,
  0x119b4be9, 0x155a565e, 0x18197087, 0x1cd86d30, 0x029f3d35, 0x065e2082, 0x0b1d065b, 0x0fdc1bec,
  0x3793a651, 0x3352bbe6, 0x3e119d3f, 0x3ad08088, 0x2497d08d, 0x2056cd3a, 0x2d15ebe3, 0x29d4f654,
  0xc5a92679, 0xc1683bce, 0xcc2b1d17, 0xc8ea00a0, 0xd6ad50a5, 0xd26c4d12, 0xdf2f6bcb, 0xdbee767c,
  0xe3a1cbc1, 0xe760d676, 0xea23f0af, 0xeee2ed18, 0xf0a5bd1d, 0xf464a0aa, 0xf9278673, 0xfde69bc4,
  0x89b8fd09, 0x8d79e0be, 0x803ac667, 0x84fbdbd0, 0x9abc8bd5, 0x9e7d9662, 0x933eb0bb, 0x97ffad0c,
  0xafb010b1, 0xab710d06, 0xa6322bdf, 0xa2f33668, 0xbcb4666d, 0xb8757bda, 0xb5365d03, 0xb1f740b4]"

lemma upt_256: "[0..<256] = concat (map (\<lambda>i. map (\<lambda>j. 16 * i + j) [0,1,2,3,4,5,6,7,8,9,10,11,12,13,14,15]) [0,1,2,3,4,5,6,7,8,9,10,11,12,13,14,15])"
  by (simp add: upt_rec)

lemma crc32table_le_entries:
  "map (\<lambda>i. (lsb_step CRCPOLY_LE ^^ 8) (lsb_feed (of_nat i))) [0..<256] = crc32table_le"
  unfolding upt_256 crc32table_le_def
  by (simp add: lsb_step_eval funpow_8 CRCPOLY_LE_def lsb_feed_def)

lemma crc32table_be_entries:
  "map (\<lambda>i. (msb_step CRCPOLY_BE ^^ 8) (msb_feed (of_nat i))) [0..<256] = crc32table_be"
  unfolding upt_256 crc32table_be_def
  by (simp add: msb_step_eval funpow_8 CRCPOLY_BE_def msb_feed_def)


interpretation le: crc_wide "lsb_step CRCPOLY_LE" lsb_feed "\<lambda>a b c d. be32_of_bytes d c b a"
  by (rule crc_wide_lsb) (simp add: CRCPOLY_LE_def)

interpretation be: crc_wide "msb_step CRCPOLY_BE" msb_feed be32_of_bytes
  by (rule crc_wide_msb) (simp add: CRCPOLY_BE_def bit_0)

interpretation le_tab: crc_table "lsb_step CRCPOLY_LE" lsb_feed ucast "drop_bit 8" crc32table_le
  by (intro crc_table.intro crc_register_lsb crc_table_axioms.intro)
    (simp_all add: lsb_shift_out crc32table_le_entries [symmetric])

interpretation be_tab: crc_table "msb_step CRCPOLY_BE" msb_feed "\<lambda>r. ucast (drop_bit 24 r)" "push_bit 8" crc32table_be
  using msb_shift_out [where 'w = 32 and poly = CRCPOLY_BE]
  by (intro crc_table.intro crc_register_msb crc_table_axioms.intro)
    (simp_all add: crc32table_be_entries [symmetric])

subsection \<open>crc32\_le and crc32\_be, one bit at a time\<close>

definition crc32_le_1 :: "u32 \<Rightarrow> u8 list \<Rightarrow> u32" where
  "crc32_le_1 crc p = foldl (\<lambda>crc b.
     ((\<lambda>crc. drop_bit 1 crc XOR (if crc AND 1 \<noteq> 0 then CRCPOLY_LE else 0)) ^^ 8) (crc XOR ucast b)) crc p"

definition crc32_be_1 :: "u32 \<Rightarrow> u8 list \<Rightarrow> u32" where
  "crc32_be_1 crc p = foldl (\<lambda>crc b.
     ((\<lambda>crc. push_bit 1 crc XOR (if crc AND 0x80000000 \<noteq> 0 then CRCPOLY_BE else 0)) ^^ 8)
       (crc XOR push_bit 24 (ucast b))) crc p"

lemma crc32_le_1_run: "crc32_le_1 = crc_run (lsb_step CRCPOLY_LE) lsb_feed"
proof -
  have "(\<lambda>crc. drop_bit 1 crc XOR (if crc AND 1 \<noteq> 0 then CRCPOLY_LE else 0)) = lsb_step CRCPOLY_LE"
    by (rule ext) (simp add: lsb_step_def)
  then show ?thesis
    by (simp add: fun_eq_iff crc32_le_1_def crc_run_def crc_byte_def [abs_def] lsb_feed_def)
qed

lemma crc32_be_1_run: "crc32_be_1 = crc_run (msb_step CRCPOLY_BE) msb_feed"
proof -
  have "(\<lambda>crc. push_bit 1 crc XOR (if crc AND 0x80000000 \<noteq> 0 then CRCPOLY_BE else 0)) = msb_step CRCPOLY_BE"
    by (rule ext) (simp add: msb_step_def)
  then show ?thesis
    by (simp add: fun_eq_iff crc32_be_1_def crc_run_def crc_byte_def [abs_def] msb_feed_def)
qed

subsection \<open>The table variants\<close>

text \<open>
  \<open>b\<close> is the address the pointer holds and \<open>p\<close> the bytes that are left, so that \<open>len\<close> is their number.
  A 32 bit load from an address that is not a multiple of four is an address error on MIPS and is
  None here.
\<close>

definition DO_CRC :: "crc_host \<Rightarrow> u32 list \<Rightarrow> u32 \<Rightarrow> u32 \<Rightarrow> u32" where
  "DO_CRC h tab x crc =
     (if LITTLE_ENDIAN h then tab ! unat ((crc XOR x) AND 255) XOR drop_bit 8 crc
      else tab ! unat ((drop_bit 24 crc XOR x) AND 255) XOR push_bit 8 crc)"

definition load32 :: "crc_host \<Rightarrow> u32 \<Rightarrow> u8 list \<Rightarrow> u32 option" where
  "load32 h b p =
     (if b AND 3 \<noteq> 0 \<or> length p < 4 then None
      else if LITTLE_ENDIAN h then Some (be32_of_bytes (p ! 3) (p ! 2) (p ! 1) (p ! 0))
      else Some (be32_of_bytes (p ! 0) (p ! 1) (p ! 2) (p ! 3)))"

fun crc_align :: "crc_host \<Rightarrow> u32 list \<Rightarrow> u32 \<Rightarrow> u32 \<Rightarrow> u8 list \<Rightarrow> u32 \<times> u32 \<times> u8 list" where
  "crc_align h tab crc b [] = (crc, b, [])"
| "crc_align h tab crc b (x # p) =
     (let crc = DO_CRC h tab (ucast x) crc; b = b + 1
      in if p \<noteq> [] \<and> b AND 3 \<noteq> 0 then crc_align h tab crc b p else (crc, b, p))"

fun crc_words :: "crc_host \<Rightarrow> u32 list \<Rightarrow> nat \<Rightarrow> u32 \<Rightarrow> u32 \<Rightarrow> u8 list \<Rightarrow> (u32 \<times> u32 \<times> u8 list) option" where
  "crc_words h tab 0 crc b p = Some (crc, b, p)"
| "crc_words h tab (Suc len) crc b p =
     (case load32 h b p of None \<Rightarrow> None
      | Some w \<Rightarrow> crc_words h tab len
          (DO_CRC h tab 0 (DO_CRC h tab 0 (DO_CRC h tab 0 (DO_CRC h tab 0 (crc XOR w))))) (b + 4) (drop 4 p))"

definition crc_body :: "crc_host \<Rightarrow> u32 list \<Rightarrow> u32 \<Rightarrow> u32 \<Rightarrow> u8 list \<Rightarrow> u32 option" where
  "crc_body h tab crc b p =
     (let (crc, b, p) = (if b AND 3 \<noteq> 0 \<and> p \<noteq> [] then crc_align h tab crc b p else (crc, b, p))
      in case (if 4 \<le> length p then crc_words h tab (length p div 4) crc b p else Some (crc, b, p)) of
        None \<Rightarrow> None
      | Some (crc, b, p) \<Rightarrow> Some (foldl (\<lambda>crc x. DO_CRC h tab (ucast x) crc) crc p))"

definition crc32_le :: "crc_host \<Rightarrow> u32 \<Rightarrow> u32 \<Rightarrow> u8 list \<Rightarrow> u32 option" where
  "crc32_le h crc b p =
     map_option (le32_to_cpu h) (crc_body h (map (constant_cpu_to_le32 h) crc32table_le) (cpu_to_le32 h crc) b p)"

definition crc32_be :: "crc_host \<Rightarrow> u32 \<Rightarrow> u32 \<Rightarrow> u8 list \<Rightarrow> u32 option" where
  "crc32_be h crc b p =
     map_option (be32_to_cpu h) (crc_body h (map (constant_cpu_to_be32 h) crc32table_be) (cpu_to_be32 h crc) b p)"

subsection \<open>The word loop refines the byte loop\<close>

text \<open>
  A host stores the register through a byte order conversion \<open>c\<close>. The laws: one \<open>DO_CRC\<close> on the stored
  register and the converted table is the conversion of a table step, and a loaded word is the
  conversion of the word the register takes.
\<close>

locale crc_on_host = crc_table stp feed idx rest tab + crc_wide stp feed pack
  for stp :: "u32 \<Rightarrow> u32" and feed and idx and rest and tab and pack +
  fixes h :: crc_host and c :: "u32 \<Rightarrow> u32"
  assumes do_crc: "DO_CRC h (map c tab) (ucast x) (c r) = c (tab ! unat (x XOR idx r) XOR rest r)"
    and c_xor: "c (v XOR w) = c v XOR c w"
    and load: "b AND 3 = 0 \<Longrightarrow> load32 h b (x0 # x1 # x2 # x3 # p) = Some (c (pack x0 x1 x2 x3))"
begin

lemma do_crc_byte: "DO_CRC h (map c tab) (ucast x) (c r) = c (crc_byte stp feed r x)"
  by (simp add: do_crc lookup)

lemma do_crc_0: "DO_CRC h (map c tab) 0 (c r) = c ((stp ^^ 8) r)"
  using do_crc_byte [of 0 r] by (simp add: crc_byte_def)

lemma align_run:
  "crc_align h (map c tab) (c r) b p = (r', b', p') \<Longrightarrow>
   \<exists>q. p = q @ p' \<and> r' = c (crc_run stp feed r q) \<and> (p' = [] \<or> b' AND 3 = 0)"
proof (induction p arbitrary: r b)
  case Nil
  then show ?case by auto
next
  case (Cons x p)
  show ?case
  proof (cases "p \<noteq> [] \<and> (b + 1) AND 3 \<noteq> 0")
    case True
    then obtain q where "p = q @ p'" "r' = c (crc_run stp feed (crc_byte stp feed r x) q)" "p' = [] \<or> b' AND 3 = 0"
      using Cons.IH [of "crc_byte stp feed r x" "b + 1"] Cons.prems by (auto simp: Let_def do_crc_byte)
    then show ?thesis by (intro exI [of _ "x # q"]) simp
  next
    case False
    then show ?thesis
      using Cons.prems by (intro exI [of _ "[x]"]) (auto simp: Let_def do_crc_byte)
  qed
qed

lemma words_run:
  "b AND 3 = 0 \<Longrightarrow> 4 * n \<le> length p \<Longrightarrow>
   crc_words h (map c tab) n (c r) b p = Some (c (crc_run stp feed r (take (4 * n) p)), b + 4 * of_nat n, drop (4 * n) p)"
proof (induction n arbitrary: r b p)
  case 0
  then show ?case by simp
next
  case (Suc n)
  then obtain x0 x1 x2 x3 q where p: "p = x0 # x1 # x2 # x3 # q"
    by (auto simp: Suc_le_length_iff numeral_eq_Suc)
  have b4: "(b + 4) AND 3 = 0"
    using Suc.prems(1) by simp
  have "crc_run stp feed r [x0, x1, x2, x3] = (stp ^^ 32) (r XOR pack x0 x1 x2 x3)"
    by (rule four_bytes)
  then have w: "DO_CRC h (map c tab) 0 (DO_CRC h (map c tab) 0 (DO_CRC h (map c tab) 0 (DO_CRC h (map c tab) 0
      (c r XOR c (pack x0 x1 x2 x3))))) = c (crc_run stp feed r [x0, x1, x2, x3])"
    by (simp only: c_xor [symmetric] do_crc_0 funpow_32)
  have "4 * Suc n = Suc (Suc (Suc (Suc (4 * n))))"
    by simp
  then have split: "take (4 * Suc n) p = [x0, x1, x2, x3] @ take (4 * n) q" "drop (4 * Suc n) p = drop (4 * n) q"
    by (simp_all only: p take_Suc_Cons drop_Suc_Cons append_Cons append_Nil)
  have drop4: "drop 4 p = q"
    by (simp add: p)
  have "crc_words h (map c tab) (Suc n) (c r) b p
      = crc_words h (map c tab) n (c (crc_run stp feed r [x0, x1, x2, x3])) (b + 4) q"
    by (simp add: drop4 w del: crc_run_Cons) (simp add: p load Suc.prems w del: crc_run_Cons)
  also have "\<dots> = Some (c (crc_run stp feed (crc_run stp feed r [x0, x1, x2, x3]) (take (4 * n) q)),
      b + 4 + 4 * of_nat n, drop (4 * n) q)"
    using Suc.prems by (intro Suc.IH b4) (simp add: p)
  finally show ?case
    by (simp only: split crc_run_append) (simp add: algebra_simps)
qed

lemma tail_run: "foldl (\<lambda>crc x. DO_CRC h (map c tab) (ucast x) crc) (c r) p = c (crc_run stp feed r p)"
  by (induction p arbitrary: r) (simp_all add: do_crc_byte)

theorem body_run: "crc_body h (map c tab) (c r) b p = Some (c (crc_run stp feed r p))"
proof -
  have from_aligned: "(case (if 4 \<le> length p then crc_words h (map c tab) (length p div 4) (c r) b p else Some (c r, b, p)) of
        None \<Rightarrow> None
      | Some (crc, b, p) \<Rightarrow> Some (foldl (\<lambda>crc x. DO_CRC h (map c tab) (ucast x) crc) crc p))
    = Some (c (crc_run stp feed r p))" if "p = [] \<or> b AND 3 = 0" for b r p
    using that words_run [of b "length p div 4" p r]
    by (auto simp: tail_run crc_run_append [symmetric])
  show ?thesis
  proof (cases "b AND 3 \<noteq> 0 \<and> p \<noteq> []")
    case True
    obtain r' b' p' where al: "crc_align h (map c tab) (c r) b p = (r', b', p')"
      by (metis prod_cases3)
    from align_run [OF al] obtain q where
      "p = q @ p'" "r' = c (crc_run stp feed r q)" "p' = [] \<or> b' AND 3 = 0" by blast
    then show ?thesis
      using True al from_aligned [of p' b' "crc_run stp feed r q"]
      by (simp add: crc_body_def crc_run_append)
  next
    case False
    then show ?thesis
      using from_aligned [of p b r]
      unfolding crc_body_def Let_def if_not_P [OF False] prod.case by blast
  qed
qed

end

text \<open>The four pairs of a host byte order and a register keep the laws.\<close>

lemma unat_and_255: "unat ((w :: u32) AND 255) = unat (ucast w :: u8)"
proof -
  have "w AND 255 = ucast (ucast w :: u8)"
    by (rule bit_word_eqI) (auto simp: and_0xff bit_simps)
  then show ?thesis
    by simp
qed

lemma be32_shift:
  "drop_bit 8 (be32_of_bytes x y z w) = be32_of_bytes 0 x y z"
  "push_bit 8 (be32_of_bytes x y z w) = be32_of_bytes y z w 0"
  by (rule bit_word_eqI; auto simp: be32_of_bytes_def bit_simps)+

lemma SWAPEND32_shift:
  "push_bit 8 (SWAPEND32 r) = SWAPEND32 (drop_bit 8 r)" "drop_bit 8 (SWAPEND32 r) = SWAPEND32 (push_bit 8 r)"
proof -
  obtain x y z w where r: "r = be32_of_bytes x y z w"
    using be32_of_bytes_bytes by metis
  show "push_bit 8 (SWAPEND32 r) = SWAPEND32 (drop_bit 8 r)" "drop_bit 8 (SWAPEND32 r) = SWAPEND32 (push_bit 8 r)"
    by (simp_all add: r be32_shift SWAPEND32_of_bytes)
qed

lemma ucast_SWAPEND32:
  "(ucast (SWAPEND32 r) :: u8) = ucast (drop_bit 24 r)" "(ucast (drop_bit 24 (SWAPEND32 r)) :: u8) = ucast r"
  by (simp_all add: SWAPEND32_bytes)

lemma length_tables [simp]: "length crc32table_le = 256" "length crc32table_be = 256"
  by (simp_all only: crc32table_le_entries [symmetric] crc32table_be_entries [symmetric] length_map length_upt)

lemma ucast_u8_xor: "(ucast (v XOR w :: u32) :: u8) = ucast v XOR ucast w"
  by (rule bit_word_eqI) (auto simp: bit_simps)

lemma crc_on_host_le:
  "crc_on_host (lsb_step CRCPOLY_LE) lsb_feed ucast (drop_bit 8) crc32table_le
     (\<lambda>a b c d. be32_of_bytes d c b a) h (CPU_TO_LE32 (\<not> LITTLE_ENDIAN h))"
proof (intro crc_on_host.intro crc_on_host_axioms.intro le_tab.crc_table_axioms le.crc_wide_axioms)
  show "DO_CRC h (map (CPU_TO_LE32 (\<not> LITTLE_ENDIAN h)) crc32table_le) (ucast x) (CPU_TO_LE32 (\<not> LITTLE_ENDIAN h) r)
      = CPU_TO_LE32 (\<not> LITTLE_ENDIAN h) (crc32table_le ! unat (x XOR ucast r) XOR drop_bit 8 r)" for x :: u8 and r
    by (simp add: DO_CRC_def CPU_TO_LE32_swap unat_and_255 ucast_u8_xor ucast_SWAPEND32 SWAPEND32_shift
        SWAPEND32_xor xor.commute)
qed (simp_all add: CPU_TO_LE32_swap SWAPEND32_xor load32_def SWAPEND32_of_bytes)

lemma crc_on_host_be:
  "crc_on_host (msb_step CRCPOLY_BE) msb_feed (\<lambda>r. ucast (drop_bit 24 r)) (push_bit 8) crc32table_be
     be32_of_bytes h (CPU_TO_BE32 (\<not> LITTLE_ENDIAN h))"
proof (intro crc_on_host.intro crc_on_host_axioms.intro be_tab.crc_table_axioms be.crc_wide_axioms)
  show "DO_CRC h (map (CPU_TO_BE32 (\<not> LITTLE_ENDIAN h)) crc32table_be) (ucast x) (CPU_TO_BE32 (\<not> LITTLE_ENDIAN h) r)
      = CPU_TO_BE32 (\<not> LITTLE_ENDIAN h) (crc32table_be ! unat (x XOR ucast (drop_bit 24 r)) XOR push_bit 8 r)" for x :: u8 and r
    by (simp add: DO_CRC_def CPU_TO_BE32_swap unat_and_255 ucast_u8_xor ucast_SWAPEND32 SWAPEND32_shift
        SWAPEND32_xor xor.commute)
qed (simp_all add: CPU_TO_BE32_swap SWAPEND32_xor load32_def SWAPEND32_of_bytes)

interpretation le_host: crc_on_host "lsb_step CRCPOLY_LE" lsb_feed ucast "drop_bit 8" crc32table_le
  "\<lambda>a b c d. be32_of_bytes d c b a" h "CPU_TO_LE32 (\<not> LITTLE_ENDIAN h)" for h
  by (rule crc_on_host_le)

interpretation be_host: crc_on_host "msb_step CRCPOLY_BE" msb_feed "\<lambda>r. ucast (drop_bit 24 r)" "push_bit 8" crc32table_be
  be32_of_bytes h "CPU_TO_BE32 (\<not> LITTLE_ENDIAN h)" for h
  by (rule crc_on_host_be)

lemma crc32_le_run: "host_ok h \<Longrightarrow> crc32_le h crc b p = Some (crc_run (lsb_step CRCPOLY_LE) lsb_feed crc p)"
  by (simp add: crc32_le_def host_ok_def le_host.body_run) (simp add: CPU_TO_LE32_swap)

lemma crc32_be_run: "host_ok h \<Longrightarrow> crc32_be h crc b p = Some (crc_run (msb_step CRCPOLY_BE) msb_feed crc p)"
  by (simp add: crc32_be_def host_ok_def be_host.body_run) (simp add: CPU_TO_BE32_swap)

lemma host_ok_the_host [simp]: "host_ok (the_host e)"
  by (simp add: host_ok_def the_host_def)

text \<open>
  C6. The table driven \<open>crc32_le\<close> and \<open>crc32_be\<close> return on either byte order, for every seed, every
  pointer alignment and every length, and return what the one-bit variants of the same functions
  return; no load is misaligned.
\<close>

theorem crc32_table_eq_bitwise:
  assumes "host_ok h"
  shows "crc32_le h crc b p = Some (crc32_le_1 crc p) \<and> crc32_be h crc b p = Some (crc32_be_1 crc p)"
  using assms by (simp add: crc32_le_run crc32_be_run crc32_le_1_run crc32_be_1_run)

theorem crc32_table_eq_bitwise_witness:
  "host_ok (the_host False) \<and>
   crc32_le (the_host False) 0xFFFFFFFF 0x80000002 [1, 2, 3, 4, 5, 6, 7, 8, 9]
     = Some (crc32_le_1 0xFFFFFFFF [1, 2, 3, 4, 5, 6, 7, 8, 9])"
  using crc32_table_eq_bitwise [of "the_host False"] by simp

end
