(* ===== verification/Crc_Test.thy ===== *)
theory Crc_Test
  imports Crc_Old Crc_Lib
begin

unbundle bit_operations_syntax

section \<open>The unit test and the tutorial of lib/crc32\_old.c\<close>

text \<open>
  \<^verbatim>\<open>crc32_old.c\<close> carries its own test (\<open>UNITTEST\<close>), which checks on random buffers that appending a CRC
  cancels it, that a buffer may be split anywhere, that the two byte orders agree up to bit reversal
  and that the CRC is linear; here the test is a definition and passing it is a theorem. The bit
  reversals \<open>bitrev8\<close> and \<open>bitrev32\<close> come from a kernel header outside the repository and are parameters.
\<close>

subsection \<open>Bit reversal exchanges the two registers\<close>

lemma upt_32: "[0..<32] = [0,1,2,3,4,5,6,7,8,9,10,11,12,13,14,15,16,17,18,19,20,21,22,23,24,25,26,27,28,29,30,31]"
  by (simp add: upt_rec)

lemma poly_reverse: "word_reverse CRCPOLY_BE = CRCPOLY_LE"
  by (simp add: CRCPOLY_BE_def CRCPOLY_LE_def word_reverse_def upt_32)

lemma word_reverse_xor: "word_reverse (x XOR y) = word_reverse x XOR word_reverse y"
  by (rule bit_word_eqI) (auto simp: bit_simps)

lemma word_reverse_0 [simp]: "word_reverse (0 :: 'a::len word) = 0"
  by (rule bit_word_eqI) (simp add: bit_simps)

lemma step_reverse: "word_reverse (msb_step CRCPOLY_BE r) = lsb_step CRCPOLY_LE (word_reverse r)"
proof -
  have "word_reverse (push_bit 1 r) = drop_bit 1 (word_reverse r)"
    by (rule bit_word_eqI) (auto simp: bit_simps Suc_diff_Suc)
  moreover have "bit r 31 \<longleftrightarrow> bit (word_reverse r) 0"
    by (simp add: bit_simps)
  ultimately show ?thesis
    by (simp add: msb_step_alt lsb_step_alt word_reverse_xor poly_reverse)
qed

lemma feed_reverse: "word_reverse (msb_feed b :: u32) = lsb_feed (word_reverse b)"
  by (rule bit_word_eqI) (auto simp: msb_feed_def lsb_feed_def bit_simps)

lemma run_reverse:
  "word_reverse (crc32_be_1 r p) = crc32_le_1 (word_reverse r) (map word_reverse p)"
proof -
  have steps: "word_reverse ((msb_step CRCPOLY_BE ^^ n) r) = (lsb_step CRCPOLY_LE ^^ n) (word_reverse r)" for n r
    by (induction n) (simp_all add: step_reverse)
  show ?thesis
    unfolding crc32_le_1_run crc32_be_1_run
    by (induction p arbitrary: r) (simp_all add: crc_byte_def steps word_reverse_xor feed_reverse)
qed

subsection \<open>The unit test\<close>

definition bytereverse :: "(u8 \<Rightarrow> u8) \<Rightarrow> u8 list \<Rightarrow> nat \<Rightarrow> u8 list" where
  "bytereverse bitrev8 buf len = map bitrev8 (take len buf) @ drop len buf"

definition store_be :: "u32 \<Rightarrow> u8 list" where
  "store_be x = [ucast (drop_bit 24 x), ucast (drop_bit 16 x), ucast (drop_bit 8 x), ucast x]"

definition store_le :: "u32 \<Rightarrow> u8 list" where
  "store_le x = [ucast x, ucast (drop_bit 8 x), ucast (drop_bit 16 x), ucast (drop_bit 24 x)]"

text \<open>
  The number of split positions \<open>i\<close> up to \<open>n\<close> at which the CRC computed in two calls is not zero; each
  is one line of the test's output. \<open>b\<close> is the address of the buffer.
\<close>

definition split_fails :: "(u32 \<Rightarrow> u32 \<Rightarrow> u8 list \<Rightarrow> u32 option) \<Rightarrow> u32 \<Rightarrow> u32 \<Rightarrow> u8 list \<Rightarrow> nat \<Rightarrow> nat" where
  "split_fails crc32 init b buf n = length (filter (\<lambda>i.
     (case crc32 init b (take i buf) of None \<Rightarrow> None
      | Some crc2 \<Rightarrow> crc32 crc2 (b + of_nat i) (take (n - i) (drop i buf))) \<noteq> Some 0) [0..<n + 1])"

text \<open>The result is the CRC, the buffer as the test leaves it, and the number of failures it prints.\<close>

definition test_step ::
    "crc_host \<Rightarrow> (u8 \<Rightarrow> u8) \<Rightarrow> (u32 \<Rightarrow> u32) \<Rightarrow> u32 \<Rightarrow> u32 \<Rightarrow> u8 list \<Rightarrow> nat \<Rightarrow> (u32 \<times> u8 list \<times> nat) option" where
  "test_step h bitrev8 bitrev32 init b buf len = do {
     crc1 \<leftarrow> crc32_be h init b (take len buf);
     let buf = take len buf @ store_be crc1 @ drop (len + 4) buf;
     crc2 \<leftarrow> crc32_be h init b (take (len + 4) buf);
     let f1 = (if crc2 \<noteq> 0 then 1 else 0);
     let f2 = split_fails (crc32_be h) init b buf (len + 4);
     let buf = bytereverse bitrev8 buf (len + 4);
     let init = bitrev32 init;
     let crc2 = bitrev32 crc1;
     let f3 = (if crc1 \<noteq> bitrev32 crc2 then 1 else 0);
     crc1 \<leftarrow> crc32_le h init b (take len buf);
     let f4 = (if crc1 \<noteq> crc2 then 1 else 0);
     crc2 \<leftarrow> crc32_le h init b (take (len + 4) buf);
     let f5 = (if crc2 \<noteq> 0 then 1 else 0);
     let f6 = split_fails (crc32_le h) init b buf (len + 4);
     Some (crc1, buf, f1 + f2 + f3 + f4 + f5 + f6)
   }"

text \<open>
  One round of \<open>main\<close> at length \<open>i\<close>: \<open>buf1\<close> and \<open>buf2\<close> after \<open>random_garbage\<close> has filled their first \<open>i\<close>
  bytes, \<open>buf3\<close> before its first \<open>i\<close> bytes become their exclusive-or; \<open>b1\<close> to \<open>b3\<close> are the addresses.
\<close>

definition INIT1 :: u32 where "INIT1 = 0"
definition INIT2 :: u32 where "INIT2 = 0"

definition test_round ::
    "crc_host \<Rightarrow> (u8 \<Rightarrow> u8) \<Rightarrow> (u32 \<Rightarrow> u32) \<Rightarrow> u32 \<Rightarrow> u32 \<Rightarrow> u32 \<Rightarrow> u8 list \<Rightarrow> u8 list \<Rightarrow> u8 list \<Rightarrow> nat \<Rightarrow> nat option" where
  "test_round h bitrev8 bitrev32 b1 b2 b3 buf1 buf2 buf3 i = do {
     let buf3 = map2 (XOR) (take i buf1) (take i buf2) @ drop i buf3;
     (crc1, _, f1) \<leftarrow> test_step h bitrev8 bitrev32 INIT1 b1 buf1 i;
     (crc2, _, f2) \<leftarrow> test_step h bitrev8 bitrev32 INIT2 b2 buf2 i;
     (crc3, _, f3) \<leftarrow> test_step h bitrev8 bitrev32 (INIT1 XOR INIT2) b3 buf3 i;
     let f4 = (if crc3 \<noteq> crc1 XOR crc2 then 1 else 0);
     Some (f1 + f2 + f3 + f4)
   }"

lemma be_cancel: "crc32_be_1 init (p @ store_be (crc32_be_1 init p)) = 0"
  unfolding crc32_be_1_run crc_run_append store_be_def by (rule be.cancel) simp

lemma split_fails_0:
  assumes "\<And>init b p. crc32 init b p = Some (crc_run stp feed init p)"
    and "crc_run stp feed init (take n buf) = 0"
  shows "split_fails crc32 init b buf n = 0"
proof -
  have "crc_run stp feed (crc_run stp feed init (take i buf)) (take (n - i) (drop i buf)) = 0" if "i \<le> n" for i
  proof -
    have "take i buf @ take (n - i) (drop i buf) = take n buf"
      using that by (metis le_add_diff_inverse take_add)
    then show ?thesis
      using assms(2) by (simp flip: crc_run_append)
  qed
  then show ?thesis
    using assms(2) by (auto simp: split_fails_def assms(1) filter_empty_conv)
qed

lemma test_step_result:
  assumes h: "host_ok h" and r: "bitrev8 = word_reverse" "bitrev32 = word_reverse" and len: "len + 4 \<le> length buf"
  shows "\<exists>buf2. test_step h bitrev8 bitrev32 init b buf len
    = Some (word_reverse (crc32_be_1 init (take len buf)), buf2, 0)"
proof -
  let ?crc = "crc32_be_1 init (take len buf)"
  let ?buf = "take len buf @ store_be ?crc @ drop (len + 4) buf"
  let ?rev = "bytereverse word_reverse ?buf (len + 4)"
  have l: "length (store_be ?crc) = 4" by (simp add: store_be_def)
  have t: "take len ?buf = take len buf" "take (len + 4) ?buf = take len buf @ store_be ?crc"
    using len l by simp_all
  have tr: "take len ?rev = map word_reverse (take len buf)"
    "take (len + 4) ?rev = map word_reverse (take len buf @ store_be ?crc)"
    using len l by (simp_all add: bytereverse_def take_map)
  have z: "crc32_be_1 init (take (len + 4) ?buf) = 0"
    "crc32_le_1 (word_reverse init) (take (len + 4) ?rev) = 0"
    by (simp_all only: t tr be_cancel run_reverse [symmetric] word_reverse_0)
  have s: "split_fails (crc32_be h) init b ?buf (len + 4) = 0"
    "split_fails (crc32_le h) (word_reverse init) b ?rev (len + 4) = 0"
    using z crc32_be_run [OF h] crc32_le_run [OF h]
    by (auto intro!: split_fails_0 simp: crc32_be_1_run crc32_le_1_run)
  show ?thesis
    using z s
    by (simp add: test_step_def Let_def r crc32_be_run [OF h] crc32_le_run [OF h] tr(1)
        flip: crc32_be_1_run crc32_le_1_run run_reverse)
qed

text \<open>
  C15. The unit test of \<^verbatim>\<open>crc32_old.c\<close> passes: on either byte order, at every length, for every content
  of the buffers and every address, one round of \<open>main\<close> returns and reports no failure.
\<close>

theorem unit_test_passes:
  assumes "host_ok h" "bitrev8 = word_reverse" "bitrev32 = word_reverse"
    and "i + 4 \<le> length buf1" "i + 4 \<le> length buf2" "i + 4 \<le> length buf3"
  shows "test_round h bitrev8 bitrev32 b1 b2 b3 buf1 buf2 buf3 i = Some 0"
proof -
  let ?buf3 = "map2 (XOR) (take i buf1) (take i buf2) @ drop i buf3"
  have "i + 4 \<le> length ?buf3" and t: "take i ?buf3 = map2 (XOR) (take i buf1) (take i buf2)"
    using assms by simp_all
  then obtain c1 c2 c3 where
    "test_step h bitrev8 bitrev32 INIT1 b1 buf1 i = Some (word_reverse (crc32_be_1 INIT1 (take i buf1)), c1, 0)"
    "test_step h bitrev8 bitrev32 INIT2 b2 buf2 i = Some (word_reverse (crc32_be_1 INIT2 (take i buf2)), c2, 0)"
    "test_step h bitrev8 bitrev32 (INIT1 XOR INIT2) b3 ?buf3 i
      = Some (word_reverse (crc32_be_1 (INIT1 XOR INIT2) (take i ?buf3)), c3, 0)"
    using test_step_result [OF assms(1-3)] assms(4-6) by meson
  moreover have "crc32_be_1 (INIT1 XOR INIT2) (take i ?buf3)
      = crc32_be_1 INIT1 (take i buf1) XOR crc32_be_1 INIT2 (take i buf2)"
    unfolding t crc32_be_1_run using assms by (intro be.run_xor) simp
  ultimately show ?thesis
    by (simp add: test_round_def word_reverse_xor)
qed

theorem unit_test_passes_witness:
  "test_round (the_host False) word_reverse word_reverse 0x80000000 0x80000101 0x80000202
     [1, 2, 3, 4, 5, 0, 0, 0, 0] [9, 8, 7, 6, 5, 0, 0, 0, 0] [0, 0, 0, 0, 0, 0, 0, 0, 0] 5 = Some 0"
  by (rule unit_test_passes) simp_all

text \<open>
  Error detection of the code the UBI headers are protected by: replacing any four consecutive
  bytes of a message by others changes its CRC, in both byte orders.
\<close>

theorem crc32_detects_burst:
  assumes "host_ok h" "length xs = 4" "length ys = 4"
  shows "(crc32_le h crc b (pre @ xs @ post) = crc32_le h crc b (pre @ ys @ post) \<longleftrightarrow> xs = ys)
    \<and> (crc32_be h crc b (pre @ xs @ post) = crc32_be h crc b (pre @ ys @ post) \<longleftrightarrow> xs = ys)"
  using assms by (simp add: crc32_le_run crc32_be_run le.burst be.burst)

theorem crc32_detects_burst_witness:
  "crc32_le (the_host False) 0xFFFFFFFF 0x80000000 ([1] @ [2, 3, 4, 5] @ [6])
     \<noteq> crc32_le (the_host False) 0xFFFFFFFF 0x80000000 ([1] @ [2, 7, 4, 9] @ [6])"
  using crc32_detects_burst [of "the_host False" "[2, 3, 4, 5]" "[2, 7, 4, 9]" "0xFFFFFFFF" "0x80000000" "[1]" "[6]"]
  by simp

subsection \<open>The loops of the tutorial\<close>

text \<open>
  The comment at the end of \<^verbatim>\<open>crc32_old.c\<close> derives the routines from long division: one message bit at a
  time shifted into the remainder, then the loop that merges the bit at the top instead. A message is
  the list of its bits in the order they are sent.
\<close>

definition tutorial_division :: "u32 \<Rightarrow> bool list \<Rightarrow> u32" where
  "tutorial_division r bits = foldl (\<lambda>r next_input_bit.
     let multiple = (if r AND 0x80000000 \<noteq> 0 then CRCPOLY_BE else 0)
     in (push_bit 1 r OR of_bool next_input_bit) XOR multiple) r bits"

definition tutorial_merged :: "u32 \<Rightarrow> bool list \<Rightarrow> u32" where
  "tutorial_merged r bits = foldl (\<lambda>r next_input_bit.
     let r = r XOR push_bit 31 (of_bool next_input_bit);
         multiple = (if r AND 0x80000000 \<noteq> 0 then CRCPOLY_BE else 0)
     in push_bit 1 r XOR multiple) r bits"

definition bits_msb_first :: "u8 list \<Rightarrow> bool list" where
  "bits_msb_first p = concat (map (\<lambda>b. map (bit b) [7, 6, 5, 4, 3, 2, 1, 0]) p)"

lemma top_bit: "r AND 0x80000000 \<noteq> 0 \<longleftrightarrow> bit (r :: u32) 31"
  using and_exp_eq_0_iff_not_bit [of r 31] by simp

lemma division_step:
  "(push_bit 1 r OR of_bool b) XOR (if r AND 0x80000000 \<noteq> 0 then CRCPOLY_BE else 0)
   = msb_step CRCPOLY_BE r XOR of_bool b"
proof -
  have "push_bit 1 r OR of_bool b = push_bit 1 r XOR of_bool b"
    by (rule bit_word_eqI) (auto simp: bit_simps)
  then show ?thesis
    unfolding top_bit msb_step_alt by (simp add: xor.assoc xor.commute xor.left_commute)
qed

lemma merged_step:
  "(let r = r XOR push_bit 31 (of_bool b); multiple = (if r AND 0x80000000 \<noteq> 0 then CRCPOLY_BE else 0)
    in push_bit 1 r XOR multiple) = msb_step CRCPOLY_BE (r XOR push_bit 31 (of_bool b))"
  unfolding Let_def top_bit msb_step_alt by simp

lemma tutorial_division_simps [simp]:
  "tutorial_division r [] = r"
  "tutorial_division r (b # bits) = tutorial_division (msb_step CRCPOLY_BE r XOR of_bool b) bits"
  unfolding tutorial_division_def Let_def division_step by simp_all

lemma tutorial_merged_simps [simp]:
  "tutorial_merged r [] = r"
  "tutorial_merged r (b # bits) = tutorial_merged (msb_step CRCPOLY_BE (r XOR push_bit 31 (of_bool b))) bits"
  unfolding tutorial_merged_def merged_step by simp_all

lemma steps_of_bit: "(msb_step CRCPOLY_BE ^^ 31) (of_bool b) = push_bit 31 (of_bool b)"
  by (rule msb_steps_shift) (auto simp: bit_simps)

lemma merged_of_division:
  "tutorial_merged ((msb_step CRCPOLY_BE ^^ 32) r) bits = (msb_step CRCPOLY_BE ^^ 32) (tutorial_division r bits)"
proof (induction bits arbitrary: r)
  case Nil
  then show ?case by simp
next
  case (Cons b bits)
  let ?s = "msb_step CRCPOLY_BE"
  have "?s ((?s ^^ 32) r XOR push_bit 31 (of_bool b)) = ?s ((?s ^^ 32) r) XOR ?s ((?s ^^ 31) (of_bool b))"
    by (simp only: msb_step_xor steps_of_bit)
  also have "\<dots> = (?s ^^ 32) (?s r XOR of_bool b)"
    using funpow_add_apply [of 1 31 ?s] funpow_swap1 [of ?s 32 r] by (simp add: be.steps_xor)
  finally show ?case
    using Cons.IH [of "?s r XOR of_bool b"] by (simp only: tutorial_merged_simps tutorial_division_simps)
qed

lemma division_zeros: "tutorial_division r (replicate n False) = (msb_step CRCPOLY_BE ^^ n) r"
  by (induction n arbitrary: r) (simp_all add: funpow_swap1)

lemma division_append:
  "tutorial_division r (xs @ ys) = tutorial_division (tutorial_division r xs) ys"
  by (simp add: tutorial_division_def)

text \<open>Merging the eight bits of a byte one by one is merging the byte.\<close>

lemma merged_bits:
  "k \<le> 32 \<Longrightarrow> tutorial_merged r (map (bit (v :: u32)) (rev [0..<k])) = (msb_step CRCPOLY_BE ^^ k) (r XOR push_bit (32 - k) v)"
proof (induction k arbitrary: r)
  case 0
  have "push_bit 32 v = 0"
    by (rule bit_word_eqI) (simp add: bit_simps)
  then show ?case by simp
next
  case (Suc k)
  let ?s = "msb_step CRCPOLY_BE" and ?low = "push_bit (31 - k) (take_bit k v)"
  have split: "push_bit (31 - k) v = push_bit 31 (of_bool (bit v k)) XOR ?low"
  proof (rule bit_word_eqI)
    fix n assume "n < LENGTH(32)"
    then show "bit (push_bit (31 - k) v) n = bit (push_bit 31 (of_bool (bit v k)) XOR ?low) n"
      using Suc.prems by (cases "n = 31") (auto simp: bit_simps)
  qed
  have "?s ?low = push_bit 1 ?low"
    using msb_steps_shift [of 1 ?low CRCPOLY_BE] Suc.prems by (auto simp: bit_simps)
  also have "\<dots> = push_bit (32 - k) v"
    using Suc.prems by (intro bit_word_eqI) (auto simp: bit_simps)
  finally have low: "?s ?low = push_bit (32 - k) v" .
  have "tutorial_merged r (map (bit v) (rev [0..<Suc k]))
      = (?s ^^ k) (?s (r XOR push_bit 31 (of_bool (bit v k))) XOR push_bit (32 - k) v)"
    using Suc by simp
  also have "\<dots> = (?s ^^ k) (?s (r XOR push_bit (31 - k) v))"
    by (simp only: low [symmetric] split msb_step_xor [symmetric] xor.assoc)
  finally show ?case
    by (simp add: funpow_swap1)
qed

lemma merged_bytes: "tutorial_merged r (bits_msb_first p) = crc32_be_1 r p"
proof (induction p arbitrary: r)
  case Nil
  then show ?case by (simp add: bits_msb_first_def crc32_be_1_run)
next
  case (Cons b p)
  have b: "map (bit (ucast b :: u32)) (rev [0..<8]) = map (bit b) [7, 6, 5, 4, 3, 2, 1, 0]"
    by (simp add: upt_rec bit_simps numeral_eq_Suc)
  have app: "tutorial_merged r (xs @ ys) = tutorial_merged (tutorial_merged r xs) ys" for r xs ys
    by (simp add: tutorial_merged_def)
  have cons: "bits_msb_first (b # p) = map (bit (ucast b :: u32)) (rev [0..<8]) @ bits_msb_first p"
    unfolding b by (simp add: bits_msb_first_def)
  have "tutorial_merged r (map (bit (ucast b :: u32)) (rev [0..<8])) = crc32_be_1 r [b]"
    using merged_bits [of 8 r "ucast b"] by (simp add: crc32_be_1_run crc_byte_def msb_feed_def)
  then show ?case
    unfolding cons app Cons.IH by (simp add: crc32_be_1_run)
qed

text \<open>
  C26. The tutorial's claim about the routines: the CRC of a message with seed 0 is the remainder of the
  long division of the message's bits, most significant bit of a byte first, followed by 32 zero bits;
  and for every remainder the loop that merges each bit when it is needed is the division run 32 bits
  ahead.
\<close>

theorem crc_is_long_division:
  "crc32_be_1 0 p = tutorial_division 0 (bits_msb_first p @ replicate 32 False)
   \<and> tutorial_merged (tutorial_division r (replicate 32 False)) bits
     = tutorial_division r (bits @ replicate 32 False)"
  using merged_of_division [of 0 "bits_msb_first p"] merged_of_division [of r bits]
  by (simp add: division_append division_zeros merged_bytes)

text \<open>
  The two CRC libraries agree: the \<open>CRC32\<close> standard of \<^verbatim>\<open>crc32.c\<close>, by table, is \<open>crc32_le\<close> with the
  seed of all ones, on either byte order and at any address.
\<close>

lemma lib_run_reverse:
  "reflect_remainder CRC32 (crc_run (msb_step (POLYNOMIAL CRC32)) msb_feed r (map (reflect_data CRC32) p))
   = crc32_le_1 (word_reverse r) p"
proof -
  have "map word_reverse (map (reflect_data CRC32) p) = p"
    by (simp add: reflect_data_def reflect_8 CRC32_def comp_def)
  then have "word_reverse (crc32_be_1 r (map (reflect_data CRC32) p)) = crc32_le_1 (word_reverse r) p"
    by (simp only: run_reverse)
  then show ?thesis
    by (simp add: reflect_remainder_def reflect_32 crc32_be_1_run CRC32_def CRCPOLY_BE_def)
qed

theorem crcFast_eq_crc32_le:
  assumes "host_ok h"
  shows "crc32_le h 0xFFFFFFFF b message
    = Some (crcFast CRC32 (crcInit CRC32) message (int (length message)))"
proof -
  have "word_reverse (0xFFFFFFFF :: u32) = 0xFFFFFFFF"
    by (simp add: word_reverse_def upt_32)
  moreover have "FINAL_XOR_VALUE CRC32 = 0" "INITIAL_REMAINDER CRC32 = 0xFFFFFFFF"
    by (simp_all add: CRC32_def)
  ultimately show ?thesis
    by (simp add: crcFast_run lib_run_reverse crc32_le_run [OF assms] flip: crc32_le_1_run)
qed

theorem crcFast_eq_crc32_le_witness:
  "crc32_le (the_host False) 0xFFFFFFFF 0x80000001 [0x31, 0x32, 0x33, 0x34, 0x35, 0x36]
   = Some (crcFast CRC32 (crcInit CRC32) [0x31, 0x32, 0x33, 0x34, 0x35, 0x36] 6)"
  using crcFast_eq_crc32_le [of "the_host False" "0x80000001" "[0x31, 0x32, 0x33, 0x34, 0x35, 0x36]"] by simp

text \<open>
  The macro \<open>__constant_cpu_to_le32\<close> that \<^verbatim>\<open>crc32_old.c\<close> falls back on leaves the table unswapped; on a
  big-endian host, which the MIPS target is, the table variant then disagrees with the one-bit
  variant: for a one-byte message and seed 0 it returns the table entry with its bytes reversed.
\<close>

definition fallback_host :: crc_host where
  "fallback_host = (the_host False)\<lparr>constant_cpu_to_le32 := \<lambda>x. x\<rparr>"

theorem unswapped_table_wrong:
  "crc32_le fallback_host 0 b [x] = Some (SWAPEND32 (crc32_le_1 0 [x]))
   \<and> crc32_le_1 0 [1] \<noteq> SWAPEND32 (crc32_le_1 0 [1])"
proof -
  have "SWAPEND32 0 = 0" by (simp add: SWAPEND32_def BYTE_def)
  then have "crc32_le fallback_host 0 b [x] = Some (SWAPEND32 (crc32table_le ! unat x))"
    by (simp add: crc32_le_def crc_body_def fallback_host_def the_host_def CPU_TO_LE32_swap DO_CRC_def
        unat_and_255 Let_def)
  moreover have entry: "crc32table_le ! unat x = crc32_le_1 0 [x]" for x :: u8
    using le_tab.lookup [of x 0] by (simp add: crc32_le_1_run)
  moreover have "crc32_le_1 0 [1] = 0x77073096"
    using entry [of 1] by (simp add: crc32table_le_def)
  moreover have "SWAPEND32 0x77073096 = 0x96300777"
    by (simp add: SWAPEND32_def BYTE_def)
  ultimately show ?thesis
    by simp
qed

end
