(* ===== verification/Machine.thy ===== *)
theory Machine
  imports Prelude
begin

unbundle bit_operations_syntax

section \<open>The machine under the C code\<close>

text \<open>
  The boot code runs on the bare Vx185: it reads and writes device registers through volatile 32 bit
  pointers, reads and sets the MIPS count register, and keeps its data in RAM. The devices are not in
  the repository, so they are a parameter: a value of type \<open>'d machine\<close> says what a register access
  and a count access do to the state \<open>'d\<close> of the devices. Every access may change that state, which is
  how time passes, FIFOs drain and status bits rise.

  \<open>'d sys\<close> is the state a C function sees: the two globals of \<^verbatim>\<open>soc_ram.c\<close>, the devices, and RAM by
  physical address. A function that can spin forever returns an option, and None is the run that does
  not return.
\<close>

record 'd machine =
  io_load :: "u32 \<Rightarrow> 'd \<Rightarrow> u32 \<times> 'd"
  io_store :: "u32 \<Rightarrow> u32 \<Rightarrow> 'd \<Rightarrow> 'd"
  get_count :: "'d \<Rightarrow> u32 \<times> 'd"
  set_count :: "u32 \<Rightarrow> 'd \<Rightarrow> 'd"
  set_compare :: "u32 \<Rightarrow> 'd \<Rightarrow> 'd"

record 'd sys =
  gChipType :: u32
  gSysClock :: u32
  dev :: 'd
  mem :: "u32 \<Rightarrow> u8"

subsection \<open>Register accesses\<close>

definition H_RD32 :: "'d machine \<Rightarrow> u32 \<Rightarrow> 'd sys \<Rightarrow> u32 \<times> 'd sys" where
  "H_RD32 M a s = (let (v, d) = io_load M a (dev s) in (v, s\<lparr>dev := d\<rparr>))"

definition H_WR32 :: "'d machine \<Rightarrow> u32 \<Rightarrow> u32 \<Rightarrow> 'd sys \<Rightarrow> 'd sys" where
  "H_WR32 M a v s = s\<lparr>dev := io_store M a v (dev s)\<rparr>"

definition GET_COUNTER :: "'d machine \<Rightarrow> 'd sys \<Rightarrow> u32 \<times> 'd sys" where
  "GET_COUNTER M s = (let (v, d) = get_count M (dev s) in (v, s\<lparr>dev := d\<rparr>))"

definition SET_COUNTER :: "'d machine \<Rightarrow> u32 \<Rightarrow> 'd sys \<Rightarrow> 'd sys" where
  "SET_COUNTER M v s = s\<lparr>dev := set_count M v (dev s)\<rparr>"

definition SET_COMPARE :: "'d machine \<Rightarrow> u32 \<Rightarrow> 'd sys \<Rightarrow> 'd sys" where
  "SET_COMPARE M v s = s\<lparr>dev := set_compare M v (dev s)\<rparr>"

text \<open>The polls of \<^verbatim>\<open>global_type.h\<close>: a load per test, no bound.\<close>

partial_function (option) c_poll32_until_set :: "'d machine \<Rightarrow> u32 \<Rightarrow> u32 \<Rightarrow> 'd sys \<Rightarrow> 'd sys option" where
  "c_poll32_until_set M a bitmsk s =
     (let (v, s) = H_RD32 M a s
      in if bitmsk \<noteq> v AND bitmsk then c_poll32_until_set M a bitmsk s else Some s)"

partial_function (option) c_poll32_until_clr :: "'d machine \<Rightarrow> u32 \<Rightarrow> u32 \<Rightarrow> 'd sys \<Rightarrow> 'd sys option" where
  "c_poll32_until_clr M a bitmsk s =
     (let (v, s) = H_RD32 M a s
      in if v AND bitmsk \<noteq> 0 then c_poll32_until_clr M a bitmsk s else Some s)"

definition rmw32 :: "'d machine \<Rightarrow> u32 \<Rightarrow> (u32 \<Rightarrow> u32) \<Rightarrow> 'd sys \<Rightarrow> 'd sys" where
  "rmw32 M a f s = (let (v, s) = H_RD32 M a s in H_WR32 M a (f v) s)"

subsection \<open>RAM\<close>

text \<open>
  RAM is reached through two unmapped windows, cached at \<open>0x80000000\<close> and uncached at \<open>0xA0000000\<close>;
  both drop the top three address bits.
\<close>

definition phys :: "u32 \<Rightarrow> u32" where
  "phys a = a AND 0x1FFFFFFF"

definition ram_load8 :: "u32 \<Rightarrow> 'd sys \<Rightarrow> u8" where
  "ram_load8 a s = mem s (phys a)"

definition ram_load16 :: "u32 \<Rightarrow> 'd sys \<Rightarrow> u16" where
  "ram_load16 a s = push_bit 8 (ucast (ram_load8 a s)) OR ucast (ram_load8 (a + 1) s)"

definition ram_store8 :: "u32 \<Rightarrow> u8 \<Rightarrow> 'd sys \<Rightarrow> 'd sys" where
  "ram_store8 a v s = s\<lparr>mem := (mem s)(phys a := v)\<rparr>"

definition ram_bytes :: "u32 \<Rightarrow> nat \<Rightarrow> 'd sys \<Rightarrow> u8 list" where
  "ram_bytes a n s = map (\<lambda>i. ram_load8 (a + of_nat i) s) [0..<n]"

subsection \<open>What an access leaves alone\<close>

text \<open>
  \<open>frame s s'\<close>: the step from \<open>s\<close> to \<open>s'\<close> has touched devices only. Register accesses and polls keep
  RAM and the globals.
\<close>

definition frame :: "'d sys \<Rightarrow> 'd sys \<Rightarrow> bool" where
  "frame s t \<longleftrightarrow> gChipType t = gChipType s \<and> gSysClock t = gSysClock s \<and> mem t = mem s"

lemma frame_refl [simp, intro]: "frame s s"
  by (simp add: frame_def)

lemma frame_trans [trans]: "frame s t \<Longrightarrow> frame t u \<Longrightarrow> frame s u"
  by (simp add: frame_def)

lemma frameD:
  assumes "frame s t"
  shows "gChipType t = gChipType s" "gSysClock t = gSysClock s" "mem t = mem s"
  using assms by (simp_all add: frame_def)

lemma frame_H_RD32 [io_simps]: "H_RD32 M a s = (v, t) \<Longrightarrow> frame s t"
  by (auto simp: H_RD32_def frame_def split: prod.splits)

lemma frame_H_WR32 [simp, io_simps]: "frame s (H_WR32 M a v s)"
  by (simp add: H_WR32_def frame_def)

lemma frame_GET_COUNTER [io_simps]: "GET_COUNTER M s = (v, t) \<Longrightarrow> frame s t"
  by (auto simp: GET_COUNTER_def frame_def split: prod.splits)

lemma frame_SET_COUNTER [simp]: "frame s (SET_COUNTER M v s)"
  by (simp add: SET_COUNTER_def frame_def)

lemma frame_SET_COMPARE [simp]: "frame s (SET_COMPARE M v s)"
  by (simp add: SET_COMPARE_def frame_def)

lemma frame_rmw32 [simp]: "frame s (rmw32 M a f s)"
  by (auto simp: rmw32_def H_RD32_def H_WR32_def frame_def split: prod.splits)

lemma c_poll32_until_set_frame: "c_poll32_until_set M a bitmsk s = Some t \<Longrightarrow> frame s t"
proof (rule c_poll32_until_set.raw_induct [where P = "\<lambda>_ _ _ s t. frame s t"])
  fix c_poll :: "'a machine \<Rightarrow> u32 \<Rightarrow> u32 \<Rightarrow> 'a sys \<Rightarrow> 'a sys option" and M' :: "'a machine" and a bitmsk :: u32 and s t :: "'a sys"
  assume IH: "\<And>M a bitmsk s t. c_poll M a bitmsk s = Some t \<Longrightarrow> frame s t"
  assume run: "(let (v, s) = H_RD32 M' a s in if bitmsk \<noteq> v AND bitmsk then c_poll M' a bitmsk s else Some s) = Some t"
  obtain v s1 where l: "H_RD32 M' a s = (v, s1)" by (metis prod.exhaust)
  from frame_H_RD32 [OF l] show "frame s t"
    using run IH by (auto simp: l split: if_splits intro: frame_trans)
qed

lemma c_poll32_until_clr_frame: "c_poll32_until_clr M a bitmsk s = Some t \<Longrightarrow> frame s t"
proof (rule c_poll32_until_clr.raw_induct [where P = "\<lambda>_ _ _ s t. frame s t"])
  fix c_poll :: "'a machine \<Rightarrow> u32 \<Rightarrow> u32 \<Rightarrow> 'a sys \<Rightarrow> 'a sys option" and M' :: "'a machine" and a bitmsk :: u32 and s t :: "'a sys"
  assume IH: "\<And>M a bitmsk s t. c_poll M a bitmsk s = Some t \<Longrightarrow> frame s t"
  assume run: "(let (v, s) = H_RD32 M' a s in if v AND bitmsk \<noteq> 0 then c_poll M' a bitmsk s else Some s) = Some t"
  obtain v s1 where l: "H_RD32 M' a s = (v, s1)" by (metis prod.exhaust)
  from frame_H_RD32 [OF l] show "frame s t"
    using run IH by (auto simp: l split: if_splits intro: frame_trans)
qed

text \<open>A poll that returns has seen the bits it waited for in its last load.\<close>

lemma c_poll32_until_set_seen:
  "c_poll32_until_set M a bitmsk s = Some t \<Longrightarrow> \<exists>v d. io_load M a d = (v, dev t) \<and> v AND bitmsk = bitmsk"
proof (rule c_poll32_until_set.raw_induct
    [where P = "\<lambda>M a bitmsk _ t. \<exists>v d. io_load M a d = (v, dev t) \<and> v AND bitmsk = bitmsk"])
  fix c_poll :: "'a machine \<Rightarrow> u32 \<Rightarrow> u32 \<Rightarrow> 'a sys \<Rightarrow> 'a sys option" and M' :: "'a machine" and a bitmsk :: u32 and s t :: "'a sys"
  assume IH: "\<And>M a bitmsk s t. c_poll M a bitmsk s = Some t \<Longrightarrow>
    \<exists>v d. io_load M a d = (v, dev t) \<and> v AND bitmsk = bitmsk"
  assume run: "(let (v, s) = H_RD32 M' a s in if bitmsk \<noteq> v AND bitmsk then c_poll M' a bitmsk s else Some s) = Some t"
  obtain v d where l: "io_load M' a (dev s) = (v, d)" by (metis prod.exhaust)
  show "\<exists>v d. io_load M' a d = (v, dev t) \<and> v AND bitmsk = bitmsk"
  proof (cases "v AND bitmsk = bitmsk")
    case True
    then have "io_load M' a (dev s) = (v, dev t)"
      using run l by (auto simp: H_RD32_def)
    with True show ?thesis by blast
  next
    case False
    then have "bitmsk \<noteq> v AND bitmsk" by metis
    with run l have "c_poll M' a bitmsk (s\<lparr>dev := d\<rparr>) = Some t"
      by (simp add: H_RD32_def)
    then show ?thesis by (rule IH)
  qed
qed

text \<open>What every load of a register keeps, a poll of it keeps.\<close>

lemma c_poll32_until_set_inv:
  assumes "c_poll32_until_set M a bitmsk s = Some t"
    and keep: "\<And>v d e. io_load M a d = (v, e) \<Longrightarrow> f e = f d"
  shows "f (dev t) = f (dev s)"
proof -
  have "(\<forall>v d e. io_load M a d = (v, e) \<longrightarrow> f e = f d) \<longrightarrow> f (dev t) = f (dev s)"
    using _ assms(1)
  proof (rule c_poll32_until_set.raw_induct
      [where P = "\<lambda>M a _ s t. (\<forall>v d e. io_load M a d = (v, e) \<longrightarrow> f e = f d) \<longrightarrow> f (dev t) = f (dev s)"])
    fix c_poll :: "'a machine \<Rightarrow> u32 \<Rightarrow> u32 \<Rightarrow> 'a sys \<Rightarrow> 'a sys option" and M' :: "'a machine"
      and a bitmsk :: u32 and s t :: "'a sys"
    assume IH: "\<And>M a bitmsk s t. c_poll M a bitmsk s = Some t \<Longrightarrow>
      (\<forall>v d e. io_load M a d = (v, e) \<longrightarrow> f e = f d) \<longrightarrow> f (dev t) = f (dev s)"
    assume run: "(let (v, s) = H_RD32 M' a s in if bitmsk \<noteq> v AND bitmsk then c_poll M' a bitmsk s else Some s) = Some t"
    obtain v d where l: "io_load M' a (dev s) = (v, d)" by (metis prod.exhaust)
    show "(\<forall>v d e. io_load M' a d = (v, e) \<longrightarrow> f e = f d) \<longrightarrow> f (dev t) = f (dev s)"
    proof
      assume k: "\<forall>v d e. io_load M' a d = (v, e) \<longrightarrow> f e = f d"
      then have "f d = f (dev s)" using l by blast
      with run l k IH [of M' a bitmsk "s\<lparr>dev := d\<rparr>" t] show "f (dev t) = f (dev s)"
        by (auto simp: H_RD32_def split: if_splits)
    qed
  qed
  with keep show ?thesis by blast
qed

subsection \<open>RAM accesses through both windows\<close>

lemma phys_and: "phys (a AND 0x1FFFFFFF) = phys a"
  by (simp add: phys_def and.assoc)

lemma unat_phys: "unat (phys a) = unat a mod 2 ^ 29"
proof -
  have "phys a = take_bit 29 a"
    by (simp add: phys_def take_bit_eq_mask mask_eq_exp_minus_1)
  then show ?thesis
    by (simp add: take_bit_eq_mod unat_mod)
qed

text \<open>Within a window of 512 MByte two offsets are two physical bytes.\<close>

lemma phys_offset_inj:
  assumes "phys (a + of_nat i) = phys (a + of_nat j)" "i < 2 ^ 29" "j < 2 ^ 29"
  shows "i = j"
proof -
  have u: "unat (a + of_nat k) mod 2 ^ 29 = (unat a + k) mod 2 ^ 29" for k
  proof -
    have "unat (a + of_nat k) = (unat a + k) mod 2 ^ 32"
      by (simp add: unat_word_ariths unsigned_of_nat take_bit_eq_mod mod_add_right_eq)
    moreover have "(2 ^ 29 :: nat) dvd 2 ^ 32" by (simp add: le_imp_power_dvd)
    ultimately show ?thesis by (simp add: mod_mod_cancel)
  qed
  have "(unat a + i) mod 2 ^ 29 = (unat a + j) mod 2 ^ 29"
    using assms(1) unat_phys u by metis
  then have "i mod 2 ^ 29 = j mod 2 ^ 29"
    by (simp add: nat_mod_eq_iff)
  then show ?thesis using assms(2,3) by simp
qed

lemma ram_load_store [simp]:
  "ram_load8 a (ram_store8 b v s) = (if phys a = phys b then v else ram_load8 a s)"
  by (simp add: ram_load8_def ram_store8_def)

lemma ram_store8_frame [simp]:
  "gChipType (ram_store8 a v s) = gChipType s" "gSysClock (ram_store8 a v s) = gSysClock s"
  "dev (ram_store8 a v s) = dev s"
  by (simp_all add: ram_store8_def)

end
