(* ===== verification/Uart.thy ===== *)
theory Uart
  imports Machine
begin

unbundle bit_operations_syntax

section \<open>The console UART (boot/soc\_landshark/uart\_ram.c, boot/include/reg\_uart.h)\<close>

text \<open>
  The registers of \<open>uart_reg_t\<close>, then the routines of \<^verbatim>\<open>uart_ram.c\<close> in the order of the file: set up,
  one character out and in, strings, hexadecimal and decimal output and the register dumps. What the
  callers rely on is the interface \<open>char_port\<close>.
\<close>

datatype uart_reg = u0 | u1 | iir | lcr | mcr | lsr | msr | scr

definition UART_BASE :: u32 where "UART_BASE = 0xB9010000"
definition UART1_BASE :: u32 where "UART1_BASE = UART_BASE"
definition UART2_BASE :: u32 where "UART2_BASE = UART_BASE + 0x8000"

fun uart_offset :: "uart_reg \<Rightarrow> u32" where
  "uart_offset u0 = 0x00"
| "uart_offset u1 = 0x04"
| "uart_offset iir = 0x08"
| "uart_offset lcr = 0x0c"
| "uart_offset mcr = 0x10"
| "uart_offset lsr = 0x14"
| "uart_offset msr = 0x18"
| "uart_offset scr = 0x1c"

definition UART1 :: "uart_reg \<Rightarrow> u32" where
  "UART1 r = UART1_BASE + uart_offset r"

definition UART_LSR_BITMASK_DR :: u32 where "UART_LSR_BITMASK_DR = push_bit 0 1"
definition UART_LSR_BITMASK_THRE :: u32 where "UART_LSR_BITMASK_THRE = push_bit 5 1"

text \<open>Registers are ordered by their offset.\<close>

lemma uart_offset_inj: "uart_offset r = uart_offset q \<longleftrightarrow> r = q"
  by (cases r; cases q) simp_all

instantiation uart_reg :: linorder
begin

definition less_eq_uart_reg :: "uart_reg \<Rightarrow> uart_reg \<Rightarrow> bool" where
  "less_eq_uart_reg r q \<longleftrightarrow> uart_offset r \<le> uart_offset q"

definition less_uart_reg :: "uart_reg \<Rightarrow> uart_reg \<Rightarrow> bool" where
  "less_uart_reg r q \<longleftrightarrow> uart_offset r < uart_offset q"

instance
  by standard (auto simp: less_eq_uart_reg_def less_uart_reg_def uart_offset_inj less_le)

end

lemma UART1_inj [simp]: "UART1 r = UART1 q \<longleftrightarrow> r = q"
  by (simp add: UART1_def uart_offset_inj)

lemmas uart_defs = UART1_def UART1_BASE_def UART_BASE_def UART_LSR_BITMASK_DR_def UART_LSR_BITMASK_THRE_def

subsection \<open>c\_uart\_init\<close>

definition c_uart_init :: "'d machine \<Rightarrow> 'd sys \<Rightarrow> 'd sys" where
  "c_uart_init M s =
     (let s = H_WR32 M (UART1 lcr) 0x83 s;
          (v, s) = H_RD32 M (UART1 u0) s;
          divisor = (ucast v :: u16);
          divisor = (if 200 * 1000000 = gSysClock s then push_bit 4 divisor
                     else push_bit 4 divisor + push_bit 2 divisor);
          s = H_WR32 M (UART1 u1) (ucast (drop_bit 8 divisor AND 0xff)) s;
          s = H_WR32 M (UART1 u0) (ucast (divisor AND 0xff)) s
      in H_WR32 M (UART1 lcr) 0x03 s)"

subsection \<open>Characters\<close>

text \<open>A \<open>char\<close> is signed on MIPS, so the store extends its sign.\<close>

definition c_put_char :: "'d machine \<Rightarrow> u8 \<Rightarrow> 'd sys \<Rightarrow> 'd sys option" where
  "c_put_char M c s = do {
     s \<leftarrow> c_poll32_until_set M (UART1 lsr) UART_LSR_BITMASK_THRE s;
     Some (H_WR32 M (UART1 u0) (scast c) s)
   }"

text \<open>
  \<open>c_get_char\<close> passes the constant \<open>UART1_LSR\<close>, the address of the register, to the poll on a value.
\<close>

partial_function (option) c_poll_until_set :: "u32 \<Rightarrow> u32 \<Rightarrow> 'd sys \<Rightarrow> 'd sys option" where
  "c_poll_until_set v bitmsk s = (if bitmsk \<noteq> v AND bitmsk then c_poll_until_set v bitmsk s else Some s)"

definition c_get_char :: "'d machine \<Rightarrow> 'd sys \<Rightarrow> (u32 \<times> 'd sys) option" where
  "c_get_char M s = do {
     s \<leftarrow> c_poll_until_set (UART1 lsr) UART_LSR_BITMASK_DR s;
     Some (H_RD32 M (UART1 u0) s)
   }"

definition GETCHAR_TIMED_OUT :: u32 where "GETCHAR_TIMED_OUT = -1"

partial_function (option) c_get_char_wait :: "'d machine \<Rightarrow> u32 \<Rightarrow> 'd sys \<Rightarrow> (u32 \<times> 'd sys) option" where
  "c_get_char_wait M delayClk s =
     (let (t, s) = GET_COUNTER M s
      in if t < delayClk
         then (let (v, s) = H_RD32 M (UART1 lsr) s
               in if v AND UART_LSR_BITMASK_DR \<noteq> 0 then Some (H_RD32 M (UART1 u0) s)
                  else c_get_char_wait M delayClk s)
         else Some (GETCHAR_TIMED_OUT, s))"

definition c_get_char_timout :: "'d machine \<Rightarrow> u32 \<Rightarrow> 'd sys \<Rightarrow> (u32 \<times> 'd sys) option" where
  "c_get_char_timout M delayClk s = c_get_char_wait M delayClk (SET_COUNTER M 0 s)"

text \<open>A C string is the list of its bytes up to, or with, the terminating NUL.\<close>

fun c_put_str :: "'d machine \<Rightarrow> u8 list \<Rightarrow> 'd sys \<Rightarrow> 'd sys option" where
  "c_put_str M [] s = Some s"
| "c_put_str M (c # cs) s = (if c = 0 then Some s else do { s \<leftarrow> c_put_char M c s; c_put_str M cs s })"

definition str :: "string \<Rightarrow> u8 list" where
  "str = map of_char"

subsection \<open>Numbers\<close>

definition c_print_hex4 :: "'d machine \<Rightarrow> u16 \<Rightarrow> 'd sys \<Rightarrow> 'd sys option" where
  "c_print_hex4 M u s = c_put_char M (if u < 10 then 0x30 + ucast u else 0x37 + ucast u) s"

text \<open>The loop on \<open>i\<close>, which is \<open>4 * k\<close> after \<open>k\<close> of the four nibbles are left.\<close>

fun c_put_hex16_loop :: "'d machine \<Rightarrow> u16 \<Rightarrow> nat \<Rightarrow> 'd sys \<Rightarrow> 'd sys option" where
  "c_put_hex16_loop M u 0 s = Some s"
| "c_put_hex16_loop M u (Suc k) s = do {
     s \<leftarrow> c_print_hex4 M (drop_bit (4 * k) u AND 0x0f) s;
     c_put_hex16_loop M u k s
   }"

definition c_put_hex16 :: "'d machine \<Rightarrow> u16 \<Rightarrow> 'd sys \<Rightarrow> 'd sys option" where
  "c_put_hex16 M u s = c_put_hex16_loop M u 4 s"

text \<open>\<open>d_a\<close> has ten elements; a store past its end is None.\<close>

definition arr_set :: "'a list \<Rightarrow> nat \<Rightarrow> 'a \<Rightarrow> 'a list option" where
  "arr_set a i v = (if i < length a then Some (a[i := v]) else None)"

lemma word_div_10_less: "0 < (d :: u32) div 10 \<Longrightarrow> unat (d div 10) < unat d"
  by (auto simp: unat_div word_less_nat_alt intro!: div_less_dividend)

function c_put_dec_fill :: "u8 list \<Rightarrow> nat \<Rightarrow> u32 \<Rightarrow> (u8 list \<times> nat) option" where
  "c_put_dec_fill d_a i d =
     (case arr_set d_a i (ucast (d mod 10)) of
        None \<Rightarrow> None
      | Some d_a \<Rightarrow>
          (if 0 < d div 10
           then (case arr_set d_a (i + 1) (ucast (d div 10 mod 10)) of
                   None \<Rightarrow> None
                 | Some d_a \<Rightarrow> c_put_dec_fill d_a (i + 1) (d div 10))
           else Some (d_a, i)))"
  by pat_completeness auto
termination
  by (relation "measure (\<lambda>(_, _, d). unat d)") (auto simp: word_div_10_less)

declare c_put_dec_fill.simps [simp del]

fun c_put_dec_print :: "'d machine \<Rightarrow> u8 list \<Rightarrow> nat \<Rightarrow> 'd sys \<Rightarrow> 'd sys option" where
  "c_put_dec_print M d_a 0 s = c_put_char M (0x30 + d_a ! 0) s"
| "c_put_dec_print M d_a (Suc i) s = do {
     s \<leftarrow> c_put_char M (0x30 + d_a ! Suc i) s;
     c_put_dec_print M d_a i s
   }"

definition c_put_dec :: "'d machine \<Rightarrow> u32 \<Rightarrow> 'd sys \<Rightarrow> 'd sys option" where
  "c_put_dec M d s = do {
     (d_a, i) \<leftarrow> c_put_dec_fill (replicate 10 0) 0 d;
     c_put_dec_print M d_a i s
   }"

subsection \<open>Register dumps\<close>

definition c_put_hex32 :: "'d machine \<Rightarrow> u32 \<Rightarrow> 'd sys \<Rightarrow> 'd sys option" where
  "c_put_hex32 M v s = do {
     s \<leftarrow> c_put_hex16 M (ucast (drop_bit 16 v)) s;
     c_put_hex16 M (ucast v) s
   }"

definition debugDumpStaticReg :: "'d machine \<Rightarrow> u32 \<Rightarrow> u32 \<Rightarrow> 'd sys \<Rightarrow> 'd sys option" where
  "debugDumpStaticReg M addr flag s = do {
     s \<leftarrow> (if flag \<noteq> 0 then c_put_str M (str [CHR 0x0D, CHR 0x0A, CHR '' '', CHR '' '']) s else Some s);
     s \<leftarrow> c_put_char M (of_char (CHR ''['')) s;
     s \<leftarrow> c_put_hex32 M addr s;
     s \<leftarrow> c_put_char M (of_char (CHR '']'')) s;
     let (v, s) = H_RD32 M addr s;
     s \<leftarrow> c_put_hex16 M (ucast (drop_bit 16 v)) s;
     let (v, s) = H_RD32 M addr s;
     c_put_hex16 M (ucast v) s
   }"

definition debugDumpVolatileReg :: "'d machine \<Rightarrow> u32 \<Rightarrow> u32 \<Rightarrow> 'd sys \<Rightarrow> 'd sys option" where
  "debugDumpVolatileReg M addr flag s = do {
     let (value_before_print, s) = H_RD32 M addr s;
     s \<leftarrow> (if flag \<noteq> 0 then c_put_str M (str [CHR 0x0D, CHR 0x0A, CHR '' '', CHR '' '']) s else Some s);
     s \<leftarrow> c_put_char M (of_char (CHR ''['')) s;
     s \<leftarrow> c_put_hex32 M addr s;
     s \<leftarrow> c_put_char M (of_char (CHR '']'')) s;
     s \<leftarrow> c_put_hex32 M value_before_print s;
     s \<leftarrow> c_put_char M (of_char (CHR ''-'')) s;
     let (value_after_print, s) = H_RD32 M addr s;
     c_put_hex32 M value_after_print s
   }"

text \<open>The loop of \<open>debugDumpRegs\<close>, stopped by the unsigned comparison of \<open>i\<close> with \<open>count * 4\<close>.\<close>

partial_function (option) debugDumpRegs_loop :: "'d machine \<Rightarrow> u32 \<Rightarrow> u32 \<Rightarrow> u32 \<Rightarrow> 'd sys \<Rightarrow> 'd sys option" where
  "debugDumpRegs_loop M base count i s =
     (if i < count * 4 then do {
        s \<leftarrow> (if 0 = i AND 0xf then do {
               s \<leftarrow> c_put_str M (str [CHR 0x0D, CHR 0x0A]) s;
               s \<leftarrow> c_put_hex32 M (base + i) s;
               c_put_char M (of_char (CHR '':'')) s
             } else Some s);
        s \<leftarrow> c_put_char M (of_char (CHR '' '')) s;
        let (v, s) = H_RD32 M (base + i) s;
        s \<leftarrow> c_put_hex16 M (ucast (drop_bit 16 v)) s;
        let (v, s) = H_RD32 M (base + i) s;
        s \<leftarrow> c_put_hex16 M (ucast v) s;
        debugDumpRegs_loop M base count (i + 4) s
      } else Some s)"

definition debugDumpRegs :: "'d machine \<Rightarrow> u32 \<Rightarrow> u32 \<Rightarrow> 'd sys \<Rightarrow> 'd sys option" where
  "debugDumpRegs M base count s = debugDumpRegs_loop M base count 0 s"

subsection \<open>The interface to the callers\<close>

text \<open>
  A character port with RAM beside it: sending and receiving leave RAM and the globals alone, a
  receive with a timeout of 0 times out, and RAM is a store of bytes by address.
\<close>

locale char_port =
  fixes getc :: "u32 \<Rightarrow> 's \<Rightarrow> (u32 \<times> 's) option"
    and putc :: "u8 \<Rightarrow> 's \<Rightarrow> 's option"
    and wr8 :: "u32 \<Rightarrow> u8 \<Rightarrow> 's \<Rightarrow> 's"
    and rd8 :: "u32 \<Rightarrow> 's \<Rightarrow> u8"
    and clock :: "'s \<Rightarrow> u32"
  assumes getc_ram: "getc t s = Some (ch, s') \<Longrightarrow> rd8 a s' = rd8 a s"
    and getc_clock: "getc t s = Some (ch, s') \<Longrightarrow> clock s' = clock s"
    and getc_0: "getc 0 s = Some (ch, s') \<Longrightarrow> ch = GETCHAR_TIMED_OUT"
    and putc_ram: "putc c s = Some s' \<Longrightarrow> rd8 a s' = rd8 a s"
    and putc_clock: "putc c s = Some s' \<Longrightarrow> clock s' = clock s"
    and rd8_wr8: "rd8 a (wr8 b v s) = (if phys a = phys b then v else rd8 a s)"
    and wr8_clock: "clock (wr8 b v s) = clock s"

lemma c_put_char_frame: "c_put_char M c s = Some t \<Longrightarrow> frame s t"
  by (auto simp: c_put_char_def bind_eq_Some_conv dest!: c_poll32_until_set_frame intro: frame_trans)

lemma c_get_char_wait_frame:
  assumes "c_get_char_wait M delayClk s = Some (ch, t)"
  shows "frame s t"
proof -
  have "frame s (snd (ch, t))"
    using _ assms
  proof (rule c_get_char_wait.raw_induct [where P = "\<lambda>_ _ s r. frame s (snd r)"])
    fix wait :: "'a machine \<Rightarrow> u32 \<Rightarrow> 'a sys \<Rightarrow> (u32 \<times> 'a sys) option" and M' :: "'a machine"
      and delayClk :: u32 and s :: "'a sys" and r
    assume IH: "\<And>M delayClk s r. wait M delayClk s = Some r \<Longrightarrow> frame s (snd r)"
    assume run: "(let (k, s) = GET_COUNTER M' s in if k < delayClk
           then (let (v, s) = H_RD32 M' (UART1 lsr) s
                 in if v AND UART_LSR_BITMASK_DR \<noteq> 0 then Some (H_RD32 M' (UART1 u0) s)
                    else wait M' delayClk s)
           else Some (GETCHAR_TIMED_OUT, s)) = Some r"
    obtain k s1 where c: "GET_COUNTER M' s = (k, s1)" by (metis prod.exhaust)
    obtain v s2 where l: "H_RD32 M' (UART1 lsr) s1 = (v, s2)" by (metis prod.exhaust)
    obtain w s3 where d: "H_RD32 M' (UART1 u0) s2 = (w, s3)" by (metis prod.exhaust)
    have "frame s s1" "frame s s2" "frame s s3"
      using frame_GET_COUNTER [OF c] frame_H_RD32 [OF l] frame_H_RD32 [OF d] by (auto intro: frame_trans)
    then show "frame s (snd r)"
      using run IH by (cases r) (auto simp: c l d split: if_splits intro: frame_trans)
  qed
  then show ?thesis by simp
qed

lemma c_get_char_timout_frame: "c_get_char_timout M t s = Some (ch, s') \<Longrightarrow> frame s s'"
  by (auto simp: c_get_char_timout_def dest!: c_get_char_wait_frame intro: frame_trans [OF frame_SET_COUNTER])

lemma c_get_char_timout_0: "\<exists>s'. c_get_char_timout M 0 s = Some (GETCHAR_TIMED_OUT, s') \<and> frame s s'"
proof -
  have "c_get_char_timout M 0 s = Some (GETCHAR_TIMED_OUT, snd (GET_COUNTER M (SET_COUNTER M 0 s)))"
    by (simp add: c_get_char_timout_def c_get_char_wait.simps split: prod.splits)
  then show ?thesis
    by (metis c_get_char_timout_frame)
qed

interpretation uart1: char_port "c_get_char_timout M" "c_put_char M" ram_store8 ram_load8 gSysClock for M :: "'d machine"
proof
  fix t ch :: u32 and c v :: u8 and a b :: u32 and s s' :: "'d sys"
  show "c_get_char_timout M t s = Some (ch, s') \<Longrightarrow> ram_load8 a s' = ram_load8 a s"
    by (simp add: ram_load8_def frameD [OF c_get_char_timout_frame])
  show "c_get_char_timout M t s = Some (ch, s') \<Longrightarrow> gSysClock s' = gSysClock s"
    by (simp add: frameD [OF c_get_char_timout_frame])
  show "c_get_char_timout M 0 s = Some (ch, s') \<Longrightarrow> ch = GETCHAR_TIMED_OUT"
    using c_get_char_timout_0 [of M s] by auto
  show "c_put_char M c s = Some s' \<Longrightarrow> ram_load8 a s' = ram_load8 a s"
    by (simp add: ram_load8_def frameD [OF c_put_char_frame])
  show "c_put_char M c s = Some s' \<Longrightarrow> gSysClock s' = gSysClock s"
    by (simp add: frameD [OF c_put_char_frame])
qed simp_all

subsection \<open>Correctness of the console\<close>

text \<open>
  A character is sent only into an empty holding register: when \<open>c_put_char\<close> returns, its last status
  load showed \<open>THRE\<close>, the only store it made is the sign-extended character to \<open>thr\<close>, right after that
  load, and RAM and the globals are as before.
\<close>

theorem c_put_char_safe:
  assumes "c_put_char M c s = Some t"
  shows "\<exists>v d d'. io_load M (UART1 lsr) d = (v, d') \<and> v AND UART_LSR_BITMASK_THRE = UART_LSR_BITMASK_THRE
    \<and> dev t = io_store M (UART1 u0) (scast c) d' \<and> frame s t"
proof -
  obtain s1 where p: "c_poll32_until_set M (UART1 lsr) UART_LSR_BITMASK_THRE s = Some s1"
    and t: "t = H_WR32 M (UART1 u0) (scast c) s1"
    using assms by (auto simp: c_put_char_def bind_eq_Some_conv)
  from c_poll32_until_set_seen [OF p] obtain v d where
    "io_load M (UART1 lsr) d = (v, dev s1)" "v AND UART_LSR_BITMASK_THRE = UART_LSR_BITMASK_THRE" by blast
  moreover have "frame s t" by (rule c_put_char_frame [OF assms])
  ultimately show ?thesis by (auto simp: t H_WR32_def)
qed

text \<open>
  \<open>c_get_char\<close> never returns, on any devices: it polls the constant address of the status register
  instead of the register.
\<close>

lemma c_poll_until_set_value: "c_poll_until_set v bitmsk s = Some t \<Longrightarrow> bitmsk = v AND bitmsk"
proof (rule c_poll_until_set.raw_induct [where P = "\<lambda>v bitmsk _ _. bitmsk = v AND bitmsk"])
  fix poll :: "u32 \<Rightarrow> u32 \<Rightarrow> 'a sys \<Rightarrow> 'a sys option" and v bitmsk :: u32 and s t :: "'a sys"
  assume IH: "\<And>v bitmsk s t. poll v bitmsk s = Some t \<Longrightarrow> bitmsk = v AND bitmsk"
  assume "(if bitmsk \<noteq> v AND bitmsk then poll v bitmsk s else Some s) = Some t"
  then show "bitmsk = v AND bitmsk"
    using IH [of v bitmsk s t] by (cases "bitmsk = v AND bitmsk") simp_all
qed

theorem c_get_char_never_returns: "c_get_char M s = None"
proof -
  have "UART_LSR_BITMASK_DR \<noteq> UART1 lsr AND UART_LSR_BITMASK_DR"
    by (simp add: uart_defs)
  then have "c_poll_until_set (UART1 lsr) UART_LSR_BITMASK_DR s = None"
    using c_poll_until_set_value by (metis option.exhaust)
  then show ?thesis
    by (simp add: c_get_char_def)
qed

text \<open>Hexadecimal and decimal digits, most significant first, as their characters.\<close>

definition hex_digit :: "nat \<Rightarrow> u8" where
  "hex_digit n = (if n < 10 then 0x30 + of_nat n else 0x37 + of_nat n)"

definition hex16_chars :: "nat \<Rightarrow> u8 list" where
  "hex16_chars n = map (\<lambda>k. hex_digit (n div 16 ^ k mod 16)) [3, 2, 1, 0]"

fun dec_digits :: "nat \<Rightarrow> nat list" where
  "dec_digits n = (if n < 10 then [n] else dec_digits (n div 10) @ [n mod 10])"

declare dec_digits.simps [simp del]

definition dec_chars :: "nat \<Rightarrow> u8 list" where
  "dec_chars n = map (\<lambda>k. 0x30 + of_nat k) (dec_digits n)"

lemma nibble: "drop_bit (4 * k) (u :: u16) AND 0x0f = of_nat (unat u div 16 ^ k mod 16)"
proof -
  have "drop_bit (4 * k) u AND 0x0f = take_bit 4 (drop_bit (4 * k) u)"
    by (simp add: take_bit_eq_mask mask_eq_exp_minus_1)
  also have "\<dots> = of_nat (take_bit 4 (drop_bit (4 * k) (unat u)))"
    by (rule bit_word_eqI) (auto simp: bit_simps bit_unsigned_iff)
  finally show ?thesis
    by (simp add: take_bit_eq_mod drop_bit_eq_div power_mult)
qed

lemma c_print_hex4_nibble:
  assumes "n < 16"
  shows "c_print_hex4 M (of_nat n) s = c_put_char M (hex_digit n) s"
proof -
  have "unat (of_nat n :: u16) = n" using assms by (simp add: unsigned_of_nat take_bit_nat_eq_self)
  moreover have "(ucast (of_nat n :: u16) :: u8) = of_nat n"
    using assms by (simp add: word_eq_iff_unsigned unsigned_ucast_eq unsigned_of_nat take_bit_nat_eq_self)
  ultimately show ?thesis
    by (simp add: c_print_hex4_def hex_digit_def word_less_nat_alt)
qed

lemma hex_digit_nonzero:
  assumes "n < 16"
  shows "hex_digit n \<noteq> 0"
proof -
  have "(of_nat m :: u8) \<noteq> 0" if "0 < m" "m < 256" for m
    using that by (auto simp: word_of_nat_eq_0_iff dest: dvd_imp_le)
  from this [of "48 + n"] this [of "55 + n"] show ?thesis
    using assms by (simp add: hex_digit_def)
qed

lemma c_put_hex16_chars:
  "c_put_hex16 M u s = c_put_str M (hex16_chars (unat u)) s"
proof -
  have nib: "c_print_hex4 M (drop_bit (4 * k) u AND 0x0f) s = c_put_char M (hex_digit (unat u div 16 ^ k mod 16)) s" for k s
    unfolding nibble by (rule c_print_hex4_nibble) simp
  have nz: "hex_digit (m mod 16) \<noteq> 0" for m
    by (rule hex_digit_nonzero) simp
  have loop: "c_put_hex16_loop M u k = c_put_str M (map (\<lambda>k. hex_digit (unat u div 16 ^ k mod 16)) (rev [0..<k]))" for k
  proof (induction k)
    case (Suc k)
    show ?case by (rule ext) (simp add: nib nz Suc.IH)
  qed (simp add: fun_eq_iff)
  have "rev [0..<4] = [3, 2, 1, 0 :: nat]"
    by (simp add: upt_rec numeral_eq_Suc)
  then show ?thesis
    by (simp add: c_put_hex16_def loop hex16_chars_def del: c_put_str.simps upt_rec_numeral)
qed

lemma hex16_chars_nonzero: "0 \<notin> set (hex16_chars n)"
proof -
  have "hex_digit (m mod 16) \<noteq> 0" for m
    by (rule hex_digit_nonzero) simp
  then show ?thesis by (auto simp: hex16_chars_def dest: sym)
qed

text \<open>
  \<open>c_put_hex16\<close> sends exactly four characters, the hexadecimal digits of its argument, most significant
  first, none of them NUL; reading them back as digits gives the argument.
\<close>

definition hex_value :: "u8 \<Rightarrow> nat" where
  "hex_value c = (if c < 0x41 then unat c - 48 else unat c - 55)"

lemma hex_value_digit:
  assumes "n < 16"
  shows "hex_value (hex_digit n) = n"
proof -
  have "list_all (\<lambda>n. hex_value (hex_digit n) = n) [0..<16]"
    by (simp add: hex_value_def hex_digit_def upt_rec)
  with assms show ?thesis by (simp add: list_all_iff)
qed

lemma hex16_value:
  assumes "m < (65536 :: nat)"
  shows "((m div 4096 mod 16 * 16 + m div 256 mod 16) * 16 + m div 16 mod 16) * 16 + m mod 16 = m"
proof -
  have "m mod (16 * 16) = 16 * (m div 16 mod 16) + m mod 16" "m mod (256 * 16) = 256 * (m div 256 mod 16) + m mod 256"
    "m mod (4096 * 16) = 4096 * (m div 4096 mod 16) + m mod 4096"
    by (simp_all only: mod_mult2_eq)
  with assms show ?thesis by simp
qed

theorem c_put_hex16_digits:
  "c_put_hex16 M u s = c_put_str M (hex16_chars (unat u)) s \<and> length (hex16_chars (unat u)) = 4
   \<and> 0 \<notin> set (hex16_chars (unat u))
   \<and> foldl (\<lambda>v c. 16 * v + hex_value c) 0 (hex16_chars (unat u)) = unat u"
proof -
  have "unat u < 65536" using unsigned_less [of u] by simp
  then have "foldl (\<lambda>v c. 16 * v + hex_value c) 0 (hex16_chars (unat u)) = unat u"
    using hex16_value [of "unat u"] by (simp add: hex16_chars_def hex_value_digit mult.commute)
  then show ?thesis
    using c_put_hex16_chars hex16_chars_nonzero by (simp add: hex16_chars_def)
qed

text \<open>
  \<open>c_put_dec\<close> sends exactly the decimal digits of its argument, most significant first and without a
  leading zero; the digit array of ten elements is never overrun and no digit is read before it is
  written.
\<close>

lemma unat_div10: "unat (d div 10 :: u32) = unat d div 10" "unat (d mod 10 :: u32) = unat d mod 10"
  by (simp_all add: unat_div unat_mod)

lemma ucast_of_unat: "(ucast (w :: u32) :: u8) = of_nat (unat w)"
  by (rule bit_word_eqI) (auto simp: bit_simps bit_unsigned_iff)

lemma ucast_mod10: "(ucast (d mod 10 :: u32) :: u8) = of_nat (unat d mod 10)"
  by (simp add: ucast_of_unat unat_div10)

lemma length_dec_digits_pos [simp]: "0 < length (dec_digits n)"
  by (simp add: dec_digits.simps)

lemma dec_digits_ne [simp]: "dec_digits n \<noteq> []"
  using length_dec_digits_pos [of n] by blast

lemma length_dec_digits: "n < 10 ^ Suc k \<Longrightarrow> length (dec_digits n) \<le> Suc k"
proof (induction k arbitrary: n)
  case 0
  then show ?case by (simp add: dec_digits.simps)
next
  case (Suc k)
  have "n div 10 < 10 ^ Suc k"
    using Suc.prems by (simp add: less_mult_imp_div_less)
  from Suc.IH [OF this] show ?case
    by (subst dec_digits.simps) simp
qed

text \<open>The array holds the digits in reverse from index \<open>i\<close> on.\<close>

lemma c_put_dec_fill_digits:
  "i + length (dec_digits (unat d)) \<le> length a \<Longrightarrow>
   c_put_dec_fill a i d =
     Some (take i a @ rev (map of_nat (dec_digits (unat d))) @ drop (i + length (dec_digits (unat d))) a,
       i + length (dec_digits (unat d)) - 1)"
proof (induction a i d rule: c_put_dec_fill.induct)
  case (1 a i d)
  then have i: "i < length a"
    using length_dec_digits_pos [of "unat d"] by linarith
  show ?case
  proof (cases "unat d < 10")
    case True
    then have "\<not> 0 < d div 10"
      by (simp add: word_less_nat_alt unat_div10)
    then show ?thesis
      using True i by (subst c_put_dec_fill.simps)
        (simp add: arr_set_def dec_digits.simps [of "unat d"] ucast_mod10 upd_conv_take_nth_drop)
  next
    case False
    then have pos: "0 < d div 10"
      by (simp add: word_less_nat_alt unat_div10 div_greater_zero_iff)
    have dd: "dec_digits (unat d) = dec_digits (unat d div 10) @ [unat d mod 10]"
      using False by (subst dec_digits.simps) simp
    have i1: "i + 1 < length a"
      using 1(2) length_dec_digits_pos [of "unat d div 10"] unfolding dd length_append list.size by linarith
    let ?a = "a[i := ucast (d mod 10), i + 1 := ucast (d div 10 mod 10)]"
    have set: "arr_set a i v = Some (a[i := v])" "arr_set (a[i := v]) (i + 1) w = Some (a[i := v, i + 1 := w])" for v w
      using i i1 by (simp_all add: arr_set_def)
    have "c_put_dec_fill a i d = c_put_dec_fill ?a (i + 1) (d div 10)"
      using pos by (subst c_put_dec_fill.simps) (simp add: set [simplified])
    also have "\<dots> = Some (take (i + 1) ?a @ rev (map of_nat (dec_digits (unat (d div 10)))) @
        drop (i + 1 + length (dec_digits (unat (d div 10)))) ?a,
        i + 1 + length (dec_digits (unat (d div 10))) - 1)"
      using 1(2) dd by (intro 1(1) [OF set(1) pos set(2)]) (simp add: unat_div10)
    also have "take (i + 1) ?a = take i a @ [of_nat (unat d mod 10)]"
      using i by (simp add: take_Suc_conv_app_nth ucast_mod10)
    also have "drop (i + 1 + length (dec_digits (unat (d div 10)))) ?a = drop (i + 1 + length (dec_digits (unat (d div 10)))) a"
      using length_dec_digits_pos [of "unat (d div 10)"] by (simp add: drop_update_cancel)
    finally show ?thesis
      by (simp add: dd unat_div10)
  qed
qed

lemma dec_print_rev:
  "c_put_dec_print M (rev (map of_nat ds) @ r) (length ds - 1) s = c_put_str M (map (\<lambda>k. 0x30 + of_nat k) ds) s"
  if "ds \<noteq> []" "\<And>k. k \<in> set ds \<Longrightarrow> k < 10"
  using that
proof (induction ds arbitrary: r s rule: list_nonempty_induct)
  case (single x)
  then show ?case
    using hex_digit_nonzero [of x] by (simp add: hex_digit_def) (cases "c_put_char M (0x30 + of_nat x) s"; simp)
next
  case (cons x xs)
  have nz: "(0x30 + of_nat x :: u8) \<noteq> 0"
    using hex_digit_nonzero [of x] cons.prems [of x] by (simp add: hex_digit_def)
  obtain k where k: "length xs = Suc k" using cons.hyps by (cases xs) auto
  have IH: "c_put_dec_print M (rev (map of_nat xs) @ of_nat x # r) k s = c_put_str M (map (\<lambda>k. 0x30 + of_nat k) xs) s" for s
    using cons.IH [of "of_nat x # r" s] cons.prems k by simp
  show ?case
    using nz by (simp add: k nth_append IH) (simp add: IH [abs_def])
qed

lemma dec_digits_less: "k \<in> set (dec_digits n) \<Longrightarrow> k < 10"
proof (induction n rule: dec_digits.induct)
  case (1 n)
  then show ?case
    by (subst (asm) (2) dec_digits.simps) (auto split: if_splits)
qed

theorem c_put_dec_digits:
  "c_put_dec M d s = c_put_str M (dec_chars (unat d)) s \<and> length (dec_chars (unat d)) \<le> 10
   \<and> foldl (\<lambda>v k. 10 * v + k) 0 (dec_digits (unat d)) = unat d
   \<and> (hd (dec_digits (unat d)) = 0 \<longleftrightarrow> d = 0)"
proof -
  have len: "length (dec_digits (unat d)) \<le> 10"
  proof (rule length_dec_digits [of "unat d" 9, simplified])
    have "unat d < 2 ^ 32"
      using unsigned_less [of d] by simp
    then show "unat d < 10000000000"
      by simp
  qed
  have "c_put_dec M d s = c_put_str M (map (\<lambda>k. 0x30 + of_nat k) (dec_digits (unat d))) s"
    using c_put_dec_fill_digits [of 0 d "replicate 10 0"] len dec_print_rev [of "dec_digits (unat d)"] dec_digits_less
    by (simp add: c_put_dec_def)
  moreover have "foldl (\<lambda>v k. 10 * v + k) 0 (dec_digits n) = n" for n
    by (induction n rule: dec_digits.induct) (subst dec_digits.simps, simp)
  moreover have "n \<noteq> 0 \<Longrightarrow> hd (dec_digits n) \<noteq> 0" for n
    by (induction n rule: dec_digits.induct) (subst dec_digits.simps, simp add: hd_append)
  moreover have "hd (dec_digits 0) = 0"
    by (simp add: dec_digits.simps)
  ultimately show ?thesis
    using len by (metis dec_chars_def length_map unsigned_eq_0_iff)
qed

end
