(* ===== verification/Xmodem.thy ===== *)
theory Xmodem
  imports Uart
begin

unbundle bit_operations_syntax

section \<open>The XMODEM receiver (loader/xmodem.c)\<close>

text \<open>
  \<open>xmodem_load\<close> is a state machine around a character port: it waits for a packet, receives it, checks
  it, copies it to memory and acknowledges it, or purges the line and asks for it again. The model
  takes the port's operations as arguments; the boot code passes the routines of \<^verbatim>\<open>uart_ram.c\<close>. The
  local variables that survive a round of the loop are the record \<open>xm\<close>; \<open>rx_buf\<close> has whatever the stack
  held when the function is entered.
\<close>

definition ASCII_SOH :: u32 where "ASCII_SOH = 0x01"
definition ASCII_EOT :: u32 where "ASCII_EOT = 0x04"
definition ASCII_ACK :: u8 where "ASCII_ACK = 0x06"
definition ASCII_NAK :: u8 where "ASCII_NAK = 0x15"
definition RX_BUF_SIZE :: nat where "RX_BUF_SIZE = 130"
definition BLK_NUM :: nat where "BLK_NUM = 0"
definition INV_BLK_NUM :: nat where "INV_BLK_NUM = 1"
definition DATA_START :: nat where "DATA_START = 2"

lemmas xm_consts = ASCII_SOH_def ASCII_EOT_def ASCII_ACK_def ASCII_NAK_def RX_BUF_SIZE_def
  BLK_NUM_def INV_BLK_NUM_def DATA_START_def

datatype xm_state = WaitForNewPacket | ReceivePacket | Purge | SendNak

record xm =
  state :: xm_state
  expected_blk_num :: u32
  mem_index :: u32
  rx_buf :: "u8 list"

subsection \<open>The inner loops\<close>

partial_function (option) xm_flush :: "(u32 \<Rightarrow> 's \<Rightarrow> (u32 \<times> 's) option) \<Rightarrow> 's \<Rightarrow> 's option" where
  "xm_flush getc s = do {
     (ch, s) \<leftarrow> getc 0 s;
     if ch \<noteq> GETCHAR_TIMED_OUT then xm_flush getc s else Some s
   }"

partial_function (option) xm_purge :: "(u32 \<Rightarrow> 's \<Rightarrow> (u32 \<times> 's) option) \<Rightarrow> u32 \<Rightarrow> 's \<Rightarrow> 's option" where
  "xm_purge getc one_second s = do {
     (ch, s) \<leftarrow> getc one_second s;
     if ch \<noteq> GETCHAR_TIMED_OUT then xm_purge getc one_second s else Some s
   }"

text \<open>
  The receive loop with \<open>k\<close> of its \<open>RX_BUF_SIZE + 1\<close> rounds left; the result is the state it leaves, the
  last character, the running sum and the buffer.
\<close>

fun xm_receive :: "(u32 \<Rightarrow> 's \<Rightarrow> (u32 \<times> 's) option) \<Rightarrow> u32 \<Rightarrow> nat \<Rightarrow> nat \<Rightarrow> u32 \<Rightarrow> u8 \<Rightarrow> u8 list \<Rightarrow> 's
    \<Rightarrow> (xm_state \<times> u32 \<times> u8 \<times> u8 list \<times> 's) option" where
  "xm_receive getc one_second 0 i ch crc rx s = Some (ReceivePacket, ch, crc, rx, s)"
| "xm_receive getc one_second (Suc k) i ch crc rx s = do {
     (ch, s) \<leftarrow> getc one_second s;
     if ch = GETCHAR_TIMED_OUT then Some (SendNak, ch, crc, rx, s)
     else xm_receive getc one_second k (i + 1) ch
       (if i < RX_BUF_SIZE \<and> 1 < i then crc + ucast ch else crc)
       (if i < RX_BUF_SIZE then rx[i := ucast ch] else rx) s
   }"

fun xm_copy :: "(u32 \<Rightarrow> u8 \<Rightarrow> 's \<Rightarrow> 's) \<Rightarrow> u32 \<Rightarrow> u32 \<Rightarrow> u8 list \<Rightarrow> 's \<Rightarrow> u32 \<times> 's" where
  "xm_copy wr8 pmem n [] s = (n, s)"
| "xm_copy wr8 pmem n (b # bs) s = xm_copy wr8 pmem (n + 1) bs (wr8 (pmem + n) b s)"

subsection \<open>One round and the loop\<close>

text \<open>A round ends in the next local state, or returns the number of bytes received.\<close>

definition xm_receive_packet ::
    "(u32 \<Rightarrow> 's \<Rightarrow> (u32 \<times> 's) option) \<Rightarrow> (u8 \<Rightarrow> 's \<Rightarrow> 's option) \<Rightarrow> (u32 \<Rightarrow> u8 \<Rightarrow> 's \<Rightarrow> 's)
     \<Rightarrow> u32 \<Rightarrow> u32 \<Rightarrow> xm \<Rightarrow> 's \<Rightarrow> (xm \<times> 's) option" where
  "xm_receive_packet getc putc wr8 one_second pmem x s = do {
     (st, ch, crc, rx, s) \<leftarrow> xm_receive getc one_second (RX_BUF_SIZE + 1) 0 0 0 (rx_buf x) s;
     let x = x\<lparr>state := st, rx_buf := rx\<rparr>;
     let blk_num = (ucast (rx ! BLK_NUM) :: u32);
     if ucast crc \<noteq> ch \<or> blk_num XOR ucast (rx ! INV_BLK_NUM) \<noteq> 0xff
     then Some (x\<lparr>state := Purge\<rparr>, s)
     else if blk_num = expected_blk_num x then do {
       let (n, s) = xm_copy wr8 pmem (mem_index x) (take (RX_BUF_SIZE - DATA_START) (drop DATA_START rx)) s;
       s \<leftarrow> putc ASCII_ACK s;
       Some (x\<lparr>state := WaitForNewPacket, expected_blk_num := (blk_num + 1) AND 0xff, mem_index := n\<rparr>, s)
     } else if blk_num = (expected_blk_num x - 1) AND 0xff then do {
       s \<leftarrow> putc ASCII_ACK s;
       Some (x\<lparr>state := WaitForNewPacket\<rparr>, s)
     } else Some (x\<lparr>state := Purge\<rparr>, s)
   }"

definition xm_step ::
    "(u32 \<Rightarrow> 's \<Rightarrow> (u32 \<times> 's) option) \<Rightarrow> (u8 \<Rightarrow> 's \<Rightarrow> 's option) \<Rightarrow> (u32 \<Rightarrow> u8 \<Rightarrow> 's \<Rightarrow> 's)
     \<Rightarrow> u32 \<Rightarrow> u32 \<Rightarrow> u32 \<Rightarrow> xm \<Rightarrow> 's \<Rightarrow> ((xm + u32) \<times> 's) option" where
  "xm_step getc putc wr8 one_second ten_seconds pmem x s =
     (case state x of
        WaitForNewPacket \<Rightarrow> do {
          (ch, s) \<leftarrow> getc ten_seconds s;
          if ch = GETCHAR_TIMED_OUT then Some (Inl (x\<lparr>state := SendNak\<rparr>), s)
          else if ch = ASCII_SOH then Some (Inl (x\<lparr>state := ReceivePacket\<rparr>), s)
          else if ch = ASCII_EOT then do {
            s \<leftarrow> putc ASCII_ACK s;
            Some (Inr (mem_index x), s)
          } else Some (Inl (x\<lparr>state := Purge\<rparr>), s)
        }
      | ReceivePacket \<Rightarrow> do {
          (x, s) \<leftarrow> xm_receive_packet getc putc wr8 one_second pmem x s;
          Some (Inl x, s)
        }
      | Purge \<Rightarrow> do {
          s \<leftarrow> xm_purge getc one_second s;
          s \<leftarrow> putc ASCII_NAK s;
          Some (Inl (x\<lparr>state := WaitForNewPacket\<rparr>), s)
        }
      | SendNak \<Rightarrow> do {
          s \<leftarrow> putc ASCII_NAK s;
          Some (Inl (x\<lparr>state := WaitForNewPacket\<rparr>), s)
        })"

text \<open>The \<open>while (1)\<close> around the \<open>switch\<close>; its body is an argument.\<close>

partial_function (option) xm_loop :: "(xm \<Rightarrow> 's \<Rightarrow> ((xm + u32) \<times> 's) option) \<Rightarrow> xm \<Rightarrow> 's \<Rightarrow> (u32 \<times> 's) option" where
  "xm_loop body x s =
     (case body x s of
        None \<Rightarrow> None
      | Some (Inl x, s) \<Rightarrow> xm_loop body x s
      | Some (Inr n, s) \<Rightarrow> Some (n, s))"

definition xmodem_load ::
    "(u32 \<Rightarrow> 's \<Rightarrow> (u32 \<times> 's) option) \<Rightarrow> (u8 \<Rightarrow> 's \<Rightarrow> 's option) \<Rightarrow> (u32 \<Rightarrow> u8 \<Rightarrow> 's \<Rightarrow> 's) \<Rightarrow> ('s \<Rightarrow> u32)
     \<Rightarrow> u8 list \<Rightarrow> u32 \<Rightarrow> 's \<Rightarrow> (u32 \<times> 's) option" where
  "xmodem_load getc putc wr8 clock stack download_address s = do {
     s \<leftarrow> xm_flush getc s;
     let one_second = clock s;
     let ten_seconds = 10 * one_second;
     xm_loop (xm_step getc putc wr8 one_second ten_seconds download_address)
       \<lparr>state = Purge, expected_blk_num = 1, mem_index = 0, rx_buf = stack\<rparr> s
   }"

subsection \<open>What holds of every run\<close>

lemma xm_copy_index: "fst (xm_copy wr8 pmem n bs s) = n + of_nat (length bs)"
  by (induction bs arbitrary: n s) (simp_all add: add.assoc)

lemma length_rx_receive:
  "xm_receive getc one k i ch crc rx s = Some (st, ch', crc', rx', s') \<Longrightarrow> length rx' = length rx"
  by (induction k arbitrary: i ch crc rx s) (auto simp: bind_eq_Some_conv split: if_splits)

text \<open>A receive that is cut short ends with \<open>GETCHAR_TIMED_OUT\<close>, which no checksum equals.\<close>

lemma timed_out_not_byte [simp]:
  "ucast (c :: u8) \<noteq> GETCHAR_TIMED_OUT" "GETCHAR_TIMED_OUT \<noteq> ucast (c :: u8)"
proof -
  have "\<not> bit (ucast c :: u32) 31" "bit GETCHAR_TIMED_OUT 31"
    by (simp_all add: bit_simps GETCHAR_TIMED_OUT_def)
  then show "ucast c \<noteq> GETCHAR_TIMED_OUT" "GETCHAR_TIMED_OUT \<noteq> ucast c"
    by metis+
qed

lemma ascii_not_timed_out [simp]: "ASCII_SOH \<noteq> GETCHAR_TIMED_OUT" "ASCII_EOT \<noteq> GETCHAR_TIMED_OUT"
  "GETCHAR_TIMED_OUT \<noteq> ASCII_SOH" "GETCHAR_TIMED_OUT \<noteq> ASCII_EOT"
  by (simp_all add: xm_consts GETCHAR_TIMED_OUT_def)

lemma receive_cut:
  "xm_receive getc one k i ch crc rx s = Some (st, ch', crc', rx', s') \<Longrightarrow> st \<noteq> ReceivePacket \<Longrightarrow>
   ucast crc' \<noteq> ch'"
proof (induction k arbitrary: i ch crc rx s)
  case (Suc k)
  obtain c s1 where c: "getc one s = Some (c, s1)"
    using Suc.prems by (auto simp: bind_eq_Some_conv)
  show ?case
    using Suc.prems Suc.IH by (cases "c = GETCHAR_TIMED_OUT") (auto simp: c)
qed simp

text \<open>Induction over the rounds of the loops, for runs that return.\<close>

lemma xm_flush_induct [consumes 1, case_names again stop]:
  assumes run: "xm_flush getc s = Some t"
    and again: "\<And>s ch s1 t. getc 0 s = Some (ch, s1) \<Longrightarrow> ch \<noteq> GETCHAR_TIMED_OUT \<Longrightarrow> P s1 t \<Longrightarrow> P s t"
    and finish: "\<And>s s1. getc 0 s = Some (GETCHAR_TIMED_OUT, s1) \<Longrightarrow> P s s1"
  shows "P s t"
proof -
  have "getc = getc \<longrightarrow> P s t"
    using _ run
  proof (rule xm_flush.raw_induct [where P = "\<lambda>g s t. g = getc \<longrightarrow> P s t"])
    fix f :: "(u32 \<Rightarrow> 'a \<Rightarrow> (u32 \<times> 'a) option) \<Rightarrow> 'a \<Rightarrow> 'a option" and g s t
    assume IH: "\<And>g s t. f g s = Some t \<Longrightarrow> g = getc \<longrightarrow> P s t"
      and "g 0 s \<bind> (\<lambda>(ch, s). if ch \<noteq> GETCHAR_TIMED_OUT then f g s else Some s) = Some t"
    then show "g = getc \<longrightarrow> P s t"
      by (auto simp: bind_eq_Some_conv split: if_splits intro: again finish)
  qed
  then show ?thesis by simp
qed

lemma xm_purge_induct [consumes 1, case_names again stop]:
  assumes run: "xm_purge getc one s = Some t"
    and again: "\<And>s ch s1 t. getc one s = Some (ch, s1) \<Longrightarrow> ch \<noteq> GETCHAR_TIMED_OUT \<Longrightarrow> P s1 t \<Longrightarrow> P s t"
    and finish: "\<And>s s1. getc one s = Some (GETCHAR_TIMED_OUT, s1) \<Longrightarrow> P s s1"
  shows "P s t"
proof -
  have "getc = getc \<and> one = one \<longrightarrow> P s t"
    using _ run
  proof (rule xm_purge.raw_induct [where P = "\<lambda>g o' s t. g = getc \<and> o' = one \<longrightarrow> P s t"])
    fix f :: "(u32 \<Rightarrow> 'a \<Rightarrow> (u32 \<times> 'a) option) \<Rightarrow> u32 \<Rightarrow> 'a \<Rightarrow> 'a option" and g and o' :: u32 and s t
    assume IH: "\<And>g o' s t. f g o' s = Some t \<Longrightarrow> g = getc \<and> o' = one \<longrightarrow> P s t"
      and "g o' s \<bind> (\<lambda>(ch, s). if ch \<noteq> GETCHAR_TIMED_OUT then f g o' s else Some s) = Some t"
    then show "g = getc \<and> o' = one \<longrightarrow> P s t"
      by (auto simp: bind_eq_Some_conv split: if_splits intro: again finish)
  qed
  then show ?thesis by simp
qed

lemma xm_loop_induct [consumes 1, case_names round last]:
  assumes run: "xm_loop body x s = Some r"
    and more: "\<And>x s x1 s1. body x s = Some (Inl x1, s1) \<Longrightarrow> P x1 s1 r \<Longrightarrow> P x s r"
    and finish: "\<And>x s n s1. body x s = Some (Inr n, s1) \<Longrightarrow> r = (n, s1) \<Longrightarrow> P x s r"
  shows "P x s r"
proof -
  have "body = body \<longrightarrow> r = r \<longrightarrow> P x s r"
    using _ run
  proof (rule xm_loop.raw_induct [where P = "\<lambda>b x s q. b = body \<longrightarrow> q = r \<longrightarrow> P x s q"
        and xa = "((body, x), s)" and y = r, unfolded prod.case])
    fix f :: "(xm \<Rightarrow> 'a \<Rightarrow> ((xm + u32) \<times> 'a) option) \<Rightarrow> xm \<Rightarrow> 'a \<Rightarrow> (u32 \<times> 'a) option" and b x s q
    assume IH: "\<And>b x s q. f b x s = Some q \<Longrightarrow> b = body \<longrightarrow> q = r \<longrightarrow> P x s q"
      and step: "(case b x s of None \<Rightarrow> None | Some (Inl x, s) \<Rightarrow> f b x s | Some (Inr n, s) \<Rightarrow> Some (n, s)) = Some q"
    show "b = body \<longrightarrow> q = r \<longrightarrow> P x s q"
    proof (intro impI)
      obtain y s1 where y: "body x s = Some (y, s1)" if "b = body"
        using step by (cases "b x s") auto
      assume "b = body" and "q = r"
      then have "P x s r \<longleftrightarrow> P x s q" by simp
      moreover have "P x s r"
      proof (cases y)
        case (Inl x1)
        then have "f body x1 s1 = Some r"
          using step y \<open>b = body\<close> \<open>q = r\<close> by simp
        then have "P x1 s1 r" using IH by blast
        then show ?thesis using y Inl \<open>b = body\<close> by (auto intro: more)
      next
        case (Inr n)
        then show ?thesis
          using step y \<open>b = body\<close> \<open>q = r\<close> by (intro finish [of x s n s1]) simp_all
      qed
      ultimately show "P x s q" by simp
    qed
  qed
  then show ?thesis by simp
qed


context char_port
begin

lemma flush_ram: "xm_flush getc s = Some t \<Longrightarrow> rd8 a t = rd8 a s \<and> clock t = clock s"
  by (induction rule: xm_flush_induct) (auto simp: getc_ram getc_clock)

lemma purge_ram: "xm_purge getc one s = Some t \<Longrightarrow> rd8 a t = rd8 a s \<and> clock t = clock s"
  by (induction rule: xm_purge_induct) (auto simp: getc_ram getc_clock)

lemma receive_ram:
  "xm_receive getc one k i ch crc rx s = Some (st, ch', crc', rx', s') \<Longrightarrow> rd8 a s' = rd8 a s \<and> clock s' = clock s"
proof (induction k arbitrary: i ch crc rx s)
  case (Suc k)
  obtain c s1 where c: "getc one s = Some (c, s1)"
    using Suc.prems by (auto simp: bind_eq_Some_conv)
  show ?case
    using Suc.prems Suc.IH getc_ram [OF c] getc_clock [OF c]
    by (cases "c = GETCHAR_TIMED_OUT") (auto simp: c)
qed simp

text \<open>The bytes from \<open>a\<close> on, \<open>n\<close> of them.\<close>

definition bytes :: "u32 \<Rightarrow> nat \<Rightarrow> 's \<Rightarrow> u8 list" where
  "bytes a n s = map (\<lambda>i. rd8 (a + of_nat i) s) [0..<n]"

lemma copy_outside:
  "(\<And>j. j < length bs \<Longrightarrow> phys a \<noteq> phys (pmem + n + of_nat j)) \<Longrightarrow>
   rd8 a (snd (xm_copy wr8 pmem n bs s)) = rd8 a s"
proof (induction bs arbitrary: n s)
  case (Cons b bs)
  have "phys a \<noteq> phys (pmem + n)"
    using Cons.prems [of 0] by simp
  moreover have "phys a \<noteq> phys (pmem + (n + 1) + of_nat j)" if "j < length bs" for j
    using Cons.prems [of "Suc j"] that by (simp add: add.assoc add.left_commute)
  ultimately show ?case
    by (simp add: Cons.IH rd8_wr8)
qed simp

lemma copy_inside:
  assumes inj: "\<And>i j. i < length bs \<Longrightarrow> j < length bs \<Longrightarrow>
      phys (pmem + n + of_nat i) = phys (pmem + n + of_nat j) \<Longrightarrow> i = j"
    and "k < length bs"
  shows "rd8 (pmem + n + of_nat k) (snd (xm_copy wr8 pmem n bs s)) = bs ! k"
  using assms
proof (induction bs arbitrary: n s k)
  case (Cons b bs)
  have shift: "pmem + (n + 1) + of_nat j = pmem + n + of_nat (Suc j)" for j
    by (simp add: add.assoc)
  show ?case
  proof (cases k)
    case 0
    have "rd8 (pmem + n) (snd (xm_copy wr8 pmem (n + 1) bs (wr8 (pmem + n) b s))) = rd8 (pmem + n) (wr8 (pmem + n) b s)"
      using Cons.prems(1) [of 0] by (intro copy_outside) (force simp: shift)
    then show ?thesis by (simp add: 0 rd8_wr8)
  next
    case (Suc j)
    have "rd8 (pmem + (n + 1) + of_nat j) (snd (xm_copy wr8 pmem (n + 1) bs (wr8 (pmem + n) b s))) = bs ! j"
      using Cons.prems(1) [of "Suc _" "Suc _"] Cons.prems(2) Suc
      by (intro Cons.IH) (auto simp only: shift length_Cons)
    then show ?thesis by (simp add: Suc add.assoc)
  qed
qed simp


text \<open>
  One round keeps the buffer and the clock, and either leaves RAM and the index alone or appends one
  packet: 128 bytes at the index, and nothing else.
\<close>

definition untouched :: "u32 \<Rightarrow> nat \<Rightarrow> 's \<Rightarrow> 's \<Rightarrow> bool" where
  "untouched a n s t \<longleftrightarrow> (\<forall>b. (\<forall>j < n. phys b \<noteq> phys (a + of_nat j)) \<longrightarrow> rd8 b t = rd8 b s)"

lemma untouched_0: "(\<And>b. rd8 b t = rd8 b s) \<Longrightarrow> untouched a 0 s t"
  by (simp add: untouched_def)

lemma untouched_trans:
  assumes "untouched a m s t" "untouched (a + of_nat m) n t u"
  shows "untouched a (m + n) s u"
  unfolding untouched_def
proof (intro allI impI)
  fix b assume b: "\<forall>j < m + n. phys b \<noteq> phys (a + of_nat j)"
  have "rd8 b t = rd8 b s"
    using assms(1) b by (simp add: untouched_def)
  moreover have "phys b \<noteq> phys (a + of_nat m + of_nat j)" if "j < n" for j
    using b [rule_format, of "m + j"] that by (simp add: add.assoc)
  then have "rd8 b u = rd8 b t"
    using assms(2) by (simp add: untouched_def)
  ultimately show "rd8 b u = rd8 b s" by simp
qed

lemma packet_round:
  assumes run: "xm_receive_packet getc putc wr8 one pmem x s = Some (x1, s1)" and len: "length (rx_buf x) = RX_BUF_SIZE"
  shows "length (rx_buf x1) = RX_BUF_SIZE \<and> clock s1 = clock s \<and>
    (mem_index x1 = mem_index x \<and> untouched (pmem + mem_index x) 0 s s1 \<or>
     mem_index x1 = mem_index x + 128 \<and> untouched (pmem + mem_index x) 128 s s1)"
proof -
  obtain st ch crc rx s' where r: "xm_receive getc one (RX_BUF_SIZE + 1) 0 0 0 (rx_buf x) s = Some (st, ch, crc, rx, s')"
    using run by (auto simp: xm_receive_packet_def bind_eq_Some_conv)
  note run1 = run [unfolded xm_receive_packet_def r]
  note ram = receive_ram [OF r] and rx = length_rx_receive [OF r]
  let ?data = "take (RX_BUF_SIZE - DATA_START) (drop DATA_START rx)"
  let ?copy = "xm_copy wr8 pmem (mem_index x) ?data s'"
  have n: "fst ?copy = mem_index x + 128"
    by (simp add: xm_copy_index rx len xm_consts)
  have u: "untouched (pmem + mem_index x) 128 s (snd ?copy)"
    unfolding untouched_def
  proof (intro allI impI)
    fix b assume "\<forall>j < 128. phys b \<noteq> phys (pmem + mem_index x + of_nat j)"
    then have "rd8 b (snd ?copy) = rd8 b s'"
      using rx len by (intro copy_outside) (simp add: xm_consts)
    then show "rd8 b (snd ?copy) = rd8 b s" using ram by simp
  qed
  have clk: "clock (snd (xm_copy wr8 pmem m bs v)) = clock v" for m bs v
    by (induction bs arbitrary: m v) (simp_all add: wr8_clock)
  let ?blk = "ucast (rx ! BLK_NUM) :: u32"
  let ?bad = "ucast crc \<noteq> ch \<or> ?blk XOR ucast (rx ! INV_BLK_NUM) \<noteq> 0xff"
  have keep: "untouched (pmem + mem_index x) 0 s s'"
    by (rule untouched_0) (simp add: ram)
  have put: "untouched a k s v \<Longrightarrow> putc c v = Some w \<Longrightarrow> untouched a k s w" for a k v c w
    by (simp add: untouched_def putc_ram)
  consider "?bad" | "\<not> ?bad" "?blk = expected_blk_num x"
    | "\<not> ?bad" "?blk \<noteq> expected_blk_num x" "?blk = (expected_blk_num x - 1) AND 0xff"
    | "\<not> ?bad" "?blk \<noteq> expected_blk_num x" "?blk \<noteq> (expected_blk_num x - 1) AND 0xff"
    by blast
  then show ?thesis
  proof cases
    case 1
    then show ?thesis
      using run1 keep ram len rx by (simp add: Let_def) auto
  next
    case 2
    then obtain w where "putc ASCII_ACK (snd ?copy) = Some w" and "s1 = w" "mem_index x1 = fst ?copy" "rx_buf x1 = rx"
      using run1 by (auto simp: Let_def bind_eq_Some_conv split: prod.splits)
    then show ?thesis
      using n u clk [of "mem_index x" ?data s'] put ram len rx putc_clock by auto
  next
    case 3
    then obtain w where "putc ASCII_ACK s' = Some w" and "s1 = w" "mem_index x1 = mem_index x" "rx_buf x1 = rx"
      using run1 by (auto simp: Let_def bind_eq_Some_conv)
    then show ?thesis
      using keep put ram len rx putc_clock by auto
  next
    case 4
    then show ?thesis
      using run1 keep ram len rx by (simp add: Let_def) auto
  qed
qed

lemma step_round:
  assumes run: "xm_step getc putc wr8 one ten pmem x s = Some (Inl x1, s1)" and len: "length (rx_buf x) = RX_BUF_SIZE"
  shows "length (rx_buf x1) = RX_BUF_SIZE \<and> clock s1 = clock s \<and>
    (mem_index x1 = mem_index x \<and> untouched (pmem + mem_index x) 0 s s1 \<or>
     mem_index x1 = mem_index x + 128 \<and> untouched (pmem + mem_index x) 128 s s1)"
proof (cases "state x")
  case ReceivePacket
  then show ?thesis
    using run packet_round [OF _ len, of one pmem s x1 s1] by (auto simp: xm_step_def bind_eq_Some_conv)
qed (use run len in \<open>auto simp: xm_step_def bind_eq_Some_conv untouched_def getc_ram getc_clock putc_ram
      putc_clock purge_ram split: if_splits\<close>)

lemma loop_round:
  assumes "xm_loop (xm_step getc putc wr8 one ten pmem) x s = Some r" "length (rx_buf x) = RX_BUF_SIZE"
  shows "\<exists>k. fst r = mem_index x + of_nat (128 * k) \<and> clock (snd r) = clock s
    \<and> untouched (pmem + mem_index x) (128 * k) s (snd r)"
  using assms
proof (induction rule: xm_loop_induct)
  case (round x s x1 s1)
  note st = step_round [OF round.hyps(1) round.prems]
  then obtain k where k: "fst r = mem_index x1 + of_nat (128 * k)" "clock (snd r) = clock s1"
    "untouched (pmem + mem_index x1) (128 * k) s1 (snd r)"
    using round.IH by blast
  from st show ?case
  proof (elim conjE disjE)
    assume *: "mem_index x1 = mem_index x" "untouched (pmem + mem_index x) 0 s s1" "clock s1 = clock s"
    show ?thesis
      using k * untouched_trans [OF *(2), of "128 * k" "snd r"] by (intro exI [of _ k]) simp
  next
    assume *: "mem_index x1 = mem_index x + 128" "untouched (pmem + mem_index x) 128 s s1" "clock s1 = clock s"
    show ?thesis
      using k * untouched_trans [OF *(2), of "128 * k" "snd r"]
      by (intro exI [of _ "Suc k"]) (simp add: algebra_simps)
  qed
next
  case (last x s n s1)
  then show ?case
    by (intro exI [of _ 0])
      (auto simp: xm_step_def bind_eq_Some_conv untouched_def getc_ram getc_clock putc_ram putc_clock
        split: xm_state.splits if_splits)
qed

lemma load_frame:
  assumes "xmodem_load getc putc wr8 clock stack addr s = Some (n, t)" "length stack = RX_BUF_SIZE"
  shows "\<exists>k. n = of_nat (128 * k) \<and> untouched addr (128 * k) s t"
proof -
  obtain s1 where f: "xm_flush getc s = Some s1"
    and l: "xm_loop (xm_step getc putc wr8 (clock s1) (10 * clock s1) addr)
       \<lparr>state = Purge, expected_blk_num = 1, mem_index = 0, rx_buf = stack\<rparr> s1 = Some (n, t)"
    using assms by (auto simp: xmodem_load_def bind_eq_Some_conv Let_def)
  from loop_round [OF l] assms(2) obtain k where "n = of_nat (128 * k)" "untouched addr (128 * k) s1 t"
    by auto
  then show ?thesis
    using flush_ram [OF f] by (auto simp: untouched_def)
qed


text \<open>Without a clock every receive times out at once, so that \<open>EOT\<close> is never seen.\<close>

lemma load_clock_0:
  assumes "clock s = 0"
  shows "xmodem_load getc putc wr8 clock stack addr s = None"
proof (rule ccontr)
  assume "xmodem_load getc putc wr8 clock stack addr s \<noteq> None"
  then obtain r s1 where f: "xm_flush getc s = Some s1"
    and l: "xm_loop (xm_step getc putc wr8 (clock s1) (10 * clock s1) addr)
       \<lparr>state = Purge, expected_blk_num = 1, mem_index = 0, rx_buf = stack\<rparr> s1 = Some r"
    by (auto simp: xmodem_load_def bind_eq_Some_conv Let_def)
  have "clock s1 = 0" using flush_ram [OF f] assms by simp
  with l have l0: "xm_loop (xm_step getc putc wr8 0 0 addr)
       \<lparr>state = Purge, expected_blk_num = 1, mem_index = 0, rx_buf = stack\<rparr> s1 = Some r" by simp
  have "state x \<noteq> ReceivePacket \<Longrightarrow> False" if "xm_loop (xm_step getc putc wr8 0 0 addr) x s = Some r" for x s
    using that
  proof (induction rule: xm_loop_induct)
    case (round x s x1 s1)
    then show ?case
      by (cases "state x") (auto simp: xm_step_def bind_eq_Some_conv dest!: getc_0 split: if_splits)
  next
    case (last x s n s1)
    then show ?case
      by (cases "state x") (auto simp: xm_step_def bind_eq_Some_conv dest!: getc_0 split: if_splits)
  qed
  from this [OF l0] show False by simp
qed

text \<open>The running sum is the sum of the data bytes in the buffer.\<close>

lemma receive_sum:
  "xm_receive getc one k i ch crc rx s = Some (ReceivePacket, ch', crc', rx', s') \<Longrightarrow> i + k = RX_BUF_SIZE + 1 \<Longrightarrow>
   length rx = RX_BUF_SIZE \<Longrightarrow> crc = sum_list (drop DATA_START (take i rx)) \<Longrightarrow>
   crc' = sum_list (drop DATA_START rx')"
proof (induction k arbitrary: i ch crc rx s)
  case 0
  then show ?case by auto
next
  case (Suc k)
  obtain c s1 where c: "getc one s = Some (c, s1)"
    using Suc.prems by (auto simp: bind_eq_Some_conv)
  have c1: "c \<noteq> GETCHAR_TIMED_OUT"
    using Suc.prems(1) by (auto simp: c)
  show ?case
  proof (cases "i < RX_BUF_SIZE")
    case True
    have t: "take (i + 1) (rx[i := ucast c]) = take i rx @ [ucast c]"
      using True Suc.prems(3) by (simp add: take_Suc_conv_app_nth)
    have sum: "(if i < RX_BUF_SIZE \<and> 1 < i then crc + ucast c else crc) = sum_list (drop DATA_START (take (i + 1) (rx[i := ucast c])))"
      unfolding t Suc.prems(4) using True Suc.prems(3) by (auto simp: DATA_START_def not_less)
    show ?thesis
      by (rule Suc.IH [OF _ _ _ sum]) (use Suc.prems(1-3) True c1 in \<open>simp_all add: c\<close>)
  next
    case False
    then have "i = RX_BUF_SIZE" "k = 0" using Suc.prems(2) by auto
    then show ?thesis
      using Suc.prems c1 by (auto simp: c)
  qed
qed

lemma receive_last:
  "xm_receive getc one (Suc k) i ch crc rx s = Some (st, ch', crc', rx', s') \<Longrightarrow> \<exists>v w. getc one v = Some (ch', w)"
proof (induction k arbitrary: i ch crc rx s)
  case 0
  then show ?case by (auto simp: bind_eq_Some_conv split: if_splits)
next
  case (Suc k)
  obtain c s1 where c: "getc one s = Some (c, s1)"
    using Suc.prems by (auto simp: bind_eq_Some_conv)
  show ?case
  proof (cases "c = GETCHAR_TIMED_OUT")
    case True
    then show ?thesis using Suc.prems c by auto
  next
    case False
    then have "\<exists>ch crc rx. xm_receive getc one (Suc k) (i + 1) ch crc rx s1 = Some (st, ch', crc', rx', s')"
      using Suc.prems unfolding xm_receive.simps(2) [of _ _ "Suc k"] c by auto
    then show ?thesis using Suc.IH by blast
  qed
qed

text \<open>A round that changes RAM has stored a packet that passed every check, and nothing but its data.\<close>

lemma packet_stored:
  assumes run: "xm_receive_packet getc putc wr8 one pmem x s = Some (x1, s1)" and len: "length (rx_buf x) = RX_BUF_SIZE"
  shows "(mem_index x1 = mem_index x \<and> expected_blk_num x1 = expected_blk_num x \<and> (\<forall>a. rd8 a s1 = rd8 a s)) \<or>
    (state x1 = WaitForNewPacket
      \<and> ucast (rx_buf x1 ! 0) = expected_blk_num x \<and> ucast (rx_buf x1 ! 0) XOR ucast (rx_buf x1 ! 1) = (0xff :: u32)
      \<and> expected_blk_num x1 = (expected_blk_num x + 1) AND 0xff
      \<and> (\<exists>v ch w. getc one v = Some (ch, w) \<and> ch = ucast (sum_list (drop 2 (rx_buf x1))))
      \<and> mem_index x1 = mem_index x + 128
      \<and> bytes (pmem + mem_index x) 128 s1 = drop 2 (rx_buf x1)
      \<and> untouched (pmem + mem_index x) 128 s s1)"
proof -
  obtain st ch crc rx s' where r: "xm_receive getc one (RX_BUF_SIZE + 1) 0 0 0 (rx_buf x) s = Some (st, ch, crc, rx, s')"
    using run by (auto simp: xm_receive_packet_def bind_eq_Some_conv)
  note run1 = run [unfolded xm_receive_packet_def r]
  note ram = receive_ram [OF r] and rx = length_rx_receive [OF r]
  let ?data = "take (RX_BUF_SIZE - DATA_START) (drop DATA_START rx)"
  let ?copy = "xm_copy wr8 pmem (mem_index x) ?data s'"
  have data: "?data = drop 2 rx" "length ?data = 128"
    using rx len by (simp_all add: xm_consts)
  let ?blk = "ucast (rx ! BLK_NUM) :: u32"
  let ?bad = "ucast crc \<noteq> ch \<or> ?blk XOR ucast (rx ! INV_BLK_NUM) \<noteq> 0xff"
  consider "?bad" | "\<not> ?bad" "?blk = expected_blk_num x"
    | "\<not> ?bad" "?blk \<noteq> expected_blk_num x" "?blk = (expected_blk_num x - 1) AND 0xff"
    | "\<not> ?bad" "?blk \<noteq> expected_blk_num x" "?blk \<noteq> (expected_blk_num x - 1) AND 0xff"
    by blast
  then show ?thesis
  proof cases
    case 1
    then show ?thesis
      using run1 ram by (simp add: Let_def) auto
  next
    case 2
    have full: "st = ReceivePacket"
      using receive_cut [OF r] 2(1) by blast
    have sum: "crc = sum_list (drop DATA_START rx)"
      using receive_sum [OF r [unfolded full] _ len] by simp
    obtain v w where last: "getc one v = Some (ch, w)"
      using receive_last r by (metis Suc_eq_plus1)
    obtain z where z: "putc ASCII_ACK (snd ?copy) = Some z" and x1: "s1 = z" "mem_index x1 = fst ?copy" "rx_buf x1 = rx"
      "state x1 = WaitForNewPacket" "expected_blk_num x1 = (?blk + 1) AND 0xff"
      using run1 2 by (auto simp: Let_def bind_eq_Some_conv split: prod.splits)
    have inside: "rd8 (pmem + mem_index x + of_nat k) (snd ?copy) = ?data ! k" if "k < 128" for k
    proof (rule copy_inside)
      show "k < length ?data" using that data(2) by simp
      fix i j assume "i < length ?data" "j < length ?data"
        and eq: "phys (pmem + mem_index x + of_nat i) = phys (pmem + mem_index x + of_nat j)"
      then have "i < 2 ^ 29" "j < 2 ^ 29" unfolding data(2) by simp_all
      then show "i = j" using eq by (rule phys_offset_inj [rotated 1])
    qed
    have "bytes (pmem + mem_index x) 128 s1 = drop 2 rx"
      using inside data putc_ram [OF z] by (auto simp: bytes_def x1(1) intro!: nth_equalityI)
    moreover have "untouched (pmem + mem_index x) 128 s s1"
      unfolding untouched_def
    proof (intro allI impI)
      fix b assume "\<forall>j < 128. phys b \<noteq> phys (pmem + mem_index x + of_nat j)"
      then have "rd8 b (snd ?copy) = rd8 b s'"
        using data(2) by (intro copy_outside) simp
      then show "rd8 b s1 = rd8 b s" using ram putc_ram [OF z] by (simp add: x1(1))
    qed
    moreover have "fst ?copy = mem_index x + 128"
      using data(2) by (simp add: xm_copy_index)
    ultimately show ?thesis
      using 2 last sum x1 by (intro disjI2) (auto simp: BLK_NUM_def INV_BLK_NUM_def DATA_START_def)
  next
    case 3
    then obtain w where "putc ASCII_ACK s' = Some w" and "s1 = w" "mem_index x1 = mem_index x" "expected_blk_num x1 = expected_blk_num x"
      using run1 by (auto simp: Let_def bind_eq_Some_conv)
    then show ?thesis
      using ram putc_ram by auto
  next
    case 4
    then show ?thesis
      using run1 ram by (simp add: Let_def) auto
  qed
qed

end

end
