(* ===== verification/Xmodem_Script.thy ===== *)
theory Xmodem_Script
  imports Xmodem
begin

unbundle bit_operations_syntax

section \<open>XMODEM against a scripted line\<close>

text \<open>
  A \<open>scripted_port\<close> is a character port whose line is known: the characters that will arrive, with the
  silences between them, and the characters sent. On such a port the receiver is shown to return with
  the sender's data. The port is realised by a simulated UART under the routines of \<^verbatim>\<open>uart_ram.c\<close>.
\<close>

subsection \<open>What a sender puts on the line\<close>

definition packet :: "u8 \<Rightarrow> u8 list \<Rightarrow> u32 list" where
  "packet blk d = ucast blk # ucast (NOT blk) # map ucast d @ [ucast (sum_list d)]"

text \<open>
  A session is a sequence of segments: the next block, the last block again, 131 characters that are no
  acceptable packet, a packet cut short by a silence, a stray character, or a silence. After a failure
  the line may carry any more characters before it goes silent.
\<close>

datatype xm_seg =
    Good "u8 list"
  | Dup "u8 list"
  | Garbled "u32 list" "u32 list"
  | Cut "u32 list" "u32 list"
  | Stray u32 "u32 list"
  | Idle

fun seg_line :: "u8 \<Rightarrow> xm_seg \<Rightarrow> u32 option list" where
  "seg_line e (Good d) = Some ASCII_SOH # map Some (packet e d)"
| "seg_line e (Dup d) = Some ASCII_SOH # map Some (packet (e - 1) d)"
| "seg_line e (Garbled cs ns) = Some ASCII_SOH # map Some cs @ map Some ns @ [None]"
| "seg_line e (Cut cs ns) = Some ASCII_SOH # map Some cs @ None # map Some ns @ [None]"
| "seg_line e (Stray c ns) = Some c # map Some ns @ [None]"
| "seg_line e Idle = [None]"

text \<open>The receiver's own check on the 131 characters after \<open>SOH\<close>, when it expects block \<open>e\<close>.\<close>

definition acceptable :: "u8 \<Rightarrow> u32 list \<Rightarrow> bool" where
  "acceptable e cs \<longleftrightarrow>
     last cs = ucast (sum_list (map ucast (take 128 (drop 2 cs))) :: u8) \<and>
     (ucast (cs ! 0) :: u8) XOR ucast (cs ! 1) = 0xff \<and>
     (ucast (cs ! 0) = e \<or> ucast (cs ! 0) = e - 1)"

fun seg_ok :: "u8 \<Rightarrow> xm_seg \<Rightarrow> bool" where
  "seg_ok e (Good d) \<longleftrightarrow> length d = 128"
| "seg_ok e (Dup d) \<longleftrightarrow> length d = 128"
| "seg_ok e (Garbled cs ns) \<longleftrightarrow> length cs = 131 \<and> GETCHAR_TIMED_OUT \<notin> set cs \<union> set ns \<and> \<not> acceptable e cs"
| "seg_ok e (Cut cs ns) \<longleftrightarrow> length cs < 131 \<and> GETCHAR_TIMED_OUT \<notin> set cs \<union> set ns"
| "seg_ok e (Stray c ns) \<longleftrightarrow> c \<notin> {ASCII_SOH, ASCII_EOT} \<and> GETCHAR_TIMED_OUT \<notin> set (c # ns)"
| "seg_ok e Idle \<longleftrightarrow> True"

fun seg_next :: "u8 \<Rightarrow> xm_seg \<Rightarrow> u8" where
  "seg_next e (Good d) = e + 1"
| "seg_next e _ = e"

fun seg_data :: "xm_seg \<Rightarrow> u8 list" where
  "seg_data (Good d) = d"
| "seg_data _ = []"

fun seg_reply :: "xm_seg \<Rightarrow> u8" where
  "seg_reply (Good d) = ASCII_ACK"
| "seg_reply (Dup d) = ASCII_ACK"
| "seg_reply _ = ASCII_NAK"

fun session_line :: "u8 \<Rightarrow> xm_seg list \<Rightarrow> u32 option list" where
  "session_line e [] = [Some ASCII_EOT]"
| "session_line e (g # gs) = seg_line e g @ session_line (seg_next e g) gs"

fun session_ok :: "u8 \<Rightarrow> xm_seg list \<Rightarrow> bool" where
  "session_ok e [] \<longleftrightarrow> True"
| "session_ok e (g # gs) \<longleftrightarrow> seg_ok e g \<and> session_ok (seg_next e g) gs"

lemma packet_props:
  "length d = 128 \<Longrightarrow> length (packet e d) = 131" "GETCHAR_TIMED_OUT \<notin> set (packet e d)"
  by (auto simp: packet_def)

lemma ucast_u8_plus: "(ucast (e :: u8) + 1 :: u32) AND 0xff = ucast (e + 1)"
  "(ucast (e :: u8) - 1 :: u32) AND 0xff = ucast (e - 1)"
proof -
  have m: "(w :: u32) AND 0xff = take_bit 8 w" for w
    by (simp add: take_bit_eq_mask mask_eq_exp_minus_1)
  show "(ucast (e :: u8) + 1 :: u32) AND 0xff = ucast (e + 1)"
    unfolding m by transfer (simp add: take_bit_eq_mod mod_simps)
  show "(ucast (e :: u8) - 1 :: u32) AND 0xff = ucast (e - 1)"
    unfolding m by transfer (simp add: take_bit_eq_mod mod_simps)
qed

locale scripted_port = char_port getc putc wr8 rd8 clock
  for getc :: "u32 \<Rightarrow> 's \<Rightarrow> (u32 \<times> 's) option" and putc wr8 rd8 clock +
  fixes line :: "'s \<Rightarrow> u32 option list" and outs :: "'s \<Rightarrow> u8 list"
  assumes getc_char: "t \<noteq> 0 \<Longrightarrow> line s = Some c # es \<Longrightarrow>
      \<exists>s'. getc t s = Some (c, s') \<and> line s' = es \<and> outs s' = outs s"
    and getc_silence: "t \<noteq> 0 \<Longrightarrow> line s = None # es \<Longrightarrow>
      \<exists>s'. getc t s = Some (GETCHAR_TIMED_OUT, s') \<and> line s' = es \<and> outs s' = outs s"
    and getc_now: "\<exists>s'. getc 0 s = Some (GETCHAR_TIMED_OUT, s') \<and> line s' = line s \<and> outs s' = outs s"
    and putc_sends: "\<exists>s'. putc b s = Some s' \<and> line s' = line s \<and> outs s' = outs s @ [b]"
    and wr8_line: "line (wr8 a b s) = line s" "outs (wr8 a b s) = outs s"
begin

lemma flush_line: "\<exists>s'. xm_flush getc s = Some s' \<and> line s' = line s \<and> outs s' = outs s"
  using getc_now [of s] by (subst xm_flush.simps) auto

lemma purge_line:
  "one \<noteq> 0 \<Longrightarrow> GETCHAR_TIMED_OUT \<notin> set ns \<Longrightarrow> line s = map Some ns @ None # es \<Longrightarrow>
   \<exists>s'. xm_purge getc one s = Some s' \<and> line s' = es \<and> outs s' = outs s"
proof (induction ns arbitrary: s)
  case Nil
  then show ?case
    using getc_silence [of one s es] by (subst xm_purge.simps) auto
next
  case (Cons c ns)
  then obtain s1 where s1: "getc one s = Some (c, s1)" "line s1 = map Some ns @ None # es" "outs s1 = outs s"
    using getc_char [of one s c] by auto
  with Cons show ?case
    using Cons.IH [of s1] by (subst xm_purge.simps) auto
qed

lemma copy_line:
  "line (snd (xm_copy wr8 pmem n bs s)) = line s \<and> outs (snd (xm_copy wr8 pmem n bs s)) = outs s"
  by (induction bs arbitrary: n s) (simp_all add: wr8_line)

text \<open>The receive loop on characters, from round \<open>i\<close> on.\<close>

lemma receive_line:
  "one \<noteq> 0 \<Longrightarrow> GETCHAR_TIMED_OUT \<notin> set cs \<Longrightarrow> i + length cs \<le> RX_BUF_SIZE + 1 \<Longrightarrow> length rx = RX_BUF_SIZE \<Longrightarrow>
   line s = map Some cs @ es \<Longrightarrow>
   \<exists>s'. xm_receive getc one (length cs + k) i ch crc rx s
      = xm_receive getc one k (i + length cs) (last (ch # cs))
          (crc + sum_list (map ucast (drop (2 - i) (take (RX_BUF_SIZE - i) cs))))
          (take i rx @ map ucast (take (RX_BUF_SIZE - i) cs) @ drop (i + length cs) rx) s'
     \<and> line s' = es \<and> outs s' = outs s"
proof (induction cs arbitrary: i ch crc rx s)
  case Nil
  then show ?case by (intro exI [of _ s]) simp
next
  case (Cons c cs)
  then obtain s1 where s1: "getc one s = Some (c, s1)" "line s1 = map Some cs @ es" "outs s1 = outs s"
    using getc_char [of one s c] by auto
  let ?crc = "if i < RX_BUF_SIZE \<and> 1 < i then crc + ucast c else crc"
  let ?rx = "if i < RX_BUF_SIZE then rx[i := ucast c] else rx"
  have pre: "GETCHAR_TIMED_OUT \<notin> set cs" "i + 1 + length cs \<le> RX_BUF_SIZE + 1" "length ?rx = RX_BUF_SIZE"
    using Cons.prems by simp_all
  obtain s' where s': "xm_receive getc one (length cs + k) (i + 1) c ?crc ?rx s1
      = xm_receive getc one k (i + 1 + length cs) (last (c # cs))
          (?crc + sum_list (map ucast (drop (2 - (i + 1)) (take (RX_BUF_SIZE - (i + 1)) cs))))
          (take (i + 1) ?rx @ map ucast (take (RX_BUF_SIZE - (i + 1)) cs) @ drop (i + 1 + length cs) ?rx) s'"
      "line s' = es" "outs s' = outs s1"
    using Cons.IH [OF Cons.prems(1) pre s1(2), of c ?crc] by blast
  have t: "take (RX_BUF_SIZE - i) (c # cs) = c # take (RX_BUF_SIZE - (i + 1)) cs" if "i < RX_BUF_SIZE"
    using that by (simp add: Suc_diff_Suc [symmetric])
  have crc: "?crc + sum_list (map ucast (drop (2 - (i + 1)) (take (RX_BUF_SIZE - (i + 1)) cs)))
      = crc + sum_list (map ucast (drop (2 - i) (take (RX_BUF_SIZE - i) (c # cs))))"
  proof (cases "i < RX_BUF_SIZE")
    case True
    consider "i = 0" | "i = 1" | "1 < i" by linarith
    then show ?thesis
      unfolding t [OF True] using True by cases (simp_all add: numeral_2_eq_2 add.assoc)
  qed simp
  have rx: "take (i + 1) ?rx @ map ucast (take (RX_BUF_SIZE - (i + 1)) cs) @ drop (i + 1 + length cs) ?rx
      = take i rx @ map ucast (take (RX_BUF_SIZE - i) (c # cs)) @ drop (i + length (c # cs)) rx"
    using Cons.prems(3,4) by (cases "i < RX_BUF_SIZE") (auto simp: t take_Suc_conv_app_nth simp del: take_Suc_Cons)
  show ?case
    using s1 s' Cons.prems(2) unfolding crc rx by (intro exI [of _ s']) (auto simp: add.commute)
qed


lemma receive_chars:
  assumes "one \<noteq> 0" "length cs = 131" "GETCHAR_TIMED_OUT \<notin> set cs" "length rx = RX_BUF_SIZE" "line s = map Some cs @ es"
  shows "\<exists>s'. xm_receive getc one (RX_BUF_SIZE + 1) 0 0 0 rx s
      = Some (ReceivePacket, last cs, sum_list (map ucast (take 128 (drop 2 cs))), map ucast (take 130 cs), s')
    \<and> line s' = es \<and> outs s' = outs s"
proof -
  have "cs \<noteq> []" "0 + length cs \<le> RX_BUF_SIZE + 1" using assms(2) by (auto simp: RX_BUF_SIZE_def)
  then show ?thesis
    using receive_line [OF assms(1,3) _ assms(4,5), of 0 0 0 0] assms(2,4)
    by (simp add: RX_BUF_SIZE_def take_drop)
qed

lemma receive_cut_line:
  assumes "one \<noteq> 0" "length cs < 131" "GETCHAR_TIMED_OUT \<notin> set cs" "length rx = RX_BUF_SIZE" "line s = map Some cs @ None # es"
  shows "\<exists>s' crc rx'. xm_receive getc one (RX_BUF_SIZE + 1) 0 0 0 rx s = Some (SendNak, GETCHAR_TIMED_OUT, crc, rx', s')
    \<and> length rx' = RX_BUF_SIZE \<and> line s' = es \<and> outs s' = outs s"
proof -
  obtain k where k: "RX_BUF_SIZE + 1 = length cs + Suc k"
    using assms(2) less_imp_Suc_add [of "length cs" 131] by (auto simp: RX_BUF_SIZE_def)
  have "0 + length cs \<le> RX_BUF_SIZE + 1" using k by simp
  then obtain ch crc rx1 s1 where s1: "xm_receive getc one (length cs + Suc k) 0 0 0 rx s
      = xm_receive getc one (Suc k) (length cs) ch crc rx1 s1" "line s1 = None # es" "outs s1 = outs s"
    using receive_line [OF assms(1,3) _ assms(4,5), of 0 "Suc k" 0 0] by auto
  obtain s' where s': "getc one s1 = Some (GETCHAR_TIMED_OUT, s')" "line s' = es" "outs s' = outs s1"
    using getc_silence [OF assms(1) s1(2)] by blast
  have "xm_receive getc one (RX_BUF_SIZE + 1) 0 0 0 rx s = Some (SendNak, GETCHAR_TIMED_OUT, crc, rx1, s')"
    unfolding k s1(1) by (simp add: s'(1))
  then show ?thesis
    using s' s1(3) length_rx_receive assms(4) by metis
qed

text \<open>From \<open>Purge\<close>, the receiver drains the line, asks again and waits.\<close>

abbreviation (input) "body one ten pmem \<equiv> xm_step getc putc wr8 one ten pmem"

lemma purge_rounds:
  assumes "one \<noteq> 0" "GETCHAR_TIMED_OUT \<notin> set ns" "line s = map Some ns @ None # es" "state x = Purge"
  shows "\<exists>s'. xm_loop (body one ten pmem) x s = xm_loop (body one ten pmem) (x\<lparr>state := WaitForNewPacket\<rparr>) s'
    \<and> line s' = es \<and> outs s' = outs s @ [ASCII_NAK] \<and> (\<forall>a. rd8 a s' = rd8 a s)"
proof -
  obtain s1 where s1: "xm_purge getc one s = Some s1" "line s1 = es" "outs s1 = outs s"
    using purge_line [OF assms(1-3)] by blast
  obtain s' where s': "putc ASCII_NAK s1 = Some s'" "line s' = es" "outs s' = outs s @ [ASCII_NAK]"
    using putc_sends [of ASCII_NAK s1] s1 by auto
  show ?thesis
    using s' putc_ram [OF s'(1)] purge_ram [OF s1(1)] assms(4)
    by (intro exI [of _ s']) (subst xm_loop.simps, simp add: xm_step_def s1 s')
qed

lemma soh_round:
  assumes "ten \<noteq> 0" "line s = Some ASCII_SOH # es" "state x = WaitForNewPacket"
  shows "\<exists>s'. xm_loop (body one ten pmem) x s = xm_loop (body one ten pmem) (x\<lparr>state := ReceivePacket\<rparr>) s'
    \<and> line s' = es \<and> outs s' = outs s \<and> (\<forall>a. rd8 a s' = rd8 a s)"
proof -
  obtain s' where s': "getc ten s = Some (ASCII_SOH, s')" "line s' = es" "outs s' = outs s"
    using getc_char [OF assms(1,2)] by blast
  have "ASCII_SOH \<noteq> GETCHAR_TIMED_OUT" by (simp add: ASCII_SOH_def GETCHAR_TIMED_OUT_def)
  then show ?thesis
    using s' getc_ram [OF s'(1)] assms(3) by (intro exI [of _ s']) (subst xm_loop.simps, simp add: xm_step_def)
qed

lemma packet_round_loop:
  assumes "xm_receive_packet getc putc wr8 one pmem x s = Some (x', s')" "state x = ReceivePacket"
  shows "xm_loop (body one ten pmem) x s = xm_loop (body one ten pmem) x' s'"
  using assms by (subst xm_loop.simps) (simp add: xm_step_def)


definition waiting :: "xm \<Rightarrow> u8 \<Rightarrow> bool" where
  "waiting x e \<longleftrightarrow> state x = WaitForNewPacket \<and> expected_blk_num x = ucast e \<and> length (rx_buf x) = RX_BUF_SIZE"

text \<open>
  How a round of \<open>ReceivePacket\<close> on 131 characters ends. \<open>?data\<close> is what the packet carries.
\<close>

lemma packet_chars:
  assumes one: "one \<noteq> 0" and cs: "length cs = 131" "GETCHAR_TIMED_OUT \<notin> set cs" and ln: "line s = map Some cs @ es"
    and x: "expected_blk_num x = ucast e" "length (rx_buf x) = RX_BUF_SIZE"
  shows "\<exists>s0 s' x'. xm_receive_packet getc putc wr8 one pmem x s = Some (x', s') \<and> line s' = es
    \<and> length (rx_buf x') = RX_BUF_SIZE \<and> (\<forall>a. rd8 a s0 = rd8 a s) \<and>
    (if \<not> acceptable e cs
     then state x' = Purge \<and> expected_blk_num x' = ucast e \<and> mem_index x' = mem_index x
       \<and> outs s' = outs s \<and> (\<forall>a. rd8 a s' = rd8 a s)
     else if ucast (cs ! 0) = e
     then waiting x' (e + 1) \<and> mem_index x' = mem_index x + 128 \<and> outs s' = outs s @ [ASCII_ACK]
       \<and> (\<forall>a. rd8 a s' = rd8 a (snd (xm_copy wr8 pmem (mem_index x) (map ucast (take 128 (drop 2 cs))) s0)))
     else waiting x' e \<and> mem_index x' = mem_index x \<and> outs s' = outs s @ [ASCII_ACK]
       \<and> (\<forall>a. rd8 a s' = rd8 a s))"
proof -
  obtain s0 where r: "xm_receive getc one (RX_BUF_SIZE + 1) 0 0 0 (rx_buf x) s
      = Some (ReceivePacket, last cs, sum_list (map ucast (take 128 (drop 2 cs))), map ucast (take 130 cs), s0)"
    and s0: "line s0 = es" "outs s0 = outs s"
    using receive_chars [OF one cs x(2) ln] by blast
  note ram = receive_ram [OF r]
  let ?rx = "map ucast (take 130 cs) :: u8 list"
  have rx: "?rx ! 0 = ucast (cs ! 0)" "?rx ! 1 = ucast (cs ! 1)" "length ?rx = RX_BUF_SIZE"
    "take (RX_BUF_SIZE - DATA_START) (drop DATA_START ?rx) = map ucast (take 128 (drop 2 cs))"
    using cs(1) by (simp_all add: xm_consts take_map drop_map drop_take)
  have ff: "ucast (b :: u8) XOR ucast c = (0xff :: u32) \<longleftrightarrow> b XOR c = 0xff" for b c :: u8
  proof -
    have "ucast (b XOR c) = (0xff :: u32) \<longleftrightarrow> (ucast (b XOR c) :: u32) = ucast (0xff :: u8)"
      by simp
    also have "\<dots> \<longleftrightarrow> b XOR c = 0xff"
      by (metis ucast_u32_u8)
    finally show ?thesis by (simp add: ucast_xor_8)
  qed
  have inj: "(ucast (b :: u8) :: u32) = ucast c \<longleftrightarrow> b = c" for b c
    by (metis ucast_u32_u8)
  obtain w where w: "putc ASCII_ACK s0 = Some w" "line w = es" "outs w = outs s @ [ASCII_ACK]"
    using putc_sends [of ASCII_ACK s0] s0 by auto
  let ?copy = "xm_copy wr8 pmem (mem_index x) (map ucast (take 128 (drop 2 cs))) s0"
  obtain v where v: "putc ASCII_ACK (snd ?copy) = Some v" "line v = es" "outs v = outs s @ [ASCII_ACK]"
    using putc_sends [of ASCII_ACK "snd ?copy"] s0 copy_line by auto
  have n: "fst ?copy = mem_index x + 128"
    using cs(1) by (simp add: xm_copy_index)
  note run = xm_receive_packet_def [of getc putc wr8 one pmem x s, unfolded r]
  have "acceptable e cs \<Longrightarrow> ucast (cs ! 0) = e \<or> ucast (cs ! 0) = e - 1"
    by (simp add: acceptable_def)
  then consider "\<not> acceptable e cs" | "acceptable e cs" "ucast (cs ! 0) = e"
    | "acceptable e cs" "(ucast (cs ! 0) :: u8) \<noteq> e" "ucast (cs ! 0) = e - 1"
    by blast
  then show ?thesis
  proof cases
    case 1
    then have "xm_receive_packet getc putc wr8 one pmem x s = Some (x\<lparr>state := Purge, rx_buf := ?rx\<rparr>, s0)"
      unfolding run acceptable_def
      by (auto simp: Let_def BLK_NUM_def INV_BLK_NUM_def rx(1,2) [simplified] ff inj x(1) ucast_u8_plus)
    then show ?thesis
      using 1 ram s0 rx(3) x(1)
      by (intro exI [of _ s0] exI [of _ "x\<lparr>state := Purge, rx_buf := ?rx\<rparr>"]) simp
  next
    case 2
    then have "xm_receive_packet getc putc wr8 one pmem x s
        = Some (x\<lparr>state := WaitForNewPacket, rx_buf := ?rx, expected_blk_num := ucast (e + 1), mem_index := mem_index x + 128\<rparr>, v)"
      unfolding run acceptable_def using n v(1)
      by (auto simp: Let_def BLK_NUM_def INV_BLK_NUM_def rx(1,2) [simplified] rx(4) ff inj x(1) ucast_u8_plus split: prod.splits)
    then show ?thesis
      using 2 ram v rx(3) putc_ram [OF v(1)]
      by (intro exI [of _ s0] exI [of _ v] exI [of _ "x\<lparr>state := WaitForNewPacket, rx_buf := ?rx,
            expected_blk_num := ucast (e + 1), mem_index := mem_index x + 128\<rparr>"]) (simp add: waiting_def)
  next
    case 3
    then have "xm_receive_packet getc putc wr8 one pmem x s = Some (x\<lparr>state := WaitForNewPacket, rx_buf := ?rx\<rparr>, w)"
      unfolding run acceptable_def using w(1)
      by (auto simp: Let_def BLK_NUM_def INV_BLK_NUM_def rx(1,2) [simplified] ff inj x(1) ucast_u8_plus)
    then show ?thesis
      using 3 ram w rx(3) x(1) putc_ram [OF w(1)]
      by (intro exI [of _ s0] exI [of _ w] exI [of _ "x\<lparr>state := WaitForNewPacket, rx_buf := ?rx\<rparr>"])
        (simp add: waiting_def)
  qed
qed


text \<open>One segment, from the wait before it to the wait after it.\<close>

definition seg_done :: "u32 \<Rightarrow> u32 \<Rightarrow> u32 \<Rightarrow> u8 \<Rightarrow> xm_seg \<Rightarrow> u32 option list \<Rightarrow> xm \<Rightarrow> 's \<Rightarrow> bool" where
  "seg_done one ten pmem e g es x s \<longleftrightarrow> (\<exists>x' s'.
     xm_loop (body one ten pmem) x s = xm_loop (body one ten pmem) x' s'
     \<and> waiting x' (seg_next e g) \<and> mem_index x' = mem_index x + of_nat (length (seg_data g))
     \<and> line s' = es \<and> outs s' = outs s @ [seg_reply g]
     \<and> untouched (pmem + mem_index x) (length (seg_data g)) s s'
     \<and> bytes (pmem + mem_index x) (length (seg_data g)) s' = seg_data g)"

lemma seg_failed:
  assumes "one \<noteq> 0" "GETCHAR_TIMED_OUT \<notin> set ns" "line s = map Some ns @ None # es" "state x = Purge"
    and "expected_blk_num x = ucast e" "length (rx_buf x) = RX_BUF_SIZE"
    and "xm_loop (body one ten pmem) x0 s0 = xm_loop (body one ten pmem) x s"
    and "mem_index x = mem_index x0" "\<forall>a. rd8 a s = rd8 a s0" "outs s = outs s0"
    and "seg_next e g = e" "seg_data g = []" "seg_reply g = ASCII_NAK"
  shows "seg_done one ten pmem e g es x0 s0"
proof -
  obtain s' where s': "xm_loop (body one ten pmem) x s = xm_loop (body one ten pmem) (x\<lparr>state := WaitForNewPacket\<rparr>) s'"
    "line s' = es" "outs s' = outs s @ [ASCII_NAK]" "\<forall>a. rd8 a s' = rd8 a s"
    using purge_rounds [OF assms(1-4)] by blast
  show ?thesis
    unfolding seg_done_def using s' assms(5-)
    by (intro exI [of _ "x\<lparr>state := WaitForNewPacket\<rparr>"] exI [of _ s'])
      (simp add: waiting_def untouched_def bytes_def)
qed

lemma seg_packet:
  assumes one: "one \<noteq> 0" "ten \<noteq> 0" and cs: "length cs = 131" "GETCHAR_TIMED_OUT \<notin> set cs"
    and ln: "line s = Some ASCII_SOH # map Some cs @ es" and w: "waiting x e"
  obtains s0 s1 x1 where
    "xm_loop (body one ten pmem) x s = xm_loop (body one ten pmem) x1 s1" "line s1 = es"
    "length (rx_buf x1) = RX_BUF_SIZE" "\<And>a. rd8 a s0 = rd8 a s"
    "\<not> acceptable e cs \<Longrightarrow> state x1 = Purge \<and> expected_blk_num x1 = ucast e \<and> mem_index x1 = mem_index x
       \<and> outs s1 = outs s \<and> (\<forall>a. rd8 a s1 = rd8 a s)"
    "acceptable e cs \<Longrightarrow> ucast (cs ! 0) = e \<Longrightarrow> waiting x1 (e + 1) \<and> mem_index x1 = mem_index x + 128
       \<and> outs s1 = outs s @ [ASCII_ACK]
       \<and> (\<forall>a. rd8 a s1 = rd8 a (snd (xm_copy wr8 pmem (mem_index x) (map ucast (take 128 (drop 2 cs))) s0)))"
    "acceptable e cs \<Longrightarrow> (ucast (cs ! 0) :: u8) \<noteq> e \<Longrightarrow> waiting x1 e \<and> mem_index x1 = mem_index x
       \<and> outs s1 = outs s @ [ASCII_ACK] \<and> (\<forall>a. rd8 a s1 = rd8 a s)"
proof -
  let ?x = "x\<lparr>state := ReceivePacket\<rparr>"
  have x: "state x = WaitForNewPacket" "expected_blk_num ?x = ucast e" "length (rx_buf ?x) = RX_BUF_SIZE"
    using w by (simp_all add: waiting_def)
  obtain sa where sa: "xm_loop (body one ten pmem) x s = xm_loop (body one ten pmem) ?x sa"
    "line sa = map Some cs @ es" "outs sa = outs s" "\<forall>a. rd8 a sa = rd8 a s"
    using soh_round [OF one(2) ln x(1)] by blast
  obtain s0 s1 x1 where p: "xm_receive_packet getc putc wr8 one pmem ?x sa = Some (x1, s1)" "line s1 = es"
    "length (rx_buf x1) = RX_BUF_SIZE" "\<forall>a. rd8 a s0 = rd8 a sa"
    "if \<not> acceptable e cs
     then state x1 = Purge \<and> expected_blk_num x1 = ucast e \<and> mem_index x1 = mem_index ?x
       \<and> outs s1 = outs sa \<and> (\<forall>a. rd8 a s1 = rd8 a sa)
     else if ucast (cs ! 0) = e
     then waiting x1 (e + 1) \<and> mem_index x1 = mem_index ?x + 128 \<and> outs s1 = outs sa @ [ASCII_ACK]
       \<and> (\<forall>a. rd8 a s1 = rd8 a (snd (xm_copy wr8 pmem (mem_index ?x) (map ucast (take 128 (drop 2 cs))) s0)))
     else waiting x1 e \<and> mem_index x1 = mem_index ?x \<and> outs s1 = outs sa @ [ASCII_ACK]
       \<and> (\<forall>a. rd8 a s1 = rd8 a sa)"
    using packet_chars [OF one(1) cs sa(2) x(2,3), of pmem] by blast
  show ?thesis
    using sa(1,3,4) p packet_round_loop [OF p(1)] by (intro that [of x1 s1 s0]) (auto split: if_splits)
qed

lemma packet_acceptable:
  assumes "length d = 128"
  shows "acceptable e (packet e d)" "acceptable e (packet (e - 1) d)"
    "(ucast (packet b d ! 0) :: u8) = b" "map ucast (take 128 (drop 2 (packet b d))) = d"
proof -
  have u: "(ucast (ucast v :: u32) :: u8) = v" for v :: u8 by simp
  show "map ucast (take 128 (drop 2 (packet b d))) = d" for b
    using assms by (simp add: packet_def comp_def)
  then show "acceptable e (packet e d)" "acceptable e (packet (e - 1) d)"
    by (simp_all add: acceptable_def) (simp_all add: packet_def)
  show "(ucast (packet b d ! 0) :: u8) = b"
    by (simp add: packet_def)
qed

lemma copy_bytes:
  assumes "length d \<le> 2 ^ 29" "\<And>a. rd8 a s' = rd8 a (snd (xm_copy wr8 pmem n d s0))" "\<And>a. rd8 a s0 = rd8 a s"
  shows "untouched (pmem + n) (length d) s s'" "bytes (pmem + n) (length d) s' = d"
proof -
  show "untouched (pmem + n) (length d) s s'"
    unfolding untouched_def using assms(2,3) copy_outside by metis
  have "rd8 (pmem + n + of_nat k) s' = d ! k" if "k < length d" for k
    unfolding assms(2)
    by (rule copy_inside [OF _ that]) (use assms(1) phys_offset_inj in \<open>meson less_le_trans\<close>)
  then show "bytes (pmem + n) (length d) s' = d"
    by (auto simp: bytes_def intro: nth_equalityI)
qed


lemma seg_run:
  assumes one: "one \<noteq> 0" "ten \<noteq> 0" and ok: "seg_ok e g" and ln: "line s = seg_line e g @ es" and w: "waiting x e"
  shows "seg_done one ten pmem e g es x s"
proof (cases g)
  case (Good d)
  then have d: "length d = 128" using ok by simp
  have "line s = Some ASCII_SOH # map Some (packet e d) @ es" using ln Good by simp
  from seg_packet [OF one packet_props(1) [OF d] packet_props(2) this w, of pmem] obtain s0 s1 x1 where
    p: "xm_loop (body one ten pmem) x s = xm_loop (body one ten pmem) x1 s1" "line s1 = es"
      "\<And>a. rd8 a s0 = rd8 a s" "waiting x1 (e + 1)" "mem_index x1 = mem_index x + 128" "outs s1 = outs s @ [ASCII_ACK]"
      "\<And>a. rd8 a s1 = rd8 a (snd (xm_copy wr8 pmem (mem_index x) d s0))"
    using packet_acceptable [OF d] by metis
  show ?thesis
    unfolding seg_done_def using p(1,2,4-6) copy_bytes [OF _ p(7) p(3)] d Good
    by (intro exI [of _ x1] exI [of _ s1]) simp
next
  case (Dup d)
  then have d: "length d = 128" using ok by simp
  have l: "line s = Some ASCII_SOH # map Some (packet (e - 1) d) @ es" using ln Dup by simp
  have ne: "e - 1 \<noteq> e" by simp
  from seg_packet [OF one packet_props(1) [OF d] packet_props(2) l w, of pmem] obtain s1 x1 where
    p: "xm_loop (body one ten pmem) x s = xm_loop (body one ten pmem) x1 s1" "line s1 = es"
      "waiting x1 e" "mem_index x1 = mem_index x" "outs s1 = outs s @ [ASCII_ACK]" "\<And>a. rd8 a s1 = rd8 a s"
    using packet_acceptable [OF d] ne by metis
  show ?thesis
    unfolding seg_done_def using p Dup
    by (intro exI [of _ x1] exI [of _ s1]) (simp add: untouched_def bytes_def)
next
  case (Garbled cs ns)
  then have cs: "length cs = 131" "GETCHAR_TIMED_OUT \<notin> set cs" "GETCHAR_TIMED_OUT \<notin> set ns" "\<not> acceptable e cs"
    using ok by auto
  have l: "line s = Some ASCII_SOH # map Some cs @ map Some ns @ None # es" using ln Garbled by simp
  from seg_packet [OF one cs(1,2) l w, of pmem] obtain s1 x1 where
    p: "xm_loop (body one ten pmem) x s = xm_loop (body one ten pmem) x1 s1" "line s1 = map Some ns @ None # es"
      "length (rx_buf x1) = RX_BUF_SIZE" "state x1 = Purge" "expected_blk_num x1 = ucast e" "mem_index x1 = mem_index x"
      "outs s1 = outs s" "\<forall>a. rd8 a s1 = rd8 a s"
    using cs(4) by metis
  show ?thesis
    by (rule seg_failed [OF one(1) cs(3) p(2) p(4) p(5) p(3) p(1) p(6) p(8) p(7)]) (simp_all add: Garbled)
next
  case (Cut cs ns)
  then have cs: "length cs < 131" "GETCHAR_TIMED_OUT \<notin> set cs" "GETCHAR_TIMED_OUT \<notin> set ns"
    using ok by auto
  have wx: "state x = WaitForNewPacket" "expected_blk_num x = ucast e" "length (rx_buf x) = RX_BUF_SIZE"
    using w by (simp_all add: waiting_def)
  have "line s = Some ASCII_SOH # map Some cs @ None # map Some ns @ None # es" using ln Cut by simp
  from soh_round [OF one(2) this wx(1)] obtain sa where
    sa: "xm_loop (body one ten pmem) x s = xm_loop (body one ten pmem) (x\<lparr>state := ReceivePacket\<rparr>) sa"
      "line sa = map Some cs @ None # map Some ns @ None # es" "outs sa = outs s" "\<forall>a. rd8 a sa = rd8 a s" by blast
  obtain s1 crc rx' where r: "xm_receive getc one (RX_BUF_SIZE + 1) 0 0 0 (rx_buf x) sa = Some (SendNak, GETCHAR_TIMED_OUT, crc, rx', s1)"
    "length rx' = RX_BUF_SIZE" "line s1 = map Some ns @ None # es" "outs s1 = outs sa"
    using receive_cut_line [OF one(1) cs(1,2) wx(3) sa(2)] by blast
  let ?x = "x\<lparr>state := Purge, rx_buf := rx'\<rparr>"
  have "xm_receive_packet getc putc wr8 one pmem (x\<lparr>state := ReceivePacket\<rparr>) sa = Some (?x, s1)"
    using r(1) unfolding xm_receive_packet_def by (simp del: xm_receive.simps add: Let_def)
  then have l: "xm_loop (body one ten pmem) x s = xm_loop (body one ten pmem) ?x s1"
    using sa(1) packet_round_loop by simp
  show ?thesis
    by (rule seg_failed [OF one(1) cs(3) r(3) _ _ _ l])
      (simp_all add: wx r sa receive_ram [OF r(1)] Cut)
next
  case (Stray c ns)
  then have c: "c \<noteq> ASCII_SOH" "c \<noteq> ASCII_EOT" "c \<noteq> GETCHAR_TIMED_OUT" "GETCHAR_TIMED_OUT \<notin> set ns"
    using ok by auto
  have wx: "state x = WaitForNewPacket" "expected_blk_num x = ucast e" "length (rx_buf x) = RX_BUF_SIZE"
    using w by (simp_all add: waiting_def)
  have "line s = Some c # map Some ns @ None # es" using ln Stray by simp
  from getc_char [OF one(2) this] obtain s1 where
    s1: "getc ten s = Some (c, s1)" "line s1 = map Some ns @ None # es" "outs s1 = outs s" by blast
  have l: "xm_loop (body one ten pmem) x s = xm_loop (body one ten pmem) (x\<lparr>state := Purge\<rparr>) s1"
    using s1(1) c wx(1) by (subst xm_loop.simps) (simp add: xm_step_def)
  show ?thesis
    by (rule seg_failed [OF one(1) c(4) s1(2) _ _ _ l]) (simp_all add: wx s1 getc_ram [OF s1(1)] Stray)
next
  case Idle
  have wx: "state x = WaitForNewPacket" "expected_blk_num x = ucast e" "length (rx_buf x) = RX_BUF_SIZE"
    using w by (simp_all add: waiting_def)
  have "line s = None # es" using ln Idle by simp
  from getc_silence [OF one(2) this] obtain s1 where
    s1: "getc ten s = Some (GETCHAR_TIMED_OUT, s1)" "line s1 = es" "outs s1 = outs s" by blast
  obtain s2 where s2: "putc ASCII_NAK s1 = Some s2" "line s2 = es" "outs s2 = outs s @ [ASCII_NAK]"
    using putc_sends [of ASCII_NAK s1] s1 by auto
  have "xm_loop (body one ten pmem) x s = xm_loop (body one ten pmem) (x\<lparr>state := SendNak\<rparr>) s1"
    using s1(1) wx(1) by (subst xm_loop.simps) (simp add: xm_step_def)
  also have "\<dots> = xm_loop (body one ten pmem) (x\<lparr>state := WaitForNewPacket\<rparr>) s2"
    using s2(1) by (subst xm_loop.simps) (simp add: xm_step_def)
  finally show ?thesis
    unfolding seg_done_def using s1 s2 wx Idle getc_ram [OF s1(1)] putc_ram [OF s2(1)]
    by (intro exI [of _ "x\<lparr>state := WaitForNewPacket\<rparr>"] exI [of _ s2])
      (simp add: waiting_def untouched_def bytes_def)
qed


lemma bytes_append: "bytes a (m + n) t = bytes a m t @ bytes (a + of_nat m) n t"
  by (rule nth_equalityI) (auto simp: bytes_def nth_append add.assoc)

lemma bytes_kept:
  assumes "untouched (a + of_nat m) n s t" "m + n \<le> 2 ^ 29"
  shows "bytes a m t = bytes a m s"
proof -
  have "rd8 (a + of_nat k) t = rd8 (a + of_nat k) s" if "k < m" for k
  proof -
    have "phys (a + of_nat k) \<noteq> phys (a + of_nat m + of_nat j)" if "j < n" for j
    proof
      assume "phys (a + of_nat k) = phys (a + of_nat m + of_nat j)"
      then have "k = m + j"
        using \<open>k < m\<close> \<open>j < n\<close> assms(2) by (intro phys_offset_inj [of a]) (auto simp: add.assoc)
      with \<open>k < m\<close> show False by simp
    qed
    then show ?thesis using assms(1) by (simp add: untouched_def)
  qed
  then show ?thesis by (simp add: bytes_def)
qed

lemma session_run:
  "one \<noteq> 0 \<Longrightarrow> ten \<noteq> 0 \<Longrightarrow> session_ok e gs \<Longrightarrow> line s = session_line e gs @ es \<Longrightarrow> waiting x e \<Longrightarrow>
   length (concat (map seg_data gs)) \<le> 2 ^ 29 \<Longrightarrow>
   \<exists>t. xm_loop (body one ten pmem) x s = Some (mem_index x + of_nat (length (concat (map seg_data gs))), t)
     \<and> line t = es \<and> outs t = outs s @ map seg_reply gs @ [ASCII_ACK]
     \<and> untouched (pmem + mem_index x) (length (concat (map seg_data gs))) s t
     \<and> bytes (pmem + mem_index x) (length (concat (map seg_data gs))) t = concat (map seg_data gs)"
proof (induction gs arbitrary: e s x)
  case Nil
  then have wx: "state x = WaitForNewPacket" by (simp add: waiting_def)
  have "line s = Some ASCII_EOT # es" using Nil by simp
  from getc_char [OF \<open>ten \<noteq> 0\<close> this] obtain s1 where
    s1: "getc ten s = Some (ASCII_EOT, s1)" "line s1 = es" "outs s1 = outs s" by blast
  obtain t where t: "putc ASCII_ACK s1 = Some t" "line t = es" "outs t = outs s @ [ASCII_ACK]"
    using putc_sends [of ASCII_ACK s1] s1 by auto
  have "ASCII_EOT \<noteq> GETCHAR_TIMED_OUT" "ASCII_EOT \<noteq> ASCII_SOH"
    by (simp_all add: ASCII_EOT_def ASCII_SOH_def GETCHAR_TIMED_OUT_def)
  then have "xm_loop (body one ten pmem) x s = Some (mem_index x, t)"
    using s1(1) t(1) wx by (subst xm_loop.simps) (simp add: xm_step_def)
  then show ?case
    using t s1 getc_ram [OF s1(1)] putc_ram [OF t(1)]
    by (intro exI [of _ t]) (simp add: untouched_def bytes_def)
next
  case (Cons g gs)
  let ?m = "length (seg_data g)" and ?n = "length (concat (map seg_data gs))" and ?a = "pmem + mem_index x"
  have "seg_done one ten pmem e g (session_line (seg_next e g) gs @ es) x s"
    using Cons.prems by (intro seg_run) simp_all
  then obtain x' s' where
    p: "xm_loop (body one ten pmem) x s = xm_loop (body one ten pmem) x' s'" "waiting x' (seg_next e g)"
      "mem_index x' = mem_index x + of_nat ?m" "line s' = session_line (seg_next e g) gs @ es"
      "outs s' = outs s @ [seg_reply g]" "untouched ?a ?m s s'" "bytes ?a ?m s' = seg_data g"
    unfolding seg_done_def by blast
  obtain t where
    t: "xm_loop (body one ten pmem) x' s' = Some (mem_index x' + of_nat ?n, t)" "line t = es"
      "outs t = outs s' @ map seg_reply gs @ [ASCII_ACK]" "untouched (pmem + mem_index x') ?n s' t"
      "bytes (pmem + mem_index x') ?n t = concat (map seg_data gs)"
    using Cons.IH [OF Cons.prems(1,2) _ p(4,2)] Cons.prems by auto
  have a: "pmem + mem_index x' = ?a + of_nat ?m" by (simp add: p(3))
  have "bytes ?a (?m + ?n) t = seg_data g @ concat (map seg_data gs)"
    unfolding bytes_append using bytes_kept [of ?a ?m ?n s' t] t(4,5) p(7) Cons.prems by (simp add: a)
  moreover have "untouched ?a (?m + ?n) s t"
    using untouched_trans [OF p(6)] t(4) by (simp add: a)
  ultimately show ?case
    using p t by (intro exI [of _ t]) (simp add: add.assoc)
qed

text \<open>
  The whole function: pending characters, then silence, then the session. What was pending is drained
  by the first \<open>Purge\<close>, not by the flush, which reads nothing.
\<close>

lemma load_session:
  assumes "clock s \<noteq> 0" "10 * clock s \<noteq> 0" "length stack = RX_BUF_SIZE"
    and "GETCHAR_TIMED_OUT \<notin> set ns" "line s = map Some ns @ None # session_line 1 gs @ es" "session_ok 1 gs"
    and "length (concat (map seg_data gs)) \<le> 2 ^ 29"
  shows "\<exists>t. xmodem_load getc putc wr8 clock stack addr s = Some (of_nat (length (concat (map seg_data gs))), t)
    \<and> line t = es \<and> outs t = outs s @ ASCII_NAK # map seg_reply gs @ [ASCII_ACK]
    \<and> untouched addr (length (concat (map seg_data gs))) s t
    \<and> bytes addr (length (concat (map seg_data gs))) t = concat (map seg_data gs)"
proof -
  let ?x = "\<lparr>state = Purge, expected_blk_num = 1, mem_index = 0, rx_buf = stack\<rparr>"
  obtain s1 where s1: "xm_flush getc s = Some s1" "line s1 = line s" "outs s1 = outs s"
    using flush_line by blast
  note ram1 = flush_ram [OF s1(1)]
  have one: "clock s1 \<noteq> 0" "10 * clock s1 \<noteq> 0" using ram1 assms by simp_all
  have "line s1 = map Some ns @ None # session_line 1 gs @ es" using s1 assms by simp
  from purge_rounds [OF one(1) assms(4) this, of ?x "10 * clock s1" addr] obtain s2 where
    s2: "xm_loop (body (clock s1) (10 * clock s1) addr) ?x s1
        = xm_loop (body (clock s1) (10 * clock s1) addr) (?x\<lparr>state := WaitForNewPacket\<rparr>) s2"
      "line s2 = session_line 1 gs @ es" "outs s2 = outs s1 @ [ASCII_NAK]" "\<forall>a. rd8 a s2 = rd8 a s1"
    by auto
  have "waiting (?x\<lparr>state := WaitForNewPacket\<rparr>) 1"
    using assms(3) by (simp add: waiting_def)
  from session_run [OF one assms(6) s2(2) this assms(7), of addr] obtain t where
    "xm_loop (body (clock s1) (10 * clock s1) addr) (?x\<lparr>state := WaitForNewPacket\<rparr>) s2
       = Some (of_nat (length (concat (map seg_data gs))), t)" "line t = es"
    "outs t = outs s2 @ map seg_reply gs @ [ASCII_ACK]"
    "untouched addr (length (concat (map seg_data gs))) s2 t"
    "bytes addr (length (concat (map seg_data gs))) t = concat (map seg_data gs)"
    by auto
  then show ?thesis
    using s1 s2 ram1 by (intro exI [of _ t]) (simp add: xmodem_load_def Let_def untouched_def)
qed

end

subsection \<open>A simulated UART\<close>

text \<open>
  A UART with a scripted line. Status: the transmitter is always empty, data is ready while a character
  heads the script. The count register reads 0 once after it is set and its maximum from then on; that
  second reading ends a silence. The other registers read as 0 and ignore stores.
\<close>

record sim_uart =
  sim_line :: "u32 option list"
  sim_outs :: "u8 list"
  sim_late :: bool

definition sim_load :: "u32 \<Rightarrow> sim_uart \<Rightarrow> u32 \<times> sim_uart" where
  "sim_load a d =
     (if a = UART1 lsr then ((case sim_line d of Some c # _ \<Rightarrow> 0x61 | _ \<Rightarrow> 0x60), d)
      else if a = UART1 u0 then
        (case sim_line d of Some c # es \<Rightarrow> (c, d\<lparr>sim_line := es\<rparr>) | _ \<Rightarrow> (0, d))
      else (0, d))"

definition sim_store :: "u32 \<Rightarrow> u32 \<Rightarrow> sim_uart \<Rightarrow> sim_uart" where
  "sim_store a v d = (if a = UART1 u0 then d\<lparr>sim_outs := sim_outs d @ [ucast v]\<rparr> else d)"

definition sim_count :: "sim_uart \<Rightarrow> u32 \<times> sim_uart" where
  "sim_count d =
     (if sim_late d then (- 1, case sim_line d of None # es \<Rightarrow> d\<lparr>sim_line := es\<rparr> | _ \<Rightarrow> d)
      else (0, d\<lparr>sim_late := True\<rparr>))"

definition sim_machine :: "sim_uart machine" where
  "sim_machine = \<lparr>io_load = sim_load, io_store = sim_store, get_count = sim_count,
     set_count = (\<lambda>v d. d\<lparr>sim_late := False\<rparr>), set_compare = (\<lambda>v d. d)\<rparr>"

lemmas sim_defs = sim_machine_def sim_load_def sim_store_def sim_count_def
  H_RD32_def H_WR32_def GET_COUNTER_def SET_COUNTER_def

lemma sim_get_char:
  assumes "t \<noteq> 0" "sim_line (dev s) = Some c # es"
  shows "c_get_char_timout sim_machine t s = Some (c, s\<lparr>dev := (dev s)\<lparr>sim_line := es, sim_late := True\<rparr>\<rparr>)"
proof -
  have "0 < t" using assms(1) by (simp add: word_gt_0)
  then show ?thesis
    using assms(2)
    by (simp add: c_get_char_timout_def c_get_char_wait.simps sim_defs UART_LSR_BITMASK_DR_def)
qed

lemma sim_get_silence:
  assumes "t \<noteq> 0" "sim_line (dev s) = None # es"
  shows "c_get_char_timout sim_machine t s
    = Some (GETCHAR_TIMED_OUT, s\<lparr>dev := (dev s)\<lparr>sim_line := es, sim_late := True\<rparr>\<rparr>)"
proof -
  have "0 < t" using assms(1) by (simp add: word_gt_0)
  moreover have "\<not> (- 1 :: u32) < t" by (simp add: not_less word_order.extremum)
  ultimately show ?thesis
    using assms(2)
    by (simp add: c_get_char_timout_def c_get_char_wait.simps sim_defs UART_LSR_BITMASK_DR_def)
qed

lemma sim_get_now:
  "c_get_char_timout sim_machine 0 s = Some (GETCHAR_TIMED_OUT, s\<lparr>dev := (dev s)\<lparr>sim_late := True\<rparr>\<rparr>)"
  by (simp add: c_get_char_timout_def c_get_char_wait.simps sim_defs)

lemma scast_ucast_u8: "(ucast (scast (c :: u8) :: u32) :: u8) = c"
  by (rule bit_word_eqI) (simp add: bit_simps)

lemma sim_poll_thre: "c_poll32_until_set sim_machine (UART1 lsr) UART_LSR_BITMASK_THRE s = Some s"
  by (subst c_poll32_until_set.simps)
    (simp add: sim_defs UART_LSR_BITMASK_THRE_def split: list.splits option.splits)

lemma sim_put_char:
  "c_put_char sim_machine c s = Some (s\<lparr>dev := (dev s)\<lparr>sim_outs := sim_outs (dev s) @ [c]\<rparr>\<rparr>)"
  by (simp add: c_put_char_def sim_poll_thre) (simp add: sim_defs scast_ucast_u8)

interpretation sim: scripted_port "c_get_char_timout sim_machine" "c_put_char sim_machine" ram_store8 ram_load8 gSysClock
  "\<lambda>s. sim_line (dev s)" "\<lambda>s. sim_outs (dev s)"
  by unfold_locales (simp_all add: sim_get_char sim_get_silence sim_get_now sim_put_char)

subsection \<open>The receiver on the boot UART\<close>

text \<open>
  C4. A session that ends with \<open>EOT\<close> is received: whatever was pending on the line, and however often
  packets were garbled, cut short, repeated or out of sequence, or the line was silent, \<open>xmodem_load\<close> on
  the boot UART returns, the count it returns is 128 bytes per accepted block, memory from the
  download address holds the accepted blocks in order and no other byte changed, and the answers are
  one \<open>NAK\<close> to start, \<open>ACK\<close> for every block and its repetitions, \<open>NAK\<close> for every failure and the last
  \<open>ACK\<close>.
\<close>

theorem xmodem_session_received:
  assumes "gSysClock s \<noteq> 0" "10 * gSysClock s \<noteq> 0" "length stack = 130"
    and "GETCHAR_TIMED_OUT \<notin> set ns" "session_ok 1 gs"
    and "sim_line (dev s) = map Some ns @ None # session_line 1 gs"
    and "128 * length (filter (\<lambda>g. seg_data g \<noteq> []) gs) \<le> 2 ^ 29"
  shows "\<exists>t. xmodem_load (c_get_char_timout sim_machine) (c_put_char sim_machine) ram_store8 gSysClock stack addr s
      = Some (of_nat (length (concat (map seg_data gs))), t)
    \<and> length (concat (map seg_data gs)) = 128 * length (filter (\<lambda>g. seg_data g \<noteq> []) gs)
    \<and> ram_bytes addr (length (concat (map seg_data gs))) t = concat (map seg_data gs)
    \<and> (\<forall>b. (\<forall>j < length (concat (map seg_data gs)). phys b \<noteq> phys (addr + of_nat j)) \<longrightarrow> ram_load8 b t = ram_load8 b s)
    \<and> sim_line (dev t) = []
    \<and> sim_outs (dev t) = sim_outs (dev s) @ ASCII_NAK # map seg_reply gs @ [ASCII_ACK]"
proof -
  have len: "session_ok e gs \<Longrightarrow> length (concat (map seg_data gs)) = 128 * length (filter (\<lambda>g. seg_data g \<noteq> []) gs)" for e
  proof (induction gs arbitrary: e)
    case (Cons g gs)
    then show ?case by (cases g) auto
  qed simp
  show ?thesis
    using sim.load_session [of s stack ns gs "[]" addr] assms len [OF assms(5)]
    by (auto simp: RX_BUF_SIZE_def uart1.untouched_def uart1.bytes_def ram_bytes_def)
qed

definition demo_session :: "xm_seg list" where
  "demo_session = [Cut [1, 0xFE, 7] [9], Good (replicate 128 0x11), Dup (replicate 128 0x11),
     Garbled (replicate 131 0) [], Idle, Good (replicate 128 0x22)]"

theorem xmodem_session_received_witness:
  "\<exists>t. xmodem_load (c_get_char_timout sim_machine) (c_put_char sim_machine) ram_store8 gSysClock (replicate 130 0) 0xA0800000
      \<lparr>gChipType = 0, gSysClock = 250000000,
       dev = \<lparr>sim_line = map Some [0x55] @ None # session_line 1 demo_session, sim_outs = [], sim_late = False\<rparr>,
       mem = (\<lambda>_. 0)\<rparr>
    = Some (256, t) \<and> ram_bytes 0xA0800000 256 t = replicate 128 0x11 @ replicate 128 0x22"
proof -
  have "session_ok 1 demo_session"
    by (simp add: demo_session_def acceptable_def GETCHAR_TIMED_OUT_def)
  then show ?thesis
    using xmodem_session_received [of "\<lparr>gChipType = 0, gSysClock = 250000000,
       dev = \<lparr>sim_line = map Some [0x55] @ None # session_line 1 demo_session, sim_outs = [], sim_late = False\<rparr>,
       mem = (\<lambda>_. 0)\<rparr>" "replicate 130 0" "[0x55]" demo_session "0xA0800000"]
    by (auto simp: demo_session_def GETCHAR_TIMED_OUT_def)
qed

text \<open>
  Memory safety on any hardware: when \<open>xmodem_load\<close> returns, the count is a multiple of 128 (in 32 bit
  arithmetic), and the only bytes of memory it changed are the ones that many bytes from the download
  address on.
\<close>

theorem xmodem_memory_frame:
  assumes "xmodem_load (c_get_char_timout M) (c_put_char M) ram_store8 gSysClock stack addr s = Some (n, t)"
    and "length stack = 130"
  shows "\<exists>k. n = of_nat (128 * k) \<and>
    (\<forall>b. (\<forall>j < 128 * k. phys b \<noteq> phys (addr + of_nat j)) \<longrightarrow> ram_load8 b t = ram_load8 b s)"
  using uart1.load_frame [OF assms(1)] assms(2) by (simp add: RX_BUF_SIZE_def uart1.untouched_def)

definition demo_sys :: "u32 option list \<Rightarrow> sim_uart sys" where
  "demo_sys es = \<lparr>gChipType = 0, gSysClock = 200000000,
     dev = \<lparr>sim_line = es, sim_outs = [], sim_late = False\<rparr>, mem = (\<lambda>_. 0)\<rparr>"

lemma demo_sys_simps [simp]: "gSysClock (demo_sys es) = 200000000" "sim_line (dev (demo_sys es)) = es"
  "sim_outs (dev (demo_sys es)) = []" "ram_load8 a (demo_sys es) = 0"
  by (simp_all add: demo_sys_def ram_load8_def)

theorem xmodem_memory_frame_witness:
  "\<exists>n t k. xmodem_load (c_get_char_timout sim_machine) (c_put_char sim_machine) ram_store8 gSysClock (replicate 130 0)
      0xA0800000 (demo_sys (None # session_line 1 [Good (replicate 128 7)])) = Some (n, t)
    \<and> n = of_nat (128 * k)
    \<and> (\<forall>b. (\<forall>j < 128 * k. phys b \<noteq> phys (0xA0800000 + of_nat j)) \<longrightarrow> ram_load8 b t = 0)"
proof -
  let ?s = "demo_sys (None # session_line 1 [Good (replicate 128 7)])"
  obtain n t where r: "xmodem_load (c_get_char_timout sim_machine) (c_put_char sim_machine) ram_store8 gSysClock
      (replicate 130 0) 0xA0800000 ?s = Some (n, t)"
    using sim.load_session [of ?s "replicate 130 0" "[]" "[Good (replicate 128 7)]" "[]" "0xA0800000"]
    by (auto simp: RX_BUF_SIZE_def)
  show ?thesis
    using r xmodem_memory_frame [OF r] by auto
qed



text \<open>
  Without a clock the receiver never returns: after a start that leaves \<open>gSysClock\<close> at zero every
  receive times out before it looks at the line, on any hardware and whatever the sender does.
\<close>

theorem xmodem_needs_clock:
  assumes "gSysClock s = 0"
  shows "xmodem_load (c_get_char_timout M) (c_put_char M) ram_store8 gSysClock stack addr s = None"
  using uart1.load_clock_0 [OF assms] .

theorem xmodem_needs_clock_witness:
  "xmodem_load (c_get_char_timout sim_machine) (c_put_char sim_machine) ram_store8 gSysClock (replicate 130 0) 0xA0800000
     ((demo_sys (None # session_line 1 [Good (replicate 128 7)]))\<lparr>gSysClock := 0\<rparr>) = None"
  by (rule xmodem_needs_clock) simp

theorem c_put_char_safe_witness:
  "\<exists>v d d'. io_load sim_machine (UART1 lsr) d = (v, d') \<and> v AND UART_LSR_BITMASK_THRE = UART_LSR_BITMASK_THRE
    \<and> dev (demo_sys [])\<lparr>sim_outs := [0x41]\<rparr> = io_store sim_machine (UART1 u0) (scast (0x41 :: u8)) d'"
proof -
  have "c_put_char sim_machine 0x41 (demo_sys []) = Some ((demo_sys [])\<lparr>dev := dev (demo_sys [])\<lparr>sim_outs := [0x41]\<rparr>\<rparr>)"
    by (simp add: sim_put_char)
  from c_put_char_safe [OF this] show ?thesis by auto
qed

end
