(* ===== verification/Soc.thy ===== *)
theory Soc
  imports Uart
begin

unbundle bit_operations_syntax

section \<open>System controller, chip detection and delays (reg\_scu.h, soc\_ram.c, timer\_ram.c)\<close>

text \<open>
  The registers of the system configuration unit in the order of \<open>scu_reg_t\<close> with the offsets of its
  comments and the address macros that stand beside the structure, then \<^verbatim>\<open>soc_ram.c\<close> in the order of the
  file and \<open>mdelay\<close> of \<^verbatim>\<open>timer_ram.c\<close>.
\<close>

datatype scu_reg =
    rst_mask | rst_vec | cpu_ctl_mask | cpu_ctl | rst_cause | rst_strp | rev_num | clkgate
  | pll_pwr_rst | pll_vcxo_sigmadelta | pll_dsp_sigmadelta
  | pll_post_divider1 | pll_post_divider2 | pll_post_divider3
  | pll_fixed_analog | pll_vcxo_analog | pll_gateway_analog | pll_bme_analog | pll_dsp_analog
  | pll_test1 | pll_test2 | bme_map0 | bme_mask0 | bme_map1 | bme_mask1
  | mailbox_h2b_intst | mailbox_h2b_intcl | mailbox_h2b_inten | mailbox_h2b nat
  | mailbox_b2h_intst | mailbox_b2h_intcl | mailbox_b2h_inten | mailbox_b2h nat
  | nandctrl_status | por_status | pvt_status
  | pll_fixed_status | pll_vcxo_status | pll_gateway_status | pll_bme_status | pll_dsp_status
  | pll_gateway_sigmadelta | pll_bme_sigmadelta | rsvd nat | spare0 | pcie_rc0 | pcie_rc1 | spare3 | spare4

fun scu_offset :: "scu_reg \<Rightarrow> u32" where
  "scu_offset rst_mask = 0x000"
| "scu_offset rst_vec = 0x004"
| "scu_offset cpu_ctl_mask = 0x008"
| "scu_offset cpu_ctl = 0x00C"
| "scu_offset rst_cause = 0x010"
| "scu_offset rst_strp = 0x014"
| "scu_offset rev_num = 0x018"
| "scu_offset clkgate = 0x01C"
| "scu_offset pll_pwr_rst = 0x020"
| "scu_offset pll_vcxo_sigmadelta = 0x024"
| "scu_offset pll_dsp_sigmadelta = 0x028"
| "scu_offset pll_post_divider1 = 0x02C"
| "scu_offset pll_post_divider2 = 0x030"
| "scu_offset pll_post_divider3 = 0x034"
| "scu_offset pll_fixed_analog = 0x038"
| "scu_offset pll_vcxo_analog = 0x03C"
| "scu_offset pll_gateway_analog = 0x040"
| "scu_offset pll_bme_analog = 0x044"
| "scu_offset pll_dsp_analog = 0x048"
| "scu_offset pll_test1 = 0x04C"
| "scu_offset pll_test2 = 0x050"
| "scu_offset bme_map0 = 0x054"
| "scu_offset bme_mask0 = 0x058"
| "scu_offset bme_map1 = 0x05C"
| "scu_offset bme_mask1 = 0x060"
| "scu_offset mailbox_h2b_intst = 0x064"
| "scu_offset mailbox_h2b_intcl = 0x068"
| "scu_offset mailbox_h2b_inten = 0x06C"
| "scu_offset (mailbox_h2b i) = 0x070 + 4 * of_nat i"
| "scu_offset mailbox_b2h_intst = 0x090"
| "scu_offset mailbox_b2h_intcl = 0x094"
| "scu_offset mailbox_b2h_inten = 0x098"
| "scu_offset (mailbox_b2h i) = 0x09C + 4 * of_nat i"
| "scu_offset nandctrl_status = 0x0BC"
| "scu_offset por_status = 0x0C0"
| "scu_offset pvt_status = 0x0C4"
| "scu_offset pll_fixed_status = 0x0C8"
| "scu_offset pll_vcxo_status = 0x0CC"
| "scu_offset pll_gateway_status = 0x0D0"
| "scu_offset pll_bme_status = 0x0D4"
| "scu_offset pll_dsp_status = 0x0D8"
| "scu_offset pll_gateway_sigmadelta = 0x0DC"
| "scu_offset pll_bme_sigmadelta = 0x0E0"
| "scu_offset (rsvd i) = 0x0E4 + 4 * of_nat i"
| "scu_offset spare0 = 0x0EC"
| "scu_offset pcie_rc0 = 0x0F0"
| "scu_offset pcie_rc1 = 0x0F4"
| "scu_offset spare3 = 0x0F8"
| "scu_offset spare4 = 0x0FC"

definition SCU_BASE :: u32 where [reg_defs]: "SCU_BASE = 0xB9000000"

definition SCU :: "scu_reg \<Rightarrow> u32" where [reg_defs]: "SCU r = SCU_BASE + scu_offset r"

text \<open>The members in the order the structure declares them, arrays unrolled.\<close>

definition scu_struct :: "scu_reg list" where
  "scu_struct =
     [rst_mask, rst_vec, cpu_ctl_mask, cpu_ctl, rst_cause, rst_strp, rev_num, clkgate,
      pll_pwr_rst, pll_vcxo_sigmadelta, pll_dsp_sigmadelta, pll_post_divider1, pll_post_divider2, pll_post_divider3,
      pll_fixed_analog, pll_vcxo_analog, pll_gateway_analog, pll_bme_analog, pll_dsp_analog, pll_test1, pll_test2,
      bme_map0, bme_mask0, bme_map1, bme_mask1, mailbox_h2b_intst, mailbox_h2b_intcl, mailbox_h2b_inten]
     @ map mailbox_h2b [0..<8] @ [mailbox_b2h_intst, mailbox_b2h_intcl, mailbox_b2h_inten]
     @ map mailbox_b2h [0..<8] @
     [nandctrl_status, por_status, pvt_status, pll_fixed_status, pll_vcxo_status, pll_gateway_status,
      pll_bme_status, pll_dsp_status, pll_gateway_sigmadelta, pll_bme_sigmadelta]
     @ map rsvd [0..<2] @ [spare0, pcie_rc0, pcie_rc1, spare3, spare4]"

definition SCU_RST_VECT_MASK :: u32 where [reg_defs]: "SCU_RST_VECT_MASK = SCU_BASE + 0x00"
definition SCU_RST_VECT :: u32 where [reg_defs]: "SCU_RST_VECT = SCU_BASE + 0x04"
definition SCU_CTRL_MASK :: u32 where [reg_defs]: "SCU_CTRL_MASK = SCU_BASE + 0x08"
definition SCU_CTRL_CTRL :: u32 where [reg_defs]: "SCU_CTRL_CTRL = SCU_BASE + 0x0C"
definition SCU_RESET_CAUSE :: u32 where [reg_defs]: "SCU_RESET_CAUSE = SCU_BASE + 0x10"
definition SCU_PART_REV_NUM :: u32 where [reg_defs]: "SCU_PART_REV_NUM = SCU_BASE + 0x18"
definition SCU_CLOCK_GATE_CTRL :: u32 where [reg_defs]: "SCU_CLOCK_GATE_CTRL = SCU_BASE + 0x1C"
definition SCU_BME_MAP0 :: u32 where [reg_defs]: "SCU_BME_MAP0 = SCU_BASE + 0x54"
definition SCU_BME_MASK1 :: u32 where [reg_defs]: "SCU_BME_MASK1 = SCU_BASE + 0x60"
definition SCU_SPARE0_REG :: u32 where [reg_defs]: "SCU_SPARE0_REG = SCU_BASE + 0xEC"
definition SCU_SPARE4_REG :: u32 where [reg_defs]: "SCU_SPARE4_REG = SCU_BASE + 0xFC"

definition RST_MSK_EXT_PINS :: u32 where [reg_defs]: "RST_MSK_EXT_PINS = push_bit 31 1"

definition GPIO_BASE :: u32 where [reg_defs]: "GPIO_BASE = 0xB9030000"
definition GPIO_OUTPUT_SET :: u32 where [reg_defs]: "GPIO_OUTPUT_SET = GPIO_BASE + 0x04"
definition GPIO_OUTPUT_CLR :: u32 where [reg_defs]: "GPIO_OUTPUT_CLR = GPIO_BASE + 0x08"
definition GPIO_MODE_REG2 :: u32 where [reg_defs]: "GPIO_MODE_REG2 = GPIO_BASE + 0x10"

subsection \<open>Detection\<close>

definition SoC_str :: "string list" where
  "SoC_str = [''Vx185'', ''Vx175'', ''Vx183'', ''Vx173'', ''Vx185SE'', ''N/A'', ''Vx185HP'', ''N/A'']"

definition reset_str :: "string list" where
  "reset_str = [''power'', ''soft'', ''watchdog'', ''pll_drift'']"

definition boot_str :: "string list" where
  "boot_str = [''NOR'', ''SPI'', ''NAND'', ''UART1_9600'', ''NOR_fix'', ''SPI_fix'', ''NAND_fix'', ''UART1_38400'']"

text \<open>A read past the end of a constant array is None.\<close>

definition arr_get :: "'a list \<Rightarrow> nat \<Rightarrow> 'a option" where
  "arr_get a i = (if i < length a then Some (a ! i) else None)"

definition detect_SoC :: "'d machine \<Rightarrow> 'd sys \<Rightarrow> (u32 \<times> 'd sys) option" where
  "detect_SoC M s = do {
     let (rev, s) = H_RD32 M (SCU rev_num) s;
     if rev = 0x00030200 then do {
       let (v, s) = H_RD32 M (SCU cpu_ctl) s;
       let SoC_type = drop_bit 4 v AND 0x07;
       name \<leftarrow> arr_get SoC_str (unat SoC_type);
       s \<leftarrow> c_put_str M (str name) s;
       s \<leftarrow> c_put_char M (of_char (CHR ''-'')) s;
       s \<leftarrow> c_put_char M (of_char (CHR ''B'')) s;
       let (v, s) = H_RD32 M (SCU spare0) s;
       s \<leftarrow> c_put_char M (of_char (CHR ''0'') + ucast (drop_bit 24 v AND 1)) s;
       Some (SoC_type, s)
     } else do {
       s \<leftarrow> c_put_str M (str ''UNKNOWN'') s;
       Some (H_RD32 M 0xB900003C s)
     }
   }"

text \<open>The loop from index \<open>i\<close>, over the remaining \<open>n\<close> causes.\<close>

fun detect_resetcause_loop :: "'d machine \<Rightarrow> nat \<Rightarrow> nat \<Rightarrow> 'd sys \<Rightarrow> 'd sys option" where
  "detect_resetcause_loop M i 0 s = Some s"
| "detect_resetcause_loop M i (Suc n) s =
     (let (v, s) = H_RD32 M (SCU rst_cause) s
      in if push_bit i 1 AND v \<noteq> 0
         then do {
           name \<leftarrow> arr_get reset_str i;
           s \<leftarrow> c_put_str M (str name) s;
           detect_resetcause_loop M (i + 1) n s
         }
         else detect_resetcause_loop M (i + 1) n s)"

definition detect_resetcause :: "'d machine \<Rightarrow> 'd sys \<Rightarrow> 'd sys option" where
  "detect_resetcause M s = detect_resetcause_loop M 0 4 s"

definition detect_bootmode :: "'d machine \<Rightarrow> 'd sys \<Rightarrow> 'd sys option" where
  "detect_bootmode M s = do {
     let (v, s) = H_RD32 M (SCU rst_strp) s;
     let bootmode = v AND 7;
     name \<leftarrow> arr_get boot_str (unat bootmode);
     c_put_str M (str name) s
   }"

definition softreset_SoC :: "'d machine \<Rightarrow> 'd sys \<Rightarrow> 'd sys option" where
  "softreset_SoC M s = do {
     s \<leftarrow> c_put_str M (str (''reboot'' @ [CHR 0x0A])) s;
     let s = H_WR32 M (SCU rst_mask) 0 s;
     Some (H_WR32 M (SCU rst_vec) 0 s)
   }"

subsection \<open>Chip select 0\<close>

definition RemapCS0_NOR :: "'d machine \<Rightarrow> 'd sys \<Rightarrow> 'd sys" where
  "RemapCS0_NOR M s =
     (let s = rmw32 M SCU_CTRL_MASK (\<lambda>temp. temp AND NOT 0x100) s
      in rmw32 M SCU_CTRL_CTRL (\<lambda>temp. temp OR 0x100) s)"

definition RemapCS0_ROM :: "'d machine \<Rightarrow> 'd sys \<Rightarrow> 'd sys" where
  "RemapCS0_ROM M s =
     (let s = rmw32 M SCU_CTRL_MASK (\<lambda>temp. temp AND NOT 0x100) s
      in rmw32 M SCU_CTRL_CTRL (\<lambda>temp. temp AND NOT 0x100) s)"

subsection \<open>Peripheral reset\<close>

text \<open>
  \<open>while (loop--);\<close> as the value \<open>loop\<close> has after it and the number of times its body ran. The counter
  is a local variable, so the loop touches no device.
\<close>

function while_dec :: "u32 \<Rightarrow> nat \<Rightarrow> u32 \<times> nat" where
  "while_dec loop n = (if loop \<noteq> 0 then while_dec (loop - 1) (n + 1) else (loop - 1, n))"
  by pat_completeness auto
termination
proof (relation "measure (\<lambda>(loop, _). unat loop)", simp)
  fix loop :: u32 and n :: nat
  assume "loop \<noteq> 0"
  then show "((loop - 1, n + 1), loop, n) \<in> measure (\<lambda>(loop, _). unat loop)"
    by (simp add: unat_minus_one unat_gt_0)
qed

declare while_dec.simps [simp del]

text \<open>The state after the call and the turns of its delay loops.\<close>

definition reset_peripheral :: "'d machine \<Rightarrow> 'd sys \<Rightarrow> nat list \<times> 'd sys" where
  "reset_peripheral M s =
     (let loop = 0xA0000;
          (v, s) = H_RD32 M (SCU spare0) s
      in if drop_bit 24 v AND 1 \<noteq> 0
         then (let s = rmw32 M (SCU rst_mask) (\<lambda>v. v AND NOT RST_MSK_EXT_PINS) s;
                   s = rmw32 M (SCU rst_vec) (\<lambda>v. v OR RST_MSK_EXT_PINS) s;
                   (loop, n) = while_dec loop 0
               in ([n], s))
         else (let s = rmw32 M GPIO_MODE_REG2 (\<lambda>v. v AND NOT (push_bit ((25 - 16) * 2) 3)) s;
                   s = rmw32 M GPIO_MODE_REG2 (\<lambda>v. v OR push_bit ((25 - 16) * 2) 1) s;
                   s = rmw32 M GPIO_OUTPUT_CLR (\<lambda>v. v OR push_bit 25 1) s;
                   (loop, n1) = while_dec loop 0;
                   s = rmw32 M GPIO_OUTPUT_SET (\<lambda>v. v OR push_bit 25 1) s;
                   (loop, n2) = while_dec loop 0
               in ([n1, n2], s)))"

subsection \<open>mdelay\<close>

partial_function (option) mdelay_loop :: "'d machine \<Rightarrow> u32 \<Rightarrow> 'd sys \<Rightarrow> 'd sys option" where
  "mdelay_loop M limit s =
     (let (t, s) = GET_COUNTER M s in if t \<le> limit then mdelay_loop M limit s else Some s)"

definition mdelay :: "'d machine \<Rightarrow> u32 \<Rightarrow> 'd sys \<Rightarrow> 'd sys option" where
  "mdelay M msec s =
     (let s = SET_COMPARE M 245000000 s;
          s = SET_COUNTER M 0 s
      in mdelay_loop M (250000 * msec) s)"

subsection \<open>The console as its callers see it\<close>

text \<open>
  A console that is \<open>ready\<close> takes every character sent, appends it to what has been sent, stays ready and
  touches nothing but the devices. \<open>const_reg M a v\<close>: the register at \<open>a\<close> reads \<open>v\<close>, without an effect.
\<close>

definition sent :: "('d \<Rightarrow> u8 list) \<Rightarrow> ('d \<Rightarrow> bool) \<Rightarrow> 'd sys \<Rightarrow> u8 list \<Rightarrow> 'd sys \<Rightarrow> bool" where
  "sent outs ready s cs t \<longleftrightarrow> outs (dev t) = outs (dev s) @ cs \<and> ready (dev t) \<and> frame s t"

lemma sent_trans: "sent outs ready s cs t \<Longrightarrow> sent outs ready t ds u \<Longrightarrow> sent outs ready s (cs @ ds) u"
  by (auto simp: sent_def intro: frame_trans)

locale console =
  fixes M :: "'d machine" and outs :: "'d \<Rightarrow> u8 list" and ready :: "'d \<Rightarrow> bool"
  assumes put_char: "ready (dev s) \<Longrightarrow> \<exists>t. c_put_char M c s = Some t \<and> sent outs ready s [c] t"
begin

lemma put_charE:
  assumes "ready (dev s)"
  obtains t where "c_put_char M c s = Some t" "sent outs ready s [c] t" "ready (dev t)"
  using put_char [OF assms, of c] by (auto simp: sent_def)

lemma put_strE:
  assumes "0 \<notin> set cs" "ready (dev s)"
  obtains t where "c_put_str M cs s = Some t" "sent outs ready s cs t" "ready (dev t)"
proof -
  have "0 \<notin> set cs \<Longrightarrow> ready (dev s) \<Longrightarrow> \<exists>t. c_put_str M cs s = Some t \<and> sent outs ready s cs t \<and> ready (dev t)" for cs
  proof (induction cs arbitrary: s)
    case (Cons c cs)
    obtain t where 1: "c_put_char M c s = Some t" "sent outs ready s [c] t" "ready (dev t)"
      using put_charE Cons.prems by blast
    obtain u where "c_put_str M cs t = Some u" "sent outs ready t cs u" "ready (dev u)"
      using Cons.IH [of t] Cons.prems 1 by auto
    with 1 Cons.prems show ?case
      using sent_trans [of outs ready s "[c]" t cs u] by simp
  qed (simp add: sent_def)
  then show ?thesis using assms that by blast
qed

end

definition const_reg :: "'d machine \<Rightarrow> u32 \<Rightarrow> u32 \<Rightarrow> bool" where
  "const_reg M a v \<longleftrightarrow> (\<forall>d. io_load M a d = (v, d))"

lemma H_RD32_const [simp]: "const_reg M a v \<Longrightarrow> H_RD32 M a s = (v, s)"
  by (simp add: const_reg_def H_RD32_def)

text \<open>
  A board to run the code on: registers are memory, except that the transmitter of the boot UART is
  always empty and, unless the divisor latch is open, collects what it is given; the count register
  advances by one per read.
\<close>

record board =
  bregs :: "u32 \<Rightarrow> u32"
  bouts :: "u8 list"
  bcount :: u32

definition board_machine :: "board machine" where
  "board_machine =
     \<lparr>io_load = (\<lambda>a d. (if a = UART1 lsr then UART_LSR_BITMASK_THRE else bregs d a, d)),
      io_store = (\<lambda>a v d. if a = UART1 u0 \<and> \<not> bit (bregs d (UART1 lcr)) 7 then d\<lparr>bouts := bouts d @ [ucast v]\<rparr>
                            else d\<lparr>bregs := (bregs d)(a := v)\<rparr>),
      get_count = (\<lambda>d. (bcount d, d\<lparr>bcount := bcount d + 1\<rparr>)),
      set_count = (\<lambda>v d. d\<lparr>bcount := v\<rparr>),
      set_compare = (\<lambda>v d. d)\<rparr>"

lemma board_simps [simp]:
  "io_load board_machine a d = (if a = UART1 lsr then UART_LSR_BITMASK_THRE else bregs d a, d)"
  "io_store board_machine a v d =
     (if a = UART1 u0 \<and> \<not> bit (bregs d (UART1 lcr)) 7 then d\<lparr>bouts := bouts d @ [ucast v]\<rparr>
      else d\<lparr>bregs := (bregs d)(a := v)\<rparr>)"
  "get_count board_machine d = (bcount d, d\<lparr>bcount := bcount d + 1\<rparr>)"
  "set_count board_machine v d = d\<lparr>bcount := v\<rparr>" "set_compare board_machine v d = d"
  by (simp_all add: board_machine_def)

definition latch_closed :: "board \<Rightarrow> bool" where
  "latch_closed d \<longleftrightarrow> \<not> bit (bregs d (UART1 lcr)) 7"

lemma ucast_scast_u8: "ucast (scast (c :: u8) :: u32) = c"
  by (rule bit_word_eqI) (auto simp: bit_simps)

text \<open>A machine that differs from the board in its other registers is a console all the same.\<close>

lemma console_board:
  assumes "\<And>d. io_load M (UART1 lsr) d = (UART_LSR_BITMASK_THRE, d)" "io_store M (UART1 u0) = io_store board_machine (UART1 u0)"
  shows "console M bouts latch_closed"
proof
  fix s :: "board sys" and c
  assume r: "latch_closed (dev s)"
  have "c_poll32_until_set M (UART1 lsr) UART_LSR_BITMASK_THRE s = Some s"
    by (subst c_poll32_until_set.simps) (simp add: H_RD32_def assms)
  with r show "\<exists>t. c_put_char M c s = Some t \<and> sent bouts latch_closed s [c] t"
    by (simp add: c_put_char_def H_WR32_def assms latch_closed_def sent_def frame_def ucast_scast_u8)
qed

interpretation board: console board_machine bouts latch_closed
  by (rule console_board) simp_all

subsection \<open>Correctness of detection and delays\<close>

text \<open>
  The structure \<open>scu_reg_t\<close> puts every member at the offset its comment names, 64 words without a hole,
  and the address macros beside it name the members they stand for.
\<close>

theorem scu_layout:
  "map scu_offset scu_struct = map (\<lambda>i. 4 * of_nat i) [0..<64]
   \<and> [SCU rst_mask, SCU rst_vec, SCU cpu_ctl_mask, SCU cpu_ctl, SCU rst_cause, SCU rev_num, SCU clkgate,
      SCU bme_map0, SCU bme_mask1, SCU spare0, SCU spare4]
    = [SCU_RST_VECT_MASK, SCU_RST_VECT, SCU_CTRL_MASK, SCU_CTRL_CTRL, SCU_RESET_CAUSE, SCU_PART_REV_NUM, SCU_CLOCK_GATE_CTRL,
      SCU_BME_MAP0, SCU_BME_MASK1, SCU_SPARE0_REG, SCU_SPARE4_REG]"
  by (simp add: scu_struct_def reg_defs upt_rec)

text \<open>Within the structure the addresses are different.\<close>

fun in_scu :: "scu_reg \<Rightarrow> bool" where
  "in_scu (mailbox_h2b i) = (i < 8)"
| "in_scu (mailbox_b2h i) = (i < 8)"
| "in_scu (rsvd i) = (i < 2)"
| "in_scu _ = True"

lemma in_scu_struct: "in_scu r \<Longrightarrow> r \<in> set scu_struct"
  by (cases r) (auto simp: scu_struct_def)

lemma SCU_inj: "in_scu r \<Longrightarrow> in_scu q \<Longrightarrow> SCU r = SCU q \<longleftrightarrow> r = q"
proof -
  have "distinct (map scu_offset scu_struct)"
    by (simp add: scu_struct_def upt_rec)
  then have "inj_on scu_offset (set scu_struct)"
    by (simp add: distinct_map)
  then show "in_scu r \<Longrightarrow> in_scu q \<Longrightarrow> SCU r = SCU q \<longleftrightarrow> r = q"
    by (auto simp: SCU_def dest: in_scu_struct inj_onD)
qed

lemma SCU_UART1: "in_scu r \<Longrightarrow> SCU r \<noteq> UART1 u"
proof -
  have "list_all (\<lambda>o1. scu_offset o1 < 0x100) scu_struct"
    by (simp add: scu_struct_def upt_rec)
  moreover have "UART1 u = SCU_BASE + (0x10000 + uart_offset u)"
    by (cases u) (simp_all add: uart_defs SCU_BASE_def)
  moreover have "\<not> 0x10000 + uart_offset u < 0x100"
    by (cases u) simp_all
  ultimately show "in_scu r \<Longrightarrow> SCU r \<noteq> UART1 u"
    by (metis (no_types, lifting) SCU_def add_left_imp_eq in_scu_struct list_all_iff)
qed

text \<open>
  On a chip of the Vx185 family \<open>detect_SoC\<close> returns the type bits of \<open>cpu_ctl\<close>, which are below 8, and
  prints that type's name and revision: the name table is never read out of range. RAM and the globals
  stay.
\<close>

lemma and_7_less: "unat ((w :: u32) AND 7) < 8"
proof -
  have "w AND 7 = take_bit 3 w" by (simp add: take_bit_eq_mask mask_eq_exp_minus_1)
  then show ?thesis by (simp add: take_bit_eq_mod unat_mod)
qed

lemma names_nonzero: "n \<in> set (SoC_str @ reset_str @ boot_str) \<Longrightarrow> 0 \<notin> set (str n)"
  by (auto simp: SoC_str_def reset_str_def boot_str_def str_def)

lemma and_1_cases: "(w :: u32) AND 1 = (if bit w 0 then 1 else 0)"
  by (simp add: and_one_eq bit_0 odd_iff_mod_2_eq_one)

text \<open>The names of the causes \<open>i\<close>, ..., \<open>i + n - 1\<close> whose bits are set in \<open>v\<close>.\<close>

fun causes :: "u32 \<Rightarrow> nat \<Rightarrow> nat \<Rightarrow> u8 list" where
  "causes v i 0 = []"
| "causes v i (Suc n) = (if bit v i then str (reset_str ! i) else []) @ causes v (Suc i) n"

context console
begin

lemma detect_SoC_sent:
  assumes s: "ready (dev s)"
    and regs: "const_reg M (SCU rev_num) 0x00030200" "const_reg M (SCU cpu_ctl) c" "const_reg M (SCU spare0) p"
  shows "\<exists>t. detect_SoC M s = Some (drop_bit 4 c AND 7, t) \<and>
    sent outs ready s (str (SoC_str ! unat (drop_bit 4 c AND 7)) @ str (if bit p 24 then ''-B1'' else ''-B0'')) t"
proof -
  let ?n = "SoC_str ! unat (drop_bit 4 c AND 7)" and ?r = "of_char (CHR ''0'') + ucast (drop_bit 24 p AND 1) :: u8"
  have n: "unat (drop_bit 4 c AND 7) < length SoC_str"
    using and_7_less [of "drop_bit 4 c"] by (simp add: SoC_str_def)
  then have "?n \<in> set (SoC_str @ reset_str @ boot_str)" by simp
  from names_nonzero [OF this] obtain t1 where 1: "c_put_str M (str ?n) s = Some t1" "sent outs ready s (str ?n) t1" "ready (dev t1)"
    using put_strE s by blast
  obtain t2 where 2: "c_put_char M (of_char (CHR ''-'')) t1 = Some t2" "sent outs ready t1 [of_char (CHR ''-'')] t2" "ready (dev t2)"
    using put_charE 1 by blast
  obtain t3 where 3: "c_put_char M (of_char (CHR ''B'')) t2 = Some t3" "sent outs ready t2 [of_char (CHR ''B'')] t3" "ready (dev t3)"
    using put_charE 2 by blast
  obtain t4 where 4: "c_put_char M ?r t3 = Some t4" "sent outs ready t3 [?r] t4" "ready (dev t4)"
    using put_charE 3 by blast
  have "detect_SoC M s = Some (drop_bit 4 c AND 7, t4)"
    using n regs 1 2 3 4 by (simp add: detect_SoC_def arr_get_def)
  moreover have "str (if bit p 24 then ''-B1'' else ''-B0'') = [of_char (CHR ''-''), of_char (CHR ''B''), ?r]"
    by (simp add: str_def and_1_cases bit_simps)
  ultimately show ?thesis
    using sent_trans [OF 1(2) sent_trans [OF 2(2) sent_trans [OF 3(2) 4(2)]]] by simp
qed

lemma detect_resetcause_loop_sent:
  assumes "const_reg M (SCU rst_cause) v"
  shows "ready (dev s) \<Longrightarrow> i + n = length reset_str \<Longrightarrow> \<exists>t. detect_resetcause_loop M i n s = Some t \<and>
    sent outs ready s (causes v i n) t"
proof (induction n arbitrary: i s)
  case 0
  then show ?case by (simp add: sent_def)
next
  case (Suc n)
  have b: "push_bit i 1 AND v \<noteq> 0 \<longleftrightarrow> bit v i"
    using Suc.prems and_single_bit_iff [of v i] by (simp add: and.commute reset_str_def)
  show ?case
  proof (cases "bit v i")
    case False
    then show ?thesis
      using Suc.IH [of s "Suc i"] Suc.prems b assms by simp
  next
    case True
    have "reset_str ! i \<in> set (SoC_str @ reset_str @ boot_str)"
      using Suc.prems by simp
    from names_nonzero [OF this] obtain t1 where 1: "c_put_str M (str (reset_str ! i)) s = Some t1"
      "sent outs ready s (str (reset_str ! i)) t1" "ready (dev t1)"
      using put_strE Suc.prems by blast
    obtain t where t: "detect_resetcause_loop M (Suc i) n t1 = Some t" "sent outs ready t1 (causes v (Suc i) n) t"
      using Suc.IH [of t1 "Suc i"] Suc.prems 1 by auto
    from 1 t(1) True b Suc.prems assms have "detect_resetcause_loop M i (Suc n) s = Some t"
      by (simp add: arr_get_def)
    then show ?thesis
      using sent_trans [OF 1(2) t(2)] True by simp
  qed
qed

lemma detect_bootmode_sent:
  assumes "ready (dev s)" "const_reg M (SCU rst_strp) v"
  shows "\<exists>t. detect_bootmode M s = Some t \<and> sent outs ready s (str (boot_str ! unat (v AND 7))) t"
proof -
  have n: "unat (v AND 7) < length boot_str"
    using and_7_less [of v] by (simp add: boot_str_def)
  then have "boot_str ! unat (v AND 7) \<in> set (SoC_str @ reset_str @ boot_str)" by simp
  from names_nonzero [OF this] obtain t where "c_put_str M (str (boot_str ! unat (v AND 7))) s = Some t"
    "sent outs ready s (str (boot_str ! unat (v AND 7))) t"
    using put_strE assms by blast
  then show ?thesis
    using assms n by (simp add: detect_bootmode_def arr_get_def)
qed

end

theorem detect_SoC_report:
  assumes "console M outs ready" "ready (dev s)"
    and "const_reg M (SCU rev_num) 0x00030200" "const_reg M (SCU cpu_ctl) c" "const_reg M (SCU spare0) p"
  shows "\<exists>t. detect_SoC M s = Some (drop_bit 4 c AND 7, t) \<and>
    sent outs ready s (str (SoC_str ! unat (drop_bit 4 c AND 7)) @ str (if bit p 24 then ''-B1'' else ''-B0'')) t"
  using console.detect_SoC_sent [OF assms] .

text \<open>
  \<open>detect_resetcause\<close> prints the names of the causes whose bits are set, in the order of the bits, and
  \<open>detect_bootmode\<close> the name of the strapped boot mode, whatever the two registers hold; neither table is
  read out of range.
\<close>

theorem detect_cause_mode_report:
  assumes "console M outs ready" "ready (dev s)"
    and "const_reg M (SCU rst_cause) c" "const_reg M (SCU rst_strp) v"
  shows "(\<exists>t. detect_resetcause M s = Some t \<and>
      sent outs ready s (causes c 0 4) t)
    \<and> (\<exists>t. detect_bootmode M s = Some t \<and> sent outs ready s (str (boot_str ! unat (v AND 7))) t)"
  using console.detect_resetcause_loop_sent [OF assms(1,3,2), of 0 4] console.detect_bootmode_sent [OF assms(1,2,4)]
  by (simp add: detect_resetcause_def reset_str_def)

definition board0 :: "board sys" where
  "board0 = \<lparr>gChipType = 0, gSysClock = 0,
     dev = \<lparr>bregs = (\<lambda>a. if a = SCU rev_num then 0x00030200 else if a = SCU cpu_ctl then 0x20
                        else if a = SCU spare0 then 0x01000000 else if a = SCU rst_cause then 6 else 0),
            bouts = [], bcount = 0\<rparr>, mem = (\<lambda>_. 0)\<rparr>"

text \<open>A board whose system controller is read-only, with the values of \<open>board0\<close>.\<close>

definition strapped :: "board machine" where
  "strapped = board_machine\<lparr>io_load := (\<lambda>a d.
     (if a = UART1 lsr then UART_LSR_BITMASK_THRE
      else if a = UART1 lcr then bregs d a else bregs (dev board0) a, d))\<rparr>"

interpretation strapped: console strapped bouts latch_closed
  by (rule console_board) (simp_all add: strapped_def board_machine_def)

lemma strapped_const:
  "const_reg strapped (SCU rev_num) 0x00030200" "const_reg strapped (SCU cpu_ctl) 0x20"
  "const_reg strapped (SCU spare0) 0x01000000" "const_reg strapped (SCU rst_cause) 6" "const_reg strapped (SCU rst_strp) 0"
  by (simp_all add: const_reg_def strapped_def board0_def reg_defs uart_defs)

theorem detect_SoC_report_witness:
  "\<exists>t. detect_SoC strapped board0 = Some (2, t) \<and> bouts (dev t) = str ''Vx183-B1''"
proof -
  have "drop_bit 4 (0x20 :: u32) AND 7 = 2" "bit (0x01000000 :: u32) 24" by simp_all
  moreover have "latch_closed (dev board0)" by (simp add: latch_closed_def board0_def reg_defs uart_defs)
  ultimately show ?thesis
    using detect_SoC_report [OF strapped.console_axioms _ strapped_const(1-3), of board0]
    by (auto simp: sent_def SoC_str_def str_def board0_def)
qed

theorem detect_cause_mode_report_witness:
  "(\<exists>t. detect_resetcause strapped board0 = Some t \<and> bouts (dev t) = str ''softwatchdog'')
   \<and> (\<exists>t. detect_bootmode strapped board0 = Some t \<and> bouts (dev t) = str ''NOR'')"
proof -
  have "bit (6 :: u32) n \<longleftrightarrow> n = 1 \<or> n = 2" if "n < 4" for n
    using that by (auto simp: less_Suc_eq numeral_eq_Suc bit_Suc)
  moreover have "latch_closed (dev board0)" by (simp add: latch_closed_def board0_def reg_defs uart_defs)
  ultimately show ?thesis
    using detect_cause_mode_report [OF strapped.console_axioms _ strapped_const(4-5), of board0]
    by (auto simp: sent_def reset_str_def boot_str_def str_def board0_def numeral_eq_Suc)
qed

text \<open>
  The second delay of \<open>reset_peripheral\<close> on a B0 board is not the first again: \<open>while (loop--)\<close> leaves
  \<open>loop\<close> at \<open>2^32 - 1\<close>, so the reset pulse lasts 0xA0000 turns and the wait after it 2^32 - 1 turns; on a
  B1 board there is one delay of 0xA0000 turns.
\<close>

lemma while_dec_turns: "while_dec loop n = (-1, n + unat loop)"
proof (induction loop n rule: while_dec.induct)
  case (1 loop n)
  show ?case
  proof (cases "loop = 0")
    case False
    then have "while_dec loop n = (-1, n + 1 + unat (loop - 1))"
      using 1 by (subst while_dec.simps) simp
    then show ?thesis
      using False by (simp add: unat_minus_one unat_gt_0)
  qed (subst while_dec.simps, simp)
qed

theorem reset_peripheral_delays:
  "fst (reset_peripheral M s) =
     (if bit (fst (H_RD32 M (SCU spare0) s)) 24 then [0xA0000] else [0xA0000, 2 ^ 32 - 1])"
proof -
  have "unat (-1 :: u32) = 2 ^ 32 - 1"
    by (simp add: unsigned_minus_1_eq_mask mask_eq_exp_minus_1)
  then show ?thesis
    by (simp add: reset_peripheral_def while_dec_turns and_1_cases bit_simps del: unsigned_minus_1_eq_mask split: prod.split)
qed

text \<open>
  C31. \<open>mdelay\<close> returns only after a read of the count register above 250000 times the milliseconds, for
  every delay up to 17179 ms.
\<close>

lemma mdelay_loop_seen:
  "mdelay_loop M limit s = Some t \<Longrightarrow> (\<exists>v d. get_count M d = (v, dev t) \<and> limit < v) \<and> frame s t"
proof (rule mdelay_loop.raw_induct
    [where P = "\<lambda>M limit s t. (\<exists>v d. get_count M d = (v, dev t) \<and> limit < v) \<and> frame s t"])
  fix loop :: "'a machine \<Rightarrow> u32 \<Rightarrow> 'a sys \<Rightarrow> 'a sys option" and M' :: "'a machine" and limit :: u32 and s t :: "'a sys"
  assume IH: "\<And>M limit s t. loop M limit s = Some t \<Longrightarrow> (\<exists>v d. get_count M d = (v, dev t) \<and> limit < v) \<and> frame s t"
  assume run: "(let (k, s) = GET_COUNTER M' s in if k \<le> limit then loop M' limit s else Some s) = Some t"
  obtain k d where c: "get_count M' (dev s) = (k, d)" by (metis prod.exhaust)
  have f: "frame s (s\<lparr>dev := d\<rparr>)" by (simp add: frame_def)
  show "(\<exists>v d. get_count M' d = (v, dev t) \<and> limit < v) \<and> frame s t"
  proof (cases "k \<le> limit")
    case True
    with run c have "loop M' limit (s\<lparr>dev := d\<rparr>) = Some t" by (simp add: GET_COUNTER_def)
    from IH [OF this] show ?thesis using frame_trans [OF f] by blast
  next
    case False
    with run c have "t = s\<lparr>dev := d\<rparr>" by (simp add: GET_COUNTER_def)
    with False c f show ?thesis by auto
  qed
qed


text \<open>
  The product wraps beyond that: a delay of 17180 ms is the wait for 32704 counts, about 0.13 ms, and
  delays that differ by 2^28 ms are the same.
\<close>

theorem mdelay_wraps:
  "mdelay M 17180 s = mdelay_loop M 32704 (SET_COUNTER M 0 (SET_COMPARE M 245000000 s))
   \<and> mdelay M (msec + 2 ^ 28) s = mdelay M msec s"
proof -
  have "(250000 :: u32) * 17180 = 32704" "(250000 :: u32) * 2 ^ 28 = 0"
    by (transfer, simp)+
  then show ?thesis
    unfolding mdelay_def Let_def distrib_left by (simp only: add_0_right simp_thms)
qed

text \<open>
  C35. On a counter that advances by one per read \<open>mdelay\<close> returns for every argument, having read
  \<open>250000 * msec + 1\<close> last.
\<close>

lemma unat_add_1:
  assumes "w \<noteq> -1"
  shows "unat (w + 1 :: u32) = unat w + 1"
proof -
  have "w + 1 \<noteq> 0" using assms by (metis add_eq_0_iff2)
  then have "unat (w + 1 - 1) = unat (w + 1) - 1" "0 < unat (w + 1)"
    by (simp_all only: unat_minus_one unat_gt_0 not_False_eq_True)
  then show ?thesis by simp
qed

lemma mdelay_loop_board:
  assumes "limit \<noteq> -1" "unat (bcount (dev s)) \<le> unat limit + 1"
  shows "mdelay_loop board_machine limit s = Some (s\<lparr>dev := (dev s)\<lparr>bcount := limit + 2\<rparr>\<rparr>)"
  using assms(2)
proof (induction "unat limit + 1 - unat (bcount (dev s))" arbitrary: s)
  case 0
  then have "unat (bcount (dev s)) = unat (limit + 1)"
    by (simp add: unat_add_1 [OF assms(1)])
  then have b: "bcount (dev s) = limit + 1" by (rule word_unat_eq_iff [THEN iffD2])
  have "\<not> limit + 1 \<le> limit"
    by (simp add: word_le_nat_alt unat_add_1 [OF assms(1)])
  then show ?case
    by (subst mdelay_loop.simps) (simp add: GET_COUNTER_def b)
next
  case (Suc n)
  let ?s = "s\<lparr>dev := (dev s)\<lparr>bcount := bcount (dev s) + 1\<rparr>\<rparr>"
  have le: "bcount (dev s) \<le> limit"
    using Suc.hyps(2) by (simp add: word_le_nat_alt)
  with assms(1) have "bcount (dev s) \<noteq> -1"
    by (metis word_order.extremum_uniqueI)
  then have u: "unat (bcount (dev ?s)) = unat (bcount (dev s)) + 1"
    by (simp add: unat_add_1)
  then have "mdelay_loop board_machine limit ?s = Some (?s\<lparr>dev := (dev ?s)\<lparr>bcount := limit + 2\<rparr>\<rparr>)"
    using Suc.hyps by (intro Suc.hyps(1)) simp_all
  then show ?case
    using le by (subst mdelay_loop.simps) (simp add: GET_COUNTER_def)
qed

theorem mdelay_returns:
  "mdelay board_machine msec s = Some (s\<lparr>dev := (dev s)\<lparr>bcount := 250000 * msec + 2\<rparr>\<rparr>)"
proof -
  have "even (250000 * msec)" by (simp add: even_mult_iff)
  moreover have "odd (-1 :: u32)" by simp
  ultimately have "250000 * msec \<noteq> -1" by metis
  then show ?thesis
    using mdelay_loop_board [of "250000 * msec"]
    by (simp add: mdelay_def SET_COMPARE_def SET_COUNTER_def)
qed


subsection \<open>The baud rate divisor\<close>

text \<open>
  \<open>c_uart_init\<close> scales the divisor the boot ROM left by the ratio of the clocks, 16 for 200 MHz and 20
  otherwise: between opening and closing the divisor latch it writes the high and the low byte of exactly
  that product, for every divisor up to 3276.
\<close>

theorem c_uart_init_divisor:
  assumes "io_load M (UART1 u0) (io_store M (UART1 lcr) 0x83 (dev s)) = (v, d)" "v \<le> 3276"
  shows "\<exists>hi lo. dev (c_uart_init M s) = io_store M (UART1 lcr) 0x03 (io_store M (UART1 u0) lo (io_store M (UART1 u1) hi d))
    \<and> unat hi < 256 \<and> unat lo < 256
    \<and> 256 * unat hi + unat lo = unat v * (if gSysClock s = 200 * 1000000 then 16 else 20)"
proof -
  let ?k = "if gSysClock s = 200 * 1000000 then 16 else 20 :: nat"
  let ?q = "if 200 * 1000000 = gSysClock s then push_bit 4 (ucast v :: u16) else push_bit 4 (ucast v) + push_bit 2 (ucast v)"
  have v: "unat v \<le> 3276" using assms(2) by (simp add: word_le_nat_alt)
  have uv: "unat (ucast v :: u16) = unat v"
    using v by (simp add: unsigned_ucast_eq take_bit_nat_eq_self)
  have "?q = of_nat (unat v * ?k)"
  proof -
    have "(ucast v :: u16) = of_nat (unat v)" by simp
    then show ?thesis by (simp add: push_bit_eq_mult algebra_simps)
  qed
  then have q: "unat ?q = unat v * ?k"
    using v by (simp only: unsigned_of_nat) (simp add: take_bit_nat_eq_self)
  have hi: "unat (ucast (drop_bit 8 w AND 0xff) :: u32) = unat w div 256" for w :: u16
  proof -
    have "drop_bit 8 w AND 0xff = take_bit 8 (drop_bit 8 w)"
      by (simp add: take_bit_eq_mask mask_eq_exp_minus_1)
    moreover have "unat w div 256 < 256" using unsigned_less [where 'a = nat and w = w] by (simp add: less_mult_imp_div_less)
    ultimately show ?thesis
      by (simp add: unsigned_ucast_eq drop_bit_eq_div take_bit_eq_mod unat_div unat_mod)
  qed
  have lo: "unat (ucast (w AND 0xff) :: u32) = unat w mod 256" for w :: u16
  proof -
    have "w AND 0xff = take_bit 8 w"
      by (simp add: take_bit_eq_mask mask_eq_exp_minus_1)
    then show ?thesis
      by (simp add: unsigned_ucast_eq take_bit_eq_mod unat_mod)
  qed
  have "dev (c_uart_init M s) = io_store M (UART1 lcr) 0x03 (io_store M (UART1 u0) (ucast (?q AND 0xff))
      (io_store M (UART1 u1) (ucast (drop_bit 8 ?q AND 0xff)) d))"
    using assms(1) by (simp add: c_uart_init_def H_WR32_def H_RD32_def Let_def)
  moreover have "unat ?q < 65536" using unsigned_less [where 'a = nat and w = ?q] by simp
  moreover have "256 * (unat ?q div 256) + unat ?q mod 256 = unat ?q" by simp
  ultimately show ?thesis
    using hi [of ?q] lo [of ?q] q by (intro exI [of _ "ucast (drop_bit 8 ?q AND 0xff)"] exI [of _ "ucast (?q AND 0xff)"]) simp
qed

definition rom_board :: "board sys" where
  "rom_board = \<lparr>gChipType = 0, gSysClock = 250000000,
     dev = \<lparr>bregs = (\<lambda>a. if a = UART1 u0 then 20 else 0), bouts = [], bcount = 0\<rparr>, mem = (\<lambda>_. 0)\<rparr>"

theorem c_uart_init_divisor_witness:
  "\<exists>hi lo d. dev (c_uart_init board_machine rom_board) =
      io_store board_machine (UART1 lcr) 0x03 (io_store board_machine (UART1 u0) lo (io_store board_machine (UART1 u1) hi d))
    \<and> 256 * unat hi + unat lo = 400"
proof -
  have "io_load board_machine (UART1 u0) (io_store board_machine (UART1 lcr) 0x83 (dev rom_board)) =
      (20, (dev rom_board)\<lparr>bregs := (bregs (dev rom_board))(UART1 lcr := 0x83)\<rparr>)"
    by (simp add: rom_board_def)
  from c_uart_init_divisor [OF this] show ?thesis by (fastforce simp: rom_board_def word_le_nat_alt)
qed

end
