(* ===== verification/Pll.thy ===== *)
theory Pll
  imports Soc
begin

unbundle bit_operations_syntax

section \<open>Clocks (boot/soc\_landshark/pll\_ram.c)\<close>

text \<open>
  The five PLLs and the clock dividers. What the build chooses with \<^verbatim>\<open>-D\<close> options is an argument: the
  record \<open>config\<close>. A group of definitions per function of the file, in its order, then the interface to
  the PLL hardware that the bring-up needs and what the bring-up achieves.
\<close>

record config =
  UARTBOOT_CODE :: bool
  VCXO_SE_MODE :: nat
  DEBUG_LEVEL :: nat
  DDR_AUTO_DETECT :: bool

text \<open>\<open>SCU->r |= m\<close> and \<open>SCU->r &= ~m\<close>: a load and a store.\<close>

definition scu_set :: "'d machine \<Rightarrow> scu_reg \<Rightarrow> u32 \<Rightarrow> 'd sys \<Rightarrow> 'd sys" where
  "scu_set M r m s = rmw32 M (SCU r) (\<lambda>v. v OR m) s"

definition scu_clr :: "'d machine \<Rightarrow> scu_reg \<Rightarrow> u32 \<Rightarrow> 'd sys \<Rightarrow> 'd sys" where
  "scu_clr M r m s = rmw32 M (SCU r) (\<lambda>v. v AND NOT m) s"

definition scu_wr :: "'d machine \<Rightarrow> scu_reg \<Rightarrow> u32 \<Rightarrow> 'd sys \<Rightarrow> 'd sys" where
  "scu_wr M r v s = H_WR32 M (SCU r) v s"

subsection \<open>Bits of the PLL registers\<close>

definition PLL_FIXED_POWER_UP :: u32 where [reg_defs]: "PLL_FIXED_POWER_UP = push_bit 0 1"
definition PLL_FIXED_LOCKDETECTOR_DOWN :: u32 where [reg_defs]: "PLL_FIXED_LOCKDETECTOR_DOWN = push_bit 1 1"
definition PLL_FIXED_CALIBRATION :: u32 where [reg_defs]: "PLL_FIXED_CALIBRATION = push_bit 2 1"
definition PLL_VCXO_POWER_UP :: u32 where [reg_defs]: "PLL_VCXO_POWER_UP = push_bit 6 1"
definition PLL_VCXO_LOCKDETECTOR_DOWN :: u32 where [reg_defs]: "PLL_VCXO_LOCKDETECTOR_DOWN = push_bit 7 1"
definition PLL_VCXO_CALIBRATION :: u32 where [reg_defs]: "PLL_VCXO_CALIBRATION = push_bit 8 1"
definition PLL_VCXO_SIGMADELTA_DOWN :: u32 where [reg_defs]: "PLL_VCXO_SIGMADELTA_DOWN = push_bit 9 1"
definition PLL_GATEWAY_POWER_UP :: u32 where [reg_defs]: "PLL_GATEWAY_POWER_UP = push_bit 12 1"
definition PLL_GATEWAY_LOCKDETECTOR_DOWN :: u32 where [reg_defs]: "PLL_GATEWAY_LOCKDETECTOR_DOWN = push_bit 13 1"
definition PLL_GATEWAY_CALIBRATION :: u32 where [reg_defs]: "PLL_GATEWAY_CALIBRATION = push_bit 14 1"
definition PLL_GATEWAY_SIGMADELTA_DOWN :: u32 where [reg_defs]: "PLL_GATEWAY_SIGMADELTA_DOWN = push_bit 15 1"
definition PLL_GATEWAY_POSTDIVIDER_UP :: u32 where [reg_defs]: "PLL_GATEWAY_POSTDIVIDER_UP = push_bit 16 1"
definition PLL_BME_POWER_UP :: u32 where [reg_defs]: "PLL_BME_POWER_UP = push_bit 18 1"
definition PLL_BME_LOCKDETECTOR_DOWN :: u32 where [reg_defs]: "PLL_BME_LOCKDETECTOR_DOWN = push_bit 19 1"
definition PLL_BME_CALIBRATION :: u32 where [reg_defs]: "PLL_BME_CALIBRATION = push_bit 20 1"
definition PLL_BME_SIGMADELTA_DOWN :: u32 where [reg_defs]: "PLL_BME_SIGMADELTA_DOWN = push_bit 21 1"
definition PLL_BME_POSTDIVIDER_UP :: u32 where [reg_defs]: "PLL_BME_POSTDIVIDER_UP = push_bit 22 1"
definition PLL_DSP_POWER_UP :: u32 where [reg_defs]: "PLL_DSP_POWER_UP = push_bit 24 1"
definition PLL_DSP_LOCKDETECTOR_DOWN :: u32 where [reg_defs]: "PLL_DSP_LOCKDETECTOR_DOWN = push_bit 25 1"
definition PLL_DSP_CALIBRATION :: u32 where [reg_defs]: "PLL_DSP_CALIBRATION = push_bit 26 1"
definition PLL_DSP_POSTDIVIDER_UP :: u32 where [reg_defs]: "PLL_DSP_POSTDIVIDER_UP = push_bit 28 1"

definition ENABLE_GIGE_CLOCK :: u32 where [reg_defs]: "ENABLE_GIGE_CLOCK = push_bit 0 1"
definition ENABLE_USB_CLOCK :: u32 where [reg_defs]: "ENABLE_USB_CLOCK = push_bit 1 1"
definition ENABLE_SYN_REF_CLOCK :: u32 where [reg_defs]: "ENABLE_SYN_REF_CLOCK = push_bit 2 1"
definition ENABLE_HOST_MIPS_CLOCK :: u32 where [reg_defs]: "ENABLE_HOST_MIPS_CLOCK = push_bit 3 1"
definition ENABLE_BME_MIPS_CLOCK :: u32 where [reg_defs]: "ENABLE_BME_MIPS_CLOCK = push_bit 4 1"
definition ENABLE_DSP_CLOCK :: u32 where [reg_defs]: "ENABLE_DSP_CLOCK = push_bit 5 1"
definition ENABLE_AP_CLOCK :: u32 where [reg_defs]: "ENABLE_AP_CLOCK = push_bit 6 1"
definition ENABLE_BME_FD_CLOCK :: u32 where [reg_defs]: "ENABLE_BME_FD_CLOCK = push_bit 7 1"
definition ENABLE_SYS_CLOCK :: u32 where [reg_defs]: "ENABLE_SYS_CLOCK = push_bit 8 1"
definition ENABLE_VCXO_CLOCK :: u32 where [reg_defs]: "ENABLE_VCXO_CLOCK = push_bit 9 1"
definition ENABLE_SPI0_CLOCK :: u32 where [reg_defs]: "ENABLE_SPI0_CLOCK = push_bit 10 1"
definition ENABLE_SPI_SLOW_CLOCK :: u32 where [reg_defs]: "ENABLE_SPI_SLOW_CLOCK = push_bit 11 1"
definition BYPASS_DIV2_GATEWAY_PLL :: u32 where [reg_defs]: "BYPASS_DIV2_GATEWAY_PLL = push_bit 12 1"
definition BYPASS_DIV2_BME_PLL :: u32 where [reg_defs]: "BYPASS_DIV2_BME_PLL = push_bit 13 1"
definition BYPASS_DIV2_DSP_PLL :: u32 where [reg_defs]: "BYPASS_DIV2_DSP_PLL = push_bit 14 1"
definition BYPASS_SIGMADELTA_GATEWAY_PLL :: u32 where [reg_defs]: "BYPASS_SIGMADELTA_GATEWAY_PLL = push_bit 21 1"
definition BYPASS_SIGMADELTA_BME_PLL :: u32 where [reg_defs]: "BYPASS_SIGMADELTA_BME_PLL = push_bit 22 1"
definition BYPASS_SIGMADELTA_DSP_PLL :: u32 where [reg_defs]: "BYPASS_SIGMADELTA_DSP_PLL = push_bit 23 1"

definition PLL_STAT_CALIBRATION_DONE :: u32 where [reg_defs]: "PLL_STAT_CALIBRATION_DONE = push_bit 0 1"
definition PLL_STAT_LOCKED :: u32 where [reg_defs]: "PLL_STAT_LOCKED = push_bit 9 1"

definition SCU_CTRL_VCXO_COMMON_CLOCK :: u32 where [reg_defs]: "SCU_CTRL_VCXO_COMMON_CLOCK = push_bit 21 1"
definition SCU_RST_STRAP_AFE6_ENABLE :: u32 where [reg_defs]: "SCU_RST_STRAP_AFE6_ENABLE = push_bit 10 1"
definition SCU_RST_CAUSE_SOFT :: u32 where [reg_defs]: "SCU_RST_CAUSE_SOFT = push_bit 1 1"

definition CHIP_7175 :: u32 where [reg_defs]: "CHIP_7175 = 1"
definition CHIP_7183 :: u32 where [reg_defs]: "CHIP_7183 = 2"
definition CHIP_7173 :: u32 where [reg_defs]: "CHIP_7173 = 3"
definition CHIP_7185HP :: u32 where [reg_defs]: "CHIP_7185HP = 6"

definition pll_dump :: "config \<Rightarrow> 'd machine \<Rightarrow> 'd sys \<Rightarrow> 'd sys option" where
  "pll_dump cf M s = (if 2 < DEBUG_LEVEL cf then debugDumpVolatileReg M (SCU pll_pwr_rst) 1 s else Some s)"

subsection \<open>PLL0, fixed\<close>

definition init_pll0_fixed :: "config \<Rightarrow> 'd machine \<Rightarrow> 'd sys \<Rightarrow> 'd sys option" where
  "init_pll0_fixed cf M s = do {
     let s = scu_wr M pll_fixed_analog 0x003fc442 s;
     let s = scu_set M pll_post_divider3 (ENABLE_USB_CLOCK OR ENABLE_GIGE_CLOCK) s;
     let s = scu_clr M pll_pwr_rst (push_bit 0 0x3f) s;
     let s = scu_set M pll_pwr_rst (PLL_FIXED_CALIBRATION OR PLL_FIXED_LOCKDETECTOR_DOWN) s;
     let s = scu_set M pll_pwr_rst PLL_FIXED_POWER_UP s;
     s \<leftarrow> c_poll32_until_set M (SCU pll_fixed_status) PLL_STAT_CALIBRATION_DONE s;
     s \<leftarrow> pll_dump cf M s;
     let s = scu_clr M pll_pwr_rst (push_bit 0 0x3f) s;
     let s = scu_set M pll_pwr_rst PLL_FIXED_POWER_UP s;
     s \<leftarrow> c_poll32_until_set M (SCU pll_fixed_status) PLL_STAT_LOCKED s;
     pll_dump cf M s
   }"

subsection \<open>PLL1, gateway\<close>

definition init_pll1_gateway :: "config \<Rightarrow> 'd machine \<Rightarrow> 'd sys \<Rightarrow> 'd sys option" where
  "init_pll1_gateway cf M s = do {
     let s = scu_wr M pll_gateway_analog 0x002cc642 s;
     let s = scu_set M pll_post_divider3 BYPASS_SIGMADELTA_GATEWAY_PLL s;
     let s = scu_clr M pll_post_divider3 BYPASS_DIV2_GATEWAY_PLL s;
     let s = scu_set M pll_post_divider3 (ENABLE_SYS_CLOCK OR ENABLE_AP_CLOCK OR ENABLE_HOST_MIPS_CLOCK) s;
     let s = scu_set M pll_post_divider3 (ENABLE_SPI_SLOW_CLOCK OR ENABLE_SPI0_CLOCK) s;
     let s = scu_clr M pll_pwr_rst (push_bit 12 0x3f) s;
     let s = scu_set M pll_pwr_rst (PLL_GATEWAY_SIGMADELTA_DOWN OR PLL_GATEWAY_POSTDIVIDER_UP) s;
     let s = scu_set M pll_pwr_rst (PLL_GATEWAY_CALIBRATION OR PLL_GATEWAY_LOCKDETECTOR_DOWN) s;
     let s = scu_set M pll_pwr_rst PLL_GATEWAY_POWER_UP s;
     s \<leftarrow> c_poll32_until_set M (SCU pll_gateway_status) PLL_STAT_CALIBRATION_DONE s;
     s \<leftarrow> pll_dump cf M s;
     let s = scu_clr M pll_pwr_rst (push_bit 12 0x3f) s;
     let s = scu_set M pll_pwr_rst (PLL_GATEWAY_SIGMADELTA_DOWN OR PLL_GATEWAY_POSTDIVIDER_UP) s;
     let s = scu_set M pll_pwr_rst PLL_GATEWAY_POWER_UP s;
     s \<leftarrow> c_poll32_until_set M (SCU pll_gateway_status) PLL_STAT_LOCKED s;
     let s = c_uart_init M s;
     pll_dump cf M s
   }"

subsection \<open>PLL2, VCXO\<close>

definition init_pll2_vcxo :: "config \<Rightarrow> 'd machine \<Rightarrow> 'd sys \<Rightarrow> 'd sys option" where
  "init_pll2_vcxo cf M s = do {
     let s = scu_wr M pll_vcxo_analog (if VCXO_SE_MODE cf = 1 then 0x131cca88 else 0x001cca88) s;
     let s = scu_wr M pll_vcxo_sigmadelta 0x001654d6 s;
     let s = scu_set M pll_post_divider3 ENABLE_SYN_REF_CLOCK s;
     let s = scu_set M pll_post_divider3 ENABLE_VCXO_CLOCK s;
     let (strp, s) = H_RD32 M (SCU rst_strp) s;
     if strp AND SCU_RST_STRAP_AFE6_ENABLE \<noteq> 0 then do {
       let s = scu_clr M pll_pwr_rst (push_bit 6 0x3f) s;
       let s = scu_set M pll_pwr_rst (PLL_VCXO_CALIBRATION OR PLL_VCXO_LOCKDETECTOR_DOWN) s;
       let s = scu_set M pll_pwr_rst PLL_VCXO_POWER_UP s;
       s \<leftarrow> c_poll32_until_set M (SCU pll_vcxo_status) PLL_STAT_CALIBRATION_DONE s;
       s \<leftarrow> pll_dump cf M s;
       let s = scu_clr M pll_pwr_rst (push_bit 6 0x3f) s;
       let s = scu_set M pll_pwr_rst PLL_VCXO_POWER_UP s;
       s \<leftarrow> c_poll32_until_set M (SCU pll_vcxo_status) PLL_STAT_LOCKED s;
       pll_dump cf M s
     } else do {
       let s = scu_clr M cpu_ctl_mask SCU_CTRL_VCXO_COMMON_CLOCK s;
       let s = scu_set M cpu_ctl SCU_CTRL_VCXO_COMMON_CLOCK s;
       let s = scu_set M cpu_ctl_mask SCU_CTRL_VCXO_COMMON_CLOCK s;
       let s = scu_clr M pll_pwr_rst (push_bit 6 0x3f) s;
       let s = scu_set M pll_pwr_rst PLL_VCXO_SIGMADELTA_DOWN s;
       let s = scu_set M pll_pwr_rst PLL_VCXO_LOCKDETECTOR_DOWN s;
       Some (scu_set M pll_pwr_rst PLL_VCXO_POWER_UP s)
     }
   }"

subsection \<open>PLL3, BME\<close>

definition init_pll3_bme :: "config \<Rightarrow> 'd machine \<Rightarrow> 'd sys \<Rightarrow> 'd sys option" where
  "init_pll3_bme cf M s = do {
     let s = scu_wr M pll_bme_analog 0x002cc642 s;
     let s = scu_set M pll_post_divider3 BYPASS_SIGMADELTA_BME_PLL s;
     let s = scu_clr M pll_post_divider3 BYPASS_DIV2_BME_PLL s;
     let s = scu_set M pll_post_divider3 (ENABLE_BME_MIPS_CLOCK OR ENABLE_BME_FD_CLOCK) s;
     let s = scu_clr M pll_pwr_rst (push_bit 18 0x3f) s;
     let s = scu_set M pll_pwr_rst (PLL_BME_SIGMADELTA_DOWN OR PLL_BME_POSTDIVIDER_UP) s;
     let s = scu_set M pll_pwr_rst (PLL_BME_CALIBRATION OR PLL_BME_LOCKDETECTOR_DOWN) s;
     let s = scu_set M pll_pwr_rst PLL_BME_POWER_UP s;
     s \<leftarrow> c_poll32_until_set M (SCU pll_bme_status) PLL_STAT_CALIBRATION_DONE s;
     s \<leftarrow> pll_dump cf M s;
     let s = scu_clr M pll_pwr_rst (push_bit 18 0x3f) s;
     let s = scu_set M pll_pwr_rst (PLL_BME_SIGMADELTA_DOWN OR PLL_BME_POSTDIVIDER_UP) s;
     let s = scu_set M pll_pwr_rst PLL_BME_POWER_UP s;
     s \<leftarrow> c_poll32_until_set M (SCU pll_bme_status) PLL_STAT_LOCKED s;
     pll_dump cf M s
   }"

subsection \<open>PLL4, DSP\<close>

definition init_pll4_dsp :: "config \<Rightarrow> 'd machine \<Rightarrow> 'd sys \<Rightarrow> 'd sys option" where
  "init_pll4_dsp cf M s = do {
     let s = scu_wr M pll_dsp_analog 0x0026ce20 s;
     let s = scu_wr M pll_dsp_sigmadelta 0x00012b52 s;
     let s = scu_clr M pll_post_divider3 BYPASS_SIGMADELTA_DSP_PLL s;
     let s = scu_clr M pll_post_divider3 BYPASS_DIV2_DSP_PLL s;
     let s = scu_set M pll_post_divider3 ENABLE_DSP_CLOCK s;
     let s = scu_clr M pll_pwr_rst (push_bit 24 0x3f) s;
     let s = scu_set M pll_pwr_rst PLL_DSP_POSTDIVIDER_UP s;
     let s = scu_set M pll_pwr_rst (PLL_DSP_CALIBRATION OR PLL_DSP_LOCKDETECTOR_DOWN) s;
     let s = scu_set M pll_pwr_rst PLL_DSP_POWER_UP s;
     s \<leftarrow> c_poll32_until_set M (SCU pll_dsp_status) PLL_STAT_CALIBRATION_DONE s;
     s \<leftarrow> pll_dump cf M s;
     let s = scu_clr M pll_pwr_rst (push_bit 24 0x3f) s;
     let s = scu_set M pll_pwr_rst PLL_DSP_POSTDIVIDER_UP s;
     let s = scu_set M pll_pwr_rst PLL_DSP_POWER_UP s;
     s \<leftarrow> c_poll32_until_set M (SCU pll_dsp_status) PLL_STAT_LOCKED s;
     pll_dump cf M s
   }"

subsection \<open>init\_plls\<close>

definition scu_setup :: "'d machine \<Rightarrow> 'd sys \<Rightarrow> 'd sys" where
  "scu_setup M s =
     (let s = scu_wr M bme_map0 0xAF800000 s;
          s = scu_wr M cpu_ctl_mask 0xfffcfeff s;
          s = scu_wr M cpu_ctl 0x00020100 s;
          s = scu_wr M cpu_ctl_mask 0xffffffff s;
          s = scu_wr M rst_mask 0xC7DCF370 s;
          s = scu_wr M clkgate 0x08FFFFFC s;
          s = scu_wr M rst_vec 0x18230C8F s
      in scu_wr M por_status 0x20 s)"

definition set_dividers :: "'d machine \<Rightarrow> 'd sys \<Rightarrow> 'd sys" where
  "set_dividers M s =
     (if CHIP_7173 = gChipType s \<or> CHIP_7183 = gChipType s \<or> CHIP_7185HP = gChipType s
      then (let s = scu_wr M pll_post_divider1 0x180b6060 s;
                s = scu_wr M pll_post_divider2 0x06063033 s
            in s\<lparr>gSysClock := 200 * 1000000\<rparr>)
      else (let s = scu_wr M pll_post_divider1 0x180b6050 s;
                s = scu_wr M pll_post_divider2 0x06063022 s
            in s\<lparr>gSysClock := 250 * 1000000\<rparr>))"

definition init_plls :: "config \<Rightarrow> 'd machine \<Rightarrow> 'd sys \<Rightarrow> 'd sys option" where
  "init_plls cf M s = do {
     let s = scu_setup M s;
     let (cause, s) = H_RD32 M (SCU rst_cause) s;
     if cause AND SCU_RST_CAUSE_SOFT \<noteq> 0 then Some s
     else do {
       let s = (if CHIP_7175 = gChipType s \<or> CHIP_7185HP = gChipType s then scu_wr M spare0 0x4009 s else s);
       let s = set_dividers M s;
       s \<leftarrow> init_pll0_fixed cf M s;
       s \<leftarrow> init_pll1_gateway cf M s;
       s \<leftarrow> (if \<not> UARTBOOT_CODE cf then do {
               s \<leftarrow> init_pll2_vcxo cf M s;
               s \<leftarrow> init_pll3_bme cf M s;
               init_pll4_dsp cf M s
             } else Some s);
       if 2 < DEBUG_LEVEL cf then debugDumpRegs M SCU_BASE 64 s else Some s
     }
   }"

subsection \<open>The interface to the clock hardware\<close>

text \<open>
  How \<^verbatim>\<open>reg_scu.h\<close> documents the registers the bring-up uses: read/write, read-only, or with an effect of
  their own (\<open>Special\<close>: the set registers, the controls under a mask, and the status registers).
\<close>

datatype reg_kind = RW | RO | Special

fun scu_kind :: "scu_reg \<Rightarrow> reg_kind" where
  "scu_kind pll_pwr_rst = RW"
| "scu_kind pll_vcxo_sigmadelta = RW"
| "scu_kind pll_dsp_sigmadelta = RW"
| "scu_kind pll_post_divider1 = RW"
| "scu_kind pll_post_divider2 = RW"
| "scu_kind pll_post_divider3 = RW"
| "scu_kind pll_fixed_analog = RW"
| "scu_kind pll_vcxo_analog = RW"
| "scu_kind pll_gateway_analog = RW"
| "scu_kind pll_bme_analog = RW"
| "scu_kind pll_dsp_analog = RW"
| "scu_kind bme_map0 = RW"
| "scu_kind spare0 = RW"
| "scu_kind rst_cause = RO"
| "scu_kind rst_strp = RO"
| "scu_kind _ = Special"

datatype pll = Fixed | Vcxo | Gateway | Bme | Dsp

fun pll_bit :: "pll \<Rightarrow> nat" where
  "pll_bit Fixed = 0"
| "pll_bit Vcxo = 6"
| "pll_bit Gateway = 12"
| "pll_bit Bme = 18"
| "pll_bit Dsp = 24"

fun pll_status :: "pll \<Rightarrow> scu_reg" where
  "pll_status Fixed = pll_fixed_status"
| "pll_status Vcxo = pll_vcxo_status"
| "pll_status Gateway = pll_gateway_status"
| "pll_status Bme = pll_bme_status"
| "pll_status Dsp = pll_dsp_status"

definition calibrating :: "u32 \<Rightarrow> pll \<Rightarrow> bool" where
  "calibrating w p \<longleftrightarrow> bit w (pll_bit p) \<and> bit w (pll_bit p + 2)"

definition running :: "u32 \<Rightarrow> pll \<Rightarrow> bool" where
  "running w p \<longleftrightarrow> bit w (pll_bit p) \<and> \<not> bit w (pll_bit p + 1) \<and> \<not> bit w (pll_bit p + 2)"

text \<open>
  \<open>clock_hw\<close>: the console with the system controller beside it. \<open>reg\<close> is what the registers hold. Loads
  change no register, stores change read/write registers only, the boot UART is another device, and a PLL
  that is powered up with its calibration on ends its calibration; powered up with the calibration off
  and the lock detector on it locks.
\<close>

locale clock_hw = console M outs ready
  for M :: "'d machine" and outs ready +
  fixes reg :: "'d \<Rightarrow> scu_reg \<Rightarrow> u32"
  assumes load_val: "scu_kind r \<noteq> Special \<Longrightarrow> io_load M (SCU r) d = (v, e) \<Longrightarrow> v = reg d r"
    and load_keep: "io_load M a d = (v, e) \<Longrightarrow> reg e = reg d \<and> ready e = ready d"
    and store_scu: "in_scu r \<Longrightarrow> reg (io_store M (SCU r) v d) = (if scu_kind r = RW then (reg d)(r := v) else reg d)"
    and store_ready: "in_scu r \<Longrightarrow> ready (io_store M (SCU r) v d) = ready d"
    and store_uart: "reg (io_store M (UART1 u) v d) = reg d"
    and latch: "ready (dev s) \<Longrightarrow> ready (dev (c_uart_init M s))"
    and calibrates: "ready (dev s) \<Longrightarrow> calibrating (reg (dev s) pll_pwr_rst) p \<Longrightarrow>
      \<exists>t. c_poll32_until_set M (SCU (pll_status p)) PLL_STAT_CALIBRATION_DONE s = Some t"
    and locks: "ready (dev s) \<Longrightarrow> running (reg (dev s) pll_pwr_rst) p \<Longrightarrow>
      \<exists>t. c_poll32_until_set M (SCU (pll_status p)) PLL_STAT_LOCKED s = Some t"

text \<open>\<open>quiet\<close>: no register of the system controller has changed, and the console is ready.\<close>

definition quiet :: "('d \<Rightarrow> bool) \<Rightarrow> ('d \<Rightarrow> scu_reg \<Rightarrow> u32) \<Rightarrow> 'd sys \<Rightarrow> 'd sys \<Rightarrow> bool" where
  "quiet ready reg s t \<longleftrightarrow> frame s t \<and> ready (dev t) \<and> reg (dev t) = reg (dev s)"

lemma quiet_trans [trans]: "quiet ready reg s t \<Longrightarrow> quiet ready reg t u \<Longrightarrow> quiet ready reg s u"
  by (auto simp: quiet_def intro: frame_trans)

lemma quietD: "quiet ready reg s t \<Longrightarrow> ready (dev t)"
  by (simp add: quiet_def)

context clock_hw
begin

lemma poll_keep:
  assumes "c_poll32_until_set M a m s = Some t" "ready (dev s)"
  shows "quiet ready reg s t"
  using c_poll32_until_set_inv [OF assms(1), of reg] c_poll32_until_set_inv [OF assms(1), of ready]
    c_poll32_until_set_frame [OF assms(1)] load_keep assms(2) by (auto simp: quiet_def)

lemma put_char_quiet:
  assumes "ready (dev s)"
  obtains t where "c_put_char M c s = Some t" "quiet ready reg s t"
proof -
  obtain t where t: "c_put_char M c s = Some t" "ready (dev t)"
    using put_charE [OF assms] by blast
  then obtain s1 where p: "c_poll32_until_set M (UART1 lsr) UART_LSR_BITMASK_THRE s = Some s1"
    and e: "t = H_WR32 M (UART1 u0) (scast c) s1"
    by (auto simp: c_put_char_def bind_eq_Some_conv)
  have "quiet ready reg s s1" by (rule poll_keep [OF p assms])
  then have "quiet ready reg s t"
    using t c_put_char_frame [OF t(1)] by (simp add: quiet_def e H_WR32_def store_uart)
  with t that show ?thesis by blast
qed

lemma put_str_quiet:
  assumes "ready (dev s)"
  obtains t where "c_put_str M cs s = Some t" "quiet ready reg s t"
proof -
  have "ready (dev s) \<Longrightarrow> \<exists>t. c_put_str M cs s = Some t \<and> quiet ready reg s t" for cs
  proof (induction cs arbitrary: s)
    case Nil
    then show ?case by (simp add: quiet_def)
  next
    case (Cons c cs)
    show ?case
    proof (cases "c = 0")
      case True
      then show ?thesis using Cons.prems by (simp add: quiet_def)
    next
      case False
      obtain t where t: "c_put_char M c s = Some t" "quiet ready reg s t"
        using put_char_quiet Cons.prems by blast
      obtain u where "c_put_str M cs t = Some u" "quiet ready reg t u"
        using Cons.IH quietD [OF t(2)] by blast
      with t False show ?thesis by (auto intro: quiet_trans)
    qed
  qed
  then show ?thesis using assms that by blast
qed

lemma put_hex32_quiet:
  assumes "ready (dev s)"
  obtains t where "c_put_hex32 M v s = Some t" "quiet ready reg s t"
proof -
  obtain t where t: "c_put_hex16 M (ucast (drop_bit 16 v)) s = Some t" "quiet ready reg s t"
    using put_str_quiet [OF assms] unfolding c_put_hex16_chars by blast
  obtain u where "c_put_hex16 M (ucast v) t = Some u" "quiet ready reg t u"
    using put_str_quiet [OF quietD [OF t(2)]] unfolding c_put_hex16_chars by blast
  with t that show ?thesis by (auto simp: c_put_hex32_def intro: quiet_trans)
qed

lemma load_quiet:
  assumes "ready (dev s)"
  obtains v t where "H_RD32 M a s = (v, t)" "quiet ready reg s t"
proof -
  obtain v e where l: "io_load M a (dev s) = (v, e)" by (metis prod.exhaust)
  then have "H_RD32 M a s = (v, s\<lparr>dev := e\<rparr>)" by (simp add: H_RD32_def)
  then show ?thesis
    using that load_keep [OF l] assms by (auto simp: quiet_def frame_def)
qed

lemma dump_quiet:
  assumes "ready (dev s)"
  obtains t where "pll_dump cf M s = Some t" "quiet ready reg s t"
proof (cases "2 < DEBUG_LEVEL cf")
  case False
  then show ?thesis using that assms by (simp add: pll_dump_def quiet_def)
next
  case True
  let ?a = "SCU pll_pwr_rst"
  obtain v0 s0 where 0: "H_RD32 M ?a s = (v0, s0)" "quiet ready reg s s0" using load_quiet assms by blast
  obtain s1 where 1: "c_put_str M (str [CHR 0x0D, CHR 0x0A, CHR '' '', CHR '' '']) s0 = Some s1" "quiet ready reg s0 s1"
    using put_str_quiet quietD [OF 0(2)] by blast
  obtain s2 where 2: "c_put_char M (of_char (CHR ''['')) s1 = Some s2" "quiet ready reg s1 s2"
    using put_char_quiet quietD [OF 1(2)] by blast
  obtain s3 where 3: "c_put_hex32 M ?a s2 = Some s3" "quiet ready reg s2 s3"
    using put_hex32_quiet quietD [OF 2(2)] by blast
  obtain s4 where 4: "c_put_char M (of_char (CHR '']'')) s3 = Some s4" "quiet ready reg s3 s4"
    using put_char_quiet quietD [OF 3(2)] by blast
  obtain s5 where 5: "c_put_hex32 M v0 s4 = Some s5" "quiet ready reg s4 s5"
    using put_hex32_quiet quietD [OF 4(2)] by blast
  obtain s6 where 6: "c_put_char M (of_char (CHR ''-'')) s5 = Some s6" "quiet ready reg s5 s6"
    using put_char_quiet quietD [OF 5(2)] by blast
  obtain v7 s7 where 7: "H_RD32 M ?a s6 = (v7, s7)" "quiet ready reg s6 s7" using load_quiet quietD [OF 6(2)] by blast
  obtain s8 where 8: "c_put_hex32 M v7 s7 = Some s8" "quiet ready reg s7 s8"
    using put_hex32_quiet quietD [OF 7(2)] by blast
  have "pll_dump cf M s = Some s8"
    using True by (simp add: pll_dump_def debugDumpVolatileReg_def 0 1 2 [simplified] 3 4 [simplified] 5 6 [simplified] 7 8)
  moreover have "quiet ready reg s s8"
    by (rule quiet_trans [OF 0(2) quiet_trans [OF 1(2) quiet_trans [OF 2(2) quiet_trans [OF 3(2)
      quiet_trans [OF 4(2) quiet_trans [OF 5(2) quiet_trans [OF 6(2) quiet_trans [OF 7(2) 8(2)]]]]]]]])
  ultimately show ?thesis using that by blast
qed

text \<open>The register accesses of the bring-up, on the contents of the registers.\<close>

lemma load_dev: "reg (snd (io_load M a d)) = reg d \<and> ready (snd (io_load M a d)) = ready d"
  using load_keep by (metis prod.collapse)

lemma load_fst: "scu_kind r \<noteq> Special \<Longrightarrow> fst (io_load M (SCU r) d) = reg d r"
  using load_val by (metis prod.collapse)

lemma scu_reg_simps [simp]:
  "in_scu r \<Longrightarrow> reg (dev (scu_wr M r v s)) = (if scu_kind r = RW then (reg (dev s))(r := v) else reg (dev s))"
  "in_scu r \<Longrightarrow> reg (dev (scu_set M r v s)) = (if scu_kind r = RW then (reg (dev s))(r := reg (dev s) r OR v) else reg (dev s))"
  "in_scu r \<Longrightarrow> reg (dev (scu_clr M r v s)) = (if scu_kind r = RW then (reg (dev s))(r := reg (dev s) r AND NOT v) else reg (dev s))"
  "in_scu r \<Longrightarrow> ready (dev (scu_wr M r v s)) = ready (dev s)" "in_scu r \<Longrightarrow> ready (dev (scu_set M r v s)) = ready (dev s)"
  "in_scu r \<Longrightarrow> ready (dev (scu_clr M r v s)) = ready (dev s)"
  using load_dev [of "SCU r" "dev s"] load_fst [of r "dev s"]
  by (auto simp: scu_wr_def scu_set_def scu_clr_def rmw32_def H_RD32_def H_WR32_def store_scu store_ready split: prod.splits)

lemma uart_init_reg [simp]:
  "reg (dev (c_uart_init M s)) = reg (dev s)" "ready (dev s) \<Longrightarrow> ready (dev (c_uart_init M s))"
proof -
  show "reg (dev (c_uart_init M s)) = reg (dev s)"
    using load_dev [of "UART1 u0" "io_store M (UART1 lcr) 0x83 (dev s)"]
    by (auto simp: c_uart_init_def H_RD32_def H_WR32_def Let_def store_uart split: prod.splits)
qed (rule latch)

lemma calE:
  assumes "ready (dev s)" "calibrating (reg (dev s) pll_pwr_rst) p"
  obtains t u where "c_poll32_until_set M (SCU (pll_status p)) PLL_STAT_CALIBRATION_DONE s = Some t"
    "pll_dump cf M t = Some u" "quiet ready reg s u"
proof -
  obtain t where t: "c_poll32_until_set M (SCU (pll_status p)) PLL_STAT_CALIBRATION_DONE s = Some t"
    using calibrates [OF assms] by blast
  have q: "quiet ready reg s t" by (rule poll_keep [OF t assms(1)])
  obtain u where "pll_dump cf M t = Some u" "quiet ready reg t u"
    using dump_quiet quietD [OF q] by blast
  with t q that show ?thesis by (blast intro: quiet_trans)
qed

lemma lockE:
  assumes "ready (dev s)" "running (reg (dev s) pll_pwr_rst) p"
  obtains t where "c_poll32_until_set M (SCU (pll_status p)) PLL_STAT_LOCKED s = Some t" "quiet ready reg s t"
  using locks [OF assms] poll_keep assms(1) by blast

end

lemma scu_frame [simp]:
  "frame s (scu_wr M r v t) \<longleftrightarrow> frame s t" "frame s (scu_set M r v t) \<longleftrightarrow> frame s t"
  "frame s (scu_clr M r v t) \<longleftrightarrow> frame s t" "frame s (c_uart_init M t) \<longleftrightarrow> frame s t"
  by (auto simp: c_uart_init_def scu_wr_def scu_set_def scu_clr_def rmw32_def H_RD32_def H_WR32_def Let_def frame_def
      split: prod.splits)

text \<open>Clearing a field that has been filled gives the cleared field again.\<close>

lemma refill:
  assumes "a AND NOT f = 0"
  shows "((w :: u32) AND NOT f OR a) AND NOT f = w AND NOT f"
  using assms by (simp add: bit.conj_disj_distrib2 and.assoc)

lemmas pll_fields = calibrating_def running_def reg_defs

context clock_hw
begin

lemma pll0_up:
  assumes r: "ready (dev s)"
  shows "\<exists>t. init_pll0_fixed cf M s = Some t \<and> ready (dev t) \<and> frame s t \<and> reg (dev t) = (reg (dev s))
    (pll_fixed_analog := 0x003fc442, pll_post_divider3 := reg (dev s) pll_post_divider3 OR 0x3,
     pll_pwr_rst := reg (dev s) pll_pwr_rst AND NOT 0x3f OR 0x1)"
proof -
  let ?w = "reg (dev s) pll_pwr_rst"
  define s1 where "s1 = scu_set M pll_pwr_rst PLL_FIXED_POWER_UP (scu_set M pll_pwr_rst
     (PLL_FIXED_CALIBRATION OR PLL_FIXED_LOCKDETECTOR_DOWN) (scu_clr M pll_pwr_rst (push_bit 0 0x3f)
     (scu_set M pll_post_divider3 (ENABLE_USB_CLOCK OR ENABLE_GIGE_CLOCK) (scu_wr M pll_fixed_analog 0x003fc442 s))))"
  have s1: "ready (dev s1)" "reg (dev s1) = (reg (dev s)) (pll_fixed_analog := 0x003fc442,
      pll_post_divider3 := reg (dev s) pll_post_divider3 OR 0x3, pll_pwr_rst := ?w AND NOT 0x3f OR 0x7)" "frame s s1"
    using r by (simp_all add: s1_def reg_defs or.assoc)
  obtain a b where A: "c_poll32_until_set M (SCU (pll_status Fixed)) PLL_STAT_CALIBRATION_DONE s1 = Some a"
    "pll_dump cf M a = Some b" "quiet ready reg s1 b"
    using calE [of s1 Fixed] s1 by (auto simp: pll_fields bit_simps)
  define s2 where "s2 = scu_set M pll_pwr_rst PLL_FIXED_POWER_UP (scu_clr M pll_pwr_rst (push_bit 0 0x3f) b)"
  have s2: "ready (dev s2)" "reg (dev s2) = (reg (dev s1)) (pll_pwr_rst := ?w AND NOT 0x3f OR 0x1)" "frame s s2"
    using A(3) s1 refill [of 7 "0x3f" ?w] by (auto simp: s2_def reg_defs quiet_def intro: frame_trans)
  obtain c where C: "c_poll32_until_set M (SCU (pll_status Fixed)) PLL_STAT_LOCKED s2 = Some c" "quiet ready reg s2 c"
    using lockE [of s2 Fixed] s2 by (auto simp: pll_fields bit_simps)
  obtain t where t: "pll_dump cf M c = Some t" "quiet ready reg c t"
    using dump_quiet quietD [OF C(2)] by blast
  have "init_pll0_fixed cf M s = Some t"
    using A(1,2) C(1) t(1) by (simp add: init_pll0_fixed_def s1_def s2_def)
  then show ?thesis
    using s1 s2 quiet_trans [OF C(2) t(2)] by (auto simp: quiet_def intro: frame_trans)
qed

lemma pll1_up:
  assumes r: "ready (dev s)"
  shows "\<exists>t. init_pll1_gateway cf M s = Some t \<and> ready (dev t) \<and> frame s t \<and> reg (dev t) = (reg (dev s))
    (pll_gateway_analog := 0x002cc642, pll_post_divider3 := (reg (dev s) pll_post_divider3 OR 0x200000) AND NOT 0x1000 OR 0xD48,
     pll_pwr_rst := reg (dev s) pll_pwr_rst AND NOT 0x3f000 OR 0x19000)"
proof -
  let ?w = "reg (dev s) pll_pwr_rst"
  define s1 where "s1 = scu_set M pll_pwr_rst PLL_GATEWAY_POWER_UP (scu_set M pll_pwr_rst (PLL_GATEWAY_CALIBRATION OR PLL_GATEWAY_LOCKDETECTOR_DOWN) (scu_set M pll_pwr_rst (PLL_GATEWAY_SIGMADELTA_DOWN OR PLL_GATEWAY_POSTDIVIDER_UP) (scu_clr M pll_pwr_rst (push_bit 12 0x3f) (scu_set M pll_post_divider3 (ENABLE_SPI_SLOW_CLOCK OR ENABLE_SPI0_CLOCK) (scu_set M pll_post_divider3 (ENABLE_SYS_CLOCK OR ENABLE_AP_CLOCK OR ENABLE_HOST_MIPS_CLOCK) (scu_clr M pll_post_divider3 BYPASS_DIV2_GATEWAY_PLL (scu_set M pll_post_divider3 BYPASS_SIGMADELTA_GATEWAY_PLL (scu_wr M pll_gateway_analog 0x002cc642 s))))))))"
  have s1: "ready (dev s1)" "reg (dev s1) = (reg (dev s)) (pll_gateway_analog := 0x002cc642, pll_post_divider3 := (reg (dev s) pll_post_divider3 OR 0x200000) AND NOT 0x1000 OR 0xD48, pll_pwr_rst := ?w AND NOT 0x3f000 OR 0x1f000)" "frame s s1"
    using r by (simp_all add: s1_def reg_defs or.assoc and.assoc fun_upd_twist)
  obtain a b where A: "c_poll32_until_set M (SCU (pll_status Gateway)) PLL_STAT_CALIBRATION_DONE s1 = Some a"
    "pll_dump cf M a = Some b" "quiet ready reg s1 b"
    using calE [of s1 Gateway] s1 by (auto simp: pll_fields bit_simps)
  define s2 where "s2 = scu_set M pll_pwr_rst PLL_GATEWAY_POWER_UP (scu_set M pll_pwr_rst (PLL_GATEWAY_SIGMADELTA_DOWN OR PLL_GATEWAY_POSTDIVIDER_UP) (scu_clr M pll_pwr_rst (push_bit 12 0x3f) b))"
  have s2: "ready (dev s2)" "reg (dev s2) = (reg (dev s1)) (pll_pwr_rst := ?w AND NOT 0x3f000 OR 0x19000)" "frame s s2"
    using A(3) s1 refill [of "0x1f000" "0x3f000" ?w] by (auto simp: s2_def reg_defs or.assoc quiet_def intro: frame_trans)
  obtain c where C: "c_poll32_until_set M (SCU (pll_status Gateway)) PLL_STAT_LOCKED s2 = Some c" "quiet ready reg s2 c"
    using lockE [of s2 Gateway] s2 by (auto simp: pll_fields bit_simps)
  have U: "quiet ready reg s2 (c_uart_init M c)" using C(2) by (simp add: quiet_def)
  obtain t where t: "pll_dump cf M (c_uart_init M c) = Some t" "quiet ready reg (c_uart_init M c) t"
    using dump_quiet quietD [OF U] by blast
  have "init_pll1_gateway cf M s = Some t"
    using A(1,2) C(1) t(1) by (simp add: init_pll1_gateway_def s1_def s2_def)
  then show ?thesis
    using s1 s2 quiet_trans [OF U t(2)] by (auto simp: quiet_def intro: frame_trans)
qed

lemma pll3_up:
  assumes r: "ready (dev s)"
  shows "\<exists>t. init_pll3_bme cf M s = Some t \<and> ready (dev t) \<and> frame s t \<and> reg (dev t) = (reg (dev s))
    (pll_bme_analog := 0x002cc642, pll_post_divider3 := (reg (dev s) pll_post_divider3 OR 0x400000) AND NOT 0x2000 OR 0x90,
     pll_pwr_rst := reg (dev s) pll_pwr_rst AND NOT 0xfc0000 OR 0x640000)"
proof -
  let ?w = "reg (dev s) pll_pwr_rst"
  define s1 where "s1 = scu_set M pll_pwr_rst PLL_BME_POWER_UP (scu_set M pll_pwr_rst (PLL_BME_CALIBRATION OR PLL_BME_LOCKDETECTOR_DOWN) (scu_set M pll_pwr_rst (PLL_BME_SIGMADELTA_DOWN OR PLL_BME_POSTDIVIDER_UP) (scu_clr M pll_pwr_rst (push_bit 18 0x3f) (scu_set M pll_post_divider3 (ENABLE_BME_MIPS_CLOCK OR ENABLE_BME_FD_CLOCK) (scu_clr M pll_post_divider3 BYPASS_DIV2_BME_PLL (scu_set M pll_post_divider3 BYPASS_SIGMADELTA_BME_PLL (scu_wr M pll_bme_analog 0x002cc642 s)))))))"
  have s1: "ready (dev s1)" "reg (dev s1) = (reg (dev s)) (pll_bme_analog := 0x002cc642, pll_post_divider3 := (reg (dev s) pll_post_divider3 OR 0x400000) AND NOT 0x2000 OR 0x90, pll_pwr_rst := ?w AND NOT 0xfc0000 OR 0x7c0000)" "frame s s1"
    using r by (simp_all add: s1_def reg_defs or.assoc and.assoc fun_upd_twist)
  obtain a b where A: "c_poll32_until_set M (SCU (pll_status Bme)) PLL_STAT_CALIBRATION_DONE s1 = Some a"
    "pll_dump cf M a = Some b" "quiet ready reg s1 b"
    using calE [of s1 Bme] s1 by (auto simp: pll_fields bit_simps)
  define s2 where "s2 = scu_set M pll_pwr_rst PLL_BME_POWER_UP (scu_set M pll_pwr_rst (PLL_BME_SIGMADELTA_DOWN OR PLL_BME_POSTDIVIDER_UP) (scu_clr M pll_pwr_rst (push_bit 18 0x3f) b))"
  have s2: "ready (dev s2)" "reg (dev s2) = (reg (dev s1)) (pll_pwr_rst := ?w AND NOT 0xfc0000 OR 0x640000)" "frame s s2"
    using A(3) s1 refill [of "0x7c0000" "0xfc0000" ?w] by (auto simp: s2_def reg_defs or.assoc quiet_def intro: frame_trans)
  obtain c where C: "c_poll32_until_set M (SCU (pll_status Bme)) PLL_STAT_LOCKED s2 = Some c" "quiet ready reg s2 c"
    using lockE [of s2 Bme] s2 by (auto simp: pll_fields bit_simps)
  obtain t where t: "pll_dump cf M c = Some t" "quiet ready reg c t"
    using dump_quiet quietD [OF C(2)] by blast
  have "init_pll3_bme cf M s = Some t"
    using A(1,2) C(1) t(1) by (simp add: init_pll3_bme_def s1_def s2_def)
  then show ?thesis
    using s1 s2 quiet_trans [OF C(2) t(2)] by (auto simp: quiet_def intro: frame_trans)
qed

lemma pll4_up:
  assumes r: "ready (dev s)"
  shows "\<exists>t. init_pll4_dsp cf M s = Some t \<and> ready (dev t) \<and> frame s t \<and> reg (dev t) = (reg (dev s))
    (pll_dsp_analog := 0x0026ce20, pll_dsp_sigmadelta := 0x00012b52,
     pll_post_divider3 := reg (dev s) pll_post_divider3 AND NOT 0x804000 OR 0x20,
     pll_pwr_rst := reg (dev s) pll_pwr_rst AND NOT 0x3f000000 OR 0x11000000)"
proof -
  let ?w = "reg (dev s) pll_pwr_rst"
  define s1 where "s1 = scu_set M pll_pwr_rst PLL_DSP_POWER_UP (scu_set M pll_pwr_rst (PLL_DSP_CALIBRATION OR PLL_DSP_LOCKDETECTOR_DOWN) (scu_set M pll_pwr_rst PLL_DSP_POSTDIVIDER_UP (scu_clr M pll_pwr_rst (push_bit 24 0x3f) (scu_set M pll_post_divider3 ENABLE_DSP_CLOCK (scu_clr M pll_post_divider3 BYPASS_DIV2_DSP_PLL (scu_clr M pll_post_divider3 BYPASS_SIGMADELTA_DSP_PLL (scu_wr M pll_dsp_sigmadelta 0x00012b52 (scu_wr M pll_dsp_analog 0x0026ce20 s))))))))"
  have s1: "ready (dev s1)" "reg (dev s1) = (reg (dev s)) (pll_dsp_analog := 0x0026ce20, pll_dsp_sigmadelta := 0x00012b52,
     pll_post_divider3 := reg (dev s) pll_post_divider3 AND NOT 0x804000 OR 0x20, pll_pwr_rst := ?w AND NOT 0x3f000000 OR 0x17000000)" "frame s s1"
    using r by (simp_all add: s1_def reg_defs or.assoc and.assoc fun_upd_twist)
  obtain a b where A: "c_poll32_until_set M (SCU (pll_status Dsp)) PLL_STAT_CALIBRATION_DONE s1 = Some a"
    "pll_dump cf M a = Some b" "quiet ready reg s1 b"
    using calE [of s1 Dsp] s1 by (auto simp: pll_fields bit_simps)
  define s2 where "s2 = scu_set M pll_pwr_rst PLL_DSP_POWER_UP (scu_set M pll_pwr_rst PLL_DSP_POSTDIVIDER_UP (scu_clr M pll_pwr_rst (push_bit 24 0x3f) b))"
  have s2: "ready (dev s2)" "reg (dev s2) = (reg (dev s1)) (pll_pwr_rst := ?w AND NOT 0x3f000000 OR 0x11000000)" "frame s s2"
    using A(3) s1 refill [of "0x17000000" "0x3f000000" ?w] by (auto simp: s2_def reg_defs or.assoc quiet_def intro: frame_trans)
  obtain c where C: "c_poll32_until_set M (SCU (pll_status Dsp)) PLL_STAT_LOCKED s2 = Some c" "quiet ready reg s2 c"
    using lockE [of s2 Dsp] s2 by (auto simp: pll_fields bit_simps)
  obtain t where t: "pll_dump cf M c = Some t" "quiet ready reg c t"
    using dump_quiet quietD [OF C(2)] by blast
  have "init_pll4_dsp cf M s = Some t"
    using A(1,2) C(1) t(1) by (simp add: init_pll4_dsp_def s1_def s2_def)
  then show ?thesis
    using s1 s2 quiet_trans [OF C(2) t(2)] by (auto simp: quiet_def intro: frame_trans)
qed

lemma pll2_up:
  assumes r: "ready (dev s)"
  shows "\<exists>t. init_pll2_vcxo cf M s = Some t \<and> ready (dev t) \<and> frame s t \<and> reg (dev t) = (reg (dev s))
    (pll_vcxo_analog := (if VCXO_SE_MODE cf = 1 then 0x131cca88 else 0x001cca88), pll_vcxo_sigmadelta := 0x001654d6,
     pll_post_divider3 := reg (dev s) pll_post_divider3 OR 0x204,
     pll_pwr_rst := reg (dev s) pll_pwr_rst AND NOT 0xfc0 OR (if bit (reg (dev s) rst_strp) 10 then 0x40 else 0x2c0))"
proof -
  let ?w = "reg (dev s) pll_pwr_rst"
  define s0 where "s0 = scu_set M pll_post_divider3 ENABLE_VCXO_CLOCK (scu_set M pll_post_divider3 ENABLE_SYN_REF_CLOCK
     (scu_wr M pll_vcxo_sigmadelta 0x001654d6 (scu_wr M pll_vcxo_analog (if VCXO_SE_MODE cf = 1 then 0x131cca88 else 0x001cca88) s)))"
  let ?r = "(reg (dev s)) (pll_vcxo_analog := (if VCXO_SE_MODE cf = 1 then 0x131cca88 else 0x001cca88),
     pll_vcxo_sigmadelta := 0x001654d6, pll_post_divider3 := reg (dev s) pll_post_divider3 OR 0x204)"
  have s0: "ready (dev s0)" "reg (dev s0) = ?r" "frame s s0"
    using r by (simp_all add: s0_def reg_defs or.assoc fun_upd_twist)
  obtain v z where "H_RD32 M (SCU rst_strp) s0 = (v, z)" "quiet ready reg s0 z"
    using load_quiet s0 by blast
  moreover from this have v: "v = reg (dev s) rst_strp"
    using load_fst [of rst_strp "dev s0"] s0 by (auto simp: H_RD32_def split: prod.splits)
  ultimately have z: "H_RD32 M (SCU rst_strp) s0 = (reg (dev s) rst_strp, z)" "ready (dev z)" "reg (dev z) = ?r" "frame s z"
    using s0 by (auto simp: quiet_def intro: frame_trans)
  show ?thesis
  proof (cases "bit (reg (dev s) rst_strp) 10")
    case False
    then have "reg (dev s) rst_strp AND SCU_RST_STRAP_AFE6_ENABLE = 0"
      by (simp add: SCU_RST_STRAP_AFE6_ENABLE_def and_single_bit_0_iff del: push_bit_of_1)
    then show ?thesis
      using z False s0_def by (simp add: init_pll2_vcxo_def reg_defs or.assoc)
  next
    case True
    then have strp: "reg (dev s) rst_strp AND SCU_RST_STRAP_AFE6_ENABLE \<noteq> 0"
      by (simp add: SCU_RST_STRAP_AFE6_ENABLE_def and_single_bit_iff del: push_bit_of_1)
    define s1 where "s1 = scu_set M pll_pwr_rst PLL_VCXO_POWER_UP (scu_set M pll_pwr_rst (PLL_VCXO_CALIBRATION OR PLL_VCXO_LOCKDETECTOR_DOWN) (scu_clr M pll_pwr_rst (push_bit 6 0x3f) z))"
    have s1: "ready (dev s1)" "reg (dev s1) = ?r (pll_pwr_rst := ?w AND NOT 0xfc0 OR 0x1c0)" "frame s s1"
      using z by (simp_all add: s1_def reg_defs or.assoc)
    obtain a b where A: "c_poll32_until_set M (SCU (pll_status Vcxo)) PLL_STAT_CALIBRATION_DONE s1 = Some a"
      "pll_dump cf M a = Some b" "quiet ready reg s1 b"
      using calE [of s1 Vcxo] s1 by (auto simp: pll_fields bit_simps)
    define s2 where "s2 = scu_set M pll_pwr_rst PLL_VCXO_POWER_UP (scu_clr M pll_pwr_rst (push_bit 6 0x3f) b)"
    have s2: "ready (dev s2)" "reg (dev s2) = ?r (pll_pwr_rst := ?w AND NOT 0xfc0 OR 0x40)" "frame s s2"
      using A(3) s1 refill [of "0x1c0" "0xfc0" ?w] by (auto simp: s2_def reg_defs or.assoc quiet_def intro: frame_trans)
    obtain c where C: "c_poll32_until_set M (SCU (pll_status Vcxo)) PLL_STAT_LOCKED s2 = Some c" "quiet ready reg s2 c"
      using lockE [of s2 Vcxo] s2 by (auto simp: pll_fields bit_simps)
    obtain t where t: "pll_dump cf M c = Some t" "quiet ready reg c t"
      using dump_quiet quietD [OF C(2)] by blast
    have "init_pll2_vcxo cf M s = Some t"
      using A(1,2) C(1) t(1) z(1) strp by (simp add: init_pll2_vcxo_def s0_def s1_def s2_def)
    then show ?thesis
      using s1 s2 True quiet_trans [OF C(2) t(2)] by (auto simp: quiet_def intro: frame_trans)
  qed
qed

end

context clock_hw
begin

lemma dump_regs_quiet:
  assumes "ready (dev s)"
  obtains t where "debugDumpRegs M base 64 s = Some t" "quiet ready reg s t"
proof -
  have "unat i + 4 * n = 256 \<Longrightarrow> ready (dev s) \<Longrightarrow> \<exists>t. debugDumpRegs_loop M base 64 i s = Some t \<and> quiet ready reg s t" for n i
  proof (induction n arbitrary: i s)
    case 0
    then have "\<not> i < 64 * 4" by (simp add: word_less_nat_alt)
    then show ?case
      using 0 by (subst debugDumpRegs_loop.simps) (simp add: quiet_def)
  next
    case (Suc n)
    then have lt: "i < 64 * 4" by (simp add: word_less_nat_alt)
    have u: "unat (i + 4) = unat i + 4"
      using Suc.prems by (subst unat_add_lem [THEN iffD1]) simp_all
    obtain a where a: "(if 0 = i AND 0xf then do {
               s \<leftarrow> c_put_str M (str [CHR 0x0D, CHR 0x0A]) s;
               s \<leftarrow> c_put_hex32 M (base + i) s;
               c_put_char M (of_char (CHR '':'')) s
             } else Some s) = Some a" "quiet ready reg s a"
    proof (cases "0 = i AND 0xf")
      case True
      obtain b where b: "c_put_str M (str [CHR 0x0D, CHR 0x0A]) s = Some b" "quiet ready reg s b"
        using put_str_quiet Suc.prems by blast
      obtain c where c: "c_put_hex32 M (base + i) b = Some c" "quiet ready reg b c"
        using put_hex32_quiet quietD [OF b(2)] by blast
      obtain d where d: "c_put_char M (of_char (CHR '':'')) c = Some d" "quiet ready reg c d"
        using put_char_quiet quietD [OF c(2)] by blast
      show ?thesis
        using that [of d] True b c d [simplified] quiet_trans [OF b(2) quiet_trans [OF c(2) d(2)]] by simp
    next
      case False
      then show ?thesis using that [of s] Suc.prems by (simp add: quiet_def)
    qed
    obtain e where e: "c_put_char M (of_char (CHR '' '')) a = Some e" "quiet ready reg a e"
      using put_char_quiet quietD [OF a(2)] by blast
    obtain v f where f: "H_RD32 M (base + i) e = (v, f)" "quiet ready reg e f"
      using load_quiet quietD [OF e(2)] by blast
    obtain g where g: "c_put_hex16 M (ucast (drop_bit 16 v)) f = Some g" "quiet ready reg f g"
      using put_str_quiet quietD [OF f(2)] unfolding c_put_hex16_chars by blast
    obtain w h where h: "H_RD32 M (base + i) g = (w, h)" "quiet ready reg g h"
      using load_quiet quietD [OF g(2)] by blast
    obtain j where j: "c_put_hex16 M (ucast w) h = Some j" "quiet ready reg h j"
      using put_str_quiet quietD [OF h(2)] unfolding c_put_hex16_chars by blast
    obtain t where t: "debugDumpRegs_loop M base 64 (i + 4) j = Some t" "quiet ready reg j t"
      using Suc.IH [of "i + 4" j] Suc.prems u quietD [OF j(2)] by auto
    have "debugDumpRegs_loop M base 64 i s = Some t"
      using lt by (subst debugDumpRegs_loop.simps) (simp add: a(1) [simplified] e(1) [simplified] f g(1) h j(1) t(1))
    moreover have "quiet ready reg s t"
      by (rule quiet_trans [OF a(2) quiet_trans [OF e(2) quiet_trans [OF f(2) quiet_trans [OF g(2)
        quiet_trans [OF h(2) quiet_trans [OF j(2) t(2)]]]]]])
    ultimately show ?case by blast
  qed
  from this [of 0 64] show ?thesis
    using that assms by (auto simp: debugDumpRegs_def)
qed

end

text \<open>The clocks the dividers give, in Hz, from the formulas at the head of \<^verbatim>\<open>pll_ram.c\<close>.\<close>

definition PLL_PD1_BME_FEEDBACK_DIV_MSK :: u32 where [reg_defs]: "PLL_PD1_BME_FEEDBACK_DIV_MSK = push_bit 8 0xff"
definition PLL_PD1_GATEWAY_FEEDBACK_DIV_MSK :: u32 where [reg_defs]: "PLL_PD1_GATEWAY_FEEDBACK_DIV_MSK = push_bit 0 0xff"
definition PLL_PD1_FD_PD2_MSK :: u32 where [reg_defs]: "PLL_PD1_FD_PD2_MSK = push_bit 22 0x03"
definition PLL_PD1_BME_PD2_MSK :: u32 where [reg_defs]: "PLL_PD1_BME_PD2_MSK = push_bit 20 0x03"
definition PLL_PD1_FD_PD1_MSK :: u32 where [reg_defs]: "PLL_PD1_FD_PD1_MSK = push_bit 16 0x0f"
definition PLL_PD1_BME_PD1_MSK :: u32 where [reg_defs]: "PLL_PD1_BME_PD1_MSK = push_bit 12 0x0f"
definition PLL_PD1_AP_SYS_PD2_MSK :: u32 where [reg_defs]: "PLL_PD1_AP_SYS_PD2_MSK = push_bit 10 0x03"
definition PLL_PD1_HOST_PD2_MSK :: u32 where [reg_defs]: "PLL_PD1_HOST_PD2_MSK = push_bit 8 0x03"
definition PLL_PD1_AP_SYS_PD1_MSK :: u32 where [reg_defs]: "PLL_PD1_AP_SYS_PD1_MSK = push_bit 4 0x0f"
definition PLL_PD1_HOST_PD1_MSK :: u32 where [reg_defs]: "PLL_PD1_HOST_PD1_MSK = push_bit 0 0x0f"

text \<open>A second post divider of 0, 1, 2 divides by 2, 4, 8.\<close>

definition pll_clock :: "u32 \<Rightarrow> u32 \<Rightarrow> u32 \<Rightarrow> nat" where
  "pll_clock fb fd1 fd2 = 25000000 * unat fb div (unat fd1 * 2 ^ Suc (unat fd2))"

definition host_clock :: "u32 \<Rightarrow> u32 \<Rightarrow> nat" where
  "host_clock d1 d2 = pll_clock (d1 AND PLL_PD1_GATEWAY_FEEDBACK_DIV_MSK)
     (d2 AND PLL_PD1_HOST_PD1_MSK) (drop_bit 8 (d2 AND PLL_PD1_HOST_PD2_MSK))"

definition sys_clock :: "u32 \<Rightarrow> u32 \<Rightarrow> nat" where
  "sys_clock d1 d2 = pll_clock (d1 AND PLL_PD1_GATEWAY_FEEDBACK_DIV_MSK)
     (drop_bit 4 (d2 AND PLL_PD1_AP_SYS_PD1_MSK)) (drop_bit 10 (d2 AND PLL_PD1_AP_SYS_PD2_MSK)) div 2"

definition bme_clock :: "u32 \<Rightarrow> u32 \<Rightarrow> nat" where
  "bme_clock d1 d2 = pll_clock (drop_bit 8 (d1 AND PLL_PD1_BME_FEEDBACK_DIV_MSK))
     (drop_bit 12 (d2 AND PLL_PD1_BME_PD1_MSK)) (drop_bit 20 (d2 AND PLL_PD1_BME_PD2_MSK))"

definition fd_clock :: "u32 \<Rightarrow> u32 \<Rightarrow> nat" where
  "fd_clock d1 d2 = pll_clock (drop_bit 8 (d1 AND PLL_PD1_BME_FEEDBACK_DIV_MSK))
     (drop_bit 16 (d2 AND PLL_PD1_FD_PD1_MSK)) (drop_bit 22 (d2 AND PLL_PD1_FD_PD2_MSK))"

lemma divider_clocks:
  "sys_clock 0x180b6060 0x06063033 = 200 * 1000000" "host_clock 0x180b6060 0x06063033 = 400 * 1000000"
  "bme_clock 0x180b6060 0x06063033 = 400 * 1000000" "fd_clock 0x180b6060 0x06063033 = 200 * 1000000"
  "sys_clock 0x180b6050 0x06063022 = 250 * 1000000" "host_clock 0x180b6050 0x06063022 = 500 * 1000000"
  "bme_clock 0x180b6050 0x06063022 = 400 * 1000000" "fd_clock 0x180b6050 0x06063022 = 200 * 1000000"
  by (simp_all add: sys_clock_def host_clock_def bme_clock_def fd_clock_def pll_clock_def reg_defs)

text \<open>The chips that run at the lower clock.\<close>

definition slow_chip :: "u32 \<Rightarrow> bool" where
  "slow_chip c \<longleftrightarrow> c \<in> {CHIP_7173, CHIP_7183, CHIP_7185HP}"

text \<open>The contents of \<open>pll_pwr_rst\<close> after the bring-up, from those before it.\<close>

definition pwr_up :: "config \<Rightarrow> u32 \<Rightarrow> u32 \<Rightarrow> u32" where
  "pwr_up cf strp w =
     (if UARTBOOT_CODE cf then w AND NOT 0x3f03f OR 0x19001
      else w AND NOT 0x3fffffff OR (if bit strp 10 then 0x11659041 else 0x116592c1))"

lemma pwr_fields:
  "(w AND NOT 0x3f OR 0x1) AND NOT 0x3f000 OR 0x19000 = (w :: u32) AND NOT 0x3f03f OR 0x19001"
  "((((w AND NOT 0x3f03f OR 0x19001) AND NOT 0xfc0 OR v) AND NOT 0xfc0000 OR 0x640000) AND NOT 0x3f000000 OR 0x11000000) =
     w AND NOT 0x3fffffff OR (0x19001 OR (v AND NOT 0x3ffc0000 OR 0x11640000))"
  by (simp_all add: bit.conj_disj_distrib2 and.assoc or.assoc)

context clock_hw
begin

lemma setup_reg:
  "reg (dev (scu_setup M s)) = (reg (dev s))(bme_map0 := 0xAF800000)" "ready (dev (scu_setup M s)) = ready (dev s)"
  by (simp_all add: scu_setup_def Let_def)

lemma setup_frame: "frame s (scu_setup M s)"
  by (simp add: scu_setup_def Let_def)

lemma load_cause:
  assumes "ready (dev s)"
  obtains z where "H_RD32 M (SCU rst_cause) s = (reg (dev s) rst_cause, z)" "quiet ready reg s z"
proof -
  obtain v z where z: "H_RD32 M (SCU rst_cause) s = (v, z)" "quiet ready reg s z"
    using load_quiet assms by blast
  then have "v = reg (dev s) rst_cause"
    using load_fst [of rst_cause "dev s"] by (auto simp: H_RD32_def split: prod.splits)
  with z that show ?thesis by blast
qed

lemma soft_reset:
  assumes "ready (dev s)" "bit (reg (dev s) rst_cause) 1"
  shows "\<exists>t. init_plls cf M s = Some t \<and> frame s t \<and> ready (dev t) \<and> reg (dev t) = (reg (dev s))(bme_map0 := 0xAF800000)"
proof -
  obtain z where z: "H_RD32 M (SCU rst_cause) (scu_setup M s) = (reg (dev s) rst_cause, z)" "quiet ready reg (scu_setup M s) z"
    using load_cause [of "scu_setup M s"] assms(1) by (auto simp: setup_reg)
  moreover have "reg (dev s) rst_cause AND SCU_RST_CAUSE_SOFT \<noteq> 0"
    using assms(2) and_single_bit_iff [of "reg (dev s) rst_cause" 1] by (simp add: SCU_RST_CAUSE_SOFT_def)
  ultimately show ?thesis
    using setup_frame frame_trans by (auto simp: init_plls_def quiet_def setup_reg)
qed

lemma cold_reset:
  assumes r: "ready (dev s)" and cold: "\<not> bit (reg (dev s) rst_cause) 1"
  shows "\<exists>t. init_plls cf M s = Some t \<and> ready (dev t) \<and> mem t = mem s \<and> gChipType t = gChipType s
    \<and> gSysClock t = (if slow_chip (gChipType s) then 200 * 1000000 else 250 * 1000000)
    \<and> reg (dev t) pll_pwr_rst = pwr_up cf (reg (dev s) rst_strp) (reg (dev s) pll_pwr_rst)
    \<and> reg (dev t) pll_post_divider1 = (if slow_chip (gChipType s) then 0x180b6060 else 0x180b6050)
    \<and> reg (dev t) pll_post_divider2 = (if slow_chip (gChipType s) then 0x06063033 else 0x06063022)"
proof -
  obtain z where z: "H_RD32 M (SCU rst_cause) (scu_setup M s) = (reg (dev s) rst_cause, z)" "quiet ready reg (scu_setup M s) z"
    using load_cause [of "scu_setup M s"] r by (auto simp: setup_reg)
  have c: "reg (dev s) rst_cause AND SCU_RST_CAUSE_SOFT = 0"
    using cold and_single_bit_iff [of "reg (dev s) rst_cause" 1] by (simp add: SCU_RST_CAUSE_SOFT_def)
  define s1 where "s1 = set_dividers M
    (if CHIP_7175 = gChipType z \<or> CHIP_7185HP = gChipType z then scu_wr M spare0 0x4009 z else z)"
  have gz: "frame s z" "ready (dev z)" "reg (dev z) = (reg (dev s))(bme_map0 := 0xAF800000)"
    using z(2) setup_frame frame_trans by (auto simp: quiet_def setup_reg)
  have gw: "gChipType (scu_wr M q v x) = gChipType x" "mem (scu_wr M q v x) = mem x" for q v x
    by (simp_all add: scu_wr_def H_WR32_def)
  have s1: "ready (dev s1)" "mem s1 = mem s" "gChipType s1 = gChipType s"
    "gSysClock s1 = (if slow_chip (gChipType s) then 200 * 1000000 else 250 * 1000000)"
    "reg (dev s1) pll_pwr_rst = reg (dev s) pll_pwr_rst" "reg (dev s1) rst_strp = reg (dev s) rst_strp"
    "reg (dev s1) pll_post_divider1 = (if slow_chip (gChipType s) then 0x180b6060 else 0x180b6050)"
    "reg (dev s1) pll_post_divider2 = (if slow_chip (gChipType s) then 0x06063033 else 0x06063022)"
    using gz frameD [OF gz(1)] by (auto simp: s1_def set_dividers_def slow_chip_def Let_def gw)
  obtain a where a: "init_pll0_fixed cf M s1 = Some a" "ready (dev a)" "frame s1 a" "reg (dev a) = (reg (dev s1))
    (pll_fixed_analog := 0x003fc442, pll_post_divider3 := reg (dev s1) pll_post_divider3 OR 0x3,
     pll_pwr_rst := reg (dev s1) pll_pwr_rst AND NOT 0x3f OR 0x1)"
    using pll0_up [OF s1(1), of cf] by blast
  obtain b where b: "init_pll1_gateway cf M a = Some b" "ready (dev b)" "frame a b"
    "reg (dev b) pll_pwr_rst = reg (dev s) pll_pwr_rst AND NOT 0x3f03f OR 0x19001" "reg (dev b) rst_strp = reg (dev s) rst_strp"
    "reg (dev b) pll_post_divider1 = reg (dev s1) pll_post_divider1" "reg (dev b) pll_post_divider2 = reg (dev s1) pll_post_divider2"
    using pll1_up [OF a(2), of cf] a(4) s1 pwr_fields(1) [of "reg (dev s) pll_pwr_rst"] by auto
  obtain e where e: "(if \<not> UARTBOOT_CODE cf then do {
       s \<leftarrow> init_pll2_vcxo cf M b; s \<leftarrow> init_pll3_bme cf M s; init_pll4_dsp cf M s } else Some b) = Some e"
    "ready (dev e)" "frame b e" "reg (dev e) pll_pwr_rst = pwr_up cf (reg (dev s) rst_strp) (reg (dev s) pll_pwr_rst)"
    "reg (dev e) pll_post_divider1 = reg (dev s1) pll_post_divider1" "reg (dev e) pll_post_divider2 = reg (dev s1) pll_post_divider2"
  proof (cases "UARTBOOT_CODE cf")
    case True
    then show ?thesis using that [of b] b by (simp add: pwr_up_def)
  next
    case False
    obtain x where x: "init_pll2_vcxo cf M b = Some x" "ready (dev x)" "frame b x" "reg (dev x) pll_pwr_rst =
      (reg (dev s) pll_pwr_rst AND NOT 0x3f03f OR 0x19001) AND NOT 0xfc0 OR (if bit (reg (dev s) rst_strp) 10 then 0x40 else 0x2c0)"
      "reg (dev x) pll_post_divider1 = reg (dev s1) pll_post_divider1" "reg (dev x) pll_post_divider2 = reg (dev s1) pll_post_divider2"
      using pll2_up [OF b(2), of cf] b(4-7) by auto
    obtain y where y: "init_pll3_bme cf M x = Some y" "ready (dev y)" "frame x y" "reg (dev y) pll_pwr_rst =
      reg (dev x) pll_pwr_rst AND NOT 0xfc0000 OR 0x640000"
      "reg (dev y) pll_post_divider1 = reg (dev s1) pll_post_divider1" "reg (dev y) pll_post_divider2 = reg (dev s1) pll_post_divider2"
      using pll3_up [OF x(2), of cf] x(5-6) by auto
    obtain w where w: "init_pll4_dsp cf M y = Some w" "ready (dev w)" "frame y w" "reg (dev w) pll_pwr_rst =
      reg (dev y) pll_pwr_rst AND NOT 0x3f000000 OR 0x11000000"
      "reg (dev w) pll_post_divider1 = reg (dev s1) pll_post_divider1" "reg (dev w) pll_post_divider2 = reg (dev s1) pll_post_divider2"
      using pll4_up [OF y(2), of cf] y(5-6) by auto
    have "reg (dev w) pll_pwr_rst = pwr_up cf (reg (dev s) rst_strp) (reg (dev s) pll_pwr_rst)"
      using False unfolding w(4) y(4) x(4) pwr_fields(2) pwr_up_def by (simp split: if_split)
    then show ?thesis
      using that [of w] False x y w by (auto intro: frame_trans)
  qed
  obtain t where t: "(if 2 < DEBUG_LEVEL cf then debugDumpRegs M SCU_BASE 64 e else Some e) = Some t" "quiet ready reg e t"
  proof (cases "2 < DEBUG_LEVEL cf")
    case True
    then show ?thesis using dump_regs_quiet [OF e(2)] that by (metis (full_types))
  next
    case False
    then show ?thesis using that [of e] e(2) by (simp add: quiet_def)
  qed
  have "init_plls cf M s = Some t"
    using z(1) c a(1) b(1) e(1) t(1) by (simp add: init_plls_def s1_def Let_def)
  moreover have "frame s1 t"
    using a(3) b(3) e(3) t(2) by (auto simp: quiet_def intro: frame_trans)
  ultimately show ?thesis
    using s1 e t(2) by (auto simp: quiet_def dest: frameD)
qed

end

subsection \<open>A board with clocks\<close>

definition pll_state :: "u32 \<Rightarrow> pll \<Rightarrow> u32" where
  "pll_state w p =
     (if calibrating w p then PLL_STAT_CALIBRATION_DONE else if running w p then PLL_STAT_LOCKED else 0)"

definition clock_board :: "board machine" where
  "clock_board = board_machine\<lparr>io_load := (\<lambda>a d.
     (if a = UART1 lsr then UART_LSR_BITMASK_THRE
      else case find (\<lambda>p. SCU (pll_status p) = a) [Fixed, Vcxo, Gateway, Bme, Dsp] of
             Some p \<Rightarrow> pll_state (bregs d (SCU pll_pwr_rst)) p
           | None \<Rightarrow> bregs d a, d)),
     io_store := (\<lambda>a v d. if a \<in> {SCU rst_cause, SCU rst_strp} then d else io_store board_machine a v d)\<rparr>"

definition board_reg :: "board \<Rightarrow> scu_reg \<Rightarrow> u32" where
  "board_reg d r = (if scu_kind r = Special then 0 else bregs d (SCU r))"

lemma scu_kind_in_scu: "scu_kind r \<noteq> Special \<Longrightarrow> in_scu r"
  by (cases r) simp_all

lemma clock_board_load:
  "io_load clock_board (UART1 lsr) d = (UART_LSR_BITMASK_THRE, d)"
  "io_load clock_board (SCU (pll_status p)) d = (pll_state (bregs d (SCU pll_pwr_rst)) p, d)"
  "scu_kind r \<noteq> Special \<Longrightarrow> io_load clock_board (SCU r) d = (bregs d (SCU r), d)"
  "snd (io_load clock_board a d) = d"
proof -
  have st: "in_scu (pll_status q)" for q by (cases q) simp_all
  show "io_load clock_board (SCU (pll_status p)) d = (pll_state (bregs d (SCU pll_pwr_rst)) p, d)"
    by (cases p) (simp_all add: clock_board_def SCU_inj SCU_UART1)
  assume "scu_kind r \<noteq> Special"
  then show "io_load clock_board (SCU r) d = (bregs d (SCU r), d)"
    by (cases r) (simp_all add: clock_board_def SCU_inj SCU_UART1)
qed (simp_all add: clock_board_def)

lemma clock_board_store:
  "io_store clock_board a v d = (if a \<in> {SCU rst_cause, SCU rst_strp} then d else io_store board_machine a v d)"
  by (simp add: clock_board_def board_machine_def)

lemma board_reg_store:
  assumes "in_scu r"
  shows "board_reg (io_store clock_board (SCU r) v d) =
    (if scu_kind r = RW then (board_reg d)(r := v) else board_reg d)"
proof
  fix q
  have ro: "SCU r \<in> {SCU rst_cause, SCU rst_strp} \<longleftrightarrow> r = rst_cause \<or> r = rst_strp"
    using assms by (simp add: SCU_inj)
  have "scu_kind r = RO \<longleftrightarrow> r = rst_cause \<or> r = rst_strp"
    by (cases r) simp_all
  moreover have "scu_kind q \<noteq> Special \<Longrightarrow> SCU q = SCU r \<longleftrightarrow> q = r"
    using SCU_inj scu_kind_in_scu assms by blast
  ultimately show "board_reg (io_store clock_board (SCU r) v d) q =
    (if scu_kind r = RW then (board_reg d)(r := v) else board_reg d) q"
    using SCU_UART1 [OF assms] reg_kind.exhaust [of "scu_kind r"]
    unfolding clock_board_store ro by (auto simp: board_reg_def)
qed

interpretation clocks: clock_hw clock_board bouts latch_closed board_reg
proof (intro clock_hw.intro clock_hw_axioms.intro)
  have ro: "UART1 u \<notin> {SCU rst_cause, SCU rst_strp}" for u
    using SCU_UART1 [of rst_cause u] SCU_UART1 [of rst_strp u] by auto
  show "console clock_board bouts latch_closed"
    by (rule console_board) (simp_all add: clock_board_load, simp add: clock_board_store ro fun_eq_iff del: insert_iff)
  fix r u and v :: u32 and d e :: board
  show "scu_kind r \<noteq> Special \<Longrightarrow> io_load clock_board (SCU r) d = (v, e) \<Longrightarrow> v = board_reg d r"
    by (auto simp: clock_board_load board_reg_def)
  show "io_load clock_board v d = (w, e) \<Longrightarrow> board_reg e = board_reg d \<and> latch_closed e = latch_closed d" for w
    using clock_board_load(4) [of v d] by simp
  show "in_scu r \<Longrightarrow> board_reg (io_store clock_board (SCU r) v d) =
      (if scu_kind r = RW then (board_reg d)(r := v) else board_reg d)"
    by (rule board_reg_store)
  show "in_scu r \<Longrightarrow> latch_closed (io_store clock_board (SCU r) v d) = latch_closed d"
    by (simp add: clock_board_store latch_closed_def SCU_UART1 SCU_UART1 [symmetric])
  show "board_reg (io_store clock_board (UART1 u) v d) = board_reg d"
    using scu_kind_in_scu SCU_UART1 unfolding clock_board_store if_not_P [OF ro] by (auto simp: board_reg_def fun_eq_iff)
  fix s :: "board sys"
  show "latch_closed (dev (c_uart_init clock_board s))"
    unfolding c_uart_init_def H_WR32_def Let_def clock_board_store if_not_P [OF ro]
    by (simp add: latch_closed_def split: prod.split)
next
  fix s :: "board sys" and p
  assume "latch_closed (dev s)"
  { assume "calibrating (board_reg (dev s) pll_pwr_rst) p"
    then show "\<exists>t. c_poll32_until_set clock_board (SCU (pll_status p)) PLL_STAT_CALIBRATION_DONE s = Some t"
      by (subst c_poll32_until_set.simps) (simp add: H_RD32_def clock_board_load board_reg_def pll_state_def) }
  { assume "running (board_reg (dev s) pll_pwr_rst) p"
    then show "\<exists>t. c_poll32_until_set clock_board (SCU (pll_status p)) PLL_STAT_LOCKED s = Some t"
      by (subst c_poll32_until_set.simps)
        (auto simp add: H_RD32_def clock_board_load board_reg_def pll_state_def running_def calibrating_def) }
qed

subsection \<open>What the bring-up achieves\<close>

text \<open>
  C13. After any reset but a soft one \<open>init_plls\<close> returns, on any hardware that ends calibrations and locks
  PLLs as documented, with or without the debug output: \<open>pll_pwr_rst\<close> has the fields of the PLLs of the
  build powered up with calibration and lock detector released (on a NAND boot the VCXO PLL as the strap
  says), every other bit of it unchanged, and RAM and the chip type are as before.
\<close>

theorem plls_up:
  assumes "clock_hw M outs ready reg" "ready (dev s)" "\<not> bit (reg (dev s) rst_cause) 1"
  shows "\<exists>t. init_plls cf M s = Some t \<and> mem t = mem s \<and> gChipType t = gChipType s
    \<and> (let w = reg (dev t) pll_pwr_rst; v = reg (dev s) pll_pwr_rst
       in w = pwr_up cf (reg (dev s) rst_strp) v
        \<and> running w Fixed \<and> running w Gateway
        \<and> (if UARTBOOT_CODE cf then w AND NOT 0x3f03f = v AND NOT 0x3f03f
           else running w Bme \<and> running w Dsp \<and> (running w Vcxo \<longleftrightarrow> bit (reg (dev s) rst_strp) 10)))"
proof -
  have "running (pwr_up cf (reg (dev s) rst_strp) v) Fixed" "running (pwr_up cf (reg (dev s) rst_strp) v) Gateway"
    "UARTBOOT_CODE cf \<Longrightarrow> pwr_up cf (reg (dev s) rst_strp) v AND NOT 0x3f03f = v AND NOT 0x3f03f"
    "\<not> UARTBOOT_CODE cf \<Longrightarrow> running (pwr_up cf (reg (dev s) rst_strp) v) Bme \<and> running (pwr_up cf (reg (dev s) rst_strp) v) Dsp
       \<and> (running (pwr_up cf (reg (dev s) rst_strp) v) Vcxo \<longleftrightarrow> bit (reg (dev s) rst_strp) 10)" for v
    by (simp_all add: pwr_up_def running_def bit_simps bit.conj_disj_distrib2 and.assoc)
  then show ?thesis
    using clock_hw.cold_reset [OF assms, of cf] by (auto simp: Let_def)
qed

text \<open>
  C22. \<open>gSysClock\<close> is the system clock that the divider registers really give: after the bring-up the value
  decoded from \<open>pll_post_divider1\<close> and \<open>pll_post_divider2\<close> with the masks of the header is \<open>gSysClock\<close>,
  the host runs at twice that, the BME at 400 MHz and the frequency domain at 200 MHz.
\<close>

theorem plls_clock:
  assumes "clock_hw M outs ready reg" "ready (dev s)" "\<not> bit (reg (dev s) rst_cause) 1"
  shows "\<exists>t. init_plls cf M s = Some t
    \<and> (let d1 = reg (dev t) pll_post_divider1; d2 = reg (dev t) pll_post_divider2
       in sys_clock d1 d2 = unat (gSysClock t) \<and> host_clock d1 d2 = 2 * unat (gSysClock t)
        \<and> bme_clock d1 d2 = 400 * 1000000 \<and> fd_clock d1 d2 = 200 * 1000000
        \<and> gSysClock t = (if slow_chip (gChipType s) then 200 * 1000000 else 250 * 1000000))"
  using clock_hw.cold_reset [OF assms, of cf] divider_clocks by (auto simp: Let_def)

text \<open>
  After a soft reset \<open>init_plls\<close> returns without setting \<open>gSysClock\<close>, and changes no clock register.
\<close>

theorem plls_soft_reset:
  assumes "clock_hw M outs ready reg" "ready (dev s)" "bit (reg (dev s) rst_cause) 1"
  shows "\<exists>t. init_plls cf M s = Some t \<and> gSysClock t = gSysClock s
    \<and> (\<forall>r. r \<noteq> bme_map0 \<longrightarrow> reg (dev t) r = reg (dev s) r)"
  using clock_hw.soft_reset [OF assms, of cf] by (auto dest: frameD)

definition uart_boot_config :: config where
  "uart_boot_config = \<lparr>UARTBOOT_CODE = True, VCXO_SE_MODE = 0, DEBUG_LEVEL = 3, DDR_AUTO_DETECT = True\<rparr>"

definition reset_board :: "u32 \<Rightarrow> board sys" where
  "reset_board cause = \<lparr>gChipType = CHIP_7175, gSysClock = 0,
     dev = \<lparr>bregs = (\<lambda>a. if a = SCU rst_cause then cause else if a = SCU pll_pwr_rst then 0x0A28B282 else 0),
            bouts = [], bcount = 0\<rparr>, mem = (\<lambda>_. 0)\<rparr>"

lemma reset_board_facts:
  "latch_closed (dev (reset_board c))" "board_reg (dev (reset_board c)) rst_cause = c"
  "board_reg (dev (reset_board c)) pll_pwr_rst = 0x0A28B282" "gSysClock (reset_board c) = 0"
  "gChipType (reset_board c) = CHIP_7175"
  by (simp_all add: reset_board_def latch_closed_def board_reg_def SCU_inj reg_defs uart_defs)

theorem plls_up_witness:
  "\<exists>t. init_plls uart_boot_config clock_board (reset_board 1) = Some t \<and> board_reg (dev t) pll_pwr_rst = 0x0A299281"
  using plls_up [OF clocks.clock_hw_axioms, of "reset_board 1" uart_boot_config]
  by (auto simp: reset_board_facts Let_def pwr_up_def uart_boot_config_def)

theorem plls_clock_witness:
  "\<exists>t. init_plls uart_boot_config clock_board (reset_board 1) = Some t \<and> gSysClock t = 250000000"
  using plls_clock [OF clocks.clock_hw_axioms, of "reset_board 1" uart_boot_config]
  by (auto simp: reset_board_facts Let_def slow_chip_def reg_defs)

theorem plls_soft_reset_witness:
  "\<exists>t. init_plls uart_boot_config clock_board (reset_board 2) = Some t \<and> gSysClock t = 0"
  using plls_soft_reset [OF clocks.clock_hw_axioms, of "reset_board 2" uart_boot_config]
  by (auto simp: reset_board_facts)

end
