(* ===== verification/Pll_Old.thy ===== *)
theory Pll_Old
  imports Pll
begin

unbundle bit_operations_syntax

section \<open>The older init\_plls (boot/soc\_landshark/pll\_ram.c)\<close>

text \<open>
  The variant of \<open>init_plls\<close> that \<^verbatim>\<open>pll_ram.c\<close> keeps behind the \<^verbatim>\<open>#else\<close>: one function that programs all dividers
  first and then brings up the five PLLs, and that does not know the UART build. The theorems compare it with the
  function that replaced it.
\<close>

subsection \<open>The function\<close>

text \<open>\<open>SCU->pll_pwr_rst &= ~m; SCU->pll_pwr_rst |= v;\<close> and the wait that follows.\<close>

definition pll_step :: "'d machine \<Rightarrow> u32 \<Rightarrow> u32 \<Rightarrow> scu_reg \<Rightarrow> u32 \<Rightarrow> 'd sys \<Rightarrow> 'd sys option" where
  "pll_step M m v st flag s =
     (let s = scu_clr M pll_pwr_rst m s;
          s = scu_set M pll_pwr_rst v s
      in c_poll32_until_set M (SCU st) flag s)"

definition old_program :: "config \<Rightarrow> 'd machine \<Rightarrow> 'd sys \<Rightarrow> 'd sys" where
  "old_program cf M s =
     (let s = scu_wr M pll_fixed_analog 0x003fc442 s;
          s = scu_wr M pll_vcxo_analog (if VCXO_SE_MODE cf = 1 then 0x131cca88 else 0x001cca88) s;
          s = scu_wr M pll_gateway_analog 0x002cc642 s;
          s = scu_wr M pll_dsp_analog 0x0026ce20 s;
          s = scu_wr M pll_bme_analog 0x002cc642 s;
          s = set_dividers M s;
          s = scu_wr M pll_dsp_sigmadelta 0x00012B52 s;
          s = scu_wr M pll_vcxo_sigmadelta 0x001654D6 s
      in scu_wr M pll_post_divider3 0x4D600FFF s)"

definition old_vcxo :: "'d machine \<Rightarrow> 'd sys \<Rightarrow> 'd sys option" where
  "old_vcxo M s = do {
     let (strp, s) = H_RD32 M (SCU rst_strp) s;
     if strp AND 0x80 \<noteq> 0 then do {
       s \<leftarrow> pll_step M 0xff0 0x1c0 pll_vcxo_status PLL_STAT_CALIBRATION_DONE s;
       pll_step M 0xff0 0x040 pll_vcxo_status PLL_STAT_LOCKED s
     } else do {
       let s = scu_clr M cpu_ctl_mask 0x200000 s;
       let s = scu_set M cpu_ctl 0x200000 s;
       let s = scu_set M cpu_ctl_mask 0x200000 s;
       let s = scu_clr M pll_pwr_rst 0xff0 s;
       Some (scu_set M pll_pwr_rst 0x2c0 s)
     }
   }"

definition old_init_plls :: "config \<Rightarrow> 'd machine \<Rightarrow> 'd sys \<Rightarrow> 'd sys option" where
  "old_init_plls cf M s = do {
     let s = scu_setup M s;
     let (cause, s) = H_RD32 M (SCU rst_cause) s;
     if cause AND SCU_RST_CAUSE_SOFT \<noteq> 0 then Some s
     else do {
       let s = old_program cf M s;
       s \<leftarrow> pll_step M 0xf 0x7 pll_fixed_status PLL_STAT_CALIBRATION_DONE s;
       s \<leftarrow> pll_step M 0xf 0x1 pll_fixed_status PLL_STAT_LOCKED s;
       s \<leftarrow> old_vcxo M s;
       s \<leftarrow> pll_step M 0xfc0000 0x3c0000 pll_bme_status PLL_STAT_CALIBRATION_DONE s;
       s \<leftarrow> pll_step M 0xfc0000 0x640000 pll_bme_status PLL_STAT_LOCKED s;
       s \<leftarrow> pll_step M 0x1f000 0x1f000 pll_gateway_status PLL_STAT_CALIBRATION_DONE s;
       s \<leftarrow> pll_step M 0x1f000 0x19000 pll_bme_status PLL_STAT_LOCKED s;
       let s = c_uart_init M s;
       s \<leftarrow> pll_step M 0xff000000 0x17000000 pll_dsp_status PLL_STAT_CALIBRATION_DONE s;
       pll_step M 0xff000000 0x11000000 pll_dsp_status PLL_STAT_LOCKED s
     }
   }"

subsection \<open>What it leaves in the registers\<close>

text \<open>The registers after a cold start, from those before it, for either function.\<close>

definition old_pwr :: "u32 \<Rightarrow> u32 \<Rightarrow> u32" where
  "old_pwr strp w = w AND NOT 0xfffdffff OR (if bit strp 7 then 0x11659041 else 0x116592c1)"

definition programmed :: "config \<Rightarrow> u32 \<Rightarrow> (scu_reg \<Rightarrow> u32) \<Rightarrow> scu_reg \<Rightarrow> u32" where
  "programmed cf chip R = R
    (bme_map0 := 0xAF800000, pll_fixed_analog := 0x003fc442, pll_vcxo_analog := (if VCXO_SE_MODE cf = 1 then 0x131cca88 else 0x001cca88),
     pll_gateway_analog := 0x002cc642, pll_dsp_analog := 0x0026ce20, pll_bme_analog := 0x002cc642,
     pll_post_divider1 := (if slow_chip chip then 0x180b6060 else 0x180b6050),
     pll_post_divider2 := (if slow_chip chip then 0x06063033 else 0x06063022),
     pll_dsp_sigmadelta := 0x00012b52, pll_vcxo_sigmadelta := 0x001654d6)"

text \<open>The third divider register after the five routines of the new function.\<close>

definition new_divider3 :: "u32 \<Rightarrow> u32" where
  "new_divider3 v = ((((v OR 0x3 OR 0x200000) AND NOT 0x1000 OR 0xD48 OR 0x204) OR 0x400000) AND NOT 0x2000 OR 0x90) AND NOT 0x804000 OR 0x20"

context clock_hw
begin

lemma pll_cal_step:
  assumes "ready (dev s)" "calibrating (reg (dev s) pll_pwr_rst AND NOT m OR v) p"
  obtains t where "pll_step M m v (pll_status p) PLL_STAT_CALIBRATION_DONE s = Some t" "ready (dev t)" "frame s t"
    "reg (dev t) = (reg (dev s))(pll_pwr_rst := reg (dev s) pll_pwr_rst AND NOT m OR v)"
proof -
  define s1 where "s1 = scu_set M pll_pwr_rst v (scu_clr M pll_pwr_rst m s)"
  have s1: "ready (dev s1)" "frame s s1" "reg (dev s1) = (reg (dev s))(pll_pwr_rst := reg (dev s) pll_pwr_rst AND NOT m OR v)"
    using assms(1) by (simp_all add: s1_def)
  obtain t where t: "c_poll32_until_set M (SCU (pll_status p)) PLL_STAT_CALIBRATION_DONE s1 = Some t"
    using calibrates [OF s1(1), of p] assms(2) s1(3) by auto
  have q: "quiet ready reg s1 t"
    by (rule poll_keep [OF t s1(1)])
  have "pll_step M m v (pll_status p) PLL_STAT_CALIBRATION_DONE s = Some t"
    using t by (simp add: pll_step_def s1_def)
  then show ?thesis
    using that [of t] q s1(3) frame_trans [OF s1(2)] by (simp add: quiet_def)
qed

lemma pll_lock_step:
  assumes "ready (dev s)" "running (reg (dev s) pll_pwr_rst AND NOT m OR v) p"
  obtains t where "pll_step M m v (pll_status p) PLL_STAT_LOCKED s = Some t" "ready (dev t)" "frame s t"
    "reg (dev t) = (reg (dev s))(pll_pwr_rst := reg (dev s) pll_pwr_rst AND NOT m OR v)"
proof -
  define s1 where "s1 = scu_set M pll_pwr_rst v (scu_clr M pll_pwr_rst m s)"
  have s1: "ready (dev s1)" "frame s s1" "reg (dev s1) = (reg (dev s))(pll_pwr_rst := reg (dev s) pll_pwr_rst AND NOT m OR v)"
    using assms(1) by (simp_all add: s1_def)
  obtain t where t: "c_poll32_until_set M (SCU (pll_status p)) PLL_STAT_LOCKED s1 = Some t" "quiet ready reg s1 t"
    using lockE [OF s1(1), of p] assms(2) s1(3) by auto
  have "pll_step M m v (pll_status p) PLL_STAT_LOCKED s = Some t"
    using t(1) by (simp add: pll_step_def s1_def)
  then show ?thesis
    using that [of t] t(2) s1(3) frame_trans [OF s1(2)] by (simp add: quiet_def)
qed

text \<open>A PLL is brought up: calibrated with one value of its field, locked with the other.\<close>

lemma pll_pair:
  assumes r: "ready (dev s)" and m: "v AND NOT m = 0"
    and c: "calibrating (reg (dev s) pll_pwr_rst AND NOT m OR v) p" and l: "running (reg (dev s) pll_pwr_rst AND NOT m OR w) q"
  obtains a t where "pll_step M m v (pll_status p) PLL_STAT_CALIBRATION_DONE s = Some a"
    "pll_step M m w (pll_status q) PLL_STAT_LOCKED a = Some t" "ready (dev t)" "frame s t"
    "reg (dev t) = (reg (dev s))(pll_pwr_rst := reg (dev s) pll_pwr_rst AND NOT m OR w)"
proof -
  obtain a where a: "pll_step M m v (pll_status p) PLL_STAT_CALIBRATION_DONE s = Some a" "ready (dev a)" "frame s a"
    "reg (dev a) = (reg (dev s))(pll_pwr_rst := reg (dev s) pll_pwr_rst AND NOT m OR v)"
    using pll_cal_step [OF r c] .
  have w: "reg (dev a) pll_pwr_rst AND NOT m = reg (dev s) pll_pwr_rst AND NOT m"
    using a(4) refill [OF m] by simp
  obtain t where t: "pll_step M m w (pll_status q) PLL_STAT_LOCKED a = Some t" "ready (dev t)" "frame a t"
    "reg (dev t) = (reg (dev a))(pll_pwr_rst := reg (dev a) pll_pwr_rst AND NOT m OR w)"
    using pll_lock_step [of a m w q] a(2) l unfolding w by blast
  show ?thesis
    using that [OF a(1) t(1,2)] a t unfolding w by (auto intro: frame_trans)
qed

lemma scu_wr_sys [simp]:
  "mem (scu_wr M r v s) = mem s" "gChipType (scu_wr M r v s) = gChipType s" "gSysClock (scu_wr M r v s) = gSysClock s"
  by (simp_all add: scu_wr_def H_WR32_def)

lemma set_dividers_reg:
  assumes "ready (dev s)"
  shows "ready (dev (set_dividers M s))" "mem (set_dividers M s) = mem s" "gChipType (set_dividers M s) = gChipType s"
    "gSysClock (set_dividers M s) = (if slow_chip (gChipType s) then 200 * 1000000 else 250 * 1000000)"
    "reg (dev (set_dividers M s)) = (reg (dev s))
      (pll_post_divider1 := (if slow_chip (gChipType s) then 0x180b6060 else 0x180b6050),
       pll_post_divider2 := (if slow_chip (gChipType s) then 0x06063033 else 0x06063022))"
  using assms by (auto simp: set_dividers_def slow_chip_def Let_def)

lemma old_program_reg:
  assumes "ready (dev s)"
  shows "ready (dev (old_program cf M s))" "mem (old_program cf M s) = mem s" "gChipType (old_program cf M s) = gChipType s"
    "gSysClock (old_program cf M s) = (if slow_chip (gChipType s) then 200 * 1000000 else 250 * 1000000)"
    "reg (dev (old_program cf M s)) = (programmed cf (gChipType s) (reg (dev s)))
       (bme_map0 := reg (dev s) bme_map0, pll_post_divider3 := 0x4D600FFF)"
  using assms by (simp_all add: old_program_def set_dividers_reg programmed_def Let_def fun_eq_iff)

lemma load_strap:
  assumes "ready (dev s)"
  obtains z where "H_RD32 M (SCU rst_strp) s = (reg (dev s) rst_strp, z)" "quiet ready reg s z"
proof -
  obtain v z where z: "H_RD32 M (SCU rst_strp) s = (v, z)" "quiet ready reg s z"
    using load_quiet assms by blast
  then have "v = reg (dev s) rst_strp"
    using load_fst [of rst_strp "dev s"] by (auto simp: H_RD32_def split: prod.splits)
  with z that show ?thesis by blast
qed

lemma old_vcxo_up:
  assumes r: "ready (dev s)"
  obtains t where "old_vcxo M s = Some t" "ready (dev t)" "frame s t"
    "reg (dev t) = (reg (dev s))(pll_pwr_rst := reg (dev s) pll_pwr_rst AND NOT 0xff0 OR
       (if bit (reg (dev s) rst_strp) 7 then 0x40 else 0x2c0))"
proof -
  obtain z where z: "H_RD32 M (SCU rst_strp) s = (reg (dev s) rst_strp, z)" "quiet ready reg s z"
    using load_strap [OF r] .
  then have rz: "ready (dev z)" "frame s z" "reg (dev z) = reg (dev s)"
    by (auto simp: quiet_def)
  have b: "reg (dev s) rst_strp AND 0x80 \<noteq> 0 \<longleftrightarrow> bit (reg (dev s) rst_strp) 7"
    using and_single_bit_iff [of "reg (dev s) rst_strp" 7] by simp
  show ?thesis
  proof (cases "bit (reg (dev s) rst_strp) 7")
    case True
    obtain a t where "pll_step M 0xff0 0x1c0 (pll_status Vcxo) PLL_STAT_CALIBRATION_DONE z = Some a"
      "pll_step M 0xff0 0x40 (pll_status Vcxo) PLL_STAT_LOCKED a = Some t" "ready (dev t)" "frame z t"
      "reg (dev t) = (reg (dev z))(pll_pwr_rst := reg (dev z) pll_pwr_rst AND NOT 0xff0 OR 0x40)"
      by (rule pll_pair [OF rz(1), of "0x1c0" "0xff0" Vcxo "0x40" Vcxo]) (simp_all add: pll_fields bit_simps)
    then show ?thesis
      using that [of t] True b z(1) rz by (simp add: old_vcxo_def) (blast intro: frame_trans)
  next
    case False
    then show ?thesis
      using that [of "scu_set M pll_pwr_rst 0x2c0 (scu_clr M pll_pwr_rst 0xff0 (scu_set M cpu_ctl_mask 0x200000
          (scu_set M cpu_ctl 0x200000 (scu_clr M cpu_ctl_mask 0x200000 z))))"] b z(1) rz
      by (simp add: old_vcxo_def)
  qed
qed

lemma old_cold:
  assumes r: "ready (dev s)" and cold: "\<not> bit (reg (dev s) rst_cause) 1"
  shows "\<exists>t. old_init_plls cf M s = Some t \<and> ready (dev t) \<and> mem t = mem s \<and> gChipType t = gChipType s
    \<and> gSysClock t = (if slow_chip (gChipType s) then 200 * 1000000 else 250 * 1000000)
    \<and> reg (dev t) = (programmed cf (gChipType s) (reg (dev s)))(pll_post_divider3 := 0x4D600FFF,
         pll_pwr_rst := old_pwr (reg (dev s) rst_strp) (reg (dev s) pll_pwr_rst))"
proof -
  let ?w = "reg (dev s) pll_pwr_rst"
  obtain z where z: "H_RD32 M (SCU rst_cause) (scu_setup M s) = (reg (dev s) rst_cause, z)" "quiet ready reg (scu_setup M s) z"
    using load_cause [of "scu_setup M s"] r by (auto simp: setup_reg)
  have c: "reg (dev s) rst_cause AND SCU_RST_CAUSE_SOFT = 0"
    using cold and_single_bit_iff [of "reg (dev s) rst_cause" 1] by (simp add: SCU_RST_CAUSE_SOFT_def)
  have gz: "frame s z" "ready (dev z)" "reg (dev z) = (reg (dev s))(bme_map0 := 0xAF800000)"
    using z(2) setup_frame frame_trans by (auto simp: quiet_def setup_reg)
  define p where "p = old_program cf M z"
  have p: "ready (dev p)" "mem p = mem s" "gChipType p = gChipType s"
    "gSysClock p = (if slow_chip (gChipType s) then 200 * 1000000 else 250 * 1000000)"
    "reg (dev p) = (programmed cf (gChipType s) (reg (dev s)))(pll_post_divider3 := 0x4D600FFF)"
    using old_program_reg [OF gz(2), of cf] gz(3) frameD [OF gz(1)]
    by (simp_all add: p_def programmed_def fun_eq_iff)
  have pw: "reg (dev p) pll_pwr_rst = ?w" "reg (dev p) rst_strp = reg (dev s) rst_strp"
    by (simp_all add: p(5) programmed_def)
  obtain a1 a where A: "pll_step M 0xf 0x7 (pll_status Fixed) PLL_STAT_CALIBRATION_DONE p = Some a1"
    "pll_step M 0xf 0x1 (pll_status Fixed) PLL_STAT_LOCKED a1 = Some a" "ready (dev a)" "frame p a"
    "reg (dev a) = (reg (dev p))(pll_pwr_rst := reg (dev p) pll_pwr_rst AND NOT 0xf OR 0x1)"
    by (rule pll_pair [OF p(1), of "0x7" "0xf" Fixed "0x1" Fixed]) (simp_all add: pll_fields bit_simps)
  obtain b where B: "old_vcxo M a = Some b" "ready (dev b)" "frame a b"
    "reg (dev b) = (reg (dev a))(pll_pwr_rst := reg (dev a) pll_pwr_rst AND NOT 0xff0 OR (if bit (reg (dev a) rst_strp) 7 then 0x40 else 0x2c0))"
    using old_vcxo_up [OF A(3)] .
  obtain d1 d where D: "pll_step M 0xfc0000 0x3c0000 (pll_status Bme) PLL_STAT_CALIBRATION_DONE b = Some d1"
    "pll_step M 0xfc0000 0x640000 (pll_status Bme) PLL_STAT_LOCKED d1 = Some d" "ready (dev d)" "frame b d"
    "reg (dev d) = (reg (dev b))(pll_pwr_rst := reg (dev b) pll_pwr_rst AND NOT 0xfc0000 OR 0x640000)"
    by (rule pll_pair [OF B(2), of "0x3c0000" "0xfc0000" Bme "0x640000" Bme]) (simp_all add: pll_fields bit_simps)
  have bme: "running (reg (dev d) pll_pwr_rst AND NOT 0x1f000 OR 0x19000) Bme"
    by (simp add: D(5) pll_fields bit_simps)
  obtain g1 g where G: "pll_step M 0x1f000 0x1f000 (pll_status Gateway) PLL_STAT_CALIBRATION_DONE d = Some g1"
    "pll_step M 0x1f000 0x19000 (pll_status Bme) PLL_STAT_LOCKED g1 = Some g" "ready (dev g)" "frame d g"
    "reg (dev g) = (reg (dev d))(pll_pwr_rst := reg (dev d) pll_pwr_rst AND NOT 0x1f000 OR 0x19000)"
    by (rule pll_pair [OF D(3), of "0x1f000" "0x1f000" Gateway "0x19000" Bme]) (use bme in \<open>simp_all add: pll_fields bit_simps\<close>)
  let ?u = "c_uart_init M g"
  have u: "ready (dev ?u)" "frame g ?u" "reg (dev ?u) = reg (dev g)"
    using G(3) by simp_all
  obtain h1 t where H: "pll_step M 0xff000000 0x17000000 (pll_status Dsp) PLL_STAT_CALIBRATION_DONE ?u = Some h1"
    "pll_step M 0xff000000 0x11000000 (pll_status Dsp) PLL_STAT_LOCKED h1 = Some t" "ready (dev t)" "frame ?u t"
    "reg (dev t) = (reg (dev ?u))(pll_pwr_rst := reg (dev ?u) pll_pwr_rst AND NOT 0xff000000 OR 0x11000000)"
    by (rule pll_pair [OF u(1), of "0x17000000" "0xff000000" Dsp "0x11000000" Dsp]) (simp_all add: pll_fields bit_simps)
  have "old_init_plls cf M s = Some t"
    using z(1) c A(1,2) B(1) D(1,2) G(1,2) H(1,2) by (simp add: old_init_plls_def Let_def p_def)
  moreover have "frame p t"
    by (rule frame_trans [OF A(4) frame_trans [OF B(3) frame_trans [OF D(4) frame_trans [OF G(4) frame_trans [OF u(2) H(4)]]]]])
  moreover have "reg (dev t) = (reg (dev p))(pll_pwr_rst := old_pwr (reg (dev s) rst_strp) ?w)"
    unfolding H(5) u(3) G(5) D(5) B(4) A(5)
    by (simp add: pw old_pwr_def bit.conj_disj_distrib2 and.assoc or.assoc)
  ultimately show ?thesis
    using p H(3) by (auto dest: frameD)
qed

lemma new_cold:
  assumes r: "ready (dev s)" and cold: "\<not> bit (reg (dev s) rst_cause) 1" and nand: "\<not> UARTBOOT_CODE cf"
  shows "\<exists>t. init_plls cf M s = Some t \<and> ready (dev t)
    \<and> gSysClock t = (if slow_chip (gChipType s) then 200 * 1000000 else 250 * 1000000)
    \<and> reg (dev t) = (programmed cf (gChipType s) (reg (dev s)))
        (spare0 := (if gChipType s \<in> {CHIP_7175, CHIP_7185HP} then 0x4009 else reg (dev s) spare0),
         pll_post_divider3 := new_divider3 (reg (dev s) pll_post_divider3),
         pll_pwr_rst := pwr_up cf (reg (dev s) rst_strp) (reg (dev s) pll_pwr_rst))"
proof -
  let ?w = "reg (dev s) pll_pwr_rst" and ?v = "reg (dev s) pll_post_divider3"
  obtain z where z: "H_RD32 M (SCU rst_cause) (scu_setup M s) = (reg (dev s) rst_cause, z)" "quiet ready reg (scu_setup M s) z"
    using load_cause [of "scu_setup M s"] r by (auto simp: setup_reg)
  have c: "reg (dev s) rst_cause AND SCU_RST_CAUSE_SOFT = 0"
    using cold and_single_bit_iff [of "reg (dev s) rst_cause" 1] by (simp add: SCU_RST_CAUSE_SOFT_def)
  have gz: "frame s z" "ready (dev z)" "reg (dev z) = (reg (dev s))(bme_map0 := 0xAF800000)"
    using z(2) setup_frame frame_trans by (auto simp: quiet_def setup_reg)
  define p where "p = set_dividers M (if CHIP_7175 = gChipType z \<or> CHIP_7185HP = gChipType z then scu_wr M spare0 0x4009 z else z)"
  have p: "ready (dev p)" "gSysClock p = (if slow_chip (gChipType s) then 200 * 1000000 else 250 * 1000000)"
    "reg (dev p) = (reg (dev s))(bme_map0 := 0xAF800000, spare0 := (if gChipType s \<in> {CHIP_7175, CHIP_7185HP} then 0x4009 else reg (dev s) spare0),
      pll_post_divider1 := (if slow_chip (gChipType s) then 0x180b6060 else 0x180b6050),
      pll_post_divider2 := (if slow_chip (gChipType s) then 0x06063033 else 0x06063022))"
    using gz frameD [OF gz(1)] by (auto simp: p_def set_dividers_reg fun_eq_iff)
  obtain a where a: "init_pll0_fixed cf M p = Some a" "ready (dev a)" "frame p a" "reg (dev a) = (reg (dev p))
    (pll_fixed_analog := 0x003fc442, pll_post_divider3 := reg (dev p) pll_post_divider3 OR 0x3,
     pll_pwr_rst := reg (dev p) pll_pwr_rst AND NOT 0x3f OR 0x1)"
    using pll0_up [OF p(1), of cf] by blast
  obtain b where b: "init_pll1_gateway cf M a = Some b" "ready (dev b)" "frame a b" "reg (dev b) = (reg (dev a))
    (pll_gateway_analog := 0x002cc642, pll_post_divider3 := (reg (dev a) pll_post_divider3 OR 0x200000) AND NOT 0x1000 OR 0xD48,
     pll_pwr_rst := reg (dev a) pll_pwr_rst AND NOT 0x3f000 OR 0x19000)"
    using pll1_up [OF a(2), of cf] by blast
  obtain x where x: "init_pll2_vcxo cf M b = Some x" "ready (dev x)" "frame b x" "reg (dev x) = (reg (dev b))
    (pll_vcxo_analog := (if VCXO_SE_MODE cf = 1 then 0x131cca88 else 0x001cca88), pll_vcxo_sigmadelta := 0x001654d6,
     pll_post_divider3 := reg (dev b) pll_post_divider3 OR 0x204,
     pll_pwr_rst := reg (dev b) pll_pwr_rst AND NOT 0xfc0 OR (if bit (reg (dev b) rst_strp) 10 then 0x40 else 0x2c0))"
    using pll2_up [OF b(2), of cf] by blast
  obtain y where y: "init_pll3_bme cf M x = Some y" "ready (dev y)" "frame x y" "reg (dev y) = (reg (dev x))
    (pll_bme_analog := 0x002cc642, pll_post_divider3 := (reg (dev x) pll_post_divider3 OR 0x400000) AND NOT 0x2000 OR 0x90,
     pll_pwr_rst := reg (dev x) pll_pwr_rst AND NOT 0xfc0000 OR 0x640000)"
    using pll3_up [OF x(2), of cf] by blast
  obtain w where w: "init_pll4_dsp cf M y = Some w" "ready (dev w)" "frame y w" "reg (dev w) = (reg (dev y))
    (pll_dsp_analog := 0x0026ce20, pll_dsp_sigmadelta := 0x00012b52,
     pll_post_divider3 := reg (dev y) pll_post_divider3 AND NOT 0x804000 OR 0x20,
     pll_pwr_rst := reg (dev y) pll_pwr_rst AND NOT 0x3f000000 OR 0x11000000)"
    using pll4_up [OF y(2), of cf] by blast
  obtain t where t: "(if 2 < DEBUG_LEVEL cf then debugDumpRegs M SCU_BASE 64 w else Some w) = Some t" "quiet ready reg w t"
  proof (cases "2 < DEBUG_LEVEL cf")
    case True
    then show ?thesis using dump_regs_quiet [OF w(2)] that by (metis (full_types))
  next
    case False
    then show ?thesis using that [of w] w(2) by (simp add: quiet_def)
  qed
  have "init_plls cf M s = Some t"
    using z(1) c a(1) b(1) x(1) y(1) w(1) t(1) nand by (simp add: init_plls_def p_def Let_def)
  moreover have "frame p t"
    using t(2) frame_trans [OF a(3) frame_trans [OF b(3) frame_trans [OF x(3) frame_trans [OF y(3) w(3)]]]]
    by (auto simp: quiet_def intro: frame_trans)
  moreover have "reg (dev t) = reg (dev w)" "ready (dev t)"
    using t(2) by (simp_all add: quiet_def)
  moreover have pw: "((((?w AND NOT 0x3f OR 0x1) AND NOT 0x3f000 OR 0x19000) AND NOT 0xfc0 OR v) AND NOT 0xfc0000 OR 0x640000) AND NOT 0x3f000000 OR 0x11000000
      = pwr_up cf (reg (dev s) rst_strp) ?w" if "v = (if bit (reg (dev s) rst_strp) 10 then 0x40 else 0x2c0)" for v
    using nand unfolding that pwr_fields pwr_up_def by (simp split: if_split)
  moreover have "reg (dev w) = (programmed cf (gChipType s) (reg (dev s)))
        (spare0 := (if gChipType s \<in> {CHIP_7175, CHIP_7185HP} then 0x4009 else reg (dev s) spare0),
         pll_post_divider3 := new_divider3 ?v, pll_pwr_rst := pwr_up cf (reg (dev s) rst_strp) ?w)"
    unfolding w(4) y(4) x(4) b(4) a(4) p(3) pw [OF refl, symmetric]
    by (rule ext) (simp add: programmed_def new_divider3_def or.assoc)
  ultimately show ?thesis
    using p(2) by (auto dest: frameD)
qed

end

subsection \<open>The two functions compared\<close>

text \<open>
  The values of the comments: from the documented reset value of \<open>pll_pwr_rst\<close> the eight steps of the PLLs that are always brought
  up, and those of the VCXO PLL, give the words that the older function notes beside them.
\<close>

definition pwr_trace :: "u32 \<Rightarrow> (u32 \<times> u32) list \<Rightarrow> u32 list" where
  "pwr_trace w ms = tl (rev (fold (\<lambda>(m, v) ws. (hd ws AND NOT m OR v) # ws) ms [w]))"

theorem old_plls_comments:
  "pwr_trace 0x0A28B282 [(0xf, 0x7), (0xf, 0x1), (0xff0, 0x1c0), (0xff0, 0x040), (0xfc0000, 0x3c0000), (0xfc0000, 0x640000),
      (0x1f000, 0x1f000), (0x1f000, 0x19000), (0xff000000, 0x17000000), (0xff000000, 0x11000000)] =
    [0x0A28B287, 0x0A28B281, 0x0A28B1C1, 0x0A28B041, 0x0A3CB041, 0x0A64B041, 0x0A65F041, 0x0A659041, 0x17659041, 0x11659041]"
  by (simp add: pwr_trace_def)


text \<open>A board with the reset values and no strap set, on a chip that gets \<open>spare0\<close>.\<close>

definition nand_config :: config where
  "nand_config = \<lparr>UARTBOOT_CODE = False, VCXO_SE_MODE = 0, DEBUG_LEVEL = 0, DDR_AUTO_DETECT = True\<rparr>"

definition cold_board :: "board sys" where
  "cold_board = \<lparr>gChipType = CHIP_7175, gSysClock = 0,
     dev = \<lparr>bregs = (\<lambda>a. if a = SCU rst_cause then 1 else if a = SCU pll_pwr_rst then 0x0A28B282
              else if a = SCU pll_post_divider3 then 0x4D000FFF else 0), bouts = [], bcount = 0\<rparr>, mem = (\<lambda>_. 0)\<rparr>"


end
