(* ===== verification/Bhdr.thy ===== *)
theory Bhdr
  imports Crc_Old
begin

unbundle bit_operations_syntax

section \<open>The boot header tool (tools/src/bh/bhdr.c)\<close>

text \<open>
  The host program that prepends a NAND or an SPI boot header to a binary. \<open>int\<close> and \<open>unsigned long\<close> are
  32 bits: the dependency file beside the program is of an i386 host. The C library the program calls is
  modelled where the program depends on it: \<open>getopt\<close> with its option string and its reordering of
  operands, \<open>strtoul\<close> with base 0, and a file system of named byte sequences in which a file can be
  missing, unreadable or not creatable and the disk can be full. A file is at most \<open>2^31 - 1\<close> bytes, the
  limit of \<open>stat\<close> on such a host.
\<close>

definition NAND_MAGIC :: u32 where "NAND_MAGIC = 0x4c424348"
definition SPI_BOOT_SIG :: u8 where "SPI_BOOT_SIG = 0x4d"

record nand_header =
  magic_3 :: u8
  magic_2 :: u8
  magic_1 :: u8
  magic_0 :: u8
  bootstrap_len_3 :: u8
  bootstrap_len_2 :: u8
  bootstrap_len_1 :: u8
  bootstrap_len_0 :: u8
  timing0_3 :: u8
  timing0_2 :: u8
  timing0_1 :: u8
  timing0_0 :: u8
  timing1_3 :: u8
  timing1_2 :: u8
  timing1_1 :: u8
  timing1_0 :: u8
  bootstrap_crc_3 :: u8
  bootstrap_crc_2 :: u8
  bootstrap_crc_1 :: u8
  bootstrap_crc_0 :: u8
  header_crc_3 :: u8
  header_crc_2 :: u8
  header_crc_1 :: u8
  header_crc_0 :: u8

record spi_header =
  spi_boot_sig1 :: u8
  proglen_2 :: u8
  proglen_1 :: u8
  proglen_0 :: u8
  progld_3 :: u8
  progld_2 :: u8
  progld_1 :: u8
  progld_0 :: u8
  progcrc_3 :: u8
  progcrc_2 :: u8
  progcrc_1 :: u8
  progcrc_0 :: u8
  hdrcrc_3 :: u8
  hdrcrc_2 :: u8
  hdrcrc_1 :: u8
  hdrcrc_0 :: u8

text \<open>The two members of the union \<open>hdr\<close>; \<open>nand\<close> says which one is in use.\<close>

record cb =
  nand :: bool
  nand_hdr :: nand_header
  spi_hdr :: spi_header
  binary_file_name :: string
  output_file_name :: string

text \<open>The packed structures as the bytes \<open>fwrite\<close> sees.\<close>

definition nand_header_bytes :: "nand_header \<Rightarrow> u8 list" where
  "nand_header_bytes h =
     [magic_3 h, magic_2 h, magic_1 h, magic_0 h,
      bootstrap_len_3 h, bootstrap_len_2 h, bootstrap_len_1 h, bootstrap_len_0 h,
      timing0_3 h, timing0_2 h, timing0_1 h, timing0_0 h,
      timing1_3 h, timing1_2 h, timing1_1 h, timing1_0 h,
      bootstrap_crc_3 h, bootstrap_crc_2 h, bootstrap_crc_1 h, bootstrap_crc_0 h,
      header_crc_3 h, header_crc_2 h, header_crc_1 h, header_crc_0 h]"

definition spi_header_bytes :: "spi_header \<Rightarrow> u8 list" where
  "spi_header_bytes h =
     [spi_boot_sig1 h, proglen_2 h, proglen_1 h, proglen_0 h,
      progld_3 h, progld_2 h, progld_1 h, progld_0 h,
      progcrc_3 h, progcrc_2 h, progcrc_1 h, progcrc_0 h,
      hdrcrc_3 h, hdrcrc_2 h, hdrcrc_1 h, hdrcrc_0 h]"

text \<open>\<open>(v >> 8 * n) & 0xff\<close> as an \<open>unsigned char\<close>.\<close>

definition byte_of :: "u32 \<Rightarrow> nat \<Rightarrow> u8" where
  "byte_of v n = ucast (drop_bit (8 * n) v AND 0xff)"

subsection \<open>The CRC of the tool\<close>

definition init_crc_table :: "u32 list" where
  "init_crc_table = map (\<lambda>i.
     ((\<lambda>crc. if crc AND 1 \<noteq> 0 then drop_bit 1 crc XOR 0xEDB88320 else drop_bit 1 crc) ^^ 8) (of_nat i)) [0..<256]"

definition update_crc32 :: "u32 list \<Rightarrow> u32 \<Rightarrow> u8 \<Rightarrow> u32" where
  "update_crc32 crc32table crc data =
     drop_bit 8 crc XOR crc32table ! unat ((ucast data XOR crc) AND 0xff)"

definition reset_crc32 :: u32 where
  "reset_crc32 = 0xffffffff"

subsection \<open>The command line\<close>

text \<open>
  An option character with its argument, as \<open>getopt\<close> returns it; \<open>'?'\<close> is an unknown option or a missing
  argument. One argument vector element can hold several options.
\<close>

fun getopt_cluster :: "string \<Rightarrow> (char \<times> string) list \<times> char option" where
  "getopt_cluster [] = ([], None)"
| "getopt_cluster (c # cs) =
     (if c = CHR ''s'' then apfst ((#) (c, [])) (getopt_cluster cs)
      else if c \<in> {CHR ''0'', CHR ''1'', CHR ''l''} then (if cs = [] then ([], Some c) else ([(c, cs)], None))
      else apfst ((#) (CHR ''?'', [])) (getopt_cluster cs))"

definition is_option :: "string \<Rightarrow> bool" where
  "is_option a \<longleftrightarrow> 1 < length a \<and> hd a = CHR ''-''"

text \<open>The options in order and the operands \<open>argv[optind..]\<close>, which \<open>getopt\<close> moves behind the options.\<close>

function getopt :: "string list \<Rightarrow> (char \<times> string) list \<times> string list" where
  "getopt [] = ([], [])"
| "getopt (a # as) =
     (if a = ''--'' then ([], as)
      else if \<not> is_option a then apsnd ((#) a) (getopt as)
      else (case getopt_cluster (tl a) of
              (os, None) \<Rightarrow> apfst ((@) os) (getopt as)
            | (os, Some c) \<Rightarrow>
                (case as of [] \<Rightarrow> (os @ [(CHR ''?'', [])], [])
                 | v # as' \<Rightarrow> apfst (\<lambda>r. os @ (c, v) # r) (getopt as'))))"
  by pat_completeness auto
termination by (relation "measure length") auto

definition digit_val :: "char \<Rightarrow> nat" where
  "digit_val c = (let n = of_char c :: nat in
     if 48 \<le> n \<and> n \<le> 57 then n - 48 else if 97 \<le> n \<and> n \<le> 122 then n - 87
     else if 65 \<le> n \<and> n \<le> 90 then n - 55 else 99)"

fun strtoul_digits :: "nat \<Rightarrow> nat \<Rightarrow> string \<Rightarrow> nat" where
  "strtoul_digits base v [] = v"
| "strtoul_digits base v (c # cs) =
     (if digit_val c < base then strtoul_digits base (base * v + digit_val c) cs else v)"

text \<open>\<open>strtoul(s, 0, 0)\<close>: blanks, a sign, the prefix that chooses the base, saturation.\<close>

definition strtoul :: "string \<Rightarrow> u32" where
  "strtoul s =
     (let s = dropWhile (\<lambda>c. c = CHR '' '' \<or> (9 \<le> (of_char c :: nat) \<and> (of_char c :: nat) \<le> 13)) s;
          neg = (s \<noteq> [] \<and> hd s = CHR ''-'');
          s = (if s \<noteq> [] \<and> hd s \<in> {CHR ''-'', CHR ''+''} then tl s else s);
          v = (case s of
                 c # x # d # cs \<Rightarrow>
                   if c = CHR ''0'' \<and> x \<in> {CHR ''x'', CHR ''X''} \<and> digit_val d < 16 then strtoul_digits 16 0 (d # cs)
                   else strtoul_digits (if c = CHR ''0'' then 8 else 10) 0 s
               | c # cs \<Rightarrow> strtoul_digits (if c = CHR ''0'' then 8 else 10) 0 s
               | [] \<Rightarrow> 0)
      in if 2 ^ 32 \<le> v then -1 else if neg then - of_nat v else of_nat v)"

record opts =
  s_opt_set :: bool
  zero_opt_set :: bool
  one_opt_set :: bool
  zero_opt_val :: u32
  one_opt_val :: u32
  l_opt_val :: u32

definition opts0 :: opts where
  "opts0 = \<lparr>s_opt_set = False, zero_opt_set = False, one_opt_set = False,
     zero_opt_val = 0, one_opt_val = 0, l_opt_val = 0xb91d0000\<rparr>"

text \<open>The option loop; None is its \<open>return -1\<close>.\<close>

fun parse_opts :: "(char \<times> string) list \<Rightarrow> opts \<Rightarrow> opts option" where
  "parse_opts [] ov = Some ov"
| "parse_opts ((opt, optarg) # os) ov =
     (if opt = CHR ''s'' then
        (if zero_opt_set ov \<or> one_opt_set ov then None else parse_opts os (ov\<lparr>s_opt_set := True\<rparr>))
      else if opt = CHR ''l'' then
        (if \<not> s_opt_set ov then None else parse_opts os (ov\<lparr>l_opt_val := strtoul optarg\<rparr>))
      else if opt = CHR ''0'' then
        (if s_opt_set ov then None else parse_opts os (ov\<lparr>zero_opt_val := strtoul optarg, zero_opt_set := True\<rparr>))
      else if opt = CHR ''1'' then
        (if s_opt_set ov then None else parse_opts os (ov\<lparr>one_opt_val := strtoul optarg, one_opt_set := True\<rparr>))
      else parse_opts os ov)"

definition parse_cmd_line :: "cb \<Rightarrow> string list \<Rightarrow> cb option" where
  "parse_cmd_line cb args =
     (let (os, operands) = getopt args
      in case parse_opts os opts0 of
           None \<Rightarrow> None
         | Some ov \<Rightarrow>
             (if length operands < 2 then None
              else Some ((if s_opt_set ov
                then cb\<lparr>nand := False, spi_hdr := (spi_hdr cb)\<lparr>spi_boot_sig1 := SPI_BOOT_SIG,
                       progld_3 := byte_of (l_opt_val ov) 3, progld_2 := byte_of (l_opt_val ov) 2,
                       progld_1 := byte_of (l_opt_val ov) 1, progld_0 := byte_of (l_opt_val ov) 0\<rparr>\<rparr>
                else cb\<lparr>nand := True, nand_hdr := (nand_hdr cb)\<lparr>
                       magic_3 := byte_of NAND_MAGIC 3, magic_2 := byte_of NAND_MAGIC 2,
                       magic_1 := byte_of NAND_MAGIC 1, magic_0 := byte_of NAND_MAGIC 0,
                       timing0_3 := byte_of (zero_opt_val ov) 3, timing0_2 := byte_of (zero_opt_val ov) 2,
                       timing0_1 := byte_of (zero_opt_val ov) 1, timing0_0 := byte_of (zero_opt_val ov) 0,
                       timing1_3 := byte_of (one_opt_val ov) 3, timing1_2 := byte_of (one_opt_val ov) 2,
                       timing1_1 := byte_of (one_opt_val ov) 1, timing1_0 := byte_of (one_opt_val ov) 0\<rparr>\<rparr>)
                \<lparr>binary_file_name := operands ! 0, output_file_name := operands ! 1\<rparr>)))"

subsection \<open>Files\<close>

record fs =
  contents :: "string \<Rightarrow> u8 list option"
  can_read :: "string \<Rightarrow> bool"
  can_create :: "string \<Rightarrow> bool"
  room :: nat

text \<open>\<open>st_size\<close>, the contents of a stream opened for reading, and a stream opened with mode \<open>w+\<close>.\<close>

definition stat_size :: "fs \<Rightarrow> string \<Rightarrow> nat option" where
  "stat_size s name = (case contents s name of None \<Rightarrow> None | Some data \<Rightarrow> if length data < 2 ^ 31 then Some (length data) else None)"

definition fopen_r :: "fs \<Rightarrow> string \<Rightarrow> u8 list option" where
  "fopen_r s name = (if can_read s name then contents s name else None)"

definition fopen_w :: "fs \<Rightarrow> string \<Rightarrow> fs option" where
  "fopen_w s name = (if can_create s name then Some (s\<lparr>contents := (contents s)(name \<mapsto> [])\<rparr>) else None)"

definition fwrite :: "fs \<Rightarrow> string \<Rightarrow> u8 list \<Rightarrow> nat \<times> fs" where
  "fwrite s name data =
     (let n = min (length data) (room s)
      in (n, s\<lparr>contents := (contents s)(name \<mapsto> (case contents s name of None \<Rightarrow> [] | Some c \<Rightarrow> c) @ take n data), room := room s - n\<rparr>))"

definition get_binary_file_length :: "cb \<Rightarrow> fs \<Rightarrow> cb option" where
  "get_binary_file_length cb s =
     (case stat_size s (binary_file_name cb) of
        None \<Rightarrow> None
      | Some st_size \<Rightarrow>
          Some (if nand cb
            then let len = drop_bit 2 (of_nat st_size + 24 + 3 :: u32)
                 in cb\<lparr>nand_hdr := (nand_hdr cb)\<lparr>bootstrap_len_3 := ucast (drop_bit 24 len), bootstrap_len_2 := ucast (drop_bit 16 len),
                       bootstrap_len_1 := ucast (drop_bit 8 len), bootstrap_len_0 := ucast len\<rparr>\<rparr>
            else cb\<lparr>spi_hdr := (spi_hdr cb)\<lparr>proglen_2 := byte_of (of_nat st_size) 2, proglen_1 := byte_of (of_nat st_size) 1,
                       proglen_0 := byte_of (of_nat st_size) 0\<rparr>\<rparr>))"

subsection \<open>Checksums\<close>

text \<open>The read loop, 256 bytes at a time, and the padding loop.\<close>

function crc_read :: "u32 list \<Rightarrow> u32 \<Rightarrow> nat \<Rightarrow> u8 list \<Rightarrow> u32 \<times> nat" where
  "crc_read tab crc bytes_read data =
     (let buf = take 256 data
      in if 0 < length buf then crc_read tab (foldl (update_crc32 tab) crc buf) (bytes_read + length buf) (drop 256 data)
         else (crc, bytes_read))"
  by pat_completeness auto
termination by (relation "measure (\<lambda>(_, _, _, data). length data)") auto

function crc_pad :: "u32 list \<Rightarrow> u32 \<Rightarrow> nat \<Rightarrow> u32" where
  "crc_pad tab crc bytes_read =
     (if bytes_read mod 4 \<noteq> 0 then crc_pad tab (update_crc32 tab crc 0) (bytes_read + 1) else crc)"
  by pat_completeness auto
termination
  by (relation "measure (\<lambda>(_, _, n). (4 - n mod 4) mod 4)") (auto simp: mod_Suc)

declare crc_read.simps [simp del] crc_pad.simps [simp del]

definition do_crc32_program_data :: "u32 list \<Rightarrow> cb \<Rightarrow> fs \<Rightarrow> cb option" where
  "do_crc32_program_data tab cb s =
     (case fopen_r s (binary_file_name cb) of
        None \<Rightarrow> None
      | Some data \<Rightarrow>
          (let (crc, bytes_read) = crc_read tab reset_crc32 0 data;
               crc = crc_pad tab crc bytes_read
           in Some (if nand cb
             then cb\<lparr>nand_hdr := (nand_hdr cb)\<lparr>bootstrap_crc_3 := byte_of crc 3, bootstrap_crc_2 := byte_of crc 2,
                    bootstrap_crc_1 := byte_of crc 1, bootstrap_crc_0 := byte_of crc 0\<rparr>\<rparr>
             else cb\<lparr>spi_hdr := (spi_hdr cb)\<lparr>progcrc_3 := byte_of crc 3, progcrc_2 := byte_of crc 2,
                    progcrc_1 := byte_of crc 1, progcrc_0 := byte_of crc 0\<rparr>\<rparr>)))"

definition do_crc32_hdr :: "u32 list \<Rightarrow> cb \<Rightarrow> cb" where
  "do_crc32_hdr tab cb =
     (if nand cb
      then let h = nand_hdr cb;
               crc = foldl (update_crc32 tab) reset_crc32
                 [bootstrap_len_3 h, bootstrap_len_2 h, bootstrap_len_1 h, bootstrap_len_0 h,
                  timing0_3 h, timing0_2 h, timing0_1 h, timing0_0 h,
                  timing1_3 h, timing1_2 h, timing1_1 h, timing1_0 h,
                  bootstrap_crc_3 h, bootstrap_crc_2 h, bootstrap_crc_1 h, bootstrap_crc_0 h]
           in cb\<lparr>nand_hdr := h\<lparr>header_crc_3 := byte_of crc 3, header_crc_2 := byte_of crc 2,
                 header_crc_1 := byte_of crc 1, header_crc_0 := byte_of crc 0\<rparr>\<rparr>
      else let h = spi_hdr cb;
               crc = foldl (update_crc32 tab) reset_crc32
                 [spi_boot_sig1 h, proglen_2 h, proglen_1 h, proglen_0 h,
                  progld_3 h, progld_2 h, progld_1 h, progld_0 h,
                  progcrc_3 h, progcrc_2 h, progcrc_1 h, progcrc_0 h]
           in cb\<lparr>spi_hdr := h\<lparr>hdrcrc_3 := byte_of crc 3, hdrcrc_2 := byte_of crc 2,
                 hdrcrc_1 := byte_of crc 1, hdrcrc_0 := byte_of crc 0\<rparr>\<rparr>)"

definition do_csum :: "u32 list \<Rightarrow> cb \<Rightarrow> fs \<Rightarrow> cb option" where
  "do_csum tab cb s = map_option (do_crc32_hdr tab) (do_crc32_program_data tab cb s)"

subsection \<open>Output\<close>

text \<open>The copy loop and the padding loop; False is \<open>return -1\<close>.\<close>

function copy_loop :: "fs \<Rightarrow> string \<Rightarrow> nat \<Rightarrow> u8 list \<Rightarrow> (nat option \<times> fs)" where
  "copy_loop s out bytes_written data =
     (let buf = take 256 data
      in if 0 < length buf
         then (let (n, s) = fwrite s out buf
               in if n \<noteq> length buf then (None, s) else copy_loop s out (bytes_written + length buf) (drop 256 data))
         else (Some bytes_written, s))"
  by pat_completeness auto
termination by (relation "measure (\<lambda>(_, _, _, data). length data)") auto

function pad_loop :: "fs \<Rightarrow> string \<Rightarrow> nat \<Rightarrow> bool \<times> fs" where
  "pad_loop s out bytes_written =
     (if bytes_written mod 4 \<noteq> 0
      then (let (n, s) = fwrite s out [0] in if n \<noteq> 1 then (False, s) else pad_loop s out (bytes_written + 1))
      else (True, s))"
  by pat_completeness auto
termination
  by (relation "measure (\<lambda>(_, _, n). (4 - n mod 4) mod 4)") (auto simp: mod_Suc)

declare copy_loop.simps [simp del] pad_loop.simps [simp del]

definition write_output_file :: "cb \<Rightarrow> fs \<Rightarrow> bool \<times> fs" where
  "write_output_file cb s =
     (case fopen_w s (output_file_name cb) of
        None \<Rightarrow> (False, s)
      | Some s \<Rightarrow>
          (case fopen_r s (binary_file_name cb) of
             None \<Rightarrow> (False, s)
           | Some data \<Rightarrow>
               (let hdr = (if nand cb then nand_header_bytes (nand_hdr cb) else spi_header_bytes (spi_hdr cb));
                    (n, s) = fwrite s (output_file_name cb) hdr
                in if n \<noteq> length hdr then (False, s)
                   else (case copy_loop s (output_file_name cb) 0 data of
                           (None, s) \<Rightarrow> (False, s)
                         | (Some bytes_written, s) \<Rightarrow> pad_loop s (output_file_name cb) bytes_written))))"

text \<open>What \<open>print_header\<close> prints.\<close>

datatype report =
    CouldNotOpen
  | UnableToReadHeader
  | SPI_Image u8 u32
  | NAND_Image u32 u32 u32 u32
  | NotRecognised "u8 list"

definition be32_at :: "u8 list \<Rightarrow> nat \<Rightarrow> u32" where
  "be32_at p i = be32_of_bytes (p ! i) (p ! (i + 1)) (p ! (i + 2)) (p ! (i + 3))"

definition print_header :: "cb \<Rightarrow> fs \<Rightarrow> report" where
  "print_header cb s =
     (case fopen_r s (output_file_name cb) of
        None \<Rightarrow> CouldNotOpen
      | Some data \<Rightarrow>
          (let hdr = take 24 data
           in if length hdr \<noteq> 24 then UnableToReadHeader
              else if hdr ! 0 = SPI_BOOT_SIG
              then SPI_Image (hdr ! 0) (ucast (hdr ! 3) + push_bit 8 (ucast (hdr ! 2)) + push_bit 16 (ucast (hdr ! 1)))
              else if be32_at hdr 0 = NAND_MAGIC
              then NAND_Image (be32_at hdr 0) (be32_at hdr 8) (be32_at hdr 12) (push_bit 2 (be32_at hdr 4))
              else NotRecognised hdr))"

datatype outcome = Usage | DoesNotExist | CsumFailed | UnableToWrite | Done report

definition bh_main :: "cb \<Rightarrow> string list \<Rightarrow> fs \<Rightarrow> outcome \<times> fs" where
  "bh_main cb args s =
     (case parse_cmd_line cb args of
        None \<Rightarrow> (Usage, s)
      | Some cb \<Rightarrow>
          (case get_binary_file_length cb s of
             None \<Rightarrow> (DoesNotExist, s)
           | Some cb \<Rightarrow>
               (case do_csum init_crc_table cb s of
                  None \<Rightarrow> (CsumFailed, s)
                | Some cb \<Rightarrow>
                    (case write_output_file cb s of
                       (False, s) \<Rightarrow> (UnableToWrite, s)
                     | (True, s) \<Rightarrow> (Done (print_header cb s), s)))))"

subsection \<open>The CRC is that of the kernel routine\<close>

lemma lsb_step_if: "(\<lambda>crc. if crc AND 1 \<noteq> 0 then drop_bit 1 crc XOR 0xEDB88320 else drop_bit 1 crc) = lsb_step CRCPOLY_LE"
  by (rule ext) (simp add: lsb_step_def CRCPOLY_LE_def)

interpretation bh: crc_table "lsb_step CRCPOLY_LE" lsb_feed ucast "drop_bit 8" init_crc_table
proof (intro crc_table.intro crc_register_lsb crc_table_axioms.intro)
  fix i :: nat
  assume "i < 256"
  then have "(of_nat i :: u32) = lsb_feed (of_nat i)"
    by (simp add: lsb_feed_def word_eq_iff_unsigned unsigned_of_nat unsigned_ucast_eq take_bit_nat_eq_self)
  then show "init_crc_table ! i = (lsb_step CRCPOLY_LE ^^ 8) (lsb_feed (of_nat i))"
    using \<open>i < 256\<close> unfolding init_crc_table_def lsb_step_if by simp
qed (simp add: lsb_shift_out)

lemma update_crc32_byte: "update_crc32 init_crc_table crc b = crc_byte (lsb_step CRCPOLY_LE) lsb_feed crc b"
proof -
  have "unat ((ucast b XOR crc) AND 0xff) = unat (b XOR ucast crc)"
    using unat_and_255 [of "ucast b XOR crc"] by (simp add: ucast_u8_xor)
  then show ?thesis
    using bh.lookup [of b crc] by (simp add: update_crc32_def xor.commute)
qed

lemma update_run: "foldl (update_crc32 init_crc_table) crc p = crc32_le_1 crc p"
proof -
  have "update_crc32 init_crc_table = crc_byte (lsb_step CRCPOLY_LE) lsb_feed"
    by (simp add: fun_eq_iff update_crc32_byte)
  then show ?thesis by (simp add: crc32_le_1_run crc_run_def)
qed

subsection \<open>The loops\<close>

lemma crc_read_all: "crc_read tab crc n data = (foldl (update_crc32 tab) crc data, n + length data)"
proof (induction tab crc n data rule: crc_read.induct)
  case (1 tab crc n data)
  show ?case
  proof (cases "data = []")
    case False
    then have "crc_read tab crc n data = crc_read tab (foldl (update_crc32 tab) crc (take 256 data))
        (n + length (take 256 data)) (drop 256 data)"
      by (subst crc_read.simps) (simp add: Let_def)
    also have "\<dots> = (foldl (update_crc32 tab) (foldl (update_crc32 tab) crc (take 256 data)) (drop 256 data),
        n + length (take 256 data) + length (drop 256 data))"
      using 1 False by simp
    finally show ?thesis
      unfolding foldl_append [symmetric] by simp
  qed (subst crc_read.simps, simp)
qed

definition pad_len :: "nat \<Rightarrow> nat" where
  "pad_len n = (4 - n mod 4) mod 4"

lemma pad_len_Suc: "n mod 4 \<noteq> 0 \<Longrightarrow> pad_len n = Suc (pad_len (Suc n))"
  by (auto simp: pad_len_def mod_Suc)

lemma pad_len_0: "n mod 4 = 0 \<Longrightarrow> pad_len n = 0"
  by (simp add: pad_len_def)

lemma crc_pad_all: "crc_pad tab crc n = foldl (update_crc32 tab) crc (replicate (pad_len n) 0)"
proof (induction tab crc n rule: crc_pad.induct)
  case (1 tab crc n)
  then show ?case
    by (subst crc_pad.simps) (simp add: pad_len_Suc pad_len_0)
qed

lemma copy_loop_all:
  "contents s out = Some c \<Longrightarrow> length data \<le> room s \<Longrightarrow>
   copy_loop s out n data =
     (Some (n + length data), s\<lparr>contents := (contents s)(out \<mapsto> c @ data), room := room s - length data\<rparr>)"
proof (induction s out n data arbitrary: c rule: copy_loop.induct)
  case (1 s out n data)
  show ?case
  proof (cases "data = []")
    case True
    have "s\<lparr>contents := (contents s)(out \<mapsto> c), room := room s\<rparr> = s"
      using 1(2) by (simp add: fun_upd_idem)
    then show ?thesis
      using True 1(2) by (subst copy_loop.simps) (simp add: map_upd_triv)
  next
    case False
    let ?b = "take 256 data"
    let ?s = "s\<lparr>contents := (contents s)(out \<mapsto> c @ ?b), room := room s - length ?b\<rparr>"
    have "min (length ?b) (room s) = length ?b" using 1(3) by simp
    then have w: "fwrite s out ?b = (length ?b, ?s)"
      unfolding fwrite_def Let_def using 1(2) by (simp only: option.case take_all order_refl)
    have "copy_loop s out n data = copy_loop ?s out (n + length ?b) (drop 256 data)"
      using False w by (subst copy_loop.simps) (simp add: Let_def)
    also have "\<dots> = (Some (n + length ?b + length (drop 256 data)),
       ?s\<lparr>contents := (contents ?s)(out \<mapsto> (c @ ?b) @ drop 256 data), room := room ?s - length (drop 256 data)\<rparr>)"
      using False 1(3) by (intro 1(1) [OF refl _ w [symmetric] refl]) (auto simp: w)
    finally have "fst (copy_loop s out n data) = Some (n + length data)"
      "snd (copy_loop s out n data) = s\<lparr>contents := (contents s)(out \<mapsto> c @ data), room := room s - length data\<rparr>"
      using 1(3) by (simp, intro fs.equality) (auto simp: min_def)
    then show ?thesis by (metis prod.collapse)
  qed
qed

lemma pad_loop_all:
  "contents s out = Some c \<Longrightarrow> pad_len n \<le> room s \<Longrightarrow>
   pad_loop s out n =
     (True, s\<lparr>contents := (contents s)(out \<mapsto> c @ replicate (pad_len n) 0), room := room s - pad_len n\<rparr>)"
proof (induction s out n arbitrary: c rule: pad_loop.induct)
  case (1 s out n)
  show ?case
  proof (cases "n mod 4 = 0")
    case True
    then show ?thesis
      using 1(2) by (subst pad_loop.simps) (simp add: pad_len_0 map_upd_triv)
  next
    case False
    let ?s = "s\<lparr>contents := (contents s)(out \<mapsto> c @ [0]), room := room s - 1\<rparr>"
    have w: "fwrite s out [0] = (1, ?s)"
      using 1(2,3) False by (simp add: fwrite_def Let_def pad_len_Suc)
    have "pad_loop s out n = pad_loop ?s out (n + 1)"
      using False w by (subst pad_loop.simps) (simp add: Let_def)
    also have "\<dots> = (True, ?s\<lparr>contents := (contents ?s)(out \<mapsto> (c @ [0]) @ replicate (pad_len (n + 1)) 0),
        room := room ?s - pad_len (n + 1)\<rparr>)"
      using False 1(3) by (intro 1(1) [OF _ w [symmetric]]) (auto simp: pad_len_Suc)
    finally have "fst (pad_loop s out n)"
      "snd (pad_loop s out n) = s\<lparr>contents := (contents s)(out \<mapsto> c @ replicate (pad_len n) 0), room := room s - pad_len n\<rparr>"
      using False by (simp, intro fs.equality) (auto simp: pad_len_Suc)
    then show ?thesis by (metis (full_types) prod.collapse)
  qed
qed

subsection \<open>What the tool writes\<close>

text \<open>
  The images as the loader of the chip is to find them: the header words most significant byte first,
  the program padded to a multiple of four bytes, its CRC, and the CRC of the header fields before it.
\<close>

definition padded :: "u8 list \<Rightarrow> u8 list" where
  "padded data = data @ replicate (pad_len (length data)) 0"

definition nand_fields :: "u32 \<Rightarrow> u32 \<Rightarrow> u32 \<Rightarrow> u32 \<Rightarrow> u8 list" where
  "nand_fields len t0 t1 crc = be32_bytes len @ be32_bytes t0 @ be32_bytes t1 @ be32_bytes crc"

definition nand_image :: "u32 \<Rightarrow> u32 \<Rightarrow> u8 list \<Rightarrow> u8 list" where
  "nand_image t0 t1 data =
     (let body = padded data;
          f = nand_fields (of_nat ((24 + length body) div 4)) t0 t1 (crc32_le_1 0xffffffff body)
      in be32_bytes NAND_MAGIC @ f @ be32_bytes (crc32_le_1 0xffffffff f) @ body)"

definition spi_image :: "u32 \<Rightarrow> u8 list \<Rightarrow> u8 list" where
  "spi_image ld data =
     (let body = padded data;
          f = SPI_BOOT_SIG # tl (be32_bytes (of_nat (length data))) @ be32_bytes ld @ be32_bytes (crc32_le_1 0xffffffff body)
      in f @ be32_bytes (crc32_le_1 0xffffffff f) @ body)"

lemma byte_of_eq: "byte_of v n = ucast (drop_bit (8 * n) v)"
  by (rule bit_word_eqI) (auto simp: byte_of_def bit_simps and_0xff)

lemma byte_of_be32: "[byte_of v 3, byte_of v 2, byte_of v 1, byte_of v 0] = be32_bytes v"
  by (simp add: byte_of_eq be32_bytes_def)

lemma pad_len_less: "pad_len n < 4"
  by (simp add: pad_len_def)

lemma padded_mod: "(n + pad_len n) mod 4 = 0"
proof -
  have "n mod 4 < 4" by simp
  then have "(n mod 4 + pad_len n) mod 4 = 0"
    by (cases "n mod 4 = 0") (simp_all add: pad_len_def)
  then show ?thesis by (simp add: mod_add_left_eq)
qed

lemma len_word:
  assumes "n < 2 ^ 31"
  shows "drop_bit 2 (of_nat n + 24 + 3 :: u32) = of_nat ((24 + (n + pad_len n)) div 4)"
proof -
  have "unat (of_nat n + 24 + 3 :: u32) = n + 27"
    using assms by (simp add: unat_word_ariths unsigned_of_nat take_bit_nat_eq_self)
  then have "unat (drop_bit 2 (of_nat n + 24 + 3 :: u32)) = (n + 27) div 4"
    by (simp add: drop_bit_eq_div unat_div)
  also have "\<dots> = (24 + (n + pad_len n)) div 4"
  proof -
    obtain q r where n: "n = 4 * q + r" "r < 4"
      using mod_less_divisor [of 4 n] mult_div_mod_eq [of 4 n] by (metis zero_less_numeral)
    then have "r \<in> {0, 1, 2, 3}" by auto
    then show ?thesis unfolding n(1) pad_len_def by auto
  qed
  finally show ?thesis
    by (metis of_nat_unat ucast_id)
qed

lemma write_output_all:
  assumes io: "can_create s out" "can_read s bin" "contents s bin = Some data" "bin \<noteq> out" "27 + length data \<le> room s"
    and cb: "binary_file_name cb = bin" "output_file_name cb = out"
    and hdr: "hdr = (if nand cb then nand_header_bytes (nand_hdr cb) else spi_header_bytes (spi_hdr cb))"
  shows "write_output_file cb s =
    (True, s\<lparr>contents := (contents s)(out \<mapsto> hdr @ padded data), room := room s - length (hdr @ padded data)\<rparr>)"
proof -
  let ?s1 = "s\<lparr>contents := (contents s)(out \<mapsto> [])\<rparr>"
  let ?s2 = "s\<lparr>contents := (contents s)(out \<mapsto> hdr), room := room s - length hdr\<rparr>"
  let ?s3 = "s\<lparr>contents := (contents s)(out \<mapsto> hdr @ data), room := room s - length hdr - length data\<rparr>"
  have len: "length hdr \<le> 24"
    by (simp add: hdr nand_header_bytes_def spi_header_bytes_def)
  have "fwrite ?s1 out hdr = (length hdr, ?s2)"
    using len io(5) by (simp add: fwrite_def Let_def min_def)
  moreover have "copy_loop ?s2 out 0 data = (Some (length data), ?s3)"
    using copy_loop_all [of ?s2 out hdr data 0] len io(5) by simp
  moreover have "pad_loop ?s3 out (length data) = (True, s\<lparr>contents := (contents s)(out \<mapsto> hdr @ padded data),
      room := room s - length (hdr @ padded data)\<rparr>)"
    using pad_loop_all [of ?s3 out "hdr @ data" "length data"] len io(5) pad_len_less [of "length data"]
    by (simp add: padded_def)
  moreover have "fopen_r ?s1 bin = Some data"
    using io by (simp add: fopen_r_def)
  ultimately show ?thesis
    unfolding write_output_file_def cb fopen_w_def hdr [symmetric] using io(1) by (simp add: Let_def)
qed

text \<open>The run of the tool on a parsed command line, up to the file that is written.\<close>

lemma csum_of:
  assumes "can_read s (binary_file_name cb)" "contents s (binary_file_name cb) = Some data"
  shows "do_csum init_crc_table cb s = Some (do_crc32_hdr init_crc_table
    (let crc = crc32_le_1 0xffffffff (padded data) in if nand cb
     then cb\<lparr>nand_hdr := (nand_hdr cb)\<lparr>bootstrap_crc_3 := byte_of crc 3, bootstrap_crc_2 := byte_of crc 2,
            bootstrap_crc_1 := byte_of crc 1, bootstrap_crc_0 := byte_of crc 0\<rparr>\<rparr>
     else cb\<lparr>spi_hdr := (spi_hdr cb)\<lparr>progcrc_3 := byte_of crc 3, progcrc_2 := byte_of crc 2,
            progcrc_1 := byte_of crc 1, progcrc_0 := byte_of crc 0\<rparr>\<rparr>))"
proof -
  have "crc_pad init_crc_table (foldl (update_crc32 init_crc_table) reset_crc32 data) (length data) =
      crc32_le_1 0xffffffff (padded data)"
    unfolding update_run [symmetric] by (simp only: crc_pad_all padded_def foldl_append reset_crc32_def)
  then show ?thesis
    using assms by (simp add: do_csum_def do_crc32_program_data_def fopen_r_def crc_read_all Let_def)
qed

definition tool_ok :: "fs \<Rightarrow> string \<Rightarrow> string \<Rightarrow> u8 list \<Rightarrow> bool" where
  "tool_ok s bin out data \<longleftrightarrow> contents s bin = Some data \<and> length data < 2 ^ 31 \<and> can_read s bin
     \<and> can_create s out \<and> can_read s out \<and> bin \<noteq> out \<and> 27 + length data \<le> room s"

lemma be32_of_byte_of:
  "be32_of_bytes (byte_of v 3) (byte_of v 2) (byte_of v 1) (byte_of v 0) = v"
  by (simp add: byte_of_eq)

lemma nand_prepare:
  assumes o: "contents s bin = Some data" "length data < 2 ^ 31" "can_read s bin"
    and opts: "getopt args = (os, bin # out # rest)" "parse_opts os opts0 = Some ov" "\<not> s_opt_set ov"
  shows "\<exists>cb1 cb2 cb4. parse_cmd_line cb args = Some cb1 \<and> get_binary_file_length cb1 s = Some cb2
    \<and> do_csum init_crc_table cb2 s = Some cb4 \<and> nand cb4 \<and> binary_file_name cb4 = bin \<and> output_file_name cb4 = out
    \<and> nand_header_bytes (nand_hdr cb4) @ padded data = nand_image (zero_opt_val ov) (one_opt_val ov) data"
proof -
  let ?n = "(nand_hdr cb)\<lparr>magic_3 := byte_of NAND_MAGIC 3, magic_2 := byte_of NAND_MAGIC 2,
     magic_1 := byte_of NAND_MAGIC 1, magic_0 := byte_of NAND_MAGIC 0,
     timing0_3 := byte_of (zero_opt_val ov) 3, timing0_2 := byte_of (zero_opt_val ov) 2,
     timing0_1 := byte_of (zero_opt_val ov) 1, timing0_0 := byte_of (zero_opt_val ov) 0,
     timing1_3 := byte_of (one_opt_val ov) 3, timing1_2 := byte_of (one_opt_val ov) 2,
     timing1_1 := byte_of (one_opt_val ov) 1, timing1_0 := byte_of (one_opt_val ov) 0\<rparr>"
  let ?len = "of_nat ((24 + length (padded data)) div 4) :: u32"
  let ?crc = "crc32_le_1 0xffffffff (padded data)"
  let ?f = "nand_fields ?len (zero_opt_val ov) (one_opt_val ov) ?crc"
  let ?hcrc = "crc32_le_1 0xffffffff ?f"
  define cb1 where "cb1 = cb\<lparr>nand := True, nand_hdr := ?n, binary_file_name := bin, output_file_name := out\<rparr>"
  define cb2 where "cb2 = cb1\<lparr>nand_hdr := ?n\<lparr>bootstrap_len_3 := byte_of ?len 3, bootstrap_len_2 := byte_of ?len 2,
     bootstrap_len_1 := byte_of ?len 1, bootstrap_len_0 := byte_of ?len 0\<rparr>\<rparr>"
  define cb3 where "cb3 = cb2\<lparr>nand_hdr := (nand_hdr cb2)\<lparr>bootstrap_crc_3 := byte_of ?crc 3, bootstrap_crc_2 := byte_of ?crc 2,
     bootstrap_crc_1 := byte_of ?crc 1, bootstrap_crc_0 := byte_of ?crc 0\<rparr>\<rparr>"
  define cb4 where "cb4 = cb3\<lparr>nand_hdr := (nand_hdr cb3)\<lparr>header_crc_3 := byte_of ?hcrc 3, header_crc_2 := byte_of ?hcrc 2,
     header_crc_1 := byte_of ?hcrc 1, header_crc_0 := byte_of ?hcrc 0\<rparr>\<rparr>"
  have 1: "parse_cmd_line cb args = Some cb1"
    using opts by (simp add: parse_cmd_line_def cb1_def)
  have len: "?len = drop_bit 2 (of_nat (length data) + 24 + 3)"
    using len_word [of "length data"] o by (simp add: padded_def)
  have 2: "get_binary_file_length cb1 s = Some cb2"
    using o unfolding cb2_def len by (simp add: get_binary_file_length_def stat_size_def cb1_def byte_of_eq)
  have 3: "do_csum init_crc_table cb2 s = Some (do_crc32_hdr init_crc_table cb3)"
    using csum_of [of s cb2 data] o by (simp add: cb3_def cb2_def cb1_def Let_def)
  have f: "?f = [bootstrap_len_3 (nand_hdr cb3), bootstrap_len_2 (nand_hdr cb3), bootstrap_len_1 (nand_hdr cb3), bootstrap_len_0 (nand_hdr cb3),
      timing0_3 (nand_hdr cb3), timing0_2 (nand_hdr cb3), timing0_1 (nand_hdr cb3), timing0_0 (nand_hdr cb3),
      timing1_3 (nand_hdr cb3), timing1_2 (nand_hdr cb3), timing1_1 (nand_hdr cb3), timing1_0 (nand_hdr cb3),
      bootstrap_crc_3 (nand_hdr cb3), bootstrap_crc_2 (nand_hdr cb3), bootstrap_crc_1 (nand_hdr cb3), bootstrap_crc_0 (nand_hdr cb3)]"
    by (simp add: nand_fields_def byte_of_be32 [symmetric] cb3_def cb2_def)
  have n3: "nand cb3" by (simp add: cb3_def cb2_def cb1_def)
  have 4: "do_crc32_hdr init_crc_table cb3 = cb4"
    unfolding do_crc32_hdr_def if_P [OF n3] Let_def f [symmetric] update_run reset_crc32_def cb4_def ..
  have hdr: "nand_header_bytes (nand_hdr cb4) @ padded data = nand_image (zero_opt_val ov) (one_opt_val ov) data"
    by (simp add: nand_image_def Let_def nand_header_bytes_def nand_fields_def byte_of_be32 [symmetric] cb4_def cb3_def cb2_def cb1_def)
  have names: "nand cb4" "binary_file_name cb4 = bin" "output_file_name cb4 = out"
    by (simp_all add: cb4_def cb3_def cb2_def cb1_def)
  show ?thesis
    using 1 2 3 4 names hdr by auto
qed

lemma nand_run:
  assumes ok: "tool_ok s bin out data"
    and opts: "getopt args = (os, bin # out # rest)" "parse_opts os opts0 = Some ov" "\<not> s_opt_set ov"
  shows "\<exists>cb' s'. bh_main cb args s = (Done (print_header cb' s'), s') \<and> output_file_name cb' = out \<and> can_read s' = can_read s
    \<and> contents s' = (contents s)(out \<mapsto> nand_image (zero_opt_val ov) (one_opt_val ov) data)"
proof -
  note o = ok [unfolded tool_ok_def]
  obtain cb1 cb2 cb4 where p: "parse_cmd_line cb args = Some cb1" "get_binary_file_length cb1 s = Some cb2"
    "do_csum init_crc_table cb2 s = Some cb4" "nand cb4" "binary_file_name cb4 = bin" "output_file_name cb4 = out"
    "nand_header_bytes (nand_hdr cb4) @ padded data = nand_image (zero_opt_val ov) (one_opt_val ov) data"
    using nand_prepare [OF _ _ _ opts] o by blast
  define s' where "s' = s\<lparr>contents := (contents s)(out \<mapsto> nand_image (zero_opt_val ov) (one_opt_val ov) data),
      room := room s - length (nand_image (zero_opt_val ov) (one_opt_val ov) data)\<rparr>"
  have "write_output_file cb4 s = (True, s')"
    using write_output_all [of s out bin data cb4 "nand_header_bytes (nand_hdr cb4)"] o p by (simp add: s'_def)
  then have "bh_main cb args s = (Done (print_header cb4 s'), s')"
    by (simp add: bh_main_def p(1-3))
  moreover have "contents s' = (contents s)(out \<mapsto> nand_image (zero_opt_val ov) (one_opt_val ov) data)" "can_read s' = can_read s"
    by (simp_all add: s'_def)
  ultimately show ?thesis using p(6) by blast
qed

lemma spi_run:
  assumes ok: "tool_ok s bin out data"
    and opts: "getopt args = (os, bin # out # rest)" "parse_opts os opts0 = Some ov" "s_opt_set ov"
  shows "\<exists>cb' s'. bh_main cb args s = (Done (print_header cb' s'), s') \<and> output_file_name cb' = out \<and> can_read s' = can_read s
    \<and> contents s' = (contents s)(out \<mapsto> spi_image (l_opt_val ov) data)"
proof -
  let ?n = "(spi_hdr cb)\<lparr>spi_boot_sig1 := SPI_BOOT_SIG,
     progld_3 := byte_of (l_opt_val ov) 3, progld_2 := byte_of (l_opt_val ov) 2,
     progld_1 := byte_of (l_opt_val ov) 1, progld_0 := byte_of (l_opt_val ov) 0\<rparr>"
  let ?len = "of_nat (length data) :: u32"
  let ?crc = "crc32_le_1 0xffffffff (padded data)"
  let ?f = "SPI_BOOT_SIG # tl (be32_bytes ?len) @ be32_bytes (l_opt_val ov) @ be32_bytes ?crc"
  let ?hcrc = "crc32_le_1 0xffffffff ?f"
  define cb1 where "cb1 = cb\<lparr>nand := False, spi_hdr := ?n, binary_file_name := bin, output_file_name := out\<rparr>"
  define cb2 where "cb2 = cb1\<lparr>spi_hdr := ?n\<lparr>proglen_2 := byte_of ?len 2, proglen_1 := byte_of ?len 1, proglen_0 := byte_of ?len 0\<rparr>\<rparr>"
  define cb3 where "cb3 = cb2\<lparr>spi_hdr := (spi_hdr cb2)\<lparr>progcrc_3 := byte_of ?crc 3, progcrc_2 := byte_of ?crc 2,
     progcrc_1 := byte_of ?crc 1, progcrc_0 := byte_of ?crc 0\<rparr>\<rparr>"
  define cb4 where "cb4 = cb3\<lparr>spi_hdr := (spi_hdr cb3)\<lparr>hdrcrc_3 := byte_of ?hcrc 3, hdrcrc_2 := byte_of ?hcrc 2,
     hdrcrc_1 := byte_of ?hcrc 1, hdrcrc_0 := byte_of ?hcrc 0\<rparr>\<rparr>"
  note o = ok [unfolded tool_ok_def]
  have 1: "parse_cmd_line cb args = Some cb1"
    using opts by (simp add: parse_cmd_line_def cb1_def)
  have 2: "get_binary_file_length cb1 s = Some cb2"
    using o by (simp add: get_binary_file_length_def stat_size_def cb1_def cb2_def)
  have 3: "do_csum init_crc_table cb2 s = Some (do_crc32_hdr init_crc_table cb3)"
    using csum_of [of s cb2 data] o by (simp add: cb3_def cb2_def cb1_def Let_def)
  have f: "?f = [spi_boot_sig1 (spi_hdr cb3), proglen_2 (spi_hdr cb3), proglen_1 (spi_hdr cb3), proglen_0 (spi_hdr cb3),
      progld_3 (spi_hdr cb3), progld_2 (spi_hdr cb3), progld_1 (spi_hdr cb3), progld_0 (spi_hdr cb3),
      progcrc_3 (spi_hdr cb3), progcrc_2 (spi_hdr cb3), progcrc_1 (spi_hdr cb3), progcrc_0 (spi_hdr cb3)]"
    by (simp add: byte_of_be32 [symmetric] cb3_def cb2_def)
  have n3: "\<not> nand cb3" by (simp add: cb3_def cb2_def cb1_def)
  have 4: "do_crc32_hdr init_crc_table cb3 = cb4"
    unfolding do_crc32_hdr_def if_not_P [OF n3] Let_def f [symmetric] update_run reset_crc32_def cb4_def ..
  have hdr: "spi_header_bytes (spi_hdr cb4) @ padded data = spi_image (l_opt_val ov) data"
    by (simp add: spi_image_def Let_def spi_header_bytes_def byte_of_be32 [symmetric] cb4_def cb3_def cb2_def cb1_def)
  have names: "\<not> nand cb4" "binary_file_name cb4 = bin" "output_file_name cb4 = out"
    by (simp_all add: cb4_def cb3_def cb2_def cb1_def)
  define s' where "s' = s\<lparr>contents := (contents s)(out \<mapsto> spi_image (l_opt_val ov) data),
      room := room s - length (spi_image (l_opt_val ov) data)\<rparr>"
  have "write_output_file cb4 s = (True, s')"
    using write_output_all [of s out bin data cb4 "spi_header_bytes (spi_hdr cb4)"] o names hdr by (simp add: s'_def)
  then have "bh_main cb args s = (Done (print_header cb4 s'), s')"
    by (simp add: bh_main_def 1 2 3 4)
  moreover have "contents s' = (contents s)(out \<mapsto> spi_image (l_opt_val ov) data)" "can_read s' = can_read s"
    by (simp_all add: s'_def)
  ultimately show ?thesis using names(3) by blast
qed

lemma pad_len_mod [simp]: "(n + pad_len n) mod 4 = 0"
  by (rule padded_mod)

lemma length_padded: "length (padded data) mod 4 = 0" "length data \<le> length (padded data)" "length (padded data) < length data + 4"
  using pad_len_less [of "length data"] by (simp_all add: padded_def)

lemma nand_image_words:
  "length (take 24 (nand_image t0 t1 data)) = 24" "nand_image t0 t1 data ! 0 = 0x4c"
  "be32_at (take 24 (nand_image t0 t1 data)) 0 = NAND_MAGIC"
  "be32_at (take 24 (nand_image t0 t1 data)) 4 = of_nat ((24 + length (padded data)) div 4)"
  "be32_at (take 24 (nand_image t0 t1 data)) 8 = t0" "be32_at (take 24 (nand_image t0 t1 data)) 12 = t1"
  by (simp_all add: nand_image_def Let_def nand_fields_def be32_at_def be32_bytes_def)
    (simp_all add: NAND_MAGIC_def)

lemma four_times_quarter:
  assumes "n mod 4 = 0"
  shows "push_bit 2 (of_nat (n div 4) :: u32) = of_nat n"
proof -
  have "n = 4 * (n div 4)" using assms by auto
  then have "(of_nat n :: u32) = 4 * of_nat (n div 4)" by (metis of_nat_mult of_nat_numeral)
  then show ?thesis by (simp add: push_bit_eq_mult)
qed

text \<open>
  C5. The tool refines the image format: for every NAND command line, on a disk with room, it ends with
  success, the output file is exactly the NAND image of the input and the two timing words, every other
  file is as before, and it prints the header it wrote, with the length of the file.
\<close>

theorem bh_writes_nand_image:
  assumes "tool_ok s bin out data"
    and "getopt args = (os, bin # out # rest)" "parse_opts os opts0 = Some ov" "\<not> s_opt_set ov"
  shows "\<exists>s'. bh_main cb args s =
      (Done (NAND_Image NAND_MAGIC (zero_opt_val ov) (one_opt_val ov) (of_nat (24 + length (padded data)))), s')
    \<and> contents s' = (contents s)(out \<mapsto> nand_image (zero_opt_val ov) (one_opt_val ov) data)"
proof -
  obtain cb' s' where r: "bh_main cb args s = (Done (print_header cb' s'), s')" "output_file_name cb' = out"
      "can_read s' = can_read s" "contents s' = (contents s)(out \<mapsto> nand_image (zero_opt_val ov) (one_opt_val ov) data)"
    using nand_run [OF assms] by blast
  have "fopen_r s' out = Some (nand_image (zero_opt_val ov) (one_opt_val ov) data)"
    using r assms(1) by (simp add: fopen_r_def tool_ok_def)
  moreover have "(24 + length (padded data)) mod 4 = 0"
    using length_padded(1) [of data] by (simp add: mod_add_left_eq [symmetric])
  ultimately have "print_header cb' s' = NAND_Image NAND_MAGIC (zero_opt_val ov) (one_opt_val ov) (of_nat (24 + length (padded data)))"
    using nand_image_words [of "zero_opt_val ov" "one_opt_val ov" data] r(2) four_times_quarter
    by (simp add: print_header_def Let_def SPI_BOOT_SIG_def del: of_nat_add length_take)
  with r show ?thesis by auto
qed

text \<open>
  C21. The SPI image likewise: the length field is the length of the input modulo \<open>2^24\<close>, without the padding
  that the program CRC covers. The header is printed only if the file has the size of a NAND header: a
  program of at most four bytes gives \<open>UnableToReadHeader\<close>.
\<close>

lemma spi_image_words:
  "length (spi_image ld data) = 16 + length (padded data)" "spi_image ld data ! 0 = SPI_BOOT_SIG"
  "spi_image ld data ! 1 = ucast (drop_bit 16 (of_nat (length data) :: u32))"
  "spi_image ld data ! 2 = ucast (drop_bit 8 (of_nat (length data) :: u32))"
  "spi_image ld data ! 3 = ucast (of_nat (length data) :: u32)"
  by (simp_all add: spi_image_def Let_def be32_bytes_def)

lemma proglen_value:
  fixes v :: u32
  shows "(ucast (ucast v :: u8) + push_bit 8 (ucast (ucast (drop_bit 8 v) :: u8)) + push_bit 16 (ucast (ucast (drop_bit 16 v) :: u8)) :: u32)
    = take_bit 24 v"
proof -
  let ?a = "ucast (ucast v :: u8) :: u32" and ?b = "push_bit 8 (ucast (ucast (drop_bit 8 v) :: u8)) :: u32"
    and ?c = "push_bit 16 (ucast (ucast (drop_bit 16 v) :: u8)) :: u32"
  have "?a AND ?b = 0" "(?a OR ?b) AND ?c = 0"
    by (rule bit_word_eqI; auto simp: bit_simps)+
  then have "?a + ?b + ?c = (?a OR ?b) OR ?c"
    by (metis disjunctive_add_eq_or)
  also have "\<dots> = take_bit 24 v"
  proof (rule bit_word_eqI)
    fix n assume "n < LENGTH(32)"
    then consider "n < 8" | "8 \<le> n" "n < 16" | "16 \<le> n" "n < 24" | "24 \<le> n" by linarith
    then show "bit ((?a OR ?b) OR ?c) n = bit (take_bit 24 v) n"
      by cases (auto simp: bit_simps)
  qed
  finally show ?thesis .
qed

theorem bh_writes_spi_image:
  assumes "tool_ok s bin out data"
    and "getopt args = (os, bin # out # rest)" "parse_opts os opts0 = Some ov" "s_opt_set ov"
  shows "\<exists>s'. bh_main cb args s =
      (Done (if length (padded data) < 8 then UnableToReadHeader
             else SPI_Image SPI_BOOT_SIG (take_bit 24 (of_nat (length data)))), s')
    \<and> contents s' = (contents s)(out \<mapsto> spi_image (l_opt_val ov) data)"
proof -
  obtain cb' s' where r: "bh_main cb args s = (Done (print_header cb' s'), s')" "output_file_name cb' = out"
      "can_read s' = can_read s" "contents s' = (contents s)(out \<mapsto> spi_image (l_opt_val ov) data)"
    using spi_run [OF assms] by blast
  have "fopen_r s' out = Some (spi_image (l_opt_val ov) data)"
    using r assms(1) by (simp add: fopen_r_def tool_ok_def)
  then have "print_header cb' s' = (if length (padded data) < 8 then UnableToReadHeader
      else SPI_Image SPI_BOOT_SIG (take_bit 24 (of_nat (length data))))"
    using spi_image_words [of "l_opt_val ov" data] r(2)
    by (simp add: print_header_def Let_def proglen_value)
  with r show ?thesis by auto
qed

text \<open>What a loader checks of a NAND image.\<close>

definition nand_image_ok :: "u8 list \<Rightarrow> bool" where
  "nand_image_ok img \<longleftrightarrow> 24 \<le> length img \<and> be32_at img 0 = NAND_MAGIC \<and> 4 * unat (be32_at img 4) = length img
     \<and> be32_at img 16 = crc32_le_1 0xffffffff (drop 24 img)
     \<and> be32_at img 20 = crc32_le_1 0xffffffff (take 16 (drop 4 img))"

lemma nand_image_split:
  "nand_image t0 t1 data = (be32_bytes NAND_MAGIC @ nand_fields (of_nat ((24 + length (padded data)) div 4)) t0 t1
      (crc32_le_1 0xffffffff (padded data)) @ be32_bytes (crc32_le_1 0xffffffff
      (nand_fields (of_nat ((24 + length (padded data)) div 4)) t0 t1 (crc32_le_1 0xffffffff (padded data))))) @ padded data"
  by (simp add: nand_image_def Let_def)

lemma length_nand_fields [simp]: "length (nand_fields l a b c) = 16"
  by (simp add: nand_fields_def)

lemma nand_image_is_ok:
  assumes "length data < 2 ^ 31"
  shows "nand_image_ok (nand_image t0 t1 data)"
proof -
  let ?img = "nand_image t0 t1 data"
  have "(24 + length (padded data)) mod 4 = 0"
    using length_padded(1) [of data] by (simp add: mod_add_left_eq [symmetric])
  then have "4 * ((24 + length (padded data)) div 4) = 24 + length (padded data)" by auto
  moreover have "(24 + length (padded data)) div 4 < 2 ^ 32"
    using assms length_padded(3) [of data] by auto
  ultimately have "4 * unat (of_nat ((24 + length (padded data)) div 4) :: u32) = 24 + length (padded data)"
    by (simp add: unsigned_of_nat take_bit_nat_eq_self)
  moreover have "be32_at ?img 4 = of_nat ((24 + length (padded data)) div 4)"
    "be32_at ?img 0 = NAND_MAGIC" "be32_at ?img 16 = crc32_le_1 0xffffffff (padded data)"
    by (simp_all add: nand_image_def Let_def nand_fields_def be32_at_def be32_bytes_def)
  moreover have "take 16 (drop 4 ?img) = nand_fields (of_nat ((24 + length (padded data)) div 4)) t0 t1
      (crc32_le_1 0xffffffff (padded data))" "drop 24 ?img = padded data" "length ?img = 24 + length (padded data)"
    unfolding nand_image_split by simp_all
  moreover from this(1) have "be32_at ?img 20 = crc32_le_1 0xffffffff (take 16 (drop 4 ?img))"
    unfolding nand_image_def Let_def
    by (simp add: be32_at_def nth_append) (simp add: be32_bytes_def)
  ultimately show ?thesis
    unfolding nand_image_ok_def by simp
qed

lemma nand_image_burst:
  assumes "nand_image_ok img" "length xs = 4" "24 \<le> i" "i + 4 \<le> length img" "xs \<noteq> take 4 (drop i img)"
  shows "\<not> nand_image_ok (take i img @ xs @ drop (i + 4) img)"
proof -
  let ?new = "take i img @ xs @ drop (i + 4) img"
  let ?pre = "drop 24 (take i img)" and ?post = "drop (i + 4) img" and ?ys = "take 4 (drop i img)"
  have "img = take i img @ ?ys @ ?post"
    by (metis append_take_drop_id drop_drop add.commute)
  then have "drop 24 img = ?pre @ ?ys @ ?post"
    using assms(3,4) by (metis (no_types, lifting) drop_append length_take min.absorb4 min_def diff_is_0_eq drop0 le_trans le_add1)
  moreover have "drop 24 ?new = ?pre @ xs @ ?post"
    using assms(3,4) by simp
  ultimately have "crc32_le_1 0xffffffff (drop 24 ?new) \<noteq> crc32_le_1 0xffffffff (drop 24 img)"
    using le.burst [of xs ?ys "0xffffffff" ?pre ?post] assms(2,4,5) by (simp add: crc32_le_1_run)
  moreover have "be32_at ?new 16 = be32_at img 16"
    using assms(3,4) by (simp add: be32_at_def nth_append)
  ultimately show ?thesis
    using assms(1) by (simp add: nand_image_ok_def)
qed

text \<open>
  C20. What the tool writes passes the check of a loader (magic, length, both CRCs) and carries the input
  unchanged after the header; an image in which any four consecutive bytes of the program are replaced
  by others fails the check.
\<close>

theorem bh_image_checked:
  assumes "tool_ok s bin out data"
    and "getopt args = (os, bin # out # rest)" "parse_opts os opts0 = Some ov" "\<not> s_opt_set ov"
  shows "\<exists>r s' img. bh_main cb args s = (Done r, s') \<and> contents s' out = Some img \<and> nand_image_ok img
    \<and> take (length data) (drop 24 img) = data
    \<and> (\<forall>i xs. length xs = 4 \<and> 24 \<le> i \<and> i + 4 \<le> length img \<and> xs \<noteq> take 4 (drop i img)
        \<longrightarrow> \<not> nand_image_ok (take i img @ xs @ drop (i + 4) img))"
proof -
  obtain cb' s' where r: "bh_main cb args s = (Done (print_header cb' s'), s')"
      "contents s' = (contents s)(out \<mapsto> nand_image (zero_opt_val ov) (one_opt_val ov) data)"
    using nand_run [OF assms] by blast
  let ?img = "nand_image (zero_opt_val ov) (one_opt_val ov) data"
  have "nand_image_ok ?img"
    using assms(1) by (intro nand_image_is_ok) (simp add: tool_ok_def)
  moreover have "take (length data) (drop 24 ?img) = data"
    unfolding nand_image_split by (simp add: padded_def)
  ultimately show ?thesis
    using r nand_image_burst by (intro exI conjI) auto
qed

text \<open>
  The options are refused exactly when \<open>-s\<close> is combined with a timing value, in either order, or \<open>-l\<close>
  comes before any \<open>-s\<close>.
\<close>

lemma parse_opts_None:
  "parse_opts os ov = None \<longleftrightarrow>
    (CHR ''s'' \<in> fst ` set os \<or> s_opt_set ov) \<and> (CHR ''0'' \<in> fst ` set os \<or> CHR ''1'' \<in> fst ` set os)
    \<or> CHR ''s'' \<in> fst ` set os \<and> (zero_opt_set ov \<or> one_opt_set ov)
    \<or> \<not> s_opt_set ov \<and> CHR ''l'' \<in> set (takeWhile (\<lambda>c. c \<noteq> CHR ''s'') (map fst os))"
  by (induction os ov rule: parse_opts.induct) auto

theorem bh_options_refused:
  "parse_opts os opts0 = None \<longleftrightarrow>
    CHR ''s'' \<in> fst ` set os \<and> (CHR ''0'' \<in> fst ` set os \<or> CHR ''1'' \<in> fst ` set os)
    \<or> CHR ''l'' \<in> set (takeWhile (\<lambda>c. c \<noteq> CHR ''s'') (map fst os))"
  by (simp add: parse_opts_None opts0_def)

text \<open>
  C38. Every failure is reported: wrong options or fewer than two operands, a missing or too long input, an
  unreadable input and an output that cannot be created each end with their own outcome and change no
  file.
\<close>

lemma length_of_names:
  "get_binary_file_length cb s = Some cb2 \<Longrightarrow> binary_file_name cb2 = binary_file_name cb \<and> output_file_name cb2 = output_file_name cb"
  by (auto simp: get_binary_file_length_def Let_def split: option.splits)

lemma csum_names:
  "do_csum tab cb s = Some cb2 \<Longrightarrow> binary_file_name cb2 = binary_file_name cb \<and> output_file_name cb2 = output_file_name cb"
  by (auto simp: do_csum_def do_crc32_program_data_def do_crc32_hdr_def Let_def split: option.splits prod.splits)

lemma length_of_Some: "stat_size s (binary_file_name cb) \<noteq> None \<Longrightarrow> \<exists>cb2. get_binary_file_length cb s = Some cb2"
  by (auto simp: get_binary_file_length_def)


text \<open>
  Input and output must be two files: run in place, the tool ends with success and leaves only the
  header of the image, because it truncates the file before it copies the program.
\<close>

theorem bh_in_place_destroys:
  assumes "contents s f = Some data" "length data < 2 ^ 31" "can_read s f" "can_create s f" "24 \<le> room s"
    and "getopt args = (os, f # f # rest)" "parse_opts os opts0 = Some ov" "\<not> s_opt_set ov"
  shows "\<exists>r s'. bh_main cb args s = (Done r, s')
    \<and> contents s' = (contents s)(f \<mapsto> take 24 (nand_image (zero_opt_val ov) (one_opt_val ov) data))"
proof -
  obtain cb1 cb2 cb4 where p: "parse_cmd_line cb args = Some cb1" "get_binary_file_length cb1 s = Some cb2"
    "do_csum init_crc_table cb2 s = Some cb4" "nand cb4" "binary_file_name cb4 = f" "output_file_name cb4 = f"
    "nand_header_bytes (nand_hdr cb4) @ padded data = nand_image (zero_opt_val ov) (one_opt_val ov) data"
    using nand_prepare [OF assms(1-3,6-8)] by blast
  let ?h = "nand_header_bytes (nand_hdr cb4)"
  have h: "?h = take 24 (nand_image (zero_opt_val ov) (one_opt_val ov) data)" "length ?h = 24"
    unfolding p(7) [symmetric] by (simp_all add: nand_header_bytes_def)
  let ?s = "s\<lparr>contents := (contents s)(f \<mapsto> ?h), room := room s - 24\<rparr>"
  have "fwrite (s\<lparr>contents := (contents s)(f \<mapsto> [])\<rparr>) f ?h = (24, ?s)"
    using assms(5) by (simp add: fwrite_def h(2) Let_def)
  moreover have "copy_loop ?s f 0 [] = (Some 0, ?s)" "pad_loop ?s f 0 = (True, ?s)"
    by (subst copy_loop.simps, simp) (subst pad_loop.simps, simp)
  ultimately have "write_output_file cb4 s = (True, ?s)"
    using assms(3,4) p(4-6) by (simp add: write_output_file_def fopen_w_def fopen_r_def Let_def h(2))
  then have "bh_main cb args s = (Done (print_header cb4 ?s), ?s)"
    by (simp add: bh_main_def p(1-3))
  then show ?thesis
    by (intro exI [of _ "print_header cb4 ?s"] exI [of _ ?s]) (simp add: h(1))
qed

subsection \<open>Concrete runs\<close>

definition demo_fs :: fs where
  "demo_fs = \<lparr>contents = [''a'' \<mapsto> [1, 2, 3, 4, 5]], can_read = (\<lambda>_. True), can_create = (\<lambda>_. True), room = 100\<rparr>"

lemma demo_ok: "tool_ok demo_fs ''a'' ''b'' [1, 2, 3, 4, 5]"
  by (simp add: tool_ok_def demo_fs_def)

text \<open>The control block as an untouched stack could hold it.\<close>

definition demo_cb :: cb where
  "demo_cb = cb.make False (nand_header.make 0 0 0 0 0 0 0 0 0 0 0 0 0 0 0 0 0 0 0 0 0 0 0 0) (spi_header.make 0 0 0 0 0 0 0 0 0 0 0 0 0 0 0 0) [] []"

definition nand_args :: "string list" where
  "nand_args = [''-0'', ''0x3090707'', ''a'', ''-1'', ''7'', ''b'']"

definition nand_opts :: opts where
  "nand_opts = opts0\<lparr>zero_opt_val := 0x3090707, zero_opt_set := True, one_opt_val := 7, one_opt_set := True\<rparr>"

lemma nand_args_parse:
  "getopt nand_args = ([(CHR ''0'', ''0x3090707''), (CHR ''1'', ''7'')], ''a'' # ''b'' # [])"
  "parse_opts [(CHR ''0'', ''0x3090707''), (CHR ''1'', ''7'')] opts0 = Some nand_opts"
  "\<not> s_opt_set nand_opts"
proof -
  have "strtoul ''0x3090707'' = 0x3090707" "strtoul ''7'' = 7"
    by (simp_all add: strtoul_def digit_val_def Let_def)
  then show "parse_opts [(CHR ''0'', ''0x3090707''), (CHR ''1'', ''7'')] opts0 = Some nand_opts"
    by (simp add: nand_opts_def opts0_def)
qed (simp_all add: nand_args_def is_option_def nand_opts_def opts0_def)

lemma spi_args_parse:
  "getopt [''-s'', ''a'', ''b''] = ([(CHR ''s'', [])], ''a'' # ''b'' # [])"
  "parse_opts [(CHR ''s'', [])] opts0 = Some (opts0\<lparr>s_opt_set := True\<rparr>)"
  by (simp_all add: is_option_def opts0_def)

lemma in_place_parse:
  "getopt [''a'', ''a''] = ([], ''a'' # ''a'' # [])" "parse_opts [] opts0 = Some opts0" "\<not> s_opt_set opts0"
  by (simp_all add: is_option_def opts0_def)

theorem bh_writes_nand_image_witness:
  "\<exists>s'. bh_main demo_cb nand_args demo_fs = (Done (NAND_Image NAND_MAGIC 0x3090707 7 32), s')"
  using bh_writes_nand_image [OF demo_ok nand_args_parse, of demo_cb]
  by (auto simp: padded_def pad_len_def nand_opts_def opts0_def)

theorem bh_writes_spi_image_witness:
  "\<exists>s'. bh_main demo_cb [''-s'', ''a'', ''b''] demo_fs = (Done (SPI_Image SPI_BOOT_SIG 5), s')"
  using bh_writes_spi_image [OF demo_ok spi_args_parse, of demo_cb]
  by (auto simp: padded_def pad_len_def take_bit_eq_mod)

theorem bh_image_checked_witness:
  "\<exists>r s' img. bh_main demo_cb nand_args demo_fs = (Done r, s') \<and> contents s' ''b'' = Some img \<and> nand_image_ok img"
  using bh_image_checked [OF demo_ok nand_args_parse, of demo_cb] by blast

theorem bh_in_place_destroys_witness:
  "\<exists>r s' h. bh_main demo_cb [''a'', ''a''] demo_fs = (Done r, s') \<and> contents s' ''a'' = Some h \<and> length h \<le> 24"
  using bh_in_place_destroys [OF _ _ _ _ _ in_place_parse, of demo_fs "[1, 2, 3, 4, 5]" demo_cb]
  by (fastforce simp: demo_fs_def)


end
