(* ===== verification/Nand.thy ===== *)
theory Nand
  imports Soc Crc_Lib
begin

unbundle bit_operations_syntax

section \<open>The NAND loader: U-Boot out of a UBI partition (devices/nand/dev\_nand.c)\<close>

text \<open>
  The first stage boot code finds the volume \<open>uboot\<close> (or its spare \<open>BKUPuboot\<close>) in the UBI partition of
  the NAND flash and copies it to RAM: \<open>scanlayoutv\<close> looks for the volume table and in it for the number
  of the volume, \<open>scanvid\<close> for the physical blocks of that volume, \<open>readmapTable\<close> reads them in the order
  of their logical numbers. The pages are read through the registers of the EP501M3 controller.

  \<^verbatim>\<open>dev_nand.c\<close> includes \<^verbatim>\<open>nand_registers.h\<close>, \<^verbatim>\<open>scu_regs.h\<close>, \<^verbatim>\<open>ubi.h\<close> and \<^verbatim>\<open>globle_type.h\<close>, which are not
  in the repository, and calls a routine of the boot ROM. The names that come from there are the fields
  of \<open>nand_env\<close>, a parameter of the functions that use them. The constants of \<^verbatim>\<open>fs/include/lib_fs_ubi.h\<close>
  and \<^verbatim>\<open>boot/include/reg_nand.h\<close> and the layout of the two on-flash structures are from the source.
\<close>

subsection \<open>Constants\<close>

definition EP501M3_BASE :: u32 where [reg_defs]: "EP501M3_BASE = 0xB9090000"
definition EP501M3_DATA :: u32 where [reg_defs]: "EP501M3_DATA = 0x0000"
definition EP501M3_COMMAND :: u32 where [reg_defs]: "EP501M3_COMMAND = 0x8000"
definition EP501M3_INDEX :: u32 where [reg_defs]: "EP501M3_INDEX = 0x8004"
definition EP501M3_TIMING_0 :: u32 where [reg_defs]: "EP501M3_TIMING_0 = 0x804C"
definition EP501M3_TIMING_1 :: u32 where [reg_defs]: "EP501M3_TIMING_1 = 0x8050"
definition EP501M3_COMMAND_CE_OFF :: u32 where [reg_defs]: "EP501M3_COMMAND_CE_OFF = 0xEE"
definition NAND_RESET_1GB_4KB :: u32 where [reg_defs]: "NAND_RESET_1GB_4KB = 0x17"
definition NAND_RESET_1GB_4KB_MASK :: u32 where [reg_defs]: "NAND_RESET_1GB_4KB_MASK = 0x17"

definition MAX_VOLUMES_UBOOT :: nat where [reg_defs]: "MAX_VOLUMES_UBOOT = 2"
definition VOLUMEID_OFFSET :: u32 where [reg_defs]: "VOLUMEID_OFFSET = 0x8"
definition LAYOUT_VOLUMEID :: u32 where [reg_defs]: "LAYOUT_VOLUMEID = 0x7fffefff"
definition DDR_BUFFER_ADDR :: u32 where [reg_defs]: "DDR_BUFFER_ADDR = 0x80400000"
definition DDR_BUFFER2_ADDR :: u32 where [reg_defs]: "DDR_BUFFER2_ADDR = 0x80100000"
definition NAND_ECC_BYTE4 :: u32 where [reg_defs]: "NAND_ECC_BYTE4 = 4"
definition NAND_ECC_BYTE5 :: u32 where [reg_defs]: "NAND_ECC_BYTE5 = 5"
definition NAND_MAX_COUNT_ZERO :: nat where [reg_defs]: "NAND_MAX_COUNT_ZERO = 12"
definition NAND_MIN_COUNT_ZERO :: nat where [reg_defs]: "NAND_MIN_COUNT_ZERO = 8"
definition UBOOT_TEXT_BASE :: u32 where [reg_defs]: "UBOOT_TEXT_BASE = 0xA0800000"

definition NAND_PAGE_SIZE_4KB :: u16 where [reg_defs]: "NAND_PAGE_SIZE_4KB = 0x1000"
definition NAND_BLOCK_SIZE_512KB :: u32 where [reg_defs]: "NAND_BLOCK_SIZE_512KB = 0x80000"
definition NAND_CHIP_SIZE_1GB :: u32 where [reg_defs]: "NAND_CHIP_SIZE_1GB = 0x40000000"
definition NAND_PAGE_SHIFT_4KB :: u16 where [reg_defs]: "NAND_PAGE_SHIFT_4KB = 13"
definition NAND_UBIPART_BASEADDR_512KB :: u32 where [reg_defs]: "NAND_UBIPART_BASEADDR_512KB = 0x80000"
definition NAND_OOB_224 :: u16 where [reg_defs]: "NAND_OOB_224 = 224"
definition NAND_MAX_OFFSET_1GB :: u32 where [reg_defs]: "NAND_MAX_OFFSET_1GB = 0x3FF40000"
definition NAND_PAGE_SIZE_2KB :: u16 where [reg_defs]: "NAND_PAGE_SIZE_2KB = 0x800"
definition NAND_BLOCK_SIZE_128KB :: u32 where [reg_defs]: "NAND_BLOCK_SIZE_128KB = 0x20000"
definition NAND_CHIP_SIZE_512MB :: u32 where [reg_defs]: "NAND_CHIP_SIZE_512MB = 0x20000000"
definition NAND_PAGE_SHIFT_2KB :: u16 where [reg_defs]: "NAND_PAGE_SHIFT_2KB = 12"
definition NAND_UBIPART_BASEADDR_128KB :: u32 where [reg_defs]: "NAND_UBIPART_BASEADDR_128KB = 0x20000"
definition NAND_OOB_64 :: u16 where [reg_defs]: "NAND_OOB_64 = 64"
definition NAND_MAX_OFFSET_512MB :: u32 where [reg_defs]: "NAND_MAX_OFFSET_512MB = 0x1FF40000"

definition UBI_MAX_VOLUMES :: int where [reg_defs]: "UBI_MAX_VOLUMES = 128"
definition UBI_VID_HDR_MAGIC :: u32 where [reg_defs]: "UBI_VID_HDR_MAGIC = 0x55424921"
definition UBI_VID_HDR_SIZE :: nat where [reg_defs]: "UBI_VID_HDR_SIZE = 64"
definition UBI_VTBL_RECORD_SIZE :: nat where [reg_defs]: "UBI_VTBL_RECORD_SIZE = 172"
definition UBI_VID_HDR_SIZE_CRC :: nat where [reg_defs]: "UBI_VID_HDR_SIZE_CRC = UBI_VID_HDR_SIZE - 4"
definition UBI_VTBL_RECORD_SIZE_CRC :: nat where [reg_defs]: "UBI_VTBL_RECORD_SIZE_CRC = UBI_VTBL_RECORD_SIZE - 4"

subsection \<open>RAM in halves and words\<close>

definition ram_load32 :: "u32 \<Rightarrow> 'd sys \<Rightarrow> u32" where
  "ram_load32 a s = be32_of_bytes (ram_load8 a s) (ram_load8 (a + 1) s) (ram_load8 (a + 2) s) (ram_load8 (a + 3) s)"

definition ram_load64 :: "u32 \<Rightarrow> 'd sys \<Rightarrow> u64" where
  "ram_load64 a s = push_bit 32 (ucast (ram_load32 a s)) OR ucast (ram_load32 (a + 4) s)"

text \<open>
  The on-flash structures of UBI, packed and big-endian. The C code lays a pointer to the structure over
  the page buffer; \<open>vid_hdr_at a s\<close> and \<open>vtbl_record_at a s\<close> are what is read through such a pointer.
\<close>

record ubi_vid_hdr =
  magic :: u32
  version :: u8
  vol_type :: u8
  copy_flag :: u8
  compat :: u8
  vol_id :: u32
  lnum :: u32
  leb_ver :: u32
  data_size :: u32
  used_ebs :: u32
  data_pad :: u32
  data_crc :: u32
  sqnum :: u64
  hdr_crc :: u32

definition vid_hdr_at :: "u32 \<Rightarrow> 'd sys \<Rightarrow> ubi_vid_hdr" where
  "vid_hdr_at a s =
     \<lparr>magic = ram_load32 a s, version = ram_load8 (a + 4) s, vol_type = ram_load8 (a + 5) s,
      copy_flag = ram_load8 (a + 6) s, compat = ram_load8 (a + 7) s, vol_id = ram_load32 (a + 8) s,
      lnum = ram_load32 (a + 12) s, leb_ver = ram_load32 (a + 16) s, data_size = ram_load32 (a + 20) s,
      used_ebs = ram_load32 (a + 24) s, data_pad = ram_load32 (a + 28) s, data_crc = ram_load32 (a + 32) s,
      sqnum = ram_load64 (a + 40) s, hdr_crc = ram_load32 (a + 60) s\<rparr>"

record ubi_vtbl_record =
  reserved_pebs :: u32
  alignment :: u32
  vtbl_data_pad :: u32
  vtbl_vol_type :: u8
  upd_marker :: u8
  name_len :: u16
  vtbl_name :: u32
  vtbl_flags :: u8
  vtbl_crc :: u32

text \<open>\<open>vtbl_name\<close> is the address of the 128 bytes of the name, what the array decays to.\<close>

definition vtbl_record_at :: "u32 \<Rightarrow> 'd sys \<Rightarrow> ubi_vtbl_record" where
  "vtbl_record_at a s =
     \<lparr>reserved_pebs = ram_load32 a s, alignment = ram_load32 (a + 4) s, vtbl_data_pad = ram_load32 (a + 8) s,
      vtbl_vol_type = ram_load8 (a + 12) s, upd_marker = ram_load8 (a + 13) s, name_len = ram_load16 (a + 14) s,
      vtbl_name = a + 16, vtbl_flags = ram_load8 (a + 144) s, vtbl_crc = ram_load32 (a + 168) s\<rparr>"

subsection \<open>State and environment\<close>

record nand_info =
  page_size :: u16
  nand_size :: u32
  block_size :: u32
  page_size_shift :: u16
  oob_size :: u16
  nand_ubipart_baseaddr :: u32
  num_pages_per_block :: u32
  max_offset :: u32
  num_sections :: u32

text \<open>The globals of \<^verbatim>\<open>dev_nand.c\<close>, and the table that \<open>crcInit\<close> fills in \<^verbatim>\<open>crc32.c\<close>.\<close>

record nand_globals =
  reset_reg_val :: u32
  nand_chip :: nand_info
  maptable :: "u32 list"
  ubootReservedBlocks :: u32
  crcTable :: "u32 list"

text \<open>
  The environment: the word store \<open>H_WR\<close>, the register accesses \<open>RDREG\<close> and \<open>WRREG\<close>, the poll on a value
  read again in each turn, the status member of the system controller and its busy bit, the console
  routine \<open>printHex_u32\<close>, the variable \<open>reset_strap_val\<close>, and the error correction routine in the
  local memory at \<open>0x991d20e4\<close> (\<open>correct_page\<close>), called with the sector, the page size and the address.
\<close>

record 'd nand_env =
  H_WR :: "u32 \<Rightarrow> u32 \<Rightarrow> 'd sys \<Rightarrow> 'd sys"
  EP501M3_RDREG :: "u32 \<Rightarrow> 'd sys \<Rightarrow> u32 \<times> 'd sys"
  EP501M3_WRREG :: "u32 \<Rightarrow> u32 \<Rightarrow> 'd sys \<Rightarrow> 'd sys"
  polling_until_set :: "('d sys \<Rightarrow> u32 \<times> 'd sys) \<Rightarrow> u32 \<Rightarrow> 'd sys \<Rightarrow> 'd sys option"
  nand_status :: "'d sys \<Rightarrow> u32 \<times> 'd sys"
  NAND_PECC_BUSY :: u32
  printHex_u32 :: "u32 \<Rightarrow> 'd sys \<Rightarrow> 'd sys option"
  reset_strap_val :: u32
  correct_page :: "u32 \<Rightarrow> u16 \<Rightarrow> u32 \<Rightarrow> 'd sys \<Rightarrow> (u32 \<times> 'd sys) option"

subsection \<open>init\_nand\_controller and nand\_init\<close>

definition EP501M3_RD :: "'d machine \<Rightarrow> u32 \<Rightarrow> 'd sys \<Rightarrow> u32 \<times> 'd sys" where
  "EP501M3_RD M a s = H_RD32 M (EP501M3_BASE + a) s"

definition EP501M3_WR :: "'d machine \<Rightarrow> u32 \<Rightarrow> u32 \<Rightarrow> 'd sys \<Rightarrow> 'd sys" where
  "EP501M3_WR M a d s = H_WR32 M (EP501M3_BASE + a) d s"

definition init_nand_controller :: "'d nand_env \<Rightarrow> 'd machine \<Rightarrow> 'd sys \<Rightarrow> 'd sys" where
  "init_nand_controller E M s =
     (if reset_strap_val E AND NAND_RESET_1GB_4KB_MASK = NAND_RESET_1GB_4KB
      then H_WR32 M 0xb9098050 0x64140a0a (H_WR32 M 0xb909804c 0x050f0f0a s)
      else H_WR32 M 0xb9098050 0x19050505 (H_WR32 M 0xb909804c 0x04050505 s))"

definition nand_init :: "'d machine \<Rightarrow> nand_globals \<Rightarrow> 'd sys \<Rightarrow> nand_globals \<times> 'd sys" where
  "nand_init M G s =
     (let (v, s) = H_RD32 M (SCU rst_strp) s;
          G = G\<lparr>reset_reg_val := v\<rparr>;
          c = nand_chip G;
          c = (if reset_reg_val G AND NAND_RESET_1GB_4KB_MASK = NAND_RESET_1GB_4KB
               then c\<lparr>page_size := NAND_PAGE_SIZE_4KB, block_size := NAND_BLOCK_SIZE_512KB,
                      nand_size := NAND_CHIP_SIZE_1GB, page_size_shift := NAND_PAGE_SHIFT_4KB,
                      nand_ubipart_baseaddr := NAND_UBIPART_BASEADDR_512KB, oob_size := NAND_OOB_224,
                      max_offset := NAND_MAX_OFFSET_1GB\<rparr>
               else c\<lparr>page_size := NAND_PAGE_SIZE_2KB, block_size := NAND_BLOCK_SIZE_128KB,
                      nand_size := NAND_CHIP_SIZE_512MB, page_size_shift := NAND_PAGE_SHIFT_2KB,
                      nand_ubipart_baseaddr := NAND_UBIPART_BASEADDR_128KB, oob_size := NAND_OOB_64,
                      max_offset := NAND_MAX_OFFSET_512MB\<rparr>);
          c = c\<lparr>num_pages_per_block := block_size c div scast (page_size c)\<rparr>;
          c = c\<lparr>num_sections := scast (page_size c) div 512\<rparr>
      in (G\<lparr>nand_chip := c\<rparr>, s))"

subsection \<open>read\_nand\_page\<close>

partial_function (option) read_nand_data ::
  "'d nand_env \<Rightarrow> 'd machine \<Rightarrow> u32 \<Rightarrow> u32 \<Rightarrow> u32 \<Rightarrow> 'd sys \<Rightarrow> 'd sys option" where
  "read_nand_data E M dest len i s =
     (if i < len
      then (let (v, s) = EP501M3_RD M (EP501M3_DATA + i) s
            in read_nand_data E M dest len (i + 4) (H_WR E (dest + i) v s))
      else Some s)"

text \<open>The wait for the busy bit to rise, at most \<open>i\<close> more turns, and the unbounded one for it to fall.\<close>

fun pecc_busy_rise :: "'d nand_env \<Rightarrow> nat \<Rightarrow> 'd sys \<Rightarrow> 'd sys" where
  "pecc_busy_rise E i s =
     (let (v, s) = nand_status E s
      in if v AND NAND_PECC_BUSY E = 0 then (case i of 0 \<Rightarrow> s | Suc i \<Rightarrow> pecc_busy_rise E i s) else s)"

declare pecc_busy_rise.simps [simp del]

partial_function (option) pecc_busy_fall :: "'d nand_env \<Rightarrow> 'd sys \<Rightarrow> 'd sys option" where
  "pecc_busy_fall E s =
     (let (v, s) = nand_status E s
      in if v AND NAND_PECC_BUSY E \<noteq> 0 then pecc_busy_fall E s else Some s)"

definition read_nand_page :: "'d nand_env \<Rightarrow> 'd machine \<Rightarrow> u32 \<Rightarrow> u32 \<Rightarrow> u32 \<Rightarrow> 'd sys \<Rightarrow> 'd sys option" where
  "read_nand_page E M dest src len s = do {
     let s = EP501M3_WR M EP501M3_COMMAND 0x00 s;
     let s = EP501M3_WR M EP501M3_INDEX src s;
     let s = EP501M3_WR M EP501M3_COMMAND 0xE0 s;
     s \<leftarrow> polling_until_set E (H_RD32 M 0xb90000bc) 1 s;
     s \<leftarrow> read_nand_data E M dest len 0 s;
     let (v, s) = EP501M3_RDREG E EP501M3_INDEX s;
     s \<leftarrow> (if v AND 0x800 = 0
          then pecc_busy_fall E (pecc_busy_rise E 20 (EP501M3_WRREG E EP501M3_COMMAND 0x23 s))
          else Some s);
     Some (EP501M3_WRREG E EP501M3_COMMAND 0xEE s)
   }"

subsection \<open>convertInt\_Text\<close>

definition convertInt_digit :: "u32 \<Rightarrow> nat \<Rightarrow> u8" where
  "convertInt_digit address j =
     (let b = (ucast (drop_bit j address AND 0x0f) :: u8)
      in if 10 \<le> b then b - 10 + of_char (CHR ''a'') else b + of_char (CHR ''0''))"

text \<open>\<open>k\<close> rounds of the loop are left; a store past the end of the buffer is None.\<close>

fun convertInt_loop :: "u32 \<Rightarrow> nat \<Rightarrow> nat \<Rightarrow> u8 list \<Rightarrow> u8 list option" where
  "convertInt_loop address i 0 outASC = Some outASC"
| "convertInt_loop address i (Suc k) outASC = do {
     outASC \<leftarrow> arr_set outASC (7 - i) (convertInt_digit address (4 * i));
     convertInt_loop address (Suc i) k outASC
   }"

definition convertInt_Text :: "u32 \<Rightarrow> u8 list \<Rightarrow> u8 list option" where
  "convertInt_Text address outASC = do {
     outASC \<leftarrow> arr_set outASC 8 0;
     convertInt_loop address 0 8 outASC
   }"

subsection \<open>Names, patterns, erased pages, bad blocks\<close>

text \<open>
  \<open>s1\<close> and \<open>s2\<close> are string literals: a read past their NUL is None. The characters of \<open>s\<close> are those at
  the address in RAM; \<open>k\<close> counts what is left of \<open>len\<close>.
\<close>

fun volname_loop :: "u32 \<Rightarrow> u8 list \<Rightarrow> nat \<Rightarrow> nat \<Rightarrow> 'd sys \<Rightarrow> u32 option" where
  "volname_loop p compare count 0 s =
     (if ram_load8 (p + of_nat count) s = 0
      then (case arr_get compare count of None \<Rightarrow> None | Some e \<Rightarrow> Some (if e = 0 then 0 else 1))
      else Some 1)"
| "volname_loop p compare count (Suc k) s =
     (case arr_get compare count of
        None \<Rightarrow> None
      | Some e \<Rightarrow> if ram_load8 (p + of_nat count) s \<noteq> e then Some 1 else volname_loop p compare (Suc count) k s)"

definition volname_literal :: "nat \<Rightarrow> u8 list" where
  "volname_literal ubootVol = (if ubootVol = 0 then str ''uboot'' @ [0] else str ''BKUPuboot'' @ [0])"

definition volname_compare :: "u32 \<Rightarrow> nat \<Rightarrow> nat \<Rightarrow> 'd sys \<Rightarrow> u32 option" where
  "volname_compare p len ubootVol s = volname_loop p (volname_literal ubootVol) 0 len s"

fun check_pattern_loop :: "u32 \<Rightarrow> u8 \<Rightarrow> nat \<Rightarrow> nat \<Rightarrow> 'd sys \<Rightarrow> u32" where
  "check_pattern_loop buf patt i 0 s = 1"
| "check_pattern_loop buf patt i (Suc k) s =
     (if ram_load8 (buf + of_nat i) s \<noteq> patt then 0 else check_pattern_loop buf patt (Suc i) k s)"

definition check_pattern :: "u32 \<Rightarrow> u8 \<Rightarrow> u16 \<Rightarrow> 'd sys \<Rightarrow> u32" where
  "check_pattern buf patt n s = check_pattern_loop buf patt 0 (nat (sint n)) s"

definition ecc45_at :: "nat \<Rightarrow> 'd sys \<Rightarrow> u16" where
  "ecc45_at section s =
     (let sectionEcc = DDR_BUFFER2_ADDR + 32 + 8 * of_nat section
      in push_bit 4 (ucast (ram_load8 (sectionEcc + NAND_ECC_BYTE4) s))
         OR drop_bit 4 (ucast (ram_load8 (sectionEcc + NAND_ECC_BYTE5) s)))"

text \<open>The loop over the sections: \<open>section\<close>, how many are left, \<open>zeroBits\<close>; the result is \<open>clean\<close>.\<close>

fun erased_sections :: "nat \<Rightarrow> nat \<Rightarrow> nat \<Rightarrow> 'd sys \<Rightarrow> bool" where
  "erased_sections section 0 zeroBits s = True"
| "erased_sections section (Suc k) zeroBits s =
     (let ecc45 = ecc45_at section s;
          zeroBits = foldl (\<lambda>z i. if ecc45 AND push_bit i 1 = 0 then z + 1 else z) zeroBits [0..<NAND_MAX_COUNT_ZERO]
      in if NAND_MIN_COUNT_ZERO \<le> zeroBits then False else erased_sections (Suc section) k zeroBits s)"

definition checkErasedPage :: "'d nand_env \<Rightarrow> 'd machine \<Rightarrow> nand_info \<Rightarrow> u32 \<Rightarrow> 'd sys \<Rightarrow> (u32 \<times> 'd sys) option" where
  "checkErasedPage E M c offset s = do {
     let page = drop_bit (unat (page_size_shift c) - 1) (offset + scast (page_size c));
     s \<leftarrow> read_nand_page E M DDR_BUFFER_ADDR
            (push_bit (unat (page_size_shift c)) page + scast (page_size c)) (scast (oob_size c)) s;
     if check_pattern DDR_BUFFER_ADDR 0xFF (oob_size c) s \<noteq> 0 then Some (1, s)
     else if erased_sections 0 (unat (num_sections c)) 0 s then Some (1, s)
     else Some (0, s)
   }"

definition checkBadBlock :: "'d nand_env \<Rightarrow> 'd machine \<Rightarrow> nand_info \<Rightarrow> u32 \<Rightarrow> 'd sys \<Rightarrow> (u32 \<times> 'd sys) option" where
  "checkBadBlock E M c offset s = do {
     let page = drop_bit (unat (page_size_shift c) - 1) (offset + scast (page_size c));
     s \<leftarrow> read_nand_page E M DDR_BUFFER_ADDR (push_bit (unat (page_size_shift c)) page + scast (page_size c)) 1 s;
     if ram_load8 DDR_BUFFER_ADDR s \<noteq> 0xFF
     then do {
       s \<leftarrow> c_put_char M (of_char (CHR ''B'')) s;
       s \<leftarrow> c_put_char M (of_char (CHR '':'')) s;
       s \<leftarrow> printHex_u32 E offset s;
       s \<leftarrow> c_put_char M 0x0D s;
       s \<leftarrow> c_put_char M 0x0A s;
       Some (1, s)
     }
     else Some (0, s)
   }"

definition nand_check_page_ecc ::
  "'d nand_env \<Rightarrow> u32 \<Rightarrow> u16 \<Rightarrow> u32 \<Rightarrow> 'd sys \<Rightarrow> (u16 \<times> 'd sys) option" where
  "nand_check_page_ecc E sector pgsize mem_addr s = do {
     (errs, s) \<leftarrow> correct_page E sector pgsize mem_addr s;
     Some (ucast errs, s)
   }"

subsection \<open>scanlayoutv\<close>

definition is_4KB :: "nand_globals \<Rightarrow> bool" where
  "is_4KB G \<longleftrightarrow> reset_reg_val G AND NAND_RESET_1GB_4KB_MASK = NAND_RESET_1GB_4KB"

text \<open>
  Page \<open>k\<close> of the block at \<open>offset\<close> goes to the buffer unless it is found empty, before the read on the
  chip of 2 KByte pages and after it on the other. \<open>offset\<close> and \<open>page\<close> are \<open>int\<close>, so the shift to the right
  is arithmetic. The first component is \<open>errs\<close>, not 0 for an empty page.
\<close>

definition layout_page :: "'d nand_env \<Rightarrow> 'd machine \<Rightarrow> nand_globals \<Rightarrow> u32 \<Rightarrow> u32 \<Rightarrow> 'd sys \<Rightarrow> (u32 \<times> 'd sys) option" where
  "layout_page E M G offset k s =
     (let c = nand_chip G;
          page = signed_drop_bit (unat (page_size_shift c) - 1) (offset + scast (page_size c) * k);
          src = push_bit (unat (page_size_shift c)) page
      in if \<not> is_4KB G
         then do {
           (errs, s) \<leftarrow> checkErasedPage E M c offset s;
           if errs \<noteq> 0 then Some (errs, s)
           else do { s \<leftarrow> read_nand_page E M DDR_BUFFER_ADDR src (scast (page_size c)) s; Some (errs, s) }
         }
         else do {
           s \<leftarrow> read_nand_page E M DDR_BUFFER_ADDR src (scast (page_size c)) s;
           Some (check_pattern DDR_BUFFER_ADDR 0xFF (page_size c) s, s)
         })"

text \<open>
  \<open>errs\<close> is unsigned here, so \<open>errs < 0\<close> below is the unsigned comparison of the source. The loop over the
  sections: \<open>section\<close> and how many are left.
\<close>

fun layout_sections ::
  "'d nand_env \<Rightarrow> 'd machine \<Rightarrow> nand_info \<Rightarrow> nat \<Rightarrow> nat \<Rightarrow> u32 \<Rightarrow> 'd sys \<Rightarrow> (u32 \<times> 'd sys) option" where
  "layout_sections E M c section 0 errs s = Some (errs, s)"
| "layout_sections E M c section (Suc k) errs s = do {
     (e, s) \<leftarrow> nand_check_page_ecc E (of_nat section) (page_size c) DDR_BUFFER_ADDR s;
     let errs = (scast e :: u32);
     s \<leftarrow> (if errs < 0 then c_put_str M (str ''ECC Error during Layout Volume Scan 2.'') s else Some s);
     layout_sections E M c (Suc section) k errs s
   }"

text \<open>
  The records from the one at \<open>rec\<close>, with the number \<open>v\<close>: the value of \<open>vol_id\<close> at the end, and the number of
  reserved blocks when the record is found and valid, which is \<open>numLayoutV++\<close>.
\<close>

function layout_records ::
  "u32 list \<Rightarrow> nat \<Rightarrow> u32 \<Rightarrow> int \<Rightarrow> u32 \<Rightarrow> 'd sys \<Rightarrow> (int \<times> u32 option) option" where
  "layout_records T ubootVol rec v errs s =
     (let r = vtbl_record_at rec s
      in case volname_compare (vtbl_name r) (unat (name_len r)) ubootVol s of
           None \<Rightarrow> None
         | Some d \<Rightarrow>
             if d = 0
             then (let crc = crcFast CRC32 T (ram_bytes rec UBI_VTBL_RECORD_SIZE_CRC s) (int UBI_VTBL_RECORD_SIZE_CRC)
                   in if crc = vtbl_crc r \<and> 0 \<le> errs
                      then (if upd_marker r = 0 then Some (v, Some (reserved_pebs r)) else Some (v, None))
                      else Some (v, None))
             else if v < UBI_MAX_VOLUMES
             then layout_records T ubootVol (rec + of_nat UBI_VTBL_RECORD_SIZE) (v + 1) errs s
             else Some (v + 1, None))"
  by pat_completeness auto
termination
  by (relation "measure (\<lambda>(_, _, _, v, _, _). nat (UBI_MAX_VOLUMES - v))") (auto simp: UBI_MAX_VOLUMES_def)

declare layout_records.simps [simp del]

text \<open>
  One turn of the loop over the blocks: the value returned, if the turn returns, \<open>vol_id\<close>, and the state.
\<close>

definition layout_block ::
  "'d nand_env \<Rightarrow> 'd machine \<Rightarrow> nat \<Rightarrow> u32 \<Rightarrow> int \<Rightarrow> nand_globals \<Rightarrow> 'd sys \<Rightarrow>
     (int option \<times> int \<times> nand_globals \<times> 'd sys) option" where
  "layout_block E M ubootVol offset v G s = do {
     let c = nand_chip G;
     (b, s) \<leftarrow> checkBadBlock E M c offset s;
     if b \<noteq> 0 then Some (None, v, G, s) else do {
       (errs, s) \<leftarrow> layout_page E M G offset 1 s;
       if errs \<noteq> 0 then Some (None, v, G, s) else do {
         (e, s) \<leftarrow> nand_check_page_ecc E 0 (page_size c) DDR_BUFFER_ADDR s;
         let errs = (scast e :: u32);
         if errs < 0 then do {
           s \<leftarrow> c_put_str M (str ''ECC Error during Layout Volume Scan 1.'') s;
           Some (None, v, G, s)
         }
         else if ram_load32 (DDR_BUFFER_ADDR + VOLUMEID_OFFSET) s = LAYOUT_VOLUMEID then do {
           (errs, s) \<leftarrow> layout_page E M G offset 2 s;
           if errs \<noteq> 0 then Some (None, v, G, s) else do {
             (errs, s) \<leftarrow> layout_sections E M c 0 (unat (num_sections c)) errs s;
             (v, found) \<leftarrow> layout_records (crcTable G) ubootVol DDR_BUFFER_ADDR v errs s;
             (case found of
                None \<Rightarrow> Some (None, v, G, s)
              | Some n \<Rightarrow> Some (Some v, v, G\<lparr>ubootReservedBlocks := n\<rparr>, s))
           }
         }
         else Some (None, v, G, s)
       }
     }
   }"

partial_function (option) layout_loop ::
  "'d nand_env \<Rightarrow> 'd machine \<Rightarrow> nat \<Rightarrow> u32 \<Rightarrow> int \<Rightarrow> nand_globals \<Rightarrow> 'd sys \<Rightarrow> (int \<times> nand_globals \<times> 'd sys) option" where
  "layout_loop E M ubootVol offset v G s =
     (if offset < max_offset (nand_chip G)
      then do {
        (r, v, G, s) \<leftarrow> layout_block E M ubootVol offset v G s;
        (case r of
           Some r \<Rightarrow> Some (r, G, s)
         | None \<Rightarrow> layout_loop E M ubootVol (offset + block_size (nand_chip G)) v G s)
      }
      else Some (-1, G, s))"

definition scanlayoutv ::
  "'d nand_env \<Rightarrow> 'd machine \<Rightarrow> nat \<Rightarrow> nand_globals \<Rightarrow> 'd sys \<Rightarrow> (int \<times> nand_globals \<times> 'd sys) option" where
  "scanlayoutv E M ubootVol G s =
     layout_loop E M ubootVol (nand_ubipart_baseaddr (nand_chip G)) 0 G s"

subsection \<open>scanvid\<close>

text \<open>The same read of page 1 as in \<open>layout_page\<close>, with an unsigned \<open>offset\<close>.\<close>

definition vid_page :: "'d nand_env \<Rightarrow> 'd machine \<Rightarrow> nand_globals \<Rightarrow> u32 \<Rightarrow> 'd sys \<Rightarrow> (u32 \<times> 'd sys) option" where
  "vid_page E M G offset s =
     (let c = nand_chip G;
          page = drop_bit (unat (page_size_shift c) - 1) (offset + scast (page_size c));
          src = push_bit (unat (page_size_shift c)) page
      in if \<not> is_4KB G
         then do {
           (errs, s) \<leftarrow> checkErasedPage E M c offset s;
           if errs \<noteq> 0 then Some (errs, s)
           else do { s \<leftarrow> read_nand_page E M DDR_BUFFER_ADDR src (scast (page_size c)) s; Some (errs, s) }
         }
         else do {
           s \<leftarrow> read_nand_page E M DDR_BUFFER_ADDR src (scast (page_size c)) s;
           Some (check_pattern DDR_BUFFER_ADDR 0xFF (page_size c) s, s)
         })"

fun vid_sections ::
  "'d nand_env \<Rightarrow> 'd machine \<Rightarrow> nand_info \<Rightarrow> nat \<Rightarrow> nat \<Rightarrow> u16 \<Rightarrow> 'd sys \<Rightarrow> (u16 \<times> 'd sys) option" where
  "vid_sections E M c section 0 errs s = Some (errs, s)"
| "vid_sections E M c section (Suc k) errs s = do {
     (errs, s) \<leftarrow> nand_check_page_ecc E (of_nat section) (page_size c) DDR_BUFFER_ADDR s;
     s \<leftarrow> (if errs <s 0 then c_put_str M (str ''ECC Error during VID Scan 2.'') s else Some s);
     vid_sections E M c (Suc section) k errs s
   }"

text \<open>
  One turn of the loop over the blocks: the value returned, if the turn returns, \<open>ubootblocks\<close> and the
  state. A store past the 20 elements of \<open>maptable\<close> is None. The last \<open>errs\<close> is an \<open>int\<close> that holds a \<open>short\<close>.
\<close>

definition vid_block ::
  "'d nand_env \<Rightarrow> 'd machine \<Rightarrow> int \<Rightarrow> u32 \<Rightarrow> u32 \<Rightarrow> nand_globals \<Rightarrow> 'd sys \<Rightarrow>
     (int option \<times> u32 \<times> nand_globals \<times> 'd sys) option" where
  "vid_block E M v offset ubootblocks G s = do {
     let c = nand_chip G;
     (b, s) \<leftarrow> checkBadBlock E M c offset s;
     if b \<noteq> 0 then Some (None, ubootblocks, G, s) else do {
       (errs, s) \<leftarrow> vid_page E M G offset s;
       if errs \<noteq> 0 then Some (None, ubootblocks, G, s) else do {
         (errs, s) \<leftarrow> nand_check_page_ecc E 0 (page_size c) DDR_BUFFER_ADDR s;
         if errs <s 0 then do {
           s \<leftarrow> c_put_str M (str ''ECC Error during VID Scan 1.'') s;
           Some (None, ubootblocks, G, s)
         }
         else if ram_load32 DDR_BUFFER_ADDR s = UBI_VID_HDR_MAGIC then do {
           (errs, s) \<leftarrow> vid_sections E M c 1 (unat (num_sections c) - 1) errs s;
           let vidhdr = vid_hdr_at DDR_BUFFER_ADDR s;
           if vol_id vidhdr = of_int v then
             (let crc = crcFast CRC32 (crcTable G) (ram_bytes DDR_BUFFER_ADDR UBI_VID_HDR_SIZE_CRC s) (int UBI_VID_HDR_SIZE_CRC)
              in if crc = hdr_crc vidhdr \<and> 0 \<le>s errs
                 then do {
                   m \<leftarrow> arr_set (maptable G) (unat (lnum vidhdr)) (offset + scast (page_size c) * 2);
                   let G = G\<lparr>maptable := m\<rparr>;
                   let ubootblocks = ubootblocks + 1;
                   Some (if ubootReservedBlocks G \<le> ubootblocks then Some 0 else None, ubootblocks, G, s)
                 }
                 else do {
                   s \<leftarrow> c_put_str M (str ''Header CRC Error -VID Scan.'') s;
                   Some (Some (-1), ubootblocks, G, s)
                 })
           else Some (None, ubootblocks, G, s)
         }
         else Some (None, ubootblocks, G, s)
       }
     }
   }"

partial_function (option) vid_loop ::
  "'d nand_env \<Rightarrow> 'd machine \<Rightarrow> int \<Rightarrow> u32 \<Rightarrow> u32 \<Rightarrow> nand_globals \<Rightarrow> 'd sys \<Rightarrow> (int \<times> nand_globals \<times> 'd sys) option" where
  "vid_loop E M v offset ubootblocks G s =
     (if offset < max_offset (nand_chip G)
      then do {
        (r, ubootblocks, G, s) \<leftarrow> vid_block E M v offset ubootblocks G s;
        (case r of
           Some r \<Rightarrow> Some (r, G, s)
         | None \<Rightarrow> vid_loop E M v (offset + block_size (nand_chip G)) ubootblocks G s)
      }
      else if ubootblocks < ubootReservedBlocks G
      then do {
        s \<leftarrow> c_put_str M (str ''Could not Find Uboot Blocks.Error!!'') s;
        Some (-1, G, s)
      }
      else Some (0, G, s))"

definition scanvid ::
  "'d nand_env \<Rightarrow> 'd machine \<Rightarrow> int \<Rightarrow> nand_globals \<Rightarrow> 'd sys \<Rightarrow> (int \<times> nand_globals \<times> 'd sys) option" where
  "scanvid E M v G s =
     (let G = G\<lparr>maptable := replicate 20 0\<rparr>
      in vid_loop E M v (nand_ubipart_baseaddr (nand_chip G)) 0 G s)"

subsection \<open>readmapTable\<close>

fun map_sections ::
  "'d nand_env \<Rightarrow> 'd machine \<Rightarrow> nand_info \<Rightarrow> u32 \<Rightarrow> nat \<Rightarrow> nat \<Rightarrow> 'd sys \<Rightarrow> (int option \<times> 'd sys) option" where
  "map_sections E M c bytes section 0 s = Some (None, s)"
| "map_sections E M c bytes section (Suc k) s = do {
     (errs, s) \<leftarrow> nand_check_page_ecc E (of_nat section) (page_size c) (UBOOT_TEXT_BASE + bytes) s;
     if errs <s 0 then do {
       s \<leftarrow> c_put_str M (str ''ECC Error. Read Map Table!!'') s;
       Some (Some (-1), s)
     }
     else map_sections E M c bytes (Suc section) k s
   }"

text \<open>
  One page: the value returned, if any. \<open>m\<close> is the entry of the map table, \<open>i\<close> the page, and the sum is
  an \<open>int\<close>.
\<close>

definition map_page ::
  "'d nand_env \<Rightarrow> 'd machine \<Rightarrow> nand_globals \<Rightarrow> u32 \<Rightarrow> u32 \<Rightarrow> u32 \<Rightarrow> 'd sys \<Rightarrow> (int option \<times> 'd sys) option" where
  "map_page E M G m i bytes s = do {
     let c = nand_chip G;
     let page = signed_drop_bit (unat (page_size_shift c) - 1) (m + i * scast (page_size c));
     s \<leftarrow> read_nand_page E M (UBOOT_TEXT_BASE + bytes) (push_bit (unat (page_size_shift c)) page) (scast (page_size c)) s;
     (errs, s) \<leftarrow> (if \<not> is_4KB G then checkErasedPage E M c (m + i * scast (page_size c)) s
                  else Some (check_pattern (UBOOT_TEXT_BASE + bytes) 0xFF (page_size c) s, s));
     if errs \<noteq> 0 then Some (Some 1, s)
     else map_sections E M c bytes 0 (unat (num_sections c)) s
   }"

partial_function (option) map_pages ::
  "'d nand_env \<Rightarrow> 'd machine \<Rightarrow> nand_globals \<Rightarrow> u32 \<Rightarrow> u32 \<Rightarrow> u32 \<Rightarrow> 'd sys \<Rightarrow> (int option \<times> u32 \<times> 'd sys) option" where
  "map_pages E M G m i bytes s =
     (if i < num_pages_per_block (nand_chip G) - 2
      then do {
        (r, s) \<leftarrow> map_page E M G m i bytes s;
        (case r of
           Some r \<Rightarrow> Some (Some r, bytes, s)
         | None \<Rightarrow> map_pages E M G m (i + 1) (bytes + scast (page_size (nand_chip G))) s)
      }
      else Some (None, bytes, s))"

text \<open>The do loop over the entries; a read past the 20 elements of \<open>maptable\<close> is None.\<close>

partial_function (option) map_blocks ::
  "'d nand_env \<Rightarrow> 'd machine \<Rightarrow> nand_globals \<Rightarrow> nat \<Rightarrow> u32 \<Rightarrow> 'd sys \<Rightarrow> (int \<times> 'd sys) option" where
  "map_blocks E M G index bytes s = do {
     m \<leftarrow> arr_get (maptable G) index;
     (r, bytes, s) \<leftarrow> map_pages E M G m 0 bytes s;
     (case r of
        Some r \<Rightarrow> Some (r, s)
      | None \<Rightarrow> do {
          m \<leftarrow> arr_get (maptable G) (index + 1);
          if m \<noteq> 0 then map_blocks E M G (index + 1) bytes s else Some (0, s)
        })
   }"

definition readmapTable :: "'d nand_env \<Rightarrow> 'd machine \<Rightarrow> nand_globals \<Rightarrow> 'd sys \<Rightarrow> (int \<times> 'd sys) option" where
  "readmapTable E M G s = map_blocks E M G 0 0 s"

subsection \<open>read\_uboot\<close>

text \<open>
  One turn of the loop: the value returned, or None after the \<open>continue\<close> of the primary volume. The
  messages end in a newline.
\<close>

definition uboot_attempt ::
  "'d nand_env \<Rightarrow> 'd machine \<Rightarrow> nat \<Rightarrow> nand_globals \<Rightarrow> 'd sys \<Rightarrow> (int option \<times> nand_globals \<times> 'd sys) option" where
  "uboot_attempt E M ubootVol G s = do {
     (v, G, s) \<leftarrow> scanlayoutv E M ubootVol G s;
     if v < 0 then
       if ubootVol \<noteq> 0 then Some (Some (-1), G, s)
       else do {
         s \<leftarrow> c_put_str M (str ''Uboot layout Scan failed.Switching to Backup Volume'') s;
         s \<leftarrow> c_put_char M 0x0D s;
         s \<leftarrow> c_put_char M 0x0A s;
         Some (None, G, s)
       }
     else do {
       (r, G, s) \<leftarrow> scanvid E M v G s;
       if r < 0 then
         if ubootVol \<noteq> 0 then Some (Some (-1), G, s)
         else do {
           s \<leftarrow> c_put_str M (str ''Uboot Volume ID failed. Switching to Backup Volume'' @ [0x0A]) s;
           Some (None, G, s)
         }
       else do {
         s \<leftarrow> c_put_str M (str ''STAGE2.'' @ [0x0A]) s;
         (r, s) \<leftarrow> readmapTable E M G s;
         if r < 0 then
           if ubootVol \<noteq> 0 then Some (Some (-1), G, s)
           else do {
             s \<leftarrow> c_put_char M (of_char (CHR ''B'')) s;
             s \<leftarrow> c_put_char M (of_char (CHR ''3'')) s;
             s \<leftarrow> c_put_str M (str ''EAB Table Read failed. Switching to Backup Volume'' @ [0x0A]) s;
             Some (None, G, s)
           }
         else do {
           s \<leftarrow> (if ubootVol = 0 then c_put_str M (str ''Booting from Primary Uboot Volume.'' @ [0x0A]) s
                else c_put_str M (str ''Error in Primary Uboot Volume!!Booting from Backup Uboot Volume'' @ [0x0A]) s);
           Some (Some 0, G, s)
         }
       }
     }
   }"

text \<open>The end of the loop, where the C function has no return statement, is None.\<close>

fun uboot_loop ::
  "'d nand_env \<Rightarrow> 'd machine \<Rightarrow> nat \<Rightarrow> nat \<Rightarrow> nand_globals \<Rightarrow> 'd sys \<Rightarrow> (int \<times> nand_globals \<times> 'd sys) option" where
  "uboot_loop E M ubootVol 0 G s = None"
| "uboot_loop E M ubootVol (Suc k) G s = do {
     (r, G, s) \<leftarrow> uboot_attempt E M ubootVol G s;
     (case r of Some r \<Rightarrow> Some (r, G, s) | None \<Rightarrow> uboot_loop E M (Suc ubootVol) k G s)
   }"

definition read_uboot :: "'d nand_env \<Rightarrow> 'd machine \<Rightarrow> nand_globals \<Rightarrow> 'd sys \<Rightarrow> (int \<times> nand_globals \<times> 'd sys) option" where
  "read_uboot E M G s =
     (let (G, s) = nand_init M G s;
          G = G\<lparr>crcTable := crcInit CRC32\<rparr>
      in uboot_loop E M 0 MAX_VOLUMES_UBOOT G s)"

end
