(* ===== verification/Nand_Read.thy ===== *)
theory Nand_Read
  imports Nand
begin

unbundle bit_operations_syntax

section \<open>Reading a NAND page\<close>

text \<open>
  What \<open>read_nand_page\<close> does on a controller that works, and the contract the scans of the UBI partition
  rest on. \<open>nand_regs\<close> states the registers: the index register selects a place of the flash, the data
  window reads it, and every wait ends. \<open>nand_part\<close> is the driver as its callers see it, and the first
  gives the second. Both are interpreted on a board at the end.
\<close>

subsection \<open>Words at an address\<close>

lemma push_drop_aligned:
  assumes "take_bit k w = 0"
  shows "push_bit (Suc k) (drop_bit k w) = push_bit 1 (w :: u32)"
    "push_bit (Suc k) (signed_drop_bit k w) = push_bit 1 w"
proof -
  have z: "\<not> bit w n" if "n < k" for n
    using assms that by (metis bit_take_bit_iff bit_0_eq bot_apply bot_bool_def)
  show "push_bit (Suc k) (drop_bit k w) = push_bit 1 w"
  proof (rule bit_word_eqI)
    fix n assume n: "n < LENGTH(32)"
    show "bit (push_bit (Suc k) (drop_bit k w)) n = bit (push_bit 1 w) n"
    proof (cases "Suc k \<le> n")
      case True
      then have "k + (n - Suc k) = n - 1" "n - k < 32" using n by auto
      with True n show ?thesis by (simp add: bit_simps)
    next
      case False
      then have "n = 0 \<or> n - 1 < k" by arith
      with False n z show ?thesis by (auto simp: bit_simps)
    qed
  qed
  show "push_bit (Suc k) (signed_drop_bit k w) = push_bit 1 w"
  proof (rule bit_word_eqI)
    fix n assume n: "n < LENGTH(32)"
    show "bit (push_bit (Suc k) (signed_drop_bit k w)) n = bit (push_bit 1 w) n"
    proof (cases "Suc k \<le> n")
      case True
      then have "k + (n - Suc k) = n - 1" "n - 1 \<noteq> 31" "n - Suc k \<noteq> 31" using n by auto
      with True n show ?thesis by (auto simp: bit_simps)
    next
      case False
      then have "n = 0 \<or> n - 1 < k" by arith
      with False n z show ?thesis by (auto simp: bit_simps)
    qed
  qed
qed

subsection \<open>A page in RAM\<close>

text \<open>
  \<open>words len\<close>: the loop copies whole words. \<open>overlay dest src n f m\<close>: RAM \<open>m\<close> after \<open>n\<close> bytes of \<open>f\<close> from
  \<open>src\<close> on have been stored at \<open>dest\<close>.
\<close>

definition words :: "u32 \<Rightarrow> nat" where
  "words len = 4 * ((unat len + 3) div 4)"

definition overlay :: "u32 \<Rightarrow> u32 \<Rightarrow> nat \<Rightarrow> (u32 \<Rightarrow> u8) \<Rightarrow> (u32 \<Rightarrow> u8) \<Rightarrow> u32 \<Rightarrow> u8" where
  "overlay dest src n f m = foldl (\<lambda>m i. m(phys (dest + of_nat i) := f (src + of_nat i))) m [0..<n]"

text \<open>The windows of RAM.\<close>

lemma phys_windows:
  assumes "n < 2 ^ 29"
  shows "unat (phys (0x80000000 + of_nat n)) = n" "unat (phys (0xA0000000 + of_nat n)) = n"
proof -
  have "(4 * 2 ^ 29 + n) mod 2 ^ 29 = n" "(5 * 2 ^ 29 + n) mod 2 ^ 29 = n"
    using assms by (simp_all only: mod_mult_self3 mod_less)
  then show "unat (phys (0x80000000 + of_nat n)) = n" "unat (phys (0xA0000000 + of_nat n)) = n"
    using assms by (simp_all add: unat_phys unat_word_ariths unsigned_of_nat take_bit_eq_mod)
qed

lemma overlay_0 [simp]: "overlay dest src 0 f m = m"
  by (simp add: overlay_def)

lemma overlay_Suc:
  "overlay dest src (Suc n) f m = (overlay dest src n f m)(phys (dest + of_nat n) := f (src + of_nat n))"
  by (simp add: overlay_def)

lemma overlay_off: "(\<And>i. i < n \<Longrightarrow> p \<noteq> phys (dest + of_nat i)) \<Longrightarrow> overlay dest src n f m p = m p"
  by (induction n) (auto simp: overlay_Suc)

lemma overlay_at:
  "i < n \<Longrightarrow> n \<le> 2 ^ 29 \<Longrightarrow> overlay dest src n f m (phys (dest + of_nat i)) = f (src + of_nat i)"
proof (induction n)
  case (Suc n)
  show ?case
  proof (cases "i = n")
    case True
    then show ?thesis by (simp only: overlay_Suc fun_upd_same)
  next
    case False
    then have "phys (dest + of_nat i) \<noteq> phys (dest + of_nat n)"
      using phys_offset_inj [of dest i n] Suc.prems by auto
    with False Suc show ?thesis by (simp add: overlay_Suc)
  qed
qed simp

lemma overlay_again:
  assumes "k \<le> n" "n \<le> 2 ^ 29"
  shows "overlay dest src n f (overlay dest src' k g m) = overlay dest src n f m"
proof
  fix p
  show "overlay dest src n f (overlay dest src' k g m) p = overlay dest src n f m p"
  proof (cases "\<exists>i < n. p = phys (dest + of_nat i)")
    case True
    then show ?thesis using overlay_at [OF _ assms(2)] by auto
  next
    case False
    then show ?thesis using assms(1) by (auto simp: overlay_off)
  qed
qed

definition filled :: "(u32 \<Rightarrow> u8) \<Rightarrow> u32 \<Rightarrow> u32 \<Rightarrow> nat \<Rightarrow> 'd sys \<Rightarrow> 'd sys \<Rightarrow> bool" where
  "filled f dest src n s t \<longleftrightarrow>
     gChipType t = gChipType s \<and> gSysClock t = gSysClock s \<and> mem t = overlay dest src n f (mem s)"

lemma filled_frame: "filled f dest src n s t \<Longrightarrow> frame t u \<Longrightarrow> filled f dest src n s u"
  "frame s t \<Longrightarrow> filled f dest src n t u \<Longrightarrow> filled f dest src n s u"
  by (auto simp: filled_def frame_def)

lemma filled_0: "filled f dest src 0 s t = frame s t"
  by (auto simp: filled_def frame_def)

subsection \<open>The registers of a working controller\<close>

text \<open>
  \<open>flash\<close> is the content of the chip by index, spare areas included, as it is delivered, \<open>eccr x sector\<close>
  the outcome of the error correction of the page last read from index \<open>x\<close>: negative when there are more
  errors than it can correct. \<open>still\<close>: nothing but the devices has changed, and these are still working,
  with the same index.
\<close>

definition still :: "('d \<Rightarrow> bool) \<Rightarrow> ('d \<Rightarrow> u32) \<Rightarrow> 'd sys \<Rightarrow> 'd sys \<Rightarrow> bool" where
  "still ok idx s t \<longleftrightarrow> frame s t \<and> ok (dev t) \<and> idx (dev t) = idx (dev s)"

lemma still_trans [trans]: "still ok idx s t \<Longrightarrow> still ok idx t u \<Longrightarrow> still ok idx s u"
  by (auto simp: still_def intro: frame_trans)

definition flash_word :: "(u32 \<Rightarrow> u8) \<Rightarrow> u32 \<Rightarrow> u32" where
  "flash_word f x = be32_of_bytes (f x) (f (x + 1)) (f (x + 2)) (f (x + 3))"

definition store32 :: "u32 \<Rightarrow> u32 \<Rightarrow> 'd sys \<Rightarrow> 'd sys" where
  "store32 a v s = s\<lparr>mem := (mem s)(phys a := ucast (drop_bit 24 v), phys (a + 1) := ucast (drop_bit 16 v),
     phys (a + 2) := ucast (drop_bit 8 v), phys (a + 3) := ucast v)\<rparr>"

locale nand_regs =
  fixes M :: "'d machine" and E :: "'d nand_env" and ok :: "'d \<Rightarrow> bool" and idx :: "'d \<Rightarrow> u32"
    and flash :: "u32 \<Rightarrow> u8"
  assumes command: "ok d \<Longrightarrow> ok (io_store M (EP501M3_BASE + EP501M3_COMMAND) v d)"
      "ok d \<Longrightarrow> idx (io_store M (EP501M3_BASE + EP501M3_COMMAND) v d) = idx d"
    and index: "ok d \<Longrightarrow> ok (io_store M (EP501M3_BASE + EP501M3_INDEX) v d)"
      "ok d \<Longrightarrow> idx (io_store M (EP501M3_BASE + EP501M3_INDEX) v d) = v"
    and data: "ok d \<Longrightarrow> i < 0x1000 \<Longrightarrow>
      \<exists>d'. io_load M (EP501M3_BASE + (EP501M3_DATA + of_nat i)) d = (flash_word flash (idx d + of_nat i), d') \<and>
        ok d' \<and> idx d' = idx d"
    and H_WR: "H_WR E a v s = store32 a v s"
    and chip_ready: "ok (dev s) \<Longrightarrow>
      \<exists>t. polling_until_set E (H_RD32 M 0xb90000bc) 1 s = Some t \<and> still ok idx s t"
    and rdreg: "ok (dev s) \<Longrightarrow> still ok idx s (snd (EP501M3_RDREG E a s))"
    and wrreg: "ok (dev s) \<Longrightarrow> still ok idx s (EP501M3_WRREG E EP501M3_COMMAND v s)"
    and status: "ok (dev s) \<Longrightarrow> still ok idx s (snd (nand_status E s))"
    and pecc_ends: "ok (dev s) \<Longrightarrow> \<exists>t. pecc_busy_fall E s = Some t \<and> still ok idx s t"
begin

lemma busy_rise: "ok (dev s) \<Longrightarrow> still ok idx s (pecc_busy_rise E i s)"
proof (induction i arbitrary: s)
  case 0
  then show ?case using status [of s] by (cases "nand_status E s") (simp add: pecc_busy_rise.simps [of E 0])
next
  case (Suc i)
  obtain v t where t: "nand_status E s = (v, t)" by (metis prod.exhaust)
  with Suc.prems have st: "still ok idx s t" using status [of s] by simp
  moreover have "still ok idx t (pecc_busy_rise E i t)"
    using Suc.IH [of t] st by (simp add: still_def)
  ultimately show ?case
    by (auto simp: pecc_busy_rise.simps [of E "Suc i"] t intro: still_trans)
qed

lemma data_step:
  assumes d: "ok (dev s)" "idx (dev s) = x" "4 * k + 4 \<le> 0x1000"
    and m: "mem s = overlay dest x (4 * k) flash m0"
  obtains v t where "EP501M3_RD M (EP501M3_DATA + of_nat (4 * k)) s = (v, t)"
    "ok (dev t)" "idx (dev t) = x" "gChipType t = gChipType s" "gSysClock t = gSysClock s"
    "mem (H_WR E (dest + of_nat (4 * k)) v t) = overlay dest x (4 * Suc k) flash m0"
proof -
  obtain d' where l: "io_load M (EP501M3_BASE + (EP501M3_DATA + of_nat (4 * k))) (dev s) =
      (flash_word flash (x + of_nat (4 * k)), d')" "ok d'" "idx d' = x"
    using data [of "dev s" "4 * k"] d by auto
  have Suc4: "4 * Suc k = Suc (Suc (Suc (Suc (4 * k))))" by simp
  have "mem (H_WR E (dest + of_nat (4 * k)) (flash_word flash (x + of_nat (4 * k))) (s\<lparr>dev := d'\<rparr>)) =
      overlay dest x (4 * Suc k) flash m0"
    unfolding Suc4 overlay_Suc H_WR store32_def flash_word_def
    by (simp add: m add.assoc add.commute add.left_commute)
  with l that [of "flash_word flash (x + of_nat (4 * k))" "s\<lparr>dev := d'\<rparr>"] show ?thesis
    by (simp add: EP501M3_RD_def H_RD32_def)
qed

lemma data_loop:
  assumes "ok (dev s)" "idx (dev s) = x" "unat len \<le> 0x1000" "k \<le> (unat len + 3) div 4"
    and "mem s = overlay dest x (4 * k) flash m0"
  shows "\<exists>t. read_nand_data E M dest len (of_nat (4 * k)) s = Some t \<and> ok (dev t) \<and> idx (dev t) = x \<and>
    gChipType t = gChipType s \<and> gSysClock t = gSysClock s \<and> mem t = overlay dest x (words len) flash m0"
  using assms
proof (induction "(unat len + 3) div 4 - k" arbitrary: k s)
  case 0
  then have k: "k = (unat len + 3) div 4" by simp
  then have "unat len \<le> 4 * k" by simp
  moreover have "4 * k < 2 ^ 32" using k 0 by simp
  ultimately have "\<not> of_nat (4 * k) < len"
    by (simp add: word_less_nat_alt unsigned_of_nat take_bit_nat_eq_self del: of_nat_mult)
  with 0 k show ?case
    by (subst read_nand_data.simps) (simp add: words_def)
next
  case (Suc j)
  then have k: "k < (unat len + 3) div 4" by simp
  then have k4: "4 * k < unat len" "4 * k + 4 \<le> 0x1000" using Suc.prems by auto
  then have less: "of_nat (4 * k) < len"
    by (simp add: word_less_nat_alt unsigned_of_nat take_bit_nat_eq_self del: of_nat_mult)
  obtain v t where t: "EP501M3_RD M (EP501M3_DATA + of_nat (4 * k)) s = (v, t)"
    "ok (dev t)" "idx (dev t) = x" "gChipType t = gChipType s" "gSysClock t = gSysClock s"
    "mem (H_WR E (dest + of_nat (4 * k)) v t) = overlay dest x (4 * Suc k) flash m0"
    using data_step [OF Suc.prems(1,2) k4(2) Suc.prems(5)] .
  let ?u = "H_WR E (dest + of_nat (4 * k)) v t"
  have u: "dev ?u = dev t" "gChipType ?u = gChipType s" "gSysClock ?u = gSysClock s"
    by (simp_all add: H_WR store32_def t)
  have "of_nat (4 * Suc k) = (of_nat (4 * k) + 4 :: u32)" by simp
  moreover have "\<exists>u. read_nand_data E M dest len (of_nat (4 * Suc k)) ?u = Some u \<and> ok (dev u) \<and> idx (dev u) = x \<and>
    gChipType u = gChipType ?u \<and> gSysClock u = gSysClock ?u \<and> mem u = overlay dest x (words len) flash m0"
    by (rule Suc.hyps(1)) (use Suc.hyps(2) k u t Suc.prems in auto)
  ultimately show ?case
    by (subst read_nand_data.simps) (simp add: less t(1) u del: of_nat_mult of_nat_Suc mult_Suc_right)
qed

lemma page_read:
  assumes "ok (dev s)" "unat len \<le> 0x1000"
  shows "\<exists>t. read_nand_page E M dest src len s = Some t \<and> filled flash dest src (words len) s t \<and>
    ok (dev t) \<and> idx (dev t) = src"
proof -
  define s1 where "s1 = EP501M3_WR M EP501M3_COMMAND 0xE0 (EP501M3_WR M EP501M3_INDEX src (EP501M3_WR M EP501M3_COMMAND 0x00 s))"
  have s1: "frame s s1" "ok (dev s1)" "idx (dev s1) = src"
    unfolding s1_def EP501M3_WR_def H_WR32_def frame_def using command index assms(1) by simp_all
  obtain s2 where s2: "polling_until_set E (H_RD32 M 0xb90000bc) 1 s1 = Some s2" "still ok idx s1 s2"
    using chip_ready s1(2) by blast
  then have i2: "ok (dev s2)" "idx (dev s2) = src" "frame s s2"
    using s1 by (auto simp: still_def intro: frame_trans)
  obtain s3 where s3: "read_nand_data E M dest len 0 s2 = Some s3" "ok (dev s3)" "idx (dev s3) = src"
    "filled flash dest src (words len) s2 s3"
    using data_loop [of s2 src len 0 dest "mem s2"] i2 assms(2) by (auto simp: filled_def)
  obtain v s4 where s4: "EP501M3_RDREG E EP501M3_INDEX s3 = (v, s4)" "still ok idx s3 s4"
    using rdreg [OF s3(2)] by (metis prod.exhaust snd_conv)
  obtain s5 where s5: "(if v AND 0x800 = 0 then pecc_busy_fall E (pecc_busy_rise E 20 (EP501M3_WRREG E EP501M3_COMMAND 0x23 s4))
      else Some s4) = Some s5" "still ok idx s4 s5"
  proof (cases "v AND 0x800 = 0")
    case True
    have r: "still ok idx s4 (pecc_busy_rise E 20 (EP501M3_WRREG E EP501M3_COMMAND 0x23 s4))" (is "still _ _ _ ?r")
      using wrreg [of s4 "0x23"] s4(2) busy_rise by (meson still_def still_trans)
    then obtain t where "pecc_busy_fall E ?r = Some t" "still ok idx ?r t"
      using pecc_ends [of ?r] by (auto simp: still_def)
    with True r that show ?thesis by (auto intro: still_trans)
  next
    case False
    with s4 that show ?thesis by (auto simp: still_def)
  qed
  let ?t = "EP501M3_WRREG E EP501M3_COMMAND 0xEE s5"
  have t: "still ok idx s3 ?t"
    using wrreg [of s5 "0xEE"] s4(2) s5(2) by (meson still_def still_trans)
  have "read_nand_page E M dest src len s = Some ?t"
    by (simp add: read_nand_page_def flip: s1_def) (simp add: s2 s3 s4 s5)
  moreover have "filled flash dest src (words len) s ?t"
    using s3(4) i2(3) t by (auto simp: still_def intro: filled_frame)
  ultimately show ?thesis using t s3 by (auto simp: still_def)
qed

end

subsection \<open>The driver as its callers see it\<close>

text \<open>
  \<open>loaded x d\<close>: the devices work, console included, and the page at \<open>x\<close> is the one last read. The error
  correction reports on that page.
\<close>

locale nand_part =
  fixes M :: "'d machine" and E :: "'d nand_env" and outs :: "'d \<Rightarrow> u8 list" and loaded :: "u32 \<Rightarrow> 'd \<Rightarrow> bool"
    and flash :: "u32 \<Rightarrow> u8" and eccr :: "u32 \<Rightarrow> u32 \<Rightarrow> u16"
  assumes console: "console M outs (loaded x)"
    and read_page: "loaded x (dev s) \<Longrightarrow> unat len \<le> 0x1000 \<Longrightarrow>
      \<exists>t. read_nand_page E M dest src len s = Some t \<and> filled flash dest src (words len) s t \<and> loaded src (dev t)"
    and print_hex: "loaded x (dev s) \<Longrightarrow> \<exists>t. printHex_u32 E v s = Some t \<and> frame s t \<and> loaded x (dev t)"
    and correct: "loaded x (dev s) \<Longrightarrow>
      \<exists>r t. correct_page E sector n a s = Some (r, t) \<and> ucast r = eccr x sector \<and> frame s t \<and> loaded x (dev t)"
begin

lemma readE:
  assumes "loaded x (dev s)" "unat len \<le> 0x1000"
  obtains t where "read_nand_page E M dest src len s = Some t" "filled flash dest src (words len) s t" "loaded src (dev t)"
  using read_page [OF assms] by blast

lemma checkE:
  assumes "loaded x (dev s)"
  obtains t where "nand_check_page_ecc E sector n a s = Some (eccr x sector, t)" "frame s t" "loaded x (dev t)"
proof -
  obtain r t where "correct_page E sector n a s = Some (r, t)" "ucast r = eccr x sector" "frame s t" "loaded x (dev t)"
    using correct [OF assms] by blast
  with that show ?thesis by (simp add: nand_check_page_ecc_def)
qed

lemma putE:
  assumes "loaded x (dev s)"
  obtains t where "c_put_char M c s = Some t" "frame s t" "loaded x (dev t)"
  by (rule console.put_charE [OF console assms, of c]) (auto simp: sent_def)

lemma put_strE:
  assumes "loaded x (dev s)" "0 \<notin> set cs"
  obtains t where "c_put_str M cs s = Some t" "frame s t" "loaded x (dev t)"
  by (rule console.put_strE [OF console assms(2,1)]) (auto simp: sent_def)

end

text \<open>A controller, a console and an error correction that works on the page of the index register are a driver.\<close>

locale nand_hw = nand_regs M E ok idx flash
  for M :: "'d machine" and E :: "'d nand_env" and ok idx flash +
  fixes outs :: "'d \<Rightarrow> u8 list" and eccr :: "u32 \<Rightarrow> u32 \<Rightarrow> u16"
  assumes console: "console M outs (\<lambda>d. ok d \<and> idx d = x)"
    and print_hex: "ok (dev s) \<Longrightarrow> \<exists>t. printHex_u32 E v s = Some t \<and> still ok idx s t"
    and correct: "ok (dev s) \<Longrightarrow>
      \<exists>r t. correct_page E sector n a s = Some (r, t) \<and> ucast r = eccr (idx (dev s)) sector \<and> still ok idx s t"

sublocale nand_hw \<subseteq> part: nand_part M E outs "\<lambda>x d. ok d \<and> idx d = x" flash eccr
proof (rule nand_part.intro)
  show "ok (dev s) \<and> idx (dev s) = x \<Longrightarrow> unat len \<le> 0x1000 \<Longrightarrow>
      \<exists>t. read_nand_page E M dest src len s = Some t \<and> filled flash dest src (words len) s t \<and> ok (dev t) \<and> idx (dev t) = src"
    for s :: "'d sys" and x len dest src
    using page_read by blast
  show "ok (dev s) \<and> idx (dev s) = x \<Longrightarrow> \<exists>t. printHex_u32 E v s = Some t \<and> frame s t \<and> ok (dev t) \<and> idx (dev t) = x"
    for s :: "'d sys" and x v
    using print_hex by (force simp: still_def)
  show "ok (dev s) \<and> idx (dev s) = x \<Longrightarrow>
      \<exists>r t. correct_page E sector n a s = Some (r, t) \<and> ucast r = eccr x sector \<and> frame s t \<and> ok (dev t) \<and> idx (dev t) = x"
    for s :: "'d sys" and x sector n a
    using correct by (force simp: still_def)
  show "console M outs (\<lambda>d. ok d \<and> idx d = x)" for x
    by (rule console)
qed

subsection \<open>A board with a flash\<close>

text \<open>
  The routines that are not in the repository, for boards whose controller is always ready: plain accesses, a
  polling loop, hexadecimal output on the console, and an error correction that reports \<open>eccr\<close> for the page
  of the index register.
\<close>

partial_function (option) poll_value :: "('d sys \<Rightarrow> u32 \<times> 'd sys) \<Rightarrow> u32 \<Rightarrow> 'd sys \<Rightarrow> 'd sys option" where
  "poll_value rd bitmsk s =
     (let (v, s) = rd s in if bitmsk \<noteq> v AND bitmsk then poll_value rd bitmsk s else Some s)"

definition plain_env :: "'d machine \<Rightarrow> ('d \<Rightarrow> u32) \<Rightarrow> u32 \<Rightarrow> (u32 \<Rightarrow> u32 \<Rightarrow> u16) \<Rightarrow> 'd nand_env" where
  "plain_env M idx strap eccr =
     \<lparr>H_WR = store32,
      EP501M3_RDREG = EP501M3_RD M, EP501M3_WRREG = EP501M3_WR M,
      polling_until_set = poll_value,
      nand_status = H_RD32 M (SCU nandctrl_status), NAND_PECC_BUSY = 2,
      printHex_u32 = c_put_hex32 M, reset_strap_val = strap,
      correct_page = (\<lambda>sector n a s. Some (scast (eccr (idx (dev s)) sector), s))\<rparr>"

lemma ucast_scast_u16: "ucast (scast (c :: u16) :: u32) = c"
  by (rule bit_word_eqI) (auto simp: bit_simps)

lemma plain_nand_hw:
  assumes console: "\<And>x. console M outs (\<lambda>d. ok d \<and> idx d = x)"
    and keep: "\<And>a d v e. io_load M a d = (v, e) \<Longrightarrow> ok e = ok d \<and> idx e = idx d"
    and status: "\<And>d. io_load M (SCU nandctrl_status) d = (1, d)"
    and command: "\<And>v d. ok (io_store M (EP501M3_BASE + EP501M3_COMMAND) v d) = ok d \<and>
      idx (io_store M (EP501M3_BASE + EP501M3_COMMAND) v d) = idx d"
    and index: "\<And>v d. ok (io_store M (EP501M3_BASE + EP501M3_INDEX) v d) = ok d \<and>
      idx (io_store M (EP501M3_BASE + EP501M3_INDEX) v d) = v"
    and data: "\<And>i d. i < 0x1000 \<Longrightarrow>
      fst (io_load M (EP501M3_BASE + (EP501M3_DATA + of_nat i)) d) = flash_word flash (idx d + of_nat i)"
  shows "nand_hw M (plain_env M idx strap eccr) ok idx flash outs eccr"
proof (intro nand_hw.intro nand_hw_axioms.intro nand_regs.intro)
  let ?E = "plain_env M idx strap eccr"
  have load: "ok (snd (io_load M a d)) = ok d" "idx (snd (io_load M a d)) = idx d" for a d
    using keep [of a d] by (metis prod.collapse)+
  show "\<exists>d'. io_load M (EP501M3_BASE + (EP501M3_DATA + of_nat i)) d = (flash_word flash (idx d + of_nat i), d') \<and>
      ok d' \<and> idx d' = idx d" if "ok d" "i < 0x1000" for d i
    using that data [of i d] load by (metis prod.collapse)
  show "H_WR ?E a v s = store32 a v s" for a v s
    by (simp add: plain_env_def)
  have st: "H_RD32 M (SCU nandctrl_status) s = (1, s)" for s
    by (simp add: H_RD32_def status)
  have a: "SCU nandctrl_status = 0xb90000bc"
    by (simp add: reg_defs)
  have "poll_value (H_RD32 M 0xb90000bc) 1 s = Some s" for s
    by (subst poll_value.simps) (simp add: st [unfolded a])
  then show "\<exists>t. polling_until_set ?E (H_RD32 M 0xb90000bc) 1 s = Some t \<and> still ok idx s t" if "ok (dev s)" for s
    using that by (simp add: plain_env_def still_def)
  show "still ok idx s (snd (EP501M3_RDREG ?E a s))" if "ok (dev s)" for a s
    using that by (simp add: plain_env_def EP501M3_RD_def H_RD32_def still_def frame_def load split: prod.split)
      (metis load snd_conv)
  show "still ok idx s (EP501M3_WRREG ?E EP501M3_COMMAND v s)" if "ok (dev s)" for v s
    using that command by (simp add: plain_env_def EP501M3_WR_def H_WR32_def still_def frame_def)
  show "still ok idx s (snd (nand_status ?E s))" if "ok (dev s)" for s
    using that by (simp add: plain_env_def st still_def)
  have "pecc_busy_fall ?E s = Some s" for s
    by (subst pecc_busy_fall.simps) (simp add: plain_env_def st)
  then show "\<exists>t. pecc_busy_fall ?E s = Some t \<and> still ok idx s t" if "ok (dev s)" for s
    using that by (simp add: still_def)
  show "console M outs (\<lambda>d. ok d \<and> idx d = x)" for x
    by (rule console)
  show "\<exists>t. printHex_u32 ?E v s = Some t \<and> still ok idx s t" if "ok (dev s)" for v s
  proof -
    have r: "ok (dev s) \<and> idx (dev s) = idx (dev s)" using that by simp
    obtain t where t: "c_put_hex16 M (ucast (drop_bit 16 v)) s = Some t" "frame s t" "ok (dev t) \<and> idx (dev t) = idx (dev s)"
      unfolding c_put_hex16_chars by (rule console.put_strE [OF console hex16_chars_nonzero r]) (auto simp: sent_def)
    obtain u where u: "c_put_hex16 M (ucast v) t = Some u" "frame t u" "ok (dev u) \<and> idx (dev u) = idx (dev s)"
      unfolding c_put_hex16_chars by (rule console.put_strE [OF console hex16_chars_nonzero t(3)]) (auto simp: sent_def)
    from t u show ?thesis
      by (auto simp: plain_env_def c_put_hex32_def still_def intro: frame_trans)
  qed
  show "\<exists>r t. correct_page ?E sector n a s = Some (r, t) \<and> ucast r = eccr (idx (dev s)) sector \<and> still ok idx s t"
    if "ok (dev s)" for sector n a s
    using that by (simp add: plain_env_def still_def ucast_scast_u16)
qed (simp_all add: command index)

record nboard =
  nouts :: "u8 list"
  nidx :: u32

definition nand_machine :: "u32 \<Rightarrow> (u32 \<Rightarrow> u8) \<Rightarrow> nboard machine" where
  "nand_machine strap flash =
     \<lparr>io_load = (\<lambda>a d. (if a = UART1 lsr then UART_LSR_BITMASK_THRE
                        else if a = SCU nandctrl_status then 1
                        else if a = SCU rst_strp then strap
                        else flash_word flash (nidx d + (a - (EP501M3_BASE + EP501M3_DATA))), d)),
      io_store = (\<lambda>a v d. if a = UART1 u0 then d\<lparr>nouts := nouts d @ [ucast v]\<rparr>
                            else if a = EP501M3_BASE + EP501M3_INDEX then d\<lparr>nidx := v\<rparr> else d),
      get_count = (\<lambda>d. (0, d)), set_count = (\<lambda>v d. d), set_compare = (\<lambda>v d. d)\<rparr>"

definition nand_machine_env :: "u32 \<Rightarrow> (u32 \<Rightarrow> u8) \<Rightarrow> (u32 \<Rightarrow> u32 \<Rightarrow> u16) \<Rightarrow> nboard nand_env" where
  "nand_machine_env strap flash eccr = plain_env (nand_machine strap flash) nidx strap eccr"

lemma nand_machine_simps [simp]:
  "io_load (nand_machine strap flash) a d =
     (if a = UART1 lsr then UART_LSR_BITMASK_THRE else if a = SCU nandctrl_status then 1
      else if a = SCU rst_strp then strap
      else flash_word flash (nidx d + (a - (EP501M3_BASE + EP501M3_DATA))), d)"
  "io_store (nand_machine strap flash) a v d =
     (if a = UART1 u0 then d\<lparr>nouts := nouts d @ [ucast v]\<rparr>
      else if a = EP501M3_BASE + EP501M3_INDEX then d\<lparr>nidx := v\<rparr> else d)"
  by (simp_all add: nand_machine_def)

lemma console_nand_machine: "console (nand_machine strap flash) nouts (\<lambda>d. True \<and> nidx d = x)"
proof
  fix s :: "nboard sys" and c :: u8
  assume r: "True \<and> nidx (dev s) = x"
  have "c_poll32_until_set (nand_machine strap flash) (UART1 lsr) UART_LSR_BITMASK_THRE s = Some s"
    by (subst c_poll32_until_set.simps) (simp add: H_RD32_def)
  with r show "\<exists>t. c_put_char (nand_machine strap flash) c s = Some t \<and> sent nouts (\<lambda>d. True \<and> nidx d = x) s [c] t"
    by (simp add: c_put_char_def H_WR32_def sent_def frame_def ucast_scast_u8)
qed

lemma window_off:
  assumes "i < 0x1000"
  shows "EP501M3_BASE + (EP501M3_DATA + of_nat i) \<noteq> UART1 r"
    "EP501M3_BASE + (EP501M3_DATA + of_nat i) \<noteq> SCU nandctrl_status"
    "EP501M3_BASE + (EP501M3_DATA + of_nat i) \<noteq> SCU rst_strp"
proof -
  have u: "unat (EP501M3_BASE + (EP501M3_DATA + of_nat i)) = 0xB9090000 + i"
    using assms by (simp add: reg_defs unat_word_ariths unsigned_of_nat take_bit_eq_mod)
  show "EP501M3_BASE + (EP501M3_DATA + of_nat i) \<noteq> UART1 r"
  proof
    assume "EP501M3_BASE + (EP501M3_DATA + of_nat i) = UART1 r"
    then have "unat (UART1 r) = 0xB9090000 + i" using u by metis
    then show False by (cases r) (simp_all add: uart_defs)
  qed
  show "EP501M3_BASE + (EP501M3_DATA + of_nat i) \<noteq> SCU nandctrl_status"
  proof
    assume "EP501M3_BASE + (EP501M3_DATA + of_nat i) = SCU nandctrl_status"
    then have "unat (SCU nandctrl_status) = 0xB9090000 + i" using u by metis
    then show False by (simp add: reg_defs)
  qed
  show "EP501M3_BASE + (EP501M3_DATA + of_nat i) \<noteq> SCU rst_strp"
  proof
    assume "EP501M3_BASE + (EP501M3_DATA + of_nat i) = SCU rst_strp"
    then have "unat (SCU rst_strp) = 0xB9090000 + i" using u by metis
    then show False by (simp add: reg_defs)
  qed
qed


interpretation nand_board: nand_hw "nand_machine strap flash" "nand_machine_env strap flash eccr" "\<lambda>_. True" nidx flash nouts eccr
  for strap flash eccr
  unfolding nand_machine_env_def
proof (rule plain_nand_hw)
  have d: "EP501M3_BASE + EP501M3_COMMAND \<noteq> UART1 u0" "EP501M3_BASE + EP501M3_INDEX \<noteq> UART1 u0"
    "EP501M3_BASE + EP501M3_COMMAND \<noteq> EP501M3_BASE + EP501M3_INDEX"
    by (simp_all add: reg_defs uart_defs)
  show "True = True \<and> nidx (io_store (nand_machine strap flash) (EP501M3_BASE + EP501M3_COMMAND) v d) = nidx d"
    "True = True \<and> nidx (io_store (nand_machine strap flash) (EP501M3_BASE + EP501M3_INDEX) v d) = v" for v d
    using d by simp_all
  show "fst (io_load (nand_machine strap flash) (EP501M3_BASE + (EP501M3_DATA + of_nat i)) d) = flash_word flash (nidx d + of_nat i)"
    if "i < 0x1000" for i d
    using window_off [OF that] by (simp add: add.assoc [symmetric])
  have "SCU nandctrl_status \<noteq> UART1 lsr" by (simp add: reg_defs uart_defs)
  then show "io_load (nand_machine strap flash) (SCU nandctrl_status) d = (1, d)" for d by simp
  show "console (nand_machine strap flash) nouts (\<lambda>d. True \<and> nidx d = x)" for x
    by (rule console_nand_machine)
qed auto


subsection \<open>Correctness\<close>

text \<open>
  On a working controller \<open>read_nand_page\<close> returns, has copied the flash from index \<open>src\<close> on to \<open>dest\<close>,
  whole words, so up to three bytes more than \<open>len\<close>, and leaves the rest of RAM alone.
\<close>

theorem read_nand_page_copies:
  assumes "nand_regs M E ok idx flash" "ok (dev s)" "unat len \<le> 0x1000" "i < words len"
  shows "\<exists>t. read_nand_page E M dest src len s = Some t \<and>
    ram_load8 (dest + of_nat i) t = flash (src + of_nat i) \<and>
    (\<forall>p. (\<forall>j < words len. p \<noteq> phys (dest + of_nat j)) \<longrightarrow> mem t p = mem s p)"
proof -
  obtain t where t: "read_nand_page E M dest src len s = Some t" "filled flash dest src (words len) s t"
    using nand_regs.page_read [OF assms(1-3)] by blast
  have "words len \<le> 2 ^ 29" using assms(3) by (simp add: words_def)
  then have "ram_load8 (dest + of_nat i) t = flash (src + of_nat i)"
    using t(2) overlay_at [OF assms(4)] by (simp add: filled_def ram_load8_def)
  moreover have "mem t p = mem s p" if "\<forall>j < words len. p \<noteq> phys (dest + of_nat j)" for p
    using t(2) that overlay_off [of "words len" p dest src flash "mem s"] by (simp add: filled_def)
  ultimately show ?thesis using t(1) by blast
qed

definition nand_sys0 :: "(u32 \<Rightarrow> u8) \<Rightarrow> nboard sys" where
  "nand_sys0 m = \<lparr>gChipType = 0, gSysClock = 0, dev = \<lparr>nouts = [], nidx = 0\<rparr>, mem = m\<rparr>"

theorem read_nand_page_copies_witness:
  "\<exists>t. read_nand_page (nand_machine_env 0 ucast (\<lambda>_ _. 0)) (nand_machine 0 ucast) DDR_BUFFER_ADDR 0x10 1 (nand_sys0 (\<lambda>_. 7)) = Some t \<and>
    ram_load8 (DDR_BUFFER_ADDR + of_nat 3) t = 0x13 \<and>
    (\<forall>p. (\<forall>j < words 1. p \<noteq> phys (DDR_BUFFER_ADDR + of_nat j)) \<longrightarrow> mem t p = 7)"
  using read_nand_page_copies
    [where s = "nand_sys0 (\<lambda>_. 7)" and len = 1 and i = 3 and dest = DDR_BUFFER_ADDR and src = "0x10",
      OF nand_board.nand_regs_axioms [where strap = 0 and flash = ucast and eccr = "\<lambda>_ _. 0"]]
  by (simp add: words_def nand_sys0_def)

definition hex_lower :: "nat \<Rightarrow> u8" where
  "hex_lower n = (if n < 10 then of_char (CHR ''0'') + of_nat n else of_char (CHR ''a'') + of_nat (n - 10))"

lemma convertInt_digit_lower:
  "convertInt_digit address (4 * i) = hex_lower (unat address div 16 ^ i mod 16)"
proof -
  let ?n = "unat address div 16 ^ i mod 16"
  have "drop_bit (4 * i) address AND 0x0f = take_bit 4 (drop_bit (4 * i) address)"
    by (simp add: take_bit_eq_mask mask_eq_exp_minus_1)
  also have "\<dots> = of_nat (take_bit 4 (drop_bit (4 * i) (unat address)))"
    by (rule bit_word_eqI) (auto simp: bit_simps bit_unsigned_iff)
  finally have "drop_bit (4 * i) address AND 0x0f = of_nat ?n"
    by (simp add: take_bit_eq_mod drop_bit_eq_div power_mult)
  then have "unat (drop_bit (4 * i) address AND 0x0f) = ?n"
    by (simp add: unsigned_of_nat take_bit_nat_eq_self)
  then have b: "(ucast (drop_bit (4 * i) address AND 0x0f) :: u8) = of_nat ?n"
    unfolding ucast_of_unat by (rule arg_cong)
  have "?n < 16" by simp
  then have "(let b = of_nat ?n :: u8 in if 10 \<le> b then b - 10 + of_char (CHR ''a'') else b + of_char (CHR ''0'')) = hex_lower ?n"
    unfolding hex_lower_def
    by (auto simp: Let_def word_le_nat_alt unsigned_of_nat take_bit_nat_eq_self of_nat_diff)
  then show ?thesis unfolding convertInt_digit_def b .
qed

text \<open>
  \<open>convertInt_Text\<close> writes eight hexadecimal digits and a NUL, whatever the buffer held: the digits in
  lower case, most significant first.
\<close>

theorem convertInt_Text_digits:
  assumes "length outASC = 9"
  shows "convertInt_Text address outASC =
    Some (map (\<lambda>k. hex_lower (unat address div 16 ^ k mod 16)) [7, 6, 5, 4, 3, 2, 1, 0] @ [0])"
proof -
  obtain a b c d e f g h i where o9: "outASC = [a, b, c, d, e, f, g, h, i]"
    using assms by (auto simp: length_Suc_conv numeral_eq_Suc)
  have step: "0 < k \<Longrightarrow> convertInt_loop address i k xs =
      Option.bind (arr_set xs (7 - i) (convertInt_digit address (4 * i))) (convertInt_loop address (i + 1) (k - 1))" for i k xs
    by (cases k) simp_all
  show ?thesis
    by (simp add: convertInt_Text_def o9 arr_set_def step convertInt_digit_lower [symmetric])
qed

theorem convertInt_Text_digits_witness:
  "convertInt_Text 0xBEEF (replicate 9 1) = Some (str ''0000beef'' @ [0])"
  using convertInt_Text_digits [of "replicate 9 1" "0xBEEF"] by (simp add: hex_lower_def str_def)

end
