(* ===== verification/Nand_Scan.thy ===== *)
theory Nand_Scan
  imports Nand_Read
begin

unbundle bit_operations_syntax

section \<open>The scans of the UBI partition\<close>

text \<open>
  What the two scans compute, as functions of the flash alone: \<open>layout_spec\<close> for \<open>scanlayoutv\<close> and
  \<open>vid_spec\<close> for \<open>scanvid\<close> walk over the list of the blocks without registers, buffer or console. The
  refinement lemmas say that the C functions return these values on every driver that keeps the contract
  \<open>nand_part\<close>; the properties of the scans follow from the recursion of the specifications.
\<close>

subsection \<open>The two chips\<close>

definition chip_4KB :: nand_info where
  "chip_4KB = \<lparr>page_size = 0x1000, nand_size = 0x40000000, block_size = 0x80000, page_size_shift = 13, oob_size = 224,
     nand_ubipart_baseaddr = 0x80000, num_pages_per_block = 128, max_offset = 0x3FF40000, num_sections = 8\<rparr>"

definition chip_2KB :: nand_info where
  "chip_2KB = \<lparr>page_size = 0x800, nand_size = 0x20000000, block_size = 0x20000, page_size_shift = 12, oob_size = 64,
     nand_ubipart_baseaddr = 0x20000, num_pages_per_block = 64, max_offset = 0x1FF40000, num_sections = 4\<rparr>"

definition geometry :: "nand_globals \<Rightarrow> bool" where
  "geometry G \<longleftrightarrow> nand_chip G = (if is_4KB G then chip_4KB else chip_2KB)"

definition ps :: "nand_globals \<Rightarrow> nat" where
  "ps G = (if is_4KB G then 0x1000 else 0x800)"

definition block_bytes :: "nand_globals \<Rightarrow> nat" where
  "block_bytes G = (if is_4KB G then 0x80000 else 0x20000)"

text \<open>The offsets of the blocks the scans visit: the first block of the chip is left out.\<close>

definition n_blocks :: "nand_globals \<Rightarrow> nat" where
  "n_blocks G = (if is_4KB G then 2047 else 4090)"

definition block_offset :: "nand_globals \<Rightarrow> nat \<Rightarrow> u32" where
  "block_offset G b = of_nat (b * block_bytes G)"

lemma nand_init_geometry: "geometry (fst (nand_init M G s))"
  by (cases "H_RD32 M (SCU rst_strp) s")
    (simp add: nand_init_def geometry_def is_4KB_def Let_def chip_4KB_def chip_2KB_def reg_defs)

lemma geometry_chip:
  assumes "geometry G"
  shows "scast (page_size (nand_chip G)) = (of_nat (ps G) :: u32)"
    "nat (sint (page_size (nand_chip G))) = ps G"
    "unat (scast (oob_size (nand_chip G)) :: u32) \<le> 224"
    "block_size (nand_chip G) = of_nat (block_bytes G)"
    "nand_ubipart_baseaddr (nand_chip G) = block_offset G 1"
    "unat (page_size_shift (nand_chip G)) = Suc (unat (page_size_shift (nand_chip G)) - 1)"
    "num_pages_per_block (nand_chip G) = of_nat (block_bytes G div ps G)"
  using assms by (simp_all add: geometry_def ps_def block_bytes_def block_offset_def chip_4KB_def chip_2KB_def)

lemma block_less_max:
  assumes "geometry G" "b \<le> n_blocks G"
  shows "block_offset G b < max_offset (nand_chip G) \<longleftrightarrow> b < n_blocks G"
proof -
  have "b * block_bytes G < 2 ^ 32" "n_blocks G * block_bytes G < 2 ^ 32"
    using assms(2) by (auto simp: n_blocks_def block_bytes_def split: if_splits)
  then have "unat (block_offset G b) = b * block_bytes G"
    unfolding block_offset_def by (simp add: unsigned_of_nat take_bit_nat_eq_self del: of_nat_mult)
  with assms show ?thesis
    by (auto simp: word_less_nat_alt geometry_def chip_4KB_def chip_2KB_def block_bytes_def n_blocks_def split: if_splits)
qed

lemma block_offset_Suc: "geometry G \<Longrightarrow> block_offset G b + block_size (nand_chip G) = block_offset G (Suc b)"
  by (simp add: geometry_chip block_offset_def add.commute)

subsection \<open>Where a page is\<close>

text \<open>
  The controller is given the index \<open>2 * offset\<close> for the data of the page at \<open>offset\<close>; the spare area
  follows the data. The code looks at the spare area of page 1.
\<close>

definition data_of :: "u32 \<Rightarrow> u32" where
  "data_of offset = push_bit 1 offset"

definition spare_of :: "nand_globals \<Rightarrow> u32 \<Rightarrow> u32" where
  "spare_of G offset = data_of (offset + of_nat (ps G)) + of_nat (ps G)"

definition aligned :: "nand_globals \<Rightarrow> u32 \<Rightarrow> bool" where
  "aligned G offset \<longleftrightarrow> (\<exists>k. offset = of_nat (k * ps G))"

lemma aligned_add: "aligned G a \<Longrightarrow> aligned G b \<Longrightarrow> aligned G (a + b)"
  by (metis aligned_def add_mult_distrib of_nat_add)

lemma aligned_page: "aligned G (of_nat (k * ps G))"
  by (auto simp: aligned_def)

lemma aligned_block: "aligned G (block_offset G b)"
proof -
  have "block_bytes G = (block_bytes G div ps G) * ps G"
    by (simp add: block_bytes_def ps_def)
  then show ?thesis
    unfolding block_offset_def by (metis aligned_page mult.assoc)
qed

lemma shifts:
  assumes "geometry G" "aligned G w"
  shows "push_bit (unat (page_size_shift (nand_chip G))) (drop_bit (unat (page_size_shift (nand_chip G)) - 1) w) = data_of w"
    "push_bit (unat (page_size_shift (nand_chip G))) (signed_drop_bit (unat (page_size_shift (nand_chip G)) - 1) w) = data_of w"
proof -
  let ?k = "unat (page_size_shift (nand_chip G)) - 1"
  have "ps G = 2 ^ ?k"
    using assms(1) by (simp add: geometry_def ps_def chip_4KB_def chip_2KB_def)
  then obtain k where "w = push_bit ?k (of_nat k)"
    using assms(2) by (auto simp: aligned_def push_bit_eq_mult)
  then have "take_bit ?k w = 0"
    by (simp add: take_bit_push_bit)
  from push_drop_aligned [OF this] geometry_chip(6) [OF assms(1)] show
    "push_bit (unat (page_size_shift (nand_chip G))) (drop_bit ?k w) = data_of w"
    "push_bit (unat (page_size_shift (nand_chip G))) (signed_drop_bit ?k w) = data_of w"
    unfolding data_of_def by metis+
qed

subsection \<open>Functions of RAM alone\<close>

text \<open>\<open>ramst m\<close> is a state with RAM \<open>m\<close>, for the functions that only load.\<close>

definition ramst :: "(u32 \<Rightarrow> u8) \<Rightarrow> unit sys" where
  "ramst m = \<lparr>gChipType = 0, gSysClock = 0, dev = (), mem = m\<rparr>"

lemma ramst_simps [simp]:
  "ram_load8 a (ramst (mem s)) = ram_load8 a s" "ram_load16 a (ramst (mem s)) = ram_load16 a s"
  "ram_load32 a (ramst (mem s)) = ram_load32 a s" "ram_load64 a (ramst (mem s)) = ram_load64 a s"
  "ram_bytes a n (ramst (mem s)) = ram_bytes a n s"
  "vid_hdr_at a (ramst (mem s)) = vid_hdr_at a s" "vtbl_record_at a (ramst (mem s)) = vtbl_record_at a s"
  by (simp_all add: vid_hdr_at_def vtbl_record_at_def ram_load16_def ram_load32_def ram_load64_def ram_bytes_def
      ram_load8_def ramst_def)

lemma volname_ramst [simp]: "volname_compare p n vol (ramst (mem s)) = volname_compare p n vol s"
proof -
  have "volname_loop p cmp count k (ramst (mem s)) = volname_loop p cmp count k s" for cmp count k
    by (induction k arbitrary: count) (auto split: option.splits)
  then show ?thesis by (simp add: volname_compare_def)
qed

lemma layout_records_ramst [simp]: "layout_records T vol rec v errs (ramst (mem s)) = layout_records T vol rec v errs s"
proof (induction T vol rec v errs s rule: layout_records.induct)
  case (1 T vol rec v errs s)
  then show ?case
    by (subst (1 2) layout_records.simps) (simp add: Let_def split: option.split)
qed

text \<open>The unsigned \<open>errs\<close> passes every test of its sign.\<close>

lemma layout_records_errs: "layout_records T vol rec v errs s = layout_records T vol rec v 0 s"
proof (induction T vol rec v errs s rule: layout_records.induct)
  case (1 T vol rec v errs s)
  then show ?case
    by (subst (1 2) layout_records.simps) (simp add: Let_def split: option.split)
qed

lemma erased_sections_cong:
  assumes "\<And>i. i < n \<Longrightarrow> ecc45_at (k + i) s = ecc45_at (k + i) t"
  shows "erased_sections k n z s = erased_sections k n z t"
  using assms
proof (induction n arbitrary: k z)
  case (Suc n)
  have "ecc45_at k s = ecc45_at k t" using Suc.prems [of 0] by simp
  moreover have "erased_sections (Suc k) n z s = erased_sections (Suc k) n z t" for z
    by (rule Suc.IH) (use Suc.prems [of "Suc _"] in simp)
  ultimately show ?case by (simp add: Let_def)
qed simp

lemma check_pattern_iff:
  "check_pattern buf patt n s \<noteq> 0 \<longleftrightarrow> list_all (\<lambda>i. ram_load8 (buf + of_nat i) s = patt) [0..<nat (sint n)]"
proof -
  have "check_pattern_loop buf patt i k s \<noteq> 0 \<longleftrightarrow> list_all (\<lambda>i. ram_load8 (buf + of_nat i) s = patt) [i..<i + k]" for i k
  proof (induction k arbitrary: i)
    case (Suc k)
    have "[i..<i + Suc k] = i # [Suc i..<Suc i + k]"
      by (simp add: upt_rec del: upt_Suc)
    with Suc show ?case by (simp del: upt_Suc)
  qed simp
  from this [of 0] show ?thesis by (simp add: check_pattern_def)
qed

subsection \<open>The page buffer\<close>

text \<open>RAM with the buffer cleared, and RAM with a page in the buffer.\<close>

definition blanked :: "nand_globals \<Rightarrow> (u32 \<Rightarrow> u8) \<Rightarrow> u32 \<Rightarrow> u8" where
  "blanked G m = overlay DDR_BUFFER_ADDR 0 (ps G) (\<lambda>_. 0) m"

definition page_mem :: "nand_globals \<Rightarrow> (u32 \<Rightarrow> u8) \<Rightarrow> u32 \<Rightarrow> (u32 \<Rightarrow> u8) \<Rightarrow> u32 \<Rightarrow> u8" where
  "page_mem G flash src m = overlay DDR_BUFFER_ADDR src (ps G) flash m"

definition outside :: "nand_globals \<Rightarrow> (u32 \<Rightarrow> u8) \<Rightarrow> 'd sys \<Rightarrow> bool" where
  "outside G m s \<longleftrightarrow> blanked G (mem s) = blanked G m"

lemma ps_bounds: "ps G \<le> 2 ^ 29" "ps G \<le> 0x1000" "224 \<le> ps G" "0 < ps G"
  by (simp_all add: ps_def)

lemma outside_filled:
  assumes "filled flash DDR_BUFFER_ADDR src n s t" "n \<le> ps G" "outside G m s"
  shows "outside G m t"
  using assms overlay_again [OF assms(2) ps_bounds(1)] by (simp add: outside_def blanked_def filled_def)

lemma outside_page:
  assumes "filled flash DDR_BUFFER_ADDR src (ps G) s t" "outside G m s"
  shows "mem t = page_mem G flash src m"
proof -
  have "page_mem G flash src (mem s) = page_mem G flash src (blanked G (mem s))"
    "page_mem G flash src m = page_mem G flash src (blanked G m)"
    using overlay_again [OF le_refl ps_bounds(1)] by (simp_all add: page_mem_def blanked_def)
  with assms show ?thesis by (simp add: filled_def outside_def page_mem_def)
qed

lemma outside_frame: "frame s t \<Longrightarrow> outside G m s \<Longrightarrow> outside G m t"
  by (simp add: outside_def frame_def)

lemma outside_self [simp]: "outside G (mem s) s"
  by (simp add: outside_def)

lemma outside_load:
  assumes "outside G m s" "\<And>i. i < ps G \<Longrightarrow> phys a \<noteq> phys (DDR_BUFFER_ADDR + of_nat i)"
  shows "mem s (phys a) = m (phys a)"
  using assms(1) overlay_off [OF assms(2)] unfolding outside_def blanked_def by metis

lemma page_load: "i < ps G \<Longrightarrow> ram_load8 (DDR_BUFFER_ADDR + of_nat i) (ramst (page_mem G flash src m)) = flash (src + of_nat i)"
  using overlay_at [OF _ ps_bounds(1)] by (simp add: ram_load8_def ramst_def page_mem_def)

lemma ecc45_outside:
  assumes "outside G m s" "section < 8"
  shows "ecc45_at section s = ecc45_at section (ramst m)"
proof -
  have eq: "mem s (phys (DDR_BUFFER2_ADDR + of_nat j)) = m (phys (DDR_BUFFER2_ADDR + of_nat j))" if "j < 0x1000" for j
  proof (rule outside_load [OF assms(1)])
    fix i assume "i < ps G"
    then have "i < 0x1000" using ps_bounds(2) [of G] by simp
    then have "0x100000 + j < 2 ^ 29" "0x400000 + i < 2 ^ 29" "0x100000 + j \<noteq> 0x400000 + i" using that by auto
    then have "unat (phys (0x80000000 + of_nat (0x100000 + j))) \<noteq> unat (phys (0x80000000 + of_nat (0x400000 + i)))"
      by (simp only: phys_windows not_False_eq_True)
    then have "unat (phys (DDR_BUFFER2_ADDR + of_nat j)) \<noteq> unat (phys (DDR_BUFFER_ADDR + of_nat i))"
      by (simp add: reg_defs add.assoc [symmetric])
    then show "phys (DDR_BUFFER2_ADDR + of_nat j) \<noteq> phys (DDR_BUFFER_ADDR + of_nat i)" by metis
  qed
  have ad: "DDR_BUFFER2_ADDR + 32 + 8 * of_nat section + NAND_ECC_BYTE4 = DDR_BUFFER2_ADDR + of_nat (36 + 8 * section)"
    "DDR_BUFFER2_ADDR + 32 + 8 * of_nat section + NAND_ECC_BYTE5 = DDR_BUFFER2_ADDR + of_nat (37 + 8 * section)"
    by (simp_all add: reg_defs)
  show ?thesis
    using eq [of "36 + 8 * section"] eq [of "37 + 8 * section"] assms(2)
    unfolding ecc45_at_def Let_def ad ram_load8_def ramst_def by simp
qed

subsection \<open>The checks of a block\<close>

definition bad :: "nand_globals \<Rightarrow> (u32 \<Rightarrow> u8) \<Rightarrow> u32 \<Rightarrow> bool" where
  "bad G flash offset \<longleftrightarrow> flash (spare_of G offset) \<noteq> 0xFF"

definition erased :: "nand_globals \<Rightarrow> (u32 \<Rightarrow> u8) \<Rightarrow> (u32 \<Rightarrow> u8) \<Rightarrow> u32 \<Rightarrow> bool" where
  "erased G flash m offset \<longleftrightarrow>
     list_all (\<lambda>i. flash (spare_of G offset + of_nat i) = 0xFF) [0..<nat (sint (oob_size (nand_chip G)))] \<or>
     erased_sections 0 (unat (num_sections (nand_chip G))) 0 (ramst m)"

definition page_of :: "nand_globals \<Rightarrow> u32 \<Rightarrow> nat \<Rightarrow> u32" where
  "page_of G offset k = data_of (offset + of_nat (k * ps G))"

text \<open>Page \<open>k\<close> of the block counts as empty.\<close>

definition blank :: "nand_globals \<Rightarrow> (u32 \<Rightarrow> u8) \<Rightarrow> (u32 \<Rightarrow> u8) \<Rightarrow> u32 \<Rightarrow> nat \<Rightarrow> bool" where
  "blank G flash m offset k \<longleftrightarrow>
     (if is_4KB G then list_all (\<lambda>i. flash (page_of G offset k + of_nat i) = 0xFF) [0..<ps G]
      else erased G flash m offset)"

lemma words_ps: "geometry G \<Longrightarrow> words (scast (page_size (nand_chip G))) = ps G"
  by (simp add: geometry_chip words_def ps_def)

lemma words_oob:
  "geometry G \<Longrightarrow> words (scast (oob_size (nand_chip G))) \<le> ps G"
  "geometry G \<Longrightarrow> words (scast (oob_size (nand_chip G))) = nat (sint (oob_size (nand_chip G)))"
  "geometry G \<Longrightarrow> unat (scast (oob_size (nand_chip G)) :: u32) \<le> 0x1000"
  by (simp_all add: geometry_def words_def ps_def chip_4KB_def chip_2KB_def)

lemma sections_geometry: "geometry G \<Longrightarrow> unat (num_sections (nand_chip G)) \<le> 8"
  by (simp add: geometry_def chip_4KB_def chip_2KB_def)

context nand_part
begin

lemma checkBadBlockE:
  assumes g: "geometry G" "aligned G offset" and s: "loaded x (dev s)" "outside G m s"
  obtains b t y where "checkBadBlock E M (nand_chip G) offset s = Some (b, t)" "b \<noteq> 0 \<longleftrightarrow> bad G flash offset"
    "outside G m t" "loaded y (dev t)"
proof -
  have sp: "push_bit (unat (page_size_shift (nand_chip G)))
      (drop_bit (unat (page_size_shift (nand_chip G)) - 1) (offset + scast (page_size (nand_chip G)))) +
      scast (page_size (nand_chip G)) = spare_of G offset"
    using shifts(1) [OF g(1) aligned_add [OF g(2) aligned_page [where k = 1]]]
    by (simp add: geometry_chip(1) [OF g(1)] spare_of_def)
  obtain t where t: "read_nand_page E M DDR_BUFFER_ADDR (spare_of G offset) 1 s = Some t"
    "filled flash DDR_BUFFER_ADDR (spare_of G offset) (words 1) s t" "loaded (spare_of G offset) (dev t)"
    using readE [OF s(1)] by (metis (no_types) One_nat_def Suc_1 less_imp_le_nat numeral_One one_le_numeral unat_1)
  have o4: "outside G m t"
    by (rule outside_filled [OF t(2) _ s(2)]) (simp add: words_def ps_def)
  have "ram_load8 DDR_BUFFER_ADDR t = flash (spare_of G offset)"
    using t(2) overlay_at [of 0 "words 1" DDR_BUFFER_ADDR "spare_of G offset" flash "mem s"]
    by (simp add: filled_def ram_load8_def words_def)
  show ?thesis
  proof (cases "bad G flash offset")
    case False
    with t o4 that \<open>ram_load8 DDR_BUFFER_ADDR t = _\<close> show ?thesis
      unfolding checkBadBlock_def Let_def sp bad_def by simp
  next
    case True
    obtain t1 where 1: "c_put_char M (of_char (CHR ''B'')) t = Some t1" "frame t t1" "loaded (spare_of G offset) (dev t1)"
      using putE [OF t(3)] .
    obtain t2 where 2: "c_put_char M (of_char (CHR '':'')) t1 = Some t2" "frame t1 t2" "loaded (spare_of G offset) (dev t2)"
      using putE [OF 1(3)] .
    obtain t3 where 3: "printHex_u32 E offset t2 = Some t3" "frame t2 t3" "loaded (spare_of G offset) (dev t3)"
      using print_hex [OF 2(3)] by blast
    obtain t4 where 4: "c_put_char M 0x0D t3 = Some t4" "frame t3 t4" "loaded (spare_of G offset) (dev t4)"
      using putE [OF 3(3)] .
    obtain t5 where 5: "c_put_char M 0x0A t4 = Some t5" "frame t4 t5" "loaded (spare_of G offset) (dev t5)"
      using putE [OF 4(3)] .
    have "frame t t5" using 1 2 3 4 5 frame_trans by blast
    then have "outside G m t5" using o4 outside_frame by blast
    moreover have "checkBadBlock E M (nand_chip G) offset s = Some (1, t5)"
      using t(1) 1(1) 2(1) 3(1) 4(1) 5(1) True \<open>ram_load8 DDR_BUFFER_ADDR t = _\<close>
      unfolding checkBadBlock_def Let_def sp bad_def by simp
    ultimately show ?thesis using 5(3) True that by simp
  qed
qed

lemma checkErasedPageE:
  assumes g: "geometry G" "aligned G offset" and s: "loaded x (dev s)" "outside G m s"
  obtains e t where "checkErasedPage E M (nand_chip G) offset s = Some (e, t)" "e \<noteq> 0 \<longleftrightarrow> erased G flash m offset"
    "outside G m t" "loaded (spare_of G offset) (dev t)"
proof -
  have sp: "push_bit (unat (page_size_shift (nand_chip G)))
      (drop_bit (unat (page_size_shift (nand_chip G)) - 1) (offset + scast (page_size (nand_chip G)))) +
      scast (page_size (nand_chip G)) = spare_of G offset"
    using shifts(1) [OF g(1) aligned_add [OF g(2) aligned_page [where k = 1]]]
    by (simp add: geometry_chip(1) [OF g(1)] spare_of_def)
  let ?n = "nat (sint (oob_size (nand_chip G)))"
  obtain t where t: "read_nand_page E M DDR_BUFFER_ADDR (spare_of G offset) (scast (oob_size (nand_chip G))) s = Some t"
    "filled flash DDR_BUFFER_ADDR (spare_of G offset) ?n s t" "loaded (spare_of G offset) (dev t)"
    using readE [OF s(1) words_oob(3) [OF g(1)]] words_oob(2) [OF g(1)] by metis
  have n: "?n \<le> ps G" using words_oob [OF g(1)] by simp
  have ot: "outside G m t"
    by (rule outside_filled [OF t(2) n s(2)])
  have "ram_load8 (DDR_BUFFER_ADDR + of_nat i) t = flash (spare_of G offset + of_nat i)" if "i < ?n" for i
    using t(2) overlay_at [OF that] n ps_bounds(1) [of G] by (simp add: filled_def ram_load8_def)
  then have pat: "check_pattern DDR_BUFFER_ADDR 0xFF (oob_size (nand_chip G)) t \<noteq> 0 \<longleftrightarrow>
      list_all (\<lambda>i. flash (spare_of G offset + of_nat i) = 0xFF) [0..<?n]"
    unfolding check_pattern_iff by (simp add: list_all_iff)
  have sec: "erased_sections 0 (unat (num_sections (nand_chip G))) 0 t =
      erased_sections 0 (unat (num_sections (nand_chip G))) 0 (ramst m)"
    by (rule erased_sections_cong) (use ecc45_outside [OF ot] sections_geometry [OF g(1)] in auto)
  have "checkErasedPage E M (nand_chip G) offset s = Some (if erased G flash m offset then 1 else 0, t)"
    using t(1) pat sec unfolding checkErasedPage_def Let_def sp erased_def by simp
  then show ?thesis using ot t(3) that by simp
qed

text \<open>
  A page that is not empty is in the buffer afterwards, and the rest of RAM is as it was.
\<close>

lemma layout_pageE:
  assumes g: "geometry G" "aligned G offset" and s: "loaded x (dev s)" "outside G m s"
  obtains e t y where "layout_page E M G offset (of_nat k) s = Some (e, t)" "e \<noteq> 0 \<longleftrightarrow> blank G flash m offset k"
    "outside G m t" "loaded y (dev t)"
    "e = 0 \<longrightarrow> y = page_of G offset k \<and> mem t = page_mem G flash (page_of G offset k) m"
proof -
  have src: "push_bit (unat (page_size_shift (nand_chip G))) (signed_drop_bit (unat (page_size_shift (nand_chip G)) - 1)
      (offset + scast (page_size (nand_chip G)) * of_nat k)) = page_of G offset k"
    using shifts(2) [OF g(1) aligned_add [OF g(2) aligned_page [where k = k]]]
    by (simp add: geometry_chip(1) [OF g(1)] page_of_def mult.commute)
  have len: "unat (scast (page_size (nand_chip G)) :: u32) \<le> 0x1000"
    using g(1) by (simp add: geometry_chip ps_def)
  have rd: "\<exists>u. read_nand_page E M DDR_BUFFER_ADDR (page_of G offset k) (scast (page_size (nand_chip G))) t = Some u \<and>
      outside G m u \<and> mem u = page_mem G flash (page_of G offset k) m \<and> loaded (page_of G offset k) (dev u)"
    if t: "loaded z (dev t)" "outside G m t" for z t
  proof -
    obtain u where u: "read_nand_page E M DDR_BUFFER_ADDR (page_of G offset k) (scast (page_size (nand_chip G))) t = Some u"
      "filled flash DDR_BUFFER_ADDR (page_of G offset k) (ps G) t u" "loaded (page_of G offset k) (dev u)"
      using readE [OF t(1) len] words_ps [OF g(1)] by metis
    then show ?thesis using outside_filled [OF u(2) le_refl t(2)] outside_page [OF u(2) t(2)] by blast
  qed
  show ?thesis
  proof (cases "is_4KB G")
    case True
    obtain u where u: "read_nand_page E M DDR_BUFFER_ADDR (page_of G offset k) (scast (page_size (nand_chip G))) s = Some u"
      "outside G m u" "mem u = page_mem G flash (page_of G offset k) m" "loaded (page_of G offset k) (dev u)"
      using rd [OF s] by blast
    have "ram_load8 (DDR_BUFFER_ADDR + of_nat i) u = flash (page_of G offset k + of_nat i)" if "i < ps G" for i
      using page_load [OF that, of flash "page_of G offset k" m] u(3) by (metis ramst_simps(1))
    then have "check_pattern DDR_BUFFER_ADDR 0xFF (page_size (nand_chip G)) u \<noteq> 0 \<longleftrightarrow> blank G flash m offset k"
      unfolding check_pattern_iff blank_def geometry_chip(2) [OF g(1)] using True by (simp add: list_all_iff)
    with u True that show ?thesis
      unfolding layout_page_def Let_def src by simp
  next
    case False
    obtain e t where t: "checkErasedPage E M (nand_chip G) offset s = Some (e, t)" "e \<noteq> 0 \<longleftrightarrow> erased G flash m offset"
      "outside G m t" "loaded (spare_of G offset) (dev t)"
      using checkErasedPageE [OF g s] .
    show ?thesis
    proof (cases "e = 0")
      case True
      obtain u where "read_nand_page E M DDR_BUFFER_ADDR (page_of G offset k) (scast (page_size (nand_chip G))) t = Some u"
        "outside G m u" "mem u = page_mem G flash (page_of G offset k) m" "loaded (page_of G offset k) (dev u)"
        using rd [OF t(4,3)] by blast
      with t True False that show ?thesis
        unfolding layout_page_def Let_def src by (simp add: blank_def)
    next
      case e: False
      with t False that show ?thesis
        unfolding layout_page_def Let_def src by (simp add: blank_def)
    qed
  qed
qed

lemma vid_page_layout:
  assumes g: "geometry G" "aligned G offset"
  shows "vid_page E M G offset s = layout_page E M G offset 1 s"
proof -
  have "aligned G (offset + scast (page_size (nand_chip G)))"
    using aligned_add [OF g(2) aligned_page [where k = 1]] by (simp add: geometry_chip(1) [OF g(1)])
  from shifts [OF g(1) this] show ?thesis
    unfolding vid_page_def layout_page_def Let_def mult_1_right by (simp only:)
qed

end

subsection \<open>scanlayoutv\<close>

text \<open>
  The first word of page 1 that counts, and the value the scan returns: \<open>vol_id\<close> goes on from block to
  block. None is the read past the end of a name literal.
\<close>

definition page_word :: "nand_globals \<Rightarrow> (u32 \<Rightarrow> u8) \<Rightarrow> u32 \<Rightarrow> u32 \<Rightarrow> u32" where
  "page_word G flash offset i = flash_word flash (page_of G offset 1 + i)"

definition layout_candidate :: "nand_globals \<Rightarrow> (u32 \<Rightarrow> u8) \<Rightarrow> (u32 \<Rightarrow> u8) \<Rightarrow> u32 \<Rightarrow> bool" where
  "layout_candidate G flash m offset \<longleftrightarrow>
     \<not> bad G flash offset \<and> \<not> blank G flash m offset 1 \<and>
     page_word G flash offset VOLUMEID_OFFSET = LAYOUT_VOLUMEID \<and> \<not> blank G flash m offset 2"

definition layout_table ::
  "nand_globals \<Rightarrow> (u32 \<Rightarrow> u8) \<Rightarrow> (u32 \<Rightarrow> u8) \<Rightarrow> nat \<Rightarrow> u32 \<Rightarrow> int \<Rightarrow> (int \<times> u32 option) option" where
  "layout_table G flash m vol offset v =
     layout_records (crcTable G) vol DDR_BUFFER_ADDR v 0 (ramst (page_mem G flash (page_of G offset 2) m))"

fun layout_spec ::
  "nand_globals \<Rightarrow> (u32 \<Rightarrow> u8) \<Rightarrow> (u32 \<Rightarrow> u8) \<Rightarrow> nat \<Rightarrow> u32 list \<Rightarrow> int \<Rightarrow> (int \<times> u32 option) option" where
  "layout_spec G flash m vol [] v = Some (-1, None)"
| "layout_spec G flash m vol (offset # os) v =
     (if layout_candidate G flash m offset
      then (case layout_table G flash m vol offset v of
              None \<Rightarrow> None
            | Some (v, None) \<Rightarrow> layout_spec G flash m vol os v
            | Some (v, Some n) \<Rightarrow> Some (v, Some n))
      else layout_spec G flash m vol os v)"

text \<open>The number of reserved blocks is stored when the record is found.\<close>

definition reserve :: "u32 option \<Rightarrow> nand_globals \<Rightarrow> nand_globals" where
  "reserve r G = (case r of None \<Rightarrow> G | Some n \<Rightarrow> G\<lparr>ubootReservedBlocks := n\<rparr>)"

lemma page_load8:
  assumes "mem s = page_mem G flash src m" "i < ps G"
  shows "ram_load8 (DDR_BUFFER_ADDR + of_nat i) s = flash (src + of_nat i)"
  using page_load [OF assms(2), of flash src m] ramst_simps(1) [of _ s] by (simp add: assms(1))

lemma page_word_load:
  assumes "mem s = page_mem G flash (page_of G offset 1) m" "i + 3 < ps G"
  shows "ram_load32 (DDR_BUFFER_ADDR + of_nat i) s = page_word G flash offset (of_nat i)"
proof -
  have "ram_load8 (DDR_BUFFER_ADDR + of_nat (i + k)) s = flash (page_of G offset 1 + of_nat (i + k))" if "k < 4" for k
    using page_load8 [OF assms(1), of "i + k"] assms(2) that by simp
  from this [of 0] this [of 1] this [of 2] this [of 3] show ?thesis
    by (simp add: ram_load32_def page_word_def flash_word_def ac_simps)
qed

context nand_part
begin

lemma layout_sectionsE:
  assumes s: "loaded x (dev s)"
  obtains e t where "layout_sections E M c j k errs s = Some (e, t)" "frame s t" "loaded x (dev t)"
proof -
  have "\<exists>e t. layout_sections E M c j k errs s = Some (e, t) \<and> frame s t \<and> loaded x (dev t)"
    using s
  proof (induction k arbitrary: j errs s)
    case (Suc k)
    obtain t where t: "nand_check_page_ecc E (of_nat j) (page_size c) DDR_BUFFER_ADDR s = Some (eccr x (of_nat j), t)"
      "frame s t" "loaded x (dev t)"
      using checkE [OF Suc.prems] .
    obtain e u where "layout_sections E M c (Suc j) k (scast (eccr x (of_nat j))) t = Some (e, u)" "frame t u" "loaded x (dev u)"
      using Suc.IH [OF t(3)] by blast
    with t show ?case by (auto intro: frame_trans)
  qed auto
  with that show ?thesis by blast
qed

lemma layout_blockE:
  assumes g: "geometry G" "aligned G offset" and s: "loaded x (dev s)" "outside G m s"
  shows "case (if layout_candidate G flash m offset then layout_table G flash m vol offset v else Some (v, None)) of
      None \<Rightarrow> layout_block E M vol offset v G s = None
    | Some (v', r) \<Rightarrow> \<exists>t y. layout_block E M vol offset v G s =
        Some (if r = None then None else Some v', v', reserve r G, t) \<and> outside G m t \<and> loaded y (dev t)"
proof -
  let ?c = "nand_chip G"
  obtain b t y where b: "checkBadBlock E M ?c offset s = Some (b, t)" "b \<noteq> 0 \<longleftrightarrow> bad G flash offset"
    "outside G m t" "loaded y (dev t)"
    using checkBadBlockE [OF g s] .
  obtain e u z where e: "layout_page E M G offset (of_nat 1) t = Some (e, u)" "e \<noteq> 0 \<longleftrightarrow> blank G flash m offset 1"
    "outside G m u" "loaded z (dev u)"
    "e = 0 \<longrightarrow> z = page_of G offset 1 \<and> mem u = page_mem G flash (page_of G offset 1) m"
    using layout_pageE [OF g b(4,3), where k = 1] .
  obtain w where w: "nand_check_page_ecc E 0 (page_size ?c) DDR_BUFFER_ADDR u = Some (eccr z 0, w)" "frame u w" "loaded z (dev w)"
    using checkE [OF e(4)] .
  have ow: "outside G m w" using outside_frame [OF w(2) e(3)] .
  have word: "ram_load32 (DDR_BUFFER_ADDR + VOLUMEID_OFFSET) w = page_word G flash offset VOLUMEID_OFFSET" if "e = 0"
    using page_word_load [of w G flash offset m 8] mp [OF e(5) that] w(2) ps_bounds(3) [of G]
    by (simp add: frame_def reg_defs)
  obtain e2 u2 z2 where e2: "layout_page E M G offset (of_nat 2) w = Some (e2, u2)" "e2 \<noteq> 0 \<longleftrightarrow> blank G flash m offset 2"
    "outside G m u2" "loaded z2 (dev u2)"
    "e2 = 0 \<longrightarrow> z2 = page_of G offset 2 \<and> mem u2 = page_mem G flash (page_of G offset 2) m"
    using layout_pageE [OF g w(3) ow, where k = 2] .
  obtain e3 w3 where e3: "layout_sections E M ?c 0 (unat (num_sections ?c)) e2 u2 = Some (e3, w3)" "frame u2 w3" "loaded z2 (dev w3)"
    using layout_sectionsE [OF e2(4)] .
  have o3: "outside G m w3" using outside_frame [OF e3(2) e2(3)] .
  have tab: "layout_records (crcTable G) vol DDR_BUFFER_ADDR v e3 w3 = layout_table G flash m vol offset v" if "e2 = 0"
    using mp [OF e2(5) that] e3(2) layout_records_errs layout_records_ramst [of "crcTable G" vol DDR_BUFFER_ADDR v 0 w3]
    by (simp add: layout_table_def frame_def)
  note run = layout_block_def Let_def
  consider "b \<noteq> 0" | "b = 0" "e \<noteq> 0" | "b = 0" "e = 0" "page_word G flash offset VOLUMEID_OFFSET \<noteq> LAYOUT_VOLUMEID"
    | "b = 0" "e = 0" "page_word G flash offset VOLUMEID_OFFSET = LAYOUT_VOLUMEID" "e2 \<noteq> 0"
    | "b = 0" "e = 0" "page_word G flash offset VOLUMEID_OFFSET = LAYOUT_VOLUMEID" "e2 = 0"
    by blast
  then show ?thesis
  proof cases
    case 1
    with b show ?thesis unfolding run by (auto simp: layout_candidate_def reserve_def)
  next
    case 2
    with b e show ?thesis unfolding run by (auto simp: layout_candidate_def reserve_def)
  next
    case 3
    with b(1,2) e(1,2) w ow word show ?thesis unfolding run by (auto simp: layout_candidate_def reserve_def)
  next
    case 4
    with b(1,2) e(1,2) w word e2 show ?thesis unfolding run by (auto simp: layout_candidate_def reserve_def)
  next
    case 5
    with b(1,2) e(1,2) e2(2) have "layout_candidate G flash m offset" by (simp add: layout_candidate_def)
    with 5 b(1,2) e(1,2) w word e2 e3 o3 tab show ?thesis
      unfolding run by (auto simp: reserve_def split: option.split)
  qed
qed

lemma layout_loop_spec:
  assumes g: "geometry G" and "b \<le> n_blocks G" "loaded x (dev s)" "outside G m s"
  shows "case layout_spec G flash m vol (map (block_offset G) [b..<n_blocks G]) v of
      None \<Rightarrow> layout_loop E M vol (block_offset G b) v G s = None
    | Some (v', r) \<Rightarrow> \<exists>t y. layout_loop E M vol (block_offset G b) v G s = Some (v', reserve r G, t) \<and>
        outside G m t \<and> loaded y (dev t)"
  using assms(2-)
proof (induction "n_blocks G - b" arbitrary: b x s v)
  case 0
  then have "\<not> block_offset G b < max_offset (nand_chip G)"
    using block_less_max [OF g, of b] by simp
  with 0 show ?case
    by (subst layout_loop.simps) (auto simp: reserve_def)
next
  case (Suc n)
  then have less: "b < n_blocks G" by simp
  then have l: "block_offset G b < max_offset (nand_chip G)"
    using block_less_max [OF g, of b] by simp
  have os: "map (block_offset G) [b..<n_blocks G] = block_offset G b # map (block_offset G) [Suc b..<n_blocks G]"
    using less by (simp add: upt_conv_Cons)
  let ?spec = "if layout_candidate G flash m (block_offset G b) then layout_table G flash m vol (block_offset G b) v else Some (v, None)"
  note turn = layout_blockE [OF g aligned_block [of G b] Suc.prems(2,3), of vol v]
  have IH: "loaded y (dev t) \<Longrightarrow> outside G m t \<Longrightarrow>
      case layout_spec G flash m vol (map (block_offset G) [Suc b..<n_blocks G]) v' of
        None \<Rightarrow> layout_loop E M vol (block_offset G (Suc b)) v' G t = None
      | Some (v'', r) \<Rightarrow> \<exists>u z. layout_loop E M vol (block_offset G (Suc b)) v' G t = Some (v'', reserve r G, u) \<and>
          outside G m u \<and> loaded z (dev u)" for y t v'
    by (rule Suc.hyps(1)) (use Suc.hyps(2) less in simp_all)
  show ?case
  proof (cases ?spec)
    case None
    then have c: "layout_candidate G flash m (block_offset G b)" by (auto split: if_splits)
    with None turn show ?thesis
      unfolding os by (subst layout_loop.simps) (simp add: l)
  next
    case (Some p)
    obtain v' r where p: "p = (v', r)" by (metis prod.exhaust)
    obtain t y where t: "layout_block E M vol (block_offset G b) v G s =
        Some (if r = None then None else Some v', v', reserve r G, t)" "outside G m t" "loaded y (dev t)"
      using turn unfolding Some p by auto
    have spec: "layout_spec G flash m vol (map (block_offset G) [b..<n_blocks G]) v =
        (case r of None \<Rightarrow> layout_spec G flash m vol (map (block_offset G) [Suc b..<n_blocks G]) v' | Some n \<Rightarrow> Some (v', Some n))"
      unfolding os using Some p by (auto split: if_splits option.splits)
    show ?thesis
    proof (cases r)
      case None
      with t(1) l have run: "layout_loop E M vol (block_offset G b) v G s = layout_loop E M vol (block_offset G (Suc b)) v' G t"
        by (subst layout_loop.simps) (simp add: reserve_def block_offset_Suc [OF g])
      have "layout_spec G flash m vol (map (block_offset G) [b..<n_blocks G]) v =
          layout_spec G flash m vol (map (block_offset G) [Suc b..<n_blocks G]) v'"
        using None spec by simp
      then show ?thesis unfolding run using IH [OF t(3,2), of v'] by (simp only:)
    next
      case (Some n)
      with t l spec show ?thesis
        by (subst layout_loop.simps) auto
    qed
  qed
qed

lemma scanlayoutv_spec:
  assumes g: "geometry G" and "loaded x (dev s)" "outside G m s"
  shows "case layout_spec G flash m vol (map (block_offset G) [1..<n_blocks G]) 0 of
      None \<Rightarrow> scanlayoutv E M vol G s = None
    | Some (v, r) \<Rightarrow> \<exists>t y. scanlayoutv E M vol G s = Some (v, reserve r G, t) \<and>
        outside G m t \<and> loaded y (dev t)"
proof -
  have "1 \<le> n_blocks G" by (simp add: n_blocks_def)
  from layout_loop_spec [OF g this assms(2,3)] show ?thesis
    by (simp only: scanlayoutv_def geometry_chip(5) [OF g])
qed

end

subsection \<open>scanvid\<close>

definition flash_bytes :: "(u32 \<Rightarrow> u8) \<Rightarrow> u32 \<Rightarrow> nat \<Rightarrow> u8 list" where
  "flash_bytes flash x n = map (\<lambda>i. flash (x + of_nat i)) [0..<n]"

text \<open>
  A block that is read and holds a header of volume \<open>v\<close>; a header with the right checksum, whose last
  section is free of errors.
\<close>

definition vid_candidate ::
  "nand_globals \<Rightarrow> (u32 \<Rightarrow> u8) \<Rightarrow> (u32 \<Rightarrow> u32 \<Rightarrow> u16) \<Rightarrow> (u32 \<Rightarrow> u8) \<Rightarrow> int \<Rightarrow> u32 \<Rightarrow> bool" where
  "vid_candidate G flash eccr m v offset \<longleftrightarrow>
     \<not> bad G flash offset \<and> \<not> blank G flash m offset 1 \<and> \<not> eccr (page_of G offset 1) 0 <s 0 \<and>
     page_word G flash offset 0 = UBI_VID_HDR_MAGIC \<and> page_word G flash offset 8 = of_int v"

definition vid_good :: "nand_globals \<Rightarrow> (u32 \<Rightarrow> u8) \<Rightarrow> (u32 \<Rightarrow> u32 \<Rightarrow> u16) \<Rightarrow> u32 \<Rightarrow> bool" where
  "vid_good G flash eccr offset \<longleftrightarrow>
     crcFast CRC32 (crcTable G) (flash_bytes flash (page_of G offset 1) 60) 60 = page_word G flash offset 60 \<and>
     0 \<le>s eccr (page_of G offset 1) (num_sections (nand_chip G) - 1)"

text \<open>The value returned and the map table, with \<open>n\<close> blocks found so far.\<close>

fun vid_spec ::
  "nand_globals \<Rightarrow> (u32 \<Rightarrow> u8) \<Rightarrow> (u32 \<Rightarrow> u32 \<Rightarrow> u16) \<Rightarrow> (u32 \<Rightarrow> u8) \<Rightarrow> int \<Rightarrow> u32 list \<Rightarrow> u32 \<Rightarrow> u32 list \<Rightarrow>
     (int \<times> u32 list) option" where
  "vid_spec G flash eccr m v [] n mt = Some (if n < ubootReservedBlocks G then -1 else 0, mt)"
| "vid_spec G flash eccr m v (offset # os) n mt =
     (if vid_candidate G flash eccr m v offset
      then if vid_good G flash eccr offset
           then (case arr_set mt (unat (page_word G flash offset 12)) (offset + of_nat (2 * ps G)) of
                   None \<Rightarrow> None
                 | Some mt \<Rightarrow>
                     if ubootReservedBlocks G \<le> n + 1 then Some (0, mt)
                     else vid_spec G flash eccr m v os (n + 1) mt)
           else Some (-1, mt)
      else vid_spec G flash eccr m v os n mt)"

text \<open>The map table is not read by any of this.\<close>

lemma maptable_irrelevant [simp]:
  "is_4KB (G\<lparr>maptable := x\<rparr>) = is_4KB G" "ps (G\<lparr>maptable := x\<rparr>) = ps G" "n_blocks (G\<lparr>maptable := x\<rparr>) = n_blocks G"
  "geometry (G\<lparr>maptable := x\<rparr>) = geometry G" "block_offset (G\<lparr>maptable := x\<rparr>) = block_offset G"
  "aligned (G\<lparr>maptable := x\<rparr>) = aligned G" "outside (G\<lparr>maptable := x\<rparr>) m s = outside G m s"
  "bad (G\<lparr>maptable := x\<rparr>) = bad G" "blank (G\<lparr>maptable := x\<rparr>) = blank G" "page_of (G\<lparr>maptable := x\<rparr>) = page_of G"
  "page_word (G\<lparr>maptable := x\<rparr>) = page_word G" "vid_candidate (G\<lparr>maptable := x\<rparr>) = vid_candidate G"
  "vid_good (G\<lparr>maptable := x\<rparr>) = vid_good G"
  by (simp_all add: fun_eq_iff is_4KB_def ps_def n_blocks_def geometry_def block_offset_def block_bytes_def aligned_def
      outside_def blanked_def bad_def spare_of_def blank_def erased_def page_of_def page_word_def vid_candidate_def vid_good_def)

lemma vid_spec_maptable [simp]: "vid_spec (G\<lparr>maptable := x\<rparr>) flash eccr m v os n mt = vid_spec G flash eccr m v os n mt"
  by (induction os arbitrary: n mt) (auto split: option.splits)

context nand_part
begin

lemma vid_sectionsE:
  assumes s: "loaded x (dev s)"
  obtains t where "vid_sections E M c j k errs s = Some (if k = 0 then errs else eccr x (of_nat (j + k - 1)), t)"
    "frame s t" "loaded x (dev t)"
proof -
  have "\<exists>t. vid_sections E M c j k errs s = Some (if k = 0 then errs else eccr x (of_nat (j + k - 1)), t) \<and> frame s t \<and> loaded x (dev t)"
    using s
  proof (induction k arbitrary: j errs s)
    case (Suc k)
    obtain t where t: "nand_check_page_ecc E (of_nat j) (page_size c) DDR_BUFFER_ADDR s = Some (eccr x (of_nat j), t)"
      "frame s t" "loaded x (dev t)"
      using checkE [OF Suc.prems] .
    have nz: "0 \<notin> set (str ''ECC Error during VID Scan 2.'')"
      by (simp add: str_def)
    obtain u0 where "c_put_str M (str ''ECC Error during VID Scan 2.'') t = Some u0" "frame t u0" "loaded x (dev u0)"
      using put_strE [OF t(3) nz] .
    then obtain u where u: "(if eccr x (of_nat j) <s 0 then c_put_str M (str ''ECC Error during VID Scan 2.'') t else Some t) = Some u"
      "frame t u" "loaded x (dev u)"
      using t(3) by (cases "eccr x (of_nat j) <s 0") auto
    obtain w where "vid_sections E M c (Suc j) k (eccr x (of_nat j)) u =
        Some (if k = 0 then eccr x (of_nat j) else eccr x (of_nat (Suc j + k - 1)), w)" "frame u w" "loaded x (dev w)"
      using Suc.IH [OF u(3)] by blast
    with t u show ?case by (auto intro: frame_trans)
  qed auto
  with that show ?thesis by blast
qed

lemma vid_blockE:
  assumes g: "geometry G" "aligned G offset" and s: "loaded x (dev s)" "outside G m s"
  shows "case (if vid_candidate G flash eccr m v offset
      then if vid_good G flash eccr offset
           then (case arr_set (maptable G) (unat (page_word G flash offset 12)) (offset + of_nat (2 * ps G)) of
                   None \<Rightarrow> None
                 | Some mt \<Rightarrow> Some (if ubootReservedBlocks G \<le> n + 1 then Some 0 else None, n + 1, mt))
           else Some (Some (-1), n, maptable G)
      else Some (None, n, maptable G)) of
      None \<Rightarrow> vid_block E M v offset n G s = None
    | Some (r, n', mt) \<Rightarrow> \<exists>t y. vid_block E M v offset n G s = Some (r, n', G\<lparr>maptable := mt\<rparr>, t) \<and>
        outside G m t \<and> loaded y (dev t)"
proof -
  let ?c = "nand_chip G"
  obtain b t y where b: "checkBadBlock E M ?c offset s = Some (b, t)" "b \<noteq> 0 \<longleftrightarrow> bad G flash offset"
    "outside G m t" "loaded y (dev t)"
    using checkBadBlockE [OF g s] .
  obtain e u z where e: "layout_page E M G offset (of_nat 1) t = Some (e, u)" "e \<noteq> 0 \<longleftrightarrow> blank G flash m offset 1"
    "outside G m u" "loaded z (dev u)"
    "e = 0 \<longrightarrow> z = page_of G offset 1 \<and> mem u = page_mem G flash (page_of G offset 1) m"
    using layout_pageE [OF g b(4,3), where k = 1] .
  have e1: "vid_page E M G offset t = Some (e, u)"
    using e(1) by (simp add: vid_page_layout [OF g])
  obtain w where w: "nand_check_page_ecc E 0 (page_size ?c) DDR_BUFFER_ADDR u = Some (eccr z 0, w)" "frame u w" "loaded z (dev w)"
    using checkE [OF e(4)] .
  have ow: "outside G m w" using outside_frame [OF w(2) e(3)] .
  obtain q where q: "c_put_str M (str ''ECC Error during VID Scan 1.'') w = Some q" "frame w q" "loaded z (dev q)"
    using put_strE [OF w(3), of "str ''ECC Error during VID Scan 1.''"] by (auto simp: str_def)
  have oq: "outside G m q" using outside_frame [OF q(2) ow] .
  have ns: "1 + (unat (num_sections ?c) - 1) - 1 = unat (num_sections ?c) - 1" "unat (num_sections ?c) - 1 \<noteq> 0"
    "(of_nat (unat (num_sections ?c) - 1) :: u32) = num_sections ?c - 1"
    using g(1) by (simp_all add: geometry_def chip_4KB_def chip_2KB_def)
  obtain w3 where w3': "vid_sections E M ?c 1 (unat (num_sections ?c) - 1) (eccr z 0) w =
      Some (if unat (num_sections ?c) - 1 = 0 then eccr z 0 else eccr z (of_nat (1 + (unat (num_sections ?c) - 1) - 1)), w3)"
    "frame w w3" "loaded z (dev w3)"
    using vid_sectionsE [OF w(3)] .
  have w3: "vid_sections E M ?c 1 (unat (num_sections ?c) - 1) (eccr z 0) w = Some (eccr z (num_sections ?c - 1), w3)"
    "frame w w3" "loaded z (dev w3)"
    using w3' by (simp_all only: ns if_False)
  have o3: "outside G m w3" using outside_frame [OF w3(2) ow] .
  obtain q3 where q3: "c_put_str M (str ''Header CRC Error -VID Scan.'') w3 = Some q3" "frame w3 q3" "loaded z (dev q3)"
    using put_strE [OF w3(3), of "str ''Header CRC Error -VID Scan.''"] by (auto simp: str_def)
  have oq3: "outside G m q3" using outside_frame [OF q3(2) o3] .
  have z: "z = page_of G offset 1" if "e = 0" using e(5) that by blast
  have memw: "mem w = page_mem G flash (page_of G offset 1) m" "mem w3 = page_mem G flash (page_of G offset 1) m" if "e = 0"
    using e(5) that w(2) w3(2) by (simp_all add: frame_def)
  have word: "ram_load32 (DDR_BUFFER_ADDR + of_nat i) w = page_word G flash offset (of_nat i)"
    "ram_load32 (DDR_BUFFER_ADDR + of_nat i) w3 = page_word G flash offset (of_nat i)" if "e = 0" "i \<le> 60" for i
    by (rule page_word_load [OF memw(1) [OF that(1)]] page_word_load [OF memw(2) [OF that(1)]], use that(2) ps_bounds(3) [of G] in simp)+
  have hdr: "ram_load32 DDR_BUFFER_ADDR w = page_word G flash offset 0" "vol_id (vid_hdr_at DDR_BUFFER_ADDR w3) = page_word G flash offset 8"
    "lnum (vid_hdr_at DDR_BUFFER_ADDR w3) = page_word G flash offset 12"
    "hdr_crc (vid_hdr_at DDR_BUFFER_ADDR w3) = page_word G flash offset 60" if "e = 0"
    using word [OF that, of 0] word [OF that, of 8] word [OF that, of 12] word [OF that, of 60] by (simp_all add: vid_hdr_at_def)
  have bytes: "ram_bytes DDR_BUFFER_ADDR UBI_VID_HDR_SIZE_CRC w3 = flash_bytes flash (page_of G offset 1) 60" if "e = 0"
    using page_load8 [OF memw(2) [OF that]] ps_bounds(3) [of G]
    by (simp add: ram_bytes_def flash_bytes_def UBI_VID_HDR_SIZE_CRC_def UBI_VID_HDR_SIZE_def)
  have two: "offset + scast (page_size ?c) * 2 = offset + of_nat (2 * ps G)"
    by (simp add: geometry_chip(1) [OF g(1)] mult.commute)
  have len: "int UBI_VID_HDR_SIZE_CRC = 60"
    by (simp add: UBI_VID_HDR_SIZE_CRC_def UBI_VID_HDR_SIZE_def)
  note run = vid_block_def Let_def two len
  note cand = vid_candidate_def vid_good_def
  consider "b \<noteq> 0" | "b = 0" "e \<noteq> 0" | "b = 0" "e = 0" "eccr z 0 <s 0"
    | "b = 0" "e = 0" "\<not> eccr z 0 <s 0" "page_word G flash offset 0 \<noteq> UBI_VID_HDR_MAGIC"
    | "b = 0" "e = 0" "\<not> eccr z 0 <s 0" "page_word G flash offset 0 = UBI_VID_HDR_MAGIC" "page_word G flash offset 8 \<noteq> of_int v"
    | "b = 0" "e = 0" "\<not> eccr z 0 <s 0" "page_word G flash offset 0 = UBI_VID_HDR_MAGIC" "page_word G flash offset 8 = of_int v"
    by blast
  then show ?thesis
  proof cases
    case 1
    with b show ?thesis unfolding run by (auto simp: cand)
  next
    case 2
    with b e(2-4) e1 show ?thesis unfolding run by (auto simp: cand)
  next
    case 3
    with b(1,2) e(2) e1 w q oq z show ?thesis unfolding run by (auto simp: cand)
  next
    case 4
    with b(1,2) e(2) e1 w ow z hdr(1) show ?thesis unfolding run by (auto simp: cand)
  next
    case 5
    with b(1,2) e(2) e1 w z hdr w3 o3 show ?thesis unfolding run by (auto simp: cand)
  next
    case 6
    then have "vid_candidate G flash eccr m v offset" using b(2) e(2) z by (simp add: cand)
    moreover have "vid_good G flash eccr offset \<longleftrightarrow>
        crcFast CRC32 (crcTable G) (flash_bytes flash (page_of G offset 1) 60) 60 = page_word G flash offset 60 \<and>
        0 \<le>s eccr z (num_sections ?c - 1)"
      using z 6 by (simp add: cand)
    ultimately show ?thesis
      using 6 b(1) e1 w hdr w3 o3 q3 oq3 bytes unfolding run by (auto split: option.split)
  qed
qed

lemma vid_loop_spec:
  assumes "geometry G" "b \<le> n_blocks G" "loaded x (dev s)" "outside G m s"
  shows "case vid_spec G flash eccr m v (map (block_offset G) [b..<n_blocks G]) n (maptable G) of
      None \<Rightarrow> vid_loop E M v (block_offset G b) n G s = None
    | Some (r, mt) \<Rightarrow> \<exists>t y. vid_loop E M v (block_offset G b) n G s = Some (r, G\<lparr>maptable := mt\<rparr>, t) \<and>
        outside G m t \<and> loaded y (dev t)"
  using assms
proof (induction "n_blocks G - b" arbitrary: b x s n G)
  case 0
  then have "\<not> block_offset G b < max_offset (nand_chip G)"
    using block_less_max [of G b] by simp
  moreover have "0 \<notin> set (str ''Could not Find Uboot Blocks.Error!!'')"
    by (simp add: str_def)
  then obtain t where "c_put_str M (str ''Could not Find Uboot Blocks.Error!!'') s = Some t" "frame s t" "loaded x (dev t)"
    using put_strE [OF 0(4)] by metis
  ultimately show ?case
    using 0 outside_frame by (subst vid_loop.simps) auto
next
  case (Suc k)
  then have less: "b < n_blocks G" by simp
  then have l: "block_offset G b < max_offset (nand_chip G)"
    using block_less_max [of G b] Suc.prems(1) by simp
  have os: "map (block_offset G) [b..<n_blocks G] = block_offset G b # map (block_offset G) [Suc b..<n_blocks G]"
    using less by (simp add: upt_conv_Cons)
  let ?turn = "if vid_candidate G flash eccr m v (block_offset G b)
      then if vid_good G flash eccr (block_offset G b)
           then (case arr_set (maptable G) (unat (page_word G flash (block_offset G b) 12)) (block_offset G b + of_nat (2 * ps G)) of
                   None \<Rightarrow> None
                 | Some mt \<Rightarrow> Some (if ubootReservedBlocks G \<le> n + 1 then Some 0 else None, n + 1, mt))
           else Some (Some (-1 :: int), n, maptable G)
      else Some (None, n, maptable G)"
  note turn = vid_blockE [OF Suc.prems(1) aligned_block [of G b] Suc.prems(3,4), of v n]
  show ?case
  proof (cases ?turn)
    case None
    then have "vid_candidate G flash eccr m v (block_offset G b)" "vid_good G flash eccr (block_offset G b)"
      "arr_set (maptable G) (unat (page_word G flash (block_offset G b) 12)) (block_offset G b + of_nat (2 * ps G)) = None"
      by (auto split: if_splits option.splits)
    with None turn show ?thesis
      unfolding os by (subst vid_loop.simps) (simp add: l)
  next
    case (Some p)
    obtain r n' mt where p: "p = (r, n', mt)" by (metis prod.exhaust)
    obtain t y where t: "vid_block E M v (block_offset G b) n G s = Some (r, n', G\<lparr>maptable := mt\<rparr>, t)"
      "outside G m t" "loaded y (dev t)"
      using turn unfolding Some p by auto
    have spec: "vid_spec G flash eccr m v (map (block_offset G) [b..<n_blocks G]) n (maptable G) =
        (case r of None \<Rightarrow> vid_spec G flash eccr m v (map (block_offset G) [Suc b..<n_blocks G]) n' mt | Some r \<Rightarrow> Some (r, mt))"
      unfolding os using Some p by (auto split: if_splits option.splits)
    show ?thesis
    proof (cases r)
      case None
      let ?G = "G\<lparr>maptable := mt\<rparr>"
      have "case vid_spec ?G flash eccr m v (map (block_offset ?G) [Suc b..<n_blocks ?G]) n' (maptable ?G) of
          None \<Rightarrow> vid_loop E M v (block_offset ?G (Suc b)) n' ?G t = None
        | Some (r, mt) \<Rightarrow> \<exists>u z. vid_loop E M v (block_offset ?G (Suc b)) n' ?G t = Some (r, ?G\<lparr>maptable := mt\<rparr>, u) \<and>
            outside ?G m u \<and> loaded z (dev u)"
        by (rule Suc.hyps(1)) (use Suc.hyps(2) Suc.prems(1) less t in simp_all)
      moreover have run: "vid_loop E M v (block_offset G b) n G s = vid_loop E M v (block_offset G (Suc b)) n' ?G t"
        using None t(1) l by (subst vid_loop.simps) (simp add: block_offset_Suc [OF Suc.prems(1)])
      moreover have "vid_spec G flash eccr m v (map (block_offset G) [b..<n_blocks G]) n (maptable G) =
          vid_spec G flash eccr m v (map (block_offset G) [Suc b..<n_blocks G]) n' mt"
        using None spec by simp
      ultimately show ?thesis
        by (cases "vid_spec G flash eccr m v (map (block_offset G) [Suc b..<n_blocks G]) n' mt") auto
    next
      case (Some r)
      with t l spec show ?thesis
        by (subst vid_loop.simps) auto
    qed
  qed
qed

lemma scanvid_spec:
  assumes g: "geometry G" and "loaded x (dev s)" "outside G m s"
  shows "case vid_spec G flash eccr m v (map (block_offset G) [1..<n_blocks G]) 0 (replicate 20 0) of
      None \<Rightarrow> scanvid E M v G s = None
    | Some (r, mt) \<Rightarrow> \<exists>t y. scanvid E M v G s = Some (r, G\<lparr>maptable := mt\<rparr>, t) \<and>
        outside G m t \<and> loaded y (dev t)"
proof -
  let ?G = "G\<lparr>maptable := replicate 20 0\<rparr>"
  have "case vid_spec ?G flash eccr m v (map (block_offset ?G) [1..<n_blocks ?G]) 0 (maptable ?G) of
      None \<Rightarrow> vid_loop E M v (block_offset ?G 1) 0 ?G s = None
    | Some (r, mt) \<Rightarrow> \<exists>t y. vid_loop E M v (block_offset ?G 1) 0 ?G s = Some (r, ?G\<lparr>maptable := mt\<rparr>, t) \<and>
        outside ?G m t \<and> loaded y (dev t)"
    by (rule vid_loop_spec) (use assms in \<open>simp_all add: n_blocks_def\<close>)
  moreover have "scanvid E M v G s = vid_loop E M v (block_offset ?G 1) 0 ?G s"
    by (simp add: scanvid_def Let_def geometry_chip(5) [OF g])
  ultimately show ?thesis
    by (cases "vid_spec G flash eccr m v (map (block_offset G) [1..<n_blocks G]) 0 (replicate 20 0)") auto
qed

end

end
