(* ===== verification/Nand_Volume.thy ===== *)
theory Nand_Volume
  imports Nand_Scan
begin

unbundle bit_operations_syntax

section \<open>Finding the volume\<close>

text \<open>
  The properties of \<open>scanlayoutv\<close> and \<open>scanvid\<close>: they compute the specifications of \<open>Nand_Scan\<close>, the
  first finds the number of the volume in the volume table and the second its blocks. Three theorems show
  where they fail: a damaged first copy of the volume table, a logical block found twice, and a logical
  number past the map table.
\<close>

definition blocks :: "nand_globals \<Rightarrow> u32 list" where
  "blocks G = map (block_offset G) [1..<n_blocks G]"


text \<open>
  \<open>scanvid\<close> returns what the walk over the headers of the flash gives, and leaves that map table.
\<close>

theorem scanvid_refines:
  assumes "nand_part M E outs loaded flash eccr" "geometry G" "loaded x (dev s)"
  shows "map_option (\<lambda>(r, G', t). (r, G')) (scanvid E M v G s) =
    map_option (\<lambda>(r, mt). (r, G\<lparr>maptable := mt\<rparr>)) (vid_spec G flash eccr (mem s) v (blocks G) 0 (replicate 20 0))"
proof (cases "vid_spec G flash eccr (mem s) v (blocks G) 0 (replicate 20 0)")
  case None
  with nand_part.scanvid_spec [OF assms outside_self, of v] show ?thesis by (simp add: blocks_def)
next
  case (Some p)
  with nand_part.scanvid_spec [OF assms outside_self, of v] show ?thesis
    by (cases p) (auto simp: blocks_def)
qed

subsection \<open>The map table\<close>

text \<open>The headers of the volume in the order of the flash, and the logical number of a block.\<close>

definition vid_blocks ::
  "nand_globals \<Rightarrow> (u32 \<Rightarrow> u8) \<Rightarrow> (u32 \<Rightarrow> u32 \<Rightarrow> u16) \<Rightarrow> (u32 \<Rightarrow> u8) \<Rightarrow> int \<Rightarrow> u32 list" where
  "vid_blocks G flash eccr m v = filter (vid_candidate G flash eccr m v) (blocks G)"

definition leb :: "nand_globals \<Rightarrow> (u32 \<Rightarrow> u8) \<Rightarrow> u32 \<Rightarrow> nat" where
  "leb G flash offset = unat (page_word G flash offset 12)"

definition data_start :: "nand_globals \<Rightarrow> u32 \<Rightarrow> u32" where
  "data_start G offset = offset + of_nat (2 * ps G)"

definition enter :: "nand_globals \<Rightarrow> (u32 \<Rightarrow> u8) \<Rightarrow> u32 list \<Rightarrow> u32 \<Rightarrow> u32 list" where
  "enter G flash mt offset = mt[leb G flash offset := data_start G offset]"

lemma vid_spec_filter:
  "vid_spec G flash eccr m v os n mt = vid_spec G flash eccr m v (filter (vid_candidate G flash eccr m v) os) n mt"
  by (induction os arbitrary: n mt) (auto split: option.splits)

lemma vid_spec_good:
  assumes "\<forall>c \<in> set cs. vid_candidate G flash eccr m v c \<and> vid_good G flash eccr c \<and> leb G flash c < length mt"
    and "cs \<noteq> []" "unat n + length cs = unat (ubootReservedBlocks G)"
  shows "vid_spec G flash eccr m v (cs @ os) n mt = Some (0, foldl (enter G flash) mt cs)"
  using assms
proof (induction cs arbitrary: n mt)
  case (Cons c cs)
  have "unat (n + 1) = unat n + 1"
    using Cons.prems(3) unsigned_less [where 'a = nat and w = "ubootReservedBlocks G"]
    by (simp add: unat_word_ariths)
  then have le: "ubootReservedBlocks G \<le> n + 1 \<longleftrightarrow> cs = []" "cs \<noteq> [] \<Longrightarrow> unat (n + 1) + length cs = unat (ubootReservedBlocks G)"
    using Cons.prems(3) by (cases cs; simp add: word_le_nat_alt)+
  have "arr_set mt (unat (page_word G flash c 12)) (c + of_nat (2 * ps G)) = Some (enter G flash mt c)"
    using Cons.prems(1) by (simp add: arr_set_def enter_def leb_def data_start_def)
  then have "vid_spec G flash eccr m v ((c # cs) @ os) n mt =
      (if cs = [] then Some (0, enter G flash mt c) else vid_spec G flash eccr m v (cs @ os) (n + 1) (enter G flash mt c))"
    using Cons.prems(1) le(1) by simp
  moreover have "vid_spec G flash eccr m v (cs @ os) (n + 1) (enter G flash mt c) =
      Some (0, foldl (enter G flash) (enter G flash mt c) cs)" if "cs \<noteq> []"
    by (rule Cons.IH) (use Cons.prems that le(2) in \<open>auto simp: enter_def\<close>)
  ultimately show ?case by simp
qed simp

text \<open>Only the first blocks of the volume count, as many as are reserved; a later one replaces an earlier.\<close>

definition used_blocks ::
  "nand_globals \<Rightarrow> (u32 \<Rightarrow> u8) \<Rightarrow> (u32 \<Rightarrow> u32 \<Rightarrow> u16) \<Rightarrow> (u32 \<Rightarrow> u8) \<Rightarrow> int \<Rightarrow> u32 list" where
  "used_blocks G flash eccr m v = take (unat (ubootReservedBlocks G)) (vid_blocks G flash eccr m v)"

definition complete ::
  "nand_globals \<Rightarrow> (u32 \<Rightarrow> u8) \<Rightarrow> (u32 \<Rightarrow> u32 \<Rightarrow> u16) \<Rightarrow> (u32 \<Rightarrow> u8) \<Rightarrow> int \<Rightarrow> bool" where
  "complete G flash eccr m v \<longleftrightarrow>
     0 < ubootReservedBlocks G \<and> unat (ubootReservedBlocks G) \<le> length (vid_blocks G flash eccr m v) \<and>
     list_all (\<lambda>c. vid_good G flash eccr c \<and> leb G flash c < 20) (used_blocks G flash eccr m v)"

lemma vid_spec_complete:
  assumes "complete G flash eccr m v"
  shows "vid_spec G flash eccr m v (blocks G) 0 (replicate 20 0) =
    Some (0, foldl (enter G flash) (replicate 20 0) (used_blocks G flash eccr m v))"
proof -
  let ?used = "used_blocks G flash eccr m v"
  have "set ?used \<subseteq> set (vid_blocks G flash eccr m v)"
    unfolding used_blocks_def by (rule set_take_subset)
  then have "\<forall>c \<in> set ?used. vid_candidate G flash eccr m v c"
    by (auto simp: vid_blocks_def)
  then have "vid_spec G flash eccr m v (?used @ drop (unat (ubootReservedBlocks G)) (vid_blocks G flash eccr m v)) 0 (replicate 20 0) =
      Some (0, foldl (enter G flash) (replicate 20 0) ?used)"
    by (intro vid_spec_good) (use assms in \<open>auto simp: complete_def list_all_iff used_blocks_def word_less_nat_alt\<close>)
  then show ?thesis
    by (subst vid_spec_filter) (simp add: used_blocks_def vid_blocks_def)
qed

lemma foldl_enter:
  assumes "\<forall>c \<in> set cs. leb G flash c < length mt"
  shows "length (foldl (enter G flash) mt cs) = length mt"
    "L < length mt \<Longrightarrow> foldl (enter G flash) mt cs ! L =
      (case filter (\<lambda>c. leb G flash c = L) cs of [] \<Rightarrow> mt ! L | ds \<Rightarrow> data_start G (last ds))"
  using assms
proof (induction cs rule: rev_induct)
  case (snoc c cs)
  {
    case 1
    with snoc show ?case by (simp add: enter_def)
  next
    case 2
    with snoc show ?case by (auto simp: enter_def nth_list_update split: list.splits)
  }
qed simp_all

lemma enter_last:
  assumes "\<forall>c \<in> set cs. leb G flash c < 20" "filter (\<lambda>d. leb G flash d = leb G flash c) cs = ds @ [c]"
  shows "foldl (enter G flash) (replicate 20 0) cs ! leb G flash c = data_start G c"
proof -
  have "c \<in> set cs" using arg_cong [OF assms(2), of set] by auto
  then have "foldl (enter G flash) (replicate 20 0) cs ! leb G flash c =
      (case ds @ [c] of [] \<Rightarrow> replicate 20 0 ! leb G flash c | ds \<Rightarrow> data_start G (last ds))"
    using foldl_enter(2) [of cs G flash "replicate 20 0" "leb G flash c"] assms by simp
  then show ?thesis by (cases ds) simp_all
qed

lemma filter_distinct_map: "distinct (map f xs) \<Longrightarrow> c \<in> set xs \<Longrightarrow> filter (\<lambda>d. f d = f c) xs = [c]"
proof (induction xs)
  case (Cons a xs)
  then have a: "f d \<noteq> f a" if "d \<in> set xs" for d
    using that by (metis distinct.simps(2) list.simps(9) imageI list.set_map)
  show ?case
  proof (cases "c = a")
    case True
    then have "filter (\<lambda>d. f d = f c) xs = []" using a by (simp add: filter_empty_conv)
    with True show ?thesis by simp
  next
    case False
    with Cons a [of c] show ?thesis by auto
  qed
qed simp

text \<open>
  C16. Found volume: let the flash hold at least as many blocks of the volume as are reserved for it, the
  first of them in the order of the flash all with a correct header and a logical number below 20, no two
  the same. Then \<open>scanvid\<close> returns 0 and the map table leads from each of their logical numbers to the
  data of that block, whatever the order of the blocks on the chip.
\<close>

theorem scanvid_maps_blocks:
  assumes "nand_part M E outs loaded flash eccr" "geometry G" "loaded x (dev s)"
    and "complete G flash eccr (mem s) v" "distinct (map (leb G flash) (used_blocks G flash eccr (mem s) v))"
    and "c \<in> set (used_blocks G flash eccr (mem s) v)"
  shows "\<exists>G' t. scanvid E M v G s = Some (0, G', t) \<and> maptable G' ! leb G flash c = data_start G c"
proof -
  let ?cs = "used_blocks G flash eccr (mem s) v"
  have spec: "vid_spec G flash eccr (mem s) v (blocks G) 0 (replicate 20 0) = Some (0, foldl (enter G flash) (replicate 20 0) ?cs)"
    by (rule vid_spec_complete [OF assms(4)])
  have small: "\<forall>c \<in> set ?cs. leb G flash c < 20"
    using assms(4) by (simp add: complete_def list_all_iff)
  have "filter (\<lambda>d. leb G flash d = leb G flash c) ?cs = [] @ [c]"
    using filter_distinct_map [OF assms(5,6)] by simp
  then have "foldl (enter G flash) (replicate 20 0) ?cs ! leb G flash c = data_start G c"
    using enter_last small by blast
  then show ?thesis
    using nand_part.scanvid_spec [OF assms(1-3) outside_self, of v] spec by (auto simp: blocks_def)
qed

text \<open>
  A logical block found twice: of two blocks of the volume with the same logical number, both among
  those that count, the one that comes later on the chip is entered. The sequence number, which says which
  of the two is newer, is not looked at.
\<close>

theorem scanvid_last_copy_wins:
  assumes "nand_part M E outs loaded flash eccr" "geometry G" "loaded x (dev s)"
    and "complete G flash eccr (mem s) v"
    and "used_blocks G flash eccr (mem s) v = as @ c # bs" "\<forall>b \<in> set bs. leb G flash b \<noteq> leb G flash c"
  shows "\<exists>G' t. scanvid E M v G s = Some (0, G', t) \<and> maptable G' ! leb G flash c = data_start G c"
proof -
  let ?cs = "used_blocks G flash eccr (mem s) v"
  have spec: "vid_spec G flash eccr (mem s) v (blocks G) 0 (replicate 20 0) = Some (0, foldl (enter G flash) (replicate 20 0) ?cs)"
    by (rule vid_spec_complete [OF assms(4)])
  have small: "\<forall>c \<in> set ?cs. leb G flash c < 20"
    using assms(4) by (simp add: complete_def list_all_iff)
  have "filter (\<lambda>d. leb G flash d = leb G flash c) ?cs = filter (\<lambda>d. leb G flash d = leb G flash c) as @ [c]"
    using assms(6) by (simp add: assms(5) filter_empty_conv)
  then have "foldl (enter G flash) (replicate 20 0) ?cs ! leb G flash c = data_start G c"
    using enter_last small by blast
  then show ?thesis
    using nand_part.scanvid_spec [OF assms(1-3) outside_self, of v] spec by (auto simp: blocks_def)
qed

text \<open>
  A logical number past the map table: when the first block of the volume has a correct header and a
  logical number of 20 or more, the scan stores past the 20 entries of \<open>maptable\<close>, which is no run of the
  model.
\<close>

theorem scanvid_overruns_maptable:
  assumes "nand_part M E outs loaded flash eccr" "geometry G" "loaded x (dev s)"
    and "vid_blocks G flash eccr (mem s) v = c # cs" "vid_good G flash eccr c" "20 \<le> leb G flash c"
  shows "scanvid E M v G s = None"
proof -
  have "vid_candidate G flash eccr (mem s) v c"
    using arg_cong [OF assms(4), of set] by (auto simp: vid_blocks_def)
  then have "vid_spec G flash eccr (mem s) v (blocks G) 0 (replicate 20 0) = None"
    using assms(4-6) by (subst vid_spec_filter) (simp add: vid_blocks_def arr_set_def leb_def)
  then show ?thesis
    using nand_part.scanvid_spec [OF assms(1-3) outside_self, of v] by (simp add: blocks_def)
qed

text \<open>
  A damaged header ends the scan: if the first block of the volume has a wrong checksum, or an error
  in its last section, \<open>scanvid\<close> returns \<open>-1\<close> without a look at the blocks behind it.
\<close>

theorem scanvid_gives_up:
  assumes "nand_part M E outs loaded flash eccr" "geometry G" "loaded x (dev s)"
    and "vid_blocks G flash eccr (mem s) v = c # cs" "\<not> vid_good G flash eccr c"
  shows "\<exists>G' t. scanvid E M v G s = Some (-1, G', t)"
proof -
  have "vid_candidate G flash eccr (mem s) v c"
    using arg_cong [OF assms(4), of set] by (auto simp: vid_blocks_def)
  then have "vid_spec G flash eccr (mem s) v (blocks G) 0 (replicate 20 0) = Some (-1, replicate 20 0)"
    using assms(4,5) by (subst vid_spec_filter) (simp add: vid_blocks_def)
  then show ?thesis
    using nand_part.scanvid_spec [OF assms(1-3) outside_self, of v] by (auto simp: blocks_def)
qed

subsection \<open>The volume table\<close>

text \<open>The blocks that count as copies of the volume table, and the buffer with the table of one of them.\<close>

definition layout_blocks :: "nand_globals \<Rightarrow> (u32 \<Rightarrow> u8) \<Rightarrow> (u32 \<Rightarrow> u8) \<Rightarrow> u32 list" where
  "layout_blocks G flash m = filter (layout_candidate G flash m) (blocks G)"

definition table_ram :: "nand_globals \<Rightarrow> (u32 \<Rightarrow> u8) \<Rightarrow> (u32 \<Rightarrow> u8) \<Rightarrow> u32 \<Rightarrow> unit sys" where
  "table_ram G flash m offset = ramst (page_mem G flash (page_of G offset 2) m)"

definition record_at :: "nat \<Rightarrow> u32" where
  "record_at i = DDR_BUFFER_ADDR + of_nat (UBI_VTBL_RECORD_SIZE * i)"

definition record_name :: "nat \<Rightarrow> nat \<Rightarrow> unit sys \<Rightarrow> u32 option" where
  "record_name vol i s =
     volname_compare (record_at i + 16) (unat (name_len (vtbl_record_at (record_at i) s))) vol s"

definition record_valid :: "u32 list \<Rightarrow> nat \<Rightarrow> unit sys \<Rightarrow> bool" where
  "record_valid T i s \<longleftrightarrow>
     crcFast CRC32 T (ram_bytes (record_at i) UBI_VTBL_RECORD_SIZE_CRC s) (int UBI_VTBL_RECORD_SIZE_CRC) =
       vtbl_crc (vtbl_record_at (record_at i) s) \<and>
     upd_marker (vtbl_record_at (record_at i) s) = 0"

text \<open>Record \<open>k\<close> is the first with the name of the volume.\<close>

definition named_first :: "nat \<Rightarrow> nat \<Rightarrow> unit sys \<Rightarrow> bool" where
  "named_first vol k s \<longleftrightarrow> list_all (\<lambda>i. record_name vol i s = Some 1) [0..<k] \<and> record_name vol k s = Some 0"

lemma layout_records_from:
  assumes "list_all (\<lambda>i. record_name vol i s = Some 1) [i..<i + k]" "record_name vol (i + k) s = Some 0"
    and "v + int k \<le> 128"
  shows "layout_records T vol (record_at i) v 0 s =
    Some (v + int k, if record_valid T (i + k) s then Some (reserved_pebs (vtbl_record_at (record_at (i + k)) s)) else None)"
  using assms
proof (induction k arbitrary: i v)
  case 0
  then show ?case
    by (subst layout_records.simps)
      (auto simp: Let_def record_name_def record_valid_def vtbl_record_at_def split: option.splits)
next
  case (Suc k)
  have "[i..<i + Suc k] = i # [Suc i..<Suc i + k]"
    by (simp add: upt_conv_Cons)
  with Suc.prems(1) have n: "record_name vol i s = Some 1" "list_all (\<lambda>i. record_name vol i s = Some 1) [Suc i..<Suc i + k]"
    by (simp_all del: upt_Suc)
  have "record_at (Suc i) = record_at i + of_nat UBI_VTBL_RECORD_SIZE"
    by (simp add: record_at_def UBI_VTBL_RECORD_SIZE_def)
  moreover have "v < UBI_MAX_VOLUMES"
    using Suc.prems(3) by (simp add: UBI_MAX_VOLUMES_def)
  ultimately have "layout_records T vol (record_at i) v 0 s = layout_records T vol (record_at (Suc i)) (v + 1) 0 s"
    using n(1) by (subst layout_records.simps) (simp add: Let_def record_name_def vtbl_record_at_def)
  also have "\<dots> = Some (v + 1 + int k, if record_valid T (Suc i + k) s
      then Some (reserved_pebs (vtbl_record_at (record_at (Suc i + k)) s)) else None)"
    by (rule Suc.IH [OF n(2)]) (use Suc.prems in simp_all)
  finally show ?case by (simp add: add.commute add.left_commute)
qed

lemma layout_table_named:
  assumes "named_first vol k (table_ram G flash m offset)" "v + int k \<le> 128"
  shows "layout_table G flash m vol offset v =
    Some (v + int k, if record_valid (crcTable G) k (table_ram G flash m offset)
      then Some (reserved_pebs (vtbl_record_at (record_at k) (table_ram G flash m offset))) else None)"
proof -
  have "record_at 0 = DDR_BUFFER_ADDR" by (simp add: record_at_def)
  with layout_records_from [of vol "table_ram G flash m offset" 0 k v "crcTable G"] assms show ?thesis
    by (simp add: layout_table_def table_ram_def named_first_def)
qed

lemma layout_spec_filter:
  "layout_spec G flash m vol os v = layout_spec G flash m vol (filter (layout_candidate G flash m) os) v"
  by (induction os arbitrary: v) (auto split: option.splits)

lemma layout_blocks_candidate: "layout_blocks G flash m = os \<Longrightarrow> o' \<in> set os \<Longrightarrow> layout_candidate G flash m o'"
  by (auto simp: layout_blocks_def)

text \<open>
  The volume is found: if record \<open>k\<close> of the first copy of the volume table is the first with the name
  of the volume, its checksum is right and no update of it was interrupted, then \<open>scanlayoutv\<close> returns \<open>k\<close>
  and the number of blocks reserved for the volume is that of the record.
\<close>

theorem scanlayoutv_finds_volume:
  assumes "nand_part M E outs loaded flash eccr" "geometry G" "loaded x (dev s)"
    and "layout_blocks G flash (mem s) = c # cs" "named_first vol k (table_ram G flash (mem s) c)" "k \<le> 128"
    and "record_valid (crcTable G) k (table_ram G flash (mem s) c)"
  shows "\<exists>t. scanlayoutv E M vol G s = Some (int k,
    G\<lparr>ubootReservedBlocks := reserved_pebs (vtbl_record_at (record_at k) (table_ram G flash (mem s) c))\<rparr>, t)"
proof -
  have "layout_spec G flash (mem s) vol (blocks G) 0 =
      Some (int k, Some (reserved_pebs (vtbl_record_at (record_at k) (table_ram G flash (mem s) c))))"
    using layout_table_named [OF assms(5), of 0] layout_blocks_candidate [OF assms(4)] assms(4,6,7)
    by (subst layout_spec_filter) (simp add: layout_blocks_def)
  then show ?thesis
    using nand_part.scanlayoutv_spec [OF assms(1-3) outside_self, of vol] by (auto simp: blocks_def reserve_def)
qed

text \<open>
  The spare copy gives the wrong number: if the record of the volume is damaged in the first copy of
  the table and good in the second, at the same place \<open>k\<close>, \<open>scanlayoutv\<close> returns \<open>2 * k\<close>, because \<open>vol_id\<close>
  is not reset between the copies. Unless \<open>k\<close> is 0 that is another volume.
\<close>

theorem scanlayoutv_spare_copy_doubles:
  assumes "nand_part M E outs loaded flash eccr" "geometry G" "loaded x (dev s)"
    and "layout_blocks G flash (mem s) = c # d # cs" "k \<le> 64"
    and "named_first vol k (table_ram G flash (mem s) c)" "\<not> record_valid (crcTable G) k (table_ram G flash (mem s) c)"
    and "named_first vol k (table_ram G flash (mem s) d)" "record_valid (crcTable G) k (table_ram G flash (mem s) d)"
  shows "\<exists>G' t. scanlayoutv E M vol G s = Some (2 * int k, G', t)"
proof -
  have "layout_spec G flash (mem s) vol (blocks G) 0 =
      Some (2 * int k, Some (reserved_pebs (vtbl_record_at (record_at k) (table_ram G flash (mem s) d))))"
    using layout_table_named [OF assms(6), of 0] layout_table_named [OF assms(8), of "int k"]
      layout_blocks_candidate [OF assms(4)] assms(4,5,7,9)
    by (subst layout_spec_filter) (simp add: layout_blocks_def)
  then show ?thesis
    using nand_part.scanlayoutv_spec [OF assms(1-3) outside_self, of vol] by (auto simp: blocks_def)
qed

end
