(* ===== verification/Nand_Load.thy ===== *)
theory Nand_Load
  imports Nand_Volume
begin

unbundle bit_operations_syntax

section \<open>Loading U-Boot\<close>

text \<open>
  \<open>readmapTable\<close> copies the pages of the blocks in the map table one behind the other to \<open>UBOOT_TEXT_BASE\<close>
  until it meets an empty page, and \<open>read_uboot\<close> tries this for the primary volume and then for the spare.
\<close>

subsection \<open>RAM regions\<close>

lemma overlay_commute:
  assumes "\<And>i j. i < n \<Longrightarrow> j < k \<Longrightarrow> phys (d + of_nat i) \<noteq> phys (e + of_nat j)" "n \<le> 2 ^ 29" "k \<le> 2 ^ 29"
  shows "overlay d x n f (overlay e y k g m) = overlay e y k g (overlay d x n f m)"
proof
  fix p
  consider i where "i < n" "p = phys (d + of_nat i)" | j where "j < k" "p = phys (e + of_nat j)"
    | "\<forall>i < n. p \<noteq> phys (d + of_nat i)" "\<forall>j < k. p \<noteq> phys (e + of_nat j)"
    by blast
  then show "overlay d x n f (overlay e y k g m) p = overlay e y k g (overlay d x n f m) p"
  proof cases
    case 1
    then have "overlay e y k g (overlay d x n f m) p = overlay d x n f m p"
      using assms(1) by (intro overlay_off) (metis (no_types))
    with 1 show ?thesis by (simp only: overlay_at [OF 1(1) assms(2)])
  next
    case 2
    then have "overlay d x n f (overlay e y k g m) p = overlay e y k g m p"
      using assms(1) 2 by (intro overlay_off) (metis (no_types))
    with 2 show ?thesis by (simp only: overlay_at [OF 2(1) assms(3)])
  next
    case 3
    then show ?thesis by (simp add: overlay_off)
  qed
qed

text \<open>The image of U-Boot is at most 16 MByte long, and the buffer is below it.\<close>

definition dest :: "nat \<Rightarrow> u32" where
  "dest bytes = UBOOT_TEXT_BASE + of_nat bytes"

lemma phys_dest: "bytes < 2 ^ 24 \<Longrightarrow> unat (phys (dest bytes)) = 0x800000 + bytes"
  using phys_windows(2) [of "0x800000 + bytes"] by (simp add: dest_def reg_defs add.assoc [symmetric])

lemma dest_add: "dest bytes + of_nat i = dest (bytes + i)"
  by (simp add: dest_def add.assoc)

lemma dest_apart:
  assumes "bytes < 2 ^ 24" "i < 0x1000"
  shows "phys (dest bytes) \<noteq> phys (DDR_BUFFER_ADDR + of_nat i)"
proof -
  have "unat (phys (0x80000000 + of_nat (0x400000 + i))) = 0x400000 + i"
    by (rule phys_windows(1)) (use assms(2) in simp)
  then have "unat (phys (DDR_BUFFER_ADDR + of_nat i)) = 0x400000 + i"
    by (simp add: reg_defs add.assoc [symmetric])
  with phys_dest [OF assms(1)] assms(2) show ?thesis by auto
qed

subsection \<open>The copy\<close>

definition load_page :: "nand_globals \<Rightarrow> (u32 \<Rightarrow> u8) \<Rightarrow> nat \<Rightarrow> u32 \<Rightarrow> (u32 \<Rightarrow> u8) \<Rightarrow> u32 \<Rightarrow> u8" where
  "load_page G flash bytes offset m = overlay (dest bytes) (data_of offset) (ps G) flash m"

text \<open>
  The page that ends the copy: an empty one on the chip of 4 KByte pages. On the other chip it is the page
  before one with an empty spare area, for \<open>checkErasedPage\<close> looks at the next page.
\<close>

definition end_page :: "nand_globals \<Rightarrow> (u32 \<Rightarrow> u8) \<Rightarrow> (u32 \<Rightarrow> u8) \<Rightarrow> u32 \<Rightarrow> bool" where
  "end_page G flash m offset \<longleftrightarrow>
     (if is_4KB G then list_all (\<lambda>i. flash (data_of offset + of_nat i) = 0xFF) [0..<ps G] else erased G flash m offset)"

text \<open>The page the error correction reports on is the one last read, which on the small chip is the spare area.\<close>

definition page_ok :: "nand_globals \<Rightarrow> (u32 \<Rightarrow> u32 \<Rightarrow> u16) \<Rightarrow> u32 \<Rightarrow> bool" where
  "page_ok G eccr offset \<longleftrightarrow>
     list_all (\<lambda>j. \<not> eccr (if is_4KB G then data_of offset else spare_of G offset) (of_nat j) <s 0)
       [0..<unat (num_sections (nand_chip G))]"

text \<open>The value returned, if any, the bytes copied before the last page, and RAM.\<close>

fun pages_spec ::
  "nand_globals \<Rightarrow> (u32 \<Rightarrow> u8) \<Rightarrow> (u32 \<Rightarrow> u32 \<Rightarrow> u16) \<Rightarrow> u32 list \<Rightarrow> nat \<Rightarrow> (u32 \<Rightarrow> u8) \<Rightarrow>
     int option \<times> nat \<times> (u32 \<Rightarrow> u8)" where
  "pages_spec G flash eccr [] bytes m = (None, bytes, m)"
| "pages_spec G flash eccr (offset # os) bytes m =
     (let m = load_page G flash bytes offset m
      in if end_page G flash m offset then (Some 1, bytes, m)
         else if \<not> page_ok G eccr offset then (Some (-1), bytes, m)
         else pages_spec G flash eccr os (bytes + ps G) m)"

text \<open>The pages of data of the block of an entry.\<close>

definition n_data :: "nand_globals \<Rightarrow> nat" where
  "n_data G = block_bytes G div ps G - 2"

definition data_pages :: "nand_globals \<Rightarrow> u32 \<Rightarrow> nat \<Rightarrow> u32 list" where
  "data_pages G e i = map (\<lambda>i. e + of_nat (i * ps G)) [i..<n_data G]"

fun blocks_spec ::
  "nand_globals \<Rightarrow> (u32 \<Rightarrow> u8) \<Rightarrow> (u32 \<Rightarrow> u32 \<Rightarrow> u16) \<Rightarrow> u32 list \<Rightarrow> nat \<Rightarrow> (u32 \<Rightarrow> u8) \<Rightarrow> (int \<times> (u32 \<Rightarrow> u8)) option" where
  "blocks_spec G flash eccr [] bytes m = None"
| "blocks_spec G flash eccr (e # es) bytes m =
     (case pages_spec G flash eccr (data_pages G e 0) bytes m of
        (Some r, _, m) \<Rightarrow> Some (r, m)
      | (None, bytes, m) \<Rightarrow>
          (case es of
             [] \<Rightarrow> None
           | e' # _ \<Rightarrow> if e' \<noteq> 0 then blocks_spec G flash eccr es bytes m else Some (0, m)))"

lemma outside_load_page:
  assumes "filled flash (dest bytes) (data_of offset) (ps G) s t" "outside G m s" "bytes + ps G \<le> 2 ^ 24"
  shows "outside G (load_page G flash bytes offset m) t"
proof -
  have "blanked G (load_page G flash bytes offset m') = load_page G flash bytes offset (blanked G m')" for m'
    unfolding blanked_def load_page_def
  proof (rule overlay_commute)
    fix i j assume "i < ps G" "j < ps G"
    then show "phys (DDR_BUFFER_ADDR + of_nat i) \<noteq> phys (dest bytes + of_nat j)"
      using dest_apart [of "bytes + j" i] assms(3) ps_bounds(2) [of G] by (simp add: dest_add)
  qed (rule ps_bounds)+
  with assms(1,2) show ?thesis
    by (simp add: outside_def filled_def load_page_def [symmetric])
qed

context nand_part
begin

lemma map_sectionsE:
  assumes s: "loaded x (dev s)"
  obtains t where "map_sections E M c bytes j k s =
      Some (if list_all (\<lambda>j. \<not> eccr x (of_nat j) <s 0) [j..<j + k] then None else Some (-1), t)"
    "frame s t" "loaded x (dev t)"
proof -
  have nz: "0 \<notin> set (str ''ECC Error. Read Map Table!!'')"
    by (simp add: str_def)
  have "\<exists>t. map_sections E M c bytes j k s =
      Some (if list_all (\<lambda>j. \<not> eccr x (of_nat j) <s 0) [j..<j + k] then None else Some (-1), t) \<and> frame s t \<and> loaded x (dev t)"
    using s
  proof (induction k arbitrary: j s)
    case (Suc k)
    have up: "[j..<Suc (j + k)] = j # [Suc j..<Suc (j + k)]"
      by (simp add: upt_conv_Cons)
    obtain t where t: "nand_check_page_ecc E (of_nat j) (page_size c) (UBOOT_TEXT_BASE + bytes) s = Some (eccr x (of_nat j), t)"
      "frame s t" "loaded x (dev t)"
      using checkE [OF Suc.prems] .
    show ?case
    proof (cases "eccr x (of_nat j) <s 0")
      case True
      obtain u where "c_put_str M (str ''ECC Error. Read Map Table!!'') t = Some u" "frame t u" "loaded x (dev u)"
        using put_strE [OF t(3) nz] .
      with True t show ?thesis by (auto simp: up simp del: upt_Suc intro: frame_trans)
    next
      case False
      obtain u where "map_sections E M c bytes (Suc j) k t =
          Some (if list_all (\<lambda>j. \<not> eccr x (of_nat j) <s 0) [Suc j..<Suc j + k] then None else Some (-1), u)"
        "frame t u" "loaded x (dev u)"
        using Suc.IH [OF t(3)] by blast
      with False t show ?thesis by (auto simp: up simp del: upt_Suc intro: frame_trans)
    qed
  qed auto
  with that show ?thesis by blast
qed

lemma map_pageE:
  assumes g: "geometry G" "aligned G e" and s: "loaded x (dev s)" "outside G m s" and b: "bytes + ps G \<le> 2 ^ 24"
    and offset_def: "offset = e + of_nat (i * ps G)"
  shows "\<exists>t y. map_page E M G e (of_nat i) (of_nat bytes) s =
      Some (if end_page G flash (load_page G flash bytes offset m) offset then Some 1
            else if \<not> page_ok G eccr offset then Some (-1) else None, t) \<and>
    outside G (load_page G flash bytes offset m) t \<and> loaded y (dev t)"
proof -
  let ?c = "nand_chip G" and ?m = "load_page G flash bytes offset m"
  have al: "aligned G offset"
    unfolding offset_def by (rule aligned_add [OF g(2) aligned_page])
  have off: "e + of_nat i * scast (page_size ?c) = offset"
    by (simp add: offset_def geometry_chip(1) [OF g(1)])
  have len: "unat (scast (page_size ?c) :: u32) \<le> 0x1000"
    using g(1) by (simp add: geometry_chip ps_def)
  obtain u where u: "read_nand_page E M (dest bytes) (data_of offset) (scast (page_size ?c)) s = Some u"
    "filled flash (dest bytes) (data_of offset) (ps G) s u" "loaded (data_of offset) (dev u)"
    using readE [OF s(1) len] words_ps [OF g(1)] by metis
  have ou: "outside G ?m u"
    by (rule outside_load_page [OF u(2) s(2) b])
  have ld: "ram_load8 (dest bytes + of_nat i) u = flash (data_of offset + of_nat i)" if "i < ps G" for i
    using u(2) overlay_at [OF that] ps_bounds(1) [of G] by (simp add: filled_def ram_load8_def)
  have run: "map_page E M G e (of_nat i) (of_nat bytes) s = do {
      (errs, s) \<leftarrow> (if \<not> is_4KB G then checkErasedPage E M ?c offset u
                   else Some (check_pattern (dest bytes) 0xFF (page_size ?c) u, u));
      if errs \<noteq> 0 then Some (Some 1, s)
      else map_sections E M ?c (of_nat bytes) 0 (unat (num_sections ?c)) s }"
    using u(1) unfolding map_page_def Let_def off shifts(2) [OF g(1) al] dest_def by simp
  show ?thesis
  proof (cases "is_4KB G")
    case True
    have pat: "check_pattern (dest bytes) 0xFF (page_size ?c) u \<noteq> 0 \<longleftrightarrow> end_page G flash ?m offset"
      unfolding check_pattern_iff end_page_def geometry_chip(2) [OF g(1)] using True ld by (simp add: list_all_iff)
    obtain t where t: "map_sections E M ?c (of_nat bytes) 0 (unat (num_sections ?c)) u =
        Some (if page_ok G eccr offset then None else Some (-1), t)" "frame u t" "loaded (data_of offset) (dev t)"
      using map_sectionsE [OF u(3), of ?c "of_nat bytes" 0 "unat (num_sections ?c)"] True by (auto simp: page_ok_def)
    show ?thesis
      using True pat t ou u(3) outside_frame [OF t(2) ou] unfolding run by auto
  next
    case False
    obtain e' w where w: "checkErasedPage E M ?c offset u = Some (e', w)" "e' \<noteq> 0 \<longleftrightarrow> erased G flash ?m offset"
      "outside G ?m w" "loaded (spare_of G offset) (dev w)"
      using checkErasedPageE [OF g(1) al u(3) ou] .
    obtain t where t: "map_sections E M ?c (of_nat bytes) 0 (unat (num_sections ?c)) w =
        Some (if page_ok G eccr offset then None else Some (-1), t)" "frame w t" "loaded (spare_of G offset) (dev t)"
      using map_sectionsE [OF w(4), of ?c "of_nat bytes" 0 "unat (num_sections ?c)"] False by (auto simp: page_ok_def)
    show ?thesis
      using False w t outside_frame [OF t(2) w(3)] unfolding run end_page_def by auto
  qed
qed

lemma map_pages_spec:
  assumes g: "geometry G" "aligned G e" and "i \<le> n_data G" "loaded x (dev s)" "outside G m s"
    and "bytes + (n_data G - i) * ps G \<le> 2 ^ 24"
  shows "case pages_spec G flash eccr (data_pages G e i) bytes m of (r, bytes', m') \<Rightarrow>
    \<exists>t y. map_pages E M G e (of_nat i) (of_nat bytes) s = Some (r, of_nat bytes', t) \<and> outside G m' t \<and> loaded y (dev t)"
  using assms(3-)
proof (induction "n_data G - i" arbitrary: i x s m bytes)
  case 0
  then have "\<not> of_nat i < num_pages_per_block (nand_chip G) - 2"
    using g(1) by (simp add: geometry_chip n_data_def block_bytes_def ps_def split: if_splits)
  with 0 show ?case
    by (subst map_pages.simps) (auto simp: data_pages_def)
next
  case (Suc k)
  then have less: "i < n_data G" by simp
  have npb: "num_pages_per_block (nand_chip G) - 2 = of_nat (n_data G)"
    using g(1) by (simp add: geometry_chip n_data_def block_bytes_def ps_def)
  have "n_data G < 2 ^ 32" by (simp add: n_data_def block_bytes_def ps_def)
  then have l: "(of_nat i :: u32) < num_pages_per_block (nand_chip G) - 2"
    using less unfolding npb by (simp add: word_less_nat_alt unsigned_of_nat take_bit_nat_eq_self)
  let ?o = "e + of_nat (i * ps G)"
  let ?m = "load_page G flash bytes ?o m"
  have b: "bytes + ps G + (n_data G - Suc i) * ps G \<le> 2 ^ 24"
  proof -
    have "n_data G - i = Suc (n_data G - Suc i)" using less by simp
    then show ?thesis using Suc.prems(4) by simp
  qed
  have pages: "data_pages G e i = ?o # data_pages G e (Suc i)"
    using less by (simp add: data_pages_def upt_conv_Cons)
  have "bytes + ps G \<le> 2 ^ 24" using b by simp
  from map_pageE [OF g Suc.prems(2,3) this refl] obtain t y where
    t: "map_page E M G e (of_nat i) (of_nat bytes) s =
      Some (if end_page G flash ?m ?o then Some 1 else if \<not> page_ok G eccr ?o then Some (-1) else None, t)"
    "outside G ?m t" "loaded y (dev t)"
    by blast
  show ?case
  proof (cases "end_page G flash ?m ?o \<or> \<not> page_ok G eccr ?o")
    case True
    with t show ?thesis
      unfolding pages by (subst map_pages.simps) (auto simp: l Let_def)
  next
    case False
    have "(of_nat bytes + scast (page_size (nand_chip G)) :: u32) = of_nat (bytes + ps G)"
      by (simp add: geometry_chip(1) [OF g(1)])
    then have run: "map_pages E M G e (of_nat i) (of_nat bytes) s = map_pages E M G e (of_nat (Suc i)) (of_nat (bytes + ps G)) t"
      using False t(1) by (subst map_pages.simps) (simp add: l add.commute)
    have spec: "pages_spec G flash eccr (data_pages G e i) bytes m =
        pages_spec G flash eccr (data_pages G e (Suc i)) (bytes + ps G) ?m"
      using False unfolding pages by (simp add: Let_def)
    show ?thesis
      unfolding run spec by (rule Suc.hyps(1)) (use Suc.hyps(2) less t b in auto)
  qed
qed

lemma pages_spec_bytes:
  "case pages_spec G flash eccr os bytes m of (r, bytes', m') \<Rightarrow> bytes' \<le> bytes + length os * ps G"
proof (induction os arbitrary: bytes m)
  case (Cons a os)
  show ?case using Cons [of "bytes + ps G" "load_page G flash bytes a m"]
    by (auto simp: Let_def split: prod.splits)
qed simp

lemma map_blocks_spec:
  assumes g: "geometry G" "\<forall>e \<in> set (maptable G). aligned G e"
    and "loaded x (dev s)" "outside G m s" "bytes + (length (maptable G) - index) * (n_data G * ps G) \<le> 2 ^ 24"
  shows "case blocks_spec G flash eccr (drop index (maptable G)) bytes m of
      None \<Rightarrow> map_blocks E M G index (of_nat bytes) s = None
    | Some (r, m') \<Rightarrow> \<exists>t y. map_blocks E M G index (of_nat bytes) s = Some (r, t) \<and> outside G m' t \<and> loaded y (dev t)"
  using assms(3-)
proof (induction "length (maptable G) - index" arbitrary: index x s m bytes)
  case 0
  then show ?case by (subst map_blocks.simps) (simp add: arr_get_def)
next
  case (Suc k)
  then have less: "index < length (maptable G)" by simp
  let ?e = "maptable G ! index"
  let ?n = "(length (maptable G) - Suc index) * (n_data G * ps G)"
  have dr: "drop index (maptable G) = ?e # drop (Suc index) (maptable G)"
    using less by (simp add: Cons_nth_drop_Suc)
  have b: "bytes + n_data G * ps G + ?n \<le> 2 ^ 24"
  proof -
    have "length (maptable G) - index = Suc (length (maptable G) - Suc index)" using less by simp
    then show ?thesis using Suc.prems(3) by simp
  qed
  obtain r bytes' m' where p: "pages_spec G flash eccr (data_pages G ?e 0) bytes m = (r, bytes', m')"
    by (metis prod.exhaust)
  have "aligned G ?e" using g(2) less by simp
  then obtain t y where t: "map_pages E M G ?e 0 (of_nat bytes) s = Some (r, of_nat bytes', t)" "outside G m' t" "loaded y (dev t)"
    using map_pages_spec [OF g(1), of ?e 0 x s m bytes] Suc.prems b p by auto
  have b': "bytes' + ?n \<le> 2 ^ 24"
    using pages_spec_bytes [where G = G and os = "data_pages G ?e 0" and bytes = bytes and m = m] p b
    by (simp add: data_pages_def)
  show ?case
  proof (cases r)
    case (Some v)
    with t p less show ?thesis
      unfolding dr by (subst map_blocks.simps) (auto simp: arr_get_def)
  next
    case None
    show ?thesis
    proof (cases "Suc index < length (maptable G)")
      case False
      with None t p less show ?thesis
        unfolding dr by (subst map_blocks.simps) (simp add: arr_get_def)
    next
      case True
      then have dr2: "drop (Suc index) (maptable G) = maptable G ! Suc index # drop (Suc (Suc index)) (maptable G)"
        by (simp add: Cons_nth_drop_Suc)
      show ?thesis
      proof (cases "maptable G ! Suc index = 0")
        case z: True
        with None True t p less show ?thesis
          unfolding dr dr2 by (subst map_blocks.simps) (auto simp: arr_get_def)
      next
        case nz: False
        have run: "map_blocks E M G index (of_nat bytes) s = map_blocks E M G (Suc index) (of_nat bytes') t"
          using None True t nz less by (subst map_blocks.simps) (simp add: arr_get_def)
        have spec: "blocks_spec G flash eccr (drop index (maptable G)) bytes m =
            blocks_spec G flash eccr (drop (Suc index) (maptable G)) bytes' m'"
          unfolding dr using None nz p by (simp add: dr2)
        show ?thesis
          unfolding run spec by (rule Suc.hyps(1)) (use Suc.hyps(2) less t b' in auto)
      qed
    qed
  qed
qed

lemma readmapTable_spec:
  assumes "geometry G" "\<forall>e \<in> set (maptable G). aligned G e" "length (maptable G) = 20"
    and "loaded x (dev s)" "outside G m s"
  shows "case blocks_spec G flash eccr (maptable G) 0 m of
      None \<Rightarrow> readmapTable E M G s = None
    | Some (r, m') \<Rightarrow> \<exists>t y. readmapTable E M G s = Some (r, t) \<and> outside G m' t \<and> loaded y (dev t)"
proof -
  have "20 * (n_data G * ps G) \<le> 2 ^ 24"
    by (simp add: n_data_def block_bytes_def ps_def)
  moreover have run: "readmapTable E M G s = map_blocks E M G 0 (of_nat 0) s"
    by (simp add: readmapTable_def)
  ultimately show ?thesis
    unfolding run using map_blocks_spec [OF assms(1,2,4,5), of 0 0] assms(3) by (simp only: diff_zero drop_0 add_0 simp_thms)
qed

end

subsection \<open>What is in RAM afterwards\<close>

text \<open>The pages written one behind the other.\<close>

fun load_pages :: "nand_globals \<Rightarrow> (u32 \<Rightarrow> u8) \<Rightarrow> u32 list \<Rightarrow> nat \<Rightarrow> (u32 \<Rightarrow> u8) \<Rightarrow> u32 \<Rightarrow> u8" where
  "load_pages G flash [] bytes m = m"
| "load_pages G flash (offset # os) bytes m = load_pages G flash os (bytes + ps G) (load_page G flash bytes offset m)"

lemma load_pages_below:
  assumes "i < bytes" "bytes + length os * ps G \<le> 2 ^ 24"
  shows "load_pages G flash os bytes m (phys (dest i)) = m (phys (dest i))"
  using assms
proof (induction os arbitrary: bytes m)
  case (Cons a os)
  have "load_page G flash bytes a m (phys (dest i)) = m (phys (dest i))"
    unfolding load_page_def
  proof (rule overlay_off)
    fix j assume "j < ps G"
    then have "bytes + j < 2 ^ 24" "i < 2 ^ 24" using Cons.prems by auto
    then have "unat (phys (dest i)) \<noteq> unat (phys (dest (bytes + j)))"
      using Cons.prems(1) by (simp only: phys_dest)
    then show "phys (dest i) \<noteq> phys (dest bytes + of_nat j)"
      unfolding dest_add by metis
  qed
  with Cons show ?case by simp
qed simp

lemma load_pages_above:
  assumes "bytes + length os * ps G \<le> i" "i < 2 ^ 24"
  shows "load_pages G flash os bytes m (phys (dest i)) = m (phys (dest i))"
  using assms
proof (induction os arbitrary: bytes m)
  case (Cons a os)
  have "load_page G flash bytes a m (phys (dest i)) = m (phys (dest i))"
    unfolding load_page_def
  proof (rule overlay_off)
    fix j assume "j < ps G"
    then have "bytes + j < i" "bytes + j < 2 ^ 24" using Cons.prems by auto
    then have "unat (phys (dest i)) \<noteq> unat (phys (dest (bytes + j)))"
      using Cons.prems(2) by (simp only: phys_dest)
    then show "phys (dest i) \<noteq> phys (dest bytes + of_nat j)"
      unfolding dest_add by metis
  qed
  with Cons show ?case by simp
qed simp

lemma load_pages_at:
  assumes "q < length os" "i < ps G" "bytes + length os * ps G \<le> 2 ^ 24"
  shows "load_pages G flash os bytes m (phys (dest (bytes + q * ps G + i))) = flash (data_of (os ! q) + of_nat i)"
  using assms
proof (induction os arbitrary: q bytes m)
  case (Cons a os)
  show ?case
  proof (cases q)
    case 0
    have "load_pages G flash os (bytes + ps G) (load_page G flash bytes a m) (phys (dest (bytes + i))) =
        load_page G flash bytes a m (phys (dest (bytes + i)))"
      by (rule load_pages_below) (use Cons.prems in auto)
    also have "\<dots> = flash (data_of a + of_nat i)"
      unfolding load_page_def dest_add [symmetric] by (rule overlay_at [OF Cons.prems(2) ps_bounds(1)])
    finally show ?thesis using 0 by simp
  next
    case (Suc p)
    then show ?thesis
      using Cons.IH [of p "bytes + ps G" "load_page G flash bytes a m"] Cons.prems by (simp add: add.assoc)
  qed
qed simp

lemma load_pages_append:
  "load_pages G flash (os @ us) bytes m = load_pages G flash us (bytes + length os * ps G) (load_pages G flash os bytes m)"
  by (induction os arbitrary: bytes m) (simp_all add: add.assoc)

text \<open>The words \<open>checkErasedPage\<close> takes for the spare area are not where the image goes.\<close>

lemma end_page_load_page:
  assumes "geometry G" "bytes + ps G \<le> 2 ^ 24"
  shows "end_page G flash (load_page G flash bytes offset m) p = end_page G flash m p"
proof -
  have eq: "load_page G flash bytes offset m (phys (DDR_BUFFER2_ADDR + of_nat j)) = m (phys (DDR_BUFFER2_ADDR + of_nat j))"
    if "j < 0x1000" for j
    unfolding load_page_def
  proof (rule overlay_off)
    fix i assume "i < ps G"
    then have "unat (phys (dest (bytes + i))) = 0x800000 + (bytes + i)"
      by (intro phys_dest) (use assms(2) in simp)
    moreover have "unat (phys (0x80000000 + of_nat (0x100000 + j))) = 0x100000 + j"
      by (rule phys_windows(1)) (use that in simp)
    then have "unat (phys (DDR_BUFFER2_ADDR + of_nat j)) = 0x100000 + j"
      by (simp add: reg_defs add.assoc [symmetric])
    ultimately show "phys (DDR_BUFFER2_ADDR + of_nat j) \<noteq> phys (dest bytes + of_nat i)"
      unfolding dest_add using that by auto
  qed
  have "ecc45_at j (ramst (load_page G flash bytes offset m)) = ecc45_at j (ramst m)" if "j < 8" for j
  proof -
    have ad: "DDR_BUFFER2_ADDR + 32 + 8 * of_nat j + NAND_ECC_BYTE4 = DDR_BUFFER2_ADDR + of_nat (36 + 8 * j)"
      "DDR_BUFFER2_ADDR + 32 + 8 * of_nat j + NAND_ECC_BYTE5 = DDR_BUFFER2_ADDR + of_nat (37 + 8 * j)"
      by (simp_all add: reg_defs)
    show ?thesis
      using eq [of "36 + 8 * j"] eq [of "37 + 8 * j"] that
      unfolding ecc45_at_def Let_def ad ram_load8_def ramst_def by simp
  qed
  then have "erased_sections 0 (unat (num_sections (nand_chip G))) 0 (ramst (load_page G flash bytes offset m)) =
      erased_sections 0 (unat (num_sections (nand_chip G))) 0 (ramst m)"
    by (intro erased_sections_cong) (use sections_geometry [OF assms(1)] in auto)
  then show ?thesis by (simp add: end_page_def erased_def)
qed

lemma pages_spec_good:
  assumes "geometry G" "list_all (\<lambda>p. \<not> end_page G flash m p \<and> page_ok G eccr p) good" "bytes + length good * ps G \<le> 2 ^ 24"
  shows "pages_spec G flash eccr (good @ os) bytes m =
    pages_spec G flash eccr os (bytes + length good * ps G) (load_pages G flash good bytes m)"
  using assms(2,3)
proof (induction good arbitrary: bytes m)
  case (Cons a good)
  have e: "end_page G flash (load_page G flash bytes a m) p = end_page G flash m p" for p
    by (rule end_page_load_page [OF assms(1)]) (use Cons.prems in simp)
  show ?case
    using Cons.prems Cons.IH [of "load_page G flash bytes a m" "bytes + ps G"] by (simp add: Let_def e add.assoc)
qed simp

lemma end_page_load_pages:
  assumes "geometry G" "bytes + length os * ps G \<le> 2 ^ 24"
  shows "end_page G flash (load_pages G flash os bytes m) p = end_page G flash m p"
  using assms(2)
  by (induction os arbitrary: bytes m) (simp_all add: end_page_load_page [OF assms(1)])

lemma pages_spec_append:
  "pages_spec G flash eccr (os @ us) bytes m =
     (case pages_spec G flash eccr os bytes m of
        (Some r, b, m) \<Rightarrow> (Some r, b, m)
      | (None, b, m) \<Rightarrow> pages_spec G flash eccr us b m)"
  by (induction os arbitrary: bytes m) (simp_all add: Let_def)

lemma blocks_spec_concat:
  assumes "es \<noteq> []" "0 \<notin> set es"
  shows "blocks_spec G flash eccr (es @ 0 # rest) bytes m =
    (case pages_spec G flash eccr (concat (map (\<lambda>e. data_pages G e 0) es)) bytes m of
       (Some r, _, m) \<Rightarrow> Some (r, m) | (None, _, m) \<Rightarrow> Some (0, m))"
  using assms
proof (induction es arbitrary: bytes m)
  case (Cons e es)
  show ?case
  proof (cases es)
    case Nil
    then show ?thesis by (auto split: option.split prod.split)
  next
    case (Cons e' es')
    then show ?thesis
      using Cons.prems Cons.IH by (auto simp: pages_spec_append split: option.split prod.split)
  qed
qed simp

text \<open>The data pages of a map table are at most 2520.\<close>

lemma image_size:
  assumes "length mt = 20" "mt = es @ rest" "concat (map (\<lambda>e. data_pages G e 0) es) = good @ behind"
  shows "length good * ps G \<le> 2520 * 0x1000"
proof -
  have "length good \<le> length (concat (map (\<lambda>e. data_pages G e 0) es))"
    unfolding assms(3) by simp
  also have "\<dots> = length es * n_data G"
    by (simp add: length_concat data_pages_def comp_def sum_list_triv)
  also have "\<dots> \<le> 20 * n_data G"
    using assms(1) unfolding assms(2) by (intro mult_le_mono1) simp
  finally have "length good * ps G \<le> 20 * n_data G * ps G"
    by (rule mult_le_mono1)
  also have "\<dots> \<le> 2520 * 0x1000"
    by (simp add: n_data_def block_bytes_def ps_def)
  finally show ?thesis .
qed

lemma blocks_spec_loads:
  assumes "geometry G" "length mt = 20" "mt = es @ 0 # rest" "es \<noteq> []" "0 \<notin> set es"
    and "concat (map (\<lambda>e. data_pages G e 0) es) = good @ final # behind"
    and "list_all (\<lambda>p. \<not> end_page G flash m p \<and> page_ok G eccr p) good" "end_page G flash m final"
  obtains m' where "blocks_spec G flash eccr mt 0 m = Some (1, m')"
    "\<And>q i. q < length good \<Longrightarrow> i < ps G \<Longrightarrow> m' (phys (dest (q * ps G + i))) = flash (data_of (good ! q) + of_nat i)"
    "\<And>q i. q < length good \<Longrightarrow> i < ps G \<Longrightarrow> q * ps G + i < 2 ^ 24"
proof -
  let ?m = "load_pages G flash good 0 m"
  let ?m' = "load_page G flash (length good * ps G) final ?m"
  have len: "length (good @ [final]) * ps G \<le> 2520 * 0x1000"
    by (rule image_size [OF assms(2,3), where behind = behind]) (simp add: assms(6))
  have e: "end_page G flash ?m' final"
    using assms(8) end_page_load_page [OF assms(1)] end_page_load_pages [OF assms(1)] len by simp
  have "pages_spec G flash eccr (concat (map (\<lambda>e. data_pages G e 0) es)) 0 m = (Some 1, length good * ps G, ?m')"
    using e len unfolding assms(6) by (subst pages_spec_good [OF assms(1,7)]) (simp_all add: Let_def)
  then have spec: "blocks_spec G flash eccr mt 0 m = Some (1, ?m')"
    unfolding assms(3) blocks_spec_concat [OF assms(4,5)] by simp
  have m': "?m' = load_pages G flash (good @ [final]) 0 m"
    by (simp add: load_pages_append)
  have at: "?m' (phys (dest (q * ps G + i))) = flash (data_of (good ! q) + of_nat i)" if "q < length good" "i < ps G" for q i
    using load_pages_at [of q "good @ [final]" i G 0 flash m] that len unfolding m'
    by (simp add: nth_append)
  have "q * ps G + i < 2 ^ 24" if "q < length good" "i < ps G" for q i
  proof -
    have "Suc q * ps G \<le> length good * ps G" by (rule mult_le_mono1) (use that in simp)
    with that len show ?thesis by simp
  qed
  with that spec at show ?thesis by blast
qed

text \<open>
  The image in RAM: let the map table hold the blocks \<open>es\<close> and then 0, and let their pages of data be
  \<open>good\<close> ones, without uncorrectable errors, and then one that counts as the end. Then \<open>readmapTable\<close>
  returns 1 and every byte of the good pages is in RAM, in the order of the map table, page behind page
  from \<open>UBOOT_TEXT_BASE\<close> on.
\<close>

theorem readmapTable_loads:
  assumes "nand_part M E outs loaded flash eccr" "geometry G" "loaded x (dev s)"
    and "maptable G = es @ 0 # rest" "length (maptable G) = 20" "list_all (aligned G) (maptable G)" "es \<noteq> []" "0 \<notin> set es"
    and "concat (map (\<lambda>e. data_pages G e 0) es) = good @ final # behind"
    and "list_all (\<lambda>p. \<not> end_page G flash (mem s) p \<and> page_ok G eccr p) good" "end_page G flash (mem s) final"
    and "q < length good" "i < ps G"
  shows "\<exists>t. readmapTable E M G s = Some (1, t) \<and>
    ram_load8 (UBOOT_TEXT_BASE + of_nat (q * ps G + i)) t = flash (data_of (good ! q) + of_nat i)"
proof -
  obtain m' where m': "blocks_spec G flash eccr (maptable G) 0 (mem s) = Some (1, m')"
    "m' (phys (dest (q * ps G + i))) = flash (data_of (good ! q) + of_nat i)" "q * ps G + i < 2 ^ 24"
    using blocks_spec_loads [OF assms(2,5,4,7-11)] assms(12,13) by metis
  from nand_part.readmapTable_spec [OF assms(1,2) _ assms(5,3) outside_self] m'(1) assms(6) obtain t where
    t: "readmapTable E M G s = Some (1, t)" "outside G m' t"
    by (auto simp: list_all_iff)
  have "mem t (phys (dest (q * ps G + i))) = m' (phys (dest (q * ps G + i)))"
    using dest_apart [OF m'(3)] ps_bounds(2) [of G] by (intro outside_load [OF t(2)]) simp
  with t(1) m'(2) show ?thesis
    by (simp add: dest_def ram_load8_def)
qed

text \<open>
  The image cut short: on the chip of 2 KByte pages the end of the image is looked for in the spare
  area of the next page, which for the last page of a block is page 0 of the next block on the chip. If
  that block is erased, \<open>readmapTable\<close> returns success after the 62 pages of the first block and leaves RAM
  behind them as it was, however many blocks the map table holds.
\<close>

theorem readmapTable_cut_short:
  assumes "nand_part M E outs loaded flash eccr" "geometry G" "loaded x (dev s)" "\<not> is_4KB G"
    and "maptable G = data_start G (block_offset G b) # rest" "length (maptable G) = 20" "list_all (aligned G) (maptable G)"
    and "list_all (\<lambda>i. flash (data_of (block_offset G (Suc b)) + of_nat (0x800 + i)) = 0xFF) [0..<64]"
    and "list_all (\<lambda>k. \<not> end_page G flash (mem s) (data_start G (block_offset G b) + of_nat (k * ps G)) \<and>
      page_ok G eccr (data_start G (block_offset G b) + of_nat (k * ps G))) [0..<61]"
    and "62 * 0x800 \<le> i" "i < 2 ^ 24"
  shows "\<exists>t. readmapTable E M G s = Some (1, t) \<and> ram_load8 (UBOOT_TEXT_BASE + of_nat i) t = ram_load8 (UBOOT_TEXT_BASE + of_nat i) s"
proof -
  let ?e = "data_start G (block_offset G b)"
  let ?good = "map (\<lambda>k. ?e + of_nat (k * ps G)) [0..<61]" and ?final = "?e + of_nat (61 * ps G)"
  have ps: "ps G = 0x800" using assms(4) by (simp add: ps_def)
  have pages: "data_pages G ?e 0 = ?good @ [?final]"
  proof -
    have "n_data G = Suc 61" using assms(4) by (simp add: n_data_def block_bytes_def ps)
    then show ?thesis unfolding data_pages_def by (simp only: upt_Suc map_append list.map le0 if_True)
  qed
  let ?m = "load_pages G flash ?good 0 (mem s)"
  let ?m' = "load_page G flash (61 * ps G) ?final ?m"
  have nxt: "spare_of G ?final = data_of (block_offset G (Suc b)) + of_nat (0x800)"
    using assms(4) by (simp add: spare_of_def data_start_def block_offset_def block_bytes_def ps algebra_simps)
  have "nat (sint (oob_size (nand_chip G))) = 64"
    using assms(2,4) by (simp add: geometry_def chip_2KB_def)
  then have "erased G flash m ?final" for m
    using assms(8) unfolding erased_def nxt by (simp add: list_all_iff add.assoc)
  then have e: "end_page G flash m ?final" for m
    using assms(4) by (simp add: end_page_def)
  have good: "list_all (\<lambda>p. \<not> end_page G flash (mem s) p \<and> page_ok G eccr p) ?good"
    using assms(9) by (simp add: list_all_iff)
  have "pages_spec G flash eccr (data_pages G ?e 0) 0 (mem s) = (Some 1, 61 * ps G, ?m')"
    unfolding pages by (subst pages_spec_good [OF assms(2) good]) (simp_all only: pages_spec.simps Let_def e if_True
      length_map length_upt add_0 minus_nat.diff_0, simp_all add: ps)
  then have spec: "blocks_spec G flash eccr (maptable G) 0 (mem s) = Some (1, ?m')"
    unfolding assms(5) by simp
  from nand_part.readmapTable_spec [OF assms(1,2) _ assms(6,3) outside_self] spec assms(7) obtain t where
    t: "readmapTable E M G s = Some (1, t)" "outside G ?m' t"
    by (auto simp: list_all_iff)
  have m': "?m' = load_pages G flash (?good @ [?final]) 0 (mem s)"
    unfolding load_pages_append by simp
  have "?m' (phys (dest i)) = mem s (phys (dest i))"
    unfolding m' by (rule load_pages_above) (use assms(10,11) in \<open>simp_all add: ps\<close>)
  moreover have "mem t (phys (dest i)) = ?m' (phys (dest i))"
    using dest_apart [OF assms(11)] ps_bounds(2) [of G] by (intro outside_load [OF t(2)]) simp
  ultimately show ?thesis
    using t(1) by (simp add: dest_def ram_load8_def)
qed

end
