(* ===== verification/Nand_Uboot.thy ===== *)
theory Nand_Uboot
  imports Nand_Load
begin

unbundle bit_operations_syntax

section \<open>read\_uboot from strap to image\<close>

text \<open>
  The composition of the scans and the copy, the fallback to the spare volume, and a flash to run it on.
\<close>

subsection \<open>Both attempts\<close>

text \<open>The driver with the strap register of the system controller.\<close>

locale nand_boot = nand_part M E outs loaded flash eccr
  for M :: "'d machine" and E :: "'d nand_env" and outs loaded flash eccr +
  fixes strap :: u32
  assumes strap: "loaded x (dev s) \<Longrightarrow> \<exists>t. H_RD32 M (SCU rst_strp) s = (strap, t) \<and> frame s t \<and> loaded x (dev t)"

definition boot_globals :: "u32 \<Rightarrow> nand_globals \<Rightarrow> nand_globals" where
  "boot_globals strap G = G\<lparr>reset_reg_val := strap,
     nand_chip := (if strap AND 0x17 = 0x17 then chip_4KB else chip_2KB), crcTable := crcInit CRC32\<rparr>"

text \<open>One attempt: whether it succeeds, the globals, RAM outside of the page buffer.\<close>

definition attempt_spec ::
  "nand_globals \<Rightarrow> (u32 \<Rightarrow> u8) \<Rightarrow> (u32 \<Rightarrow> u32 \<Rightarrow> u16) \<Rightarrow> (u32 \<Rightarrow> u8) \<Rightarrow> nat \<Rightarrow>
     (bool \<times> nand_globals \<times> (u32 \<Rightarrow> u8)) option" where
  "attempt_spec G flash eccr m vol =
     (case layout_spec G flash m vol (blocks G) 0 of
        None \<Rightarrow> None
      | Some (v, r) \<Rightarrow>
          if v < 0 then Some (False, reserve r G, m)
          else (case vid_spec (reserve r G) flash eccr m v (blocks G) 0 (replicate 20 0) of
                  None \<Rightarrow> None
                | Some (q, mt) \<Rightarrow>
                    if q < 0 then Some (False, (reserve r G)\<lparr>maptable := mt\<rparr>, m)
                    else (case blocks_spec G flash eccr mt 0 m of
                            None \<Rightarrow> None
                          | Some (z, m) \<Rightarrow> Some (0 \<le> z, (reserve r G)\<lparr>maptable := mt\<rparr>, m))))"

text \<open>The spare volume is tried in the state the first attempt leaves.\<close>

definition uboot_spec ::
  "nand_globals \<Rightarrow> (u32 \<Rightarrow> u8) \<Rightarrow> (u32 \<Rightarrow> u32 \<Rightarrow> u16) \<Rightarrow> (u32 \<Rightarrow> u8) \<Rightarrow> (int \<times> nand_globals \<times> (u32 \<Rightarrow> u8)) option" where
  "uboot_spec G flash eccr m =
     (case attempt_spec G flash eccr m 0 of
        None \<Rightarrow> None
      | Some (True, G, m) \<Rightarrow> Some (0, G, m)
      | Some (False, G, m) \<Rightarrow>
          (case attempt_spec G flash eccr m 1 of
             None \<Rightarrow> None
           | Some (done, G, m) \<Rightarrow> Some (if done then 0 else -1, G, m)))"

lemma reserve_irrelevant [simp]:
  "is_4KB (reserve r G) = is_4KB G" "ps (reserve r G) = ps G" "geometry (reserve r G) = geometry G"
  "outside (reserve r G) m s = outside G m s" "blocks (reserve r G) = blocks G" "aligned (reserve r G) = aligned G"
  "nand_chip (reserve r G) = nand_chip G" "block_offset (reserve r G) = block_offset G" "n_blocks (reserve r G) = n_blocks G"
  by (simp_all add: reserve_def is_4KB_def ps_def geometry_def outside_def blanked_def blocks_def block_offset_def
      block_bytes_def n_blocks_def aligned_def fun_eq_iff split: option.split)

lemma blocks_maptable [simp]: "blocks (G\<lparr>maptable := x\<rparr>) = blocks G"
  by (simp add: blocks_def)

text \<open>The copy looks at the chip alone.\<close>

lemma blocks_spec_chip:
  assumes "is_4KB G' = is_4KB G" "nand_chip G' = nand_chip G"
  shows "blocks_spec G' flash eccr es bytes m = blocks_spec G flash eccr es bytes m"
proof -
  have p: "ps G' = ps G" "block_bytes G' = block_bytes G" using assms(1) by (simp_all add: ps_def block_bytes_def)
  have sp: "spare_of G' = spare_of G" by (simp add: spare_of_def p fun_eq_iff)
  have er: "end_page G' flash m o' = end_page G flash m o'" "page_ok G' eccr o' = page_ok G eccr o'" for m o'
    by (simp_all add: end_page_def erased_def page_ok_def sp p assms)
  have pg: "pages_spec G' flash eccr os b m = pages_spec G flash eccr os b m" for os b m
    by (induction os arbitrary: b m) (simp_all add: Let_def load_page_def er p)
  have d: "data_pages G' e i = data_pages G e i" for e i
    by (simp add: data_pages_def n_data_def p)
  show ?thesis
    by (induction es arbitrary: bytes m) (auto simp: pg d split: option.split prod.split list.split)
qed

lemma vid_spec_table:
  assumes "vid_spec G flash eccr m v os n mt = Some (q, mt')" "\<forall>o' \<in> set os. aligned G o'" "\<forall>e \<in> set mt. aligned G e"
  shows "length mt' = length mt \<and> (\<forall>e \<in> set mt'. aligned G e)"
  using assms
proof (induction os arbitrary: n mt)
  case (Cons o' os)
  have al: "aligned G (o' + of_nat (2 * ps G))"
    using Cons.prems(2) by (intro aligned_add aligned_page) simp
  show ?case
  proof (cases "vid_candidate G flash eccr m v o' \<and> vid_good G flash eccr o' \<and> unat (page_word G flash o' 12) < length mt")
    case True
    let ?mt = "mt[unat (page_word G flash o' 12) := o' + of_nat (2 * ps G)]"
    have a: "\<forall>e \<in> set ?mt. aligned G e"
      using Cons.prems(3) al by (auto dest: set_update_subset_insert [THEN subsetD])
    show ?thesis
    proof (cases "ubootReservedBlocks G \<le> n + 1")
      case r: True
      with True a Cons.prems(1) show ?thesis by (auto simp: arr_set_def)
    next
      case r: False
      with True Cons.prems(1) have "vid_spec G flash eccr m v os (n + 1) ?mt = Some (q, mt')"
        by (simp add: arr_set_def)
      from Cons.IH [OF this _ a] Cons.prems(2) show ?thesis by simp
    qed
  next
    case False
    with Cons.prems Cons.IH [of n mt] show ?thesis
      by (auto simp: arr_set_def split: if_splits)
  qed
qed simp

lemma blocks_aligned: "\<forall>o' \<in> set (blocks G). aligned G o'"
  by (auto simp: blocks_def aligned_block)

lemma aligned_0 [simp]: "aligned G 0"
  using aligned_page [of G 0] by simp

lemma attempt_spec_globals:
  assumes "attempt_spec G flash eccr m vol = Some (good, G', m')"
  shows "is_4KB G' = is_4KB G" "geometry G' = geometry G" "outside G' n s = outside G n s"
  using assms by (auto simp: attempt_spec_def split: option.splits prod.splits if_splits)

context nand_part
begin

lemma uboot_attempt_spec:
  assumes g: "geometry G" and s: "loaded x (dev s)" "outside G m s"
  shows "case attempt_spec G flash eccr m vol of
      None \<Rightarrow> uboot_attempt E M vol G s = None
    | Some (good, G', m') \<Rightarrow> \<exists>t y. uboot_attempt E M vol G s =
          Some (if good then Some 0 else if vol \<noteq> 0 then Some (-1) else None, G', t) \<and>
        outside G m' t \<and> loaded y (dev t)"
proof -
  have say: "\<exists>u. c_put_str M cs t = Some u \<and> outside G m' u \<and> loaded y (dev u)"
    if "0 \<notin> set cs" "outside G m' t" "loaded y (dev t)" for cs m' t y
    using put_strE [OF that(3,1)] outside_frame that(2) by metis
  have say2: "\<exists>u. c_put_char M c t = Some u \<and> outside G m' u \<and> loaded y (dev u)"
    if "outside G m' t" "loaded y (dev t)" for c m' t y
    using putE [OF that(2)] outside_frame that(1) by metis
  show ?thesis
  proof (cases "layout_spec G flash m vol (blocks G) 0")
    case None
    with scanlayoutv_spec [OF g s, of vol] show ?thesis
      by (simp add: attempt_spec_def uboot_attempt_def blocks_def)
  next
    case (Some vr)
    obtain v r where vr: "vr = (v, r)" by (metis prod.exhaust)
    obtain t y where t: "scanlayoutv E M vol G s = Some (v, reserve r G, t)" "outside G m t" "loaded y (dev t)"
      using scanlayoutv_spec [OF g s, of vol] Some vr by (auto simp: blocks_def)
    let ?G = "reserve r G"
    obtain u1 where u1: "c_put_str M (str ''Uboot layout Scan failed.Switching to Backup Volume'') t = Some u1"
      "outside G m u1" "loaded y (dev u1)"
      using say [OF _ t(2,3), of "str ''Uboot layout Scan failed.Switching to Backup Volume''"] by (auto simp: str_def)
    obtain u2 where u2: "c_put_char M 0x0D u1 = Some u2" "outside G m u2" "loaded y (dev u2)"
      using say2 [OF u1(2,3)] by blast
    obtain u3 where u3: "c_put_char M 0x0A u2 = Some u3" "outside G m u3" "loaded y (dev u3)"
      using say2 [OF u2(2,3)] by blast
    show ?thesis
    proof (cases "v < 0")
      case True
      have "attempt_spec G flash eccr m vol = Some (False, ?G, m)"
        by (simp add: attempt_spec_def Some vr True)
      with True t u1(1) u2(1) u3 show ?thesis
        by (auto simp: uboot_attempt_def)
    next
      case v: False
      show ?thesis
      proof (cases "vid_spec ?G flash eccr m v (blocks G) 0 (replicate 20 0)")
        case None
        have "attempt_spec G flash eccr m vol = None"
          using v None by (simp add: attempt_spec_def Some vr)
        with v t None scanvid_spec [of ?G y t m v] g show ?thesis
          by (simp add: uboot_attempt_def blocks_def)
      next
        case q: (Some p)
        obtain q mt where p: "p = (q, mt)" by (metis prod.exhaust)
        let ?H = "?G\<lparr>maptable := mt\<rparr>"
        obtain w z where w: "scanvid E M v ?G t = Some (q, ?H, w)" "outside G m w" "loaded z (dev w)"
          using scanvid_spec [of ?G y t m v] g t q p by (auto simp: blocks_def)
        obtain w1 where w1: "c_put_str M (str ''Uboot Volume ID failed. Switching to Backup Volume'' @ [0x0A]) w = Some w1"
          "outside G m w1" "loaded z (dev w1)"
          using say [OF _ w(2,3), of "str ''Uboot Volume ID failed. Switching to Backup Volume'' @ [0x0A]"]
          by (auto simp: str_def)
        show ?thesis
        proof (cases "q < 0")
          case True
          have "attempt_spec G flash eccr m vol = Some (False, ?H, m)"
            using v by (simp add: attempt_spec_def Some vr q p True)
          with True v t(1) w w1 show ?thesis
            by (auto simp: uboot_attempt_def)
        next
          case q0: False
          obtain w2 where w2: "c_put_str M (str ''STAGE2.'' @ [0x0A]) w = Some w2" "outside G m w2" "loaded z (dev w2)"
            using say [OF _ w(2,3), of "str ''STAGE2.'' @ [0x0A]"] by (auto simp: str_def)
          have mt: "length mt = 20" "\<forall>e \<in> set mt. aligned G e"
            using vid_spec_table [OF q [unfolded p], of] blocks_aligned [of ?G] by auto
          have H: "geometry ?H" "\<forall>e \<in> set (maptable ?H). aligned ?H e" "length (maptable ?H) = 20" "outside ?H m w2"
            using g mt w2(2) by simp_all
          have bs: "blocks_spec ?H flash eccr (maptable ?H) 0 m = blocks_spec G flash eccr mt 0 m"
            by (subst blocks_spec_chip [where G = G]) simp_all
          note rm = readmapTable_spec [OF H(1-3) w2(3) H(4), unfolded bs]
          show ?thesis
          proof (cases "blocks_spec G flash eccr mt 0 m")
            case None
            have "attempt_spec G flash eccr m vol = None"
              using v q0 None by (simp add: attempt_spec_def Some vr q p)
            with None rm v q0 t(1) w(1) w2(1) show ?thesis
              by (simp add: uboot_attempt_def)
          next
            case b: (Some zm)
            obtain k m' where k: "zm = (k, m')" by (metis prod.exhaust)
            have sp: "attempt_spec G flash eccr m vol = Some (0 \<le> k, ?H, m')"
              using v q0 by (simp add: attempt_spec_def Some vr q p b k)
            obtain t1 y1 where t1: "readmapTable E M ?H w2 = Some (k, t1)" "outside G m' t1" "loaded y1 (dev t1)"
              using rm b k by auto
            obtain t2 where t2: "c_put_char M (of_char (CHR ''B'')) t1 = Some t2" "outside G m' t2" "loaded y1 (dev t2)"
              using say2 [OF t1(2,3)] by blast
            obtain t3 where t3: "c_put_char M (of_char (CHR ''3'')) t2 = Some t3" "outside G m' t3" "loaded y1 (dev t3)"
              using say2 [OF t2(2,3)] by blast
            obtain t4 where t4: "c_put_str M (str ''EAB Table Read failed. Switching to Backup Volume'' @ [0x0A]) t3 = Some t4"
              "outside G m' t4" "loaded y1 (dev t4)"
              using say [OF _ t3(2,3), of "str ''EAB Table Read failed. Switching to Backup Volume'' @ [0x0A]"]
              by (auto simp: str_def)
            let ?booting = "if vol = 0 then c_put_str M (str ''Booting from Primary Uboot Volume.'' @ [0x0A]) t1
              else c_put_str M (str ''Error in Primary Uboot Volume!!Booting from Backup Uboot Volume'' @ [0x0A]) t1"
            have nz: "0 \<notin> set (str ''Booting from Primary Uboot Volume.'' @ [0x0A])"
              "0 \<notin> set (str ''Error in Primary Uboot Volume!!Booting from Backup Uboot Volume'' @ [0x0A])"
              by (simp_all add: str_def)
            obtain t5 where t5: "?booting = Some t5" "outside G m' t5" "loaded y1 (dev t5)"
              using say [OF nz(1) t1(2,3)] say [OF nz(2) t1(2,3)] by (cases "vol = 0") auto
            note run = uboot_attempt_def t(1) w(1) w2(1) t1(1) t2(1) [simplified] t3(1) [simplified] t4(1) t5(1)
            show ?thesis
            proof (cases "k < 0")
              case True
              then have "uboot_attempt E M vol G s = Some (if vol \<noteq> 0 then Some (-1) else None, ?H, if vol \<noteq> 0 then t1 else t4)"
                using v q0 by (simp add: run del: c_put_str.simps)
              with True t1 t4 show ?thesis unfolding sp by auto
            next
              case False
              then have "uboot_attempt E M vol G s = Some (Some 0, ?H, t5)"
                using v q0 by (simp add: run del: c_put_str.simps)
              with False t5 show ?thesis unfolding sp by auto
            qed
          qed
        qed
      qed
    qed
  qed
qed

end

lemma geometry_boot: "geometry (boot_globals strap G)"
  by (simp add: geometry_def is_4KB_def boot_globals_def reg_defs)

context nand_boot
begin

lemma nand_init_boot:
  assumes "loaded x (dev s)"
  obtains t where "nand_init M G s = ((boot_globals strap G)\<lparr>crcTable := crcTable G\<rparr>, t)" "frame s t" "loaded x (dev t)"
proof -
  obtain t where t: "H_RD32 M (SCU rst_strp) s = (strap, t)" "frame s t" "loaded x (dev t)"
    using strap [OF assms] by blast
  have "fst (nand_init M G s) = (boot_globals strap G)\<lparr>crcTable := crcTable G\<rparr>"
    unfolding nand_init_def t(1)
    by (cases "nand_chip G") (simp add: Let_def boot_globals_def reg_defs chip_4KB_def chip_2KB_def)
  moreover have "snd (nand_init M G s) = t"
    by (simp add: nand_init_def t(1) Let_def)
  ultimately show ?thesis
    using that [of t] t by (cases "nand_init M G s") simp
qed

lemma read_uboot_spec:
  assumes "loaded x (dev s)"
  shows "case uboot_spec (boot_globals strap G) flash eccr (mem s) of
      None \<Rightarrow> read_uboot E M G s = None
    | Some (r, G', m') \<Rightarrow> \<exists>t. read_uboot E M G s = Some (r, G', t) \<and> outside G' m' t"
proof -
  let ?G = "boot_globals strap G"
  obtain t where t: "nand_init M G s = (?G\<lparr>crcTable := crcTable G\<rparr>, t)" "frame s t" "loaded x (dev t)"
    using nand_init_boot [OF assms] .
  have run: "read_uboot E M G s = uboot_loop E M 0 2 ?G t"
    by (simp add: read_uboot_def t(1) MAX_VOLUMES_UBOOT_def boot_globals_def)
  have ot: "outside ?G (mem s) t"
    by (rule outside_frame [OF t(2) outside_self])
  note first = uboot_attempt_spec [OF geometry_boot t(3) ot, of 0]
  show ?thesis
  proof (cases "attempt_spec ?G flash eccr (mem s) 0")
    case None
    with first show ?thesis
      by (simp add: run uboot_spec_def numeral_2_eq_2)
  next
    case (Some p)
    obtain good G1 m1 where p: "p = (good, G1, m1)" by (metis prod.exhaust)
    obtain u y where u: "uboot_attempt E M 0 ?G t = Some (if good then Some 0 else None, G1, u)" "outside ?G m1 u" "loaded y (dev u)"
      using first Some p by auto
    have G1: "is_4KB G1 = is_4KB ?G" "geometry G1" "\<And>m (s :: 'd sys). outside G1 m s = outside ?G m s"
      using attempt_spec_globals [OF Some [unfolded p]] geometry_boot [of strap G] by auto
    show ?thesis
    proof (cases good)
      case True
      with u Some p G1(3) show ?thesis
        by (simp add: run uboot_spec_def numeral_2_eq_2)
    next
      case False
      have "outside G1 m1 u" using u(2) G1(3) by simp
      note second = uboot_attempt_spec [OF G1(2) u(3) this, of 1]
      show ?thesis
      proof (cases "attempt_spec G1 flash eccr m1 1")
        case None
        with second False u Some p show ?thesis
          by (simp add: run uboot_spec_def numeral_2_eq_2)
      next
        case (Some p2)
        obtain good2 G2 m2 where p2: "p2 = (good2, G2, m2)" by (metis prod.exhaust)
        obtain w where w: "uboot_attempt E M 1 G1 u = Some (if good2 then Some 0 else Some (-1), G2, w)" "outside G1 m2 w"
          using second Some p2 by auto
        have "outside G2 m2 w"
          using attempt_spec_globals [OF Some [unfolded p2]] w(2) by auto
        with w False u Some p2 \<open>attempt_spec ?G flash eccr (mem s) 0 = Some p\<close> p show ?thesis
          by (simp add: run uboot_spec_def numeral_2_eq_2)
      qed
    qed
  qed
qed

end

text \<open>
  C7. \<open>read_uboot\<close> computes its specification: it takes the chip from the strap register, tries the primary
  volume and, unless that is loaded, the spare one, and returns 0 if one of them is loaded and \<open>-1\<close>
  otherwise. The end of the function without a return statement is not reached.
\<close>

theorem read_uboot_refines:
  assumes "nand_boot M E outs loaded flash eccr strap" "loaded x (dev s)"
  shows "map_option (\<lambda>(r, G', t). (r, G')) (read_uboot E M G s) =
    map_option (\<lambda>(r, G', m). (r, G')) (uboot_spec (boot_globals strap G) flash eccr (mem s))"
proof (cases "uboot_spec (boot_globals strap G) flash eccr (mem s)")
  case None
  with nand_boot.read_uboot_spec [OF assms, of G] show ?thesis by simp
next
  case (Some p)
  with nand_boot.read_uboot_spec [OF assms, of G] show ?thesis by (cases p) auto
qed

subsection \<open>A volume that boots\<close>

text \<open>
  \<open>bl L\<close> is the block of logical number \<open>L\<close>, for all \<open>L\<close> below \<open>n\<close>: the flash holds exactly these blocks
  of volume \<open>v\<close> among those that count.
\<close>

definition volume_blocks ::
  "nand_globals \<Rightarrow> (u32 \<Rightarrow> u8) \<Rightarrow> (u32 \<Rightarrow> u32 \<Rightarrow> u16) \<Rightarrow> (u32 \<Rightarrow> u8) \<Rightarrow> int \<Rightarrow> u32 list \<Rightarrow> bool" where
  "volume_blocks G flash eccr m v bl \<longleftrightarrow>
     complete G flash eccr m v \<and> length (used_blocks G flash eccr m v) = length bl \<and>
     list_all (\<lambda>L. bl ! L \<in> set (used_blocks G flash eccr m v) \<and> leb G flash (bl ! L) = L) [0..<length bl]"

lemma volume_table:
  assumes "volume_blocks G flash eccr m v bl" "length bl < 20"
  shows "foldl (enter G flash) (replicate 20 0) (used_blocks G flash eccr m v) =
    map (data_start G) bl @ replicate (20 - length bl) 0"
proof (rule nth_equalityI)
  let ?cs = "used_blocks G flash eccr m v"
  have small: "\<forall>c \<in> set ?cs. leb G flash c < length (replicate 20 (0 :: u32))"
    using assms(1) by (simp add: volume_blocks_def complete_def list_all_iff)
  then show "length (foldl (enter G flash) (replicate 20 0) ?cs) = length (map (data_start G) bl @ replicate (20 - length bl) 0)"
    using foldl_enter(1) [OF small] assms(2) by simp
  have bl: "bl ! L \<in> set ?cs" "leb G flash (bl ! L) = L" if "L < length bl" for L
    using assms(1) that by (simp_all add: volume_blocks_def list_all_iff)
  have "set bl \<subseteq> set ?cs" using bl(1) by (auto simp: in_set_conv_nth)
  moreover have db: "distinct bl"
    by (rule distinct_conv_nth [THEN iffD2]) (metis bl(2))
  ultimately have sub: "set ?cs = set bl"
    using assms(1) card_seteq [of "set ?cs" "set bl"] card_length [of ?cs] distinct_card [OF db]
    by (simp add: volume_blocks_def)
  then have "card (set ?cs) = length ?cs"
    using distinct_card [OF db] assms(1) by (simp add: volume_blocks_def)
  then have dc: "distinct ?cs" by (rule card_distinct)
  have inj: "inj_on (leb G flash) (set ?cs)"
    unfolding sub by (rule inj_onI) (metis bl(2) in_set_conv_nth)
  have dl: "distinct (map (leb G flash) ?cs)"
    using dc inj by (simp add: distinct_map)
  fix L assume "L < length (foldl (enter G flash) (replicate 20 0) ?cs)"
  then have L: "L < 20" using foldl_enter(1) [OF small] by simp
  show "foldl (enter G flash) (replicate 20 0) ?cs ! L = (map (data_start G) bl @ replicate (20 - length bl) 0) ! L"
  proof (cases "L < length bl")
    case True
    have "filter (\<lambda>d. leb G flash d = L) ?cs = [bl ! L]"
      using filter_distinct_map [OF dl bl(1) [OF True]] bl(2) [OF True] by simp
    then show ?thesis
      using foldl_enter(2) [OF small, of L] L True by (simp add: nth_append)
  next
    case False
    have "filter (\<lambda>d. leb G flash d = L) ?cs = []"
      unfolding filter_empty_conv sub using False bl(2) by (metis in_set_conv_nth)
    then show ?thesis
      using foldl_enter(2) [OF small, of L] L False by (simp add: nth_append)
  qed
qed

lemma data_start_nonzero: "offset \<in> set (blocks G) \<Longrightarrow> data_start G offset \<noteq> 0"
proof
  assume "offset \<in> set (blocks G)" and z: "data_start G offset = 0"
  then obtain b where b: "1 \<le> b" "b < n_blocks G" "offset = block_offset G b"
    by (auto simp: blocks_def)
  have "b * block_bytes G + 2 * ps G < 2 ^ 32"
    using b(2) by (auto simp: n_blocks_def block_bytes_def ps_def split: if_splits)
  then have "unat (data_start G offset) = b * block_bytes G + 2 * ps G"
    unfolding data_start_def b(3) block_offset_def of_nat_add [symmetric]
    by (simp add: unsigned_of_nat take_bit_nat_eq_self del: of_nat_add of_nat_mult)
  then show False using z ps_bounds(4) [of G] by simp
qed

text \<open>The volume table names the volume.\<close>

lemma layout_spec_named:
  assumes "layout_blocks B flash m = c # cs" "named_first 0 k (table_ram B flash m c)" "k \<le> 128"
    and "record_valid (crcTable B) k (table_ram B flash m c)"
    and "reserved_pebs (vtbl_record_at (record_at k) (table_ram B flash m c)) = n"
  shows "layout_spec B flash m 0 (blocks B) 0 = Some (int k, Some n)"
  using layout_table_named [OF assms(2), of 0] layout_blocks_candidate [OF assms(1)] assms(1,3-5)
  by (subst layout_spec_filter) (simp add: layout_blocks_def)

text \<open>The scan gives the map of the volume, which starts the copy.\<close>

lemma volume_used:
  assumes "volume_blocks B flash eccr m v bl"
  shows "bl \<noteq> []" "set bl \<subseteq> set (blocks B)"
proof -
  show "bl \<noteq> []"
    using assms by (auto simp: volume_blocks_def complete_def used_blocks_def word_less_nat_alt)
  have "set bl \<subseteq> set (used_blocks B flash eccr m v)"
    using assms by (auto simp: volume_blocks_def list_all_iff in_set_conv_nth)
  then show "set bl \<subseteq> set (blocks B)"
    unfolding used_blocks_def vid_blocks_def using set_take_subset [of _ "filter (vid_candidate B flash eccr m v) (blocks B)"]
    by fastforce
qed

lemma vid_spec_volume:
  assumes "volume_blocks B flash eccr m v bl" "length bl < 20"
  shows "vid_spec B flash eccr m v (blocks B) 0 (replicate 20 0) = Some (0, map (data_start B) bl @ replicate (20 - length bl) 0)"
  using vid_spec_complete [of B flash eccr m v] volume_table [OF assms] assms(1) by (simp add: volume_blocks_def)

lemma volume_loads:
  assumes g: "geometry B" and v: "volume_blocks B flash eccr m v bl" "length bl < 20"
    and pages: "concat (map (\<lambda>offset. data_pages B (data_start B offset) 0) bl) = good @ final # behind"
    and good: "list_all (\<lambda>p. \<not> end_page B flash m p \<and> page_ok B eccr p) good" "end_page B flash m final"
    and "q < length good" "i < ps B"
  shows "\<exists>m'. blocks_spec B flash eccr (map (data_start B) bl @ replicate (20 - length bl) 0) 0 m = Some (1, m') \<and>
    m' (phys (dest (q * ps B + i))) = flash (data_of (good ! q) + of_nat i) \<and> q * ps B + i < 2 ^ 24"
proof -
  have mt: "map (data_start B) bl @ replicate (20 - length bl) 0 = map (data_start B) bl @ 0 # replicate (19 - length bl) 0"
    "length (map (data_start B) bl @ replicate (20 - length bl) 0) = 20"
    using v(2) by (simp_all flip: replicate_Suc add: Suc_diff_Suc [symmetric] Suc_diff_le)
  have nonzero: "map (data_start B) bl \<noteq> []" "0 \<notin> set (map (data_start B) bl)"
    using volume_used [OF v(1)] data_start_nonzero [of _ B] by (auto simp: image_iff)
  have "concat (map (\<lambda>e. data_pages B e 0) (map (data_start B) bl)) = good @ final # behind"
    using pages by (simp add: comp_def)
  from blocks_spec_loads [OF g mt(2,1) nonzero this good] assms(7,8) show ?thesis by metis
qed

text \<open>Together: the specification of a volume that boots.\<close>

lemma uboot_spec_boots:
  assumes "B = boot_globals strap G"
    and "layout_blocks B flash m = c # cs" "named_first 0 k (table_ram B flash m c)" "k \<le> 128"
    and "record_valid (crcInit CRC32) k (table_ram B flash m c)"
    and "reserved_pebs (vtbl_record_at (record_at k) (table_ram B flash m c)) = n"
    and v: "volume_blocks (B\<lparr>ubootReservedBlocks := n\<rparr>) flash eccr m (int k) bl" "length bl < 20"
    and "concat (map (\<lambda>offset. data_pages B (data_start B offset) 0) bl) = good @ final # behind"
    and "list_all (\<lambda>p. \<not> end_page B flash m p \<and> page_ok B eccr p) good" "end_page B flash m final"
    and "q < length good" "i < ps B"
  shows "\<exists>G' m'. uboot_spec (boot_globals strap G) flash eccr m = Some (0, G', m') \<and>
    m' (phys (dest (q * ps B + i))) = flash (data_of (good ! q) + of_nat i) \<and> q * ps B + i < 2 ^ 24"
proof -
  let ?B = "B\<lparr>ubootReservedBlocks := n\<rparr>"
  have g: "geometry B" and crc: "crcTable B = crcInit CRC32"
    unfolding assms(1) by (rule geometry_boot, simp add: boot_globals_def)
  have r: "?B = reserve (Some n) B" by (simp add: reserve_def)
  note irr = reserve_irrelevant [of "Some n" B] blocks_spec_chip [of ?B B flash eccr]
  have dp: "data_start ?B = data_start B" "data_pages ?B = data_pages B" "end_page ?B flash m = end_page B flash m"
    "page_ok ?B eccr = page_ok B eccr"
    unfolding r by (simp_all add: data_start_def data_pages_def n_data_def block_bytes_def end_page_def erased_def
        spare_of_def page_ok_def fun_eq_iff)
  have lay: "layout_spec B flash m 0 (blocks B) 0 = Some (int k, Some n)"
    using layout_spec_named [OF assms(2-4) _ assms(6)] assms(5) crc by simp
  have vid: "vid_spec ?B flash eccr m (int k) (blocks B) 0 (replicate 20 0) =
      Some (0, map (data_start B) bl @ replicate (20 - length bl) 0)"
    using vid_spec_volume [OF v] dp irr unfolding r by simp
  have "geometry ?B" using g irr unfolding r by simp
  from volume_loads [OF this v, unfolded dp, OF assms(9-12), of i] assms(13)
  obtain m' where m': "blocks_spec B flash eccr (map (data_start B) bl @ replicate (20 - length bl) 0) 0 m = Some (1, m')"
    "m' (phys (dest (q * ps B + i))) = flash (data_of (good ! q) + of_nat i)" "q * ps B + i < 2 ^ 24"
    unfolding r irr(2) blocks_spec_chip [OF irr(1,7)] by blast
  have "uboot_spec (boot_globals strap G) flash eccr m =
      Some (0, ?B\<lparr>maptable := map (data_start B) bl @ replicate (20 - length bl) 0\<rparr>, m')"
    using lay vid m'(1) unfolding assms(1) [symmetric] uboot_spec_def attempt_spec_def by (simp add: reserve_def)
  with m'(2,3) show ?thesis by blast
qed

text \<open>A run of the loader that ends leaves the image the specification gives.\<close>

context nand_boot
begin

lemma read_uboot_image:
  assumes "loaded x (dev s)" "uboot_spec (boot_globals strap G) flash eccr (mem s) = Some (r, G', m')" "k < 2 ^ 24"
  shows "\<exists>t. read_uboot E M G s = Some (r, G', t) \<and> ram_load8 (dest k) t = m' (phys (dest k))"
proof -
  from read_uboot_spec [OF assms(1), of G] assms(2) obtain t where
    t: "read_uboot E M G s = Some (r, G', t)" "outside G' m' t" by auto
  have "mem t (phys (dest k)) = m' (phys (dest k))"
    using dest_apart [OF assms(3)] ps_bounds(2) [of G'] by (intro outside_load [OF t(2)]) simp
  with t(1) show ?thesis by (simp add: ram_load8_def)
qed

end

text \<open>
  C3. U-Boot boots: let the first copy of the volume table have a valid record \<open>k\<close> for \<open>uboot\<close> with \<open>n\<close>
  reserved blocks, let the blocks of volume \<open>k\<close> that count be \<open>bl\<close>, with the logical numbers 0, 1 and so on, at
  most 19 of them, in any order on the chip, and let their pages of data be \<open>good\<close> ones and then the end of
  the image. Then \<open>read_uboot\<close> returns 0, and every byte of the good pages is in RAM from \<open>UBOOT_TEXT_BASE\<close>
  on, in the order of the logical numbers.
\<close>

theorem read_uboot_boots:
  assumes "nand_boot M E outs loaded flash eccr strap" "loaded x (dev s)" "B = boot_globals strap G"
    and "layout_blocks B flash (mem s) = c # cs" "named_first 0 k (table_ram B flash (mem s) c)" "k \<le> 128"
    and "record_valid (crcInit CRC32) k (table_ram B flash (mem s) c)"
    and "reserved_pebs (vtbl_record_at (record_at k) (table_ram B flash (mem s) c)) = n"
    and "volume_blocks (B\<lparr>ubootReservedBlocks := n\<rparr>) flash eccr (mem s) (int k) bl" "length bl < 20"
    and "concat (map (\<lambda>offset. data_pages B (data_start B offset) 0) bl) = good @ final # behind"
    and "list_all (\<lambda>p. \<not> end_page B flash (mem s) p \<and> page_ok B eccr p) good" "end_page B flash (mem s) final"
    and "q < length good" "i < ps B"
  shows "\<exists>G' t. read_uboot E M G s = Some (0, G', t) \<and>
    ram_load8 (UBOOT_TEXT_BASE + of_nat (q * ps B + i)) t = flash (data_of (good ! q) + of_nat i)"
proof -
  obtain G' m' where spec: "uboot_spec (boot_globals strap G) flash eccr (mem s) = Some (0, G', m')"
    "m' (phys (dest (q * ps B + i))) = flash (data_of (good ! q) + of_nat i)" "q * ps B + i < 2 ^ 24"
    using uboot_spec_boots [OF assms(3-15)] by blast
  from nand_boot.read_uboot_image [OF assms(1,2) spec(1,3)] spec(2) show ?thesis by (metis dest_def)
qed

end
