(* ===== verification/Nand_Demo.thy ===== *)
theory Nand_Demo
  imports Nand_Uboot
begin

unbundle bit_operations_syntax

section \<open>The loader on concrete flashes\<close>

text \<open>
  Flash contents for the properties of the NAND loader, on the board of \<open>Nand_Read\<close>: the chip of 4 KByte
  pages given by the bytes at the start of its pages, the rest erased, with a volume table, headers and
  data, and one image on the chip of 2 KByte pages. The checksums in the pages are those the code computes.
\<close>

interpretation nand_board_boot: nand_boot "nand_machine strap flash" "nand_machine_env strap flash eccr" nouts
  "\<lambda>x d. True \<and> nidx d = x" flash eccr strap for strap flash eccr
proof (intro nand_boot.intro nand_board.part.nand_part_axioms nand_boot_axioms.intro)
  show "True \<and> nidx (dev s) = x \<Longrightarrow>
      \<exists>t. H_RD32 (nand_machine strap flash) (SCU rst_strp) s = (strap, t) \<and> frame s t \<and> True \<and> nidx (dev t) = x" for s x
    by (simp add: H_RD32_def reg_defs uart_defs)
qed

subsection \<open>A flash from its pages\<close>

definition byte_at :: "u8 list \<Rightarrow> nat \<Rightarrow> u8" where
  "byte_at xs i = (if i < length xs then xs ! i else 0xFF)"

definition flash_pages :: "(nat \<Rightarrow> nat \<Rightarrow> u8 list) \<Rightarrow> u32 \<Rightarrow> u8" where
  "flash_pages pages x =
     (let b = unat x div 0x100000; r = unat x mod 0x100000
      in if r mod 0x2000 < 0x1000 then byte_at (pages b (r div 0x2000)) (r mod 0x2000) else 0xFF)"

definition big_chip :: nand_globals where
  "big_chip = \<lparr>reset_reg_val = 0x17, nand_chip = chip_4KB, maptable = replicate 20 0, ubootReservedBlocks = 2,
     crcTable = crcInit CRC32\<rparr>"

lemma big_chip [simp]:
  "is_4KB big_chip" "geometry big_chip" "ps big_chip = 0x1000" "block_bytes big_chip = 0x80000"
  "crcTable big_chip = crcInit CRC32" "ubootReservedBlocks big_chip = 2" "length (maptable big_chip) = 20"
  by (simp_all add: is_4KB_def big_chip_def geometry_def ps_def block_bytes_def reg_defs)

lemma n_big_chip: "n_blocks big_chip = 2047"
  by (simp add: n_blocks_def)

lemma flash_pages_at:
  assumes "b < 2047" "k < 128" "i < 0x1000"
  shows "flash_pages pages (page_of big_chip (block_offset big_chip b) k + of_nat i) = byte_at (pages b k) i"
    "flash_pages pages (page_of big_chip (block_offset big_chip b) k + of_nat (0x1000 + i)) = 0xFF"
proof -
  have "page_of big_chip (block_offset big_chip b) k = of_nat (b * 0x100000 + k * 0x2000)"
    by (simp add: page_of_def block_offset_def data_of_def push_bit_eq_mult algebra_simps)
  then have u: "unat (page_of big_chip (block_offset big_chip b) k + of_nat j) = b * 0x100000 + (k * 0x2000 + j)" if "j < 0x2000" for j
    using assms(1,2) that by (simp add: unsigned_of_nat take_bit_nat_eq_self flip: of_nat_add)
  have r: "k * 0x2000 + j < 0x100000" if "j < 0x2000" for j
    using assms(2) that by simp
  show "flash_pages pages (page_of big_chip (block_offset big_chip b) k + of_nat i) = byte_at (pages b k) i"
    using u [of i] r [of i] assms(3) by (simp add: flash_pages_def Let_def)
  show "flash_pages pages (page_of big_chip (block_offset big_chip b) k + of_nat (0x1000 + i)) = 0xFF"
    using u [of "0x1000 + i"] r [of "0x1000 + i"] assms(3) by (simp add: flash_pages_def Let_def del: of_nat_add)
qed

lemma not_bad:
  assumes "b < 2047"
  shows "\<not> bad big_chip (flash_pages pages) (block_offset big_chip b)"
proof -
  have "spare_of big_chip (block_offset big_chip b) = page_of big_chip (block_offset big_chip b) 1 + of_nat (0x1000 + 0)"
    by (simp add: spare_of_def page_of_def)
  then show ?thesis
    using flash_pages_at(2) [OF assms, of 1 0 pages] by (simp add: bad_def)
qed

lemma blank_pages:
  assumes "b < 2047" "k < 128" "length (pages b k) \<le> 0x1000"
  shows "blank big_chip (flash_pages pages) m (block_offset big_chip b) k \<longleftrightarrow> list_all (\<lambda>x. x = 0xFF) (pages b k)"
proof -
  have "blank big_chip (flash_pages pages) m (block_offset big_chip b) k \<longleftrightarrow> (\<forall>i < 0x1000. byte_at (pages b k) i = 0xFF)"
    using flash_pages_at(1) [OF assms(1,2)] by (auto simp: blank_def list_all_iff)
  then show ?thesis
    using assms(3) by (auto simp: byte_at_def list_all_length)
qed

lemma page_word_pages:
  assumes "b < 2047" "i + 3 < 0x1000"
  shows "page_word big_chip (flash_pages pages) (block_offset big_chip b) (of_nat i) =
    be32_of_bytes (byte_at (pages b 1) i) (byte_at (pages b 1) (i + 1)) (byte_at (pages b 1) (i + 2)) (byte_at (pages b 1) (i + 3))"
proof -
  have "flash_pages pages (page_of big_chip (block_offset big_chip b) 1 + of_nat i + of_nat j) = byte_at (pages b 1) (i + j)" if "j < 4" for j
    using flash_pages_at(1) [OF assms(1), of 1 "i + j" pages] assms(2) that by (simp add: add.assoc)
  from this [of 0] this [of 1] this [of 2] this [of 3] show ?thesis
    by (simp add: page_word_def flash_word_def)
qed

lemma empty_block:
  assumes "b < 2047" "pages b 1 = []"
  shows "\<not> vid_candidate big_chip (flash_pages pages) eccr m v (block_offset big_chip b)"
    "\<not> layout_candidate big_chip (flash_pages pages) m (block_offset big_chip b)"
  using blank_pages [OF assms(1), of 1 pages m] assms(2) by (simp_all add: vid_candidate_def layout_candidate_def)

text \<open>Only the first four blocks are used.\<close>

lemma filter_blocks:
  assumes "\<And>b. 5 \<le> b \<Longrightarrow> b < 2047 \<Longrightarrow> \<not> P (block_offset big_chip b)"
  shows "filter P (blocks big_chip) = filter P (map (block_offset big_chip) [1, 2, 3, 4])"
proof -
  have "5 \<le> n_blocks big_chip" by (simp only: n_big_chip)
  then have "[1..<n_blocks big_chip] = [1..<5] @ [5..<n_blocks big_chip]"
    using upt_add_eq_append [of 1 5 "n_blocks big_chip - 5"] by simp
  then have "blocks big_chip = map (block_offset big_chip) [1..<5] @ map (block_offset big_chip) [5..<n_blocks big_chip]"
    unfolding blocks_def by (simp only: map_append)
  moreover have "\<not> P x" if "x \<in> set (map (block_offset big_chip) [5..<n_blocks big_chip])" for x
  proof -
    from that obtain b where "5 \<le> b" "b < n_blocks big_chip" "x = block_offset big_chip b"
      by (auto simp only: set_map set_upt image_iff atLeastLessThan_iff)
    then show ?thesis using assms by (simp only: n_big_chip not_False_eq_True)
  qed
  then have "filter P (map (block_offset big_chip) [5..<n_blocks big_chip]) = []"
    unfolding filter_empty_conv by blast
  moreover have "[1..<5 :: nat] = [1, 2, 3, 4]"
    by (simp add: upt_rec)
  ultimately show ?thesis by (simp only: filter_append append_Nil2)
qed

subsection \<open>Headers and records\<close>

definition vid_bytes :: "u32 \<Rightarrow> u32 \<Rightarrow> u8 list" where
  "vid_bytes v L = be32_bytes UBI_VID_HDR_MAGIC @ [1, 1, 0, 0] @ be32_bytes v @ be32_bytes L @ replicate 44 0"

definition vid_page_bytes :: "u32 \<Rightarrow> u32 \<Rightarrow> u8 list" where
  "vid_page_bytes v L = vid_bytes v L @ be32_bytes (crcFast CRC32 (crcInit CRC32) (vid_bytes v L) 60)"

lemma length_vid_bytes [simp]: "length (vid_bytes v L) = 60"
  by (simp add: vid_bytes_def)

lemma map_byte_at: "map (byte_at (xs @ ys)) [0..<length xs] = xs"
  by (rule nth_equalityI) (simp_all add: byte_at_def nth_append)

lemma byte_at_vid:
  "i < 60 \<Longrightarrow> byte_at (vid_page_bytes v L) i = vid_bytes v L ! i"
  "i < 4 \<Longrightarrow> byte_at (vid_page_bytes v L) (60 + i) = be32_bytes (crcFast CRC32 (crcInit CRC32) (vid_bytes v L) 60) ! i"
  by (simp_all add: byte_at_def vid_page_bytes_def nth_append)

lemma vid_bytes_nth:
  "i < 4 \<Longrightarrow> vid_bytes v L ! i = be32_bytes UBI_VID_HDR_MAGIC ! i"
  "i < 4 \<Longrightarrow> vid_bytes v L ! (8 + i) = be32_bytes v ! i"
  "i < 4 \<Longrightarrow> vid_bytes v L ! (12 + i) = be32_bytes L ! i"
  by (simp_all add: vid_bytes_def nth_append)

lemma be32_of_nth: "be32_of_bytes (be32_bytes w ! 0) (be32_bytes w ! 1) (be32_bytes w ! 2) (be32_bytes w ! 3) = w"
  by (simp add: be32_bytes_def)

lemma vid_page_words:
  assumes "b < 2047" "pages b 1 = vid_page_bytes v L"
  shows "page_word big_chip (flash_pages pages) (block_offset big_chip b) 0 = UBI_VID_HDR_MAGIC"
    "page_word big_chip (flash_pages pages) (block_offset big_chip b) 8 = v"
    "page_word big_chip (flash_pages pages) (block_offset big_chip b) 12 = L"
    "page_word big_chip (flash_pages pages) (block_offset big_chip b) 60 = crcFast CRC32 (crcInit CRC32) (vid_bytes v L) 60"
proof -
  have w: "page_word big_chip (flash_pages pages) (block_offset big_chip b) (of_nat i) = c"
    if "i \<le> 60" "\<And>j. j < 4 \<Longrightarrow> byte_at (vid_page_bytes v L) (i + j) = be32_bytes c ! j" for i c
    using page_word_pages [OF assms(1), of i pages, unfolded assms(2)] that(1) that(2) [of 0] that(2) [of 1] that(2) [of 2]
      that(2) [of 3] be32_of_nth [of c] by simp
  show "page_word big_chip (flash_pages pages) (block_offset big_chip b) 0 = UBI_VID_HDR_MAGIC"
    using w [of 0 UBI_VID_HDR_MAGIC] byte_at_vid(1) vid_bytes_nth(1) by simp
  show "page_word big_chip (flash_pages pages) (block_offset big_chip b) 8 = v"
    using w [of 8 v] byte_at_vid(1) vid_bytes_nth(2) by simp
  show "page_word big_chip (flash_pages pages) (block_offset big_chip b) 12 = L"
    using w [of 12 L] byte_at_vid(1) vid_bytes_nth(3) by simp
  show "page_word big_chip (flash_pages pages) (block_offset big_chip b) 60 = crcFast CRC32 (crcInit CRC32) (vid_bytes v L) 60"
    using w [of 60] byte_at_vid(2) by simp
qed

text \<open>Such a header is one \<open>scanvid\<close> accepts when the error correction reports no errors.\<close>

lemma vid_page_accepted:
  assumes "b < 2047" "pages b 1 = vid_page_bytes v L"
  shows "vid_candidate big_chip (flash_pages pages) (\<lambda>_ _. 0) m u (block_offset big_chip b) \<longleftrightarrow> v = of_int u"
    "vid_good (big_chip\<lparr>ubootReservedBlocks := n\<rparr>) (flash_pages pages) (\<lambda>_ _. 0) (block_offset big_chip b)"
    "leb big_chip (flash_pages pages) (block_offset big_chip b) = unat L"
proof -
  have len: "length (pages b 1) \<le> 0x1000"
    unfolding assms(2) by (simp add: vid_page_bytes_def)
  have "\<not> list_all (\<lambda>x. x = 0xFF) (pages b 1)"
    unfolding assms(2) by (simp add: vid_page_bytes_def vid_bytes_def)
  then have "\<not> blank big_chip (flash_pages pages) m (block_offset big_chip b) 1"
    using blank_pages [where b = b and k = 1 and pages = pages and m = m] assms(1) len by (simp del: One_nat_def)
  then show "vid_candidate big_chip (flash_pages pages) (\<lambda>_ _. 0) m u (block_offset big_chip b) \<longleftrightarrow> v = of_int u"
    using vid_page_words [of b pages v L, OF assms] not_bad [OF assms(1)] by (simp add: vid_candidate_def)
  have "flash_bytes (flash_pages pages) (page_of big_chip (block_offset big_chip b) 1) 60 = vid_bytes v L"
  proof -
    have "flash_bytes (flash_pages pages) (page_of big_chip (block_offset big_chip b) 1) 60 = map (byte_at (pages b 1)) [0..<60]"
      unfolding flash_bytes_def using flash_pages_at(1) [OF assms(1), of 1] by (intro map_cong) auto
    also have "\<dots> = vid_bytes v L"
      using map_byte_at [of "vid_bytes v L"] by (simp only: assms(2) vid_page_bytes_def length_vid_bytes)
    finally show ?thesis .
  qed
  moreover have "page_of (big_chip\<lparr>ubootReservedBlocks := n\<rparr>) = page_of big_chip" "page_word (big_chip\<lparr>ubootReservedBlocks := n\<rparr>) = page_word big_chip"
    by (simp_all add: fun_eq_iff page_word_def page_of_def ps_def is_4KB_def)
  ultimately show "vid_good (big_chip\<lparr>ubootReservedBlocks := n\<rparr>) (flash_pages pages) (\<lambda>_ _. 0) (block_offset big_chip b)"
    using vid_page_words(4) [of b pages v L, OF assms] by (simp add: vid_good_def)
  show "leb big_chip (flash_pages pages) (block_offset big_chip b) = unat L"
    using vid_page_words(3) [of b pages v L, OF assms] by (simp add: leb_def)
qed

definition vtbl_bytes :: "u32 \<Rightarrow> u8 list" where
  "vtbl_bytes n = be32_bytes n @ be32_bytes 1 @ be32_bytes 0 @ [1, 0, 0, 5] @ str ''uboot'' @ replicate 147 0"

text \<open>A page of the volume table: an empty record 0 and the record of \<open>uboot\<close> with checksum \<open>c\<close> as record 1.\<close>

definition vtbl_page_bytes :: "u32 \<Rightarrow> u32 \<Rightarrow> u8 list" where
  "vtbl_page_bytes n c = replicate 172 0 @ vtbl_bytes n @ be32_bytes c"

definition vtbl_crc_of :: "u32 \<Rightarrow> u32" where
  "vtbl_crc_of n = crcFast CRC32 (crcInit CRC32) (vtbl_bytes n) 168"

lemma length_vtbl_bytes [simp]: "length (vtbl_bytes n) = 168"
  by (simp add: vtbl_bytes_def str_def)

lemma table_ram_load:
  assumes "b < 2047" "i < 0x1000"
  shows "ram_load8 (DDR_BUFFER_ADDR + of_nat i) (table_ram big_chip (flash_pages pages) m (block_offset big_chip b)) = byte_at (pages b 2) i"
  unfolding table_ram_def using page_load [of i big_chip] flash_pages_at(1) [OF assms(1) _ assms(2), of 2 pages] assms(2) by simp

lemma record_ram_load:
  assumes "b < 2047" "pages b 2 = vtbl_page_bytes n c"
  shows "j < 172 \<Longrightarrow> ram_load8 (record_at 0 + of_nat j) (table_ram big_chip (flash_pages pages) m (block_offset big_chip b)) = 0"
    "j < 168 \<Longrightarrow> ram_load8 (record_at 1 + of_nat j) (table_ram big_chip (flash_pages pages) m (block_offset big_chip b)) = vtbl_bytes n ! j"
    "j < 4 \<Longrightarrow> ram_load8 (record_at 1 + of_nat (168 + j)) (table_ram big_chip (flash_pages pages) m (block_offset big_chip b)) = be32_bytes c ! j"
proof -
  have r: "record_at 0 + of_nat j = DDR_BUFFER_ADDR + of_nat j" "record_at 1 + of_nat j = DDR_BUFFER_ADDR + of_nat (172 + j)" for j
    by (simp_all add: record_at_def UBI_VTBL_RECORD_SIZE_def)
  show "ram_load8 (record_at 0 + of_nat j) (table_ram big_chip (flash_pages pages) m (block_offset big_chip b)) = 0" if "j < 172"
    unfolding r using table_ram_load [OF assms(1), of j pages m] that
    by (simp add: assms(2) byte_at_def vtbl_page_bytes_def nth_append)
  show "ram_load8 (record_at 1 + of_nat j) (table_ram big_chip (flash_pages pages) m (block_offset big_chip b)) = vtbl_bytes n ! j" if "j < 168"
    unfolding r using table_ram_load [OF assms(1), of "172 + j" pages m] that
    by (simp add: assms(2) byte_at_def vtbl_page_bytes_def nth_append)
  show "ram_load8 (record_at 1 + of_nat (168 + j)) (table_ram big_chip (flash_pages pages) m (block_offset big_chip b)) = be32_bytes c ! j" if "j < 4"
    unfolding r using table_ram_load [OF assms(1), of "172 + (168 + j)" pages m] that
    by (simp add: assms(2) byte_at_def vtbl_page_bytes_def nth_append)
qed

lemma volname_loop_equal:
  assumes "\<And>j. j < Suc k \<Longrightarrow> ram_load8 (p + of_nat (i + j)) s = lit ! (i + j)" "i + k < length lit" "lit ! (i + k) = 0"
  shows "volname_loop p lit i k s = Some 0"
  using assms
proof (induction k arbitrary: i)
  case 0
  then show ?case using 0(1) [of 0] by (simp add: arr_get_def)
next
  case (Suc k)
  have "volname_loop p lit (Suc i) k s = Some 0"
    by (rule Suc.IH) (use Suc.prems(1) [of "Suc _"] Suc.prems(2,3) in simp_all)
  then show ?case using Suc.prems(1) [of 0] Suc.prems(2) by (simp add: arr_get_def)
qed

lemma vtbl_record:
  assumes "b < 2047" "pages b 2 = vtbl_page_bytes n c"
    and s_def: "s = table_ram big_chip (flash_pages pages) m (block_offset big_chip b)"
  shows "record_name 0 0 s = Some 1" "record_name 0 1 s = Some 0" "reserved_pebs (vtbl_record_at (record_at 1) s) = n"
    "record_valid (crcInit CRC32) 1 s \<longleftrightarrow> c = vtbl_crc_of n"
proof -
  note ld = record_ram_load [where b = b and pages = pages and m = m, OF assms(1,2), folded s_def]
  have z: "ram_load8 (record_at 0 + 14) s = 0" "ram_load8 (record_at 0 + 14 + 1) s = 0" "ram_load8 (record_at 0 + 16) s = 0"
    using ld(1) [of 14] ld(1) [of 15] ld(1) [of 16] by (simp_all add: add.assoc)
  then have z': "ram_load8 (15 + record_at 0) s = 0"
    by (simp add: add.assoc add.commute)
  have l0: "name_len (vtbl_record_at (record_at 0) s) = 0"
    by (simp add: vtbl_record_at_def ram_load16_def z z')
  then show "record_name 0 0 s = Some 1"
    using z(3) by (simp add: record_name_def volname_compare_def volname_literal_def str_def arr_get_def)
  have v: "ram_load8 (record_at 1 + of_nat j) s = (be32_bytes n @ be32_bytes 1 @ be32_bytes 0 @ [1, 0, 0, 5] @ str ''uboot'' @ replicate 147 0) ! j"
    if "j < 168" for j using ld(2) [OF that] by (simp add: vtbl_bytes_def)
  have l1: "name_len (vtbl_record_at (record_at 1) s) = 5" and u: "upd_marker (vtbl_record_at (record_at 1) s) = 0"
    using v [of 13] v [of 14] v [of 15]
    by (simp_all add: vtbl_record_at_def ram_load16_def nth_append add.assoc)
  have nm: "ram_load8 (record_at 1 + 16 + of_nat j) s = (str ''uboot'' @ [0]) ! j" if "j < 6" for j
    using v [of "16 + j"] that by (simp add: nth_append add.assoc str_def nth_Cons split: nat.split)
  show "record_name 0 1 s = Some 0"
    unfolding record_name_def l1 volname_compare_def volname_literal_def
    by (rule volname_loop_equal) (use nm in \<open>simp_all add: str_def vtbl_record_at_def\<close>)
  show "reserved_pebs (vtbl_record_at (record_at 1) s) = n"
    using v [of 0] v [of 1] v [of 2] v [of 3] be32_of_nth [of n]
    by (simp add: vtbl_record_at_def ram_load32_def nth_append)
  have "vtbl_crc (vtbl_record_at (record_at 1) s) = c"
    using ld(3) [of 0] ld(3) [of 1] ld(3) [of 2] ld(3) [of 3] be32_of_nth [of c]
    by (simp add: vtbl_record_at_def ram_load32_def add.assoc)
  moreover have "ram_bytes (record_at 1) 168 s = vtbl_bytes n"
    by (rule nth_equalityI) (simp_all add: ram_bytes_def ld(2) del: One_nat_def)
  ultimately show "record_valid (crcInit CRC32) 1 s \<longleftrightarrow> c = vtbl_crc_of n"
    using u by (auto simp: record_valid_def vtbl_crc_of_def UBI_VTBL_RECORD_SIZE_CRC_def UBI_VTBL_RECORD_SIZE_def)
qed

lemma vtbl_named: 
  assumes "b < 2047" "pages b 2 = vtbl_page_bytes n c"
  shows "named_first 0 1 (table_ram big_chip (flash_pages pages) m (block_offset big_chip b))"
  using vtbl_record(1,2) [where b = b and pages = pages and m = m, OF assms refl] by (simp add: named_first_def)

text \<open>A header of the layout volume in page 1, and the table in page 2.\<close>

definition layout_page_bytes :: "u8 list" where
  "layout_page_bytes = replicate 8 0 @ be32_bytes LAYOUT_VOLUMEID"

lemma layout_page_accepted:
  assumes "b < 2047" "pages b 1 = layout_page_bytes" "pages b 2 = vtbl_page_bytes n c"
  shows "layout_candidate big_chip (flash_pages pages) m (block_offset big_chip b)"
proof -
  have "length (pages b 1) \<le> 0x1000" "length (pages b 2) \<le> 0x1000"
    unfolding assms(2,3) by (simp_all add: layout_page_bytes_def vtbl_page_bytes_def)
  moreover have "\<not> list_all (\<lambda>x. x = 0xFF) (pages b 1)" "\<not> list_all (\<lambda>x. x = 0xFF) (pages b 2)"
    unfolding assms(2,3) by (simp_all add: layout_page_bytes_def vtbl_page_bytes_def list_all_iff)
  ultimately have "\<not> blank big_chip (flash_pages pages) m (block_offset big_chip b) 1"
    "\<not> blank big_chip (flash_pages pages) m (block_offset big_chip b) 2"
    using blank_pages [where b = b and k = 1 and pages = pages and m = m] blank_pages [where b = b and k = 2 and pages = pages and m = m]
      assms(1) by (simp_all del: One_nat_def)
  moreover have "page_word big_chip (flash_pages pages) (block_offset big_chip b) 8 = LAYOUT_VOLUMEID"
    using page_word_pages [OF assms(1), of 8 pages, unfolded assms(2)] be32_of_nth [of LAYOUT_VOLUMEID]
    by (simp add: byte_at_def layout_page_bytes_def nth_append)
  ultimately show ?thesis
    using not_bad [OF assms(1)] by (simp add: layout_candidate_def VOLUMEID_OFFSET_def)
qed

subsection \<open>A flash that boots\<close>

definition boot_pages :: "nat \<Rightarrow> nat \<Rightarrow> u8 list" where
  "boot_pages b k =
     (if b = 1 then (if k = 1 then layout_page_bytes else if k = 2 then vtbl_page_bytes 2 (vtbl_crc_of 2) else [])
      else if b = 2 then (if k = 1 then vid_page_bytes 1 1 else if k = 2 then [7] else [])
      else if b = 3 then (if k = 1 then vid_page_bytes 1 0 else if 2 \<le> k then [of_nat k] else [])
      else [])"

abbreviation blk :: "nat \<Rightarrow> u32" where
  "blk b \<equiv> block_offset big_chip b"

lemma layout_page_not_vid:
  assumes "b < 2047" "pages b 1 = layout_page_bytes"
  shows "\<not> vid_candidate big_chip (flash_pages pages) eccr m v (blk b)"
proof -
  have "page_word big_chip (flash_pages pages) (blk b) 0 = 0"
    using page_word_pages [OF assms(1), of 0 pages, unfolded assms(2)]
    by (simp add: byte_at_def layout_page_bytes_def nth_append be32_of_bytes_def)
  then show ?thesis by (simp add: vid_candidate_def UBI_VID_HDR_MAGIC_def)
qed

lemma vid_page_not_layout:
  assumes "b < 2047" "pages b 1 = vid_page_bytes v L" "v \<noteq> LAYOUT_VOLUMEID"
  shows "\<not> layout_candidate big_chip (flash_pages pages) m (blk b)"
  using vid_page_words(2) [where b = b and pages = pages, OF assms(1,2)] assms(3)
  by (simp add: layout_candidate_def VOLUMEID_OFFSET_def)

lemma layout_blocks_pages:
  assumes "\<And>b. 5 \<le> b \<Longrightarrow> b < 2047 \<Longrightarrow> pages b 1 = []"
  shows "layout_blocks big_chip (flash_pages pages) m = filter (layout_candidate big_chip (flash_pages pages) m) [blk 1, blk 2, blk 3, blk 4]"
  unfolding layout_blocks_def using filter_blocks [of "layout_candidate big_chip (flash_pages pages) m"] empty_block(2) assms
  by (simp del: One_nat_def)

lemma vid_blocks_pages:
  assumes "\<And>b. 5 \<le> b \<Longrightarrow> b < 2047 \<Longrightarrow> pages b 1 = []"
  shows "vid_blocks big_chip (flash_pages pages) eccr m v =
    filter (vid_candidate big_chip (flash_pages pages) eccr m v) [blk 1, blk 2, blk 3, blk 4]"
  unfolding vid_blocks_def using filter_blocks [of "vid_candidate big_chip (flash_pages pages) eccr m v"] empty_block(1) assms
  by (simp del: One_nat_def)

lemma big_chip_2: "big_chip\<lparr>ubootReservedBlocks := 2\<rparr> = big_chip"
  by (simp add: big_chip_def)

lemma layout_volume_not_1: "(1 :: u32) \<noteq> LAYOUT_VOLUMEID"
proof
  assume "(1 :: u32) = LAYOUT_VOLUMEID"
  then have "unat (1 :: u32) = unat LAYOUT_VOLUMEID" by (rule arg_cong)
  then show False by (simp add: LAYOUT_VOLUMEID_def)
qed

lemma boot_layout: "layout_blocks big_chip (flash_pages boot_pages) m = [blk 1]"
proof -
  have "layout_candidate big_chip (flash_pages boot_pages) m (blk 1)"
    by (rule layout_page_accepted) (simp_all add: boot_pages_def)
  moreover have "\<not> layout_candidate big_chip (flash_pages boot_pages) m (blk 2)" "\<not> layout_candidate big_chip (flash_pages boot_pages) m (blk 3)"
    by (rule vid_page_not_layout [OF _ _ layout_volume_not_1]; simp add: boot_pages_def)+
  moreover have "\<not> layout_candidate big_chip (flash_pages boot_pages) m (blk 4)"
    by (rule empty_block) (simp_all add: boot_pages_def)
  ultimately show ?thesis
    by (subst layout_blocks_pages) (simp_all add: boot_pages_def)
qed

lemma boot_vid:
  "vid_blocks big_chip (flash_pages boot_pages) (\<lambda>_ _. 0) m 1 = [blk 2, blk 3]"
proof -
  have "\<not> vid_candidate big_chip (flash_pages boot_pages) (\<lambda>_ _. 0) m 1 (blk 1)"
    by (rule layout_page_not_vid) (simp_all add: boot_pages_def)
  moreover have "vid_candidate big_chip (flash_pages boot_pages) (\<lambda>_ _. 0) m 1 (blk 2)"
    "vid_candidate big_chip (flash_pages boot_pages) (\<lambda>_ _. 0) m 1 (blk 3)"
    using vid_page_accepted(1) [of 2 boot_pages 1 1] vid_page_accepted(1) [of 3 boot_pages 1 0] by (simp_all add: boot_pages_def)
  moreover have "\<not> vid_candidate big_chip (flash_pages boot_pages) (\<lambda>_ _. 0) m 1 (blk 4)"
    by (rule empty_block) (simp_all add: boot_pages_def)
  ultimately show ?thesis
    by (subst vid_blocks_pages) (simp_all add: boot_pages_def)
qed

lemma boot_accepted:
  "vid_good big_chip (flash_pages boot_pages) (\<lambda>_ _. 0) (blk 2)" "vid_good big_chip (flash_pages boot_pages) (\<lambda>_ _. 0) (blk 3)"
  "leb big_chip (flash_pages boot_pages) (blk 2) = 1" "leb big_chip (flash_pages boot_pages) (blk 3) = 0"
  using vid_page_accepted(2) [of 2 boot_pages 1 1 2] vid_page_accepted(2) [of 3 boot_pages 1 0 2]
    vid_page_accepted(3) [of 2 boot_pages 1 1] vid_page_accepted(3) [of 3 boot_pages 1 0]
  by (simp_all add: boot_pages_def big_chip_2)

lemma boot_used: "used_blocks big_chip (flash_pages boot_pages) (\<lambda>_ _. 0) m 1 = [blk 2, blk 3]"
  by (simp add: used_blocks_def boot_vid)

lemma boot_complete: "complete big_chip (flash_pages boot_pages) (\<lambda>_ _. 0) m 1"
  by (simp add: complete_def boot_vid boot_used boot_accepted)

lemma end_page_pages:
  assumes "b < 2047" "k < 128" "length (pages b k) \<le> 0x1000"
  shows "end_page big_chip (flash_pages pages) m (blk b + of_nat (k * 0x1000)) \<longleftrightarrow> list_all (\<lambda>x. x = 0xFF) (pages b k)"
  using blank_pages [where b = b and k = k and pages = pages and m = m, OF assms] by (simp add: end_page_def blank_def page_of_def)

lemma data_pages_big: "data_pages big_chip (data_start big_chip (blk b)) 0 = map (\<lambda>k. blk b + of_nat (k * 0x1000)) [2..<128]"
proof -
  have "[2..<128 :: nat] = map (\<lambda>i. i + 2) [0..<126]"
    using map_add_upt [of 2 126] by simp
  moreover have "n_data big_chip = 126"
    by (simp add: n_data_def)
  ultimately show ?thesis
    by (simp add: data_pages_def data_start_def comp_def algebra_simps del: upt_rec_numeral)
qed

lemma boot_good:
  "list_all (\<lambda>p. \<not> end_page big_chip (flash_pages boot_pages) m p \<and> page_ok big_chip (\<lambda>_ _. 0) p)
    (map (\<lambda>k. blk 3 + of_nat (k * 0x1000)) [2..<128] @ [blk 2 + of_nat (2 * 0x1000)])"
proof -
  have "\<not> end_page big_chip (flash_pages boot_pages) m (blk 3 + of_nat (k * 0x1000))" if "2 \<le> k" "k < 128" for k
  proof -
    have "unat (of_nat k :: u8) = k" using that by (simp add: unsigned_of_nat take_bit_nat_eq_self)
    then have "(of_nat k :: u8) \<noteq> 0xFF" using that by auto
    then show ?thesis
      using that end_page_pages [where b = 3 and k = k and pages = boot_pages and m = m] by (simp add: boot_pages_def)
  qed
  moreover have "\<not> end_page big_chip (flash_pages boot_pages) m (blk 2 + of_nat (2 * 0x1000))"
    using end_page_pages [where b = 2 and k = 2 and pages = boot_pages and m = m] by (simp add: boot_pages_def)
  moreover have "page_ok big_chip (\<lambda>_ _. 0) p" for p
    by (simp add: page_ok_def list_all_iff)
  ultimately show ?thesis
    by (simp add: list_all_iff del: upt_rec_numeral of_nat_mult)
qed

lemma boot_image:
  "concat (map (\<lambda>offset. data_pages big_chip (data_start big_chip offset) 0) [blk 3, blk 2]) =
    (map (\<lambda>k. blk 3 + of_nat (k * 0x1000)) [2..<128] @ [blk 2 + of_nat (2 * 0x1000)]) @
    (blk 2 + of_nat (3 * 0x1000)) # map (\<lambda>k. blk 2 + of_nat (k * 0x1000)) [4..<128]"
proof -
  have "[2..<n] = 2 # 3 # [4..<n]" if "4 \<le> n" for n
    using that by (simp add: upt_conv_Cons)
  from this [of 128] have "map (\<lambda>k. blk 2 + of_nat (k * 0x1000)) [2..<128] =
      (blk 2 + of_nat (2 * 0x1000)) # (blk 2 + of_nat (3 * 0x1000)) # map (\<lambda>k. blk 2 + of_nat (k * 0x1000)) [4..<128]"
    by (simp only: list.map)
  then show ?thesis
    by (simp only: list.map concat.simps data_pages_big append_Nil2 append_assoc append.simps)
qed

lemma boot_globals_big: "boot_globals 0x17 big_chip = big_chip"
  by (simp add: boot_globals_def big_chip_def)

text \<open>What the properties of the loader ask of this flash.\<close>

lemma boot_volume:
  "volume_blocks (big_chip\<lparr>ubootReservedBlocks := 2\<rparr>) (flash_pages boot_pages) (\<lambda>_ _. 0) m (int 1) [blk 3, blk 2]"
  by (simp add: big_chip_2 volume_blocks_def boot_complete boot_used boot_accepted)

lemma boot_table:
  "named_first 0 1 (table_ram big_chip (flash_pages boot_pages) m (blk 1))"
  "reserved_pebs (vtbl_record_at (record_at 1) (table_ram big_chip (flash_pages boot_pages) m (blk 1))) = 2"
  "record_valid (crcInit CRC32) 1 (table_ram big_chip (flash_pages boot_pages) m (blk 1))"
  using vtbl_named [of 1 boot_pages 2 "vtbl_crc_of 2" m] vtbl_record(3,4) [of 1 boot_pages 2 "vtbl_crc_of 2", OF _ _ refl, of m]
  by (simp_all add: boot_pages_def)

lemma boot_end: "end_page big_chip (flash_pages boot_pages) m (blk 2 + of_nat (3 * 0x1000))"
  using end_page_pages [where b = 2 and k = 3 and pages = boot_pages and m = m] by (simp add: boot_pages_def)

definition boot_good_pages :: "u32 list" where
  "boot_good_pages = map (\<lambda>k. blk 3 + of_nat (k * 0x1000)) [2..<128] @ [blk 2 + of_nat (2 * 0x1000)]"

lemma boot_last_page:
  "126 < length boot_good_pages" "flash_pages boot_pages (data_of (boot_good_pages ! 126) + of_nat 0) = 7"
proof -
  have q: "boot_good_pages ! 126 = blk 2 + of_nat (2 * 0x1000)" "126 < length boot_good_pages"
    by (simp_all add: boot_good_pages_def nth_append del: upt_rec_numeral)
  then show "126 < length boot_good_pages" "flash_pages boot_pages (data_of (boot_good_pages ! 126) + of_nat 0) = 7"
    using flash_pages_at(1) [of 2 2 0 boot_pages] unfolding q(1) by (simp_all add: page_of_def boot_pages_def byte_at_def)
qed

lemmas boot_flash_facts = boot_layout boot_table(1) boot_table(3) boot_table(2) boot_volume boot_image [folded boot_good_pages_def]
  boot_good [folded boot_good_pages_def] boot_end boot_last_page

theorem read_uboot_boots_witness:
  "\<exists>G' t. read_uboot (nand_machine_env 0x17 (flash_pages boot_pages) (\<lambda>_ _. 0)) (nand_machine 0x17 (flash_pages boot_pages))
      big_chip (nand_sys0 (\<lambda>_. 0)) = Some (0, G', t) \<and>
    ram_load8 (UBOOT_TEXT_BASE + of_nat (126 * 0x1000 + 0)) t = 7"
  using read_uboot_boots [OF nand_board_boot.nand_boot_axioms, where s = "nand_sys0 (\<lambda>_. 0)" and x = 0 and B = big_chip
      and G = big_chip and k = 1 and n = 2 and q = 126 and i = 0 and strap = "0x17" and eccr = "\<lambda>_ _. 0",
      OF _ boot_globals_big [symmetric] boot_flash_facts(1,2) _ boot_flash_facts(3-5) _ boot_flash_facts(6-9)]
    boot_last_page(2) unfolding big_chip(3) by (simp add: nand_sys0_def)

theorem read_uboot_refines_witness:
  "map_option (\<lambda>(r, G', t). (r, G')) (read_uboot (nand_machine_env 0x17 (flash_pages boot_pages) (\<lambda>_ _. 0))
      (nand_machine 0x17 (flash_pages boot_pages)) big_chip (nand_sys0 (\<lambda>_. 0))) =
    map_option (\<lambda>(r, G', m). (r, G')) (uboot_spec (boot_globals 0x17 big_chip) (flash_pages boot_pages) (\<lambda>_ _. 0) (\<lambda>_. 0))"
  using read_uboot_refines [OF nand_board_boot.nand_boot_axioms, where s = "nand_sys0 (\<lambda>_. 0)" and x = 0 and G = big_chip
    and flash = "flash_pages boot_pages" and strap = "0x17" and eccr = "\<lambda>_ _. 0"] by (simp add: nand_sys0_def)


theorem scanvid_maps_blocks_witness:
  "\<exists>G' t. scanvid (nand_machine_env 0x17 (flash_pages boot_pages) (\<lambda>_ _. 0)) (nand_machine 0x17 (flash_pages boot_pages)) 1
      big_chip (nand_sys0 (\<lambda>_. 0)) = Some (0, G', t) \<and> maptable G' ! 0 = 0x182000"
proof -
  have "data_start big_chip (blk 3) = 0x182000"
    by (simp add: data_start_def block_offset_def)
  then show ?thesis
    using scanvid_maps_blocks [OF nand_board.part.nand_part_axioms [where strap = "0x17"], where s = "nand_sys0 (\<lambda>_. 0)" and x = 0 and G = big_chip
      and flash = "flash_pages boot_pages" and eccr = "\<lambda>_ _. 0" and v = 1 and c = "blk 3"]
    by (simp add: nand_sys0_def boot_complete boot_used boot_accepted)
qed

subsection \<open>Flashes that go wrong\<close>

text \<open>Logical block 0 of volume 1 twice.\<close>

definition twice_pages :: "nat \<Rightarrow> nat \<Rightarrow> u8 list" where
  "twice_pages b k = (if k = 1 \<and> (b = 2 \<or> b = 3) then vid_page_bytes 1 0 else [])"

theorem scanvid_last_copy_wins_witness:
  "\<exists>G' t. scanvid (nand_machine_env 0x17 (flash_pages twice_pages) (\<lambda>_ _. 0)) (nand_machine 0x17 (flash_pages twice_pages)) 1
      big_chip (nand_sys0 (\<lambda>_. 0)) = Some (0, G', t) \<and> maptable G' ! 0 = 0x182000"
proof -
  have "vid_candidate big_chip (flash_pages twice_pages) (\<lambda>_ _. 0) m 1 (blk 2)"
    "vid_candidate big_chip (flash_pages twice_pages) (\<lambda>_ _. 0) m 1 (blk 3)" for m
    using vid_page_accepted(1) [of 2 twice_pages 1 0] vid_page_accepted(1) [of 3 twice_pages 1 0] by (simp_all add: twice_pages_def)
  moreover have "\<not> vid_candidate big_chip (flash_pages twice_pages) (\<lambda>_ _. 0) m 1 (blk 1)"
    "\<not> vid_candidate big_chip (flash_pages twice_pages) (\<lambda>_ _. 0) m 1 (blk 4)" for m
    by (rule empty_block; simp add: twice_pages_def)+
  ultimately have vb: "vid_blocks big_chip (flash_pages twice_pages) (\<lambda>_ _. 0) m 1 = [blk 2, blk 3]" for m
    by (subst vid_blocks_pages) (simp_all add: twice_pages_def)
  have ok: "vid_good big_chip (flash_pages twice_pages) (\<lambda>_ _. 0) (blk 2)" "vid_good big_chip (flash_pages twice_pages) (\<lambda>_ _. 0) (blk 3)"
    "leb big_chip (flash_pages twice_pages) (blk 2) = 0" "leb big_chip (flash_pages twice_pages) (blk 3) = 0"
    using vid_page_accepted(2) [of 2 twice_pages 1 0 2] vid_page_accepted(2) [of 3 twice_pages 1 0 2]
      vid_page_accepted(3) [of 2 twice_pages 1 0] vid_page_accepted(3) [of 3 twice_pages 1 0]
    by (simp_all add: twice_pages_def big_chip_2)
  have us: "used_blocks big_chip (flash_pages twice_pages) (\<lambda>_ _. 0) m 1 = [blk 2] @ blk 3 # []" for m
    by (simp add: used_blocks_def vb)
  have co: "complete big_chip (flash_pages twice_pages) (\<lambda>_ _. 0) m 1" for m
    by (simp add: complete_def us vb ok)
  have "data_start big_chip (blk 3) = 0x182000"
    by (simp add: data_start_def block_offset_def)
  then show ?thesis
    using scanvid_last_copy_wins [OF nand_board.part.nand_part_axioms [where strap = "0x17"] _ _ co us, where s = "nand_sys0 (\<lambda>_. 0)" and x = 0]
    by (simp add: nand_sys0_def ok)
qed

text \<open>A block of volume 1 with logical number 25.\<close>

definition far_pages :: "nat \<Rightarrow> nat \<Rightarrow> u8 list" where
  "far_pages b k = (if k = 1 \<and> b = 2 then vid_page_bytes 1 25 else [])"

theorem scanvid_overruns_maptable_witness:
  "scanvid (nand_machine_env 0x17 (flash_pages far_pages) (\<lambda>_ _. 0)) (nand_machine 0x17 (flash_pages far_pages)) 1
      big_chip (nand_sys0 (\<lambda>_. 0)) = None"
proof -
  have "vid_candidate big_chip (flash_pages far_pages) (\<lambda>_ _. 0) m 1 (blk 2)" for m
    using vid_page_accepted(1) [of 2 far_pages 1 25] by (simp add: far_pages_def)
  moreover have "\<not> vid_candidate big_chip (flash_pages far_pages) (\<lambda>_ _. 0) m 1 (blk 1)"
    "\<not> vid_candidate big_chip (flash_pages far_pages) (\<lambda>_ _. 0) m 1 (blk 3)"
    "\<not> vid_candidate big_chip (flash_pages far_pages) (\<lambda>_ _. 0) m 1 (blk 4)" for m
    by (rule empty_block; simp add: far_pages_def)+
  ultimately have vb: "vid_blocks big_chip (flash_pages far_pages) (\<lambda>_ _. 0) m 1 = blk 2 # []" for m
    by (subst vid_blocks_pages) (simp_all add: far_pages_def)
  have ok: "vid_good big_chip (flash_pages far_pages) (\<lambda>_ _. 0) (blk 2)" "leb big_chip (flash_pages far_pages) (blk 2) = 25"
    using vid_page_accepted(2) [of 2 far_pages 1 25 2] vid_page_accepted(3) [of 2 far_pages 1 25]
    by (simp_all add: far_pages_def big_chip_2)
  show ?thesis
    using scanvid_overruns_maptable [OF nand_board.part.nand_part_axioms [where strap = "0x17"] _ _ vb ok(1), where s = "nand_sys0 (\<lambda>_. 0)" and x = 0] ok(2)
    by (simp add: nand_sys0_def)
qed

text \<open>Two copies of the volume table, the first with a wrong checksum.\<close>

definition spare_pages :: "nat \<Rightarrow> nat \<Rightarrow> u8 list" where
  "spare_pages b k =
     (if b = 1 \<or> b = 2 then
        (if k = 1 then layout_page_bytes else if k = 2 then vtbl_page_bytes 2 (vtbl_crc_of 2 + (if b = 1 then 1 else 0)) else [])
      else [])"

theorem scanlayoutv_spare_copy_doubles_witness:
  "\<exists>G' t. scanlayoutv (nand_machine_env 0x17 (flash_pages spare_pages) (\<lambda>_ _. 0)) (nand_machine 0x17 (flash_pages spare_pages)) 0
      big_chip (nand_sys0 (\<lambda>_. 0)) = Some (2, G', t)"
proof -
  have "layout_candidate big_chip (flash_pages spare_pages) m (blk 1)" "layout_candidate big_chip (flash_pages spare_pages) m (blk 2)" for m
    by (rule layout_page_accepted; simp add: spare_pages_def)+
  moreover have "\<not> layout_candidate big_chip (flash_pages spare_pages) m (blk 3)"
    "\<not> layout_candidate big_chip (flash_pages spare_pages) m (blk 4)" for m
    by (rule empty_block; simp add: spare_pages_def)+
  ultimately have lb: "layout_blocks big_chip (flash_pages spare_pages) m = blk 1 # blk 2 # []" for m
    by (subst layout_blocks_pages) (simp_all add: spare_pages_def)
  have nm: "named_first 0 1 (table_ram big_chip (flash_pages spare_pages) m (blk 1))"
    "named_first 0 1 (table_ram big_chip (flash_pages spare_pages) m (blk 2))" for m
    by (rule vtbl_named; simp add: spare_pages_def)+
  have "record_valid (crcInit CRC32) 1 (table_ram big_chip (flash_pages spare_pages) m (blk 1)) \<longleftrightarrow> vtbl_crc_of 2 + 1 = vtbl_crc_of 2"
    "record_valid (crcInit CRC32) 1 (table_ram big_chip (flash_pages spare_pages) m (blk 2)) \<longleftrightarrow> vtbl_crc_of 2 = vtbl_crc_of 2" for m
    by (rule vtbl_record(4) [OF _ _ refl]; simp add: spare_pages_def)+
  then have va: "\<not> record_valid (crcTable big_chip) 1 (table_ram big_chip (flash_pages spare_pages) m (blk 1))"
    "record_valid (crcTable big_chip) 1 (table_ram big_chip (flash_pages spare_pages) m (blk 2))" for m
    by simp_all
  show ?thesis
    using scanlayoutv_spare_copy_doubles [OF nand_board.part.nand_part_axioms [where strap = "0x17"] _ _ lb _ nm(1) va(1) nm(2) va(2),
        where s = "nand_sys0 (\<lambda>_. 0)" and x = 0 and eccr = "\<lambda>_ _. 0"]
    by (simp add: nand_sys0_def)
qed

text \<open>The small chip: block 1 full, the blocks behind it erased; the map table leads to block 1 and then to block 3.\<close>

definition half_flash :: "u32 \<Rightarrow> u8" where
  "half_flash x = (if 0x80000 \<le> unat x then 0xFF else 0)"

definition small_chip :: nand_globals where
  "small_chip = \<lparr>reset_reg_val = 0, nand_chip = chip_2KB, maptable = 0x21000 # 0x61000 # replicate 18 0,
     ubootReservedBlocks = 2, crcTable = crcInit CRC32\<rparr>"

lemma small_chip [simp]:
  "\<not> is_4KB small_chip" "geometry small_chip" "ps small_chip = 0x800" "block_bytes small_chip = 0x20000"
  "maptable small_chip = 0x21000 # 0x61000 # replicate 18 0"
  by (simp_all add: is_4KB_def small_chip_def geometry_def ps_def block_bytes_def reg_defs)

lemma small_chip_oob: "nat (sint (oob_size (nand_chip small_chip))) = 64"
  and small_chip_sections: "unat (num_sections (nand_chip small_chip)) = 4"
  by (simp_all add: small_chip_def chip_2KB_def)

lemma half_flash_at:
  assumes "k < 61"
  shows "half_flash (spare_of small_chip (data_start small_chip (block_offset small_chip 1) + of_nat (k * 0x800))) = 0"
proof -
  have "spare_of small_chip (data_start small_chip (block_offset small_chip 1) + of_nat (k * 0x800)) = of_nat (0x43800 + k * 0x1000)"
    by (simp add: spare_of_def data_start_def block_offset_def data_of_def push_bit_eq_mult algebra_simps)
  moreover have "unat (of_nat (0x43800 + k * 0x1000) :: u32) = 0x43800 + k * 0x1000"
    using assms by (simp add: unsigned_of_nat take_bit_nat_eq_self del: of_nat_add of_nat_mult)
  ultimately show ?thesis using assms by (simp add: half_flash_def del: of_nat_add of_nat_mult)
qed

theorem readmapTable_cut_short_witness:
  "\<exists>t. readmapTable (nand_machine_env 0 half_flash (\<lambda>_ _. 0)) (nand_machine 0 half_flash) small_chip (nand_sys0 (\<lambda>_. 0)) = Some (1, t) \<and>
    ram_load8 (UBOOT_TEXT_BASE + of_nat (62 * 0x800)) t = 0"
proof -
  have al: "list_all (aligned small_chip) (maptable small_chip)"
  proof -
    have "aligned small_chip 0x21000" "aligned small_chip 0x61000"
      using aligned_page [of small_chip 66] aligned_page [of small_chip 194] by simp_all
    then show ?thesis by (simp add: list_all_iff)
  qed
  have ff: "list_all (\<lambda>i. half_flash (data_of (block_offset small_chip (Suc 1)) + of_nat (0x800 + i)) = 0xFF) [0..<64]"
  proof -
    have "half_flash (data_of (block_offset small_chip (Suc 1)) + of_nat (0x800 + i)) = 0xFF" if "i < 64" for i
    proof -
      have "data_of (block_offset small_chip (Suc 1)) + of_nat (0x800 + i) = of_nat (0x80800 + i)"
        by (simp add: data_of_def block_offset_def)
      moreover have "unat (of_nat (0x80800 + i) :: u32) = 0x80800 + i"
        using that by (simp add: unsigned_of_nat take_bit_nat_eq_self del: of_nat_add)
      ultimately show ?thesis by (simp add: half_flash_def del: of_nat_add)
    qed
    then show ?thesis by (simp add: list_all_iff)
  qed
  have er: "erased_sections 0 4 0 (ramst (\<lambda>_. 0)) = False"
    by (simp add: eval_nat_numeral Let_def ecc45_at_def ram_load8_def ramst_def NAND_MAX_COUNT_ZERO_def NAND_MIN_COUNT_ZERO_def)
  have "\<not> end_page small_chip half_flash (\<lambda>_. 0) (data_start small_chip (block_offset small_chip 1) + of_nat (k * 0x800))"
    if "k < 61" for k
  proof -
    have "[0..<64] = 0 # [Suc 0..<64 :: nat]" by (rule upt_conv_Cons) simp
    then show ?thesis
      using half_flash_at [OF that] er
      by (simp add: end_page_def erased_def small_chip_oob small_chip_sections del: upt_rec_numeral of_nat_mult)
  qed
  then have good: "list_all (\<lambda>k. \<not> end_page small_chip half_flash (mem (nand_sys0 (\<lambda>_. 0))) (data_start small_chip (block_offset small_chip 1) + of_nat (k * ps small_chip)) \<and>
      page_ok small_chip (\<lambda>_ _. 0) (data_start small_chip (block_offset small_chip 1) + of_nat (k * ps small_chip))) [0..<61]"
    by (simp add: list_all_iff page_ok_def nand_sys0_def)
  have e: "maptable small_chip = data_start small_chip (block_offset small_chip 1) # 0x61000 # replicate 18 0"
    by (simp add: data_start_def block_offset_def)
  show ?thesis
    using readmapTable_cut_short [OF nand_board.part.nand_part_axioms [where strap = 0] _ _ _ e _ al ff good,
        where x = 0 and i = "62 * 0x800"]
    by (simp add: nand_sys0_def ram_load8_def)
qed

end
