(* ===== verification/Ddr_Regs.thy ===== *)
theory Ddr_Regs
  imports Pll
begin

unbundle bit_operations_syntax

section \<open>DDR controller and PHY registers (boot/include/reg\_ddr.h)\<close>

text \<open>
  The constants of \<^verbatim>\<open>reg_ddr.h\<close> under their names and in its order, the conditional ones with the
  condition of their \<open>#if\<close> (\<open>DRAM_DDR2_AL\<close> is defined nowhere, so it is 0 there), and the two register
  structures as datatypes with the offsets of their comments. Times are nanoseconds over the clock period
  of the bus, in the integer division of C.
\<close>

definition DRAM_BUS_CLK_250MHZ :: u32 where [reg_defs]: "DRAM_BUS_CLK_250MHZ = 4"
definition DRAM_BUS_CLK_200MHZ :: u32 where [reg_defs]: "DRAM_BUS_CLK_200MHZ = 5"
definition SYS_DRAM_BUS_CLK :: u32 where [reg_defs]: "SYS_DRAM_BUS_CLK = DRAM_BUS_CLK_250MHZ"
definition DRAM_TYPE_DDR1 :: u32 where [reg_defs]: "DRAM_TYPE_DDR1 = 0"
definition DRAM_TYPE_DDR2 :: u32 where [reg_defs]: "DRAM_TYPE_DDR2 = 1"
definition SYS_DRAM_TYPE :: u32 where [reg_defs]: "SYS_DRAM_TYPE = DRAM_TYPE_DDR2"
definition DRAM_DDR2_ODT :: u32 where [reg_defs]: "DRAM_DDR2_ODT = 0"
definition A_K0BASE :: u32 where [reg_defs]: "A_K0BASE = 0x80000000"
definition SYS_MEM_BASE :: u32 where [reg_defs]: "SYS_MEM_BASE = A_K0BASE"
definition SYS_MEM_MAX_SIZE :: u32 where [reg_defs]: "SYS_MEM_MAX_SIZE = push_bit 29 1"
definition DRAM_CHIP_64MBIT :: u32 where [reg_defs]: "DRAM_CHIP_64MBIT = 1"
definition DRAM_CHIP_128MBIT :: u32 where [reg_defs]: "DRAM_CHIP_128MBIT = 2"
definition DRAM_CHIP_256MBIT :: u32 where [reg_defs]: "DRAM_CHIP_256MBIT = 3"
definition DRAM_CHIP_512MBIT :: u32 where [reg_defs]: "DRAM_CHIP_512MBIT = 4"
definition DRAM_CHIP_1024MBIT :: u32 where [reg_defs]: "DRAM_CHIP_1024MBIT = 5"
definition DRAM_CHIP_2048MBIT :: u32 where [reg_defs]: "DRAM_CHIP_2048MBIT = 6"

subsection \<open>The controller\<close>

definition DDR_CTL_BASE :: u32 where [reg_defs]: "DDR_CTL_BASE = 0xB9100000"

datatype ddr_ctl_reg =
    mem_cfg0 | mem_cfg1 | mem_cfg2 | mem_cfg3 | mem_cfg4 | mem_cfg5 | mem_cfg6 | mem_cfg7 | ctl_rsvd0 nat
  | prt_arb1 | pri_cnt0 | pri_cnt1 | pri_prd0 | pri_prd1 | prt_arb2 | prf_ctrl | ctl_rsvd1 nat
  | status_bw_util | status_px_cntr nat | status_plat | status_perf

fun ddr_ctl_offset :: "ddr_ctl_reg \<Rightarrow> u32" where
  "ddr_ctl_offset mem_cfg0 = 0x00"
| "ddr_ctl_offset mem_cfg1 = 0x04"
| "ddr_ctl_offset mem_cfg2 = 0x08"
| "ddr_ctl_offset mem_cfg3 = 0x0c"
| "ddr_ctl_offset mem_cfg4 = 0x10"
| "ddr_ctl_offset mem_cfg5 = 0x14"
| "ddr_ctl_offset mem_cfg6 = 0x18"
| "ddr_ctl_offset mem_cfg7 = 0x1c"
| "ddr_ctl_offset (ctl_rsvd0 i) = 0x20 + 4 * of_nat i"
| "ddr_ctl_offset prt_arb1 = 0x80"
| "ddr_ctl_offset pri_cnt0 = 0x84"
| "ddr_ctl_offset pri_cnt1 = 0x88"
| "ddr_ctl_offset pri_prd0 = 0x8c"
| "ddr_ctl_offset pri_prd1 = 0x90"
| "ddr_ctl_offset prt_arb2 = 0x94"
| "ddr_ctl_offset prf_ctrl = 0x98"
| "ddr_ctl_offset (ctl_rsvd1 i) = 0x9C + 4 * of_nat i"
| "ddr_ctl_offset status_bw_util = 0xD4"
| "ddr_ctl_offset (status_px_cntr i) = 0xD8 + 4 * of_nat i"
| "ddr_ctl_offset status_plat = 0xF8"
| "ddr_ctl_offset status_perf = 0xFC"

definition DDR_CTL :: "ddr_ctl_reg \<Rightarrow> u32" where [reg_defs]: "DDR_CTL r = DDR_CTL_BASE + ddr_ctl_offset r"

text \<open>The members in the order of the structure, the arrays written out.\<close>

definition ddr_ctl_struct :: "ddr_ctl_reg list" where
  "ddr_ctl_struct = [mem_cfg0, mem_cfg1, mem_cfg2, mem_cfg3, mem_cfg4, mem_cfg5, mem_cfg6, mem_cfg7]
     @ map ctl_rsvd0 [0..<24] @ [prt_arb1, pri_cnt0, pri_cnt1, pri_prd0, pri_prd1, prt_arb2, prf_ctrl]
     @ map ctl_rsvd1 [0..<14] @ [status_bw_util] @ map status_px_cntr [0..<8] @ [status_plat, status_perf]"

definition TIMING_RRD :: u32 where [reg_defs]: "TIMING_RRD = push_bit 28 (12 div SYS_DRAM_BUS_CLK)"
definition TIMING_RAS :: u32 where [reg_defs]: "TIMING_RAS = push_bit 23 (45 div SYS_DRAM_BUS_CLK)"
definition TIMING_RP :: u32 where [reg_defs]: "TIMING_RP = push_bit 19 (15 div SYS_DRAM_BUS_CLK)"
definition TIMING_RFC :: u32 where [reg_defs]: "TIMING_RFC = push_bit 13 (128 div SYS_DRAM_BUS_CLK)"
definition REFI_64MSEC :: u32 where [reg_defs]: "REFI_64MSEC = (64000000 div 8192) div SYS_DRAM_BUS_CLK"
definition REFI_32MSEC :: u32 where [reg_defs]: "REFI_32MSEC = (32000000 div 8192) div SYS_DRAM_BUS_CLK"
definition TIMING_WTR :: u32 where [reg_defs]: "TIMING_WTR = push_bit 28 (8 div SYS_DRAM_BUS_CLK)"
definition TIMING_RTP :: u32 where [reg_defs]: "TIMING_RTP = push_bit 24 (8 div SYS_DRAM_BUS_CLK)"
definition DRAM_CHIP_SIZE :: u32 where [reg_defs]: "DRAM_CHIP_SIZE = push_bit 18 DRAM_CHIP_1024MBIT"
definition SYS_MEM_SIZE :: u32 where [reg_defs]: "SYS_MEM_SIZE = push_bit (22 + unat DRAM_CHIP_1024MBIT) 1 * (32 div 16)"
definition SYS_MEM_TEST_SIZE :: u32 where [reg_defs]: "SYS_MEM_TEST_SIZE = push_bit 20 1"
definition DRAM_CHIP_4BIT :: u32 where [reg_defs]: "DRAM_CHIP_4BIT = 0"
definition DRAM_CHIP_8BIT :: u32 where [reg_defs]: "DRAM_CHIP_8BIT = 1"
definition DRAM_CHIP_16BIT :: u32 where [reg_defs]: "DRAM_CHIP_16BIT = 2"
definition DRAM_CHIP_WIDTH :: u32 where [reg_defs]: "DRAM_CHIP_WIDTH = push_bit 16 DRAM_CHIP_16BIT"
definition DRAM_SYS_1BANK_1MODULE :: u32 where [reg_defs]: "DRAM_SYS_1BANK_1MODULE = 0"
definition DRAM_SYS_2BANK_1MODULE :: u32 where [reg_defs]: "DRAM_SYS_2BANK_1MODULE = 1"
definition DRAM_SYS_4BANK_2MODULE :: u32 where [reg_defs]: "DRAM_SYS_4BANK_2MODULE = 2"
definition DRAM_SYS_2BANK_2MODULE :: u32 where [reg_defs]: "DRAM_SYS_2BANK_2MODULE = 3"
definition DRAM_SYS_BANKS :: u32 where [reg_defs]: "DRAM_SYS_BANKS = push_bit 14 DRAM_SYS_1BANK_1MODULE"
definition DRAM_SYS_CS_BITMASK :: u32 where [reg_defs]: "DRAM_SYS_CS_BITMASK = 1"
definition DRAM_SYS_BUS_64BIT :: u32 where [reg_defs]: "DRAM_SYS_BUS_64BIT = 0"
definition DRAM_SYS_BUS_16BIT :: u32 where [reg_defs]: "DRAM_SYS_BUS_16BIT = 2"
definition DRAM_SYS_BUS_32BIT :: u32 where [reg_defs]: "DRAM_SYS_BUS_32BIT = 3"
definition SYS_DRAM_WIDTH :: u32 where [reg_defs]: "SYS_DRAM_WIDTH = DRAM_SYS_BUS_32BIT"
definition MEM_STRB_WIDTH :: nat where [reg_defs]: "MEM_STRB_WIDTH = (if SYS_DRAM_WIDTH = DRAM_SYS_BUS_16BIT then 2 else 4)"
definition DRAM_SYS_BUS_WIDTH :: u32 where [reg_defs]: "DRAM_SYS_BUS_WIDTH = push_bit 12 SYS_DRAM_WIDTH"
definition TIMING_WR :: u32 where [reg_defs]: "TIMING_WR = push_bit 8 (16 div SYS_DRAM_BUS_CLK)"
definition TIMING_MRD :: u32 where [reg_defs]: "TIMING_MRD = push_bit 4 2"
definition TIMING_RCD :: u32 where [reg_defs]: "TIMING_RCD = push_bit 0 (16 div SYS_DRAM_BUS_CLK)"
definition WITH_EXT_REG_DELAY :: u32 where [reg_defs]: "WITH_EXT_REG_DELAY = push_bit 31 1"
definition MRS_DDR_TYPE :: u32 where [reg_defs]: "MRS_DDR_TYPE = push_bit 30 SYS_DRAM_TYPE"
definition DDRPHY_RDLAT_STG1 :: u32 where [reg_defs]: "DDRPHY_RDLAT_STG1 = push_bit 24 (4 + 2)"
definition SLOW_POWERDOWN_EXIT :: u32 where [reg_defs]: "SLOW_POWERDOWN_EXIT = push_bit 12 1"
definition AUTO_PRECHARGE_WR :: u32 where [reg_defs]: "AUTO_PRECHARGE_WR = push_bit 9 2"
definition WITH_DLL_RESET :: u32 where [reg_defs]: "WITH_DLL_RESET = push_bit 8 1"
definition CAS_LATENCY :: u32 where [reg_defs]: "CAS_LATENCY = 4"
definition TIMING_CAS :: u32 where [reg_defs]: "TIMING_CAS = push_bit 4 CAS_LATENCY"
definition BURST_MODE_SEQUENTIAL :: u32 where [reg_defs]: "BURST_MODE_SEQUENTIAL = 0"
definition BURST_MODE_INTERLEAVE :: u32 where [reg_defs]: "BURST_MODE_INTERLEAVE = 1"
definition BURST_MODE :: u32 where [reg_defs]: "BURST_MODE = push_bit 3 BURST_MODE_SEQUENTIAL"
definition BURST_LENGTH_2WORD :: u32 where [reg_defs]: "BURST_LENGTH_2WORD = 1"
definition BURST_LENGTH_4WORD :: u32 where [reg_defs]: "BURST_LENGTH_4WORD = 2"
definition BURST_LENGTH_8WORD :: u32 where [reg_defs]: "BURST_LENGTH_8WORD = 3"
definition BURST_LENGTH :: u32 where [reg_defs]: "BURST_LENGTH = push_bit 0 BURST_LENGTH_4WORD"
definition DISABLE_OUTPUT_BUF :: u32 where [reg_defs]: "DISABLE_OUTPUT_BUF = push_bit 12 0"
definition ENABLE_RDQS :: u32 where [reg_defs]: "ENABLE_RDQS = push_bit 11 0"
definition DISABLE_nDQS :: u32 where [reg_defs]: "DISABLE_nDQS = push_bit 10 1"
definition ENABLE_nDQS :: u32 where [reg_defs]: "ENABLE_nDQS = push_bit 10 0"
definition OCD_CALIBRATION_EXIT :: u32 where [reg_defs]: "OCD_CALIBRATION_EXIT = 0"
definition OCD_NO_CHANGE :: u32 where [reg_defs]: "OCD_NO_CHANGE = 0"
definition OCD_DRIVE1 :: u32 where [reg_defs]: "OCD_DRIVE1 = 1"
definition OCD_DRIVE0 :: u32 where [reg_defs]: "OCD_DRIVE0 = 2"
definition OCD_ADJUST :: u32 where [reg_defs]: "OCD_ADJUST = 4"
definition OCD_CALIBRATION_DEFAULT :: u32 where [reg_defs]: "OCD_CALIBRATION_DEFAULT = 7"
definition OCD_MODE :: u32 where [reg_defs]: "OCD_MODE = push_bit 7 OCD_NO_CHANGE"
definition DDR2_ODT_RTT1 :: u32 where [reg_defs]: "DDR2_ODT_RTT1 = (if DRAM_DDR2_ODT = 1 then (if SYS_DRAM_WIDTH = DRAM_SYS_BUS_16BIT then push_bit 6 0 else push_bit 6 1) else push_bit 6 0)"
definition DDR2_ODT_RTT0 :: u32 where [reg_defs]: "DDR2_ODT_RTT0 = (if DRAM_DDR2_ODT = 1 then (if SYS_DRAM_WIDTH = DRAM_SYS_BUS_16BIT then push_bit 2 1 else push_bit 2 0) else push_bit 2 0)"
definition DRIVE_STRENGTH_NOT_FULL :: u32 where [reg_defs]: "DRIVE_STRENGTH_NOT_FULL = push_bit 1 0"
definition DISABLE_DLL :: u32 where [reg_defs]: "DISABLE_DLL = push_bit 0 0"
definition DRAM_DDR2_AL :: u32 where [reg_defs]: "DRAM_DDR2_AL = 0"
definition ADDITIVE_LATENCY :: u32 where [reg_defs]: "ADDITIVE_LATENCY = (if DRAM_DDR2_AL = 1 then drop_bit 0 TIMING_RCD - 1 else 3)"
definition DDRCTL_ADDITIVE_LATENCY :: u32 where [reg_defs]: "DDRCTL_ADDITIVE_LATENCY = push_bit 3 ADDITIVE_LATENCY"
definition RD_CAS_LATENCY :: u32 where [reg_defs]: "RD_CAS_LATENCY = 4"
definition WR_CAS_LATENCY :: u32 where [reg_defs]: "WR_CAS_LATENCY = RD_CAS_LATENCY - 1"
definition FAW :: u32 where [reg_defs]: "FAW = 0xd"
definition ARB_2MICRO_TC :: u32 where [reg_defs]: "ARB_2MICRO_TC = push_bit 17 0x0190"
definition PERF_COUNTER_EN :: u32 where [reg_defs]: "PERF_COUNTER_EN = push_bit 16 0"
definition PERF_COUNT_SAMPLE_TIME :: u32 where [reg_defs]: "PERF_COUNT_SAMPLE_TIME = push_bit 9 0x40"
definition DDRPHY_RDLAT_STG2_0CLK :: u32 where [reg_defs]: "DDRPHY_RDLAT_STG2_0CLK = push_bit 6 0x0"
definition DDRPHY_RDLAT_STG2_1CLK :: u32 where [reg_defs]: "DDRPHY_RDLAT_STG2_1CLK = push_bit 6 0x1"
definition DDRPHY_RDLAT_STG2_2CLK :: u32 where [reg_defs]: "DDRPHY_RDLAT_STG2_2CLK = push_bit 6 0x3"
definition DDRPHY_RDLAT_STG2_3CLK :: u32 where [reg_defs]: "DDRPHY_RDLAT_STG2_3CLK = push_bit 6 0x5"
definition CMD_FIFO_LWM :: u32 where [reg_defs]: "CMD_FIFO_LWM = push_bit 3 0x4"
definition CMD_FIFO_HWM :: u32 where [reg_defs]: "CMD_FIFO_HWM = push_bit 0 0x7"
definition DDR_DWORD_CNTR_M :: u32 where [reg_defs]: "DDR_DWORD_CNTR_M = push_bit 17 1 - 1"
definition DDR_DWORD_CNTR_S :: nat where [reg_defs]: "DDR_DWORD_CNTR_S = 16"
definition DDR_IDLE_CNTR_M :: u32 where [reg_defs]: "DDR_IDLE_CNTR_M = push_bit 16 1 - 1"
definition DDR_IDLE_CNTR_S :: nat where [reg_defs]: "DDR_IDLE_CNTR_S = 1"
definition DDR_SCL_DONE :: u32 where [reg_defs]: "DDR_SCL_DONE = push_bit 0 1"

subsection \<open>The PHY\<close>

definition DDR_PHY_BASE :: u32 where [reg_defs]: "DDR_PHY_BASE = 0xB9108100"

datatype ddr_phy_reg =
    scl_start | scl_data0 | scl_data1 | scl_latency | scl_rd_addr | scl_rd_data | scl_cnfg1 | scl_cnfg2
  | pad_ctrl | dll_recalib | phy_rsvd nat | analog_dll1 | analog_dll2 | dll_incr_trim

fun ddr_phy_offset :: "ddr_phy_reg \<Rightarrow> u32" where
  "ddr_phy_offset scl_start = 0x00"
| "ddr_phy_offset scl_data0 = 0x04"
| "ddr_phy_offset scl_data1 = 0x08"
| "ddr_phy_offset scl_latency = 0x0c"
| "ddr_phy_offset scl_rd_addr = 0x10"
| "ddr_phy_offset scl_rd_data = 0x14"
| "ddr_phy_offset scl_cnfg1 = 0x18"
| "ddr_phy_offset scl_cnfg2 = 0x1c"
| "ddr_phy_offset pad_ctrl = 0x20"
| "ddr_phy_offset dll_recalib = 0x24"
| "ddr_phy_offset (phy_rsvd i) = 0x28 + 4 * of_nat i"
| "ddr_phy_offset analog_dll1 = 0x5c"
| "ddr_phy_offset analog_dll2 = 0x60"
| "ddr_phy_offset dll_incr_trim = 0x64"

definition DDR_PHY :: "ddr_phy_reg \<Rightarrow> u32" where [reg_defs]: "DDR_PHY r = DDR_PHY_BASE + ddr_phy_offset r"

definition ddr_phy_struct :: "ddr_phy_reg list" where
  "ddr_phy_struct = [scl_start, scl_data0, scl_data1, scl_latency, scl_rd_addr, scl_rd_data, scl_cnfg1,
     scl_cnfg2, pad_ctrl, dll_recalib] @ map phy_rsvd [0..<13] @ [analog_dll1, analog_dll2, dll_incr_trim]"

definition SCL_START_SAVE_DATA :: u32 where [reg_defs]: "SCL_START_SAVE_DATA = push_bit 31 1"
definition SCL_START_RESTORE_DATA :: u32 where [reg_defs]: "SCL_START_RESTORE_DATA = push_bit 31 0"
definition SCL_START_WRLVL :: u32 where [reg_defs]: "SCL_START_WRLVL = push_bit 30 1"
definition SCL_START_CONTINUOUS_R :: u32 where [reg_defs]: "SCL_START_CONTINUOUS_R = push_bit 29 1"
definition SCL_START_GO_DONE :: u32 where [reg_defs]: "SCL_START_GO_DONE = push_bit 28 1"
definition SCL_START_RD_ONLY :: u32 where [reg_defs]: "SCL_START_RD_ONLY = push_bit 25 1"
definition SCL_START_WR_ONLY :: u32 where [reg_defs]: "SCL_START_WR_ONLY = push_bit 24 1"
definition SCL_CUML_SCL_RSLT :: u32 where [reg_defs]: "SCL_CUML_SCL_RSLT = push_bit MEM_STRB_WIDTH 1 - 1"
definition SCL_EXT_LOOPBACK :: u32 where [reg_defs]: "SCL_EXT_LOOPBACK = push_bit 8 1"
definition DRAM_MAX_LATENCY :: u32 where [reg_defs]: "DRAM_MAX_LATENCY = 1"
definition REDUCE_RD_LATENCY :: u32 where [reg_defs]: "REDUCE_RD_LATENCY = 0"
definition REDUCE_CMD_LATENCY :: u32 where [reg_defs]: "REDUCE_CMD_LATENCY = 0"
definition SCL_MAIN_CLK_DLY :: u32 where [reg_defs]: "SCL_MAIN_CLK_DLY = push_bit 4 (3 + DRAM_MAX_LATENCY - REDUCE_CMD_LATENCY - REDUCE_RD_LATENCY)"
definition SCL_CAPTURE_CLK_DLY :: u32 where [reg_defs]: "SCL_CAPTURE_CLK_DLY = drop_bit 4 SCL_MAIN_CLK_DLY - 1"
definition SCL_ADDITIVE_LATENCY :: u32 where [reg_defs]: "SCL_ADDITIVE_LATENCY = push_bit 8 ADDITIVE_LATENCY"
definition SCL_RD_CAS_LATENCY :: u32 where [reg_defs]: "SCL_RD_CAS_LATENCY = push_bit 4 RD_CAS_LATENCY"
definition SCL_DDR_TYPE :: u32 where [reg_defs]: "SCL_DDR_TYPE = push_bit 1 SYS_DRAM_TYPE"
definition SCL_BURST_LENGTH_4 :: u32 where [reg_defs]: "SCL_BURST_LENGTH_4 = push_bit 0 0"
definition SCL_BURST_LENGTH_8 :: u32 where [reg_defs]: "SCL_BURST_LENGTH_8 = push_bit 0 1"
definition DYN_TERM_PADS_DISABLE :: u32 where [reg_defs]: "DYN_TERM_PADS_DISABLE = push_bit 0 1"
definition DYN_TERM_PADS_ENABLE :: u32 where [reg_defs]: "DYN_TERM_PADS_ENABLE = push_bit 1 1"
definition DYN_TERM_1CLK_AFTER_READ_BURST :: u32 where [reg_defs]: "DYN_TERM_1CLK_AFTER_READ_BURST = push_bit 2 1"
definition DYN_TERM_2CLK_AFTER_READ_BURST :: u32 where [reg_defs]: "DYN_TERM_2CLK_AFTER_READ_BURST = push_bit 2 3"
definition SCL_LOCAL_ODT_CTRL :: u32 where [reg_defs]: "SCL_LOCAL_ODT_CTRL = (if DRAM_DDR2_ODT = 0 then push_bit 12 DYN_TERM_1CLK_AFTER_READ_BURST else push_bit 12 DYN_TERM_PADS_DISABLE)"
definition SCL_DDR_ODT_CTRL_RD :: u32 where [reg_defs]: "SCL_DDR_ODT_CTRL_RD = push_bit 16 0"
definition SCL_DDR_ODT_CTRL_WR :: u32 where [reg_defs]: "SCL_DDR_ODT_CTRL_WR = push_bit 24 DRAM_SYS_CS_BITMASK"
definition SCL_TEST_CS :: u32 where [reg_defs]: "SCL_TEST_CS = push_bit 0 DRAM_SYS_CS_BITMASK"
definition SCL_WR_CAS_LATENCY :: u32 where [reg_defs]: "SCL_WR_CAS_LATENCY = push_bit 8 WR_CAS_LATENCY"
definition SCL_DQ_DQS_TERM :: u32 where [reg_defs]: "SCL_DQ_DQS_TERM = 0"
definition SCL_DQ_DQS_DRIVE :: u32 where [reg_defs]: "SCL_DQ_DQS_DRIVE = push_bit 4 2"
definition CAL_FAULT_SEEN :: u32 where [reg_defs]: "CAL_FAULT_SEEN = push_bit 7 1"
definition CAL_EXTRA_OEN_CLK :: u32 where [reg_defs]: "CAL_EXTRA_OEN_CLK = push_bit 8 1"
definition CAL_NO_EXTERNAL_DLL :: u32 where [reg_defs]: "CAL_NO_EXTERNAL_DLL = push_bit 9 1"
definition SCL_DLY_DFI_WRCMD :: u32 where [reg_defs]: "SCL_DLY_DFI_WRCMD = push_bit 13 (WR_CAS_LATENCY AND 1)"
definition SCL_ADRCTRL_DRIVE :: u32 where [reg_defs]: "SCL_ADRCTRL_DRIVE = push_bit 16 0"
definition SCL_CLK_DRIVE :: u32 where [reg_defs]: "SCL_CLK_DRIVE = push_bit 20 0"
definition SCL_RECALIB_CNT :: u32 where [reg_defs]: "SCL_RECALIB_CNT = 0x001000"
definition SCL_DISABLE_RECALIB :: u32 where [reg_defs]: "SCL_DISABLE_RECALIB = push_bit 26 1"
definition SCL_CTR_START_VAL :: u32 where [reg_defs]: "SCL_CTR_START_VAL = push_bit 28 3"
definition SCL_ANALOG_DLL_RESET :: u32 where [reg_defs]: "SCL_ANALOG_DLL_RESET = push_bit MEM_STRB_WIDTH 1 - 1"
definition SCL_NO_ANALOG_DLL_WRCLK :: u32 where [reg_defs]: "SCL_NO_ANALOG_DLL_WRCLK = push_bit 24 1"
definition SCL_ANALOG_DLL_LOCK_MSK :: u32 where [reg_defs]: "SCL_ANALOG_DLL_LOCK_MSK = push_bit MEM_STRB_WIDTH 1 - 1"
definition SCL_MAS_DLY_MSK :: u32 where [reg_defs]: "SCL_MAS_DLY_MSK = push_bit 24 0xff"

subsection \<open>Layout\<close>

text \<open>
  Both structures are words without a hole: the member at position \<open>i\<close> lies at four times \<open>i\<close>, which is
  the offset its comment gives, so that the controller ends with \<open>status_perf\<close> at \<open>0xB91000FC\<close> and the
  PHY with \<open>dll_incr_trim\<close> at \<open>0xB9108164\<close>.
\<close>

theorem ddr_layout:
  "map ddr_ctl_offset ddr_ctl_struct = map (\<lambda>i. 4 * of_nat i) [0..<64]
   \<and> map ddr_phy_offset ddr_phy_struct = map (\<lambda>i. 4 * of_nat i) [0..<26]
   \<and> DDR_CTL status_perf = 0xB91000FC \<and> DDR_PHY dll_incr_trim = 0xB9108164"
  by (intro conjI; code_simp)

end
