(* ===== verification/Ddr.thy ===== *)
theory Ddr
  imports Ddr_Regs
begin

unbundle bit_operations_syntax

section \<open>DDR bring-up and memory test (boot/soc\_landshark/dram\_ram.c)\<close>

text \<open>
  The functions of \<^verbatim>\<open>dram_ram.c\<close> in the order of the file. The memory under test is reached through
  volatile pointers, so its words are accesses of the machine like those of registers: a board that
  mirrors addresses or loses bits is a machine too. The code behind \<open>#if 0\<close> and the verification of
  other access widths are not compiled and have no definition here. \<open>dbg n c\<close> is code under
  \<open>#if (DEBUG_LEVEL > n)\<close>.
\<close>

definition dbg :: "config \<Rightarrow> nat \<Rightarrow> ('d sys \<Rightarrow> 'd sys option) \<Rightarrow> 'd sys \<Rightarrow> 'd sys option" where
  "dbg cf n c s = (if n < DEBUG_LEVEL cf then c s else Some s)"

text \<open>A string that starts with a line break, and the eight backspaces of the progress display.\<close>

definition nl :: "string \<Rightarrow> u8 list" where
  "nl t = str ([CHR 0x0D, CHR 0x0A] @ t)"

definition backspaces :: "u8 list" where
  "backspaces = replicate 8 0x08"

subsection \<open>Reset and PHY\<close>

definition RST_CLKGATE_MSK_DDR_CTRL :: u32 where [reg_defs]: "RST_CLKGATE_MSK_DDR_CTRL = push_bit 27 1"
definition RST_MSK_DDR_CTRL_AHB :: u32 where [reg_defs]: "RST_MSK_DDR_CTRL_AHB = push_bit 28 1"
definition DDR_CTRL_CLK_GATE :: u32 where [reg_defs]: "DDR_CTRL_CLK_GATE = push_bit 27 1"
definition DDR_CTRL_CLK_SRC :: u32 where [reg_defs]: "DDR_CTRL_CLK_SRC = push_bit 29 1"

definition ddr_system_reset :: "config \<Rightarrow> 'd machine \<Rightarrow> 'd sys \<Rightarrow> 'd sys option" where
  "ddr_system_reset cf M s = do {
     let s = scu_clr M rst_mask (RST_CLKGATE_MSK_DDR_CTRL OR RST_MSK_DDR_CTRL_AHB) s;
     let s = scu_clr M clkgate DDR_CTRL_CLK_SRC s;
     let s = scu_set M clkgate DDR_CTRL_CLK_GATE s;
     s \<leftarrow> dbg cf 1 (c_put_str M (nl ''  reset_ddr_hold'')) s;
     s \<leftarrow> mdelay M 1 s;
     let s = scu_set M rst_vec (RST_CLKGATE_MSK_DDR_CTRL OR RST_MSK_DDR_CTRL_AHB) s;
     s \<leftarrow> dbg cf 1 (c_put_str M (nl ''  reset_ddr_free'')) s;
     Some (scu_set M rst_mask (RST_CLKGATE_MSK_DDR_CTRL OR RST_MSK_DDR_CTRL_AHB) s)
   }"

definition ddr_phy_init :: "config \<Rightarrow> 'd machine \<Rightarrow> 'd sys \<Rightarrow> 'd sys option" where
  "ddr_phy_init cf M s = do {
     let s = H_WR32 M (DDR_PHY scl_latency) (SCL_MAIN_CLK_DLY OR SCL_CAPTURE_CLK_DLY) s;
     let s = H_WR32 M (DDR_PHY scl_cnfg1) (SCL_DDR_ODT_CTRL_WR OR SCL_DDR_ODT_CTRL_RD OR SCL_LOCAL_ODT_CTRL
               OR SCL_ADDITIVE_LATENCY OR SCL_RD_CAS_LATENCY OR SCL_DDR_TYPE OR SCL_BURST_LENGTH_4) s;
     let s = H_WR32 M (DDR_PHY scl_cnfg2) (SCL_WR_CAS_LATENCY OR SCL_TEST_CS) s;
     let s = H_WR32 M (DDR_PHY pad_ctrl) (CAL_NO_EXTERNAL_DLL OR SCL_DQ_DQS_DRIVE) s;
     let s = H_WR32 M (DDR_PHY dll_recalib) (SCL_CTR_START_VAL OR SCL_RECALIB_CNT) s;
     let s = H_WR32 M (DDR_PHY analog_dll1) SCL_NO_ANALOG_DLL_WRCLK s;
     dbg cf 2 (debugDumpRegs M DDR_PHY_BASE 12) s
   }"

definition ddr_phy_polling_idle :: "config \<Rightarrow> 'd machine \<Rightarrow> 'd sys \<Rightarrow> 'd sys option" where
  "ddr_phy_polling_idle cf M s = do {
     s \<leftarrow> dbg cf 2 (debugDumpVolatileReg M (DDR_CTL status_perf) 1) s;
     s \<leftarrow> dbg cf 1 (c_put_str M (nl ''  ddr_phy_polling_idle start'')) s;
     s \<leftarrow> c_poll32_until_set M (DDR_CTL status_perf) DDR_SCL_DONE s;
     s \<leftarrow> dbg cf 2 (debugDumpVolatileReg M (DDR_CTL status_perf) 1) s;
     dbg cf 1 (c_put_str M (nl ''  ddr_phy_polling_idle exit'')) s
   }"

subsection \<open>Controller\<close>

definition a_tRFC :: "u32 list" where
  "a_tRFC = [0x13, 0x1a, 0x20, 0x31]"

text \<open>\<open>a_tRFC[cS]\<close> outside of the table is undefined in C and None here.\<close>

definition ddr_ctl_timing :: "config \<Rightarrow> 'd machine \<Rightarrow> u32 \<Rightarrow> u32 \<Rightarrow> u32 \<Rightarrow> 'd sys \<Rightarrow> 'd sys option" where
  "ddr_ctl_timing cf M cS cW bW s =
     (if DDR_AUTO_DETECT cf then do {
        let s = (if 0 = bW then rmw32 M (DDR_CTL prf_ctrl) (\<lambda>v. v OR DDRPHY_RDLAT_STG2_1CLK) s else s);
        tRFC \<leftarrow> arr_get a_tRFC (unat cS);
        let s = H_WR32 M (DDR_CTL mem_cfg0)
                  (TIMING_RRD OR TIMING_RAS OR TIMING_RP OR push_bit 13 tRFC OR REFI_64MSEC) s;
        Some (H_WR32 M (DDR_CTL mem_cfg1)
                  (TIMING_WTR OR TIMING_RTP OR push_bit 18 (cS + 3) OR push_bit 16 cW OR DRAM_SYS_BANKS
                   OR push_bit 12 (bW + 2) OR TIMING_WR OR TIMING_MRD OR TIMING_RCD) s)
      } else do {
        let s = (if SYS_DRAM_WIDTH = DRAM_SYS_BUS_16BIT
                 then rmw32 M (DDR_CTL prf_ctrl) (\<lambda>v. v OR DDRPHY_RDLAT_STG2_1CLK) s else s);
        let s = H_WR32 M (DDR_CTL mem_cfg0)
                  (TIMING_RRD OR TIMING_RAS OR TIMING_RP OR TIMING_RFC OR REFI_64MSEC) s;
        Some (H_WR32 M (DDR_CTL mem_cfg1)
                  (TIMING_WTR OR TIMING_RTP OR DRAM_CHIP_SIZE OR DRAM_CHIP_WIDTH OR DRAM_SYS_BANKS
                   OR DRAM_SYS_BUS_WIDTH OR TIMING_WR OR TIMING_MRD OR TIMING_RCD) s)
      })"

definition ddr_ctl_init :: "config \<Rightarrow> 'd machine \<Rightarrow> u32 \<Rightarrow> u32 \<Rightarrow> u32 \<Rightarrow> 'd sys \<Rightarrow> 'd sys option" where
  "ddr_ctl_init cf M cS cW bW s = do {
     s \<leftarrow> ddr_ctl_timing cf M cS cW bW s;
     let s = H_WR32 M (DDR_CTL mem_cfg2) (WITH_EXT_REG_DELAY OR MRS_DDR_TYPE OR DDRPHY_RDLAT_STG1
               OR SLOW_POWERDOWN_EXIT OR AUTO_PRECHARGE_WR OR WITH_DLL_RESET
               OR TIMING_CAS OR BURST_MODE OR BURST_LENGTH) s;
     let s = H_WR32 M (DDR_CTL mem_cfg2) (WITH_EXT_REG_DELAY OR MRS_DDR_TYPE OR DDRPHY_RDLAT_STG1
               OR SLOW_POWERDOWN_EXIT OR AUTO_PRECHARGE_WR
               OR TIMING_CAS OR BURST_MODE OR BURST_LENGTH) s;
     let s = H_WR32 M (DDR_CTL mem_cfg3) (DISABLE_OUTPUT_BUF OR ENABLE_RDQS OR ENABLE_nDQS OR OCD_MODE
               OR DDR2_ODT_RTT1 OR DDRCTL_ADDITIVE_LATENCY OR DDR2_ODT_RTT0 OR DRIVE_STRENGTH_NOT_FULL
               OR DISABLE_DLL) s;
     let s = H_WR32 M (DDR_CTL mem_cfg4) FAW s;
     let s = H_WR32 M (DDR_CTL mem_cfg5) 0 s;
     let s = H_WR32 M (DDR_CTL mem_cfg6) 0 s;
     s \<leftarrow> dbg cf 2 (debugDumpRegs M DDR_CTL_BASE 8) s;
     s \<leftarrow> dbg cf 2 (debugDumpRegs M (DDR_CTL_BASE + 0x80) 7) s;
     Some (H_WR32 M (DDR_CTL mem_cfg7) 0 s)
   }"

text \<open>The wait is a loop over a local counter, which no device sees.\<close>

definition ddr_ctl_polling_idle :: "config \<Rightarrow> 'd machine \<Rightarrow> 'd sys \<Rightarrow> 'd sys option" where
  "ddr_ctl_polling_idle cf M s = do {
     s \<leftarrow> dbg cf 2 (debugDumpVolatileReg M (DDR_CTL status_perf) 1) s;
     s \<leftarrow> dbg cf 1 (c_put_str M (nl ''  ddr_ctl_polling start'')) s;
     s \<leftarrow> dbg cf 2 (debugDumpVolatileReg M (DDR_CTL status_perf) 1) s;
     dbg cf 1 (c_put_str M (nl ''  ddr_ctl_polling exit'')) s
   }"

subsection \<open>Calibration\<close>

definition ddr_scl_polling_start :: "config \<Rightarrow> 'd machine \<Rightarrow> 'd sys \<Rightarrow> 'd sys option" where
  "ddr_scl_polling_start cf M s = do {
     s \<leftarrow> dbg cf 2 (debugDumpVolatileReg M (DDR_PHY scl_start) 1) s;
     s \<leftarrow> dbg cf 1 (c_put_str M (nl ''  ddr_scl_start issue'')) s;
     s \<leftarrow> c_poll32_until_clr M (DDR_PHY scl_start) SCL_START_GO_DONE s;
     s \<leftarrow> dbg cf 2 (debugDumpVolatileReg M (DDR_PHY scl_start) 1) s;
     dbg cf 1 (c_put_str M (nl ''  ddr_scl_start done'')) s
   }"

definition ddr_scl_save_offset0 :: "config \<Rightarrow> 'd machine \<Rightarrow> 'd sys \<Rightarrow> 'd sys option" where
  "ddr_scl_save_offset0 cf M s = ddr_scl_polling_start cf M
     (H_WR32 M (DDR_PHY scl_start) (SCL_START_SAVE_DATA OR SCL_START_RD_ONLY OR SCL_START_GO_DONE) s)"

definition ddr_scl_restore_offset0 :: "config \<Rightarrow> 'd machine \<Rightarrow> 'd sys \<Rightarrow> 'd sys option" where
  "ddr_scl_restore_offset0 cf M s = ddr_scl_polling_start cf M
     (H_WR32 M (DDR_PHY scl_start) (SCL_START_RESTORE_DATA OR SCL_START_WR_ONLY OR SCL_START_GO_DONE) s)"

definition ddr_scl_read_read :: "config \<Rightarrow> 'd machine \<Rightarrow> 'd sys \<Rightarrow> 'd sys option" where
  "ddr_scl_read_read cf M s = ddr_scl_polling_start cf M
     (H_WR32 M (DDR_PHY scl_start) (SCL_START_CONTINUOUS_R OR SCL_START_GO_DONE) s)"

definition ddr_scl_write_read :: "config \<Rightarrow> 'd machine \<Rightarrow> 'd sys \<Rightarrow> 'd sys option" where
  "ddr_scl_write_read cf M s = ddr_scl_polling_start cf M
     (H_WR32 M (DDR_PHY scl_start) SCL_START_GO_DONE s)"

definition scl_column_mask :: "config \<Rightarrow> u32 \<Rightarrow> u32" where
  "scl_column_mask cf bW =
     (if \<not> DDR_AUTO_DETECT cf then SCL_CUML_SCL_RSLT else push_bit (unat (2 * bW + 2)) 1 - 1)"

definition ddr_scl_result_ok :: "config \<Rightarrow> 'd machine \<Rightarrow> u32 \<Rightarrow> 'd sys \<Rightarrow> bool \<times> 'd sys" where
  "ddr_scl_result_ok cf M bW s =
     (let column_mask = scl_column_mask cf bW;
          (v, s) = H_RD32 M (DDR_PHY scl_start) s
      in (column_mask = v AND column_mask, s))"

definition ddr_scl_run :: "config \<Rightarrow> 'd machine \<Rightarrow> u32 \<Rightarrow> 'd sys \<Rightarrow> (u32 \<times> 'd sys) option" where
  "ddr_scl_run cf M bW s = do {
     s \<leftarrow> ddr_scl_read_read cf M s;
     s \<leftarrow> ddr_scl_write_read cf M s;
     let (temp, s) = ddr_scl_result_ok cf M bW s;
     Some (if temp then 0 else 1, s)
   }"

subsection \<open>Memory test\<close>

text \<open>The two loops of \<open>ram_pattern_verify\<close>; both test their end after the first word.\<close>

partial_function (option) pattern_write ::
    "'d machine \<Rightarrow> u32 \<Rightarrow> u32 \<Rightarrow> u32 \<Rightarrow> u32 \<Rightarrow> 'd sys \<Rightarrow> 'd sys option" where
  "pattern_write M p32 end0 granularity pattern32 s =
     (let s = H_WR32 M p32 pattern32 s;
          p32 = p32 + 4 * (granularity div 4)
      in if p32 < end0 then pattern_write M p32 end0 granularity pattern32 s else Some s)"

definition verify_progress :: "config \<Rightarrow> 'd machine \<Rightarrow> u32 \<Rightarrow> u32 \<Rightarrow> 'd sys \<Rightarrow> 'd sys option" where
  "verify_progress cf M start p32 s = dbg cf 2 (\<lambda>s. do {
     s \<leftarrow> (if p32 \<noteq> start then c_put_str M backspaces s else Some s);
     s \<leftarrow> c_put_hex16 M (ucast (drop_bit 16 p32)) s;
     c_put_hex16 M (ucast p32) s
   }) s"

partial_function (option) pattern_check ::
    "config \<Rightarrow> 'd machine \<Rightarrow> u32 \<Rightarrow> u32 \<Rightarrow> u32 \<Rightarrow> u32 \<Rightarrow> u32 \<Rightarrow> 'd sys \<Rightarrow> (u32 \<times> 'd sys) option" where
  "pattern_check cf M start p32 end0 granularity pattern32 s =
     (let (v, s) = H_RD32 M p32 s
      in if v \<noteq> pattern32 then do {
           s \<leftarrow> dbg cf 0 (\<lambda>s. do { s \<leftarrow> c_put_str M (str '' '') s; debugDumpStaticReg M p32 0 s }) s;
           Some (1, s)
         } else do {
           s \<leftarrow> verify_progress cf M start p32 s;
           let p32 = p32 + 4 * (granularity div 4);
           if p32 < end0 then pattern_check cf M start p32 end0 granularity pattern32 s else Some (0, s)
         })"

definition ram_pattern_verify ::
    "config \<Rightarrow> 'd machine \<Rightarrow> u32 \<Rightarrow> u32 \<Rightarrow> u32 \<Rightarrow> u32 \<Rightarrow> 'd sys \<Rightarrow> (u32 \<times> 'd sys) option" where
  "ram_pattern_verify cf M start granularity counter pattern s = do {
     let end0 = start + granularity * counter;
     s \<leftarrow> pattern_write M start end0 granularity pattern s;
     pattern_check cf M start start end0 granularity pattern s
   }"

definition verify_title :: "config \<Rightarrow> 'd machine \<Rightarrow> u32 \<Rightarrow> char \<Rightarrow> 'd sys \<Rightarrow> 'd sys option" where
  "verify_title cf M pattern c s =
     (if 1 < DEBUG_LEVEL cf then do {
        s \<leftarrow> c_put_str M (nl ''  write-read verification with '') s;
        s \<leftarrow> c_put_hex16 M (ucast (drop_bit 16 pattern)) s;
        s \<leftarrow> c_put_hex16 M (ucast pattern) s;
        c_put_str M (str '': '') s
      } else if 0 < DEBUG_LEVEL cf then c_put_char M (of_char c) s
      else Some s)"

text \<open>The loop on \<open>i\<close> with \<open>n\<close> rounds left.\<close>

fun bitflip_loop ::
    "config \<Rightarrow> 'd machine \<Rightarrow> u32 \<Rightarrow> u32 \<Rightarrow> u32 \<Rightarrow> nat \<Rightarrow> nat \<Rightarrow> 'd sys \<Rightarrow> (u32 \<times> 'd sys) option" where
  "bitflip_loop cf M start granularity counter i 0 s = Some (0, s)"
| "bitflip_loop cf M start granularity counter i (Suc n) s = do {
     s \<leftarrow> verify_title cf M (push_bit i 1) (CHR ''.'') s;
     (r, s) \<leftarrow> ram_pattern_verify cf M start granularity counter (push_bit i 1) s;
     if r \<noteq> 0 then Some (1, s)
     else do {
       s \<leftarrow> verify_title cf M (NOT (push_bit i 1)) (CHR ''~'') s;
       (r, s) \<leftarrow> ram_pattern_verify cf M start granularity counter (NOT (push_bit i 1)) s;
       if r \<noteq> 0 then Some (2, s) else bitflip_loop cf M start granularity counter (Suc i) n s
     }
   }"

definition ram_verify_bitflip :: "config \<Rightarrow> 'd machine \<Rightarrow> u32 \<Rightarrow> u32 \<Rightarrow> 'd sys \<Rightarrow> (u32 \<times> 'd sys) option" where
  "ram_verify_bitflip cf M start size0 s =
     (let granularity = 4096; counter = size0 div granularity
      in bitflip_loop cf M start granularity counter 0
           (8 * (if 0 < granularity div 4 then 4 else unat granularity)) s)"

subsection \<open>c\_auto\_ddr\<close>

text \<open>
  One pass of the innermost loop body: the result is True for the pass that ends in \<open>return 0\<close> and False
  for \<open>continue\<close>. Only the build with \<open>DDR_AUTO_DETECT\<close> is defined; the other branch of \<open>c_auto_ddr\<close> uses
  \<open>totalSize\<close>, which it does not declare.
\<close>

definition chpWidth :: "u32 list" where "chpWidth = [4, 8, 16]"
definition busWidth :: "u32 list" where "busWidth = [16, 32]"

definition auto_ddr_title :: "config \<Rightarrow> 'd machine \<Rightarrow> nat \<Rightarrow> u32 \<Rightarrow> u32 \<Rightarrow> 'd sys \<Rightarrow> 'd sys option" where
  "auto_ddr_title cf M cS chip bus s = dbg cf 1 (\<lambda>s. do {
     s \<leftarrow> c_put_str M (nl '' Try #'') s;
     s \<leftarrow> c_put_str M (str '' Size:'') s;
     s \<leftarrow> c_put_dec M (push_bit (8 + cS) 1) s;
     s \<leftarrow> c_put_str M (str ''Mbits'') s;
     s \<leftarrow> c_put_str M (str ''(Width:'') s;
     s \<leftarrow> c_put_dec M chip s;
     s \<leftarrow> c_put_str M (str ''-bit'') s;
     s \<leftarrow> c_put_str M (str ''), Bus:'') s;
     s \<leftarrow> c_put_dec M bus s;
     c_put_str M (str ''-bit'') s
   }) s"

definition auto_ddr_try :: "config \<Rightarrow> 'd machine \<Rightarrow> nat \<times> nat \<times> nat \<Rightarrow> 'd sys \<Rightarrow> (bool \<times> 'd sys) option" where
  "auto_ddr_try cf M = (\<lambda>(cS, cW, bW) s. do {
     let chpSize = (push_bit (25 + cS) 1 :: u32);
     bus \<leftarrow> arr_get busWidth bW;
     chip \<leftarrow> arr_get chpWidth cW;
     let totalSize = chpSize * (bus div chip);
     if SYS_MEM_MAX_SIZE < totalSize then Some (False, s)
        else do {
          s \<leftarrow> auto_ddr_title cf M cS chip bus s;
          s \<leftarrow> ddr_system_reset cf M s;
          s \<leftarrow> ddr_phy_init cf M s;
          s \<leftarrow> ddr_phy_polling_idle cf M s;
          s \<leftarrow> ddr_ctl_init cf M (of_nat cS) (of_nat cW) (of_nat bW) s;
          s \<leftarrow> ddr_ctl_polling_idle cf M s;
          s \<leftarrow> c_put_str M (nl '' SCL calibration:'') s;
          (bad, s) \<leftarrow> ddr_scl_run cf M (of_nat bW) s;
          if bad \<noteq> 0 then do { s \<leftarrow> c_put_str M (nl '' NG'') s; Some (False, s) }
          else do {
            s \<leftarrow> c_put_str M (nl '' OK'') s;
            s \<leftarrow> c_put_str M (nl '' data integrity:'') s;
            (bad, s) \<leftarrow> ram_verify_bitflip cf M SYS_MEM_BASE totalSize s;
            if bad \<noteq> 0 then do { s \<leftarrow> c_put_str M (nl '' NG'') s; Some (False, s) }
            else do { s \<leftarrow> c_put_str M (nl '' OK'') s; Some (True, s) }
          }
        }
     })"

fun auto_ddr_loop :: "config \<Rightarrow> 'd machine \<Rightarrow> (nat \<times> nat \<times> nat) list \<Rightarrow> 'd sys \<Rightarrow> (u32 \<times> 'd sys) option" where
  "auto_ddr_loop cf M [] s = Some (1, s)"
| "auto_ddr_loop cf M (c # cs) s = do {
     (found, s) \<leftarrow> auto_ddr_try cf M c s;
     if found then Some (0, s) else auto_ddr_loop cf M cs s
   }"

text \<open>The three nested loops: \<open>cS\<close> from 2 below 3, \<open>cW\<close> from 2 below 3, \<open>bW\<close> from 1 below 2.\<close>

definition auto_ddr_cands :: "(nat \<times> nat \<times> nat) list" where
  "auto_ddr_cands = [(cS, cW, bW). cS \<leftarrow> [2..<3], cW \<leftarrow> [2..<3], bW \<leftarrow> [1..<2]]"

definition c_auto_ddr :: "config \<Rightarrow> 'd machine \<Rightarrow> 'd sys \<Rightarrow> (u32 \<times> 'd sys) option" where
  "c_auto_ddr cf M s = auto_ddr_loop cf M auto_ddr_cands s"

end
