(* ===== verification/Steady.thy ===== *)
theory Steady
  imports Uart
begin

unbundle bit_operations_syntax

section \<open>Total steps that keep a predicate\<close>

text \<open>
  Debug output, register dumps and polls come between the steps that matter. \<open>steady P c\<close> is total
  correctness with \<open>P\<close> before and after: from a state in \<open>P\<close> the step \<open>c\<close> returns, in a state in \<open>P\<close>. The
  rules compose such steps the way the do blocks of the model do, and in the interfaces \<open>steady_put\<close> and \<open>steady_port\<close>
  every routine of the console is one.
\<close>

definition steady :: "('d sys \<Rightarrow> bool) \<Rightarrow> ('d sys \<Rightarrow> 'd sys option) \<Rightarrow> bool" where
  "steady P c \<longleftrightarrow> (\<forall>s. P s \<longrightarrow> (\<exists>t. c s = Some t \<and> P t))"

named_theorems steady_intros

lemma steadyI: "(\<And>s. P s \<Longrightarrow> \<exists>t. c s = Some t \<and> P t) \<Longrightarrow> steady P c"
  by (simp add: steady_def)

lemma steadyD: "steady P c \<Longrightarrow> P s \<Longrightarrow> \<exists>t. c s = Some t \<and> P t"
  by (simp add: steady_def)

lemma steadyE:
  assumes "steady P c" "P s"
  obtains t where "c s = Some t" "P t"
  using assms by (auto simp: steady_def)

lemma steady_Some [steady_intros]: "steady P Some" "steady P (\<lambda>s. Some s)"
  by (simp_all add: steady_def)

lemma steady_bind [steady_intros]: "steady P c \<Longrightarrow> steady P f \<Longrightarrow> steady P (\<lambda>s. Option.bind (c s) f)"
  by (fastforce simp: steady_def)

lemma steady_if [steady_intros]:
  "(b \<Longrightarrow> steady P c) \<Longrightarrow> (\<not> b \<Longrightarrow> steady P f) \<Longrightarrow> steady P (\<lambda>s. if b then c s else f s)"
  by (simp add: steady_def)

lemma steady_step:
  assumes "\<And>s. P s \<Longrightarrow> P (g s)" "steady P f"
  shows "steady P (\<lambda>s. f (g s))"
  using assms by (simp add: steady_def)

text \<open>A console whose characters keep \<open>P\<close>.\<close>

locale steady_put =
  fixes M :: "'d machine" and P :: "'d sys \<Rightarrow> bool"
  assumes put: "steady P (c_put_char M c)"
begin

lemma put_str: "steady P (c_put_str M cs)"
proof (induction cs)
  case Nil
  then show ?case by (simp add: steady_def)
next
  case (Cons c cs)
  have "steady P (\<lambda>s. if c = 0 then Some s else Option.bind (c_put_char M c s) (c_put_str M cs))"
    by (intro steady_intros put Cons.IH)
  then show ?case by (simp cong: if_cong)
qed

lemma put_hex16: "steady P (c_put_hex16 M u)"
  unfolding c_put_hex16_chars [abs_def] using put_str by (simp add: steady_def)

lemma put_hex32: "steady P (c_put_hex32 M v)"
  unfolding c_put_hex32_def [abs_def] by (intro steady_intros put_hex16)

lemma put_dec: "steady P (c_put_dec M d)"
proof -
  have "unat d < 2 ^ 32" using unsigned_less [of d] by simp
  then have "length (dec_digits (unat d)) \<le> 10"
    by (intro length_dec_digits [of "unat d" 9, simplified]) simp
  then have "c_put_dec M d = c_put_str M (map (\<lambda>k. 0x30 + of_nat k) (dec_digits (unat d)))"
    using c_put_dec_fill_digits [of 0 d "replicate 10 0"] dec_print_rev [of "dec_digits (unat d)", where M = M] dec_digits_less
    by (simp add: c_put_dec_def fun_eq_iff)
  then show ?thesis by (simp add: put_str)
qed

lemmas put_steady = put put_str put_hex16 put_hex32 put_dec

end

text \<open>A machine whose register loads keep \<open>P\<close> as well.\<close>

locale steady_port = steady_put M P for M :: "'d machine" and P +
  assumes load: "P s \<Longrightarrow> H_RD32 M a s = (v, t) \<Longrightarrow> P t"
begin

lemma steady_load:
  "(\<And>v. steady P (f v)) \<Longrightarrow> steady P (\<lambda>s. case H_RD32 M a s of (v, s) \<Rightarrow> f v s)"
  by (auto simp: steady_def dest: load split: prod.splits)

lemma dump_static: "steady P (debugDumpStaticReg M a flag)"
  unfolding debugDumpStaticReg_def [abs_def] Let_def by (intro steady_intros put_steady steady_load)

lemma dump_volatile: "steady P (debugDumpVolatileReg M a flag)"
  unfolding debugDumpVolatileReg_def [abs_def] Let_def by (intro steady_intros put_steady steady_load)

lemma dump_regs:
  assumes "unat count < 2 ^ 29"
  shows "steady P (debugDumpRegs M base count)"
proof -
  have c: "unat (count * 4) = 4 * unat count"
    using assms by (subst unat_mult_lem [THEN iffD1]) simp_all
  have "unat i + 4 * n = 4 * unat count \<Longrightarrow> steady P (debugDumpRegs_loop M base count i)" for n i
  proof (induction n arbitrary: i)
    case 0
    then have "\<not> i < count * 4" by (simp add: word_less_nat_alt c)
    then show ?case
      by (subst debugDumpRegs_loop.simps [abs_def]) (simp add: steady_Some)
  next
    case (Suc n)
    then have lt: "i < count * 4" by (simp add: word_less_nat_alt c)
    have "unat (i + 4) = unat i + 4"
      using Suc.prems assms by (subst unat_add_lem [THEN iffD1]) simp_all
    then have IH: "steady P (debugDumpRegs_loop M base count (i + 4))"
      using Suc.IH Suc.prems by simp
    show ?case
      unfolding debugDumpRegs_loop.simps [of M base count i, abs_def] Let_def
      by (intro steady_intros put_steady steady_load IH)
  qed
  from this [of 0 "unat count"] show ?thesis
    by (simp add: debugDumpRegs_def [abs_def])
qed

end

end
