(* ===== verification/Ddr_Verify.thy ===== *)
theory Ddr_Verify
  imports Ddr Steady
begin

unbundle bit_operations_syntax

section \<open>What the memory test finds\<close>

text \<open>
  The memory under test as an interface: \<open>raw d c\<close> is the word that cell \<open>c\<close> of the devices holds, \<open>cell a\<close>
  the cell that address \<open>a\<close> selects (two addresses may share one) and \<open>line a v\<close> what a load at \<open>a\<close> returns
  of a stored word \<open>v\<close> (stuck or shorted data lines change it). Nothing is assumed of \<open>cell\<close> and \<open>line\<close>:
  the test is specified for every board they describe.
\<close>

definition dram_addr :: "u32 \<Rightarrow> bool" where
  "dram_addr a \<longleftrightarrow> 0x80000000 \<le> a \<and> a < 0xA0000000"

locale dram = console M outs ready
  for M :: "'d machine" and outs ready +
  fixes raw :: "'d \<Rightarrow> u32 \<Rightarrow> u32" and cell :: "u32 \<Rightarrow> u32" and line :: "u32 \<Rightarrow> u32 \<Rightarrow> u32"
  assumes ram_keep: "io_load M a d = (v, e) \<Longrightarrow> ready e = ready d \<and> raw e = raw d"
    and load_ram: "dram_addr a \<Longrightarrow> io_load M a d = (v, e) \<Longrightarrow> v = line a (raw d (cell a))"
    and store_ram: "dram_addr a \<Longrightarrow> raw (io_store M a v d) = (raw d)(cell a := v) \<and> ready (io_store M a v d) = ready d"
    and put_raw: "ready (dev s) \<Longrightarrow> c_put_char M c s = Some t \<Longrightarrow> raw (dev t) = raw (dev s)"

text \<open>\<open>holds s0 R s\<close>: since \<open>s0\<close> only devices have been touched, the console is ready, the cells hold \<open>R\<close>.\<close>

definition holds ::
    "('d \<Rightarrow> bool) \<Rightarrow> ('d \<Rightarrow> u32 \<Rightarrow> u32) \<Rightarrow> 'd sys \<Rightarrow> (u32 \<Rightarrow> u32) \<Rightarrow> 'd sys \<Rightarrow> bool" where
  "holds ready raw s0 R s \<longleftrightarrow> frame s0 s \<and> ready (dev s) \<and> raw (dev s) = R"

lemma holdsD:
  assumes "holds ready raw s0 R s"
  shows "frame s0 s" "ready (dev s)" "raw (dev s) = R"
  using assms by (simp_all add: holds_def)

lemma holds_start: "holds ready raw s0 R s \<Longrightarrow> holds ready raw s R s"
  by (simp add: holds_def)

lemma holds_trans: "holds ready raw s0 R s \<Longrightarrow> holds ready raw s R' t \<Longrightarrow> holds ready raw s0 R' t"
  by (auto simp: holds_def intro: frame_trans)

sublocale dram \<subseteq> port: steady_port M "holds ready raw s0 R" for s0 R
proof
  show "steady (holds ready raw s0 R) (c_put_char M c)" for c
  proof (rule steadyI)
    fix s assume s: "holds ready raw s0 R s"
    obtain t where t: "c_put_char M c s = Some t" "sent outs ready s [c] t"
      using put_charE holdsD(2) [OF s] by blast
    moreover have "raw (dev t) = raw (dev s)"
      using put_raw holdsD(2) [OF s] t(1) by blast
    ultimately show "\<exists>t. c_put_char M c s = Some t \<and> holds ready raw s0 R t"
      using s by (auto simp: holds_def sent_def intro: frame_trans)
  qed
  show "holds ready raw s0 R t" if "holds ready raw s0 R s" "H_RD32 M a s = (v, t)" for s a v t
    using that ram_keep [of a "dev s"] frame_H_RD32 [OF that(2)]
    by (auto simp: holds_def H_RD32_def intro: frame_trans split: prod.splits)
qed

subsection \<open>The words tested\<close>

text \<open>
  Every \<open>g\<close>-th byte from \<open>start\<close>, \<open>n\<close> of them, and one where \<open>n\<close> is 0: both loops test their end after the
  first word.
\<close>

definition tested :: "u32 \<Rightarrow> nat \<Rightarrow> nat \<Rightarrow> u32 list" where
  "tested start g n = map (\<lambda>k. start + of_nat (g * k)) [0..<max 1 n]"

text \<open>What the loops need: whole words that fit below the end of the window.\<close>

definition test_range :: "u32 \<Rightarrow> nat \<Rightarrow> nat \<Rightarrow> bool" where
  "test_range start g n \<longleftrightarrow> 0 < g \<and> 4 dvd g \<and> 0x80000000 \<le> unat start \<and> unat start + g * max 1 n \<le> 0xA0000000"

lemma unat_word:
  assumes range: "test_range start g n" and "k \<le> max 1 n"
  shows "unat (start + of_nat (g * k)) = unat start + g * k"
proof -
  have "g * k \<le> g * max 1 n" using assms(2) by (rule mult_le_mono2)
  moreover have "unat start + g * max 1 n \<le> 0xA0000000" using range unfolding test_range_def by blast
  ultimately have "unat start + g * k \<le> 0xA0000000" by linarith
  then have l: "unat start + g * k < 2 ^ 32" by simp
  then have "unat (of_nat (g * k) :: u32) = g * k"
    by (simp add: unsigned_of_nat take_bit_nat_eq_self del: of_nat_mult)
  with l show ?thesis by (subst unat_add_lem [THEN iffD1]) (simp_all del: of_nat_mult)
qed

lemma word_next:
  assumes range: "test_range start g n"
  shows "start + of_nat (g * k) + 4 * (of_nat g div 4) = start + of_nat (g * Suc k)"
proof -
  have "g \<le> g * max 1 n" by simp
  moreover have "unat start + g * max 1 n \<le> 0xA0000000" using range unfolding test_range_def by blast
  ultimately have "g \<le> 0xA0000000" by linarith
  then have "g < 2 ^ 32" by simp
  then have "unat (of_nat g :: u32) = g" by (simp add: unsigned_of_nat take_bit_nat_eq_self)
  then have "(of_nat g :: u32) div 4 = of_nat (g div 4)"
    by (simp add: word_arith_nat_div)
  then have "4 * ((of_nat g :: u32) div 4) = of_nat (4 * (g div 4))" by simp
  also have "4 * (g div 4) = g" using range by (simp add: test_range_def)
  finally show ?thesis by (simp add: algebra_simps)
qed

lemma word_end:
  assumes range: "test_range start g n" and k: "k < max 1 n"
  shows "start + of_nat (g * Suc k) < start + of_nat g * of_nat n \<longleftrightarrow> Suc k < max 1 n"
proof -
  have e: "unat (start + of_nat g * of_nat n) = unat start + g * n"
    using unat_word [OF range, of n] by simp
  have "unat (start + of_nat (g * Suc k)) = unat start + g * Suc k"
    using unat_word [OF range, of "Suc k"] k by simp
  then have "start + of_nat (g * Suc k) < start + of_nat g * of_nat n \<longleftrightarrow> Suc k < n"
    using range unfolding word_less_nat_alt e by (simp add: test_range_def del: mult_Suc_right of_nat_mult)
  then show ?thesis by auto
qed

lemma word_dram:
  assumes range: "test_range start g n" and k: "k < max 1 n"
  shows "dram_addr (start + of_nat (g * k))"
proof -
  have "g * k < g * max 1 n" using k range by (simp add: test_range_def)
  moreover have "unat start + g * max 1 n \<le> 0xA0000000" "0x80000000 \<le> unat start"
    using range unfolding test_range_def by blast+
  ultimately have "0x80000000 \<le> unat start + g * k" "unat start + g * k < 0xA0000000" by linarith+
  moreover have "unat (start + of_nat (g * k)) = unat start + g * k" using unat_word [OF range, of k] k by simp
  ultimately show ?thesis
    by (simp add: dram_addr_def word_le_nat_alt word_less_nat_alt del: of_nat_mult)
qed

context dram
begin

lemma pattern_write_words:
  assumes range: "test_range start g n" and k: "k < max 1 n" and ready: "ready (dev s)"
  shows "\<exists>t. pattern_write M (start + of_nat (g * k)) (start + of_nat g * of_nat n) (of_nat g) v s = Some t
    \<and> frame s t \<and> ready (dev t) \<and> (\<forall>j. k \<le> j \<and> j < max 1 n \<longrightarrow> raw (dev t) (cell (start + of_nat (g * j))) = v)
    \<and> (\<forall>c. raw (dev t) c = raw (dev s) c \<or> raw (dev t) c = v)"
  using k ready
proof (induction "max 1 n - k" arbitrary: k s)
  case (Suc m)
  let ?a = "start + of_nat (g * k)" and ?e = "start + of_nat g * of_nat n"
  define s1 where "s1 = H_WR32 M ?a v s"
  have s1: "ready (dev s1)" "raw (dev s1) = (raw (dev s))(cell ?a := v)" "frame s s1"
    using store_ram [OF word_dram [OF range Suc.prems(1)]] Suc.prems(2) by (simp_all add: s1_def H_WR32_def frame_def)
  have step: "pattern_write M ?a ?e (of_nat g) v s =
    (if Suc k < max 1 n then pattern_write M (start + of_nat (g * Suc k)) ?e (of_nat g) v s1 else Some s1)"
    by (subst pattern_write.simps)
      (simp only: Let_def word_next [OF range] word_end [OF range Suc.prems(1)] s1_def)
  show ?case
  proof (cases "Suc k < max 1 n")
    case True
    obtain t where t: "pattern_write M (start + of_nat (g * Suc k)) ?e (of_nat g) v s1 = Some t" "frame s1 t" "ready (dev t)"
      "\<forall>j. Suc k \<le> j \<and> j < max 1 n \<longrightarrow> raw (dev t) (cell (start + of_nat (g * j))) = v"
      "\<forall>c. raw (dev t) c = raw (dev s1) c \<or> raw (dev t) c = v"
      using Suc.hyps(1) [of "Suc k" s1] Suc.hyps(2) True s1(1) by fastforce
    have "raw (dev t) (cell (start + of_nat (g * j))) = v" if "k \<le> j" "j < max 1 n" for j
    proof (cases "j = k")
      case True
      then show ?thesis using t(5) [rule_format, of "cell ?a"] s1(2) by simp
    next
      case False
      then show ?thesis using that t(4) by simp
    qed
    moreover have "raw (dev t) c = raw (dev s) c \<or> raw (dev t) c = v" for c
      using t(5) s1(2) by (auto split: if_splits)
    ultimately show ?thesis
      using True t(1-3) s1(3) step by (intro exI [of _ t]) (auto intro: frame_trans)
  next
    case False
    then have "j = k" if "k \<le> j" "j < max 1 n" for j using that by linarith
    then have "\<forall>j. k \<le> j \<and> j < max 1 n \<longrightarrow> raw (dev s1) (cell (start + of_nat (g * j))) = v"
      using s1(2) by (metis fun_upd_same)
    then show ?thesis
      using False s1 step by (intro exI [of _ s1]) auto
  qed
qed linarith

lemma verify_progress_steady: "steady (holds ready raw s0 R) (verify_progress cf M start p)"
  unfolding verify_progress_def [abs_def] dbg_def by (intro steady_intros port.put_steady)

lemma pattern_check_words:
  assumes range: "test_range start g n" and k: "k < max 1 n" and s: "holds ready raw s0 R s"
  shows "\<exists>t. pattern_check cf M b (start + of_nat (g * k)) (start + of_nat g * of_nat n) (of_nat g) v s =
      Some (if \<forall>j. k \<le> j \<and> j < max 1 n \<longrightarrow> line (start + of_nat (g * j)) (R (cell (start + of_nat (g * j)))) = v then 0 else 1, t)
    \<and> holds ready raw s0 R t"
  using k s
proof (induction "max 1 n - k" arbitrary: k s)
  case (Suc m)
  let ?a = "\<lambda>j. start + of_nat (g * j)" and ?e = "start + of_nat g * of_nat n"
  let ?ok = "\<lambda>j. line (?a j) (R (cell (?a j))) = v"
  obtain w s1 where l: "H_RD32 M (?a k) s = (w, s1)" by (metis prod.exhaust)
  have s1: "holds ready raw s0 R s1" by (rule port.load [OF Suc.prems(2) l])
  have "w = line (?a k) (raw (dev s) (cell (?a k)))"
    using load_ram [OF word_dram [OF range Suc.prems(1)]] l by (auto simp: H_RD32_def split: prod.splits)
  then have w: "w = v \<longleftrightarrow> ?ok k" using Suc.prems(2) by (simp add: holds_def)
  have steady: "steady (holds ready raw s0 R) (dbg cf 0 (\<lambda>s. do { s \<leftarrow> c_put_str M (str '' '') s; debugDumpStaticReg M (?a k) 0 s }))"
    unfolding dbg_def [abs_def] by (intro steady_intros port.put_steady port.dump_static)
  obtain s2 where s2: "dbg cf 0 (\<lambda>s. do { s \<leftarrow> c_put_str M (str '' '') s; debugDumpStaticReg M (?a k) 0 s }) s1 = Some s2" "holds ready raw s0 R s2"
    using steadyE [OF steady s1] .
  obtain s3 where s3: "verify_progress cf M b (?a k) s1 = Some s3" "holds ready raw s0 R s3"
    using steadyE [OF verify_progress_steady s1] .
  have step: "pattern_check cf M b (?a k) ?e (of_nat g) v s =
    (if \<not> ?ok k then Some (1, s2)
     else if Suc k < max 1 n then pattern_check cf M b (?a (Suc k)) ?e (of_nat g) v s3 else Some (0, s3))"
    unfolding pattern_check.simps [of cf M b "?a k"] l w [symmetric] prod.case word_next [OF range] Let_def
      word_end [OF range Suc.prems(1)]
    using s2(1) s3(1) by simp
  show ?case
  proof (cases "?ok k \<and> Suc k < max 1 n")
    case True
    obtain t where t: "pattern_check cf M b (?a (Suc k)) ?e (of_nat g) v s3 =
        Some (if \<forall>j. Suc k \<le> j \<and> j < max 1 n \<longrightarrow> ?ok j then 0 else 1, t)" "holds ready raw s0 R t"
      using Suc.hyps(1) [of "Suc k" s3] Suc.hyps(2) True s3(2) by fastforce
    have "(\<forall>j. Suc k \<le> j \<and> j < max 1 n \<longrightarrow> ?ok j) \<longleftrightarrow> (\<forall>j. k \<le> j \<and> j < max 1 n \<longrightarrow> ?ok j)"
      using True by (metis le_antisym not_less_eq_eq Suc_leD)
    with t True step show ?thesis by auto
  next
    case False
    have one: "Suc k < max 1 n \<or> j = k" if "k \<le> j" "j < max 1 n" for j using that by linarith
    show ?thesis
    proof (cases "?ok k")
      case True
      then have "\<forall>j. k \<le> j \<and> j < max 1 n \<longrightarrow> ?ok j" using one False by blast
      then have "(if \<forall>j. k \<le> j \<and> j < max 1 n \<longrightarrow> ?ok j then 0 else 1 :: u32) = 0" by (rule if_P)
      with step True False s3(2) show ?thesis by auto
    next
      case bad: False
      then have "(if \<forall>j. k \<le> j \<and> j < max 1 n \<longrightarrow> ?ok j then 0 else 1 :: u32) = 1"
        using Suc.prems(1) by (metis (mono_tags, lifting) le_refl)
      with step bad s2(2) show ?thesis by auto
    qed
  qed
qed linarith

lemma pattern_verify_words:
  assumes range: "test_range start g n" and ready: "ready (dev s)"
  obtains t where "ram_pattern_verify cf M start (of_nat g) (of_nat n) v s =
      Some (if \<forall>a \<in> set (tested start g n). line a v = v then 0 else 1, t)" "frame s t" "ready (dev t)"
proof -
  let ?a = "\<lambda>j. start + of_nat (g * j)" and ?e = "start + of_nat g * of_nat n"
  have z: "0 < max 1 n" "?a 0 = start" by simp_all
  obtain u where u: "pattern_write M start ?e (of_nat g) v s = Some u" "frame s u" "ready (dev u)"
    "\<forall>j. 0 \<le> j \<and> j < max 1 n \<longrightarrow> raw (dev u) (cell (?a j)) = v"
    using pattern_write_words [OF range z(1) ready, of v] unfolding z(2) by blast
  have h: "holds ready raw u (raw (dev u)) u" using u(3) by (simp add: holds_def)
  obtain t where t: "pattern_check cf M start start ?e (of_nat g) v u =
      Some (if \<forall>j. 0 \<le> j \<and> j < max 1 n \<longrightarrow> line (?a j) (raw (dev u) (cell (?a j))) = v then 0 else 1, t)"
    "holds ready raw u (raw (dev u)) t"
    using pattern_check_words [OF range z(1) h, of cf start v] unfolding z(2) by blast
  have "(\<forall>j. 0 \<le> j \<and> j < max 1 n \<longrightarrow> line (?a j) (raw (dev u) (cell (?a j))) = v) \<longleftrightarrow>
    (\<forall>a \<in> set (tested start g n). line a v = v)"
    using u(4) unfolding tested_def by (auto simp del: of_nat_mult)
  with u(1) t(1) have "ram_pattern_verify cf M start (of_nat g) (of_nat n) v s =
      Some (if \<forall>a \<in> set (tested start g n). line a v = v then 0 else 1, t)"
    by (simp add: ram_pattern_verify_def)
  then show ?thesis
    using that u(2) t(2) by (auto simp: holds_def intro: frame_trans)
qed

lemma put_frame:
  assumes "steady_port M (holds ready raw s (raw (dev s))) \<Longrightarrow> steady (holds ready raw s (raw (dev s))) c" "ready (dev s)"
  obtains t where "c s = Some t" "frame s t" "ready (dev t)"
proof -
  have "holds ready raw s (raw (dev s)) s" using assms(2) by (simp add: holds_def)
  from steadyE [OF assms(1) [OF port.steady_port_axioms] this] that show ?thesis
    by (metis holdsD(1,2))
qed

lemma verify_title_steady: "steady (holds ready raw s0 R) (verify_title cf M v c)"
  unfolding verify_title_def [abs_def] by (intro steady_intros port.put_steady)

end

subsection \<open>The specification of the bit flip test\<close>

text \<open>
  The patterns with the result each has on a mismatch, in the order of the loop, and the result of the
  whole test: that of the first pattern that a tested address does not return.
\<close>

definition bitflip_from :: "nat \<Rightarrow> nat \<Rightarrow> (u32 \<times> u32) list" where
  "bitflip_from i n = concat (map (\<lambda>k. [(1, push_bit k 1), (2, NOT (push_bit k 1))]) [i..<i + n])"

definition first_failure :: "(u32 \<Rightarrow> u32 \<Rightarrow> u32) \<Rightarrow> u32 list \<Rightarrow> (u32 \<times> u32) list \<Rightarrow> u32" where
  "first_failure line as ps =
     (case find (\<lambda>(r, p). \<exists>a \<in> set as. line a p \<noteq> p) ps of None \<Rightarrow> 0 | Some (r, p) \<Rightarrow> r)"

definition bitflip_spec :: "(u32 \<Rightarrow> u32 \<Rightarrow> u32) \<Rightarrow> u32 list \<Rightarrow> u32" where
  "bitflip_spec line as = first_failure line as (bitflip_from 0 32)"

lemma bitflip_from_Suc:
  "bitflip_from i (Suc n) = (1, push_bit i 1) # (2, NOT (push_bit i 1)) # bitflip_from (Suc i) n"
proof -
  have "[i..<i + Suc n] = i # [Suc i..<Suc i + n]" by (simp add: upt_rec)
  then show ?thesis by (simp add: bitflip_from_def del: upt_Suc)
qed

lemma first_failure_Cons:
  "first_failure line as ((r, p) # ps) = (if \<forall>a \<in> set as. line a p = p then first_failure line as ps else r)"
  by (simp add: first_failure_def)

lemma first_failure_0_iff:
  assumes "0 \<notin> fst ` set ps"
  shows "first_failure line as ps = 0 \<longleftrightarrow> (\<forall>a \<in> set as. \<forall>(r, p) \<in> set ps. line a p = p)"
  using assms
proof (induction ps)
  case (Cons p ps)
  obtain r q where p: "p = (r, q)" by (cases p)
  show ?case
  proof (cases "\<forall>a \<in> set as. line a q = q")
    case True
    then show ?thesis using Cons by (auto simp: p first_failure_Cons)
  next
    case False
    then have "first_failure line as (p # ps) = r" unfolding p first_failure_Cons by (rule if_not_P)
    then show ?thesis using Cons.prems False by (auto simp: p)
  qed
qed (simp add: first_failure_def)

lemma bitflip_spec_0_iff:
  "bitflip_spec line as = 0 \<longleftrightarrow>
     (\<forall>a \<in> set as. \<forall>i < 32. line a (push_bit i 1) = push_bit i 1 \<and> line a (NOT (push_bit i 1)) = NOT (push_bit i 1))"
proof -
  have "0 \<notin> fst ` set (bitflip_from 0 32)"
    by (auto simp: bitflip_from_def)
  from first_failure_0_iff [OF this] show ?thesis
    unfolding bitflip_spec_def by (auto simp: bitflip_from_def)
qed

context dram
begin

lemma bitflip_loop_refines:
  assumes range: "test_range start g n"
  shows "ready (dev s) \<Longrightarrow> \<exists>t. bitflip_loop cf M start (of_nat g) (of_nat n) i m s =
    Some (first_failure line (tested start g n) (bitflip_from i m), t) \<and> frame s t \<and> ready (dev t)"
proof (induction m arbitrary: i s)
  case 0
  then show ?case by (simp add: bitflip_from_def first_failure_def)
next
  case (Suc m)
  let ?p = "push_bit i 1 :: u32" and ?good = "\<lambda>p. \<forall>a \<in> set (tested start g n). line a p = p"
  obtain a where a: "verify_title cf M ?p (CHR ''.'') s = Some a" "frame s a" "ready (dev a)"
    using put_frame [OF verify_title_steady Suc.prems] .
  obtain b where b: "ram_pattern_verify cf M start (of_nat g) (of_nat n) ?p a = Some (if ?good ?p then 0 else 1, b)"
    "frame a b" "ready (dev b)"
    using pattern_verify_words [OF range a(3)] .
  obtain c where c: "verify_title cf M (NOT ?p) (CHR ''~'') b = Some c" "frame b c" "ready (dev c)"
    using put_frame [OF verify_title_steady b(3)] .
  obtain d where d: "ram_pattern_verify cf M start (of_nat g) (of_nat n) (NOT ?p) c = Some (if ?good (NOT ?p) then 0 else 1, d)"
    "frame c d" "ready (dev d)"
    using pattern_verify_words [OF range c(3)] .
  obtain t where t: "bitflip_loop cf M start (of_nat g) (of_nat n) (Suc i) m d =
    Some (first_failure line (tested start g n) (bitflip_from (Suc i) m), t)" "frame d t" "ready (dev t)"
    using Suc.IH d(3) by blast
  have f: "frame s b" "frame s d" "frame s t" using a(2) b(2) c(2) d(2) t(2) by (blast intro: frame_trans)+
  show ?case
  proof (cases "?good ?p")
    case False
    have "bitflip_loop cf M start (of_nat g) (of_nat n) i (Suc m) s = Some (1, b)"
      using a(1) b(1) unfolding if_not_P [OF False] by simp
    then show ?thesis
      unfolding bitflip_from_Suc first_failure_Cons if_not_P [OF False] using b(3) f(1) by simp
  next
    case good: True
    have step: "bitflip_loop cf M start (of_nat g) (of_nat n) i (Suc m) s =
      (if ?good (NOT ?p) then bitflip_loop cf M start (of_nat g) (of_nat n) (Suc i) m d else Some (2, d))"
      using a(1) b(1) c(1) d(1) good by simp
    show ?thesis
      unfolding step bitflip_from_Suc first_failure_Cons if_P [OF good] using t(1,3) f d(3) by simp
  qed
qed

end

subsection \<open>Properties of the memory test\<close>

text \<open>
  C12. On every board, with every debug level, the bit flip test returns, leaves the globals alone, and its
  result is that of the specification: 0 if each of the 64 patterns, written to all tested words, is
  read back from each of them, else 1 or 2 for the first pattern that is not, a single one or a single
  zero. Tested is one word in every 4096 bytes, and one word where the size is below 4096.
\<close>

theorem ram_verify_bitflip_refines:
  assumes "dram M outs ready raw cell line" "ready (dev s)" "test_range start 4096 (unat size0 div 4096)"
  shows "\<exists>t. ram_verify_bitflip cf M start size0 s =
      Some (bitflip_spec line (tested start 4096 (unat size0 div 4096)), t) \<and> frame s t \<and> ready (dev t)"
proof -
  have "(size0 div 4096 :: u32) = of_nat (unat size0 div 4096)" by (simp add: word_arith_nat_div)
  then show ?thesis
    using dram.bitflip_loop_refines [OF assms(1,3,2), of cf 0 32]
    by (simp add: ram_verify_bitflip_def bitflip_spec_def)
qed

text \<open>
  C19. The test finds every data line that is stuck and every two that are shorted: if at one tested address
  bit \<open>i\<close> always reads the same, or bits \<open>i\<close> and \<open>j\<close> always read equal, the result is not 0.
\<close>

theorem ram_verify_bitflip_detects:
  assumes "dram M outs ready raw cell line" "ready (dev s)" "test_range start 4096 (unat size0 div 4096)"
    and "a \<in> set (tested start 4096 (unat size0 div 4096))" "i < 32" "j < 32"
    and "(\<exists>b. \<forall>v. bit (line a v) i = b) \<or> i \<noteq> j \<and> (\<forall>v. bit (line a v) i = bit (line a v) j)"
  shows "\<exists>r t. ram_verify_bitflip cf M start size0 s = Some (r, t) \<and> r \<noteq> 0"
proof -
  have "bitflip_spec line (tested start 4096 (unat size0 div 4096)) \<noteq> 0"
  proof
    assume "bitflip_spec line (tested start 4096 (unat size0 div 4096)) = 0"
    then have "line a (push_bit i 1) = push_bit i 1" "line a (NOT (push_bit i 1)) = NOT (push_bit i 1)"
      using assms(4,5) unfolding bitflip_spec_0_iff by blast+
    then have "bit (line a (push_bit i 1)) i" "\<not> bit (line a (NOT (push_bit i 1))) i"
      "i \<noteq> j \<Longrightarrow> \<not> bit (line a (push_bit i 1)) j"
      using assms(5) by (simp_all only: bit_simps) (simp_all add: assms(5) bit_simps)
    with assms(7) show False by metis
  qed
  moreover obtain t where "ram_verify_bitflip cf M start size0 s =
      Some (bitflip_spec line (tested start 4096 (unat size0 div 4096)), t)"
    using dram.bitflip_loop_refines [OF assms(1,3,2), of cf 0 32]
    by (auto simp: ram_verify_bitflip_def bitflip_spec_def word_arith_nat_div)
  ultimately show ?thesis by blast
qed

text \<open>
  It cannot find address faults: with sound data lines the result is 0 whatever cells the addresses
  select, also when all of them select one and the same.
\<close>

theorem ram_verify_bitflip_blind:
  assumes "dram M outs ready raw cell (\<lambda>_ v. v)" "ready (dev s)" "test_range start 4096 (unat size0 div 4096)"
  shows "\<exists>t. ram_verify_bitflip cf M start size0 s = Some (0, t) \<and> frame s t"
proof -
  have "bitflip_spec (\<lambda>_ v. v) as = 0" for as
    by (simp add: bitflip_spec_0_iff)
  then show ?thesis
    using dram.bitflip_loop_refines [OF assms(1,3,2), of cf 0 32]
    by (auto simp: ram_verify_bitflip_def bitflip_spec_def word_arith_nat_div)
qed

subsection \<open>Boards with memory\<close>

text \<open>
  The board with memory behind the addresses of the cached window: \<open>m\<close> masks the address lines that are
  connected, \<open>line\<close> is what the data lines do, \<open>lanes\<close> what the calibration reports.
\<close>

definition dram_cell :: "u32 \<Rightarrow> u32 \<Rightarrow> u32" where
  "dram_cell m a = 0x80000000 OR (a AND m AND 0x1FFFFFFF)"

definition ddr_board :: "(u32 \<Rightarrow> u32 \<Rightarrow> u32) \<Rightarrow> u32 \<Rightarrow> u32 \<Rightarrow> board machine" where
  "ddr_board line m lanes = board_machine\<lparr>io_load := (\<lambda>a d.
     (if dram_addr a then line a (bregs d (dram_cell m a))
      else if a = UART1 lsr then UART_LSR_BITMASK_THRE
      else if a = DDR_CTL status_perf then DDR_SCL_DONE
      else if a = DDR_PHY scl_start then lanes AND NOT SCL_START_GO_DONE
      else bregs d a, d)),
     io_store := (\<lambda>a v d. if dram_addr a then d\<lparr>bregs := (bregs d)(dram_cell m a := v)\<rparr> else io_store board_machine a v d)\<rparr>"

lemma dram_cell_not_uart: "dram_cell m a \<noteq> UART1 r"
proof -
  have "\<not> bit (dram_cell m a) 29" by (simp add: dram_cell_def bit_simps)
  moreover have "bit (UART1 r) 29" by (cases r) (simp_all add: uart_defs)
  ultimately show ?thesis by metis
qed

lemma dram_addr_not_uart: "\<not> dram_addr (UART1 r)"
  by (cases r) (simp_all add: dram_addr_def uart_defs)

lemma ddr_board_load:
  "io_load (ddr_board line m lanes) a d =
     (if dram_addr a then line a (bregs d (dram_cell m a))
      else if a = UART1 lsr then UART_LSR_BITMASK_THRE
      else if a = DDR_CTL status_perf then DDR_SCL_DONE
      else if a = DDR_PHY scl_start then lanes AND NOT SCL_START_GO_DONE
      else bregs d a, d)"
  by (simp add: ddr_board_def)

lemma ddr_board_store:
  "io_store (ddr_board line m lanes) a v d =
     (if dram_addr a then d\<lparr>bregs := (bregs d)(dram_cell m a := v)\<rparr> else io_store board_machine a v d)"
  by (simp add: ddr_board_def board_machine_def)

lemma latch_closed_dram: "latch_closed (d\<lparr>bregs := (bregs d)(dram_cell m a := v)\<rparr>) = latch_closed d"
  by (simp add: latch_closed_def dram_cell_not_uart [symmetric])

interpretation ddrb: dram "ddr_board line m lanes" bouts latch_closed bregs "dram_cell m" line
  for line m lanes
proof (intro dram.intro dram_axioms.intro)
  show con: "console (ddr_board line m lanes) bouts latch_closed"
    by (rule console_board) (simp add: ddr_board_load dram_addr_not_uart,
      simp add: ddr_board_store dram_addr_not_uart fun_eq_iff del: board_simps)
  fix a v c and d e :: board and s t :: "board sys"
  show "io_load (ddr_board line m lanes) a d = (v, e) \<Longrightarrow> latch_closed e = latch_closed d \<and> bregs e = bregs d"
    by (simp add: ddr_board_load)
  show "dram_addr a \<Longrightarrow> io_load (ddr_board line m lanes) a d = (v, e) \<Longrightarrow> v = line a (bregs d (dram_cell m a))"
    by (auto simp: ddr_board_load)
  show "dram_addr a \<Longrightarrow> bregs (io_store (ddr_board line m lanes) a v d) = (bregs d)(dram_cell m a := v)
    \<and> latch_closed (io_store (ddr_board line m lanes) a v d) = latch_closed d"
    by (simp add: ddr_board_store latch_closed_dram)
  assume "latch_closed (dev s)" and put: "c_put_char (ddr_board line m lanes) c s = Some t"
  have "c_poll32_until_set (ddr_board line m lanes) (UART1 lsr) UART_LSR_BITMASK_THRE s = Some s"
    by (subst c_poll32_until_set.simps) (simp add: H_RD32_def ddr_board_load dram_addr_not_uart)
  then show "bregs (dev t) = bregs (dev s)"
    using put \<open>latch_closed (dev s)\<close>
    by (auto simp: c_put_char_def H_WR32_def ddr_board_store dram_addr_not_uart latch_closed_def)
qed

lemma board0_range: "latch_closed (dev board0)" "test_range 0x80000000 4096 (unat (0x10000000 :: u32) div 4096)"
  by (simp_all add: board0_def latch_closed_def test_range_def uart_defs)

lemma start_tested: "start \<in> set (tested start g n)"
  by (auto simp: tested_def intro!: image_eqI [of _ _ 0])

theorem ram_verify_bitflip_refines_witness:
  "\<exists>t. ram_verify_bitflip uart_boot_config (ddr_board (\<lambda>_ v. v AND NOT 1) 0x0FFFFFFF 0xF) 0x80000000 0x10000000 board0 = Some (1, t)"
proof -
  have "bitflip_spec (\<lambda>_ v. v AND NOT 1) (tested 0x80000000 4096 (unat (0x10000000 :: u32) div 4096)) = 1"
    unfolding bitflip_spec_def bitflip_from_Suc [of 0 31, simplified] first_failure_Cons
  proof (rule if_not_P)
    have "(1 :: u32) AND NOT 1 \<noteq> 1" by simp
    then show "\<not> (\<forall>a \<in> set (tested 0x80000000 4096 (unat (0x10000000 :: u32) div 4096)). (1 :: u32) AND NOT 1 = 1)"
      using start_tested by blast
  qed
  then show ?thesis
    using ram_verify_bitflip_refines [OF ddrb.dram_axioms [where line = "\<lambda>_ v. v AND NOT 1" and m = "0x0FFFFFFF" and lanes = "0xF"]
        board0_range, where cf = uart_boot_config]
    by auto
qed

theorem ram_verify_bitflip_detects_witness:
  "\<exists>r t. ram_verify_bitflip uart_boot_config (ddr_board (\<lambda>a v. if a = 0x80000000 then v OR 0x20 else v) 0x0FFFFFFF 0xF)
     0x80000000 0x10000000 board0 = Some (r, t) \<and> r \<noteq> 0"
  by (rule ram_verify_bitflip_detects [OF ddrb.dram_axioms board0_range start_tested, of 5 5])
    (auto simp: bit_simps)

theorem ram_verify_bitflip_blind_witness:
  "\<exists>t. ram_verify_bitflip uart_boot_config (ddr_board (\<lambda>_ v. v) 0 0xF) 0x80000000 0x10000000 board0 = Some (0, t)"
  using ram_verify_bitflip_blind [OF ddrb.dram_axioms board0_range] by blast

end
