(* ===== verification/Ddr_Up.thy ===== *)
theory Ddr_Up
  imports Ddr_Verify
begin

unbundle bit_operations_syntax

section \<open>What the DDR bring-up achieves\<close>

text \<open>
  The register values that reach the controller and the PHY, the timing they stand for, and the result of
  \<open>c_auto_ddr\<close> on every board: calibration and memory test decide it.
\<close>

subsection \<open>Registers\<close>

definition stores :: "'d machine \<Rightarrow> (u32 \<times> u32) list \<Rightarrow> 'd \<Rightarrow> 'd" where
  "stores M ws d = foldl (\<lambda>d (a, v). io_store M a v d) d ws"

lemma stores_Cons: "stores M ((a, v) # ws) d = stores M ws (io_store M a v d)"
  by (simp add: stores_def)

lemma stores_Nil: "stores M [] d = d"
  by (simp add: stores_def)

lemma H_WR32_stores: "H_WR32 M a v s = s\<lparr>dev := stores M [(a, v)] (dev s)\<rparr>"
  by (simp add: H_WR32_def stores_def)

lemma stores_append: "stores M vs (stores M ws d) = stores M (ws @ vs) d"
  by (simp add: stores_def)

text \<open>
  Without the dumps of the highest debug level, \<open>ddr_phy_init\<close> is the six stores of the comment above it
  and nothing else, and \<open>ddr_ctl_init\<close> for the one candidate of \<open>c_auto_ddr\<close> is nine stores, DLL reset
  before normal operation and the power sequence last. All values are those of the comment except
  \<open>mem_cfg0\<close>, which is \<open>0x359C07A1\<close> where the comment says \<open>0x352407A0\<close>.
\<close>

theorem ddr_registers:
  assumes "DEBUG_LEVEL cf \<le> 2"
  shows "ddr_phy_init cf M s = Some (s\<lparr>dev := stores M [(0xB910810C, 0x43), (0xB9108118, 0x01004342),
        (0xB910811C, 0x301), (0xB9108120, 0x220), (0xB9108124, 0x30001000), (0xB910815C, 0x01000000)] (dev s)\<rparr>)
    \<and> ddr_ctl_init cf M 2 2 1 s = Some (s\<lparr>dev := stores M [(0xB9100000, 0x359C07A1), (0xB9100004, 0x22163424),
        (0xB9100008, 0xC6001542), (0xB9100008, 0xC6001442), (0xB910000C, 0x18), (0xB9100010, 0xD),
        (0xB9100014, 0), (0xB9100018, 0), (0xB910001C, 0)] (dev s)\<rparr>)"
  using assms by (simp add: ddr_phy_init_def ddr_ctl_init_def ddr_ctl_timing_def dbg_def H_WR32_def stores_Cons stores_Nil reg_defs
      arr_get_def a_tRFC_def Let_def)

theorem ddr_registers_witness:
  "bregs (dev (the (ddr_phy_init (uart_boot_config\<lparr>DEBUG_LEVEL := 0\<rparr>) board_machine board0))) 0xB9108118 = 0x01004342"
  using ddr_registers [of "uart_boot_config\<lparr>DEBUG_LEVEL := 0\<rparr>" board_machine board0]
  by (simp add: stores_def uart_defs)

text \<open>
  The automatic and the fixed configuration agree: for 1 Gbit chips of 16 bit on a 32 bit bus the two
  branches of \<open>ddr_ctl_init\<close> are the same function, at every debug level.
\<close>

theorem ddr_ctl_init_fixed_eq:
  "ddr_ctl_init (cf\<lparr>DDR_AUTO_DETECT := True\<rparr>) M (DRAM_CHIP_1024MBIT - 3) DRAM_CHIP_16BIT (DRAM_SYS_BUS_32BIT - 2) s
   = ddr_ctl_init (cf\<lparr>DDR_AUTO_DETECT := False\<rparr>) M cS cW bW s"
  by (simp add: ddr_ctl_init_def ddr_ctl_timing_def dbg_def reg_defs arr_get_def a_tRFC_def Let_def)

text \<open>
  The timing programmed, in nanoseconds of the 4 ns bus clock: row to row 12, row active 44, precharge
  12, refresh to active 128, write to read and read to precharge 8, write recovery and row to column 16,
  four bank window 52, one refresh per 7812. C rounds the divisions down, so that row active and precharge
  are below the 45 and the 15 ns the header asks for.
\<close>

theorem ddr_timing:
  "map (\<lambda>(f, n). unat (drop_bit n f) * unat SYS_DRAM_BUS_CLK)
     [(TIMING_RRD, 28), (TIMING_RAS, 23), (TIMING_RP, 19), (TIMING_RFC, 13), (REFI_64MSEC, 0),
      (TIMING_WTR, 28), (TIMING_RTP, 24), (TIMING_WR, 8), (TIMING_RCD, 0), (FAW, 0)]
   = [12, 44, 12, 128, 7812, 8, 8, 16, 16, 52 :: nat]"
  by (simp add: reg_defs)

subsection \<open>The interface to the DDR hardware\<close>

text \<open>
  Beside memory: the registers the bring-up writes are not the console, the PHY ends its initialisation,
  a started run of the calibration logic ends, a delay returns, and once the write-read run has been
  started the result bits of \<open>scl_start\<close> are those of the board, \<open>lanes\<close>.
\<close>

definition ddr_regs :: "u32 set" where
  "ddr_regs = SCU ` {rst_mask, clkgate, rst_vec}
     \<union> DDR_CTL ` {mem_cfg0, mem_cfg1, mem_cfg2, mem_cfg3, mem_cfg4, mem_cfg5, mem_cfg6, mem_cfg7, prf_ctrl}
     \<union> DDR_PHY ` {scl_start, scl_latency, scl_cnfg1, scl_cnfg2, pad_ctrl, dll_recalib, analog_dll1}"

lemma ddr_regs_mem:
  "r \<in> {rst_mask, clkgate, rst_vec} \<Longrightarrow> SCU r \<in> ddr_regs"
  "c \<in> {mem_cfg0, mem_cfg1, mem_cfg2, mem_cfg3, mem_cfg4, mem_cfg5, mem_cfg6, mem_cfg7, prf_ctrl} \<Longrightarrow> DDR_CTL c \<in> ddr_regs"
  "p \<in> {scl_start, scl_latency, scl_cnfg1, scl_cnfg2, pad_ctrl, dll_recalib, analog_dll1} \<Longrightarrow> DDR_PHY p \<in> ddr_regs"
  unfolding ddr_regs_def by blast+

locale ddr_hw = dram M outs ready raw cell line
  for M :: "'d machine" and outs ready raw cell line +
  fixes tuned :: "'d \<Rightarrow> bool" and lanes :: u32
  assumes store_reg: "a \<in> ddr_regs \<Longrightarrow> ready (io_store M a v d) = ready d"
    and phy_done: "ready (dev s) \<Longrightarrow> \<exists>t. c_poll32_until_set M (DDR_CTL status_perf) DDR_SCL_DONE s = Some t"
    and scl_done: "ready (dev s) \<Longrightarrow> \<exists>t. c_poll32_until_clr M (DDR_PHY scl_start) SCL_START_GO_DONE s = Some t"
    and delay: "ready (dev s) \<Longrightarrow> \<exists>t. mdelay M 1 s = Some t \<and> ready (dev t)"
    and write_read: "tuned (io_store M (DDR_PHY scl_start) SCL_START_GO_DONE d)"
    and tuned_load: "io_load M a d = (v, e) \<Longrightarrow> tuned e = tuned d"
    and tuned_put: "ready (dev s) \<Longrightarrow> c_put_char M c s = Some t \<Longrightarrow> tuned (dev t) = tuned (dev s)"
    and result: "tuned d \<Longrightarrow> io_load M (DDR_PHY scl_start) d = (v, e) \<Longrightarrow> v AND 0xF = lanes AND 0xF"

text \<open>\<open>up s0 s\<close>: since \<open>s0\<close> only devices have been touched and the console is ready.\<close>

definition up :: "('d \<Rightarrow> bool) \<Rightarrow> ('d \<Rightarrow> bool) \<Rightarrow> 'd sys \<Rightarrow> 'd sys \<Rightarrow> bool" where
  "up ready q s0 s \<longleftrightarrow> frame s0 s \<and> ready (dev s) \<and> q (dev s)"

lemma c_poll32_until_clr_inv:
  assumes "c_poll32_until_clr M a bitmsk s = Some t" "P s" "\<And>v s t. P s \<Longrightarrow> H_RD32 M a s = (v, t) \<Longrightarrow> P t"
  shows "P t"
proof -
  have "(\<forall>v s t. P s \<longrightarrow> H_RD32 M a s = (v, t) \<longrightarrow> P t) \<longrightarrow> P s \<longrightarrow> P t"
    using _ assms(1)
  proof (rule c_poll32_until_clr.raw_induct
      [where P = "\<lambda>M a _ s t. (\<forall>v s t. P s \<longrightarrow> H_RD32 M a s = (v, t) \<longrightarrow> P t) \<longrightarrow> P s \<longrightarrow> P t"])
    fix poll :: "'a machine \<Rightarrow> u32 \<Rightarrow> u32 \<Rightarrow> 'a sys \<Rightarrow> 'a sys option" and M' :: "'a machine"
      and a m :: u32 and s t :: "'a sys"
    assume IH: "\<And>M a m s t. poll M a m s = Some t \<Longrightarrow> (\<forall>v s t. P s \<longrightarrow> H_RD32 M a s = (v, t) \<longrightarrow> P t) \<longrightarrow> P s \<longrightarrow> P t"
    assume run: "(let (v, s) = H_RD32 M' a s in if v AND m \<noteq> 0 then poll M' a m s else Some s) = Some t"
    obtain v s1 where l: "H_RD32 M' a s = (v, s1)" by (metis prod.exhaust)
    show "(\<forall>v s t. P s \<longrightarrow> H_RD32 M' a s = (v, t) \<longrightarrow> P t) \<longrightarrow> P s \<longrightarrow> P t"
    proof (intro impI)
      assume k: "\<forall>v s t. P s \<longrightarrow> H_RD32 M' a s = (v, t) \<longrightarrow> P t" and "P s"
      with l have "P s1" by blast
      with run l k IH [of M' a m s1 t] show "P t" by (auto split: if_splits)
    qed
  qed
  with assms(2,3) show ?thesis by blast
qed

context ddr_hw
begin

lemma up_port:
  assumes "q = (\<lambda>_. True) \<or> q = tuned"
  shows "steady_port M (up ready q s0)"
proof
  show "steady (up ready q s0) (c_put_char M c)" for c
  proof (rule steadyI)
    fix s assume s: "up ready q s0 s"
    then have r: "ready (dev s)" by (simp add: up_def)
    obtain t where t: "c_put_char M c s = Some t" "sent outs ready s [c] t"
      using put_charE [OF r] .
    moreover have "tuned (dev t) = tuned (dev s)"
      using tuned_put s t(1) by (auto simp: up_def)
    ultimately show "\<exists>t. c_put_char M c s = Some t \<and> up ready q s0 t"
      using s assms by (auto simp: up_def sent_def intro: frame_trans)
  qed
  show "up ready q s0 t" if "up ready q s0 s" "H_RD32 M a s = (v, t)" for s a v t
    using that ram_keep [of a "dev s"] tuned_load [of a "dev s"] frame_H_RD32 [OF that(2)] assms
    by (auto simp: up_def H_RD32_def intro: frame_trans split: prod.splits)
qed

sublocale u: steady_port M "up ready (\<lambda>_. True) s0" for s0
  by (rule up_port) simp

sublocale tn: steady_port M "up ready tuned s0" for s0
  by (rule up_port) simp

lemma dbg_steady: "steady P c \<Longrightarrow> steady P (dbg cf n c)"
  by (simp add: dbg_def steady_def)

lemma poll_clr_steady:
  assumes "q = (\<lambda>_. True) \<or> q = tuned"
  shows "steady (up ready q s0) (c_poll32_until_clr M (DDR_PHY scl_start) SCL_START_GO_DONE)"
proof (rule steadyI)
  fix s assume s: "up ready q s0 s"
  then obtain t where t: "c_poll32_until_clr M (DDR_PHY scl_start) SCL_START_GO_DONE s = Some t"
    using scl_done by (auto simp: up_def)
  moreover have "up ready q s0 t"
    using c_poll32_until_clr_inv [where P = "up ready q s0", OF t s] steady_port.load [OF up_port [OF assms]] by blast
  ultimately show "\<exists>t. c_poll32_until_clr M (DDR_PHY scl_start) SCL_START_GO_DONE s = Some t \<and> up ready q s0 t" by blast
qed

lemma poll_set_steady: "steady (up ready (\<lambda>_. True) s0) (c_poll32_until_set M (DDR_CTL status_perf) DDR_SCL_DONE)"
proof (rule steadyI)
  fix s assume s: "up ready (\<lambda>_. True) s0 s"
  then obtain t where t: "c_poll32_until_set M (DDR_CTL status_perf) DDR_SCL_DONE s = Some t"
    using phy_done by (auto simp: up_def)
  moreover have "ready (dev t) = ready (dev s)"
    using c_poll32_until_set_inv [OF t, of ready] ram_keep by blast
  ultimately show "\<exists>t. c_poll32_until_set M (DDR_CTL status_perf) DDR_SCL_DONE s = Some t \<and> up ready (\<lambda>_. True) s0 t"
    using s c_poll32_until_set_frame [OF t] by (auto simp: up_def intro: frame_trans)
qed

lemma H_WR32_up: "a \<in> ddr_regs \<Longrightarrow> up ready (\<lambda>_. True) s0 s \<Longrightarrow> up ready (\<lambda>_. True) s0 (H_WR32 M a v s)"
  using store_reg by (auto simp: up_def H_WR32_def frame_def)

lemma rmw32_up: "a \<in> ddr_regs \<Longrightarrow> up ready (\<lambda>_. True) s0 s \<Longrightarrow> up ready (\<lambda>_. True) s0 (rmw32 M a f s)"
  using H_WR32_up u.load by (auto simp: rmw32_def split: prod.splits)

lemma scu_up:
  assumes "up ready (\<lambda>_. True) s0 s" "r \<in> {rst_mask, clkgate, rst_vec}"
  shows "up ready (\<lambda>_. True) s0 (scu_set M r v s)" "up ready (\<lambda>_. True) s0 (scu_clr M r v s)"
  using assms ddr_regs_mem(1) by (auto simp: scu_set_def scu_clr_def intro!: rmw32_up)

lemmas up_intros = steady_intros dbg_steady u.put_steady u.dump_volatile u.dump_regs poll_set_steady poll_clr_steady

lemma bind_up:
  assumes "steady P c" "P s" "\<And>t. P t \<Longrightarrow> \<exists>u. f t = Some u \<and> P u"
  shows "\<exists>u. Option.bind (c s) f = Some u \<and> P u"
  using assms(3) steadyE [OF assms(1,2)] by (metis bind.bind_lunit)

lemma ddr_system_reset_steady: "steady (up ready (\<lambda>_. True) s0) (ddr_system_reset cf M)"
proof (rule steadyI)
  fix s assume s: "up ready (\<lambda>_. True) s0 s"
  let ?m = "RST_CLKGATE_MSK_DDR_CTRL OR RST_MSK_DDR_CTRL_AHB"
  let ?s1 = "scu_set M clkgate DDR_CTRL_CLK_GATE (scu_clr M clkgate DDR_CTRL_CLK_SRC (scu_clr M rst_mask ?m s))"
  have p: "steady (up ready (\<lambda>_. True) s0) (dbg cf 1 (c_put_str M x))" for x by (intro up_intros)
  have s1: "up ready (\<lambda>_. True) s0 ?s1" using s by (intro scu_up) simp_all
  obtain a where a: "dbg cf 1 (c_put_str M (nl ''  reset_ddr_hold'')) ?s1 = Some a" "up ready (\<lambda>_. True) s0 a"
    using steadyE [OF p s1] .
  obtain b where b: "mdelay M 1 a = Some b" "ready (dev b)" using delay a(2) by (auto simp: up_def)
  then have ub: "up ready (\<lambda>_. True) s0 b"
    using a(2) mdelay_loop_seen [of M "250000 * 1"] by (auto simp: mdelay_def up_def Let_def
      intro: frame_trans [OF _ frame_trans [OF frame_SET_COMPARE frame_trans [OF frame_SET_COUNTER]]])
  have c: "up ready (\<lambda>_. True) s0 (scu_set M rst_vec ?m b)" using ub by (intro scu_up) simp_all
  obtain d where d: "dbg cf 1 (c_put_str M (nl ''  reset_ddr_free'')) (scu_set M rst_vec ?m b) = Some d" "up ready (\<lambda>_. True) s0 d"
    using steadyE [OF p c] .
  have "up ready (\<lambda>_. True) s0 (scu_set M rst_mask ?m d)" using d(2) by (intro scu_up) simp_all
  then show "\<exists>t. ddr_system_reset cf M s = Some t \<and> up ready (\<lambda>_. True) s0 t"
    by (simp add: ddr_system_reset_def Let_def a(1) b(1) d(1) del: One_nat_def)
qed

lemma ddr_phy_init_steady: "steady (up ready (\<lambda>_. True) s0) (ddr_phy_init cf M)"
proof (rule steadyI)
  fix s assume s: "up ready (\<lambda>_. True) s0 s"
  have d: "steady (up ready (\<lambda>_. True) s0) (dbg cf 2 (debugDumpRegs M DDR_PHY_BASE 12))" by (intro up_intros) simp
  show "\<exists>t. ddr_phy_init cf M s = Some t \<and> up ready (\<lambda>_. True) s0 t"
    unfolding ddr_phy_init_def Let_def
    by (rule steadyD [OF d], intro H_WR32_up ddr_regs_mem(3) s) simp_all
qed

lemma ddr_phy_polling_idle_steady: "steady (up ready (\<lambda>_. True) s0) (ddr_phy_polling_idle cf M)"
  unfolding ddr_phy_polling_idle_def [abs_def] by (intro up_intros)

lemma ddr_ctl_polling_idle_steady: "steady (up ready (\<lambda>_. True) s0) (ddr_ctl_polling_idle cf M)"
  unfolding ddr_ctl_polling_idle_def [abs_def] by (intro up_intros)

lemma auto_ddr_title_steady: "steady (up ready (\<lambda>_. True) s0) (auto_ddr_title cf M cS chip bus)"
  unfolding auto_ddr_title_def [abs_def] by (intro up_intros)

lemma ddr_ctl_init_steady:
  assumes "unat cS < 4"
  shows "steady (up ready (\<lambda>_. True) s0) (ddr_ctl_init cf M cS cW bW)"
proof (rule steadyI)
  fix s assume s: "up ready (\<lambda>_. True) s0 s"
  have d1: "steady (up ready (\<lambda>_. True) s0) (dbg cf 2 (debugDumpRegs M DDR_CTL_BASE 8))"
    and d2: "steady (up ready (\<lambda>_. True) s0) (dbg cf 2 (debugDumpRegs M (DDR_CTL_BASE + 0x80) 7))"
    by (intro up_intros; simp)+
  obtain r where r: "arr_get a_tRFC (unat cS) = Some r"
    using assms by (simp add: arr_get_def a_tRFC_def)
  note wr = H_WR32_up [OF ddr_regs_mem(2)] rmw32_up [OF ddr_regs_mem(2)]
  have "\<exists>a. ddr_ctl_timing cf M cS cW bW s = Some a \<and> up ready (\<lambda>_. True) s0 a"
    unfolding ddr_ctl_timing_def Let_def r
    by (cases "DDR_AUTO_DETECT cf"; cases "0 = bW"; cases "SYS_DRAM_WIDTH = DRAM_SYS_BUS_16BIT") (simp_all add: wr s)
  then obtain a where a: "ddr_ctl_timing cf M cS cW bW s = Some a" "up ready (\<lambda>_. True) s0 a" by blast
  show "\<exists>t. ddr_ctl_init cf M cS cW bW s = Some t \<and> up ready (\<lambda>_. True) s0 t"
    unfolding ddr_ctl_init_def Let_def a(1) bind.bind_lunit
    by (intro bind_up [OF d1] bind_up [OF d2] wr a(2)) (auto intro: wr)
qed

lemma scl_polling_steady:
  assumes "q = (\<lambda>_. True) \<or> q = tuned"
  shows "steady (up ready q s0) (ddr_scl_polling_start cf M)"
proof -
  note p = up_port [OF assms]
  show ?thesis
    unfolding ddr_scl_polling_start_def [abs_def]
    by (intro steady_intros dbg_steady poll_clr_steady [OF assms] steady_put.put_str [OF steady_port.axioms(1) [OF p]] steady_port.dump_volatile [OF p])
qed

lemma scl_mask: "scl_column_mask cf 1 = 0xF"
  by (simp add: scl_column_mask_def reg_defs)

lemma ddr_scl_run_result:
  assumes "ready (dev s)"
  obtains t where "ddr_scl_run cf M 1 s = Some (if lanes AND 0xF = 0xF then 0 else 1, t)" "frame s t" "ready (dev t)"
proof -
  have w: "up ready (\<lambda>_. True) s (H_WR32 M (DDR_PHY scl_start) v s)" for v
    using assms by (intro H_WR32_up ddr_regs_mem(3)) (simp_all add: up_def)
  obtain a where a: "ddr_scl_read_read cf M s = Some a" "up ready (\<lambda>_. True) s a"
    unfolding ddr_scl_read_read_def using steadyE [OF scl_polling_steady w] by blast
  have "up ready tuned s (H_WR32 M (DDR_PHY scl_start) SCL_START_GO_DONE a)"
    using H_WR32_up [OF ddr_regs_mem(3) a(2)] write_read by (simp add: up_def H_WR32_def)
  then obtain b where b: "ddr_scl_write_read cf M a = Some b" "up ready tuned s b"
    unfolding ddr_scl_write_read_def using steadyE [OF scl_polling_steady] by blast
  obtain v t where l: "H_RD32 M (DDR_PHY scl_start) b = (v, t)" by (metis prod.exhaust)
  have t: "up ready tuned s t" by (rule tn.load [OF b(2) l])
  have "v AND 0xF = lanes AND 0xF"
    using result [of "dev b"] b(2) l by (auto simp: up_def H_RD32_def split: prod.splits)
  then have "ddr_scl_run cf M 1 s = Some (if lanes AND 0xF = 0xF then 0 else 1, t)"
    by (auto simp: ddr_scl_run_def a(1) b(1) ddr_scl_result_ok_def scl_mask l)
  then show ?thesis using that t by (simp add: up_def)
qed

text \<open>The body of the loops for 1 Gbit chips of 16 bit on a 32 bit bus.\<close>

lemma auto_ddr_try_result:
  assumes r: "ready (dev s)"
  shows "\<exists>t. auto_ddr_try cf M (2, 2, 1) s =
      Some (lanes AND 0xF = 0xF \<and> bitflip_spec line (tested 0x80000000 4096 65536) = 0, t)
    \<and> frame s t \<and> ready (dev t)"
proof -
  let ?U = "up ready (\<lambda>_. True) s" and ?w = "tested 0x80000000 4096 65536"
  have s: "?U s" using r by (simp add: up_def)
  have put: "\<exists>t. c_put_str M x q = Some t \<and> ?U t" if "?U q" for x q by (rule steadyD [OF u.put_str that])
  obtain a where a: "auto_ddr_title cf M 2 16 32 s = Some a" "?U a" using steadyE [OF auto_ddr_title_steady s] .
  obtain b where b: "ddr_system_reset cf M a = Some b" "?U b" using steadyE [OF ddr_system_reset_steady a(2)] .
  obtain c where c: "ddr_phy_init cf M b = Some c" "?U c" using steadyE [OF ddr_phy_init_steady b(2)] .
  obtain d where d: "ddr_phy_polling_idle cf M c = Some d" "?U d" using steadyE [OF ddr_phy_polling_idle_steady c(2)] .
  have "unat (2 :: u32) < 4" by simp
  obtain e where e: "ddr_ctl_init cf M 2 2 1 d = Some e" "?U e" using steadyE [OF ddr_ctl_init_steady [OF \<open>unat 2 < 4\<close>] d(2)] .
  obtain f where f: "ddr_ctl_polling_idle cf M e = Some f" "?U f" using steadyE [OF ddr_ctl_polling_idle_steady e(2)] .
  obtain g where g: "c_put_str M (nl '' SCL calibration:'') f = Some g" "?U g" using put f(2) by blast
  obtain h where h: "ddr_scl_run cf M 1 g = Some (if lanes AND 0xF = 0xF then 0 else 1, h)" "frame g h" "ready (dev h)"
    using ddr_scl_run_result g(2) unfolding up_def by blast
  have H: "?U h" using g(2) h(2,3) by (auto simp: up_def intro: frame_trans)
  have size: "(push_bit (25 + 2) 1 :: u32) * (32 div 16) = 0x10000000" "\<not> SYS_MEM_MAX_SIZE < (0x10000000 :: u32)"
    by (simp_all add: reg_defs)
  have start: "auto_ddr_try cf M (2, 2, 1) s =
    (if lanes AND 0xF \<noteq> 0xF then Option.bind (c_put_str M (nl '' NG'') h) (\<lambda>s. Some (False, s))
     else do {
       s \<leftarrow> c_put_str M (nl '' OK'') h;
       s \<leftarrow> c_put_str M (nl '' data integrity:'') s;
       (bad, s) \<leftarrow> ram_verify_bitflip cf M SYS_MEM_BASE 0x10000000 s;
       if bad \<noteq> 0 then do { s \<leftarrow> c_put_str M (nl '' NG'') s; Some (False, s) }
       else do { s \<leftarrow> c_put_str M (nl '' OK'') s; Some (True, s) }
     })"
    unfolding auto_ddr_try_def prod.case
    by (simp add: arr_get_def busWidth_def chpWidth_def a(1) b(1) c(1) d(1) e(1) f(1) g(1) h(1) reg_defs)
  show ?thesis
  proof (cases "lanes AND 0xF = 0xF")
    case False
    then show ?thesis using put [OF H, of "nl '' NG''"] unfolding start by (auto simp: up_def)
  next
    case True
    obtain i where i: "c_put_str M (nl '' OK'') h = Some i" "?U i" using put H by blast
    obtain j where j: "c_put_str M (nl '' data integrity:'') i = Some j" "?U j" using put i(2) by blast
    have rng: "test_range SYS_MEM_BASE 4096 65536" by (simp add: test_range_def reg_defs)
    have jr: "ready (dev j)" using j(2) by (simp add: up_def)
    obtain l where l: "bitflip_loop cf M SYS_MEM_BASE (of_nat 4096) (of_nat 65536) 0 32 j = Some (bitflip_spec line ?w, l)"
      "frame j l" "ready (dev l)"
      using bitflip_loop_refines [OF rng jr, of cf 0 32] by (auto simp: bitflip_spec_def reg_defs)
    then have v: "ram_verify_bitflip cf M SYS_MEM_BASE 0x10000000 j = Some (bitflip_spec line ?w, l)"
      by (simp add: ram_verify_bitflip_def)
    have L: "?U l" using j(2) l(2,3) by (auto simp: up_def intro: frame_trans)
    show ?thesis
      using put [OF L, of "nl '' NG''"] put [OF L, of "nl '' OK''"] True unfolding start
      by (auto simp: i(1) j(1) v up_def)
  qed
qed

end

subsection \<open>Properties of the bring-up\<close>

lemma auto_ddr_cands_eq: "auto_ddr_cands = [(2, 2, 1)]"
  by (simp add: auto_ddr_cands_def upt_rec)

text \<open>
  C11. \<open>c_auto_ddr\<close> returns on every board whose PHY and calibration logic end what they start, at every
  debug level, and touches nothing but the devices. It returns 0 exactly if all four byte lanes calibrate
  and the bit flip test of the 256 MByte at \<open>0x80000000\<close> finds no mismatch, and 1 otherwise, after its one
  attempt.
\<close>

theorem c_auto_ddr_result:
  assumes "ddr_hw M outs ready raw cell line tuned lanes" "ready (dev s)"
  shows "\<exists>t. c_auto_ddr cf M s = Some (if lanes AND 0xF = 0xF
      \<and> bitflip_spec line (tested 0x80000000 4096 65536) = 0 then 0 else 1, t) \<and> frame s t"
  using ddr_hw.auto_ddr_try_result [OF assms, of cf] by (auto simp: c_auto_ddr_def auto_ddr_cands_eq)

lemma ddr_board_count: "get_count (ddr_board line m lanes) = get_count board_machine"
  "set_count (ddr_board line m lanes) = set_count board_machine"
  "set_compare (ddr_board line m lanes) = set_compare board_machine"
  by (simp_all add: ddr_board_def)

lemma mdelay_loop_count:
  assumes "get_count M = get_count board_machine" "limit \<noteq> -1" "unat (bcount (dev s)) \<le> unat limit + 1"
  shows "mdelay_loop M limit s = Some (s\<lparr>dev := (dev s)\<lparr>bcount := limit + 2\<rparr>\<rparr>)"
proof -
  have "mdelay_loop board_machine limit s = Some t \<Longrightarrow> mdelay_loop M limit s = Some t" for t
  proof (rule mdelay_loop.raw_induct [where P = "\<lambda>N limit s t. N = board_machine \<longrightarrow> mdelay_loop M limit s = Some t", THEN mp])
    fix loop :: "board machine \<Rightarrow> u32 \<Rightarrow> board sys \<Rightarrow> board sys option" and N :: "board machine" and l s t
    assume IH: "\<And>N l s t. loop N l s = Some t \<Longrightarrow> N = board_machine \<longrightarrow> mdelay_loop M l s = Some t"
      and run: "(let (k, s) = GET_COUNTER N s in if k \<le> l then loop N l s else Some s) = Some t"
    show "N = board_machine \<longrightarrow> mdelay_loop M l s = Some t"
      using run IH by (subst mdelay_loop.simps) (auto simp: GET_COUNTER_def assms(1) split: if_splits)
  qed simp_all
  then show ?thesis using mdelay_loop_board [OF assms(2,3)] by blast
qed

lemma ddr_regs_plain: "a \<in> ddr_regs \<Longrightarrow> \<not> dram_addr a \<and> a \<noteq> UART1 r"
  by (cases r) (auto simp: ddr_regs_def dram_addr_def uart_defs reg_defs)

interpretation ddrup: ddr_hw "ddr_board line m lanes" bouts latch_closed bregs "dram_cell m" line "\<lambda>_. True" lanes
  for line m lanes
proof (intro ddr_hw.intro ddr_hw_axioms.intro ddrb.dram_axioms)
  fix a v w c and d e :: board and s t :: "board sys"
  show "a \<in> ddr_regs \<Longrightarrow> latch_closed (io_store (ddr_board line m lanes) a v d) = latch_closed d"
    using ddr_regs_plain [of a] by (auto simp: ddr_board_store latch_closed_def)
  have regs: "\<not> dram_addr (DDR_CTL status_perf)" "\<not> dram_addr (DDR_PHY scl_start)" "DDR_CTL status_perf \<noteq> UART1 lsr"
    "DDR_PHY scl_start \<noteq> UART1 lsr" "DDR_PHY scl_start \<noteq> DDR_CTL status_perf"
    by (simp_all add: dram_addr_def uart_defs reg_defs)
  then show "\<exists>t. c_poll32_until_set (ddr_board line m lanes) (DDR_CTL status_perf) DDR_SCL_DONE s = Some t"
    by (subst c_poll32_until_set.simps) (simp add: H_RD32_def ddr_board_load)
  show "\<exists>t. c_poll32_until_clr (ddr_board line m lanes) (DDR_PHY scl_start) SCL_START_GO_DONE s = Some t"
    using regs by (subst c_poll32_until_clr.simps) (simp add: H_RD32_def ddr_board_load and.assoc)
  have "mdelay (ddr_board line m lanes) 1 s = Some (s\<lparr>dev := (dev s)\<lparr>bcount := 250002\<rparr>\<rparr>)"
    using mdelay_loop_count [OF ddr_board_count(1), of 250000]
    by (simp add: mdelay_def SET_COMPARE_def SET_COUNTER_def ddr_board_count)
  moreover assume "latch_closed (dev s)"
  ultimately show "\<exists>t. mdelay (ddr_board line m lanes) 1 s = Some t \<and> latch_closed (dev t)"
    by (simp add: latch_closed_def)
next
  fix v and d e :: board
  have "(lanes AND NOT SCL_START_GO_DONE) AND 0xF = lanes AND 0xF"
    by (simp add: reg_defs and.assoc)
  then show "io_load (ddr_board line m lanes) (DDR_PHY scl_start) d = (v, e) \<Longrightarrow> v AND 0xF = lanes AND 0xF"
    by (auto simp: ddr_board_load dram_addr_def uart_defs reg_defs)
qed simp_all

theorem c_auto_ddr_result_witness:
  "(\<exists>t. c_auto_ddr uart_boot_config (ddr_board (\<lambda>_ v. v) 0x0FFFFFFF 0xF) board0 = Some (0, t))
   \<and> (\<exists>t. c_auto_ddr uart_boot_config (ddr_board (\<lambda>_ v. v) 0x0FFFFFFF 0x7) board0 = Some (1, t))"
proof -
  have "bitflip_spec (\<lambda>_ v. v) as = 0" for as
    by (simp add: bitflip_spec_0_iff)
  then show ?thesis
    using c_auto_ddr_result [OF ddrup.ddr_hw_axioms board0_range(1), where cf = uart_boot_config and line = "\<lambda>_ v. v"
        and m1 = "0x0FFFFFFF" and lanes = "0xF"]
      c_auto_ddr_result [OF ddrup.ddr_hw_axioms board0_range(1), where cf = uart_boot_config and line = "\<lambda>_ v. v"
        and m1 = "0x0FFFFFFF" and lanes = "0x7"]
    by auto
qed

end
