(* ===== verification/Boot.thy ===== *)
theory Boot
  imports Ddr_Up Xmodem_Script Nand_Uboot
begin

unbundle bit_operations_syntax

section \<open>The boot program (loader/fboot.c)\<close>

text \<open>
  \<open>main\<close> of \<^verbatim>\<open>fboot.c\<close>: detection, clocks, memory, then the download over the serial line or the load from
  NAND, and the jump. A run ends in the jump to the loaded code or in one of the endless loops
  \<open>while (1)\<close> of the error paths, which leaves the state as it is: the values of \<open>boot_end\<close>. The build stamp
  \<open>__DATE__","__TIME__\<close> is a parameter, and so is the stack frame of \<open>xmodem_load\<close>.
\<close>

datatype boot_end = Jump u32 | Spin

definition A_K1BASE :: u32 where [reg_defs]: "A_K1BASE = 0xA0000000"
definition MAX_UBOOT_SIZE :: u32 where [reg_defs]: "MAX_UBOOT_SIZE = push_bit 10 512"
definition RAM_DOWNLOAD_BASE :: u32 where [reg_defs]: "RAM_DOWNLOAD_BASE = A_K1BASE + 0x00800000"
definition RAM_STARTUP_BASE :: u32 where [reg_defs]: "RAM_STARTUP_BASE = A_K0BASE + 0x00800000"

definition str_RomDwld :: "u8 list" where
  "str_RomDwld = nl ([CHR 0x0D, CHR 0x0A] @ ''Load '' @ [CHR 0x27] @ ''uboot'' @ [CHR 0x27] @ ''...'')"

definition str_TooBig :: "u8 list" where
  "str_TooBig = nl ''file > 512KB''"

text \<open>From the start to the banner.\<close>

definition boot_detect :: "config \<Rightarrow> 'd machine \<Rightarrow> u8 list \<Rightarrow> 'd sys \<Rightarrow> 'd sys option" where
  "boot_detect cf M stamp s = do {
     s \<leftarrow> c_put_str M (nl [CHR 0x0D, CHR 0x0A]) s;
     (chip, s) \<leftarrow> detect_SoC M s;
     let s = s\<lparr>gChipType := chip\<rparr>;
     s \<leftarrow> dbg cf 1 (\<lambda>s. do {
            s \<leftarrow> c_put_str M (nl []) s;
            s \<leftarrow> detect_resetcause M s;
            s \<leftarrow> c_put_str M (nl []) s;
            detect_bootmode M s
          }) s;
     s \<leftarrow> c_put_str M (if UARTBOOT_CODE cf then nl ''UartBoot 1.00 running inside CPU''
                         else nl ''NandBoot 1.00 running inside CPU'') s;
     c_put_str M (nl ''  Jacky.ikanos, '' @ stamp) s
   }"

text \<open>Clocks and memory; the result is the status of \<open>c_auto_ddr\<close>.\<close>

definition boot_init :: "config \<Rightarrow> 'd machine \<Rightarrow> 'd sys \<Rightarrow> (u32 \<times> 'd sys) option" where
  "boot_init cf M s = do {
     s \<leftarrow> c_put_str M (nl ''PLL start'') s;
     s \<leftarrow> init_plls cf M s;
     s \<leftarrow> c_put_str M (nl ''PLL   end'') s;
     s \<leftarrow> c_put_str M (nl ''DDR start'') s;
     (status, s) \<leftarrow> c_auto_ddr cf M s;
     s \<leftarrow> c_put_str M (nl ''DDR   end'') s;
     Some (status, s)
   }"

text \<open>The download or the load, and the jump.\<close>

definition boot_load ::
    "config \<Rightarrow> 'd nand_env \<Rightarrow> 'd machine \<Rightarrow> nand_globals \<Rightarrow> u8 list \<Rightarrow> 'd sys \<Rightarrow> (boot_end \<times> 'd sys) option" where
  "boot_load cf E M G stack s =
     (if UARTBOOT_CODE cf then do {
        s \<leftarrow> c_put_str M str_RomDwld s;
        (length, s) \<leftarrow> xmodem_load (c_get_char_timout M) (c_put_char M) ram_store8 gSysClock stack RAM_DOWNLOAD_BASE s;
        if MAX_UBOOT_SIZE < length then do { s \<leftarrow> c_put_str M str_TooBig s; Some (Spin, s) }
        else Some (Jump RAM_STARTUP_BASE, s)
      } else do {
        (_, _, s) \<leftarrow> read_uboot E M G s;
        Some (Jump RAM_STARTUP_BASE, s)
      })"

definition boot_main ::
    "config \<Rightarrow> 'd nand_env \<Rightarrow> 'd machine \<Rightarrow> nand_globals \<Rightarrow> u8 list \<Rightarrow> u8 list \<Rightarrow> 'd sys \<Rightarrow> (boot_end \<times> 'd sys) option" where
  "boot_main cf E M G stamp stack s = do {
     s \<leftarrow> boot_detect cf M stamp s;
     (status, s) \<leftarrow> boot_init cf M s;
     if status \<noteq> 0 then Some (Spin, s) else boot_load cf E M G stack s
   }"

subsection \<open>What a jump means\<close>

lemma c_put_str_frame: "c_put_str M cs s = Some t \<Longrightarrow> frame s t"
proof (induction cs arbitrary: s)
  case (Cons c cs)
  then show ?case
    by (auto simp: bind_eq_Some_conv dest!: c_put_char_frame split: if_splits intro: frame_trans)
qed simp

lemma phys_add:
  assumes "phys a = phys b"
  shows "phys (a + i) = phys (b + i)"
proof -
  have "unat (phys (w + i)) = (unat (phys w) + unat i) mod 2 ^ 29" for w
  proof -
    have "(2 ^ 29 :: nat) dvd 2 ^ 32" by (simp add: le_imp_power_dvd)
    then show ?thesis
      by (simp add: unat_phys unat_word_ariths mod_mod_cancel mod_add_left_eq)
  qed
  then show ?thesis using assms by (metis word_unat_eq_iff)
qed


subsection \<open>The way to the loader\<close>

text \<open>
  \<open>boot_hw\<close>: clocks and memory on one board. The sublocale gives the routines of the console over the
  predicate that no clock register has changed.
\<close>

sublocale clock_hw \<subseteq> q: steady_port M "quiet ready reg s0" for s0
proof
  show "steady (quiet ready reg s0) (c_put_char M c)" for c
  proof (rule steadyI)
    fix s assume s: "quiet ready reg s0 s"
    obtain t where "c_put_char M c s = Some t" "quiet ready reg s t"
      using put_char_quiet [OF quietD [OF s]] .
    then show "\<exists>t. c_put_char M c s = Some t \<and> quiet ready reg s0 t"
      using quiet_trans [OF s] by blast
  qed
  show "quiet ready reg s0 t" if "quiet ready reg s0 s" "H_RD32 M a s = (v, t)" for s a v t
    using load_quiet [of s a] quietD [OF that(1)] quiet_trans [OF that(1)] that(2) by (metis prod.inject)
qed

text \<open>What \<open>c_auto_ddr\<close> asks of the memory.\<close>

definition ddr_ok :: "(u32 \<Rightarrow> u32 \<Rightarrow> u32) \<Rightarrow> u32 \<Rightarrow> bool" where
  "ddr_ok line lanes \<longleftrightarrow> lanes AND 0xF = 0xF \<and> bitflip_spec line (tested 0x80000000 4096 65536) = 0"

locale boot_hw = clock_hw M outs ready reg + ddr_hw M outs ready raw cell line tuned lanes
  for M :: "'d machine" and outs ready reg raw cell line tuned lanes
begin

lemma resetcause_steady: "i + n \<le> 4 \<Longrightarrow> steady (quiet ready reg s0) (detect_resetcause_loop M i n)"
proof (induction n arbitrary: i)
  case 0
  then show ?case by (simp add: steady_def)
next
  case (Suc n)
  obtain name where name: "arr_get reset_str i = Some name"
    using Suc.prems by (simp add: arr_get_def reset_str_def)
  have IH: "steady (quiet ready reg s0) (detect_resetcause_loop M (i + 1) n)"
    using Suc.IH Suc.prems by simp
  show ?case
    unfolding detect_resetcause_loop.simps [abs_def] name bind.bind_lunit Let_def
    by (intro q.steady_load steady_intros q.put_str IH)
qed

lemma bootmode_steady: "steady (quiet ready reg s0) (detect_bootmode M)"
proof -
  have "\<exists>name. arr_get boot_str (unat (v AND 7)) = Some name" for v :: u32
    using and_7_less [of v] by (simp add: arr_get_def boot_str_def)
  then have "steady (quiet ready reg s0) (\<lambda>s. Option.bind (arr_get boot_str (unat (v AND 7))) (\<lambda>name. c_put_str M (str name) s))" for v :: u32
  proof -
    obtain name where "arr_get boot_str (unat (v AND 7)) = Some name"
      using \<open>\<And>v. \<exists>name. arr_get boot_str (unat (v AND 7)) = Some name\<close> by blast
    then show ?thesis by (simp add: q.put_str)
  qed
  then show ?thesis
    unfolding detect_bootmode_def [abs_def] Let_def by (intro q.steady_load)
qed

lemma detect_SoC_quiet:
  assumes "quiet ready reg s0 s"
  obtains c t where "detect_SoC M s = Some (c, t)" "quiet ready reg s0 t"
proof -
  have put: "\<exists>t. c_put_str M x q = Some t \<and> quiet ready reg s0 t" if "quiet ready reg s0 q" for x q
    by (rule steadyD [OF q.put_str that])
  have putc: "\<exists>t. c_put_char M x q = Some t \<and> quiet ready reg s0 t" if "quiet ready reg s0 q" for x q
    by (rule steadyD [OF q.put that])
  obtain rev s1 where 1: "H_RD32 M (SCU rev_num) s = (rev, s1)" by (metis prod.exhaust)
  note q1 = q.load [OF assms 1]
  show ?thesis
  proof (cases "rev = 0x00030200")
    case False
    obtain s2 where 2: "c_put_str M (str ''UNKNOWN'') s1 = Some s2" "quiet ready reg s0 s2" using put q1 by blast
    obtain v s3 where 3: "H_RD32 M 0xB900003C s2 = (v, s3)" by (metis prod.exhaust)
    show ?thesis
      using that [of v s3] q.load [OF 2(2) 3] False by (simp add: detect_SoC_def 1 2(1) 3)
  next
    case True
    obtain v s2 where 2: "H_RD32 M (SCU cpu_ctl) s1 = (v, s2)" by (metis prod.exhaust)
    let ?n = "SoC_str ! unat (drop_bit 4 v AND 7)"
    have n: "arr_get SoC_str (unat (drop_bit 4 v AND 7)) = Some ?n"
      using and_7_less [of "drop_bit 4 v"] by (simp add: arr_get_def SoC_str_def)
    obtain s3 where 3: "c_put_str M (str ?n) s2 = Some s3" "quiet ready reg s0 s3" using put q.load [OF q1 2] by blast
    obtain s4 where 4: "c_put_char M (of_char (CHR ''-'')) s3 = Some s4" "quiet ready reg s0 s4" using putc 3(2) by blast
    obtain s5 where 5: "c_put_char M (of_char (CHR ''B'')) s4 = Some s5" "quiet ready reg s0 s5" using putc 4(2) by blast
    obtain w s6 where 6: "H_RD32 M (SCU spare0) s5 = (w, s6)" by (metis prod.exhaust)
    obtain s7 where 7: "c_put_char M (of_char (CHR ''0'') + ucast (drop_bit 24 w AND 1)) s6 = Some s7" "quiet ready reg s0 s7"
      using putc q.load [OF 5(2) 6] by blast
    show ?thesis
      using that [of "drop_bit 4 v AND 7" s7] 7(2) True n 3(1) 4(1) 5(1) 7(1) by (simp add: detect_SoC_def 1 2 6)
  qed
qed

lemma boot_detect_quiet:
  assumes "ready (dev s)"
  obtains t c where "boot_detect cf M stamp s = Some t" "quiet ready reg (s\<lparr>gChipType := c\<rparr>) t"
proof -
  have put: "\<exists>t. c_put_str M x q = Some t \<and> quiet ready reg s0 t" if "quiet ready reg s0 q" for x q s0
    by (rule steadyD [OF q.put_str that])
  have "quiet ready reg s s" using assms by (simp add: quiet_def)
  then obtain s1 where 1: "c_put_str M (nl [CHR 0x0D, CHR 0x0A]) s = Some s1" "quiet ready reg s s1" using put by blast
  obtain c s2 where 2: "detect_SoC M s1 = Some (c, s2)" "quiet ready reg s s2" using detect_SoC_quiet [OF 1(2)] .
  let ?s = "s\<lparr>gChipType := c\<rparr>" and ?s2 = "s2\<lparr>gChipType := c\<rparr>"
  have q2: "quiet ready reg ?s ?s2" using 2(2) by (simp add: quiet_def frame_def)
  have "steady (quiet ready reg ?s) (dbg cf 1 (\<lambda>s. do {
      s \<leftarrow> c_put_str M (nl []) s; s \<leftarrow> detect_resetcause M s; s \<leftarrow> c_put_str M (nl []) s; detect_bootmode M s }))"
    unfolding detect_resetcause_def [abs_def]
    by (intro dbg_steady steady_intros q.put_str resetcause_steady bootmode_steady) simp
  then obtain s3 where 3: "dbg cf 1 (\<lambda>s. do {
      s \<leftarrow> c_put_str M (nl []) s; s \<leftarrow> detect_resetcause M s; s \<leftarrow> c_put_str M (nl []) s; detect_bootmode M s }) ?s2 = Some s3"
    "quiet ready reg ?s s3" using q2 by (rule steadyE)
  obtain s4 where 4: "c_put_str M (if UARTBOOT_CODE cf then nl ''UartBoot 1.00 running inside CPU''
       else nl ''NandBoot 1.00 running inside CPU'') s3 = Some s4" "quiet ready reg ?s s4" using put 3(2) by blast
  obtain t where "c_put_str M (nl (''  Jacky.ikanos, '') @ stamp) s4 = Some t" "quiet ready reg ?s t" using put 4(2) by blast
  then show ?thesis
    using that [of t c] 1(1) 2(1) 3(1) 4(1) by (simp add: boot_detect_def)
qed

lemma boot_init_ddr:
  assumes "init_plls cf M u = Some v" "ready (dev v)" "c_put_str M (nl ''PLL start'') s = Some u"
  shows "\<exists>t. boot_init cf M s = Some (if ddr_ok line lanes then 0 else 1, t) \<and> frame v t \<and> ready (dev t)"
proof -
  have put: "\<exists>t. c_put_str M x q = Some t \<and> quiet ready reg v t" if "quiet ready reg v q" for x q
    by (rule steadyD [OF q.put_str that])
  have "quiet ready reg v v" using assms(2) by (simp add: quiet_def)
  then obtain a where a: "c_put_str M (nl ''PLL   end'') v = Some a" "quiet ready reg v a" using put by blast
  obtain b where b: "c_put_str M (nl ''DDR start'') a = Some b" "quiet ready reg v b" using put a(2) by blast
  obtain c where c: "auto_ddr_try cf M (2, 2, 1) b = Some (ddr_ok line lanes, c)" "frame b c" "ready (dev c)"
    using auto_ddr_try_result [OF quietD [OF b(2)], of cf] unfolding ddr_ok_def by blast
  have "quiet ready reg c c" using c(3) by (simp add: quiet_def)
  then obtain t where t: "c_put_str M (nl ''DDR   end'') c = Some t" "quiet ready reg c t"
    using steadyD [OF q.put_str] by blast
  have "c_auto_ddr cf M b = Some (if ddr_ok line lanes then 0 else 1, c)"
    using c(1) by (simp add: c_auto_ddr_def auto_ddr_cands_eq)
  then have "boot_init cf M s = Some (if ddr_ok line lanes then 0 else 1, t)"
    using assms(1,3) a(1) b(1) t(1) by (simp add: boot_init_def)
  moreover have "frame v t"
    using b(2) c(2) t(2) by (auto simp: quiet_def intro: frame_trans)
  ultimately show ?thesis using t(2) by (auto simp: quiet_def)
qed

lemma boot_init_start:
  assumes "ready (dev s)"
  obtains u where "c_put_str M (nl ''PLL start'') s = Some u" "quiet ready reg s u"
proof -
  have "quiet ready reg s s" using assms by (simp add: quiet_def)
  then show ?thesis using steadyE [OF q.put_str] that by blast
qed

lemma boot_cold:
  assumes r: "ready (dev s)" and cold: "\<not> bit (reg (dev s) rst_cause) 1"
  shows "\<exists>s1. boot_main cf E M G stamp stack s = (if ddr_ok line lanes then boot_load cf E M G stack s1 else Some (Spin, s1))
    \<and> ready (dev s1) \<and> mem s1 = mem s
    \<and> gSysClock s1 = (if slow_chip (gChipType s1) then 200 * 1000000 else 250 * 1000000)"
proof -
  obtain a c where a: "boot_detect cf M stamp s = Some a" "quiet ready reg (s\<lparr>gChipType := c\<rparr>) a"
    using boot_detect_quiet [OF r] .
  obtain u where u: "c_put_str M (nl ''PLL start'') a = Some u" "quiet ready reg a u"
    using boot_init_start [OF quietD [OF a(2)]] .
  have "\<not> bit (reg (dev u) rst_cause) 1" using a(2) u(2) cold by (simp add: quiet_def)
  from cold_reset [OF quietD [OF u(2)] this, of cf]
  obtain v where v: "init_plls cf M u = Some v" "ready (dev v)" "mem v = mem u" "gChipType v = gChipType u"
    "gSysClock v = (if slow_chip (gChipType u) then 200 * 1000000 else 250 * 1000000)" by blast
  obtain t where t: "boot_init cf M a = Some (if ddr_ok line lanes then 0 else 1, t)" "frame v t" "ready (dev t)"
    using boot_init_ddr [OF v(1,2) u(1)] by blast
  show ?thesis
    using a u(2) v t by (intro exI [of _ t]) (auto simp: boot_main_def quiet_def frame_def)
qed

lemma boot_soft:
  assumes r: "ready (dev s)" and soft: "bit (reg (dev s) rst_cause) 1"
  shows "\<exists>s1. boot_main cf E M G stamp stack s = (if ddr_ok line lanes then boot_load cf E M G stack s1 else Some (Spin, s1))
    \<and> gSysClock s1 = gSysClock s \<and> ready (dev s1)"
proof -
  obtain a c where a: "boot_detect cf M stamp s = Some a" "quiet ready reg (s\<lparr>gChipType := c\<rparr>) a"
    using boot_detect_quiet [OF r] .
  obtain u where u: "c_put_str M (nl ''PLL start'') a = Some u" "quiet ready reg a u"
    using boot_init_start [OF quietD [OF a(2)]] .
  have "bit (reg (dev u) rst_cause) 1" using a(2) u(2) soft by (simp add: quiet_def)
  from soft_reset [OF quietD [OF u(2)] this, of cf]
  obtain v where v: "init_plls cf M u = Some v" "ready (dev v)" "frame u v" by blast
  obtain t where t: "boot_init cf M a = Some (if ddr_ok line lanes then 0 else 1, t)" "frame v t" "ready (dev t)"
    using boot_init_ddr [OF v(1,2) u(1)] by blast
  show ?thesis
    using a u(2) v t by (intro exI [of _ t]) (auto simp: boot_main_def quiet_def frame_def)
qed

lemma boot_load_clock_0:
  assumes "UARTBOOT_CODE cf" "gSysClock s = 0" "ready (dev s)"
  shows "boot_load cf E M G stack s = None"
proof -
  obtain t where t: "c_put_str M str_RomDwld s = Some t" "quiet ready reg s t"
    using put_str_quiet assms(3) by blast
  then have "gSysClock t = 0" using assms(2) by (simp add: quiet_def frame_def)
  then show ?thesis
    using assms(1) t(1) uart1.load_clock_0 [of t] by (simp add: boot_load_def)
qed

end


text \<open>
  C34. After a soft reset, with \<open>gSysClock\<close> at its initial 0, the UART boot program never returns and never
  jumps, on any such board with sound memory: it waits for the first packet forever.
\<close>

theorem boot_soft_reset_hangs:
  assumes "boot_hw M outs ready reg raw cell line tuned lanes" "ready (dev s)" "bit (reg (dev s) rst_cause) 1"
    and "UARTBOOT_CODE cf" "gSysClock s = 0" "ddr_ok line lanes"
  shows "boot_main cf E M G stamp stack s = None"
proof -
  obtain s1 where "boot_main cf E M G stamp stack s = boot_load cf E M G stack s1" "gSysClock s1 = 0" "ready (dev s1)"
    using boot_hw.boot_soft [OF assms(1-3), of cf E G stamp stack] assms(5,6) by (metis (full_types))
  then show ?thesis
    using boot_hw.boot_load_clock_0 [OF assms(1,4)] by metis
qed

end
