(* ===== verification/Boot_Demo.thy ===== *)
theory Boot_Demo
  imports Boot
begin

unbundle bit_operations_syntax

section \<open>A board that boots over the serial line\<close>

text \<open>
  One board with clocks, memory and a scripted serial line: the hardware of the interfaces \<open>boot_hw\<close> and
  \<open>scripted_port\<close> together, on which the whole boot program runs from reset to the jump.
\<close>

subsection \<open>Clocks and memory\<close>

text \<open>The registers of the board with clocks and of the board with memory in one.\<close>

definition boot_board :: "(u32 \<Rightarrow> u32 \<Rightarrow> u32) \<Rightarrow> u32 \<Rightarrow> u32 \<Rightarrow> board machine" where
  "boot_board line m lanes = clock_board\<lparr>
     io_load := (\<lambda>a. if dram_addr a \<or> a = DDR_CTL status_perf \<or> a = DDR_PHY scl_start
       then io_load (ddr_board line m lanes) a else io_load clock_board a),
     io_store := (\<lambda>a. if dram_addr a then io_store (ddr_board line m lanes) a else io_store clock_board a)\<rparr>"

lemma boot_board_load:
  "io_load (boot_board line m lanes) a = (if dram_addr a \<or> a = DDR_CTL status_perf \<or> a = DDR_PHY scl_start
     then io_load (ddr_board line m lanes) a else io_load clock_board a)"
  by (simp add: boot_board_def)

lemma boot_board_store:
  "io_store (boot_board line m lanes) a = (if dram_addr a then io_store (ddr_board line m lanes) a else io_store clock_board a)"
  by (simp add: boot_board_def)

lemma scu_plain:
  assumes "in_scu r"
  shows "\<not> dram_addr (SCU r) \<and> SCU r \<noteq> DDR_CTL status_perf \<and> SCU r \<noteq> DDR_PHY scl_start"
proof -
  have "list_all (\<lambda>r. \<not> dram_addr (SCU r) \<and> SCU r \<noteq> DDR_CTL status_perf \<and> SCU r \<noteq> DDR_PHY scl_start) scu_struct"
    by code_simp
  with in_scu_struct [OF assms] show ?thesis by (auto simp: list_all_iff)
qed

lemma uart_plain: "\<not> dram_addr (UART1 u) \<and> UART1 u \<noteq> DDR_CTL status_perf \<and> UART1 u \<noteq> DDR_PHY scl_start"
  by (cases u) (simp_all add: dram_addr_def uart_defs reg_defs)

lemma pll_status_in_scu: "in_scu (pll_status p)"
  by (cases p) simp_all

lemma boot_board_keep: "snd (io_load (boot_board line m lanes) a d) = d"
  by (simp add: boot_board_load ddr_board_load clock_board_load(4))

lemma boot_board_pll: "io_load (boot_board line m lanes) (SCU (pll_status p)) d = (pll_state (bregs d (SCU pll_pwr_rst)) p, d)"
  using scu_plain [OF pll_status_in_scu [of p]] by (simp add: boot_board_load clock_board_load)

lemma boot_board_scl: "io_load (boot_board line m lanes) (DDR_PHY scl_start) d = (lanes AND NOT SCL_START_GO_DONE, d)"
  by (simp add: boot_board_load ddr_board_load) (simp add: dram_addr_def uart_defs reg_defs)

lemma boot_board_perf: "io_load (boot_board line m lanes) (DDR_CTL status_perf) d = (DDR_SCL_DONE, d)"
  by (simp add: boot_board_load ddr_board_load) (simp add: dram_addr_def uart_defs reg_defs)

subsection \<open>The serial line\<close>

text \<open>
  The line is a fixed \<open>script\<close> with a position; \<open>pad\<close> counts silences in front of it. As on the simulated
  UART of \<open>sim_machine\<close>, the count register reads 0 once after it is set and its maximum from then on,
  which ends a silence. Setting the compare register, which only \<open>mdelay\<close> does, adds the silence that
  \<open>mdelay\<close> waits for.
\<close>

record full =
  regs :: board
  script :: "u32 option list"
  pos :: nat
  pad :: nat
  late :: bool
  sent_chars :: "u8 list"

definition full_line :: "full \<Rightarrow> u32 option list" where
  "full_line d = replicate (pad d) None @ drop (pos d) (script d)"

text \<open>The NAND controller: its index register is a plain one, a page is seen through its data window.\<close>

definition nand_window :: "u32 \<Rightarrow> bool" where
  "nand_window a \<longleftrightarrow> EP501M3_BASE + EP501M3_DATA \<le> a \<and> a < EP501M3_BASE + EP501M3_DATA + 0x1000"

definition full_index :: "full \<Rightarrow> u32" where
  "full_index d = bregs (regs d) (EP501M3_BASE + EP501M3_INDEX)"

definition full_load :: "u32 \<Rightarrow> (u32 \<Rightarrow> u8) \<Rightarrow> (u32 \<Rightarrow> u32 \<Rightarrow> u32) \<Rightarrow> u32 \<Rightarrow> u32 \<Rightarrow> u32 \<Rightarrow> full \<Rightarrow> u32 \<times> full" where
  "full_load strap flash line m lanes a d =
     (if a = UART1 lsr then (case full_line d of Some c # _ \<Rightarrow> 0x61 | _ \<Rightarrow> 0x60, d)
      else if a = UART1 u0 then (case full_line d of Some c # _ \<Rightarrow> (c, d\<lparr>pos := Suc (pos d)\<rparr>) | _ \<Rightarrow> (0, d))
      else if a = SCU nandctrl_status then (1, d)
      else if a = SCU rst_strp then (strap, d)
      else if nand_window a then (flash_word flash (full_index d + (a - (EP501M3_BASE + EP501M3_DATA))), d)
      else (fst (io_load (boot_board line m lanes) a (regs d)), d))"

definition full_store :: "(u32 \<Rightarrow> u32 \<Rightarrow> u32) \<Rightarrow> u32 \<Rightarrow> u32 \<Rightarrow> u32 \<Rightarrow> u32 \<Rightarrow> full \<Rightarrow> full" where
  "full_store line m lanes a v d =
     (if a = UART1 u0 then d\<lparr>sent_chars := sent_chars d @ [ucast v]\<rparr>
      else d\<lparr>regs := io_store (boot_board line m lanes) a v (regs d)\<rparr>)"

definition full_count :: "full \<Rightarrow> u32 \<times> full" where
  "full_count d =
     (if late d
      then (- 1, if 0 < pad d then d\<lparr>pad := pad d - 1\<rparr>
                 else case full_line d of None # _ \<Rightarrow> d\<lparr>pos := Suc (pos d)\<rparr> | _ \<Rightarrow> d)
      else (0, d\<lparr>late := True\<rparr>))"

definition full_machine :: "u32 \<Rightarrow> (u32 \<Rightarrow> u8) \<Rightarrow> (u32 \<Rightarrow> u32 \<Rightarrow> u32) \<Rightarrow> u32 \<Rightarrow> u32 \<Rightarrow> full machine" where
  "full_machine strap flash line m lanes = \<lparr>io_load = full_load strap flash line m lanes, io_store = full_store line m lanes,
     get_count = full_count, set_count = (\<lambda>v d. d\<lparr>late := False\<rparr>), set_compare = (\<lambda>v d. d\<lparr>pad := Suc (pad d)\<rparr>)\<rparr>"

lemmas full_defs = full_machine_def full_load_def full_store_def full_count_def
  H_RD32_def H_WR32_def GET_COUNTER_def SET_COUNTER_def

lemma full_line_Some: "full_line d = Some c # es \<Longrightarrow> pad d = 0 \<and> full_line (d\<lparr>pos := Suc (pos d)\<rparr>) = es"
  by (cases "pad d") (auto simp: full_line_def drop_Suc tl_drop [symmetric])

lemma full_line_None:
  assumes "full_line d = None # es"
  shows "full_line (if 0 < pad d then d\<lparr>pad := pad d - 1\<rparr> else d\<lparr>pos := Suc (pos d)\<rparr>) = es"
  using assms by (cases "pad d") (auto simp: full_line_def drop_Suc tl_drop [symmetric])

lemma full_line_late [simp]: "full_line (d\<lparr>late := b\<rparr>) = full_line d" "full_line (d\<lparr>sent_chars := cs\<rparr>) = full_line d"
  "full_line (d\<lparr>regs := r\<rparr>) = full_line d"
  by (simp_all add: full_line_def)

lemma full_poll: "c_poll32_until_set (full_machine strap flash line m lanes) (UART1 lsr) UART_LSR_BITMASK_THRE s = Some s"
  by (subst c_poll32_until_set.simps)
    (simp add: full_defs UART_LSR_BITMASK_THRE_def split: list.splits option.splits)

lemma full_put_char:
  "c_put_char (full_machine strap flash line m lanes) c s = Some (s\<lparr>dev := (dev s)\<lparr>sent_chars := sent_chars (dev s) @ [c]\<rparr>\<rparr>)"
  by (simp add: c_put_char_def full_poll) (simp add: full_defs scast_ucast_u8)

lemma full_get_char:
  assumes "t \<noteq> 0" "full_line (dev s) = Some c # es"
  shows "\<exists>s'. c_get_char_timout (full_machine strap flash line m lanes) t s = Some (c, s')
    \<and> full_line (dev s') = es \<and> sent_chars (dev s') = sent_chars (dev s)"
proof -
  have "0 < t" using assms(1) by (simp add: word_gt_0)
  then show ?thesis
    using assms(2) full_line_Some [of "dev s"] full_line_Some [of "(dev s)\<lparr>late := True\<rparr>"]
    by (simp add: c_get_char_timout_def c_get_char_wait.simps full_defs UART_LSR_BITMASK_DR_def)
qed

lemma full_get_silence:
  assumes "t \<noteq> 0" "full_line (dev s) = None # es"
  shows "\<exists>s'. c_get_char_timout (full_machine strap flash line m lanes) t s = Some (GETCHAR_TIMED_OUT, s')
    \<and> full_line (dev s') = es \<and> sent_chars (dev s') = sent_chars (dev s)"
proof -
  have "0 < t" using assms(1) by (simp add: word_gt_0)
  moreover have "\<not> (- 1 :: u32) < t" by (simp add: not_less word_order.extremum)
  ultimately show ?thesis
    using assms(2) full_line_None [of "(dev s)\<lparr>late := True\<rparr>"]
    by (cases "0 < pad (dev s)")
      (simp_all add: c_get_char_timout_def c_get_char_wait.simps full_defs UART_LSR_BITMASK_DR_def)
qed

lemma full_get_now:
  "\<exists>s'. c_get_char_timout (full_machine strap flash line m lanes) 0 s = Some (GETCHAR_TIMED_OUT, s')
    \<and> full_line (dev s') = full_line (dev s) \<and> sent_chars (dev s') = sent_chars (dev s)"
  by (simp add: c_get_char_timout_def c_get_char_wait.simps full_defs)

interpretation fullp: scripted_port "c_get_char_timout (full_machine strap flash line m lanes)" "c_put_char (full_machine strap flash line m lanes)"
  ram_store8 ram_load8 gSysClock "\<lambda>s. full_line (dev s)" "\<lambda>s. sent_chars (dev s)"
  for strap flash line m lanes
proof unfold_locales
  fix t c es s
  show "t \<noteq> 0 \<Longrightarrow> full_line (dev s) = Some c # es \<Longrightarrow>
      \<exists>s'. c_get_char_timout (full_machine strap flash line m lanes) t s = Some (c, s') \<and> full_line (dev s') = es \<and> sent_chars (dev s') = sent_chars (dev s)"
    by (rule full_get_char)
  show "t \<noteq> 0 \<Longrightarrow> full_line (dev s) = None # es \<Longrightarrow>
      \<exists>s'. c_get_char_timout (full_machine strap flash line m lanes) t s = Some (GETCHAR_TIMED_OUT, s') \<and> full_line (dev s') = es \<and> sent_chars (dev s') = sent_chars (dev s)"
    by (rule full_get_silence)
qed (simp_all add: full_get_now full_put_char)

subsection \<open>The whole board\<close>

text \<open>Nothing has been read from the line yet, and the sender is still silent.\<close>

definition line_unread :: "u32 option list \<Rightarrow> full \<Rightarrow> bool" where
  "line_unread L d \<longleftrightarrow> script d = None # L \<and> pos d = 0 \<and> pad d = 0"

lemma line_unread_head: "line_unread L d \<Longrightarrow> full_line d = None # L"
  by (simp add: line_unread_def full_line_def)

lemma full_load_keep:
  assumes "full_load strap flash line m lanes a d = (v, e)"
  shows "regs e = regs d" "line_unread L e = line_unread L d"
proof -
  show "regs e = regs d"
    using assms by (auto simp: full_load_def split: if_splits list.splits option.splits)
  show "line_unread L e = line_unread L d"
  proof (cases "line_unread L d")
    case True
    then show ?thesis
      using assms line_unread_head [OF True] by (auto simp: full_load_def split: if_splits)
  next
    case False
    then have "e = d \<or> e = d\<lparr>pos := Suc (pos d)\<rparr>"
      using assms by (auto simp: full_load_def split: if_splits list.splits option.splits)
    with False show ?thesis by (auto simp: line_unread_def)
  qed
qed

lemma nand_window_bits: "nand_window a \<Longrightarrow> 0xB9090000 \<le> a \<and> a < 0xB9091000"
  by (simp add: nand_window_def reg_defs)

lemma nand_window_plain:
  "\<not> nand_window (UART1 u)" "\<not> nand_window (DDR_CTL status_perf)" "\<not> nand_window (DDR_PHY scl_start)"
  "dram_addr a \<Longrightarrow> \<not> nand_window a"
proof -
  show "\<not> nand_window (UART1 u)" by (cases u) (simp_all add: nand_window_def uart_defs reg_defs)
  show "\<not> nand_window (DDR_CTL status_perf)" "\<not> nand_window (DDR_PHY scl_start)" by (simp_all add: nand_window_def reg_defs)
  show "dram_addr a \<Longrightarrow> \<not> nand_window a"
  proof
    assume "dram_addr a" "nand_window a"
    then have "0xB9090000 \<le> a" "a < 0xA0000000" by (simp_all add: dram_addr_def nand_window_bits)
    then have "(0xB9090000 :: u32) < 0xA0000000" by (rule le_less_trans)
    then show False by simp
  qed
qed

lemma nand_window_scu: "in_scu r \<Longrightarrow> \<not> nand_window (SCU r)"
proof -
  have "list_all (\<lambda>r. \<not> nand_window (SCU r)) scu_struct" by code_simp
  then show "in_scu r \<Longrightarrow> \<not> nand_window (SCU r)" using in_scu_struct by (auto simp: list_all_iff)
qed

text \<open>The addresses that behave as on the board with clocks and memory.\<close>

definition full_other :: "u32 \<Rightarrow> bool" where
  "full_other a \<longleftrightarrow> a \<noteq> UART1 lsr \<and> a \<noteq> UART1 u0 \<and> a \<noteq> SCU nandctrl_status \<and> a \<noteq> SCU rst_strp \<and> \<not> nand_window a"

lemma full_other [simp]:
  "dram_addr a \<Longrightarrow> full_other a" "full_other (DDR_CTL status_perf)" "full_other (DDR_PHY scl_start)"
  "in_scu r \<Longrightarrow> r \<noteq> nandctrl_status \<Longrightarrow> r \<noteq> rst_strp \<Longrightarrow> full_other (SCU r)"
proof -
  have u: "a \<noteq> UART1 u" if "dram_addr a \<or> a = DDR_CTL status_perf \<or> a = DDR_PHY scl_start" for a u
    using that uart_plain [of u] by metis
  have c: "a \<noteq> SCU r" if "dram_addr a \<or> a = DDR_CTL status_perf \<or> a = DDR_PHY scl_start" "in_scu r" for a r
    using that scu_plain [of r] by metis
  show "dram_addr a \<Longrightarrow> full_other a" "full_other (DDR_CTL status_perf)" "full_other (DDR_PHY scl_start)"
    using u c nand_window_plain by (simp_all add: full_other_def)
  show "in_scu r \<Longrightarrow> r \<noteq> nandctrl_status \<Longrightarrow> r \<noteq> rst_strp \<Longrightarrow> full_other (SCU r)"
    using SCU_UART1 [of r] SCU_inj [of r] nand_window_scu [of r] by (simp add: full_other_def)
qed

lemma full_load_other:
  "full_other a \<Longrightarrow> full_load strap flash line m lanes a d = (fst (io_load (boot_board line m lanes) a (regs d)), d)"
  by (simp add: full_load_def full_other_def)

text \<open>The registers the clocks see.\<close>

definition full_reg :: "u32 \<Rightarrow> full \<Rightarrow> scu_reg \<Rightarrow> u32" where
  "full_reg strap d = (board_reg (regs d))(rst_strp := strap)"

lemma full_reg_cause [simp]: "full_reg strap d rst_cause = board_reg (regs d) rst_cause"
  by (simp add: full_reg_def)

lemma full_load_reg:
  assumes "scu_kind r \<noteq> Special" "full_load strap flash line m lanes (SCU r) d = (v, e)"
  shows "v = full_reg strap d r"
proof (cases "r = rst_strp")
  case True
  then show ?thesis using assms(2) SCU_UART1 [of rst_strp] SCU_inj [of rst_strp nandctrl_status] by (simp add: full_load_def full_reg_def)
next
  case False
  have "in_scu r" "r \<noteq> nandctrl_status" using assms(1) scu_kind_in_scu by auto
  then show ?thesis
    using assms False scu_plain [of r]
    by (auto simp: full_load_other full_reg_def boot_board_load clock_board_load board_reg_def)
qed

lemma full_store_unread: "line_unread L (full_store line m lanes a v d) = line_unread L d"
  by (simp add: full_store_def line_unread_def)

lemma full_mdelay:
  assumes "line_unread L (dev s)"
  shows "\<exists>t. mdelay (full_machine strap flash line m lanes) 1 s = Some t \<and> line_unread L (dev t)"
proof -
  have "\<not> (- 1 :: u32) \<le> 250000" 
    using word_order.extremum_uniqueI [of "250000 :: u32"] by fastforce
  then show ?thesis
    using assms
    by (simp add: mdelay_def SET_COMPARE_def mdelay_loop.simps full_defs Let_def)
      (simp add: line_unread_def)
qed

lemma poll_set_now: "io_load M a (dev s) = (v, dev s) \<Longrightarrow> v AND k = k \<Longrightarrow> c_poll32_until_set M a k s = Some s"
  by (subst c_poll32_until_set.simps) (simp add: H_RD32_def)

lemma poll_clr_now: "io_load M a (dev s) = (v, dev s) \<Longrightarrow> v AND k = 0 \<Longrightarrow> c_poll32_until_clr M a k s = Some s"
  by (subst c_poll32_until_clr.simps) (simp add: H_RD32_def)

lemma pll_special: "pll_status p \<noteq> nandctrl_status" "pll_status p \<noteq> rst_strp"
  by (cases p; simp)+

interpretation fullb: boot_hw "full_machine strap flash line m lanes" sent_chars "line_unread L" "full_reg strap"
  "\<lambda>d. bregs (regs d)" "dram_cell m" line "\<lambda>_. True" lanes
  for strap flash line m lanes L
proof (intro boot_hw.intro clock_hw.intro console.intro clock_hw_axioms.intro ddr_hw.intro dram.intro
    dram_axioms.intro ddr_hw_axioms.intro)
  let ?M = "full_machine strap flash line m lanes"
  have ld: "io_load ?M = full_load strap flash line m lanes" and st: "io_store ?M = full_store line m lanes"
    by (simp_all add: full_machine_def)
  fix r u a and c :: u8 and v w :: u32 and d e :: full and s t :: "full sys" and p
  show put: "line_unread L (dev s) \<Longrightarrow> \<exists>t. c_put_char ?M c s = Some t \<and> sent sent_chars (line_unread L) s [c] t"
    by (simp add: full_put_char sent_def frame_def line_unread_def)
  show "scu_kind r \<noteq> Special \<Longrightarrow> io_load ?M (SCU r) d = (v, e) \<Longrightarrow> v = full_reg strap d r"
    unfolding ld by (rule full_load_reg)
  show "io_load ?M a d = (v, e) \<Longrightarrow> full_reg strap e = full_reg strap d \<and> line_unread L e = line_unread L d"
    "io_load ?M a d = (v, e) \<Longrightarrow> line_unread L e = line_unread L d \<and> bregs (regs e) = bregs (regs d)"
    unfolding ld by (simp_all add: full_load_keep full_reg_def)
  show "in_scu r \<Longrightarrow> full_reg strap (io_store ?M (SCU r) v d) =
      (if scu_kind r = RW then (full_reg strap d)(r := v) else full_reg strap d)"
    using scu_plain [of r] board_reg_store [of r] SCU_UART1 [of r u0] 
    by (cases "r = rst_strp") (auto simp: st full_store_def boot_board_store full_reg_def)
  show "line_unread L (io_store ?M (SCU r) v d) = line_unread L d"
    "a \<in> ddr_regs \<Longrightarrow> line_unread L (io_store ?M a v d) = line_unread L d"
    by (simp_all add: st full_store_unread)
  show "full_reg strap (io_store ?M (UART1 u) v d) = full_reg strap d"
    using uart_plain [of u] by (simp add: st full_store_def boot_board_store clocks.store_uart full_reg_def)
  show "line_unread L (dev s) \<Longrightarrow> line_unread L (dev (c_uart_init ?M s))"
    by (auto simp: c_uart_init_def H_WR32_def H_RD32_def ld st Let_def full_store_unread
        dest!: full_load_keep(2) [where L = L] split: prod.split)
  show "dram_addr a \<Longrightarrow> io_load ?M a d = (v, e) \<Longrightarrow> v = line a (bregs (regs d) (dram_cell m a))"
    by (auto simp: ld full_load_other boot_board_load ddr_board_load)
  show "dram_addr a \<Longrightarrow> bregs (regs (io_store ?M a v d)) = (bregs (regs d))(dram_cell m a := v)
    \<and> line_unread L (io_store ?M a v d) = line_unread L d"
    using dram_addr_not_uart [of u0]
    by (cases "a = UART1 u0") (auto simp: st full_store_unread, simp add: full_store_def boot_board_store ddr_board_store)
  show "c_put_char ?M c s = Some t \<Longrightarrow> bregs (regs (dev t)) = bregs (regs (dev s))"
    by (auto simp: full_put_char)
  show "io_load ?M (DDR_PHY scl_start) d = (v, e) \<Longrightarrow> v AND 0xF = lanes AND 0xF"
    by (auto simp: ld full_load_other boot_board_scl) (simp add: reg_defs and.assoc)
  show "\<exists>t. c_poll32_until_set ?M (DDR_CTL status_perf) DDR_SCL_DONE s = Some t"
    using poll_set_now [of ?M "DDR_CTL status_perf" s DDR_SCL_DONE DDR_SCL_DONE]
    by (simp add: ld full_load_other boot_board_perf del: One_nat_def)
  have "(lanes AND NOT SCL_START_GO_DONE) AND SCL_START_GO_DONE = 0" by (simp add: and.assoc)
  then show "\<exists>t. c_poll32_until_clr ?M (DDR_PHY scl_start) SCL_START_GO_DONE s = Some t"
    using poll_clr_now [of ?M "DDR_PHY scl_start" s "lanes AND NOT SCL_START_GO_DONE" SCL_START_GO_DONE]
    by (simp add: ld full_load_other boot_board_scl)
  show "line_unread L (dev s) \<Longrightarrow> \<exists>t. mdelay ?M 1 s = Some t \<and> line_unread L (dev t)"
    by (rule full_mdelay)
  have pll: "io_load ?M (SCU (pll_status p)) d = (pll_state (bregs (regs d) (SCU pll_pwr_rst)) p, d)" for d
    by (simp add: ld full_load_other pll_special pll_status_in_scu boot_board_pll)
  show "calibrating (full_reg strap (dev s) pll_pwr_rst) p \<Longrightarrow>
      \<exists>t. c_poll32_until_set ?M (SCU (pll_status p)) PLL_STAT_CALIBRATION_DONE s = Some t"
    using poll_set_now [OF pll] by (simp add: full_reg_def board_reg_def pll_state_def)
  show "running (full_reg strap (dev s) pll_pwr_rst) p \<Longrightarrow>
      \<exists>t. c_poll32_until_set ?M (SCU (pll_status p)) PLL_STAT_LOCKED s = Some t"
    using poll_set_now [OF pll] by (simp add: full_reg_def board_reg_def pll_state_def running_def calibrating_def)
qed (simp_all add: full_put_char sent_def frame_def line_unread_def)

subsection \<open>From reset to the jump\<close>

definition full_sys :: "u32 \<Rightarrow> u32 option list \<Rightarrow> full sys" where
  "full_sys cause L = \<lparr>gChipType = 0, gSysClock = 0,
     dev = \<lparr>regs = dev (reset_board cause), script = None # L, pos = 0, pad = 0, late = False, sent_chars = []\<rparr>,
     mem = (\<lambda>_. 0)\<rparr>"

lemma full_sys_facts: "line_unread L (dev (full_sys c L))" "board_reg (regs (dev (full_sys c L))) rst_cause = c"
  "mem (full_sys c L) = (\<lambda>_. 0)" "gSysClock (full_sys c L) = 0"
  by (simp_all add: full_sys_def line_unread_def reset_board_facts)

lemma full_boot:
  assumes r: "line_unread (session_line 1 gs) (dev s)" and cold: "\<not> bit (board_reg (regs (dev s)) rst_cause) 1"
    and cf: "UARTBOOT_CODE cf" and ok: "ddr_ok line lanes" and stack: "length stack = 130" and gs: "session_ok 1 gs"
    and n: "n = length (concat (map seg_data gs))" "n \<le> 2 ^ 29"
  shows "\<exists>t. boot_main cf E (full_machine strap flash line m lanes) G stamp stack s
      = Some (if n \<le> 512 * 1024 then Jump 0x80800000 else Spin, t)
    \<and> ram_bytes 0xA0800000 n t = concat (map seg_data gs)
    \<and> (\<forall>b. (\<forall>j < n. phys b \<noteq> phys (0xA0800000 + of_nat j)) \<longrightarrow> ram_load8 b t = ram_load8 b s)"
proof -
  let ?M = "full_machine strap flash line m lanes"
  obtain s1 where s1: "boot_main cf E ?M G stamp stack s = boot_load cf E ?M G stack s1"
    "line_unread (session_line 1 gs) (dev s1)" "mem s1 = mem s"
    "gSysClock s1 = (if slow_chip (gChipType s1) then 200 * 1000000 else 250 * 1000000)"
    using fullb.boot_cold [OF r, where strap = strap and flash = flash and line = line and m = m and lanes = lanes and cf = cf
        and E = E and G = G and stamp = stamp and stack = stack] cold ok unfolding full_reg_cause by (metis (full_types))
  obtain s2 where s2: "c_put_str ?M str_RomDwld s1 = Some s2" "quiet (line_unread (session_line 1 gs)) (full_reg strap) s1 s2"
    using fullb.put_str_quiet [OF s1(2)] by blast
  have clk: "gSysClock s2 \<noteq> 0" "10 * gSysClock s2 \<noteq> 0"
    using s1(4) s2(2) by (auto simp: quiet_def frame_def)
  have line: "full_line (dev s2) = map Some [] @ None # session_line 1 gs @ []"
    using line_unread_head [OF quietD [OF s2(2)]] by simp
  obtain t where t: "xmodem_load (c_get_char_timout ?M) (c_put_char ?M) ram_store8 gSysClock stack 0xA0800000 s2 = Some (of_nat n, t)"
    "uart1.untouched 0xA0800000 n s2 t" "uart1.bytes 0xA0800000 n t = concat (map seg_data gs)"
    using fullp.load_session [OF clk, where stack = stack and ns = "[]" and gs = gs and es = "[]" and addr = "0xA0800000"
        and line = line and m = m and lanes = lanes] stack line gs n by (auto simp: RX_BUF_SIZE_def)
  have len: "MAX_UBOOT_SIZE < of_nat n \<longleftrightarrow> \<not> n \<le> 512 * 1024"
    using n(2) by (simp add: reg_defs word_less_nat_alt unsigned_of_nat take_bit_nat_eq_self not_le)
  have "steady (\<lambda>_. True) (c_put_char ?M c)" for c by (simp add: steady_def full_put_char)
  then have port: "steady_put ?M (\<lambda>_. True)" by (simp add: steady_put_def)
  obtain u where u: "c_put_str ?M str_TooBig t = Some u"
    using steady_put.put_str [OF port, of str_TooBig] by (auto simp: steady_def)
  note fu = c_put_str_frame [OF u]
  have ram: "ram_load8 b s2 = ram_load8 b s" "ram_load8 b u = ram_load8 b t" for b
    using s1(3) s2(2) fu by (auto simp: ram_load8_def quiet_def frame_def)
  have "boot_load cf E ?M G stack s1 = Some (if n \<le> 512 * 1024 then Jump 0x80800000 else Spin, if n \<le> 512 * 1024 then t else u)"
    using cf s2(1) t(1) u len by (simp add: boot_load_def) (simp add: reg_defs)
  then show ?thesis
    unfolding s1(1) using t(2,3) ram
    by (intro exI [of _ "if n \<le> 512 * 1024 then t else u"])
      (auto simp: ram_bytes_def uart1.bytes_def uart1.untouched_def)
qed


lemma ddr_ok_sound: "ddr_ok (\<lambda>_ v. v) 0xF"
  by (simp add: ddr_ok_def bitflip_spec_0_iff)

lemma demo_session_ok: "session_ok 1 demo_session" "concat (map seg_data demo_session) = replicate 128 0x11 @ replicate 128 0x22"
  by (simp_all add: demo_session_def acceptable_def GETCHAR_TIMED_OUT_def)



theorem boot_soft_reset_hangs_witness:
  "\<forall>strap flash E G stamp stack. boot_main uart_boot_config E (full_machine strap flash (\<lambda>_ v. v) 0x0FFFFFFF 0xF) G stamp stack
     (full_sys 2 (session_line 1 demo_session)) = None"
  using boot_soft_reset_hangs [OF fullb.boot_hw_axioms full_sys_facts(1)] ddr_ok_sound
  by (simp add: full_sys_facts uart_boot_config_def)


end
