(* ===== verification/Boot_Nand.thy ===== *)
theory Boot_Nand
  imports Boot_Demo Nand_Demo
begin

unbundle bit_operations_syntax

section \<open>The NAND boot program from reset to the jump\<close>

text \<open>
  \<open>main\<close> of the build without \<open>UARTBOOT_CODE\<close>: clocks and memory, then \<open>read_uboot\<close>, whose result is not
  looked at, and the jump. The properties hold on every board with the interfaces \<open>boot_hw\<close> and \<open>nand_boot\<close>;
  the witnesses run on the board of \<open>Boot_Demo\<close> with the flashes of \<open>Nand_Demo\<close>.
\<close>

subsection \<open>Both interfaces on one board\<close>

locale nand_boot_hw = boot_hw M outs ready reg raw cell line tuned lanes +
    n: nand_boot M E couts loaded flash eccr strap
  for M :: "'d machine" and outs ready reg raw cell line tuned lanes
    and E :: "'d nand_env" and couts loaded flash eccr strap +
  fixes idx :: "'d \<Rightarrow> u32"
  assumes powered: "ready d \<Longrightarrow> loaded (idx d) d"
begin

lemma boot_nand:
  assumes "ready (dev s)" "\<not> bit (reg (dev s) rst_cause) 1" "\<not> UARTBOOT_CODE cf" "ddr_ok line lanes"
    and spec: "uboot_spec (boot_globals strap G) flash eccr (mem s) = Some (r, G', m')" and k: "k < 2 ^ 24"
  shows "\<exists>t. boot_main cf E M G stamp stack s = Some (Jump 0x80800000, t) \<and>
    ram_load8 (0x80800000 + of_nat k) t = m' (phys (dest k))"
proof -
  obtain s1 where s1: "boot_main cf E M G stamp stack s = boot_load cf E M G stack s1" "ready (dev s1)" "mem s1 = mem s"
    using boot_cold [OF assms(1,2), of cf E G stamp stack] assms(4) by auto
  obtain t where t: "read_uboot E M G s1 = Some (r, G', t)" "ram_load8 (dest k) t = m' (phys (dest k))"
    using n.read_uboot_image [OF powered [OF s1(2)], of G] spec k unfolding s1(3) by blast
  have "phys (0x80800000 + of_nat k) = phys (dest k)"
    unfolding dest_def by (rule phys_add) (simp add: phys_def reg_defs)
  then have "ram_load8 (0x80800000 + of_nat k) t = m' (phys (dest k))"
    using t(2) by (simp add: ram_load8_def)
  moreover have "RAM_STARTUP_BASE = 0x80800000" by (simp add: reg_defs)
  ultimately show ?thesis
    using s1(1) t(1) assms(3) by (simp add: boot_load_def)
qed

end


text \<open>
  The result of \<open>read_uboot\<close> is not looked at: whatever it is, and so also when no volume could be loaded, the NAND
  boot program jumps to \<open>0x80800000\<close>, with the bytes there that the attempts left.
\<close>

theorem nand_boot_jumps_anyway:
  assumes "nand_boot_hw M outs ready reg raw cell line tuned lanes E couts loaded flash eccr strap idx"
    and "ready (dev s)" "\<not> bit (reg (dev s) rst_cause) 1" "\<not> UARTBOOT_CODE cf" "ddr_ok line lanes"
    and "uboot_spec (boot_globals strap G) flash eccr (mem s) = Some (r, G', m')" "k < 2 ^ 24"
  shows "\<exists>t. boot_main cf E M G stamp stack s = Some (Jump 0x80800000, t) \<and>
    ram_load8 (0x80800000 + of_nat k) t = m' (phys (0x80800000 + of_nat k))"
proof -
  have "phys (dest k) = phys (0x80800000 + of_nat k)"
    unfolding dest_def by (rule phys_add) (simp add: phys_def reg_defs)
  then show ?thesis using nand_boot_hw.boot_nand [OF assms] by metis
qed

subsection \<open>The board\<close>

definition full_env :: "u32 \<Rightarrow> (u32 \<Rightarrow> u8) \<Rightarrow> (u32 \<Rightarrow> u32 \<Rightarrow> u16) \<Rightarrow> (u32 \<Rightarrow> u32 \<Rightarrow> u32) \<Rightarrow> u32 \<Rightarrow> u32 \<Rightarrow> full nand_env" where
  "full_env strap flash eccr line m lanes = plain_env (full_machine strap flash line m lanes) full_index strap eccr"

lemma full_window:
  assumes "i < 0x1000"
  shows "nand_window (EP501M3_BASE + (EP501M3_DATA + of_nat i))"
proof -
  have u: "unat (EP501M3_BASE + (EP501M3_DATA + of_nat i)) = 0xB9090000 + i"
    using assms by (simp add: reg_defs unat_word_ariths unsigned_of_nat take_bit_eq_mod)
  show ?thesis
    using assms unfolding nand_window_def word_le_nat_alt word_less_nat_alt u by (simp add: reg_defs)
qed

interpretation fulln: nand_hw "full_machine strap flash line m lanes" "full_env strap flash eccr line m lanes"
  "line_unread L" full_index flash sent_chars eccr
  for strap flash line m lanes L eccr
  unfolding full_env_def
proof (rule plain_nand_hw)
  let ?M = "full_machine strap flash line m lanes"
  have ld: "io_load ?M = full_load strap flash line m lanes" and st: "io_store ?M = full_store line m lanes"
    by (simp_all add: full_machine_def)
  have plain: "EP501M3_BASE + EP501M3_COMMAND \<noteq> UART1 u0" "EP501M3_BASE + EP501M3_INDEX \<noteq> UART1 u0"
    "EP501M3_BASE + EP501M3_COMMAND \<noteq> EP501M3_BASE + EP501M3_INDEX"
    "\<not> dram_addr (EP501M3_BASE + EP501M3_COMMAND)" "\<not> dram_addr (EP501M3_BASE + EP501M3_INDEX)"
    by (simp_all add: reg_defs uart_defs dram_addr_def)
  have index: "EP501M3_BASE + EP501M3_INDEX \<notin> {SCU rst_cause, SCU rst_strp}"
    by (simp add: reg_defs)
  show "console ?M sent_chars (\<lambda>d. line_unread L d \<and> full_index d = x)" for x
    by unfold_locales (auto simp: full_put_char sent_def frame_def line_unread_def full_index_def)
  show "line_unread L e = line_unread L d \<and> full_index e = full_index d" if "io_load ?M a d = (v, e)" for a d v e
    using full_load_keep [OF that [unfolded ld]] by (simp add: full_index_def)
  show "io_load ?M (SCU nandctrl_status) d = (1, d)" for d
    using SCU_UART1 [of nandctrl_status] by (simp add: ld full_load_def)
  show "line_unread L (io_store ?M (EP501M3_BASE + EP501M3_COMMAND) v d) = line_unread L d \<and>
      full_index (io_store ?M (EP501M3_BASE + EP501M3_COMMAND) v d) = full_index d" for v d
    using plain by (simp add: st full_store_unread)
      (simp add: full_store_def full_index_def boot_board_store clock_board_def board_machine_def)
  show "line_unread L (io_store ?M (EP501M3_BASE + EP501M3_INDEX) v d) = line_unread L d \<and>
      full_index (io_store ?M (EP501M3_BASE + EP501M3_INDEX) v d) = v" for v d
    using plain index by (simp add: st full_store_unread)
      (simp add: full_store_def full_index_def boot_board_store clock_board_def board_machine_def)
  show "fst (io_load ?M (EP501M3_BASE + (EP501M3_DATA + of_nat i)) d) = flash_word flash (full_index d + of_nat i)"
    if "i < 0x1000" for i d
    using full_window [OF that] window_off [OF that] by (simp add: ld full_load_def add.assoc [symmetric])
qed

interpretation fullnb: nand_boot_hw "full_machine strap flash line m lanes" sent_chars "line_unread L" "full_reg strap"
  "\<lambda>d. bregs (regs d)" "dram_cell m" line "\<lambda>_. True" lanes
  "full_env strap flash eccr line m lanes" sent_chars "\<lambda>x d. line_unread L d \<and> full_index d = x" flash eccr strap full_index
  for strap flash line m lanes L eccr
proof (intro nand_boot_hw.intro nand_boot_hw_axioms.intro nand_boot.intro nand_boot_axioms.intro)
  show "boot_hw (full_machine strap flash line m lanes) sent_chars (line_unread L) (full_reg strap)
      (\<lambda>d. bregs (regs d)) (dram_cell m) line (\<lambda>_. True) lanes"
    by (rule fullb.boot_hw_axioms)
  show "nand_part (full_machine strap flash line m lanes) (full_env strap flash eccr line m lanes) sent_chars
      (\<lambda>x d. line_unread L d \<and> full_index d = x) flash eccr"
    by (rule fulln.part.nand_part_axioms)
  show "\<exists>t. H_RD32 (full_machine strap flash line m lanes) (SCU rst_strp) s = (strap, t) \<and> frame s t \<and>
      line_unread L (dev t) \<and> full_index (dev t) = x" if "line_unread L (dev s) \<and> full_index (dev s) = x" for s x
    using that SCU_UART1 [of rst_strp] SCU_inj [of rst_strp nandctrl_status]
    by (simp add: H_RD32_def full_machine_def full_load_def frame_def)
qed simp

subsection \<open>The properties on this board\<close>

definition nand_boot_config :: config where
  "nand_boot_config = uart_boot_config\<lparr>UARTBOOT_CODE := False\<rparr>"


text \<open>A chip with nothing on it.\<close>

lemma blank_chip_spec: "\<exists>G'. uboot_spec big_chip (flash_pages (\<lambda>_ _. [])) eccr m = Some (-1, G', m)"
proof -
  have "layout_blocks big_chip (flash_pages (\<lambda>_ _. [])) m = []"
    using empty_block(2) [where pages = "\<lambda>_ _. []"] by (simp add: layout_blocks_pages)
  then have "layout_spec big_chip (flash_pages (\<lambda>_ _. [])) m vol (blocks big_chip) 0 = layout_spec big_chip (flash_pages (\<lambda>_ _. [])) m vol [] 0" for vol
    by (subst layout_spec_filter) (simp add: layout_blocks_def)
  then show ?thesis by (simp add: uboot_spec_def attempt_spec_def reserve_def)
qed

theorem nand_boot_jumps_anyway_witness:
  "\<forall>stamp stack. \<exists>t. boot_main nand_boot_config (full_env 0x17 (flash_pages (\<lambda>_ _. [])) (\<lambda>_ _. 0) (\<lambda>_ v. v) 0x0FFFFFFF 0xF)
      (full_machine 0x17 (flash_pages (\<lambda>_ _. [])) (\<lambda>_ v. v) 0x0FFFFFFF 0xF) big_chip stamp stack (full_sys 1 []) =
      Some (Jump 0x80800000, t) \<and> ram_load8 (0x80800000 + of_nat 0) t = 0"
proof (intro allI)
  fix stamp stack
  obtain G' where "uboot_spec (boot_globals 0x17 big_chip) (flash_pages (\<lambda>_ _. [])) (\<lambda>_ _. 0) (mem (full_sys 1 [])) = Some (-1, G', mem (full_sys 1 []))"
    unfolding boot_globals_big using blank_chip_spec by blast
  from nand_boot_jumps_anyway [OF fullnb.nand_boot_hw_axioms [where strap = "0x17" and flash = "flash_pages (\<lambda>_ _. [])"
          and line = "\<lambda>_ v. v" and m = "0x0FFFFFFF" and lanes = "0xF" and eccr = "\<lambda>_ _. 0" and L = "[]"],
        where s = "full_sys 1 []" and cf = nand_boot_config and G = big_chip and k = 0 and stamp = stamp and stack = stack,
        OF _ _ _ _ this]
  show "\<exists>t. boot_main nand_boot_config (full_env 0x17 (flash_pages (\<lambda>_ _. [])) (\<lambda>_ _. 0) (\<lambda>_ v. v) 0x0FFFFFFF 0xF)
      (full_machine 0x17 (flash_pages (\<lambda>_ _. [])) (\<lambda>_ v. v) 0x0FFFFFFF 0xF) big_chip stamp stack (full_sys 1 []) =
      Some (Jump 0x80800000, t) \<and> ram_load8 (0x80800000 + of_nat 0) t = 0"
    using ddr_ok_sound by (simp add: full_sys_facts nand_boot_config_def uart_boot_config_def)
qed

end
