(* ===== verification/Nor.thy ===== *)
theory Nor
  imports Steady Soc Xmodem
begin

unbundle bit_operations_syntax

section \<open>The NOR flash driver (devices/nor/dev\_nor\_amd.c)\<close>

text \<open>
  Probe, erase and burn for a flash with the AMD command set on a 16 bit bus, and the branch of \<open>main\<close> in
  \<^verbatim>\<open>fboot.c\<close> that uses them. The three functions and the branch are behind \<^verbatim>\<open>#if 0\<close>; they are modelled as written,
  but for the semicolon that is missing after the write of a word in \<open>nor_flash_burn\<close>. The halfword accesses of the bus are a
  parameter of the model, as the word accesses are in \<open>Machine\<close>; the image is read from RAM.
\<close>

datatype soc_build = VX185_A1 | VX185_B0 | VX183

record nor_build =
  soc :: soc_build
  ZTENJ_8MbootNOR :: bool

record 'd bus16 =
  load16 :: "u32 \<Rightarrow> 'd \<Rightarrow> u16 \<times> 'd"
  store16 :: "u32 \<Rightarrow> u16 \<Rightarrow> 'd \<Rightarrow> 'd"

definition RAM_IMAGE_BASE :: u32 where [reg_defs]: "RAM_IMAGE_BASE = 0xA0800000"

definition NOR_FLASH_BASE :: "nor_build \<Rightarrow> u32" where
  "NOR_FLASH_BASE nb = (case soc nb of VX185_A1 \<Rightarrow> 0xBFC00000 | VX185_B0 \<Rightarrow> 0xBF000000 | VX183 \<Rightarrow> 0xBF000000)"

definition FLASH_BLOCK_SIZE1 :: u32 where [reg_defs]: "FLASH_BLOCK_SIZE1 = push_bit 10 8"

definition FLASH_BLOCK_SIZE :: "nor_build \<Rightarrow> u32" where
  "FLASH_BLOCK_SIZE nb = (if ZTENJ_8MbootNOR nb then push_bit 10 64 else push_bit 10 128)"

definition NOR_MAX_UBOOT_SIZE :: u32 where [reg_defs]: "NOR_MAX_UBOOT_SIZE = push_bit 10 512"

definition NOR_FLASH_RD :: "nor_build \<Rightarrow> 'd bus16 \<Rightarrow> u32 \<Rightarrow> 'd sys \<Rightarrow> u16 \<times> 'd sys" where
  "NOR_FLASH_RD nb B off s = (let (v, d) = load16 B (NOR_FLASH_BASE nb + off) (dev s) in (v, s\<lparr>dev := d\<rparr>))"

definition NOR_FLASH_WR :: "nor_build \<Rightarrow> 'd bus16 \<Rightarrow> u32 \<Rightarrow> u16 \<Rightarrow> 'd sys \<Rightarrow> 'd sys" where
  "NOR_FLASH_WR nb B off v s = s\<lparr>dev := store16 B (NOR_FLASH_BASE nb + off) v (dev s)\<rparr>"

definition RAM_IMAGE_RD :: "u32 \<Rightarrow> 'd sys \<Rightarrow> u16" where
  "RAM_IMAGE_RD off s = ram_load16 (RAM_IMAGE_BASE + off) s"

definition NOR_FLASH_RESET :: "nor_build \<Rightarrow> 'd bus16 \<Rightarrow> 'd sys \<Rightarrow> 'd sys" where
  "NOR_FLASH_RESET nb B s = NOR_FLASH_WR nb B 0x000 0x00f0 s"

definition NOR_FLASH_AUTOSELECT :: "nor_build \<Rightarrow> 'd bus16 \<Rightarrow> 'd sys \<Rightarrow> 'd sys" where
  "NOR_FLASH_AUTOSELECT nb B s =
     (let s = NOR_FLASH_WR nb B 0xAAA 0x00aa s;
          s = NOR_FLASH_WR nb B 0x554 0x0055 s
      in NOR_FLASH_WR nb B 0xAAA 0x0090 s)"

text \<open>The identification that \<open>nor_flash_probe\<close> takes for a bus without a flash.\<close>

definition bus_error :: "u16 \<Rightarrow> bool" where
  "bus_error temp \<longleftrightarrow> 0 \<noteq> temp AND 0xff00 \<or> 0xff = temp AND 0xff \<or> 0 = temp AND 0xff"

definition nor_flash_probe :: "nor_build \<Rightarrow> 'd machine \<Rightarrow> 'd bus16 \<Rightarrow> 'd sys \<Rightarrow> (u32 \<times> 'd sys) option" where
  "nor_flash_probe nb M B s = do {
     s \<leftarrow> c_put_str M (str ''Probe: '') s;
     let s = NOR_FLASH_RESET nb B s;
     let s = NOR_FLASH_AUTOSELECT nb B s;
     s \<leftarrow> c_put_str M (str ''id='') s;
     let (temp, s) = NOR_FLASH_RD nb B (push_bit 1 0x00) s;
     s \<leftarrow> c_put_hex16 M temp s;
     s \<leftarrow> c_put_char M (of_char (CHR '' '')) s;
     let (v, s) = NOR_FLASH_RD nb B (push_bit 1 0x01) s;
     s \<leftarrow> c_put_hex16 M v s;
     s \<leftarrow> c_put_char M (of_char (CHR '' '')) s;
     let (v, s) = NOR_FLASH_RD nb B (push_bit 1 0x0E) s;
     s \<leftarrow> c_put_hex16 M v s;
     s \<leftarrow> c_put_char M (of_char (CHR '' '')) s;
     let (v, s) = NOR_FLASH_RD nb B (push_bit 1 0x0F) s;
     s \<leftarrow> c_put_hex16 M v s;
     s \<leftarrow> c_put_str M (str '', protect='') s;
     let (v, s) = NOR_FLASH_RD nb B (push_bit 1 0x02) s;
     s \<leftarrow> c_put_hex16 M v s;
     let s = NOR_FLASH_RESET nb B s;
     if bus_error temp then do {
       s \<leftarrow> c_put_str M (str '':AmcBusError!'') s;
       Some (1, s)
     } else do {
       s \<leftarrow> c_put_str M (str '':YES?'') s;
       Some (0, s)
     }
   }"

text \<open>The progress display: five backspaces, the fifth digit of the offset, the lower four.\<close>

definition nor_progress :: "'d machine \<Rightarrow> u32 \<Rightarrow> 'd sys \<Rightarrow> 'd sys option" where
  "nor_progress M temp s = do {
     s \<leftarrow> c_put_str M (str (replicate 5 (CHR 0x08))) s;
     let x = drop_bit 16 temp AND 0x0f;
     s \<leftarrow> c_put_char M (ucast (if x < 10 then of_char (CHR ''0'') + x else of_char (CHR ''a'') + x)) s;
     c_put_hex16 M (ucast temp) s
   }"

text \<open>The six cycles of the erase command for the block at \<open>temp\<close>.\<close>

definition nor_erase_block :: "nor_build \<Rightarrow> 'd bus16 \<Rightarrow> u32 \<Rightarrow> 'd sys \<Rightarrow> 'd sys" where
  "nor_erase_block nb B temp s =
     (let s = NOR_FLASH_WR nb B 0xAAA 0x00aa s;
          s = NOR_FLASH_WR nb B 0x554 0x0055 s;
          s = NOR_FLASH_WR nb B 0xAAA 0x0080 s;
          s = NOR_FLASH_WR nb B 0xAAA 0x00aa s;
          s = NOR_FLASH_WR nb B 0x554 0x0055 s
      in NOR_FLASH_WR nb B temp 0x0030 s)"

definition nor_next_block :: "nor_build \<Rightarrow> u32 \<Rightarrow> u32" where
  "nor_next_block nb temp =
     (if ZTENJ_8MbootNOR nb \<and> temp < push_bit 10 64 then temp + FLASH_BLOCK_SIZE1 else temp + FLASH_BLOCK_SIZE nb)"

partial_function (option) nor_erase_loop ::
    "nor_build \<Rightarrow> 'd machine \<Rightarrow> 'd bus16 \<Rightarrow> u32 \<Rightarrow> 'd sys \<Rightarrow> (u32 \<times> 'd sys) option" where
  "nor_erase_loop nb M B temp s = do {
     let s = nor_erase_block nb B temp s;
     let temp = nor_next_block nb temp;
     s \<leftarrow> mdelay M 2000 s;
     s \<leftarrow> nor_progress M temp s;
     let (v, s) = NOR_FLASH_RD nb B temp s;
     if 0xffff \<noteq> v then do {
       s \<leftarrow> c_put_str M (str '':Fail!'') s;
       Some (1, s)
     } else if temp < NOR_MAX_UBOOT_SIZE then nor_erase_loop nb M B temp s
     else Some (0, s)
   }"

definition nor_flash_erase :: "nor_build \<Rightarrow> 'd machine \<Rightarrow> 'd bus16 \<Rightarrow> 'd sys \<Rightarrow> (u32 \<times> 'd sys) option" where
  "nor_flash_erase nb M B s = do {
     s \<leftarrow> c_put_str M (str ''Erasing: 0x00000'') s;
     nor_erase_loop nb M B 0 s
   }"

text \<open>The four cycles of the program command for one halfword.\<close>

definition nor_program :: "nor_build \<Rightarrow> 'd bus16 \<Rightarrow> u32 \<Rightarrow> u16 \<Rightarrow> 'd sys \<Rightarrow> 'd sys" where
  "nor_program nb B temp v s =
     (let s = NOR_FLASH_WR nb B 0xAAA 0x00aa s;
          s = NOR_FLASH_WR nb B 0x554 0x0055 s;
          s = NOR_FLASH_WR nb B 0xAAA 0x00a0 s
      in NOR_FLASH_WR nb B temp v s)"

partial_function (option) nor_burn_loop ::
    "nor_build \<Rightarrow> 'd machine \<Rightarrow> 'd bus16 \<Rightarrow> u32 \<Rightarrow> u32 \<Rightarrow> 'd sys \<Rightarrow> (u32 \<times> 'd sys) option" where
  "nor_burn_loop nb M B length0 temp s = do {
     let s = nor_program nb B temp (RAM_IMAGE_RD temp s) s;
     s \<leftarrow> mdelay M 1 s;
     let (v, s) = NOR_FLASH_RD nb B temp s;
     if v \<noteq> RAM_IMAGE_RD temp s then do {
       s \<leftarrow> c_put_str M (str '':Fail!'') s;
       Some (1, s)
     } else do {
       let temp = temp + 2;
       s \<leftarrow> (if 0 = temp AND (0x1000 - 1) then nor_progress M temp s else Some s);
       if temp < length0 then nor_burn_loop nb M B length0 temp s else Some (0, s)
     }
   }"

definition nor_flash_burn :: "nor_build \<Rightarrow> 'd machine \<Rightarrow> 'd bus16 \<Rightarrow> u32 \<Rightarrow> 'd sys \<Rightarrow> (u32 \<times> 'd sys) option" where
  "nor_flash_burn nb M B length0 s = do {
     s \<leftarrow> c_put_str M (str ''Burning: 0x00000'') s;
     nor_burn_loop nb M B length0 0 s
   }"

subsection \<open>The chip\<close>

text \<open>
  What the driver relies on, from the command set: the chip shows its cells or, after the autoselect sequence, its
  identification; the six cycles of the erase command set the block of the address to ones within the two
  seconds the driver waits, the four cycles of the program command clear bits of one halfword within a millisecond. Characters
  on the console do not concern the chip.
\<close>

datatype nor_mode = Read_Array | Autoselect

definition erased :: "u32 set \<Rightarrow> (u32 \<Rightarrow> u16) \<Rightarrow> u32 \<Rightarrow> u16" where
  "erased S C = (\<lambda>a. if a \<in> S then 0xffff else C a)"

locale nor_chip =
  fixes nb :: nor_build and M :: "'d machine" and B :: "'d bus16" and in_mode :: "nor_mode \<Rightarrow> 'd \<Rightarrow> bool"
    and cells :: "'d \<Rightarrow> u32 \<Rightarrow> u16" and sector :: "u32 \<Rightarrow> u32 set" and chip_id :: "u32 \<Rightarrow> u16"
  assumes put_char: "in_mode m (dev s) \<Longrightarrow>
      \<exists>t. c_put_char M c s = Some t \<and> frame s t \<and> in_mode m (dev t) \<and> cells (dev t) = cells (dev s)"
    and reset: "in_mode m (dev s) \<Longrightarrow>
      in_mode Read_Array (dev (NOR_FLASH_RESET nb B s)) \<and> cells (dev (NOR_FLASH_RESET nb B s)) = cells (dev s)"
    and autoselect: "in_mode Read_Array (dev s) \<Longrightarrow>
      in_mode Autoselect (dev (NOR_FLASH_AUTOSELECT nb B s)) \<and> cells (dev (NOR_FLASH_AUTOSELECT nb B s)) = cells (dev s)"
    and read_array: "in_mode Read_Array d \<Longrightarrow> load16 B (NOR_FLASH_BASE nb + a) d = (v, e) \<Longrightarrow>
      v = cells d a \<and> in_mode Read_Array e \<and> cells e = cells d"
    and read_id: "in_mode Autoselect d \<Longrightarrow> load16 B (NOR_FLASH_BASE nb + a) d = (v, e) \<Longrightarrow>
      v = chip_id a \<and> in_mode Autoselect e \<and> cells e = cells d"
    and erase_block: "in_mode Read_Array (dev s) \<Longrightarrow>
      \<exists>t. mdelay M 2000 (nor_erase_block nb B a s) = Some t \<and> frame s t \<and> in_mode Read_Array (dev t)
        \<and> cells (dev t) = erased (sector a) (cells (dev s))"
    and program: "in_mode Read_Array (dev s) \<Longrightarrow>
      \<exists>t. mdelay M 1 (nor_program nb B a v s) = Some t \<and> frame s t \<and> in_mode Read_Array (dev t)
        \<and> cells (dev t) = (cells (dev s))(a := cells (dev s) a AND v)"

text \<open>\<open>at m C s0 s\<close>: since \<open>s0\<close> only devices have been touched, the chip is in mode \<open>m\<close> and holds \<open>C\<close>.\<close>

definition chip_at :: "(nor_mode \<Rightarrow> 'd \<Rightarrow> bool) \<Rightarrow> ('d \<Rightarrow> u32 \<Rightarrow> u16) \<Rightarrow> nor_mode \<Rightarrow> (u32 \<Rightarrow> u16) \<Rightarrow> 'd sys \<Rightarrow> 'd sys \<Rightarrow> bool" where
  "chip_at in_mode cells m C s0 s \<longleftrightarrow> frame s0 s \<and> in_mode m (dev s) \<and> cells (dev s) = C"

lemma chip_at_start: "in_mode m (dev s) \<Longrightarrow> chip_at in_mode cells m (cells (dev s)) s s"
  by (simp add: chip_at_def)

lemma chip_at_trans: "chip_at in_mode cells m C s0 s \<Longrightarrow> chip_at in_mode cells m' C' s t \<Longrightarrow> chip_at in_mode cells m' C' s0 t"
  by (auto simp: chip_at_def intro: frame_trans)

sublocale nor_chip \<subseteq> at: steady_put M "chip_at in_mode cells m C s0" for m C s0
proof
  show "steady (chip_at in_mode cells m C s0) (c_put_char M c)" for c
    using put_char by (fastforce simp: steady_def chip_at_def intro: frame_trans)
qed

lemma frame_NOR_WR [simp]: "frame s (NOR_FLASH_WR nb B a v s)"
  by (simp add: NOR_FLASH_WR_def frame_def)

context nor_chip
begin

abbreviation at_array :: "(u32 \<Rightarrow> u16) \<Rightarrow> 'd sys \<Rightarrow> 'd sys \<Rightarrow> bool" where
  "at_array \<equiv> chip_at in_mode cells Read_Array"

lemma read_cell:
  assumes "at_array C s0 s" "NOR_FLASH_RD nb B a s = (v, t)"
  shows "v = C a" "at_array C s0 t"
  using assms read_array [of "dev s" a] by (auto simp: NOR_FLASH_RD_def chip_at_def frame_def split: prod.splits)

lemma read_ident:
  assumes "chip_at in_mode cells Autoselect C s0 s"
  obtains t where "NOR_FLASH_RD nb B a s = (chip_id a, t)" "chip_at in_mode cells Autoselect C s0 t"
  using assms read_id [of "dev s" a] that
  by (cases "load16 B (NOR_FLASH_BASE nb + a) (dev s)") (auto simp: NOR_FLASH_RD_def chip_at_def frame_def)

lemma read_cellE:
  assumes "at_array C s0 s"
  obtains t where "NOR_FLASH_RD nb B a s = (C a, t)" "at_array C s0 t"
  using read_cell [OF assms] by (metis prod.exhaust)

lemma progress: "steady (chip_at in_mode cells m C s0) (nor_progress M temp)"
  unfolding nor_progress_def [abs_def] Let_def by (intro steady_intros at.put_steady)

lemma wr_frame: "frame s (NOR_FLASH_RESET nb B s)" "frame s (NOR_FLASH_AUTOSELECT nb B s)"
  by (simp_all add: NOR_FLASH_RESET_def NOR_FLASH_AUTOSELECT_def NOR_FLASH_WR_def frame_def Let_def)

end

subsection \<open>Probe\<close>

context nor_chip
begin

lemma probe_run:
  assumes "in_mode m (dev s)"
  shows "\<exists>t. nor_flash_probe nb M B s = Some (if bus_error (chip_id 0) then 1 else 0, t) \<and> at_array (cells (dev s)) s t"
proof -
  let ?C = "cells (dev s)"
  let ?id = "chip_at in_mode cells Autoselect ?C s"
  have put: "\<exists>t. c_put_str M cs u = Some t \<and> chip_at in_mode cells m' C s0 t" if "chip_at in_mode cells m' C s0 u" for m' C s0 cs u
    by (rule steadyD [OF at.put_str that])
  have hex: "\<exists>t. c_put_hex16 M x u = Some t \<and> ?id t" and blank: "\<exists>t. c_put_char M c u = Some t \<and> ?id t"
    if "?id u" for x c u
    by (rule steadyD [OF at.put_hex16 that], rule steadyD [OF at.put that])
  have at: "chip_at in_mode cells m ?C s s" using assms by (rule chip_at_start)
  obtain s1 where 1: "c_put_str M (str ''Probe: '') s = Some s1" "chip_at in_mode cells m ?C s s1" using put [OF at] by blast
  define s2 where "s2 = NOR_FLASH_AUTOSELECT nb B (NOR_FLASH_RESET nb B s1)"
  have "at_array ?C s (NOR_FLASH_RESET nb B s1)"
    using 1(2) reset [of m s1] wr_frame(1) by (auto simp: chip_at_def intro: frame_trans)
  then have i2: "?id s2"
    using autoselect wr_frame(2) by (auto simp: chip_at_def s2_def intro: frame_trans)
  obtain s3 where 3: "c_put_str M (str ''id='') s2 = Some s3" "?id s3" using put [OF i2] by blast
  obtain s4 where 4: "NOR_FLASH_RD nb B 0 s3 = (chip_id 0, s4)" "?id s4" using read_ident [OF 3(2)] .
  obtain s5 where 5: "c_put_hex16 M (chip_id 0) s4 = Some s5" "?id s5" using hex [OF 4(2)] by blast
  obtain s6 where 6: "c_put_char M (of_char (CHR '' '')) s5 = Some s6" "?id s6" using blank [OF 5(2)] by blast
  obtain s7 where 7: "NOR_FLASH_RD nb B 2 s6 = (chip_id 2, s7)" "?id s7" using read_ident [OF 6(2)] .
  obtain s8 where 8: "c_put_hex16 M (chip_id 2) s7 = Some s8" "?id s8" using hex [OF 7(2)] by blast
  obtain s9 where 9: "c_put_char M (of_char (CHR '' '')) s8 = Some s9" "?id s9" using blank [OF 8(2)] by blast
  obtain t1 where t1: "NOR_FLASH_RD nb B 0x1C s9 = (chip_id 0x1C, t1)" "?id t1" using read_ident [OF 9(2)] .
  obtain t2 where t2: "c_put_hex16 M (chip_id 0x1C) t1 = Some t2" "?id t2" using hex [OF t1(2)] by blast
  obtain t3 where t3: "c_put_char M (of_char (CHR '' '')) t2 = Some t3" "?id t3" using blank [OF t2(2)] by blast
  obtain t4 where t4: "NOR_FLASH_RD nb B 0x1E t3 = (chip_id 0x1E, t4)" "?id t4" using read_ident [OF t3(2)] .
  obtain t5 where t5: "c_put_hex16 M (chip_id 0x1E) t4 = Some t5" "?id t5" using hex [OF t4(2)] by blast
  obtain t6 where t6: "c_put_str M (str '', protect='') t5 = Some t6" "?id t6" using put [OF t5(2)] by blast
  obtain t7 where t7: "NOR_FLASH_RD nb B 4 t6 = (chip_id 4, t7)" "?id t7" using read_ident [OF t6(2)] .
  obtain t8 where t8: "c_put_hex16 M (chip_id 4) t7 = Some t8" "?id t8" using hex [OF t7(2)] by blast
  have i9: "at_array ?C s (NOR_FLASH_RESET nb B t8)"
    using t8(2) reset [of Autoselect t8] wr_frame(1) by (auto simp: chip_at_def intro: frame_trans)
  obtain t where t: "c_put_str M (if bus_error (chip_id 0) then str '':AmcBusError!'' else str '':YES?'') (NOR_FLASH_RESET nb B t8) = Some t"
    "at_array ?C s t" using put [OF i9] by blast
  show ?thesis
    using t 1(1) 3(1) 4(1) 5(1) 6(1) 7(1) 8(1) 9(1) t1(1) t2(1) t3(1) t4(1) t5(1) t6(1) t7(1) t8(1)
    by (intro exI [of _ t]) (simp add: nor_flash_probe_def s2_def [symmetric] push_bit_eq_mult split: if_splits)
qed

end

subsection \<open>Erase\<close>

text \<open>The blocks, and what the loop does with them: it erases one and then looks at the first halfword of the next.\<close>

definition nor_blocks :: "nor_build \<Rightarrow> u32 list" where
  "nor_blocks nb =
     (if ZTENJ_8MbootNOR nb
      then [0, 0x2000, 0x4000, 0x6000, 0x8000, 0xA000, 0xC000, 0xE000, 0x10000, 0x20000, 0x30000, 0x40000, 0x50000, 0x60000, 0x70000]
      else [0, 0x20000, 0x40000, 0x60000])"

fun block_chain :: "nor_build \<Rightarrow> u32 list \<Rightarrow> bool" where
  "block_chain nb [] = False"
| "block_chain nb [b] = (b < nor_next_block nb b \<and> nor_next_block nb b = NOR_MAX_UBOOT_SIZE)"
| "block_chain nb (b # c # bs) = (c = nor_next_block nb b \<and> b < c \<and> c < NOR_MAX_UBOOT_SIZE \<and> block_chain nb (c # bs))"

lemma block_chain_blocks: "block_chain nb (nor_blocks nb)"
  by (simp add: nor_blocks_def nor_next_block_def reg_defs FLASH_BLOCK_SIZE_def)

fun erase_spec :: "nor_build \<Rightarrow> (u32 \<Rightarrow> u32 set) \<Rightarrow> u32 list \<Rightarrow> (u32 \<Rightarrow> u16) \<Rightarrow> u32 \<times> (u32 \<Rightarrow> u16)" where
  "erase_spec nb sector [] C = (0, C)"
| "erase_spec nb sector (b # bs) C =
     (let C = erased (sector b) C in if C (nor_next_block nb b) \<noteq> 0xffff then (1, C) else erase_spec nb sector bs C)"

context nor_chip
begin

lemma erase_step:
  assumes "at_array C s0 s"
  obtains t where "at_array (erased (sector b) C) s0 t"
    "nor_erase_loop nb M B b s =
      (if erased (sector b) C (nor_next_block nb b) \<noteq> 0xffff then Some (1, t)
       else if nor_next_block nb b < NOR_MAX_UBOOT_SIZE then nor_erase_loop nb M B (nor_next_block nb b) t else Some (0, t))"
proof -
  let ?C = "erased (sector b) C" and ?n = "nor_next_block nb b"
  obtain s1 where 1: "mdelay M 2000 (nor_erase_block nb B b s) = Some s1" "at_array ?C s0 s1"
    using erase_block [of s b] assms by (auto simp: chip_at_def intro: frame_trans)
  obtain s2 where 2: "nor_progress M ?n s1 = Some s2" "at_array ?C s0 s2"
    using steadyE [OF progress 1(2)] .
  obtain s3 where 3: "NOR_FLASH_RD nb B ?n s2 = (?C ?n, s3)" "at_array ?C s0 s3" using read_cellE [OF 2(2)] .
  obtain s4 where 4: "c_put_str M (str '':Fail!'') s3 = Some s4" "at_array ?C s0 s4"
    using steadyE [OF at.put_str 3(2)] .
  have "nor_erase_loop nb M B b s =
      (if ?C ?n \<noteq> 0xffff then Some (1, s4)
       else if ?n < NOR_MAX_UBOOT_SIZE then nor_erase_loop nb M B ?n s3 else Some (0, s3))"
    by (subst nor_erase_loop.simps) (simp add: Let_def 1(1) 2(1) 3(1) 4(1))
  with 3(2) 4(2) that show ?thesis by (cases "?C ?n = 0xffff") simp_all
qed

lemma erase_loop_run:
  assumes "block_chain nb (b # bs)" "at_array C s0 s"
  shows "\<exists>t. nor_erase_loop nb M B b s = Some (fst (erase_spec nb sector (b # bs) C), t) \<and>
    at_array (snd (erase_spec nb sector (b # bs) C)) s0 t"
  using assms
proof (induction bs arbitrary: b C s)
  case (Nil b C s)
  obtain t where t: "at_array (erased (sector b) C) s0 t" "nor_erase_loop nb M B b s =
      (if erased (sector b) C (nor_next_block nb b) \<noteq> 0xffff then Some (1, t)
       else if nor_next_block nb b < NOR_MAX_UBOOT_SIZE then nor_erase_loop nb M B (nor_next_block nb b) t else Some (0, t))"
    using erase_step [OF Nil.prems(2)] .
  with Nil.prems(1) show ?case by (simp add: Let_def)
next
  case (Cons c bs b C s)
  obtain t where t: "at_array (erased (sector b) C) s0 t" "nor_erase_loop nb M B b s =
      (if erased (sector b) C (nor_next_block nb b) \<noteq> 0xffff then Some (1, t)
       else if nor_next_block nb b < NOR_MAX_UBOOT_SIZE then nor_erase_loop nb M B (nor_next_block nb b) t else Some (0, t))"
    using erase_step [OF Cons.prems(2)] .
  have c: "c = nor_next_block nb b" "c < NOR_MAX_UBOOT_SIZE" "block_chain nb (c # bs)"
    using Cons.prems(1) unfolding block_chain.simps by blast+
  from Cons.IH [OF c(3) t(1)] t c(1,2) show ?case by (simp add: Let_def)
qed

lemma erase_run:
  assumes "in_mode Read_Array (dev s)"
  shows "\<exists>t. nor_flash_erase nb M B s = Some (fst (erase_spec nb sector (nor_blocks nb) (cells (dev s))), t) \<and>
    at_array (snd (erase_spec nb sector (nor_blocks nb) (cells (dev s)))) s t"
proof -
  obtain s1 where 1: "c_put_str M (str ''Erasing: 0x00000'') s = Some s1" "at_array (cells (dev s)) s s1"
    using steadyE [OF at.put_str chip_at_start [where in_mode = in_mode and cells = cells, OF assms]] .
  obtain bs where bs: "nor_blocks nb = 0 # bs"
    by (cases "nor_blocks nb") (auto simp: nor_blocks_def split: if_splits)
  from erase_loop_run [OF block_chain_blocks [of nb, unfolded bs] 1(2)] show ?thesis
    by (simp add: nor_flash_erase_def 1(1) bs)
qed

end

text \<open>On a chip with blocks of these sizes.\<close>

definition block_sectors :: "nor_build \<Rightarrow> (u32 \<Rightarrow> u32 set) \<Rightarrow> bool" where
  "block_sectors nb sector \<longleftrightarrow> list_all (\<lambda>b. sector b = {b..<nor_next_block nb b}) (nor_blocks nb)"

text \<open>The next blocks that are not erased yet.\<close>

definition nor_stuck :: "nor_build \<Rightarrow> (u32 \<Rightarrow> u16) \<Rightarrow> u32 list" where
  "nor_stuck nb C = filter (\<lambda>b. C b \<noteq> 0xffff) (map (nor_next_block nb) (nor_blocks nb))"

lemma erased_erased: "erased {b..<c} (erased {..<b} C) = erased {..<c} C" if "b \<le> (c :: u32)"
  using that by (auto simp: erased_def fun_eq_iff)

lemma erase_spec_chain:
  assumes "block_chain nb (b # bs)" "list_all (\<lambda>b. sector b = {b..<nor_next_block nb b}) (b # bs)"
  shows "erase_spec nb sector (b # bs) (erased {..<b} C) =
    (let stuck = filter (\<lambda>b. C b \<noteq> 0xffff) (map (nor_next_block nb) (b # bs))
     in if stuck = [] then (0, erased {..<NOR_MAX_UBOOT_SIZE} C) else (1, erased {..<hd stuck} C))"
  using assms
proof (induction bs arbitrary: b)
  case Nil
  then have "b \<le> NOR_MAX_UBOOT_SIZE" "nor_next_block nb b = NOR_MAX_UBOOT_SIZE" "sector b = {b..<NOR_MAX_UBOOT_SIZE}"
    by (auto dest: less_imp_le)
  moreover have "erased {..<NOR_MAX_UBOOT_SIZE} C NOR_MAX_UBOOT_SIZE = C NOR_MAX_UBOOT_SIZE" by (simp add: erased_def)
  ultimately show ?case by (simp add: Let_def erased_erased)
next
  case (Cons c bs)
  have c: "nor_next_block nb b = c" "b < c" "block_chain nb (c # bs)"
    using Cons.prems(1) unfolding block_chain.simps by blast+
  have "erased {..<c} C c = C c" by (simp add: erased_def)
  then show ?case
    using Cons.IH [OF c(3)] Cons.prems(2) c(1,2) by (simp add: Let_def erased_erased less_imp_le)
qed

lemma erase_spec_blocks:
  assumes "block_sectors nb sector"
  shows "erase_spec nb sector (nor_blocks nb) C =
    (if nor_stuck nb C = [] then (0, erased {..<0x80000} C) else (1, erased {..<hd (nor_stuck nb C)} C))"
proof -
  obtain bs where bs: "nor_blocks nb = 0 # bs"
    by (cases "nor_blocks nb") (auto simp: nor_blocks_def split: if_splits)
  have "erased {..<0} C = C" by (simp add: erased_def)
  moreover have "NOR_MAX_UBOOT_SIZE = 0x80000" by (simp add: reg_defs)
  ultimately show ?thesis
    using erase_spec_chain [OF block_chain_blocks [of nb, unfolded bs], of sector C] assms
    by (simp add: block_sectors_def nor_stuck_def bs Let_def)
qed

text \<open>
  What \<open>nor_flash_erase\<close> does, for both block layouts: after each block it looks at the first halfword of the next
  one, which it has not erased yet (and after the last at the halfword behind the 512 KByte). It returns 0, with
  the 512 KByte erased, only if these were blank beforehand; otherwise it stops with 1 at the first that was not, so
  that on a flash with a program in it only the first block is erased.
\<close>

theorem nor_erase_result:
  assumes "nor_chip nb M B in_mode cells sector chip_id" "block_sectors nb sector" "in_mode Read_Array (dev s)"
  shows "\<exists>t. nor_flash_erase nb M B s = Some (if nor_stuck nb (cells (dev s)) = [] then 0 else 1, t) \<and> mem t = mem s \<and>
    cells (dev t) = erased {..<if nor_stuck nb (cells (dev s)) = [] then 0x80000 else hd (nor_stuck nb (cells (dev s)))} (cells (dev s))"
  using nor_chip.erase_run [OF assms(1,3)] erase_spec_blocks [OF assms(2), of "cells (dev s)"]
  by (auto simp: chip_at_def frame_def split: if_splits)

subsection \<open>Burn\<close>

text \<open>The halfwords written for a length, at least one, and what the loop does with them.\<close>

definition burn_offsets :: "u32 \<Rightarrow> u32 list" where
  "burn_offsets n = map (\<lambda>k. of_nat (2 * k)) [0..<max 1 ((unat n + 1) div 2)]"

lemma halves_left:
  assumes "k + Suc m = max 1 ((n + 1) div 2)"
  shows "2 * Suc k < n \<longleftrightarrow> 0 < m"
proof (cases "n \<le> 2")
  case True
  then have "(n + 1) div 2 \<le> 1" by simp
  with assms have "k = 0 \<and> m = 0" by (simp add: max_def split: if_splits)
  with True show ?thesis by simp
next
  case False
  then have "k + Suc m = (n + 1) div 2" using assms by (simp add: max_def split: if_splits)
  then show ?thesis by presburger
qed

fun burn_spec :: "(u32 \<Rightarrow> u16) \<Rightarrow> u32 list \<Rightarrow> (u32 \<Rightarrow> u16) \<Rightarrow> u32 \<times> (u32 \<Rightarrow> u16)" where
  "burn_spec img [] C = (0, C)"
| "burn_spec img (a # as) C =
     (let C' = C(a := C a AND img a) in if C' a \<noteq> img a then (1, C') else burn_spec img as C')"

context nor_chip
begin

lemma burn_step:
  assumes "at_array C s0 s" and C': "C' = C(a := C a AND RAM_IMAGE_RD a s0)"
  obtains t where "at_array C' s0 t"
    "nor_burn_loop nb M B n a s =
      (if C' a \<noteq> RAM_IMAGE_RD a s0 then Some (1, t) else if a + 2 < n then nor_burn_loop nb M B n (a + 2) t else Some (0, t))"
proof -
  have img: "RAM_IMAGE_RD a u = RAM_IMAGE_RD a s0" if "at_array D s0 u" for D u
    using that by (simp add: chip_at_def frame_def RAM_IMAGE_RD_def ram_load16_def ram_load8_def)
  obtain s1 where 1: "mdelay M 1 (nor_program nb B a (RAM_IMAGE_RD a s) s) = Some s1" "at_array C' s0 s1"
    using program [of s a "RAM_IMAGE_RD a s"] assms img [OF assms(1)] by (auto simp: chip_at_def intro: frame_trans)
  obtain s2 where 2: "NOR_FLASH_RD nb B a s1 = (C' a, s2)" "at_array C' s0 s2" using read_cellE [OF 1(2)] .
  obtain s3 where 3: "c_put_str M (str '':Fail!'') s2 = Some s3" "at_array C' s0 s3"
    using steadyE [OF at.put_str 2(2)] .
  have "steady (at_array C' s0) (\<lambda>s. if 0 = (a + 2) AND (0x1000 - 1) then nor_progress M (a + 2) s else Some s)"
    by (intro steady_intros progress)
  then obtain s4 where 4: "(if 0 = (a + 2) AND (0x1000 - 1) then nor_progress M (a + 2) s2 else Some s2) = Some s4"
    "at_array C' s0 s4" using 2(2) by (rule steadyE)
  have "nor_burn_loop nb M B n a s =
      (if C' a \<noteq> RAM_IMAGE_RD a s0 then Some (1, s3)
       else if a + 2 < n then nor_burn_loop nb M B n (a + 2) s4 else Some (0, s4))"
    by (subst nor_burn_loop.simps) (simp only: Let_def 1(1) 2(1) 3(1) 4(1) img [OF 2(2)] bind.bind_lunit prod.case)
  with 3(2) 4(2) that show ?thesis by (cases "C' a = RAM_IMAGE_RD a s0") simp_all
qed

lemma burn_loop_run:
  assumes "unat n \<le> 2 ^ 31" "k + m = max 1 ((unat n + 1) div 2)" "0 < m" "at_array C s0 s"
  shows "\<exists>t. nor_burn_loop nb M B n (of_nat (2 * k)) s =
      Some (fst (burn_spec (\<lambda>a. RAM_IMAGE_RD a s0) (map (\<lambda>k. of_nat (2 * k)) [k..<k + m]) C), t) \<and>
    at_array (snd (burn_spec (\<lambda>a. RAM_IMAGE_RD a s0) (map (\<lambda>k. of_nat (2 * k)) [k..<k + m]) C)) s0 t"
  using assms(2-4)
proof (induction m arbitrary: k C s)
  case (Suc m k C s)
  let ?a = "of_nat (2 * k) :: u32" and ?img = "\<lambda>a. RAM_IMAGE_RD a s0"
  define C' where "C' = C(?a := C ?a AND ?img ?a)"
  obtain t where t: "at_array C' s0 t" "nor_burn_loop nb M B n ?a s =
      (if C' ?a \<noteq> ?img ?a then Some (1, t) else if ?a + 2 < n then nor_burn_loop nb M B n (?a + 2) t else Some (0, t))"
    using burn_step [OF Suc.prems(3) C'_def] .
  have spec: "burn_spec ?img (?a # as) C = (if C' ?a \<noteq> ?img ?a then (1, C') else burn_spec ?img as C')" for as
    by (simp add: C'_def Let_def)
  have next_a: "?a + 2 = of_nat (2 * Suc k)" by (simp add: algebra_simps)
  have "2 * k + 2 \<le> 2 ^ 31 + 2" using Suc.prems(1) assms(1) by linarith
  then have u: "unat (of_nat (2 * Suc k) :: u32) = 2 * Suc k"
    by (simp add: unsigned_of_nat take_bit_nat_eq_self del: of_nat_mult of_nat_Suc)
  have lt: "?a + 2 < n \<longleftrightarrow> 0 < m"
    unfolding next_a word_less_nat_alt u using halves_left [OF Suc.prems(1)] .
  have os: "map (\<lambda>k. of_nat (2 * k)) [k..<k + Suc m] = ?a # map (\<lambda>k. of_nat (2 * k) :: u32) [Suc k..<Suc k + m]"
    by (subst upt_conv_Cons) (simp_all del: upt_Suc)
  show ?case
  proof (cases m)
    case 0
    with t lt show ?thesis unfolding os spec by auto
  next
    case (Suc m')
    then have "0 < m" by simp
    from Suc.IH [OF _ this t(1), of "Suc k"] Suc.prems(1) t lt this show ?thesis
      unfolding os spec next_a by (auto simp del: of_nat_mult of_nat_Suc)
  qed
qed simp

lemma burn_run:
  assumes "in_mode Read_Array (dev s)" "unat n \<le> 2 ^ 31"
  shows "\<exists>t. nor_flash_burn nb M B n s = Some (fst (burn_spec (\<lambda>a. RAM_IMAGE_RD a s) (burn_offsets n) (cells (dev s))), t) \<and>
    at_array (snd (burn_spec (\<lambda>a. RAM_IMAGE_RD a s) (burn_offsets n) (cells (dev s)))) s t"
proof -
  obtain s1 where 1: "c_put_str M (str ''Burning: 0x00000'') s = Some s1" "at_array (cells (dev s)) s s1"
    using steadyE [OF at.put_str chip_at_start [where in_mode = in_mode and cells = cells, OF assms(1)]] .
  have "(of_nat (2 * 0) :: u32) = 0" by simp
  with burn_loop_run [OF assms(2), of 0 "max 1 ((unat n + 1) div 2)", OF _ _ 1(2)] show ?thesis
    by (simp add: nor_flash_burn_def 1(1) burn_offsets_def del: of_nat_mult)
qed

end

text \<open>In closed form: the halfwords before the first that needs a bit set are written.\<close>

definition burnable :: "(u32 \<Rightarrow> u16) \<Rightarrow> (u32 \<Rightarrow> u16) \<Rightarrow> u32 \<Rightarrow> bool" where
  "burnable img C a \<longleftrightarrow> C a AND img a = img a"

definition burned :: "(u32 \<Rightarrow> u16) \<Rightarrow> u32 list \<Rightarrow> (u32 \<Rightarrow> u16) \<Rightarrow> u32 \<Rightarrow> u16" where
  "burned img as C = (\<lambda>a. if a \<in> set (takeWhile (burnable img C) as) then img a
     else case dropWhile (burnable img C) as of [] \<Rightarrow> C a | b # bs \<Rightarrow> if a = b then C a AND img a else C a)"

lemma burn_spec_closed:
  assumes "distinct as"
  shows "burn_spec img as C = (if list_all (burnable img C) as then 0 else 1, burned img as C)"
  using assms
proof (induction as arbitrary: C)
  case Nil
  then show ?case by (simp add: burned_def)
next
  case (Cons a as)
  define C' where "C' = C(a := C a AND img a)"
  have b: "burnable img C' x = burnable img C x" if "x \<in> set as" for x
    using Cons.prems that by (auto simp: burnable_def C'_def)
  have t: "takeWhile (burnable img C') as = takeWhile (burnable img C) as" "dropWhile (burnable img C') as = dropWhile (burnable img C) as"
    "list_all (burnable img C') as = list_all (burnable img C) as"
    using b by (auto simp: list_all_iff intro!: takeWhile_cong dropWhile_cong)
  have IH: "burn_spec img as C' = (if list_all (burnable img C) as then 0 else 1, burned img as C')"
    using Cons.IH [of C'] Cons.prems t(3) by simp
  show ?case
  proof (cases "burnable img C a")
    case False
    then show ?thesis by (auto simp: burnable_def burned_def fun_eq_iff Let_def)
  next
    case True
    define D T where "D = dropWhile (burnable img C) as" and "T = takeWhile (burnable img C) as"
    have C': "C' a = img a" "x \<noteq> a \<Longrightarrow> C' x = C x" for x using True by (simp_all add: C'_def burnable_def)
    have n: "a \<notin> set T" "a \<notin> set D"
      using Cons.prems by (auto simp: T_def D_def dest: set_takeWhileD set_dropWhileD)
    have "burned img as C' x = burned img (a # as) C x" for x
      unfolding burned_def t(1,2) takeWhile.simps dropWhile.simps D_def [symmetric] T_def [symmetric] using True C' n
      by (cases "x = a"; cases D) simp_all
    then have "burned img as C' = burned img (a # as) C" by (rule ext)
    moreover have "burn_spec img (a # as) C = burn_spec img as C'"
      using C'(1) by (simp add: Let_def C'_def)
    ultimately show ?thesis using True IH by simp
  qed
qed

lemma distinct_burn_offsets:
  assumes "unat n \<le> 2 ^ 31"
  shows "distinct (burn_offsets n)"
proof -
  have "inj_on (\<lambda>k. of_nat (2 * k) :: u32) {0..<max 1 ((unat n + 1) div 2)}"
  proof (rule inj_onI)
    fix i j assume ij: "i \<in> {0..<max 1 ((unat n + 1) div 2)}" "j \<in> {0..<max 1 ((unat n + 1) div 2)}"
      and e: "(of_nat (2 * i) :: u32) = of_nat (2 * j)"
    have "unat (of_nat (2 * k) :: u32) = 2 * k" if "k < max 1 ((unat n + 1) div 2)" for k
    proof -
      have "2 * k < 2 ^ 32" using that assms by (simp add: max_def split: if_splits)
      then show ?thesis by (simp add: unsigned_of_nat take_bit_nat_eq_self del: of_nat_mult)
    qed
    then have "2 * i = 2 * j" using ij e by (metis atLeastLessThan_iff)
    then show "i = j" by simp
  qed
  then show ?thesis by (simp add: burn_offsets_def distinct_map)
qed

text \<open>
  What \<open>nor_flash_burn\<close> does for an image of up to 2 GByte in RAM: halfword after halfword, as many as cover the length but
  at least one, up to the first whose cell would need a bit set. Those before it hold the image, that one the bits cell and
  image share, and no other cell has changed; the result is 0 if all could be written and 1 otherwise.
\<close>

theorem nor_burn_result:
  assumes "nor_chip nb M B in_mode cells sector chip_id" "in_mode Read_Array (dev s)" "unat n \<le> 2 ^ 31"
    and "img = (\<lambda>a. RAM_IMAGE_RD a s)"
  shows "\<exists>t. nor_flash_burn nb M B n s =
      Some (if list_all (burnable img (cells (dev s))) (burn_offsets n) then 0 else 1, t) \<and>
    cells (dev t) = burned img (burn_offsets n) (cells (dev s)) \<and> mem t = mem s"
  using nor_chip.burn_run [OF assms(1-3)] burn_spec_closed [OF distinct_burn_offsets [OF assms(3)]]
  by (auto simp: assms(4) chip_at_def frame_def)


text \<open>
  \<open>nor_flash_probe\<close> returns 1 for an identification that cannot be one (bits in the upper byte, or a lower byte of zeros
  or ones) and 0 otherwise; the chip shows its cells again, unchanged.
\<close>

theorem nor_probe_result:
  assumes "nor_chip nb M B in_mode cells sector chip_id" "in_mode m (dev s)"
  shows "\<exists>t. nor_flash_probe nb M B s = Some (if bus_error (chip_id 0) then 1 else 0, t) \<and>
    in_mode Read_Array (dev t) \<and> cells (dev t) = cells (dev s) \<and> mem t = mem s"
  using nor_chip.probe_run [OF assms] by (auto simp: chip_at_def frame_def)

subsection \<open>A chip\<close>

text \<open>
  The command automaton of such a chip: it takes the unlock cycles one by one, falls back to its cells at any other,
  and performs a command at the last cycle. The board around it has a console that is always ready and a count register that
  has always run out.
\<close>

datatype amd_state = Idle | Unlock1 | Unlock2 | Erase0 | Erase1 | Erase2 | Program | Ident

fun amd_next :: "amd_state \<Rightarrow> u32 \<Rightarrow> u16 \<Rightarrow> amd_state" where
  "amd_next Idle a v = (if a = 0xAAA \<and> v = 0xAA then Unlock1 else Idle)"
| "amd_next Unlock1 a v = (if a = 0x554 \<and> v = 0x55 then Unlock2 else Idle)"
| "amd_next Unlock2 a v =
     (if a \<noteq> 0xAAA then Idle else if v = 0x80 then Erase0 else if v = 0xA0 then Program else if v = 0x90 then Ident else Idle)"
| "amd_next Erase0 a v = (if a = 0xAAA \<and> v = 0xAA then Erase1 else Idle)"
| "amd_next Erase1 a v = (if a = 0x554 \<and> v = 0x55 then Erase2 else Idle)"
| "amd_next Ident a v = (if v = 0xF0 then Idle else Ident)"
| "amd_next _ a v = Idle"

record nor_board =
  nstate :: amd_state
  ncells :: "u32 \<Rightarrow> u16"
  nsent :: "u8 list"

definition amd_write :: "(u32 \<Rightarrow> u32 set) \<Rightarrow> u32 \<Rightarrow> u16 \<Rightarrow> nor_board \<Rightarrow> nor_board" where
  "amd_write sector a v d = d\<lparr>nstate := amd_next (nstate d) a v,
     ncells := (if nstate d = Program then (ncells d)(a := ncells d a AND v)
                else if nstate d = Erase2 \<and> v = 0x30 then erased (sector a) (ncells d) else ncells d)\<rparr>"

definition nor_machine :: "nor_board machine" where
  "nor_machine = \<lparr>io_load = (\<lambda>a d. (if a = UART1 lsr then UART_LSR_BITMASK_THRE else 0, d)),
     io_store = (\<lambda>a v d. if a = UART1 u0 then d\<lparr>nsent := nsent d @ [ucast v]\<rparr> else d),
     get_count = (\<lambda>d. (- 1, d)), set_count = (\<lambda>v d. d), set_compare = (\<lambda>v d. d)\<rparr>"

definition nor_bus :: "nor_build \<Rightarrow> (u32 \<Rightarrow> u32 set) \<Rightarrow> (u32 \<Rightarrow> u16) \<Rightarrow> nor_board bus16" where
  "nor_bus nb sector ids =
     \<lparr>load16 = (\<lambda>a d. (if nstate d = Ident then ids (a - NOR_FLASH_BASE nb) else ncells d (a - NOR_FLASH_BASE nb), d)),
      store16 = (\<lambda>a v d. amd_write sector (a - NOR_FLASH_BASE nb) v d)\<rparr>"

definition nor_in_mode :: "nor_mode \<Rightarrow> nor_board \<Rightarrow> bool" where
  "nor_in_mode m d \<longleftrightarrow> nstate d = (case m of Read_Array \<Rightarrow> Idle | Autoselect \<Rightarrow> Ident)"

lemma nor_machine_put: "c_put_char nor_machine c s = Some (s\<lparr>dev := (dev s)\<lparr>nsent := nsent (dev s) @ [c]\<rparr>\<rparr>)"
proof -
  have "c_poll32_until_set nor_machine (UART1 lsr) UART_LSR_BITMASK_THRE s = Some s"
    by (subst c_poll32_until_set.simps) (simp add: H_RD32_def nor_machine_def)
  then show ?thesis by (simp add: c_put_char_def H_WR32_def nor_machine_def ucast_scast_u8)
qed

lemma nor_machine_mdelay:
  assumes "250000 * n \<noteq> - 1"
  shows "mdelay nor_machine n s = Some s"
proof -
  have "\<not> (- 1 :: u32) \<le> 250000 * n" using assms by (simp add: word_order.extremum_unique)
  then show ?thesis
    by (simp add: mdelay_def SET_COMPARE_def SET_COUNTER_def mdelay_loop.simps GET_COUNTER_def nor_machine_def)
qed

lemma nor_bus_write: "NOR_FLASH_WR nb (nor_bus nb sector ids) a v s = s\<lparr>dev := amd_write sector a v (dev s)\<rparr>"
  by (simp add: NOR_FLASH_WR_def nor_bus_def)

interpretation amd: nor_chip nb nor_machine "nor_bus nb sector ids" nor_in_mode ncells sector ids
  for nb sector ids
proof
  fix s :: "nor_board sys" and d e :: nor_board and m c a and v :: u16
  have "c_put_char nor_machine c s = Some (s\<lparr>dev := (dev s)\<lparr>nsent := nsent (dev s) @ [c]\<rparr>\<rparr>)" by (rule nor_machine_put)
  then show "nor_in_mode m (dev s) \<Longrightarrow>
      \<exists>t. c_put_char nor_machine c s = Some t \<and> frame s t \<and> nor_in_mode m (dev t) \<and> ncells (dev t) = ncells (dev s)"
    by (simp add: nor_in_mode_def frame_def)
  show "nor_in_mode Read_Array (dev s) \<Longrightarrow> \<exists>t. mdelay nor_machine 2000 (nor_erase_block nb (nor_bus nb sector ids) a s) = Some t
      \<and> frame s t \<and> nor_in_mode Read_Array (dev t) \<and> ncells (dev t) = erased (sector a) (ncells (dev s))"
    by (subst nor_machine_mdelay) (simp_all add: nor_erase_block_def nor_bus_write amd_write_def nor_in_mode_def frame_def)
  show "nor_in_mode Read_Array (dev s) \<Longrightarrow> \<exists>t. mdelay nor_machine 1 (nor_program nb (nor_bus nb sector ids) a v s) = Some t
      \<and> frame s t \<and> nor_in_mode Read_Array (dev t) \<and> ncells (dev t) = (ncells (dev s))(a := ncells (dev s) a AND v)"
    by (subst nor_machine_mdelay) (simp_all add: nor_program_def nor_bus_write amd_write_def nor_in_mode_def frame_def)
  show "nor_in_mode m (dev s) \<Longrightarrow> nor_in_mode Read_Array (dev (NOR_FLASH_RESET nb (nor_bus nb sector ids) s)) \<and>
      ncells (dev (NOR_FLASH_RESET nb (nor_bus nb sector ids) s)) = ncells (dev s)"
    by (cases m) (simp_all add: NOR_FLASH_RESET_def nor_bus_write amd_write_def nor_in_mode_def)
  show "nor_in_mode Read_Array (dev s) \<Longrightarrow> nor_in_mode Autoselect (dev (NOR_FLASH_AUTOSELECT nb (nor_bus nb sector ids) s)) \<and>
      ncells (dev (NOR_FLASH_AUTOSELECT nb (nor_bus nb sector ids) s)) = ncells (dev s)"
    by (simp add: NOR_FLASH_AUTOSELECT_def nor_bus_write amd_write_def nor_in_mode_def)
qed (simp_all add: nor_in_mode_def nor_bus_def)

text \<open>The properties on this chip: a flash full of zeros, one blank behind its first block, and an image.\<close>

definition vx185_nor :: nor_build where
  "vx185_nor = \<lparr>soc = VX185_A1, ZTENJ_8MbootNOR = False\<rparr>"

definition vx185_sector :: "u32 \<Rightarrow> u32 set" where
  "vx185_sector b = {b..<nor_next_block vx185_nor b}"

abbreviation vx185_bus :: "nor_board bus16" where
  "vx185_bus \<equiv> nor_bus vx185_nor vx185_sector (\<lambda>a. if a = 0 then 0x01 else 0x227E)"

definition nor_sys :: "(u32 \<Rightarrow> u16) \<Rightarrow> nor_board sys" where
  "nor_sys C = \<lparr>gChipType = 0, gSysClock = 0, dev = \<lparr>nstate = Idle, ncells = C, nsent = []\<rparr>, mem = (\<lambda>a. if a = 0x800001 then 7 else 0)\<rparr>"

lemma nor_sys_facts: "nor_in_mode Read_Array (dev (nor_sys C))" "ncells (dev (nor_sys C)) = C" "block_sectors vx185_nor vx185_sector"
  by (simp_all add: nor_in_mode_def nor_sys_def block_sectors_def vx185_sector_def list_all_iff)

lemmas vx185_chip = amd.nor_chip_axioms [where nb = vx185_nor and sector = vx185_sector and ids = "\<lambda>a. if a = 0 then 0x01 else 0x227E"]

lemma vx185_next: "map (nor_next_block vx185_nor) (nor_blocks vx185_nor) = [0x20000, 0x40000, 0x60000, 0x80000]"
  by (simp add: nor_blocks_def vx185_nor_def nor_next_block_def FLASH_BLOCK_SIZE_def)

theorem nor_erase_result_witness:
  "\<exists>t. nor_flash_erase vx185_nor nor_machine vx185_bus (nor_sys (\<lambda>_. 0)) = Some (1, t) \<and>
    ncells (dev t) = erased {..<0x20000} (\<lambda>_. 0)"
  using nor_erase_result [OF vx185_chip nor_sys_facts(3,1), of "\<lambda>_. 0"]
  by (auto simp: nor_sys_facts nor_stuck_def vx185_next)

theorem nor_burn_result_witness:
  "\<exists>t. nor_flash_burn vx185_nor nor_machine vx185_bus 1 (nor_sys (\<lambda>_. 0xffff)) = Some (0, t) \<and> ncells (dev t) 0 = 7"
proof -
  have o: "burn_offsets 1 = [0]" by (simp add: burn_offsets_def)
  have i: "RAM_IMAGE_RD 0 (nor_sys (\<lambda>_. 0xffff)) = 7"
    by (simp add: RAM_IMAGE_RD_def ram_load16_def ram_load8_def nor_sys_def phys_def reg_defs)
  show ?thesis
    using nor_burn_result [OF vx185_chip nor_sys_facts(1), of 1 _ "\<lambda>_. 0xffff", OF _ refl]
    by (auto simp: nor_sys_facts o burnable_def burned_def i)
qed


theorem nor_probe_result_witness:
  "\<exists>t. nor_flash_probe vx185_nor nor_machine vx185_bus (nor_sys (\<lambda>_. 5)) = Some (0, t) \<and> ncells (dev t) = (\<lambda>_. 5)"
  using nor_probe_result [OF vx185_chip nor_sys_facts(1), of "\<lambda>_. 5"] by (auto simp: bus_error_def nor_sys_facts)

end
