(* ===== verification/Nor_Boot.thy ===== *)
theory Nor_Boot
  imports Boot Nor
begin

unbundle bit_operations_syntax

section \<open>The NOR branch of the boot program (loader/fboot.c)\<close>

text \<open>
  The part of \<open>main\<close> behind \<^verbatim>\<open>#if 0\<close>: probe the flash, ask, download, erase, burn. Its two messages
  \<open>str_NorDwld\<close> and \<open>str_NorBoot\<close> are defined nowhere, so they are parameters; \<open>cget_char_timout\<close>, a name
  that occurs nowhere else, is taken for \<open>c_get_char_timout\<close>.
\<close>

definition boot_nor ::
    "nor_build \<Rightarrow> 'd machine \<Rightarrow> 'd bus16 \<Rightarrow> u8 list \<Rightarrow> u8 list \<Rightarrow> u8 list \<Rightarrow> 'd sys \<Rightarrow> (boot_end option \<times> 'd sys) option" where
  "boot_nor nb M B str_NorDwld str_NorBoot stack s = do {
     let s = RemapCS0_NOR M s;
     s \<leftarrow> c_put_str M (nl ''NOR '') s;
     (status, s) \<leftarrow> nor_flash_probe nb M B s;
     (stop, s) \<leftarrow>
       (if 0 \<noteq> status then do {
          s \<leftarrow> c_put_str M str_NorDwld s;
          (ch, s) \<leftarrow> c_get_char_timout M 0 s;
          if of_char (CHR ''y'') = ch then do {
            (length, s) \<leftarrow> xmodem_load (c_get_char_timout M) (c_put_char M) ram_store8 gSysClock stack RAM_DOWNLOAD_BASE s;
            if MAX_UBOOT_SIZE < length then do { s \<leftarrow> c_put_str M str_TooBig s; Some (True, s) }
            else do {
              (r, s) \<leftarrow> nor_flash_erase nb M B s;
              if r \<noteq> 0 then Some (True, s)
              else do {
                (r, s) \<leftarrow> nor_flash_burn nb M B length s;
                if r \<noteq> 0 then Some (True, s)
                else do { s \<leftarrow> c_put_str M str_NorBoot s; Some (True, s) }
              }
            }
          } else Some (False, s)
        } else Some (False, s));
     if stop then Some (Some Spin, s) else Some (None, RemapCS0_ROM M s)
   }"

text \<open>A flash beside a system controller and a count register that do not concern it.\<close>

locale nor_port = nor_chip nb M B in_mode cells sector chip_id
  for nb :: nor_build and M :: "'d machine" and B in_mode cells sector chip_id +
  assumes scu_load: "a \<in> {SCU_CTRL_MASK, SCU_CTRL_CTRL} \<Longrightarrow> in_mode m d \<Longrightarrow>
      in_mode m (snd (io_load M a d)) \<and> cells (snd (io_load M a d)) = cells d"
    and scu_store: "a \<in> {SCU_CTRL_MASK, SCU_CTRL_CTRL} \<Longrightarrow> in_mode m d \<Longrightarrow>
      in_mode m (io_store M a v d) \<and> cells (io_store M a v d) = cells d"
    and count: "in_mode m d \<Longrightarrow> in_mode m (snd (get_count M (set_count M 0 d))) \<and> cells (snd (get_count M (set_count M 0 d))) = cells d"
begin

lemma rmw_at:
  assumes "a \<in> {SCU_CTRL_MASK, SCU_CTRL_CTRL}" "chip_at in_mode cells m C s0 s"
  shows "chip_at in_mode cells m C s0 (rmw32 M a f s)"
  using assms scu_load [OF assms(1), of m "dev s"] scu_store [OF assms(1), of m]
  by (auto simp: chip_at_def rmw32_def H_RD32_def H_WR32_def frame_def split: prod.splits)

lemma remap_at:
  assumes "chip_at in_mode cells m C s0 s"
  shows "chip_at in_mode cells m C s0 (RemapCS0_NOR M s)" "chip_at in_mode cells m C s0 (RemapCS0_ROM M s)"
  unfolding RemapCS0_NOR_def RemapCS0_ROM_def Let_def by (intro rmw_at assms; simp)+

lemma no_answer:
  assumes "chip_at in_mode cells m C s0 s"
  obtains t where "c_get_char_timout M 0 s = Some (GETCHAR_TIMED_OUT, t)" "chip_at in_mode cells m C s0 t"
proof -
  have "c_get_char_timout M 0 s = Some (GETCHAR_TIMED_OUT, snd (GET_COUNTER M (SET_COUNTER M 0 s)))"
    by (simp add: c_get_char_timout_def c_get_char_wait.simps split: prod.splits)
  moreover have "chip_at in_mode cells m C s0 (snd (GET_COUNTER M (SET_COUNTER M 0 s)))"
    using assms count [of m "dev s"] by (auto simp: chip_at_def frame_def GET_COUNTER_def SET_COUNTER_def split: prod.splits)
  ultimately show ?thesis using that by blast
qed

lemma branch_falls_through:
  assumes "in_mode m (dev s)"
  shows "\<exists>t m. boot_nor nb M B str_NorDwld str_NorBoot stack s = Some (None, t) \<and> chip_at in_mode cells m (cells (dev s)) s t"
proof -
  let ?C = "cells (dev s)"
  have at: "chip_at in_mode cells m ?C s s" using assms by (rule chip_at_start)
  obtain s1 where 1: "c_put_str M (nl ''NOR '') (RemapCS0_NOR M s) = Some s1" "chip_at in_mode cells m ?C s s1"
    using steadyE [OF at.put_str remap_at(1) [OF at]] .
  have m1: "in_mode m (dev s1)" "cells (dev s1) = ?C" using 1(2) by (simp_all add: chip_at_def)
  obtain s2 where 2: "nor_flash_probe nb M B s1 = Some (if bus_error (chip_id 0) then 1 else 0, s2)" "at_array ?C s s2"
    using probe_run [OF m1(1)] chip_at_trans [OF 1(2)] m1(2) by metis
  show ?thesis
  proof (cases "bus_error (chip_id 0)")
    case False
    then show ?thesis
      using 1(1) 2 remap_at(2) [OF 2(2)] by (auto simp: boot_nor_def)
  next
    case True
    obtain s3 where 3: "c_put_str M str_NorDwld s2 = Some s3" "at_array ?C s s3" using steadyE [OF at.put_str 2(2)] .
    obtain s4 where 4: "c_get_char_timout M 0 s3 = Some (GETCHAR_TIMED_OUT, s4)" "at_array ?C s s4" using no_answer [OF 3(2)] .
    have y: "of_char (CHR ''y'') \<noteq> GETCHAR_TIMED_OUT" by (simp add: GETCHAR_TIMED_OUT_def)
    show ?thesis
      using True 1(1) 2(1) 3(1) 4(1) y remap_at(2) [OF 4(2)] by (auto simp: boot_nor_def)
  qed
qed

end

text \<open>
  The NOR branch never writes to the flash: on every board with such a chip, whether the probe finds it or not
  and whatever the user sends, it goes on to the ROM mapping with all cells as before. It asks only when the
  probe has reported a bus without a flash, and then waits zero ticks for the answer.
\<close>

theorem nor_branch_never_burns:
  assumes "nor_port nb M B in_mode cells sector chip_id" "in_mode m (dev s)"
  shows "\<exists>t. boot_nor nb M B str_NorDwld str_NorBoot stack s = Some (None, t) \<and> cells (dev t) = cells (dev s) \<and> mem t = mem s"
  using nor_port.branch_falls_through [OF assms, of str_NorDwld str_NorBoot stack] by (auto simp: chip_at_def frame_def)

interpretation amdp: nor_port nb nor_machine "nor_bus nb sector ids" nor_in_mode ncells sector ids
  for nb sector ids
  by unfold_locales (auto simp: nor_machine_def nor_in_mode_def reg_defs uart_defs)

theorem nor_branch_never_burns_witness:
  "\<forall>p q stack. \<exists>t. boot_nor vx185_nor nor_machine (nor_bus vx185_nor vx185_sector (\<lambda>_. 0xffff)) p q stack (nor_sys (\<lambda>_. 5)) = Some (None, t) \<and>
    ncells (dev t) = (\<lambda>_. 5)"
  using nor_branch_never_burns [OF amdp.nor_port_axioms nor_sys_facts(1)] by (metis nor_sys_facts(2))

end
