(* ===== verification/Esr.thy ===== *)
theory Esr
  imports Prelude
begin

section \<open>The exception context (arch/include/arch\_esr.h)\<close>

text \<open>
  The frame in which an exception handler finds the registers is described twice in the header: by the
  offsets of the assembly code and by the C structure, "corresponding to the above definitions". Both are
  given here in the header's order, for the register size of the core, 4 or 8 bytes.
\<close>

definition REGSIZE :: "nat \<Rightarrow> nat" where
  "REGSIZE CPUCORE = (if CPUCORE = 4 then 4 else 8)"

definition EXCEP_REG0 :: "nat \<Rightarrow> nat" where [reg_defs]: "EXCEP_REG0 c = 0 * REGSIZE c"
definition EXCEP_REG1 :: "nat \<Rightarrow> nat" where [reg_defs]: "EXCEP_REG1 c = 1 * REGSIZE c"
definition EXCEP_REG2 :: "nat \<Rightarrow> nat" where [reg_defs]: "EXCEP_REG2 c = 2 * REGSIZE c"
definition EXCEP_REG3 :: "nat \<Rightarrow> nat" where [reg_defs]: "EXCEP_REG3 c = 3 * REGSIZE c"
definition EXCEP_REG4 :: "nat \<Rightarrow> nat" where [reg_defs]: "EXCEP_REG4 c = 4 * REGSIZE c"
definition EXCEP_REG5 :: "nat \<Rightarrow> nat" where [reg_defs]: "EXCEP_REG5 c = 5 * REGSIZE c"
definition EXCEP_REG6 :: "nat \<Rightarrow> nat" where [reg_defs]: "EXCEP_REG6 c = 6 * REGSIZE c"
definition EXCEP_REG7 :: "nat \<Rightarrow> nat" where [reg_defs]: "EXCEP_REG7 c = 7 * REGSIZE c"
definition EXCEP_REG8 :: "nat \<Rightarrow> nat" where [reg_defs]: "EXCEP_REG8 c = 8 * REGSIZE c"
definition EXCEP_REG9 :: "nat \<Rightarrow> nat" where [reg_defs]: "EXCEP_REG9 c = 9 * REGSIZE c"
definition EXCEP_REG10 :: "nat \<Rightarrow> nat" where [reg_defs]: "EXCEP_REG10 c = 10 * REGSIZE c"
definition EXCEP_REG11 :: "nat \<Rightarrow> nat" where [reg_defs]: "EXCEP_REG11 c = 11 * REGSIZE c"
definition EXCEP_REG12 :: "nat \<Rightarrow> nat" where [reg_defs]: "EXCEP_REG12 c = 12 * REGSIZE c"
definition EXCEP_REG13 :: "nat \<Rightarrow> nat" where [reg_defs]: "EXCEP_REG13 c = 13 * REGSIZE c"
definition EXCEP_REG14 :: "nat \<Rightarrow> nat" where [reg_defs]: "EXCEP_REG14 c = 14 * REGSIZE c"
definition EXCEP_REG15 :: "nat \<Rightarrow> nat" where [reg_defs]: "EXCEP_REG15 c = 15 * REGSIZE c"
definition EXCEP_REG16 :: "nat \<Rightarrow> nat" where [reg_defs]: "EXCEP_REG16 c = 16 * REGSIZE c"
definition EXCEP_REG17 :: "nat \<Rightarrow> nat" where [reg_defs]: "EXCEP_REG17 c = 17 * REGSIZE c"
definition EXCEP_REG18 :: "nat \<Rightarrow> nat" where [reg_defs]: "EXCEP_REG18 c = 18 * REGSIZE c"
definition EXCEP_REG19 :: "nat \<Rightarrow> nat" where [reg_defs]: "EXCEP_REG19 c = 19 * REGSIZE c"
definition EXCEP_REG20 :: "nat \<Rightarrow> nat" where [reg_defs]: "EXCEP_REG20 c = 20 * REGSIZE c"
definition EXCEP_REG21 :: "nat \<Rightarrow> nat" where [reg_defs]: "EXCEP_REG21 c = 21 * REGSIZE c"
definition EXCEP_REG22 :: "nat \<Rightarrow> nat" where [reg_defs]: "EXCEP_REG22 c = 22 * REGSIZE c"
definition EXCEP_REG23 :: "nat \<Rightarrow> nat" where [reg_defs]: "EXCEP_REG23 c = 23 * REGSIZE c"
definition EXCEP_REG24 :: "nat \<Rightarrow> nat" where [reg_defs]: "EXCEP_REG24 c = 24 * REGSIZE c"
definition EXCEP_REG25 :: "nat \<Rightarrow> nat" where [reg_defs]: "EXCEP_REG25 c = 25 * REGSIZE c"
definition EXCEP_REG26 :: "nat \<Rightarrow> nat" where [reg_defs]: "EXCEP_REG26 c = 26 * REGSIZE c"
definition EXCEP_REG27 :: "nat \<Rightarrow> nat" where [reg_defs]: "EXCEP_REG27 c = 26 * REGSIZE c"
definition EXCEP_REG28 :: "nat \<Rightarrow> nat" where [reg_defs]: "EXCEP_REG28 c = 28 * REGSIZE c"
definition EXCEP_REG29 :: "nat \<Rightarrow> nat" where [reg_defs]: "EXCEP_REG29 c = 29 * REGSIZE c"
definition EXCEP_REG30 :: "nat \<Rightarrow> nat" where [reg_defs]: "EXCEP_REG30 c = 30 * REGSIZE c"
definition EXCEP_REG31 :: "nat \<Rightarrow> nat" where [reg_defs]: "EXCEP_REG31 c = 31 * REGSIZE c"
definition EXCEP_LO :: "nat \<Rightarrow> nat" where [reg_defs]: "EXCEP_LO c = 32 * REGSIZE c"
definition EXCEP_HI :: "nat \<Rightarrow> nat" where [reg_defs]: "EXCEP_HI c = 33 * REGSIZE c"
definition EXCEP_CP0_STATUS :: "nat \<Rightarrow> nat" where [reg_defs]: "EXCEP_CP0_STATUS c = 34 * REGSIZE c"
definition EXCEP_CP0_BADVADDR :: "nat \<Rightarrow> nat" where [reg_defs]: "EXCEP_CP0_BADVADDR c = 35 * REGSIZE c"
definition EXCEP_CP0_CAUSE :: "nat \<Rightarrow> nat" where [reg_defs]: "EXCEP_CP0_CAUSE c = 36 * REGSIZE c"
definition EXCEP_CP0_EPC :: "nat \<Rightarrow> nat" where [reg_defs]: "EXCEP_CP0_EPC c = 37 * REGSIZE c"
definition EXCEP_CP0_INDEX :: "nat \<Rightarrow> nat" where [reg_defs]: "EXCEP_CP0_INDEX c = 38 * REGSIZE c"
definition EXCEP_CP0_RANDOM :: "nat \<Rightarrow> nat" where [reg_defs]: "EXCEP_CP0_RANDOM c = 39 * REGSIZE c"
definition EXCEP_CP0_ENTRYLO0 :: "nat \<Rightarrow> nat" where [reg_defs]: "EXCEP_CP0_ENTRYLO0 c = 40 * REGSIZE c"
definition EXCEP_CP0_ENTRYLO1 :: "nat \<Rightarrow> nat" where [reg_defs]: "EXCEP_CP0_ENTRYLO1 c = 41 * REGSIZE c"
definition EXCEP_CP0_CONTEXT :: "nat \<Rightarrow> nat" where [reg_defs]: "EXCEP_CP0_CONTEXT c = 42 * REGSIZE c"
definition EXCEP_CP0_PAGEMASK :: "nat \<Rightarrow> nat" where [reg_defs]: "EXCEP_CP0_PAGEMASK c = 43 * REGSIZE c"
definition EXCEP_CP0_WIRED :: "nat \<Rightarrow> nat" where [reg_defs]: "EXCEP_CP0_WIRED c = 44 * REGSIZE c"
definition EXCEP_CP0_COUNT :: "nat \<Rightarrow> nat" where [reg_defs]: "EXCEP_CP0_COUNT c = 45 * REGSIZE c"
definition EXCEP_CP0_ENTRYHI :: "nat \<Rightarrow> nat" where [reg_defs]: "EXCEP_CP0_ENTRYHI c = 46 * REGSIZE c"
definition EXCEP_CP0_COMPARE :: "nat \<Rightarrow> nat" where [reg_defs]: "EXCEP_CP0_COMPARE c = 47 * REGSIZE c"
definition EXCEP_CP0_PRID :: "nat \<Rightarrow> nat" where [reg_defs]: "EXCEP_CP0_PRID c = 48 * REGSIZE c"
definition EXCEP_CP0_ERROREPC :: "nat \<Rightarrow> nat" where [reg_defs]: "EXCEP_CP0_ERROREPC c = 49 * REGSIZE c"
definition EXCEP_CP0_CONFIG :: "nat \<Rightarrow> nat" where [reg_defs]: "EXCEP_CP0_CONFIG c = 50 * REGSIZE c"
definition EXCEP_CP0_CONFIG1 :: "nat \<Rightarrow> nat" where [reg_defs]: "EXCEP_CP0_CONFIG1 c = 51 * REGSIZE c"
definition EXCEP_CP0_WATCHLO :: "nat \<Rightarrow> nat" where [reg_defs]: "EXCEP_CP0_WATCHLO c = 52 * REGSIZE c"
definition EXCEP_CP0_WATCHHI :: "nat \<Rightarrow> nat" where [reg_defs]: "EXCEP_CP0_WATCHHI c = 53 * REGSIZE c"
definition EXCEP_CP0_DEPC :: "nat \<Rightarrow> nat" where [reg_defs]: "EXCEP_CP0_DEPC c = 54 * REGSIZE c"
definition EXCEP_SIZE_CONTEXT :: "nat \<Rightarrow> nat" where [reg_defs]: "EXCEP_SIZE_CONTEXT c = 55 * REGSIZE c"

text \<open>The members of the structure in order; all have the size of a register.\<close>

datatype excep_member =
    reg nat | lo | hi | cp0_status | cp0_badvaddr | cp0_cause | cp0_epc | cp0_index | cp0_random
  | cp0_entrylo0 | cp0_entrylo1 | cp0_context | cp0_pagemask | cp0_wired | cp0_entryhi | cp0_prid
  | cp0_errorepc | cp0_config | cp0_config1 | cp0_watchlo | cp0_watchhi | cp0_debug | cp0_depc

definition excep_context :: "excep_member list" where
  "excep_context = map reg [0..<32] @ [lo, hi, cp0_status, cp0_badvaddr, cp0_cause, cp0_epc, cp0_index,
     cp0_random, cp0_entrylo0, cp0_entrylo1, cp0_context, cp0_pagemask, cp0_wired, cp0_entryhi, cp0_prid,
     cp0_errorepc, cp0_config, cp0_config1, cp0_watchlo, cp0_watchhi, cp0_debug, cp0_depc]"

text \<open>The offset of a member in the structure: the size of the members before it.\<close>

definition excep_offset :: "nat \<Rightarrow> excep_member \<Rightarrow> nat" where
  "excep_offset c x = REGSIZE c * length (takeWhile (\<lambda>y. y \<noteq> x) excep_context)"

definition excep_defines :: "nat \<Rightarrow> (excep_member \<times> nat) list" where
  "excep_defines c = [(reg 0, EXCEP_REG0 c), (reg 1, EXCEP_REG1 c), (reg 2, EXCEP_REG2 c),
     (reg 3, EXCEP_REG3 c), (reg 4, EXCEP_REG4 c), (reg 5, EXCEP_REG5 c),
     (reg 6, EXCEP_REG6 c), (reg 7, EXCEP_REG7 c), (reg 8, EXCEP_REG8 c),
     (reg 9, EXCEP_REG9 c), (reg 10, EXCEP_REG10 c), (reg 11, EXCEP_REG11 c),
     (reg 12, EXCEP_REG12 c), (reg 13, EXCEP_REG13 c), (reg 14, EXCEP_REG14 c),
     (reg 15, EXCEP_REG15 c), (reg 16, EXCEP_REG16 c), (reg 17, EXCEP_REG17 c),
     (reg 18, EXCEP_REG18 c), (reg 19, EXCEP_REG19 c), (reg 20, EXCEP_REG20 c),
     (reg 21, EXCEP_REG21 c), (reg 22, EXCEP_REG22 c), (reg 23, EXCEP_REG23 c),
     (reg 24, EXCEP_REG24 c), (reg 25, EXCEP_REG25 c), (reg 26, EXCEP_REG26 c),
     (reg 27, EXCEP_REG27 c), (reg 28, EXCEP_REG28 c), (reg 29, EXCEP_REG29 c),
     (reg 30, EXCEP_REG30 c), (reg 31, EXCEP_REG31 c), (lo, EXCEP_LO c),
     (hi, EXCEP_HI c), (cp0_status, EXCEP_CP0_STATUS c), (cp0_badvaddr, EXCEP_CP0_BADVADDR c),
     (cp0_cause, EXCEP_CP0_CAUSE c), (cp0_epc, EXCEP_CP0_EPC c), (cp0_index, EXCEP_CP0_INDEX c),
     (cp0_random, EXCEP_CP0_RANDOM c), (cp0_entrylo0, EXCEP_CP0_ENTRYLO0 c), (cp0_entrylo1, EXCEP_CP0_ENTRYLO1 c),
     (cp0_context, EXCEP_CP0_CONTEXT c), (cp0_pagemask, EXCEP_CP0_PAGEMASK c), (cp0_wired, EXCEP_CP0_WIRED c),
     (cp0_entryhi, EXCEP_CP0_ENTRYHI c), (cp0_prid, EXCEP_CP0_PRID c), (cp0_errorepc, EXCEP_CP0_ERROREPC c),
     (cp0_config, EXCEP_CP0_CONFIG c), (cp0_config1, EXCEP_CP0_CONFIG1 c), (cp0_watchlo, EXCEP_CP0_WATCHLO c),
     (cp0_watchhi, EXCEP_CP0_WATCHHI c), (cp0_depc, EXCEP_CP0_DEPC c)]"


end
