(* ===== verification/Cache.thy ===== *)
theory Cache
  imports Prelude
begin

unbundle bit_operations_syntax

section \<open>Cache maintenance (arch/mips32/mips32\_cache.c)\<close>

text \<open>
  The three loops of \<^verbatim>\<open>mips32_cache.c\<close>, for a build with a cached KSEG0. The \<^verbatim>\<open>cache\<close> instruction belongs to
  the processor: it is the parameter \<open>cache_op\<close>, from the operation and the address to a step of the state.
\<close>

definition CONFIG_SYS_CACHELINE_SIZE :: u32 where [reg_defs]: "CONFIG_SYS_CACHELINE_SIZE = 32"
definition Hit_Invalidate_I :: u32 where [reg_defs]: "Hit_Invalidate_I = 0x10"
definition Hit_Invalidate_D :: u32 where [reg_defs]: "Hit_Invalidate_D = 0x11"
definition Hit_Writeback_Inv_D :: u32 where [reg_defs]: "Hit_Writeback_Inv_D = 0x15"

text \<open>The \<open>while (1)\<close> of all three, around the operations \<open>body\<close> on one line.\<close>

partial_function (option) cache_loop :: "(u32 \<Rightarrow> 's \<Rightarrow> 's) \<Rightarrow> u32 \<Rightarrow> u32 \<Rightarrow> u32 \<Rightarrow> 's \<Rightarrow> 's option" where
  "cache_loop body lsize aend addr s =
     (let s = body addr s in if addr = aend then Some s else cache_loop body lsize aend (addr + lsize) s)"

definition flush_cache :: "(u32 \<Rightarrow> u32 \<Rightarrow> 's \<Rightarrow> 's) \<Rightarrow> u32 \<Rightarrow> u32 \<Rightarrow> 's \<Rightarrow> 's option" where
  "flush_cache cache_op start size0 s =
     (let lsize = CONFIG_SYS_CACHELINE_SIZE;
          addr = start AND NOT (lsize - 1);
          aend = (start + size0 - 1) AND NOT (lsize - 1)
      in cache_loop (\<lambda>addr s. cache_op Hit_Invalidate_I addr (cache_op Hit_Writeback_Inv_D addr s)) lsize aend addr s)"

definition flush_dcache_range :: "(u32 \<Rightarrow> u32 \<Rightarrow> 's \<Rightarrow> 's) \<Rightarrow> u32 \<Rightarrow> u32 \<Rightarrow> 's \<Rightarrow> 's option" where
  "flush_dcache_range cache_op start stop s =
     (let lsize = CONFIG_SYS_CACHELINE_SIZE;
          addr = start AND NOT (lsize - 1);
          aend = (stop - 1) AND NOT (lsize - 1)
      in cache_loop (cache_op Hit_Writeback_Inv_D) lsize aend addr s)"

definition invalidate_dcache_range :: "(u32 \<Rightarrow> u32 \<Rightarrow> 's \<Rightarrow> 's) \<Rightarrow> u32 \<Rightarrow> u32 \<Rightarrow> 's \<Rightarrow> 's option" where
  "invalidate_dcache_range cache_op start stop s =
     (let lsize = CONFIG_SYS_CACHELINE_SIZE;
          addr = start AND NOT (lsize - 1);
          aend = (stop - 1) AND NOT (lsize - 1)
      in cache_loop (cache_op Hit_Invalidate_D) lsize aend addr s)"

subsection \<open>Lines\<close>

definition line_of :: "u32 \<Rightarrow> u32" where
  "line_of a = a AND NOT 0x1F"

lemma unat_of_nat_small: "n < 2 ^ 32 \<Longrightarrow> unat (of_nat n :: u32) = n"
  by (simp add: unsigned_of_nat take_bit_nat_eq_self)

lemma line_of_nat: "line_of a = of_nat (32 * (unat a div 32))"
proof -
  have m: "(0x1F :: u32) = mask 5" by (simp add: mask_eq_exp_minus_1)
  have "line_of a = push_bit 5 (drop_bit 5 a)"
    unfolding line_of_def m by (rule bit_word_eqI) (auto simp: bit_simps)
  also have "drop_bit 5 a = of_nat (unat a div 32)"
    by (simp add: drop_bit_eq_div word_arith_nat_div)
  finally show ?thesis by (simp add: push_bit_eq_mult)
qed

lemma unat_line_of: "unat (line_of a) = 32 * (unat a div 32)"
proof -
  have "32 * (unat a div 32) \<le> unat a" by simp
  also have "unat a < 2 ^ 32" using unsigned_less [of a] by simp
  finally show ?thesis unfolding line_of_nat by (rule unat_of_nat_small)
qed

text \<open>The loop takes \<open>k\<close> steps of a line, around the end of the address space if need be.\<close>

lemma cache_loop_lines:
  assumes "k < 2 ^ 27"
  shows "cache_loop body 32 (addr + of_nat (32 * k)) addr s = Some (fold body (map (\<lambda>i. addr + of_nat (32 * i)) [0..<Suc k]) s)"
  using assms
proof (induction k arbitrary: addr s)
  case 0
  then show ?case by (subst cache_loop.simps) simp
next
  case (Suc k)
  have "unat (of_nat (32 * Suc k) :: u32) = 32 * Suc k"
    using Suc.prems by (intro unat_of_nat_small) simp
  then have "(of_nat (32 * Suc k) :: u32) \<noteq> 0" by (metis mult_eq_0_iff nat.simps(3) unsigned_0 zero_neq_numeral)
  then have ne: "addr \<noteq> addr + of_nat (32 * Suc k)" by (metis add_cancel_left_right)
  have e: "addr + of_nat (32 * Suc k) = addr + 32 + of_nat (32 * k)" by (simp add: algebra_simps)
  have "cache_loop body 32 (addr + of_nat (32 * Suc k)) addr s
      = cache_loop body 32 (addr + of_nat (32 * Suc k)) (addr + 32) (body addr s)"
    by (subst cache_loop.simps) (simp only: Let_def ne if_False)
  also have "\<dots> = Some (fold body (map (\<lambda>i. addr + 32 + of_nat (32 * i)) [0..<Suc k]) (body addr s))"
    unfolding e using Suc.IH Suc.prems by simp
  also have "map (\<lambda>i. addr + 32 + of_nat (32 * i)) [0..<Suc k] = map (\<lambda>i. addr + of_nat (32 * i)) [1..<Suc (Suc k)]"
    by (simp add: map_Suc_upt [symmetric] algebra_simps del: upt_Suc)
  finally show ?case
    by (simp add: upt_conv_Cons [of 0] del: upt_Suc)
qed

lemmas cache_defs = flush_cache_def flush_dcache_range_def invalidate_dcache_range_def reg_defs Let_def

text \<open>The lines of a range that is not empty.\<close>

definition range_lines :: "u32 \<Rightarrow> u32 \<Rightarrow> u32 list" where
  "range_lines start stop = map (\<lambda>i. line_of start + of_nat (32 * i)) [0..<Suc ((unat stop - 1) div 32 - unat start div 32)]"

lemma range_end:
  assumes "start < stop"
  shows "line_of (stop - 1) = line_of start + of_nat (32 * ((unat stop - 1) div 32 - unat start div 32))"
    "(unat stop - 1) div 32 - unat start div 32 < 2 ^ 27"
proof -
  have lt: "unat start < unat stop" using assms by (simp add: word_less_nat_alt)
  have u: "unat (stop - 1) = unat stop - 1"
    using assms by (intro unat_minus_one) auto
  have le: "unat start div 32 \<le> (unat stop - 1) div 32"
    using lt by (intro div_le_mono) simp
  then have "of_nat (32 * ((unat stop - 1) div 32)) =
    (of_nat (32 * (unat start div 32)) + of_nat (32 * ((unat stop - 1) div 32 - unat start div 32)) :: u32)"
    unfolding of_nat_add [symmetric] by (simp add: algebra_simps diff_mult_distrib2)
  then show "line_of (stop - 1) = line_of start + of_nat (32 * ((unat stop - 1) div 32 - unat start div 32))"
    by (simp add: line_of_nat u)
  have "unat stop < 2 ^ 32" using unsigned_less [of stop] by simp
  then have "(unat stop - 1) div 32 < 2 ^ 27" by (simp add: less_mult_imp_div_less)
  then show "(unat stop - 1) div 32 - unat start div 32 < 2 ^ 27" by simp
qed

lemma range_lines_set:
  assumes "start < stop"
  shows "set (range_lines start stop) = line_of ` {start..<stop}" "distinct (range_lines start stop)"
proof -
  let ?p = "unat start div 32" and ?q = "(unat stop - 1) div 32"
  have lt: "unat start < unat stop" using assms by (simp add: word_less_nat_alt)
  have s32: "unat stop < 2 ^ 32" using unsigned_less [of stop] by simp
  have le: "?p \<le> ?q" using lt by (intro div_le_mono) simp
  have q: "?q < 2 ^ 27" using s32 by (simp add: less_mult_imp_div_less)
  have l: "range_lines start stop = map (\<lambda>i. of_nat (32 * (?p + i))) [0..<Suc (?q - ?p)]"
    by (simp add: range_lines_def line_of_nat algebra_simps)
  have u: "unat (of_nat (32 * (?p + i)) :: u32) = 32 * (?p + i)" if "i < Suc (?q - ?p)" for i
  proof (rule unat_of_nat_small)
    have "?p + i \<le> ?q" using that le by linarith
    then show "32 * (?p + i) < 2 ^ 32" using q by simp
  qed
  show "distinct (range_lines start stop)"
    unfolding l distinct_map using u by (auto intro!: inj_onI simp del: of_nat_mult of_nat_add dest!: arg_cong [where f = unat])
  show "set (range_lines start stop) = line_of ` {start..<stop}"
  proof (intro set_eqI iffI)
    fix w assume "w \<in> set (range_lines start stop)"
    then obtain i where i: "i < Suc (?q - ?p)" "w = of_nat (32 * (?p + i))"
      unfolding l set_map set_upt by (elim imageE) (blast dest: atLeastLessThan_iff [THEN iffD1])
    define b where "b = max (unat start) (32 * (?p + i))"
    have "?p + i \<le> ?q" using i(1) le by linarith
    then have "32 * (?p + i) \<le> unat stop - 1" by (metis div_times_less_eq_dividend le_trans mult.commute mult_le_mono2)
    then have b: "unat start \<le> b" "b < unat stop" "b < 2 ^ 32" using lt s32 by (auto simp: b_def)
    have "b div 32 = ?p + i" by (auto simp: b_def max_def)
    then have "line_of (of_nat b) = w" using i(2) b by (simp add: line_of_nat unat_of_nat_small)
    moreover have "of_nat b \<in> {start..<stop}"
      using b by (simp add: word_le_nat_alt word_less_nat_alt unat_of_nat_small)
    ultimately show "w \<in> line_of ` {start..<stop}" by blast
  next
    fix w assume "w \<in> line_of ` {start..<stop}"
    then obtain a where a: "start \<le> a" "a < stop" "w = of_nat (32 * (unat a div 32))" by (auto simp: line_of_nat)
    have "?p \<le> unat a div 32" "unat a div 32 \<le> ?q"
      using a(1,2) by (auto simp: word_le_nat_alt word_less_nat_alt intro!: div_le_mono)
    then have "?p + (unat a div 32 - ?p) = unat a div 32" "unat a div 32 - ?p < Suc (?q - ?p)" by linarith+
    then show "w \<in> set (range_lines start stop)"
      unfolding l set_map set_upt by (intro image_eqI [of _ _ "unat a div 32 - ?p"]) (simp_all only: a(3) atLeastLessThan_iff le0 simp_thms)
  qed
qed

text \<open>The three loops of a range that is not empty.\<close>

lemma cache_loop_range:
  assumes "start < stop"
  shows "cache_loop body 32 (line_of (stop - 1)) (line_of start) s = Some (fold body (range_lines start stop) s)"
  unfolding range_end(1) [OF assms] range_lines_def
  by (rule cache_loop_lines [OF range_end(2) [OF assms]])

lemma cache_loop_unfold:
  "flush_cache cop start size0 s =
     cache_loop (\<lambda>a s. cop Hit_Invalidate_I a (cop Hit_Writeback_Inv_D a s)) 32 (line_of (start + size0 - 1)) (line_of start) s"
  "flush_dcache_range cop start stop s = cache_loop (cop Hit_Writeback_Inv_D) 32 (line_of (stop - 1)) (line_of start) s"
  "invalidate_dcache_range cop start stop s = cache_loop (cop Hit_Invalidate_D) 32 (line_of (stop - 1)) (line_of start) s"
  by (simp_all add: flush_cache_def flush_dcache_range_def invalidate_dcache_range_def line_of_def Let_def
      CONFIG_SYS_CACHELINE_SIZE_def)

text \<open>
  C24. For a range of addresses that is not empty the three functions of \<^verbatim>\<open>mips32_cache.c\<close> return, and they perform
  their operations once on each cache line that holds an address of the range and on no other line, in the order of
  the addresses. The range of \<open>flush_cache\<close> is given by its length and may not wrap.
\<close>

theorem cache_ranges:
  assumes "start < stop"
  shows "\<exists>ls. distinct ls \<and> set ls = line_of ` {start..<stop} \<and>
    flush_dcache_range cop start stop s = Some (fold (cop Hit_Writeback_Inv_D) ls s) \<and>
    invalidate_dcache_range cop start stop s = Some (fold (cop Hit_Invalidate_D) ls s) \<and>
    flush_cache cop start (stop - start) s =
      Some (fold (\<lambda>a s. cop Hit_Invalidate_I a (cop Hit_Writeback_Inv_D a s)) ls s)"
  using range_lines_set [OF assms] by (intro exI [of _ "range_lines start stop"])
    (simp add: cache_loop_unfold cache_loop_range [OF assms])

theorem cache_ranges_witness:
  "\<exists>ls. distinct ls \<and> set ls = line_of ` {0x80000014..<0x80000041} \<and>
    flush_dcache_range (\<lambda>c a t. t @ [(c, a)]) 0x80000014 0x80000041 [] = Some (fold (\<lambda>a t. t @ [(Hit_Writeback_Inv_D, a)]) ls []) \<and>
    invalidate_dcache_range (\<lambda>c a t. t @ [(c, a)]) 0x80000014 0x80000041 [] = Some (fold (\<lambda>a t. t @ [(Hit_Invalidate_D, a)]) ls []) \<and>
    flush_cache (\<lambda>c a t. t @ [(c, a)]) 0x80000014 (0x80000041 - 0x80000014) [] =
      Some (fold (\<lambda>a t. (t @ [(Hit_Writeback_Inv_D, a)]) @ [(Hit_Invalidate_I, a)]) ls [])"
  by (rule cache_ranges) simp

text \<open>All lines, from any of them.\<close>

lemma line_of_aligned:
  assumes "a AND 0x1F = 0"
  shows "line_of a = a"
  unfolding line_of_def
proof (rule bit_word_eqI)
  fix n assume "n < LENGTH(32)"
  have "bit (a AND 0x1F) n = False" using assms by simp
  then show "bit (a AND NOT 0x1F) n = bit a n"
    using \<open>n < LENGTH(32)\<close> by (auto simp only: bit_and_iff bit_not_iff possible_bit_word)
qed

lemma of_nat_wrap: "(of_nat (n + 2 ^ 32) :: u32) = of_nat n"
proof -
  have "(of_nat (2 ^ 32) :: u32) = 0" by simp
  then show ?thesis unfolding of_nat_add by simp
qed

lemma line_cases:
  assumes "line_of a = a"
  obtains q where "a = of_nat (32 * q)" "q < 2 ^ 27"
proof
  have "unat a < 2 ^ 32" using unsigned_less [of a] by simp
  then show "unat a div 32 < 2 ^ 27" by (simp add: less_mult_imp_div_less)
  show "a = of_nat (32 * (unat a div 32))" using assms by (simp only: line_of_nat)
qed

lemma line_of_mult: "line_of (of_nat (32 * p)) = of_nat (32 * p)"
proof -
  let ?w = "of_nat (32 * p) :: u32"
  have "unat ?w = 32 * p mod 2 ^ 32" by (simp only: unsigned_of_nat take_bit_eq_mod) simp
  also have "\<dots> = 32 * (p mod 2 ^ 27)" using mult_mod_right [of 32 p "2 ^ 27"] by simp
  finally have u: "unat ?w = 32 * (p mod 2 ^ 27)" .
  have "line_of ?w = of_nat (32 * (unat ?w div 32))" by (rule line_of_nat)
  also have "32 * (unat ?w div 32) = unat ?w" by (simp only: u) simp
  finally show ?thesis by simp
qed

lemma line_before:
  assumes "line_of a = a"
  shows "line_of (a - 1) = a + of_nat (32 * (2 ^ 27 - 1))"
proof -
  obtain q where a: "a = of_nat (32 * q)" and q: "q < 2 ^ 27" using assms by (rule line_cases)
  show ?thesis
  proof (cases q)
    case 0
    then show ?thesis by (simp add: a line_of_def)
  next
    case (Suc p)
    have p: "32 * p + 31 < 2 ^ 32" using q Suc by simp
    have "a - 1 = of_nat (32 * p + 31)" by (simp add: a Suc)
    then have "line_of (a - 1) = of_nat (32 * ((32 * p + 31) div 32))" using p by (simp only: line_of_nat unat_of_nat_small)
    also have "(32 * p + 31) div 32 = p" by simp
    also have "(of_nat (32 * p) :: u32) = of_nat (32 * q + 32 * (2 ^ 27 - 1))"
      by (subst of_nat_wrap [symmetric]) (simp add: Suc)
    finally show ?thesis by (simp only: a of_nat_add)
  qed
qed

lemma all_lines:
  assumes "line_of a = a"
  shows "distinct (map (\<lambda>i. a + of_nat (32 * i)) [0..<Suc (2 ^ 27 - 1)])"
    "set (map (\<lambda>i. a + of_nat (32 * i)) [0..<Suc (2 ^ 27 - 1)]) = range line_of"
proof -
  obtain q where a: "a = of_nat (32 * q)" and q: "q < 2 ^ 27" using assms by (rule line_cases)
  have "i = j" if "i < 2 ^ 27" "j < 2 ^ 27" "(of_nat (32 * i) :: u32) = of_nat (32 * j)" for i j
  proof -
    have "32 * i < 2 ^ 32" "32 * j < 2 ^ 32" using that(1,2) by simp_all
    then have "32 * i = 32 * j" using that(3) by (metis unat_of_nat_small)
    then show ?thesis by simp
  qed
  then have inj: "inj_on (\<lambda>i. a + of_nat (32 * i)) {0..<2 ^ 27}"
    by (intro inj_onI) (simp only: add_left_cancel atLeastLessThan_iff)
  have b: "Suc (2 ^ 27 - 1) = (2 ^ 27 :: nat)" by simp
  show "distinct (map (\<lambda>i. a + of_nat (32 * i)) [0..<Suc (2 ^ 27 - 1)])"
    unfolding b distinct_map set_upt using inj by (simp only: distinct_upt simp_thms)
  have "a + of_nat (32 * i) = line_of (of_nat (32 * (q + i)))" for i
    unfolding line_of_mult by (simp only: a distrib_left of_nat_add)
  moreover have "\<exists>i<2 ^ 27. line_of w = a + of_nat (32 * i)" for w
  proof -
    define p where "p = unat w div 32"
    have "unat w < 2 ^ 32" using unsigned_less [of w] by simp
    then have p: "p < 2 ^ 27" by (simp add: p_def less_mult_imp_div_less)
    show ?thesis
    proof (cases "q \<le> p")
      case True
      then have "line_of w = a + of_nat (32 * (p - q))"
        by (simp only: line_of_nat a p_def [symmetric] of_nat_add [symmetric] distrib_left [symmetric] le_add_diff_inverse)
      then show ?thesis using p by (intro exI [of _ "p - q"]) simp
    next
      case False
      then have "32 * q + 32 * (p + 2 ^ 27 - q) = 32 * p + 2 ^ 32" using q by simp
      then have "line_of w = a + of_nat (32 * (p + 2 ^ 27 - q))"
        by (simp only: line_of_nat a p_def [symmetric] of_nat_add [symmetric] of_nat_wrap)
      then show ?thesis using False q by (intro exI [of _ "p + 2 ^ 27 - q"]) simp
    qed
  qed
  ultimately show "set (map (\<lambda>i. a + of_nat (32 * i)) [0..<Suc (2 ^ 27 - 1)]) = range line_of"
    unfolding b set_map set_upt by (fastforce simp only: image_iff atLeastLessThan_iff)
qed

text \<open>
  A range that is empty and starts at a line (\<open>stop = start\<close>, or \<open>size = 0\<close>) is not left alone: the last line lies
  before the first one, so all three functions walk around the address space and perform their operations on
  every one of its \<open>2 ^ 27\<close> lines.
\<close>

theorem cache_empty_range_sweeps:
  assumes "start AND 0x1F = 0"
  shows "\<exists>ls. distinct ls \<and> set ls = range line_of \<and>
    flush_dcache_range cop start start s = Some (fold (cop Hit_Writeback_Inv_D) ls s) \<and>
    invalidate_dcache_range cop start start s = Some (fold (cop Hit_Invalidate_D) ls s) \<and>
    flush_cache cop start 0 s = Some (fold (\<lambda>a s. cop Hit_Invalidate_I a (cop Hit_Writeback_Inv_D a s)) ls s)"
proof -
  define ls where "ls = map (\<lambda>i. start + of_nat (32 * i)) [0..<Suc (2 ^ 27 - 1)]"
  have al: "line_of start = start" using assms by (rule line_of_aligned)
  have e: "line_of (start - 1) = start + of_nat (32 * (2 ^ 27 - 1))" using al by (rule line_before)
  have l: "cache_loop body 32 (line_of (start - 1)) (line_of start) s = Some (fold body ls s)" for body
    unfolding e ls_def al by (rule cache_loop_lines) simp
  have "distinct ls" "set ls = range line_of" using all_lines [OF al] by (simp_all add: ls_def)
  with l show ?thesis by (intro exI [of _ ls]) (simp add: cache_loop_unfold)
qed

theorem cache_empty_range_sweeps_witness:
  "\<exists>ls. distinct ls \<and> set ls = range line_of \<and>
    flush_dcache_range (\<lambda>c a t. t @ [(c, a)]) 0x80000020 0x80000020 [] = Some (fold (\<lambda>a t. t @ [(Hit_Writeback_Inv_D, a)]) ls []) \<and>
    invalidate_dcache_range (\<lambda>c a t. t @ [(c, a)]) 0x80000020 0x80000020 [] = Some (fold (\<lambda>a t. t @ [(Hit_Invalidate_D, a)]) ls []) \<and>
    flush_cache (\<lambda>c a t. t @ [(c, a)]) 0x80000020 0 [] =
      Some (fold (\<lambda>a t. (t @ [(Hit_Writeback_Inv_D, a)]) @ [(Hit_Invalidate_I, a)]) ls [])"
  by (rule cache_empty_range_sweeps) simp

end
