(* ===== verification/Timer.thy ===== *)
theory Timer
  imports Prelude
begin

unbundle bit_operations_syntax

section \<open>The polled timer (boot/soc\_landshark/timer\_ram.c)\<close>

text \<open>
  The timer without interrupts behind \<^verbatim>\<open>#if 0\<close> in \<^verbatim>\<open>timer_ram.c\<close>: a time stamp in jiffies, counted from the
  count and compare registers whenever somebody asks. The registers of the coprocessor and the system controller are
  the parameter \<open>cp0\<close>; the constants of U-Boot headers that are not in the repository are the record
  \<open>timer_config\<close>.
\<close>

record timer_config =
  IS_VX185FAMILY :: bool
  CONFIG_SYS_HZ :: u32
  CONFIG_SYS_MIPS_TIMER_FREQ :: u32
  CONFIG_SYS_MIPS_VX183_TIMER_FREQ :: u32
  CHIP_7183 :: u32
  CHIP_7173 :: u32

record 'd cp0 =
  read_sys_ctrl :: "'d \<Rightarrow> u32 \<times> 'd"
  read_c0_count :: "'d \<Rightarrow> u32 \<times> 'd"
  read_c0_compare :: "'d \<Rightarrow> u32 \<times> 'd"
  write_c0_compare :: "u32 \<Rightarrow> 'd \<Rightarrow> 'd"

record 'd timer =
  timestamp :: u32
  mips_timer_freq :: u32
  cop :: 'd

definition cycles_per_jiffy :: "timer_config \<Rightarrow> 'd timer \<Rightarrow> u32" where
  "cycles_per_jiffy tc s = (mips_timer_freq s + CONFIG_SYS_HZ tc div 2) div CONFIG_SYS_HZ tc"

definition set_mips_timer_freqency :: "timer_config \<Rightarrow> 'd cp0 \<Rightarrow> 'd timer \<Rightarrow> 'd timer" where
  "set_mips_timer_freqency tc P s =
     (if IS_VX185FAMILY tc
      then let (v, d) = read_sys_ctrl P (cop s);
               s = s\<lparr>cop := d\<rparr>;
               chip_type = drop_bit 4 v AND 0x07
           in if chip_type = CHIP_7183 tc \<or> chip_type = CHIP_7173 tc
              then s\<lparr>mips_timer_freq := CONFIG_SYS_MIPS_VX183_TIMER_FREQ tc\<rparr> else s
      else s)"

definition timer_init :: "timer_config \<Rightarrow> 'd cp0 \<Rightarrow> 'd timer \<Rightarrow> u32 \<times> 'd timer" where
  "timer_init tc P s =
     (let s = set_mips_timer_freqency tc P s;
          s = s\<lparr>timestamp := 0\<rparr>;
          (c, d) = read_c0_count P (cop s)
      in (0, s\<lparr>cop := write_c0_compare P (c + cycles_per_jiffy tc s) d\<rparr>))"

definition reset_timer :: "timer_config \<Rightarrow> 'd cp0 \<Rightarrow> 'd timer \<Rightarrow> 'd timer" where
  "reset_timer tc P s =
     (let s = set_mips_timer_freqency tc P s;
          s = s\<lparr>timestamp := 0\<rparr>;
          (c, d) = read_c0_count P (cop s)
      in s\<lparr>cop := write_c0_compare P (c + cycles_per_jiffy tc s) d\<rparr>)"

partial_function (option) get_timer_loop :: "u32 \<Rightarrow> u32 \<Rightarrow> u32 \<Rightarrow> u32 \<Rightarrow> (u32 \<times> u32) option" where
  "get_timer_loop cyc count expirelo stamp =
     (if count - expirelo < 0x7fffffff then get_timer_loop cyc count (expirelo + cyc) (stamp + 1)
      else Some (expirelo, stamp))"

definition get_timer :: "timer_config \<Rightarrow> 'd cp0 \<Rightarrow> u32 \<Rightarrow> 'd timer \<Rightarrow> (u32 \<times> 'd timer) option" where
  "get_timer tc P base s = do {
     let (expirelo, d) = read_c0_compare P (cop s);
     let s = set_mips_timer_freqency tc P (s\<lparr>cop := d\<rparr>);
     let (count, d) = read_c0_count P (cop s);
     (expirelo, stamp) \<leftarrow> get_timer_loop (cycles_per_jiffy tc s) count expirelo (timestamp s);
     Some (stamp - base, s\<lparr>timestamp := stamp, cop := write_c0_compare P expirelo d\<rparr>)
   }"

definition set_timer :: "timer_config \<Rightarrow> 'd cp0 \<Rightarrow> u32 \<Rightarrow> 'd timer \<Rightarrow> 'd timer" where
  "set_timer tc P t s =
     (let s = set_mips_timer_freqency tc P (s\<lparr>timestamp := t\<rparr>);
          (_, d) = read_c0_count P (cop s);
          (c, d) = read_c0_count P d
      in s\<lparr>cop := write_c0_compare P (c + cycles_per_jiffy tc s) d\<rparr>)"

partial_function (option) udelay_loop :: "'d cp0 \<Rightarrow> u32 \<Rightarrow> 'd timer \<Rightarrow> 'd timer option" where
  "udelay_loop P tmo s =
     (let (c, d) = read_c0_count P (cop s); s = s\<lparr>cop := d\<rparr>
      in if tmo - c < 0x7fffffff then udelay_loop P tmo s else Some s)"

definition udelay :: "'d cp0 \<Rightarrow> u32 \<Rightarrow> 'd timer \<Rightarrow> 'd timer option" where
  "udelay P usec s =
     (let (c, d) = read_c0_count P (cop s)
      in udelay_loop P (c + usec * (mips_timer_freq s div 1000000)) (s\<lparr>cop := d\<rparr>))"

definition get_ticks :: "timer_config \<Rightarrow> 'd cp0 \<Rightarrow> 'd timer \<Rightarrow> (u64 \<times> 'd timer) option" where
  "get_ticks tc P s = map_option (\<lambda>(t, s). (ucast t, s)) (get_timer tc P 0 s)"

definition get_tbclk :: "timer_config \<Rightarrow> u32" where
  "get_tbclk tc = CONFIG_SYS_HZ tc"

subsection \<open>The loop of \<open>get_timer\<close>\<close>

text \<open>Either the deadline lies ahead, or it is moved to the first multiple of the jiffy after the count.\<close>

lemma get_timer_loop_ahead:
  "\<not> count - expirelo < 0x7fffffff \<Longrightarrow> get_timer_loop cyc count expirelo stamp = Some (expirelo, stamp)"
  by (subst get_timer_loop.simps) simp

lemma get_timer_loop_late:
  assumes "unat (count - expirelo) < 0x7fffffff" "0 < unat cyc" "unat cyc \<le> 2 ^ 31"
    and "n = unat (count - expirelo) div unat cyc + 1"
  shows "get_timer_loop cyc count expirelo stamp = Some (expirelo + of_nat n * cyc, stamp + of_nat n)"
  using assms(1,4)
proof (induction n arbitrary: expirelo stamp)
  case (Suc n)
  let ?d = "unat (count - expirelo)" and ?c = "unat cyc"
  have late: "count - expirelo < 0x7fffffff" using Suc.prems(1) by (simp add: word_less_nat_alt)
  have step: "get_timer_loop cyc count expirelo stamp = get_timer_loop cyc count (expirelo + cyc) (stamp + 1)"
    using late by (subst get_timer_loop.simps) simp
  have diff: "count - (expirelo + cyc) = (count - expirelo) - cyc" by simp
  show ?case
  proof (cases "?c \<le> ?d")
    case True
    then have u: "unat (count - (expirelo + cyc)) = ?d - ?c"
      unfolding diff by (simp add: unat_sub word_le_nat_alt)
    have "?d div ?c = (?d - ?c) div ?c + 1" using True assms(2) by (simp add: le_div_geq)
    then have "n = unat (count - (expirelo + cyc)) div ?c + 1" using Suc.prems(2) u by simp
    then show ?thesis
      using Suc.IH [of "expirelo + cyc" "stamp + 1"] Suc.prems(1) u step by (simp add: algebra_simps)
  next
    case False
    then have n: "n = 0" using Suc.prems(2) by simp
    have c32: "?c < 2 ^ 32" by (rule order_less_le_trans [OF unsigned_less]) simp
    have "unat (count - (expirelo + cyc)) = ?d + (2 ^ 32 - ?c)"
      unfolding diff using False c32 by (subst unat_sub_if_size) (simp add: word_size)
    then have "\<not> count - (expirelo + cyc) < 0x7fffffff"
      using assms(3) by (simp add: word_less_nat_alt)
    from get_timer_loop_ahead [OF this] show ?thesis by (simp add: step n)
  qed
qed simp

subsection \<open>The coprocessor as an interface\<close>

text \<open>
  \<open>now d\<close> is the number of cycles since power up, of which the count register shows the low 32 bits. An access takes
  some cycles, at most \<open>slow\<close>, and the count advances between two reads of it. The system control register
  holds the chip type and does not change.
\<close>

locale cp0_clock =
  fixes P :: "'d cp0" and now :: "'d \<Rightarrow> nat" and cmp :: "'d \<Rightarrow> u32" and ctl :: u32 and slow :: nat
  assumes count: "read_c0_count P d = (c, d') \<Longrightarrow> c = of_nat (now d) \<and> cmp d' = cmp d \<and> now d < now d' \<and> now d' \<le> now d + slow"
    and compare: "read_c0_compare P d = (c, d') \<Longrightarrow> c = cmp d \<and> cmp d' = cmp d \<and> now d \<le> now d' \<and> now d' \<le> now d + slow"
    and setcmp: "cmp (write_c0_compare P c d) = c \<and> now d \<le> now (write_c0_compare P c d)"
    and control: "read_sys_ctrl P d = (c, d') \<Longrightarrow> c = ctl \<and> cmp d' = cmp d \<and> now d \<le> now d' \<and> now d' \<le> now d + slow"

text \<open>The frequency in use after the chip has been looked at.\<close>

definition timer_freq :: "timer_config \<Rightarrow> u32 \<Rightarrow> u32 \<Rightarrow> u32" where
  "timer_freq tc ctl f =
     (if IS_VX185FAMILY tc \<and> drop_bit 4 ctl AND 0x07 \<in> {CHIP_7183 tc, CHIP_7173 tc}
      then CONFIG_SYS_MIPS_VX183_TIMER_FREQ tc else f)"

definition jiffy :: "timer_config \<Rightarrow> u32 \<Rightarrow> nat" where
  "jiffy tc f = unat ((f + CONFIG_SYS_HZ tc div 2) div CONFIG_SYS_HZ tc)"

lemma cycles_jiffy: "unat (cycles_per_jiffy tc s) = jiffy tc (mips_timer_freq s)"
  by (simp add: cycles_per_jiffy_def jiffy_def)

text \<open>
  \<open>keeps_time t0 k s\<close>: \<open>k\<close> jiffies since \<open>t0\<close> are counted, and the compare register holds the end of the next one.
\<close>

definition keeps_time :: "('d \<Rightarrow> u32) \<Rightarrow> timer_config \<Rightarrow> u32 \<Rightarrow> nat \<Rightarrow> nat \<Rightarrow> 'd timer \<Rightarrow> bool" where
  "keeps_time cmp tc f t0 k s \<longleftrightarrow>
     mips_timer_freq s = f \<and> timestamp s = of_nat k \<and> cmp (cop s) = of_nat (t0 + (k + 1) * jiffy tc f)"

context cp0_clock
begin

lemma set_freq:
  "\<exists>d'. set_mips_timer_freqency tc P s = s\<lparr>mips_timer_freq := timer_freq tc ctl (mips_timer_freq s), cop := d'\<rparr>
     \<and> cmp d' = cmp (cop s) \<and> now (cop s) \<le> now d' \<and> now d' \<le> now (cop s) + slow"
proof (cases "IS_VX185FAMILY tc")
  case True
  obtain v d' where r: "read_sys_ctrl P (cop s) = (v, d')" by fastforce
  show ?thesis using True control [OF r]
    by (intro exI [of _ d']) (auto simp: set_mips_timer_freqency_def timer_freq_def r)
qed (auto simp: set_mips_timer_freqency_def timer_freq_def intro!: exI [of _ "cop s"])

lemma reset:
  assumes "f = timer_freq tc ctl (mips_timer_freq s)"
  shows "\<exists>t0 \<ge> now (cop s). t0 \<le> now (cop s) + slow \<and> t0 \<le> now (cop (reset_timer tc P s))
           \<and> keeps_time cmp tc f t0 0 (reset_timer tc P s)"
proof -
  obtain d' where 1: "set_mips_timer_freqency tc P s = s\<lparr>mips_timer_freq := f, cop := d'\<rparr>"
    and 2: "cmp d' = cmp (cop s)" "now (cop s) \<le> now d'" "now d' \<le> now (cop s) + slow"
    using set_freq [of tc s] assms by auto
  obtain c d'' where 3: "read_c0_count P d' = (c, d'')" by fastforce
  have "keeps_time cmp tc f (now d') 0 (reset_timer tc P s) \<and> now d' \<le> now (cop (reset_timer tc P s))"
    using 1 3 count [OF 3] setcmp [of "of_nat (now d') + cycles_per_jiffy tc (s\<lparr>mips_timer_freq := f\<rparr>)" d'']
    by (auto simp: reset_timer_def keeps_time_def cycles_per_jiffy_def jiffy_def)
  with 2 show ?thesis by blast
qed

end

lemma unat_of_nat_u32: "n < 2 ^ 32 \<Longrightarrow> unat (of_nat n :: u32) = n"
  by (simp add: unat_of_nat)

lemma deadline_ahead:
  fixes n e :: nat
  assumes "n < e" "e \<le> n + (2 ^ 31 + 1)"
  shows "\<not> (of_nat n :: u32) - of_nat e < 0x7fffffff"
proof -
  have z: "(4294967296 :: u32) = 0" by (transfer, simp)
  have "unat ((of_nat n :: u32) - of_nat e) = unat (of_nat (n + 2 ^ 32 - e) :: u32)"
    using assms by (subst of_nat_diff) (simp_all add: z)
  also have "\<dots> = n + 2 ^ 32 - e" by (rule unat_of_nat_u32) (use assms in simp)
  finally have "unat ((of_nat n :: u32) - of_nat e) = n + 2 ^ 32 - e" .
  then show ?thesis using assms by (simp add: word_less_nat_alt)
qed

lemma deadline_passed:
  fixes n e :: nat
  assumes "e \<le> n" "n < e + (2 ^ 31 - 1)"
  shows "unat ((of_nat n :: u32) - of_nat e) = n - e"
proof -
  have "unat ((of_nat n :: u32) - of_nat e) = unat (of_nat (n - e) :: u32)"
    using assms by (subst of_nat_diff) simp_all
  also have "\<dots> = n - e" by (rule unat_of_nat_u32) (use assms in simp)
  finally show ?thesis .
qed

lemma ahead_or_late:
  fixes t0 k j n :: nat
  assumes "0 < j" "j \<le> 2 ^ 31" "t0 + k * j \<le> n" "n < t0 + (k + 1) * j + (2 ^ 31 - 1)"
  shows "get_timer_loop (of_nat j) (of_nat n) (of_nat (t0 + (k + 1) * j)) (of_nat k)
           = Some (of_nat (t0 + ((n - t0) div j + 1) * j), of_nat ((n - t0) div j))"
proof (cases "t0 + (k + 1) * j \<le> n")
  case True
  let ?e = "t0 + (k + 1) * j"
  note u = deadline_passed [OF True assms(4)]
  have j: "unat (of_nat j :: u32) = j" using assms(2) by (simp add: unat_of_nat)
  have "n - t0 = (n - ?e) + (k + 1) * j" using True by (simp add: algebra_simps)
  then have k: "(n - t0) div j = (n - ?e) div j + (k + 1)"
    using assms(1) by (metis div_mult_self1 add.commute not_gr0)
  have "get_timer_loop (of_nat j) (of_nat n) (of_nat ?e) (of_nat k)
          = Some (of_nat ?e + of_nat ((n - ?e) div j + 1) * of_nat j, of_nat k + of_nat ((n - ?e) div j + 1))"
    by (rule get_timer_loop_late) (use assms(1,2,4) True in \<open>simp_all only: u j, simp_all\<close>)
  also have "\<dots> = Some (of_nat (t0 + ((n - t0) div j + 1) * j), of_nat ((n - t0) div j))"
    by (simp add: k algebra_simps)
  finally show ?thesis .
next
  case False
  have k: "(n - t0) div j = k"
    using False assms(3) by (intro div_nat_eqI) (simp_all add: algebra_simps)
  have "\<not> (of_nat n :: u32) - of_nat (t0 + (k + 1) * j) < 0x7fffffff"
    by (rule deadline_ahead) (use False assms(2,3) in \<open>simp_all add: algebra_simps\<close>)
  from get_timer_loop_ahead [OF this] show ?thesis by (simp only: k)
qed

context cp0_clock
begin

lemma poll:
  assumes k: "keeps_time cmp tc f t0 k s" and f: "timer_freq tc ctl f = f"
    and j: "0 < jiffy tc f" "jiffy tc f \<le> 2 ^ 31"
    and t: "t0 + k * jiffy tc f \<le> now (cop s)" "now (cop s) + 2 * slow < t0 + (k + 1) * jiffy tc f + (2 ^ 31 - 1)"
  shows "\<exists>n s'. get_timer tc P base s = Some (of_nat ((n - t0) div jiffy tc f) - base, s')
           \<and> now (cop s) \<le> n \<and> n \<le> now (cop s) + 2 * slow \<and> n \<le> now (cop s')
           \<and> keeps_time cmp tc f t0 ((n - t0) div jiffy tc f) s'"
proof -
  have m: "mips_timer_freq s = f" "timestamp s = of_nat k" "cmp (cop s) = of_nat (t0 + (k + 1) * jiffy tc f)"
    using k by (simp_all only: keeps_time_def)
  obtain e d1 where 1: "read_c0_compare P (cop s) = (e, d1)" by fastforce
  obtain d2 where 2: "set_mips_timer_freqency tc P (s\<lparr>cop := d1\<rparr>) = s\<lparr>cop := d2\<rparr>"
    and d2: "cmp d2 = cmp d1" "now d1 \<le> now d2" "now d2 \<le> now d1 + slow"
    using set_freq [of tc "s\<lparr>cop := d1\<rparr>"] m(1) f by auto
  obtain c d3 where 3: "read_c0_count P d2 = (c, d3)" by fastforce
  let ?k = "(now d2 - t0) div jiffy tc f"
  have n: "now (cop s) \<le> now d2" "now d2 \<le> now (cop s) + 2 * slow" using compare [OF 1] d2 by simp_all
  have "of_nat (jiffy tc f) = cycles_per_jiffy tc (s\<lparr>cop := d2\<rparr>)"
    by (simp add: cycles_per_jiffy_def jiffy_def m(1))
  with ahead_or_late [OF j, of t0 k "now d2"] t n
  have loop: "get_timer_loop (cycles_per_jiffy tc (s\<lparr>cop := d2\<rparr>)) c e (timestamp s)
                = Some (of_nat (t0 + (?k + 1) * jiffy tc f), of_nat ?k)"
    using compare [OF 1] count [OF 3] m by simp
  let ?s' = "s\<lparr>cop := write_c0_compare P (of_nat (t0 + (?k + 1) * jiffy tc f)) d3, timestamp := of_nat ?k\<rparr>"
  have "get_timer tc P base s = Some (of_nat ?k - base, ?s')"
    unfolding get_timer_def by (simp add: 1 2 3 loop del: of_nat_add of_nat_mult)
  moreover have "keeps_time cmp tc f t0 ?k ?s'" unfolding keeps_time_def by (simp add: setcmp m(1))
  moreover have "now d2 \<le> now (cop ?s')"
    using count [OF 3] setcmp [of "of_nat (t0 + (?k + 1) * jiffy tc f)" d3] by simp
  ultimately show ?thesis using n by blast
qed

lemma udelay_loop_waits:
  assumes "slow < 2 ^ 31" "now (cop s) \<le> e + slow" "e \<le> now (cop s) + (2 ^ 31 - 2)"
  shows "\<exists>s'. udelay_loop P (of_nat e) s = Some s' \<and> e < now (cop s') \<and> now (cop s') \<le> e + 2 * slow"
  using assms(2,3)
proof (induction "e + slow + 1 - now (cop s)" arbitrary: s rule: less_induct)
  case less
  obtain c d where r: "read_c0_count P (cop s) = (c, d)" by fastforce
  note c = count [OF r]
  show ?case
  proof (cases "now (cop s) \<le> e")
    case True
    then have "(of_nat e :: u32) - c < 0x7fffffff"
      using c less.prems deadline_passed [of "now (cop s)" e] by (simp add: word_less_nat_alt)
    then show ?thesis
      using less.hyps [of "s\<lparr>cop := d\<rparr>"] less.prems c True by (subst udelay_loop.simps) (auto simp: r)
  next
    case False
    then have "\<not> (of_nat e :: u32) - c < 0x7fffffff"
      using c less.prems assms(1) deadline_ahead [of e "now (cop s)"] by simp
    then show ?thesis using False c less.prems by (subst udelay_loop.simps) (simp add: r)
  qed
qed

lemma udelay_waits_for:
  assumes D: "D = unat (usec * (mips_timer_freq s div 1000000))" and "slow < 2 ^ 31" "D < 2 ^ 31 - 1"
  shows "\<exists>s'. udelay P usec s = Some s' \<and> now (cop s) + D < now (cop s') \<and> now (cop s') \<le> now (cop s) + D + 2 * slow"
proof -
  obtain c d where r: "read_c0_count P (cop s) = (c, d)" by fastforce
  have "usec * (mips_timer_freq s div 1000000) = of_nat D" by (simp add: D)
  then have "c + usec * (mips_timer_freq s div 1000000) = of_nat (now (cop s) + D)" using count [OF r] by simp
  then have u: "udelay P usec s = udelay_loop P (of_nat (now (cop s) + D)) (s\<lparr>cop := d\<rparr>)" by (simp add: udelay_def r)
  show ?thesis unfolding u by (rule udelay_loop_waits) (use count [OF r] assms(2,3) in simp_all)
qed

lemma udelay_too_long:
  assumes D: "D = unat (usec * (mips_timer_freq s div 1000000))" and "2 ^ 31 - 1 + slow \<le> D"
  shows "\<exists>s'. udelay P usec s = Some s' \<and> now (cop s') \<le> now (cop s) + 2 * slow"
proof -
  obtain c d where r: "read_c0_count P (cop s) = (c, d)" by fastforce
  obtain c' d' where r': "read_c0_count P d = (c', d')" by fastforce
  note t = count [OF r] count [OF r']
  let ?w = "usec * (mips_timer_freq s div 1000000)"
  have "D < 2 ^ 32" unfolding D by (rule order_less_le_trans [OF unsigned_less]) simp
  have "c' = c + of_nat (now d - now (cop s))" using t by (simp add: of_nat_diff)
  moreover have "?w = of_nat D" by (simp add: D)
  ultimately have "c + ?w - c' = of_nat (D - (now d - now (cop s)))"
    using t assms(2) by (simp add: of_nat_diff)
  then have "unat (c + ?w - c') = D - (now d - now (cop s))"
    using unat_of_nat_u32 [of "D - (now d - now (cop s))"] \<open>D < 2 ^ 32\<close> by (metis less_imp_diff_less)
  moreover have "2 ^ 31 - 1 \<le> D - (now d - now (cop s))" using t assms(2) by linarith
  ultimately have "\<not> c + ?w - c' < 0x7fffffff" by (simp only: word_less_nat_alt) simp
  then have "udelay P usec s = Some (s\<lparr>cop := d'\<rparr>)"
    unfolding udelay_def r by (simp, subst udelay_loop.simps) (simp add: r')
  then show ?thesis using t by simp
qed

end

subsection \<open>Runs of the timer\<close>

text \<open>
  What happens to a timer after \<open>reset_timer\<close> in state \<open>s0\<close>: time passes, or \<open>get_timer\<close> is called, at the latest \<open>2^31\<close>
  cycles after the start of the previous call (or the reset), less the time of its own accesses. \<open>l\<close> is that start.
\<close>

inductive timer_runs :: "timer_config \<Rightarrow> 'd cp0 \<Rightarrow> ('d \<Rightarrow> nat) \<Rightarrow> ('d \<Rightarrow> u32) \<Rightarrow> nat \<Rightarrow> 'd timer \<Rightarrow> nat \<Rightarrow> 'd timer \<Rightarrow> bool"
  for tc P now cmp slow s0 where
  reset_run: "timer_runs tc P now cmp slow s0 (now (cop s0)) (reset_timer tc P s0)"
| idle_run: "timer_runs tc P now cmp slow s0 l s \<Longrightarrow> now (cop s) \<le> now d \<Longrightarrow> cmp d = cmp (cop s) \<Longrightarrow>
     timer_runs tc P now cmp slow s0 l (s\<lparr>cop := d\<rparr>)"
| poll_run: "timer_runs tc P now cmp slow s0 l s \<Longrightarrow> now (cop s) + 2 * slow < l + 2 ^ 31 \<Longrightarrow>
     get_timer tc P b s = Some (t, s') \<Longrightarrow> timer_runs tc P now cmp slow s0 (now (cop s)) s'"

lemma less_next_multiple: "0 < (j :: nat) \<Longrightarrow> t0 \<le> n \<Longrightarrow> n < t0 + ((n - t0) div j + 1) * j"
  using dividend_less_div_times [of j "n - t0"] by (simp add: algebra_simps)

lemma multiple_le: "t0 \<le> n \<Longrightarrow> t0 + ((n - t0) div j) * j \<le> (n :: nat)"
  using div_times_less_eq_dividend [of "n - t0" j] by linarith

lemma timer_freq_idem: "timer_freq tc ctl (timer_freq tc ctl f) = timer_freq tc ctl f"
  unfolding timer_freq_def by presburger

text \<open>The invariant of a run: the timer keeps time, and its next deadline is later than the last call.\<close>

definition in_order :: "('d \<Rightarrow> nat) \<Rightarrow> ('d \<Rightarrow> u32) \<Rightarrow> timer_config \<Rightarrow> u32 \<Rightarrow> nat \<Rightarrow> nat \<Rightarrow> 'd timer \<Rightarrow> bool" where
  "in_order now cmp tc f t0 l s \<longleftrightarrow> (\<exists>k. keeps_time cmp tc f t0 k s \<and> t0 + k * jiffy tc f \<le> now (cop s) \<and> l < t0 + (k + 1) * jiffy tc f)"

context cp0_clock
begin

lemma poll_in_order:
  assumes "in_order now cmp tc f t0 l s" "timer_freq tc ctl f = f" "0 < jiffy tc f" "jiffy tc f \<le> 2 ^ 31"
    and "now (cop s) + 2 * slow < l + 2 ^ 31"
  shows "\<exists>n s'. get_timer tc P base s = Some (of_nat ((n - t0) div jiffy tc f) - base, s')
           \<and> now (cop s) \<le> n \<and> n \<le> now (cop s) + 2 * slow \<and> in_order now cmp tc f t0 (now (cop s)) s'"
proof -
  obtain k where k: "keeps_time cmp tc f t0 k s" "t0 + k * jiffy tc f \<le> now (cop s)" "l < t0 + (k + 1) * jiffy tc f"
    using assms(1) by (auto simp: in_order_def)
  have "now (cop s) + 2 * slow < t0 + (k + 1) * jiffy tc f + (2 ^ 31 - 1)" using k(3) assms(5) by simp
  then obtain n s' where p: "get_timer tc P base s = Some (of_nat ((n - t0) div jiffy tc f) - base, s')"
    "now (cop s) \<le> n" "n \<le> now (cop s) + 2 * slow" "n \<le> now (cop s')"
    "keeps_time cmp tc f t0 ((n - t0) div jiffy tc f) s'"
    using poll [OF k(1) assms(2-4) k(2)] by blast
  have "t0 \<le> n" using k(2) p(2) by simp
  with p less_next_multiple [of "jiffy tc f" t0 n] multiple_le [of t0 n "jiffy tc f"] assms(3)
  have "in_order now cmp tc f t0 (now (cop s)) s'" unfolding in_order_def by (meson le_trans le_less_trans)
  with p show ?thesis by blast
qed

lemma runs_in_order:
  assumes "f = timer_freq tc ctl (mips_timer_freq s0)" "0 < jiffy tc f" "jiffy tc f \<le> 2 ^ 31"
  shows "\<exists>t0 \<ge> now (cop s0). t0 \<le> now (cop s0) + slow \<and>
           (\<forall>l s. timer_runs tc P now cmp slow s0 l s \<longrightarrow> in_order now cmp tc f t0 l s)"
proof -
  obtain t0 where t0: "now (cop s0) \<le> t0" "t0 \<le> now (cop s0) + slow" "t0 \<le> now (cop (reset_timer tc P s0))"
    "keeps_time cmp tc f t0 0 (reset_timer tc P s0)"
    using reset [OF assms(1)] by blast
  have f: "timer_freq tc ctl f = f" by (simp add: assms(1) timer_freq_idem)
  have "in_order now cmp tc f t0 l s" if "timer_runs tc P now cmp slow s0 l s" for l s
    using that
  proof induction
    case reset_run
    show ?case unfolding in_order_def using t0 assms(2) by (intro exI [of _ 0]) simp
  next
    case (idle_run l s d)
    then show ?case by (fastforce simp: in_order_def keeps_time_def simp del: of_nat_add of_nat_mult)
  next
    case (poll_run l s b t s')
    then show ?case using poll_in_order [OF poll_run.IH f assms(2,3), of b] by auto
  qed
  with t0 show ?thesis by blast
qed

end

subsection \<open>A coprocessor to run on\<close>

text \<open>Every access takes one cycle; the chip type in the control register is fixed.\<close>

record cop0 =
  ticks :: nat
  compare_reg :: u32

definition cop0_regs :: "u32 \<Rightarrow> cop0 cp0" where
  "cop0_regs ctl = \<lparr>
     read_sys_ctrl = (\<lambda>d. (ctl, d\<lparr>ticks := ticks d + 1\<rparr>)),
     read_c0_count = (\<lambda>d. (of_nat (ticks d), d\<lparr>ticks := ticks d + 1\<rparr>)),
     read_c0_compare = (\<lambda>d. (compare_reg d, d\<lparr>ticks := ticks d + 1\<rparr>)),
     write_c0_compare = (\<lambda>v d. d\<lparr>compare_reg := v, ticks := ticks d + 1\<rparr>)\<rparr>"

interpretation cop: cp0_clock "cop0_regs ctl" ticks compare_reg ctl 1 for ctl
  by unfold_locales (auto simp: cop0_regs_def)

definition vx183_timer :: timer_config where
  "vx183_timer = \<lparr>IS_VX185FAMILY = True, CONFIG_SYS_HZ = 1000, CONFIG_SYS_MIPS_TIMER_FREQ = 250000000,
     CONFIG_SYS_MIPS_VX183_TIMER_FREQ = 200000000, CHIP_7183 = 3, CHIP_7173 = 4\<rparr>"

subsection \<open>Properties\<close>

text \<open>
  C33. The time stamp is the number of whole jiffies since the reset: in every run of the timer, whatever else the
  program does meanwhile, \<open>get_timer\<close> returns and its result is \<open>(n - t0) div jiffy\<close>, less the base, where \<open>t0\<close> is the cycle at
  which \<open>reset_timer\<close> read the count and \<open>n\<close> the cycle at which this call did, although the count register
  wraps every \<open>2^32\<close> cycles. The run has to call it often enough, at least every \<open>2^31\<close> cycles, and a jiffy is at most
  that long.
\<close>
theorem timer_keeps_time:
  assumes "cp0_clock P now cmp ctl slow" "f = timer_freq tc ctl (mips_timer_freq s0)" "0 < jiffy tc f" "jiffy tc f \<le> 2 ^ 31"
  shows "\<exists>t0 \<ge> now (cop s0). t0 \<le> now (cop s0) + slow \<and>
           (\<forall>l s base. timer_runs tc P now cmp slow s0 l s \<and> now (cop s) + 2 * slow < l + 2 ^ 31 \<longrightarrow>
              (\<exists>n s'. get_timer tc P base s = Some (of_nat ((n - t0) div jiffy tc f) - base, s')
                 \<and> now (cop s) \<le> n \<and> n \<le> now (cop s) + 2 * slow))"
proof -
  note cp0_clock.runs_in_order [OF assms(1-4)]
  then obtain t0 where t0: "now (cop s0) \<le> t0" "t0 \<le> now (cop s0) + slow"
    and r: "\<And>l s. timer_runs tc P now cmp slow s0 l s \<Longrightarrow> in_order now cmp tc f t0 l s"
    by blast
  have "timer_freq tc ctl f = f" by (simp add: assms(2) timer_freq_idem)
  from cp0_clock.poll_in_order [OF assms(1) r this assms(3,4)] t0 show ?thesis by blast
qed

theorem timer_keeps_time_witness:
  "\<exists>t0 \<ge> 0. t0 \<le> 1 \<and>
     (\<forall>l s base. timer_runs vx183_timer (cop0_regs 0x30) ticks compare_reg 1 \<lparr>timestamp = 7, mips_timer_freq = 0, cop = \<lparr>ticks = 0, compare_reg = 0\<rparr>\<rparr> l s
          \<and> ticks (cop s) + 2 * 1 < l + 2 ^ 31 \<longrightarrow>
        (\<exists>n s'. get_timer vx183_timer (cop0_regs 0x30) base s = Some (of_nat ((n - t0) div 200000) - base, s')
           \<and> ticks (cop s) \<le> n \<and> n \<le> ticks (cop s) + 2 * 1))"
proof -
  let ?s0 = "\<lparr>timestamp = 7, mips_timer_freq = 0, cop = \<lparr>ticks = 0, compare_reg = 0\<rparr>\<rparr>"
  have j: "jiffy vx183_timer 200000000 = 200000" by (simp add: jiffy_def vx183_timer_def)
  have f: "200000000 = timer_freq vx183_timer 0x30 (mips_timer_freq ?s0)"
    by (simp add: timer_freq_def vx183_timer_def)
  from timer_keeps_time [OF cop.cp0_clock_axioms f] show ?thesis by (simp add: j)
qed

text \<open>
  \<open>__udelay\<close> waits \<open>D\<close> cycles, the product of the microseconds and the cycles in one, computed in 32 bits, and at most
  the time of two more accesses, when \<open>D\<close> is less than \<open>2^31 - 1\<close>; a longer wait (8.6 seconds at 250 MHz) is taken for one
  that is over, and the function returns with the first look at the count.
\<close>
theorem udelay_waits:
  assumes "cp0_clock P now cmp ctl slow" "slow < 2 ^ 31" "D = unat (usec * (mips_timer_freq s div 1000000))"
  shows "(D < 2 ^ 31 - 1 \<longrightarrow>
            (\<exists>s'. udelay P usec s = Some s' \<and> now (cop s) + D < now (cop s') \<and> now (cop s') \<le> now (cop s) + D + 2 * slow))
       \<and> (2 ^ 31 - 1 + slow \<le> D \<longrightarrow> (\<exists>s'. udelay P usec s = Some s' \<and> now (cop s') \<le> now (cop s) + 2 * slow))"
  using cp0_clock.udelay_waits_for [OF assms(1,3,2)] cp0_clock.udelay_too_long [OF assms(1,3)] by blast

theorem udelay_waits_witness:
  "(\<exists>s'. udelay (cop0_regs 0) 8000000 \<lparr>timestamp = 0, mips_timer_freq = 250000000, cop = \<lparr>ticks = 100, compare_reg = 0\<rparr>\<rparr> = Some s'
      \<and> 100 + 2000000000 < ticks (cop s') \<and> ticks (cop s') \<le> 100 + 2000000000 + 2 * 1)
   \<and> (\<exists>s'. udelay (cop0_regs 0) 9000000 \<lparr>timestamp = 0, mips_timer_freq = 250000000, cop = \<lparr>ticks = 100, compare_reg = 0\<rparr>\<rparr> = Some s'
      \<and> ticks (cop s') \<le> 100 + 2 * 1)"
proof -
  let ?s = "\<lparr>timestamp = 0, mips_timer_freq = 250000000, cop = \<lparr>ticks = 100, compare_reg = 0\<rparr>\<rparr>"
  have "2000000000 = unat (8000000 * (mips_timer_freq ?s div 1000000))"
    and "2250000000 = unat (9000000 * (mips_timer_freq ?s div 1000000))" by simp_all
  note u = this [THEN udelay_waits [OF cop.cp0_clock_axioms, rotated]]
  from u show ?thesis by simp
qed

end
