(* ===== verification/Irq.thy ===== *)
theory Irq
  imports Prelude
begin

unbundle bit_operations_syntax

section \<open>Interrupt handlers (arch/mips32/mips32\_interrupts.c)\<close>

text \<open>
  The interrupt code of U-Boot for the MPC8260, kept behind \<^verbatim>\<open>#if 0\<close>: a table of handlers and the masks of the interrupt
  controller. The registers of the controller and the two functions that switch interrupts on and off belong to headers and
  assembly outside the repository and are the parameter \<open>intctl\<close>; \<open>NR_IRQS\<close> is 64, the number of interrupts the tables of the
  file describe. A handler is called through a pointer: the parameter \<open>call\<close> is what the handlers do to the state.
\<close>

subsection \<open>State\<close>

record 'h irq_action =
  handler :: "'h option"
  arg :: u32
  count :: u32

record 'd intctl =
  ic_sicr_wr :: "u32 \<Rightarrow> 'd \<Rightarrow> 'd"
  ic_prr_wr :: "nat \<Rightarrow> u32 \<Rightarrow> 'd \<Rightarrow> 'd"
  ic_simr_wr :: "nat \<Rightarrow> u32 \<Rightarrow> 'd \<Rightarrow> 'd"
  ic_sipnr_wr :: "nat \<Rightarrow> u32 \<Rightarrow> 'd \<Rightarrow> 'd"
  ic_siexr_wr :: "u32 \<Rightarrow> 'd \<Rightarrow> 'd"
  ic_sivec_rd :: "'d \<Rightarrow> u32 \<times> 'd"
  enable_interrupts :: "'d \<Rightarrow> 'd"
  disable_interrupts :: "'d \<Rightarrow> bool \<times> 'd"

record ('h, 'd) irq_state =
  irq_handlers :: "nat \<Rightarrow> 'h irq_action"
  ppc_cached_irq_mask :: "nat \<Rightarrow> u32"
  im_intctl :: 'd
  messages :: "string list"

definition NR_IRQS :: nat where "NR_IRQS = 64"

definition irq_to_siureg :: "nat list" where
  "irq_to_siureg = [
     1, 1, 1, 1, 1, 1, 1, 1,
     1, 1, 1, 1, 1, 1, 1, 1,
     0, 0, 0, 0, 0, 0, 0, 0,
     0, 0, 0, 0, 0, 0, 0, 0,
     1, 1, 1, 1, 1, 1, 1, 1,
     1, 1, 1, 1, 1, 1, 1, 1,
     0, 0, 0, 0, 0, 0, 0, 0,
     0, 0, 0, 0, 0, 0, 0, 0]"

definition irq_to_siubit :: "nat list" where
  "irq_to_siubit = [
     31, 16, 17, 18, 19, 20, 21, 22,
     23, 24, 25, 26, 27, 28, 29, 30,
     29, 30, 16, 17, 18, 19, 20, 21,
     22, 23, 24, 25, 26, 27, 28, 31,
     0, 1, 2, 3, 4, 5, 6, 7,
     8, 9, 10, 11, 12, 13, 14, 15,
     15, 14, 13, 12, 11, 10, 9, 8,
     7, 6, 5, 4, 3, 2, 1, 0]"

subsection \<open>Masks\<close>

definition m8260_mask_irq :: "'d intctl \<Rightarrow> nat \<Rightarrow> ('h, 'd) irq_state \<Rightarrow> ('h, 'd) irq_state" where
  "m8260_mask_irq P irq_nr s =
     (let b = irq_to_siubit ! irq_nr;
          w = irq_to_siureg ! irq_nr;
          m = ppc_cached_irq_mask s w AND NOT (push_bit (31 - b) 1)
      in s\<lparr>ppc_cached_irq_mask := (ppc_cached_irq_mask s)(w := m), im_intctl := ic_simr_wr P w m (im_intctl s)\<rparr>)"

definition m8260_unmask_irq :: "'d intctl \<Rightarrow> nat \<Rightarrow> ('h, 'd) irq_state \<Rightarrow> ('h, 'd) irq_state" where
  "m8260_unmask_irq P irq_nr s =
     (let b = irq_to_siubit ! irq_nr;
          w = irq_to_siureg ! irq_nr;
          m = ppc_cached_irq_mask s w OR push_bit (31 - b) 1
      in s\<lparr>ppc_cached_irq_mask := (ppc_cached_irq_mask s)(w := m), im_intctl := ic_simr_wr P w m (im_intctl s)\<rparr>)"

definition m8260_mask_and_ack :: "'d intctl \<Rightarrow> nat \<Rightarrow> ('h, 'd) irq_state \<Rightarrow> ('h, 'd) irq_state" where
  "m8260_mask_and_ack P irq_nr s =
     (let b = irq_to_siubit ! irq_nr;
          w = irq_to_siureg ! irq_nr;
          m = ppc_cached_irq_mask s w AND NOT (push_bit (31 - b) 1)
      in s\<lparr>ppc_cached_irq_mask := (ppc_cached_irq_mask s)(w := m),
           im_intctl := ic_sipnr_wr P w (push_bit (31 - b) 1) (ic_simr_wr P w m (im_intctl s))\<rparr>)"

definition m8260_get_irq :: "'d intctl \<Rightarrow> ('h, 'd) irq_state \<Rightarrow> nat \<times> ('h, 'd) irq_state" where
  "m8260_get_irq P s = (let (bits, d) = ic_sivec_rd P (im_intctl s) in (unat (drop_bit 26 bits), s\<lparr>im_intctl := d\<rparr>))"

text \<open>\<open>busclk\<close> and \<open>hz\<close> are \<open>gd->bus_clk\<close> and \<open>CONFIG_SYS_HZ\<close>, \<open>hymod\<close> the switch \<open>CONFIG_HYMOD\<close>.\<close>

definition interrupt_init_cpu :: "'d intctl \<Rightarrow> bool \<Rightarrow> u32 \<Rightarrow> u32 \<Rightarrow> ('h, 'd) irq_state \<Rightarrow> u32 \<times> u32 \<times> ('h, 'd) irq_state" where
  "interrupt_init_cpu P hymod busclk hz s =
     (let decrementer_count = (busclk div 4) div hz;
          d = ic_sicr_wr P 0 (im_intctl s);
          d = ic_prr_wr P 0 0x05309770 d;
          d = ic_prr_wr P 1 0x05309770 d;
          d = ic_prr_wr P 2 0x05309770 d;
          d = ic_simr_wr P 0 0 d;
          d = ic_simr_wr P 1 0 d;
          d = ic_sipnr_wr P 0 0xffffffff d;
          d = ic_sipnr_wr P 1 0xffffffff d;
          d = (if hymod then ic_siexr_wr P (- 1) d else d)
      in (0, decrementer_count, s\<lparr>ppc_cached_irq_mask := (ppc_cached_irq_mask s)(0 := 0, 1 := 0), im_intctl := d\<rparr>))"

subsection \<open>Handlers\<close>

definition external_interrupt ::
  "'d intctl \<Rightarrow> ('h \<Rightarrow> u32 \<Rightarrow> ('h, 'd) irq_state \<Rightarrow> ('h, 'd) irq_state) \<Rightarrow> ('h, 'd) irq_state \<Rightarrow> ('h, 'd) irq_state" where
  "external_interrupt P call s =
     (let (irq, s) = m8260_get_irq P s;
          s = m8260_mask_and_ack P irq s;
          s = s\<lparr>im_intctl := enable_interrupts P (im_intctl s)\<rparr>
      in case handler (irq_handlers s irq) of
           Some h \<Rightarrow> m8260_unmask_irq P irq (call h (arg (irq_handlers s irq)) s)
         | None \<Rightarrow> s\<lparr>messages := messages s @ [''Bogus External Interrupt IRQ'']\<rparr>)"

definition irq_install_handler :: "'d intctl \<Rightarrow> int \<Rightarrow> 'h option \<Rightarrow> u32 \<Rightarrow> ('h, 'd) irq_state \<Rightarrow> ('h, 'd) irq_state" where
  "irq_install_handler P irq h a s =
     (if irq < 0 \<or> int NR_IRQS \<le> irq then s\<lparr>messages := messages s @ [''irq_install_handler: bad irq number'']\<rparr>
      else let i = nat irq;
               s = (if handler (irq_handlers s i) \<noteq> None then s\<lparr>messages := messages s @ [''irq_install_handler: replacing'']\<rparr> else s);
               s = s\<lparr>irq_handlers := (irq_handlers s)(i := (irq_handlers s i)\<lparr>handler := h, arg := a\<rparr>)\<rparr>
           in m8260_unmask_irq P i s)"

definition irq_free_handler :: "'d intctl \<Rightarrow> int \<Rightarrow> ('h, 'd) irq_state \<Rightarrow> ('h, 'd) irq_state" where
  "irq_free_handler P irq s =
     (if irq < 0 \<or> int NR_IRQS \<le> irq then s\<lparr>messages := messages s @ [''irq_free_handler: bad irq number'']\<rparr>
      else let i = nat irq; s = m8260_mask_irq P i s
           in s\<lparr>irq_handlers := (irq_handlers s)(i := (irq_handlers s i)\<lparr>handler := None, arg := 0\<rparr>)\<rparr>)"

definition timer_interrupt_cpu :: "('h, 'd) irq_state \<Rightarrow> ('h, 'd) irq_state" where
  "timer_interrupt_cpu s = s"

text \<open>The lines \<open>do_irqinfo\<close> prints: number, handler, argument and count of the interrupts that have a handler.\<close>

definition do_irqinfo :: "'d intctl \<Rightarrow> ('h, 'd) irq_state \<Rightarrow> (nat \<times> 'h \<times> u32 \<times> u32) list \<times> ('h, 'd) irq_state" where
  "do_irqinfo P s =
     (let (re_enable, d) = disable_interrupts P (im_intctl s);
          info = [(irq, the (handler (irq_handlers s irq)), arg (irq_handlers s irq), count (irq_handlers s irq)).
                  irq \<leftarrow> [0..<32], handler (irq_handlers s irq) \<noteq> None]
      in (info, s\<lparr>im_intctl := (if re_enable then enable_interrupts P d else d)\<rparr>))"

subsection \<open>The tables\<close>

definition irq_pos :: "nat \<Rightarrow> nat \<times> nat" where
  "irq_pos i = (irq_to_siureg ! i, irq_to_siubit ! i)"

lemma length_irq_tables: "length irq_to_siureg = 64" "length irq_to_siubit = 64"
  by (simp_all add: irq_to_siureg_def irq_to_siubit_def)

lemma irq_pos_list: "map irq_pos [0..<64] = zip irq_to_siureg irq_to_siubit"
  by (rule nth_equalityI) (simp_all add: irq_pos_def length_irq_tables)

lemma irq_pos_distinct: "distinct (zip irq_to_siureg irq_to_siubit)"
  by (simp add: irq_to_siureg_def irq_to_siubit_def)

lemma irq_pos_inj: "i < 64 \<Longrightarrow> j < 64 \<Longrightarrow> irq_pos i = irq_pos j \<longleftrightarrow> i = j"
  using irq_pos_distinct distinct_conv_nth [of "map irq_pos [0..<64]"] by (auto simp flip: irq_pos_list)

lemma irq_pos_range: "i < 64 \<Longrightarrow> irq_to_siureg ! i < 2 \<and> irq_to_siubit ! i < 32"
proof -
  have "list_all (\<lambda>(w, b). w < 2 \<and> b < 32) (zip irq_to_siureg irq_to_siubit)"
    by (simp add: irq_to_siureg_def irq_to_siubit_def)
  then have "list_all (\<lambda>(w, b). w < 2 \<and> b < 32) (map irq_pos [0..<64])" by (simp only: irq_pos_list)
  then show "i < 64 \<Longrightarrow> ?thesis" by (simp add: list_all_iff irq_pos_def)
qed

text \<open>An interrupt is enabled when its bit is set in the mask.\<close>

definition enabled :: "(nat \<Rightarrow> u32) \<Rightarrow> nat \<Rightarrow> bool" where
  "enabled m i = bit (m (irq_to_siureg ! i)) (31 - irq_to_siubit ! i)"

lemma enabled_upd:
  assumes "i < 64" "j < 64" "w = irq_to_siureg ! j" "b = push_bit (31 - irq_to_siubit ! j) 1"
  shows "enabled (m(w := m w AND NOT b)) i \<longleftrightarrow> i \<noteq> j \<and> enabled m i" "enabled (m(w := m w OR b)) i \<longleftrightarrow> i = j \<or> enabled m i"
proof -
  have "31 - irq_to_siubit ! i < 32" by simp
  moreover have "31 - irq_to_siubit ! i = 31 - irq_to_siubit ! j \<longleftrightarrow> irq_to_siubit ! i = irq_to_siubit ! j"
    using irq_pos_range [OF assms(1)] irq_pos_range [OF assms(2)] by presburger
  moreover have "irq_to_siureg ! i = irq_to_siureg ! j \<and> irq_to_siubit ! i = irq_to_siubit ! j \<longleftrightarrow> i = j"
    using irq_pos_inj [OF assms(1,2)] by (simp add: irq_pos_def)
  ultimately show "enabled (m(w := m w AND NOT b)) i \<longleftrightarrow> i \<noteq> j \<and> enabled m i" "enabled (m(w := m w OR b)) i \<longleftrightarrow> i = j \<or> enabled m i"
    by (auto simp: enabled_def assms(3,4) bit_simps)
qed

subsection \<open>The controller as an interface\<close>

text \<open>\<open>simr d w\<close> is mask register \<open>w\<close> of the controller, which only the two writes of masks change.\<close>

locale irq_ctl =
  fixes P :: "'d intctl" and simr :: "'d \<Rightarrow> nat \<Rightarrow> u32"
  assumes simr_wr: "simr (ic_simr_wr P w m d) = (simr d)(w := m)"
    and simr_other: "simr (ic_sicr_wr P v d) = simr d" "simr (ic_prr_wr P n v d) = simr d" "simr (ic_sipnr_wr P n v d) = simr d"
      "simr (ic_siexr_wr P v d) = simr d" "simr (enable_interrupts P d) = simr d"
    and simr_sivec: "ic_sivec_rd P d = (v, e) \<Longrightarrow> simr e = simr d"
    and simr_disable: "disable_interrupts P d = (b, e) \<Longrightarrow> simr e = simr d"

text \<open>
  The invariant: an interrupt that is enabled has a handler, and the controller has the mask that the program has noted.
\<close>

definition irq_inv :: "('d \<Rightarrow> nat \<Rightarrow> u32) \<Rightarrow> ('h, 'd) irq_state \<Rightarrow> bool" where
  "irq_inv simr s \<longleftrightarrow>
     (\<forall>i < NR_IRQS. enabled (ppc_cached_irq_mask s) i \<longrightarrow> handler (irq_handlers s i) \<noteq> None)
     \<and> (\<forall>w < 2. simr (im_intctl s) w = ppc_cached_irq_mask s w)"

text \<open>A well-behaved handler leaves the invariant and the action of the interrupt it serves.\<close>

definition good_handlers :: "('d \<Rightarrow> nat \<Rightarrow> u32) \<Rightarrow> ('h \<Rightarrow> u32 \<Rightarrow> ('h, 'd) irq_state \<Rightarrow> ('h, 'd) irq_state) \<Rightarrow> bool" where
  "good_handlers simr call \<longleftrightarrow>
     (\<forall>s irq h. irq < NR_IRQS \<and> irq_inv simr s \<and> handler (irq_handlers s irq) = Some h \<longrightarrow>
        irq_inv simr (call h (arg (irq_handlers s irq)) s)
        \<and> handler (irq_handlers (call h (arg (irq_handlers s irq)) s) irq) \<noteq> None)"

inductive irq_runs :: "'d intctl \<Rightarrow> ('h \<Rightarrow> u32 \<Rightarrow> ('h, 'd) irq_state \<Rightarrow> ('h, 'd) irq_state) \<Rightarrow> ('h, 'd) irq_state \<Rightarrow> bool" for P call where
  init_run: "irq_runs P call (snd (snd (interrupt_init_cpu P hymod busclk hz s0)))"
| install_run: "irq_runs P call s \<Longrightarrow> irq_runs P call (irq_install_handler P irq (Some h) a s)"
| free_run: "irq_runs P call s \<Longrightarrow> irq_runs P call (irq_free_handler P irq s)"
| interrupt_run: "irq_runs P call s \<Longrightarrow> irq_runs P call (external_interrupt P call s)"
| timer_run: "irq_runs P call s \<Longrightarrow> irq_runs P call (timer_interrupt_cpu s)"
| irqinfo_run: "irq_runs P call s \<Longrightarrow> irq_runs P call (snd (do_irqinfo P s))"

context irq_ctl
begin

lemma mask_irq:
  assumes "irq < NR_IRQS"
  shows "i < NR_IRQS \<Longrightarrow> enabled (ppc_cached_irq_mask (m8260_mask_irq P irq s)) i \<longleftrightarrow> i \<noteq> irq \<and> enabled (ppc_cached_irq_mask s) i"
    and "irq_handlers (m8260_mask_irq P irq s) = irq_handlers s"
    and "\<forall>w < 2. simr (im_intctl s) w = ppc_cached_irq_mask s w \<Longrightarrow>
      \<forall>w < 2. simr (im_intctl (m8260_mask_irq P irq s)) w = ppc_cached_irq_mask (m8260_mask_irq P irq s) w"
  using enabled_upd(1) [of i irq] assms by (simp_all add: m8260_mask_irq_def Let_def simr_wr NR_IRQS_def)

lemma unmask_irq:
  assumes "irq < NR_IRQS"
  shows "i < NR_IRQS \<Longrightarrow> enabled (ppc_cached_irq_mask (m8260_unmask_irq P irq s)) i \<longleftrightarrow> i = irq \<or> enabled (ppc_cached_irq_mask s) i"
    and "irq_handlers (m8260_unmask_irq P irq s) = irq_handlers s"
    and "\<forall>w < 2. simr (im_intctl s) w = ppc_cached_irq_mask s w \<Longrightarrow>
      \<forall>w < 2. simr (im_intctl (m8260_unmask_irq P irq s)) w = ppc_cached_irq_mask (m8260_unmask_irq P irq s) w"
  using enabled_upd(2) [of i irq] assms by (simp_all add: m8260_unmask_irq_def Let_def simr_wr NR_IRQS_def)

lemma mask_and_ack:
  "m8260_mask_and_ack P irq s = (m8260_mask_irq P irq s)\<lparr>im_intctl :=
     ic_sipnr_wr P (irq_to_siureg ! irq) (push_bit (31 - irq_to_siubit ! irq) 1) (im_intctl (m8260_mask_irq P irq s))\<rparr>"
  by (simp add: m8260_mask_and_ack_def m8260_mask_irq_def Let_def)

lemma inv_mask: "irq < NR_IRQS \<Longrightarrow> irq_inv simr s \<Longrightarrow> irq_inv simr (m8260_mask_irq P irq s)"
  using mask_irq unfolding irq_inv_def by metis

lemma inv_unmask: "irq < NR_IRQS \<Longrightarrow> irq_inv simr s \<Longrightarrow> handler (irq_handlers s irq) \<noteq> None \<Longrightarrow> irq_inv simr (m8260_unmask_irq P irq s)"
  using unmask_irq unfolding irq_inv_def by metis

text \<open>What the registers other than the masks hold, and the console, does not matter.\<close>

lemma inv_irrelevant:
  "irq_inv simr s \<Longrightarrow> simr d = simr (im_intctl s) \<Longrightarrow> irq_inv simr (s\<lparr>im_intctl := d\<rparr>)"
  "irq_inv simr (s\<lparr>messages := ms\<rparr>) \<longleftrightarrow> irq_inv simr s"
  by (simp_all add: irq_inv_def)

lemma get_irq: "m8260_get_irq P s = (irq, s') \<Longrightarrow> irq < NR_IRQS \<and> (\<exists>d. s' = s\<lparr>im_intctl := d\<rparr> \<and> simr d = simr (im_intctl s))"
proof -
  have "unat v div 2 ^ 26 < 64" for v :: u32
    using unsigned_less [of v, where 'a = nat] by (simp add: div_less_iff_less_mult)
  then have "unat (drop_bit 26 v) < NR_IRQS" for v :: u32
    unfolding unat_drop_bit_eq NR_IRQS_def by (simp only: drop_bit_eq_div)
  then show "m8260_get_irq P s = (irq, s') \<Longrightarrow> ?thesis"
    using simr_sivec by (auto simp: m8260_get_irq_def split: prod.splits)
qed

lemma external_cases:
  assumes "m8260_get_irq P s = (irq, s1)" "s2 = m8260_mask_and_ack P irq s1"
    and "s3 = s2\<lparr>im_intctl := enable_interrupts P (im_intctl s2)\<rparr>"
  shows "handler (irq_handlers s irq) = None \<Longrightarrow> external_interrupt P call s = s3\<lparr>messages := messages s3 @ [''Bogus External Interrupt IRQ'']\<rparr>"
    and "handler (irq_handlers s irq) = Some h \<Longrightarrow> external_interrupt P call s = m8260_unmask_irq P irq (call h (arg (irq_handlers s irq)) s3)"
    and "irq < NR_IRQS" and "irq_handlers s3 = irq_handlers s"
    and "i < NR_IRQS \<Longrightarrow> enabled (ppc_cached_irq_mask s3) i \<longleftrightarrow> i \<noteq> irq \<and> enabled (ppc_cached_irq_mask s) i"
    and "irq_inv simr s \<Longrightarrow> irq_inv simr s3"
proof -
  obtain d where irq: "irq < NR_IRQS" and s1: "s1 = s\<lparr>im_intctl := d\<rparr>" "simr d = simr (im_intctl s)"
    using get_irq [OF assms(1)] by blast
  show h: "irq_handlers s3 = irq_handlers s" by (simp add: assms(2,3) mask_and_ack s1 mask_irq(2) [OF irq])
  show "handler (irq_handlers s irq) = None \<Longrightarrow> external_interrupt P call s = s3\<lparr>messages := messages s3 @ [''Bogus External Interrupt IRQ'']\<rparr>"
    "handler (irq_handlers s irq) = Some h \<Longrightarrow> external_interrupt P call s = m8260_unmask_irq P irq (call h (arg (irq_handlers s irq)) s3)"
    using h by (simp_all add: external_interrupt_def assms Let_def)
  show "irq < NR_IRQS" by (fact irq)
  show "i < NR_IRQS \<Longrightarrow> enabled (ppc_cached_irq_mask s3) i \<longleftrightarrow> i \<noteq> irq \<and> enabled (ppc_cached_irq_mask s) i"
    by (simp add: assms(2,3) mask_and_ack s1 mask_irq(1) [OF irq])
  show "irq_inv simr s \<Longrightarrow> irq_inv simr s3"
    unfolding assms(2,3) mask_and_ack
    by (intro inv_irrelevant inv_mask irq) (simp_all add: s1 inv_irrelevant simr_other)
qed

lemma inv_external:
  assumes "good_handlers simr call" "irq_inv simr s"
  shows "irq_inv simr (external_interrupt P call s)"
proof -
  obtain irq s1 where g: "m8260_get_irq P s = (irq, s1)" by fastforce
  note ext = external_cases [OF g refl refl]
  show ?thesis
  proof (cases "handler (irq_handlers s irq)")
    case None
    then show ?thesis using ext(1) [of call] ext(6) assms(2) by (simp add: inv_irrelevant)
  next
    case (Some h)
    then show ?thesis unfolding ext(2) [OF Some] using assms ext(3,4,6) Some
      by (intro inv_unmask) (metis good_handlers_def)+
  qed
qed

lemma runs_inv:
  assumes "good_handlers simr call"
  shows "irq_runs P call s \<Longrightarrow> irq_inv simr s"
proof (induction rule: irq_runs.induct)
  case (init_run hymod busclk hz s0)
  have "\<not> enabled ((ppc_cached_irq_mask s0)(0 := 0, 1 := 0)) i" if "i < 64" for i
    using irq_pos_range [OF that] by (auto simp: enabled_def less_2_cases_iff)
  then show ?case
    by (auto simp: interrupt_init_cpu_def irq_inv_def simr_wr simr_other NR_IRQS_def less_2_cases_iff Let_def)
next
  case (install_run s irq h a)
  define s1 where "s1 = (if handler (irq_handlers s (nat irq)) \<noteq> None then s\<lparr>messages := messages s @ [''irq_install_handler: replacing'']\<rparr> else s)"
  have "irq_inv simr s1" using install_run.IH by (simp add: s1_def inv_irrelevant)
  then have "irq_inv simr (s1\<lparr>irq_handlers := (irq_handlers s1)(nat irq := (irq_handlers s1 (nat irq))\<lparr>handler := Some h, arg := a\<rparr>)\<rparr>)"
    by (simp add: irq_inv_def)
  note unmask = inv_unmask [OF _ this, of "nat irq"]
  show ?case
  proof (cases "irq < 0 \<or> int NR_IRQS \<le> irq")
    case True
    then show ?thesis using install_run.IH by (simp add: irq_install_handler_def inv_irrelevant)
  next
    case False
    then have "irq_install_handler P irq (Some h) a s = m8260_unmask_irq P (nat irq)
        (s1\<lparr>irq_handlers := (irq_handlers s1)(nat irq := (irq_handlers s1 (nat irq))\<lparr>handler := Some h, arg := a\<rparr>)\<rparr>)"
      by (simp add: irq_install_handler_def s1_def Let_def)
    moreover have "nat irq < NR_IRQS" using False by auto
    ultimately show ?thesis using unmask by simp
  qed
next
  case (free_run s irq)
  then show ?case
    using inv_mask [of "nat irq" s] mask_irq(1) [of "nat irq" _ s]
    by (auto simp: irq_free_handler_def Let_def inv_irrelevant NR_IRQS_def irq_inv_def)
next
  case (interrupt_run s)
  then show ?case using inv_external [OF assms] by blast
next
  case (timer_run s)
  then show ?case by (simp add: timer_interrupt_cpu_def)
next
  case (irqinfo_run s)
  then show ?case using simr_disable
    by (auto simp: do_irqinfo_def Let_def simr_other split: prod.split intro!: inv_irrelevant)
qed

end

subsection \<open>A controller to run on\<close>

text \<open>The vector register shows the highest pending interrupt, 0 when there is none.\<close>

record mpc =
  simr_reg :: "nat \<Rightarrow> u32"
  sivec_reg :: u32
  int_on :: bool

definition mpc_ctl :: "mpc intctl" where
  "mpc_ctl = \<lparr>ic_sicr_wr = (\<lambda>_ d. d), ic_prr_wr = (\<lambda>_ _ d. d),
     ic_simr_wr = (\<lambda>w m d. d\<lparr>simr_reg := (simr_reg d)(w := m)\<rparr>), ic_sipnr_wr = (\<lambda>_ _ d. d\<lparr>sivec_reg := 0\<rparr>),
     ic_siexr_wr = (\<lambda>_ d. d), ic_sivec_rd = (\<lambda>d. (sivec_reg d, d)),
     enable_interrupts = (\<lambda>d. d\<lparr>int_on := True\<rparr>), disable_interrupts = (\<lambda>d. (int_on d, d\<lparr>int_on := False\<rparr>))\<rparr>"

interpretation mpc: irq_ctl mpc_ctl simr_reg
  by unfold_locales (auto simp: mpc_ctl_def)

definition mpc_reset :: "(string, mpc) irq_state" where
  "mpc_reset = \<lparr>irq_handlers = (\<lambda>_. \<lparr>handler = None, arg = 0, count = 0\<rparr>), ppc_cached_irq_mask = (\<lambda>_. 0xFFFFFFFF),
     im_intctl = \<lparr>simr_reg = (\<lambda>_. 0xFFFFFFFF), sivec_reg = 0x14000000, int_on = False\<rparr>, messages = []\<rparr>"

subsection \<open>Properties\<close>

text \<open>
  The two tables give each of the 64 interrupts its own bit of the two mask registers, and every bit has an interrupt:
  masking, unmasking and acknowledging one never touches another.
\<close>
theorem irq_tables_route: "bij_betw (\<lambda>i. (irq_to_siureg ! i, irq_to_siubit ! i)) {..<NR_IRQS} ({..<2} \<times> {..<32})"
proof -
  have "inj_on irq_pos {..<64}" by (auto simp: inj_on_def irq_pos_inj)
  moreover have "irq_pos ` {..<64} \<subseteq> {..<2} \<times> {..<32}" using irq_pos_range by (auto simp: irq_pos_def)
  ultimately have "irq_pos ` {..<64} = {..<2} \<times> {..<32}"
    by (intro card_subset_eq) (simp_all add: card_image)
  with \<open>inj_on irq_pos {..<64}\<close> show ?thesis
    by (simp add: bij_betw_def irq_pos_def NR_IRQS_def cong: image_cong inj_on_cong)
qed

text \<open>
  C29. However handlers are installed and freed and interrupts arrive after \<open>interrupt_init_cpu\<close>: an interrupt that the
  controller has enabled has a handler, as long as no handler removes the action of the interrupt it serves.
\<close>
theorem enabled_interrupt_has_handler:
  assumes "irq_ctl P simr" "good_handlers simr call" "irq_runs P call s" "i < NR_IRQS"
    and "bit (simr (im_intctl s) (irq_to_siureg ! i)) (31 - irq_to_siubit ! i)"
  shows "handler (irq_handlers s i) \<noteq> None"
  using irq_ctl.runs_inv [OF assms(1-3)] irq_pos_range [of i] assms(4,5) by (simp add: irq_inv_def enabled_def NR_IRQS_def)

theorem enabled_interrupt_has_handler_witness:
  "bit (simr_reg (im_intctl (external_interrupt mpc_ctl (\<lambda>_ _ s. s)
      (irq_install_handler mpc_ctl 5 (Some ''uart'') 7 (snd (snd (interrupt_init_cpu mpc_ctl False 100 1 mpc_reset)))))) 1) 11
   \<and> handler (irq_handlers (external_interrupt mpc_ctl (\<lambda>_ _ s. s)
      (irq_install_handler mpc_ctl 5 (Some ''uart'') 7 (snd (snd (interrupt_init_cpu mpc_ctl False 100 1 mpc_reset))))) 5) \<noteq> None"
proof -
  let ?s = "external_interrupt mpc_ctl (\<lambda>_ _ s. s)
      (irq_install_handler mpc_ctl 5 (Some ''uart'') 7 (snd (snd (interrupt_init_cpu mpc_ctl False 100 1 mpc_reset))))"
  have good: "good_handlers simr_reg (\<lambda>_ _ s. s)" by (simp add: good_handlers_def)
  have run: "irq_runs mpc_ctl (\<lambda>_ _ s. s) ?s"
    by (intro interrupt_run install_run init_run)
  have "bit (simr_reg (im_intctl ?s) (irq_to_siureg ! 5)) (31 - irq_to_siubit ! 5)"
    by (simp add: external_interrupt_def irq_install_handler_def interrupt_init_cpu_def mpc_reset_def mpc_ctl_def m8260_get_irq_def
        m8260_mask_and_ack_def m8260_unmask_irq_def irq_to_siureg_def irq_to_siubit_def NR_IRQS_def Let_def bit_simps)
  moreover from enabled_interrupt_has_handler [OF mpc.irq_ctl_axioms good run _ this]
  have "handler (irq_handlers ?s 5) \<noteq> None" by (simp add: NR_IRQS_def)
  ultimately show ?thesis by (simp add: irq_to_siureg_def irq_to_siubit_def)
qed

text \<open>
  What an external interrupt does. Without a handler it is switched off and every other interrupt stays as it was; with a
  handler that frees its own interrupt, the interrupt is enabled again after the handler has returned, with nobody to serve it.
\<close>
theorem external_interrupt_masks:
  assumes ctl: "irq_ctl P simr" and irq: "m8260_get_irq P s = (irq, s1)" and i: "i < NR_IRQS" and s': "s' = external_interrupt P call s"
  shows "(handler (irq_handlers s irq) = None \<longrightarrow>
            irq_handlers s' = irq_handlers s \<and> (enabled (ppc_cached_irq_mask s') i \<longleftrightarrow> i \<noteq> irq \<and> enabled (ppc_cached_irq_mask s) i))
       \<and> (handler (irq_handlers s irq) = Some h \<and> (\<forall>t. call h (arg (irq_handlers s irq)) t = irq_free_handler P (int irq) t) \<longrightarrow>
            handler (irq_handlers s' irq) = None \<and> enabled (ppc_cached_irq_mask s') irq)"
proof (intro conjI impI; (elim conjE)?)
  note ext = irq_ctl.external_cases [OF ctl irq refl refl]
  {
    assume "handler (irq_handlers s irq) = None"
    from ext(1) [OF this, of call] ext(4,5) i s'
    show "irq_handlers s' = irq_handlers s" "enabled (ppc_cached_irq_mask s') i \<longleftrightarrow> i \<noteq> irq \<and> enabled (ppc_cached_irq_mask s) i" by simp_all
  next
    assume h: "handler (irq_handlers s irq) = Some h" and free: "\<forall>t. call h (arg (irq_handlers s irq)) t = irq_free_handler P (int irq) t"
    have "irq < NR_IRQS" by (fact ext(3))
    with ext(2) [OF h, of call] free show "handler (irq_handlers s' irq) = None" "enabled (ppc_cached_irq_mask s') irq"
      by (simp_all add: s' irq_free_handler_def Let_def irq_ctl.unmask_irq(1,2) [OF ctl])
  }
qed

theorem external_interrupt_masks_witness:
  "\<exists>s'. s' = external_interrupt mpc_ctl (\<lambda>_ _. irq_free_handler mpc_ctl 5) (irq_install_handler mpc_ctl 5 (Some ''once'') 0 mpc_reset)
     \<and> handler (irq_handlers s' 5) = None \<and> enabled (ppc_cached_irq_mask s') 5"
proof -
  let ?s = "irq_install_handler mpc_ctl 5 (Some ''once'') 0 mpc_reset"
  have get: "m8260_get_irq mpc_ctl ?s = (5, snd (m8260_get_irq mpc_ctl ?s))" and h: "handler (irq_handlers ?s 5) = Some ''once''"
    by (simp_all add: irq_install_handler_def mpc_reset_def mpc_ctl_def m8260_get_irq_def m8260_unmask_irq_def NR_IRQS_def Let_def)
  have "5 < NR_IRQS" by (simp add: NR_IRQS_def)
  from external_interrupt_masks [OF mpc.irq_ctl_axioms get this refl, of "\<lambda>_ _. irq_free_handler mpc_ctl 5" "''once''"] h
  show ?thesis by simp
qed

text \<open>
  \<open>do_irqinfo\<close> stops before interrupt 32 and prints a count that nothing in the file increments: a handler of one
  of the upper 32 interrupts is never shown, and all others with the count they were installed with.
\<close>
lemma irqinfo_shows:
  "(n, h, a, c) \<in> set (fst (do_irqinfo P s)) \<longleftrightarrow>
     n < 32 \<and> irq_handlers s n = \<lparr>handler = Some h, arg = a, count = c\<rparr>"
  by (auto simp: do_irqinfo_def Let_def split: prod.split)

end
