(* ===== verification/Traps.thy ===== *)
theory Traps
  imports Prelude
begin

unbundle bit_operations_syntax

section \<open>Exceptions (arch/mips32/mips32\_traps.c)\<close>

text \<open>
  The exception handlers of U-Boot for the MPC8260, kept behind \<^verbatim>\<open>#if 0\<close>: they print the registers and the call chain and give
  up, unless somebody knows better. What is printed is a list of items; \<open>panic\<close> does not return. The exception table, the
  debugger, the PCI registers and the bits of the machine state register are defined outside the repository and are parameters.
\<close>

record pt_regs =
  nip :: u32
  xer :: u32
  link :: u32
  trap :: u32
  dar :: u32
  msr :: u32
  gpr :: "u32 list"

datatype item = Text string | Word u32 | Flag bool | Newline

record 'd trap_env =
  CONFIG_PCI :: bool
  DEBUG :: bool
  CONFIG_CMD_KGDB :: bool
  CONFIG_CMD_BEDBUG :: bool
  MSR_EE :: u32
  MSR_PR :: u32
  MSR_FP :: u32
  MSR_ME :: u32
  MSR_IR :: u32
  MSR_DR :: u32
  load32 :: "u32 \<Rightarrow> u32"
  search_exception_table :: "u32 \<Rightarrow> u32"
  debugger_exception_handler :: "(pt_regs \<Rightarrow> bool) option"
  pci_rd :: "nat \<Rightarrow> 'd \<Rightarrow> u32"
  pci_wr_esr :: "u32 \<Rightarrow> 'd \<Rightarrow> 'd"
  le32_to_cpu :: "u32 \<Rightarrow> u32"
  cpu_to_le32 :: "u32 \<Rightarrow> u32"
  PCI_ERROR_PCI_NO_RSP :: u32

datatype trap_end = Resume pt_regs | Panic string

definition END_OF_MEM :: u32 where "END_OF_MEM = 0x02000000"

subsection \<open>What is printed\<close>

function backtrace_loop :: "(u32 \<Rightarrow> u32) \<Rightarrow> u32 \<Rightarrow> nat \<Rightarrow> item list" where
  "backtrace_loop ld sp cnt =
     (if sp = 0 \<or> END_OF_MEM < sp then []
      else (if cnt mod 7 = 0 then [Newline] else []) @ [Word (ld (sp + 4))]
           @ (if 32 < cnt + 1 then [] else backtrace_loop ld (ld sp) (cnt + 1)))"
  by pat_completeness auto
termination by (relation "measure (\<lambda>(_, _, cnt). 33 - cnt)") auto

definition print_backtrace :: "(u32 \<Rightarrow> u32) \<Rightarrow> u32 \<Rightarrow> item list" where
  "print_backtrace ld sp = Text ''Call backtrace: '' # backtrace_loop ld sp 0 @ [Newline]"

definition show_regs :: "'d trap_env \<Rightarrow> pt_regs \<Rightarrow> item list" where
  "show_regs E regs =
     [Word (nip regs), Word (xer regs), Word (link regs), Word (trap regs), Word (dar regs),
      Word (msr regs), Flag (msr regs AND MSR_EE E \<noteq> 0), Flag (msr regs AND MSR_PR E \<noteq> 0), Flag (msr regs AND MSR_FP E \<noteq> 0),
      Flag (msr regs AND MSR_ME E \<noteq> 0), Flag (msr regs AND MSR_IR E \<noteq> 0), Flag (msr regs AND MSR_DR E \<noteq> 0), Newline]
     @ concat (map (\<lambda>i. (if i mod 8 = 0 then [Text ''GPR''] else []) @ [Word (gpr regs ! i)] @ (if i mod 8 = 7 then [Newline] else [])) [0..<32])"

definition dump_pci :: "'d trap_env \<Rightarrow> 'd \<Rightarrow> item list" where
  "dump_pci E d = map (\<lambda>n. Word (le32_to_cpu E (pci_rd E n d))) [0, 1, 2, 3, 4, 5]"

subsection \<open>The handlers\<close>

definition show_and_panic :: "'d trap_env \<Rightarrow> pt_regs \<Rightarrow> string \<Rightarrow> item list \<times> trap_end" where
  "show_and_panic E regs why = (show_regs E regs @ print_backtrace (load32 E) (gpr regs ! 1), Panic why)"

definition exception_trap :: "'d trap_env \<Rightarrow> pt_regs \<Rightarrow> item list \<times> trap_end" where
  "exception_trap E regs = show_and_panic E regs ''Exception in kernel''"

definition debugger_takes :: "'d trap_env \<Rightarrow> pt_regs \<Rightarrow> bool" where
  "debugger_takes E regs \<longleftrightarrow> CONFIG_CMD_KGDB E \<and> (case debugger_exception_handler E of None \<Rightarrow> False | Some f \<Rightarrow> f regs)"

definition machine_check_cause :: "u32 \<Rightarrow> string" where
  "machine_check_cause m =
     (if m AND 0x000F0000 = drop_bit 12 0x80000000 then ''Machine check signal - probably due to mm fault with mmu off''
      else if m AND 0x000F0000 = drop_bit 13 0x80000000 then ''Transfer error ack signal''
      else if m AND 0x000F0000 = drop_bit 14 0x80000000 then ''Data parity signal''
      else if m AND 0x000F0000 = drop_bit 15 0x80000000 then ''Address parity signal''
      else ''Unknown values in msr'')"

definition MachineCheckException :: "'d trap_env \<Rightarrow> pt_regs \<Rightarrow> 'd \<Rightarrow> item list \<times> trap_end \<times> 'd" where
  "MachineCheckException E regs d =
     (let dump = (if CONFIG_PCI E \<and> DEBUG E then dump_pci E d else [])
      in if CONFIG_PCI E \<and> pci_rd E 0 d AND cpu_to_le32 E (PCI_ERROR_PCI_NO_RSP E) \<noteq> 0
         then (dump, Resume regs, pci_wr_esr E (cpu_to_le32 E (PCI_ERROR_PCI_NO_RSP E)) d)
         else let fixup = search_exception_table E (nip regs)
              in if fixup \<noteq> 0 then (dump, Resume (regs\<lparr>nip := fixup\<rparr>), d)
                 else if debugger_takes E regs then (dump, Resume regs, d)
                 else (dump @ [Text ''Machine check in kernel mode.'', Text (machine_check_cause (msr regs))]
                       @ fst (show_and_panic E regs ''machine check'') @ (if CONFIG_PCI E then dump_pci E d else []),
                       Panic ''machine check'', d))"

definition AlignmentException :: "'d trap_env \<Rightarrow> pt_regs \<Rightarrow> item list \<times> trap_end" where
  "AlignmentException E regs = (if debugger_takes E regs then ([], Resume regs) else show_and_panic E regs ''Alignment Exception'')"

definition ProgramCheckException :: "'d trap_env \<Rightarrow> pt_regs \<Rightarrow> item list \<times> trap_end" where
  "ProgramCheckException E regs = (if debugger_takes E regs then ([], Resume regs) else show_and_panic E regs ''Program Check Exception'')"

definition SoftEmuException :: "'d trap_env \<Rightarrow> pt_regs \<Rightarrow> item list \<times> trap_end" where
  "SoftEmuException E regs = (if debugger_takes E regs then ([], Resume regs) else show_and_panic E regs ''Software Emulation Exception'')"

definition UnknownException :: "'d trap_env \<Rightarrow> pt_regs \<Rightarrow> item list \<times> trap_end" where
  "UnknownException E regs =
     (if debugger_takes E regs then ([], Resume regs)
      else let (out, r) = exception_trap E regs in ([Text ''Bad trap'', Word (nip regs), Word (msr regs), Word (trap regs)] @ out, r))"

definition DebugException :: "'d trap_env \<Rightarrow> (pt_regs \<Rightarrow> pt_regs) \<Rightarrow> pt_regs \<Rightarrow> item list \<times> trap_end" where
  "DebugException E do_bedbug_breakpoint regs =
     ([Text ''Debugger trap'', Word (nip regs)] @ show_regs E regs,
      Resume (if CONFIG_CMD_BEDBUG E then do_bedbug_breakpoint regs else regs))"

definition addr_probe :: "u32 \<Rightarrow> int" where
  "addr_probe addr = 0"

subsection \<open>The call chain\<close>

declare backtrace_loop.simps [simp del]

text \<open>The frames of the chain: the stack pointer, the word it points to, and so on, up to the first that is no address of the memory.\<close>

definition frames :: "(u32 \<Rightarrow> u32) \<Rightarrow> u32 \<Rightarrow> nat \<Rightarrow> u32 list" where
  "frames ld sp n = takeWhile (\<lambda>p. p \<noteq> 0 \<and> p \<le> END_OF_MEM) (map (\<lambda>i. (ld ^^ i) sp) [0..<n])"

lemma frames_Suc:
  "frames ld sp (Suc n) = (if sp = 0 \<or> END_OF_MEM < sp then [] else sp # frames ld (ld sp) n)"
  by (simp add: frames_def upt_conv_Cons map_Suc_upt [symmetric] funpow_swap1 comp_def not_less del: upt_Suc)

lemma frames_0 [simp]: "frames ld sp 0 = []"
  by (simp add: frames_def)

definition words :: "item list \<Rightarrow> u32 list" where
  "words out = concat (map (\<lambda>x. case x of Word w \<Rightarrow> [w] | _ \<Rightarrow> []) out)"

lemma backtrace_words: "cnt \<le> 32 \<Longrightarrow> words (backtrace_loop ld sp cnt) = map (\<lambda>p. ld (p + 4)) (frames ld sp (33 - cnt))"
proof (induction ld sp cnt rule: backtrace_loop.induct)
  case (1 ld sp cnt)
  have "33 - cnt = Suc (32 - cnt)" using 1(2) by simp
  note n = this
  note step = backtrace_loop.simps [of ld sp cnt]
  show ?case
  proof (cases "sp = 0 \<or> END_OF_MEM < sp")
    case False
    then show ?thesis using 1 n unfolding step by (cases "cnt = 32") (auto simp: frames_Suc words_def)
  qed (auto simp: step n frames_Suc words_def)
qed

text \<open>
  The call chain printed after an exception has at most 33 return addresses, also when the chain is a cycle: those of the
  frames up to the first pointer that is null or beyond \<open>END_OF_MEM\<close>. On this processor every stack is beyond it, in
  KSEG0 or KSEG1, and nothing is printed.
\<close>
theorem backtrace_prints:
  "words (print_backtrace ld sp) = map (\<lambda>p. ld (p + 4)) (frames ld sp 33) \<and> length (words (print_backtrace ld sp)) \<le> 33
   \<and> words (print_backtrace ld (sp OR 0x80000000)) = []"
proof -
  have "words (print_backtrace ld sp) = map (\<lambda>p. ld (p + 4)) (frames ld sp 33)" for sp
    using backtrace_words [of 0 ld sp] by (simp add: print_backtrace_def words_def)
  moreover have "length (frames ld sp 33) \<le> 33"
    unfolding frames_def by (rule order_trans [OF length_takeWhile_le]) simp
  moreover have "END_OF_MEM < sp OR 0x80000000"
  proof -
    have "(0x80000000 :: u32) \<le> sp OR 0x80000000" by (subst or.commute) (rule le_word_or2)
    then show ?thesis by (simp add: END_OF_MEM_def word_le_nat_alt word_less_nat_alt)
  qed
  then have "frames ld (sp OR 0x80000000) 33 = []" using frames_Suc [of ld "sp OR 0x80000000" 32] by simp
  ultimately show ?thesis by simp
qed

end
