(* ===== verification/Board.thy ===== *)
theory Board
  imports Prelude
begin

unbundle bit_operations_syntax

section \<open>The start of U-Boot (loader/board.c)\<close>

text \<open>
  \<open>board_init_f\<close> runs the list of initialisations from flash and lays out the memory for the copy of the program in RAM,
  \<open>board_init_r\<close> continues there. The file is kept behind \<^verbatim>\<open>#if 0\<close> and calls functions of U-Boot that are not in the
  repository: the ones of the initialisation list and the others whose results are used are the parameter \<open>board_env\<close>; of the
  rest, the order in which they are called is the list \<open>calls\<close>. The sizes and addresses of the configuration are the record
  \<open>board_config\<close>. Debug messages are left out.
\<close>

record board_config =
  CONFIG_SYS_SDRAM_BASE :: u32
  CONFIG_SYS_MONITOR_BASE :: u32
  CONFIG_SYS_MONITOR_LEN :: u32
  CONFIG_SYS_FLASH_BASE :: u32
  CONFIG_SYS_MALLOC_LEN :: u32
  CONFIG_SYS_BOOTPARAMS_LEN :: u32
  CONFIG_ENV_ADDR :: u32
  CONFIG_ENV_SIZE :: u32
  CONFIG_BAUDRATE :: u32
  CONFIG_ENV_IS_IN_NVRAM :: bool
  CONFIG_ENV_IS_NOWHERE :: bool
  CONFIG_BOARD_TYPES :: bool
  CONFIG_INCA_IP :: bool
  CONFIG_PURPLE :: bool
  CONFIG_SYS_NO_FLASH :: bool
  CONFIG_SYS_LONGHELP :: bool
  CONFIG_CMD_NAND :: bool
  CONFIG_CMD_ONENAND :: bool
  CONFIG_PCI :: bool
  CONFIG_CMD_NET :: bool
  CONFIG_NET_MULTI :: bool
  CONFIG_CMD_SPI :: bool
  CONFIG_MISC_INIT_R :: bool
  CONFIG_BITBANGMII :: bool
  sizeof_bd :: u32
  sizeof_gd :: u32
  uboot_end :: u32
  uboot_end_data :: u32

definition TOTAL_MALLOC_LEN :: "board_config \<Rightarrow> u32" where
  "TOTAL_MALLOC_LEN C =
     (if CONFIG_ENV_ADDR C + CONFIG_ENV_SIZE C < CONFIG_SYS_MONITOR_BASE C
         \<or> CONFIG_SYS_MONITOR_BASE C + CONFIG_SYS_MONITOR_LEN C \<le> CONFIG_ENV_ADDR C \<or> CONFIG_ENV_IS_IN_NVRAM C
      then CONFIG_SYS_MALLOC_LEN C + CONFIG_ENV_SIZE C else CONFIG_SYS_MALLOC_LEN C)"

subsection \<open>State\<close>

text \<open>\<open>bd_t\<close> and \<open>gd_t\<close> as far as the file uses them.\<close>

record bd =
  bi_boot_params :: u32
  bi_memstart :: u32
  bi_memsize :: u32
  bi_baudrate :: u32
  bi_flashstart :: u32
  bi_flashsize :: u32
  bi_flashoffset :: u32
  bi_ip_addr :: u32

record gd =
  gd_bd :: u32
  ram_size :: u32
  board_type :: u32
  baudrate :: u32
  reloc_off :: u32
  gd_flags :: u32

datatype init_fnc = Board_early_init_f | Timer_init | Env_init | Incaip_set_cpuclk | Init_baudrate | Serial_init
  | Console_init_f | Display_banner | Checkboard | Init_func_ram

text \<open>\<open>init_other\<close> is what the functions of other files do: the value they return, and what they leave in the global data.\<close>

record board_env =
  init_other :: "init_fnc \<Rightarrow> gd \<Rightarrow> u32 \<times> gd"
  initdram :: "u32 \<Rightarrow> u32"
  getenv_f :: "string \<Rightarrow> (int \<times> string)"
  getenv :: "string \<Rightarrow> string option"
  simple_strtoul :: "string \<Rightarrow> nat \<Rightarrow> u32"
  getenv_IPaddr :: "string \<Rightarrow> u32"
  flash_init :: u32

subsection \<open>The initialisations\<close>

definition init_func_ram :: "board_config \<Rightarrow> board_env \<Rightarrow> gd \<Rightarrow> u32 \<times> gd" where
  "init_func_ram C E g =
     (let t = (if CONFIG_BOARD_TYPES C then board_type g else 0);
          g = g\<lparr>ram_size := initdram E t\<rparr>
      in (if 0 < ram_size g then 0 else 1, g))"

definition display_banner :: "gd \<Rightarrow> u32 \<times> gd" where
  "display_banner g = (0, g)"

definition board_early_init_f :: "gd \<Rightarrow> u32 \<times> gd" where
  "board_early_init_f g = (0, g)"

definition init_baudrate :: "board_config \<Rightarrow> board_env \<Rightarrow> gd \<Rightarrow> u32 \<times> gd" where
  "init_baudrate C E g =
     (let (i, tmp) = getenv_f E ''baudrate''
      in (0, g\<lparr>baudrate := (if 0 < i then simple_strtoul E tmp 10 else CONFIG_BAUDRATE C)\<rparr>))"

definition init_call :: "board_config \<Rightarrow> board_env \<Rightarrow> init_fnc \<Rightarrow> gd \<Rightarrow> u32 \<times> gd" where
  "init_call C E f g =
     (case f of Board_early_init_f \<Rightarrow> board_early_init_f g
      | Init_baudrate \<Rightarrow> init_baudrate C E g
      | Display_banner \<Rightarrow> display_banner g
      | Init_func_ram \<Rightarrow> init_func_ram C E g
      | _ \<Rightarrow> init_other E f g)"

definition init_sequence :: "board_config \<Rightarrow> init_fnc list" where
  "init_sequence C =
     [Board_early_init_f, Timer_init, Env_init] @ (if CONFIG_INCA_IP C then [Incaip_set_cpuclk] else []) @
     [Init_baudrate, Serial_init, Console_init_f, Display_banner, Checkboard, Init_func_ram]"

text \<open>None is \<open>hang\<close>: a message and an endless loop.\<close>

fun init_loop :: "board_config \<Rightarrow> board_env \<Rightarrow> init_fnc list \<Rightarrow> gd \<Rightarrow> gd option" where
  "init_loop C E [] g = Some g"
| "init_loop C E (f # fs) g = (let (r, g) = init_call C E f g in if r \<noteq> 0 then None else init_loop C E fs g)"

subsection \<open>\<open>board_init_f\<close>\<close>

text \<open>
  What \<open>relocate_code\<close> is called with, and the structures that have been placed: the new stack pointer, the address of the copy
  of the global data and of the program, the board record and its address. \<open>frame\<close> are the two words cleared for the first
  stack frame.
\<close>

record relocation =
  addr_sp :: u32
  id_addr :: u32
  text_addr :: u32
  bd_addr :: u32
  bd_data :: bd
  id_data :: gd
  frame :: "u32 list"

definition board_init_f :: "board_config \<Rightarrow> board_env \<Rightarrow> bd \<Rightarrow> relocation option" where
  "board_init_f C E bd0 =
     (let len = uboot_end C - CONFIG_SYS_MONITOR_BASE C;
          g = \<lparr>gd_bd = 0, ram_size = 0, board_type = 0, baudrate = 0, reloc_off = 0, gd_flags = 0\<rparr>
      in case init_loop C E (init_sequence C) g of
           None \<Rightarrow> None
         | Some g \<Rightarrow>
             let addr = CONFIG_SYS_SDRAM_BASE C + ram_size g;
                 addr = addr AND NOT (4096 - 1);
                 addr = addr - len;
                 addr = addr AND NOT (16 * 1024 - 1);
                 sp = addr - TOTAL_MALLOC_LEN C;
                 sp = sp - sizeof_bd C;
                 bd = sp;
                 g = g\<lparr>gd_bd := bd\<rparr>;
                 sp = sp - sizeof_gd C;
                 id = sp;
                 sp = sp - CONFIG_SYS_BOOTPARAMS_LEN C;
                 b = bd0\<lparr>bi_boot_params := sp\<rparr>;
                 sp = sp - 16;
                 sp = sp AND NOT 0xF;
                 b = b\<lparr>bi_memstart := CONFIG_SYS_SDRAM_BASE C, bi_memsize := ram_size g, bi_baudrate := baudrate g\<rparr>
             in Some \<lparr>addr_sp = sp - 8, id_addr = id, text_addr = addr, bd_addr = bd, bd_data = b, id_data = g, frame = [sp, sp - 4]\<rparr>)"

subsection \<open>\<open>board_init_r\<close>\<close>

record cmd_tbl =
  cmd :: u32
  cmd_name :: u32
  cmd_usage :: u32
  cmd_help :: u32

definition relocate_cmd :: "board_config \<Rightarrow> u32 \<Rightarrow> cmd_tbl \<Rightarrow> cmd_tbl" where
  "relocate_cmd C off c =
     (let c = c\<lparr>cmd := cmd c + off\<rparr>;
          c = c\<lparr>cmd_name := cmd_name c + off\<rparr>;
          c = (if cmd_usage c \<noteq> 0 then c\<lparr>cmd_usage := cmd_usage c + off\<rparr> else c)
      in if CONFIG_SYS_LONGHELP C \<and> cmd_help c \<noteq> 0 then c\<lparr>cmd_help := cmd_help c + off\<rparr> else c)"

datatype board_call = Mem_malloc_init u32 u32 | Malloc_bin_reloc | Flash_init | Display_flash_config u32 | Nand_init | Onenand_init
  | Env_relocate | Pci_init | Stdio_init | Jumptable_init | Console_init_r | Load_addr u32 | Boot_file string | Spi_init
  | Misc_init_r | Bb_miiphy_init | Eth_initialize | Main_loop

record board_r =
  r_gd :: gd
  r_bd :: bd
  r_cmds :: "cmd_tbl list"
  monitor_flash_len :: u32
  env_name_spec :: u32
  calls :: "board_call list"

text \<open>
  The state when \<open>main_loop\<close> is called for the first time; it is called again and again. \<open>GD_FLG_RELOC\<close> is a flag of
  the global data whose bit is defined outside the repository.
\<close>

definition board_init_r :: "board_config \<Rightarrow> board_env \<Rightarrow> u32 \<Rightarrow> gd \<Rightarrow> bd \<Rightarrow> u32 \<Rightarrow> cmd_tbl list \<Rightarrow> u32 \<Rightarrow> board_r" where
  "board_init_r C E GD_FLG_RELOC g b dest_addr cmds spec =
     (let g = g\<lparr>gd_flags := gd_flags g OR GD_FLG_RELOC\<rparr>;
          g = g\<lparr>reloc_off := dest_addr - CONFIG_SYS_MONITOR_BASE C\<rparr>;
          mlen = uboot_end_data C - dest_addr;
          cmds = map (relocate_cmd C (reloc_off g)) cmds;
          spec = (if CONFIG_ENV_IS_NOWHERE C then spec else spec + reloc_off g);
          cs = [Mem_malloc_init (CONFIG_SYS_MONITOR_BASE C + reloc_off g - TOTAL_MALLOC_LEN C) (TOTAL_MALLOC_LEN C), Malloc_bin_reloc];
          (cs, b) = (if CONFIG_SYS_NO_FLASH C then (cs, b)
                     else (cs @ [Flash_init, Display_flash_config (flash_init E)], b\<lparr>bi_flashsize := flash_init E\<rparr>));
          b = b\<lparr>bi_flashstart := CONFIG_SYS_FLASH_BASE C\<rparr>;
          b = b\<lparr>bi_flashoffset := (if CONFIG_SYS_MONITOR_BASE C = CONFIG_SYS_FLASH_BASE C then mlen else 0)\<rparr>;
          cs = cs @ (if CONFIG_CMD_NAND C then [Nand_init] else []) @ (if CONFIG_CMD_ONENAND C then [Onenand_init] else []);
          cs = cs @ [Env_relocate];
          b = b\<lparr>bi_ip_addr := getenv_IPaddr E ''ipaddr''\<rparr>;
          cs = cs @ (if CONFIG_PCI C then [Pci_init] else []) @ [Stdio_init, Jumptable_init, Console_init_r];
          cs = cs @ (case getenv E ''loadaddr'' of None \<Rightarrow> [] | Some s \<Rightarrow> [Load_addr (simple_strtoul E s 16)]);
          cs = cs @ (if CONFIG_CMD_NET C then (case getenv E ''bootfile'' of None \<Rightarrow> [] | Some s \<Rightarrow> [Boot_file s]) else []);
          cs = cs @ (if CONFIG_CMD_SPI C then [Spi_init] else []) @ (if CONFIG_MISC_INIT_R C then [Misc_init_r] else [])
                  @ (if CONFIG_BITBANGMII C then [Bb_miiphy_init] else []) @ (if CONFIG_CMD_NET C then [Eth_initialize] else [])
      in \<lparr>r_gd = g, r_bd = b, r_cmds = cmds, monitor_flash_len = mlen, env_name_spec = spec, calls = cs @ [Main_loop]\<rparr>)"

subsection \<open>The initialisation list\<close>

text \<open>The list is run in order and up to the first function that does not return 0.\<close>

lemma init_loop_append:
  "init_loop C E (fs @ gs) g = (case init_loop C E fs g of None \<Rightarrow> None | Some g \<Rightarrow> init_loop C E gs g)"
  by (induction fs arbitrary: g) (auto simp: Let_def split: prod.split)

lemma init_sequence_ram:
  "init_loop C E (init_sequence C) g = Some g' \<Longrightarrow>
     \<exists>t. ram_size g' = initdram E t \<and> 0 < ram_size g'"
  unfolding init_sequence_def
  by (auto simp: init_loop_append init_call_def init_func_ram_def Let_def split: option.splits if_splits prod.splits)

subsection \<open>Properties\<close>

lemma round_down_bounds:
  assumes "n < 32"
  shows "unat ((a :: u32) AND NOT (mask n)) \<le> unat a" "unat a < unat (a AND NOT (mask n)) + 2 ^ n" "2 ^ n dvd unat (a AND NOT (mask n))"
  using dividend_less_div_times [of "2 ^ n" "unat a"] unfolding unat_round_down [OF assms] by (simp_all add: add.commute)

lemma unat_minus_below: "unat b \<le> unat a \<Longrightarrow> unat (a - b) = unat a - unat (b :: u32)"
  by (simp add: unat_sub word_le_nat_alt)

definition board_room :: "board_config \<Rightarrow> nat" where
  "board_room C = unat (uboot_end C - CONFIG_SYS_MONITOR_BASE C) + unat (TOTAL_MALLOC_LEN C) + unat (sizeof_bd C)
     + unat (sizeof_gd C) + unat (CONFIG_SYS_BOOTPARAMS_LEN C) + 4096 + 16384 + 64"

lemma board_memory_layout:
  assumes r: "board_init_f C E bd0 = Some r"
    and ram: "unat (CONFIG_SYS_SDRAM_BASE C) + unat (ram_size (id_data r)) < 2 ^ 32" "board_room C \<le> unat (ram_size (id_data r))"
  shows "unat (text_addr r) + unat (uboot_end C - CONFIG_SYS_MONITOR_BASE C) \<le> unat (CONFIG_SYS_SDRAM_BASE C) + unat (ram_size (id_data r))
       \<and> 16384 dvd unat (text_addr r)
       \<and> unat (bd_addr r) + unat (sizeof_bd C) + unat (TOTAL_MALLOC_LEN C) = unat (text_addr r)
       \<and> unat (id_addr r) + unat (sizeof_gd C) = unat (bd_addr r) \<and> gd_bd (id_data r) = bd_addr r
       \<and> unat (bi_boot_params (bd_data r)) + unat (CONFIG_SYS_BOOTPARAMS_LEN C) = unat (id_addr r)
       \<and> unat (addr_sp r) + 8 + 16 \<le> unat (bi_boot_params (bd_data r)) \<and> 16 dvd unat (addr_sp r) + 8
       \<and> frame r = [addr_sp r + 8, addr_sp r + 4] \<and> unat (CONFIG_SYS_SDRAM_BASE C) \<le> unat (addr_sp r)"
proof -
  obtain g where g: "init_loop C E (init_sequence C) \<lparr>gd_bd = 0, ram_size = 0, board_type = 0, baudrate = 0, reloc_off = 0, gd_flags = 0\<rparr> = Some g"
    using r by (auto simp: board_init_f_def Let_def split: option.splits)
  define high where "high = CONFIG_SYS_SDRAM_BASE C + ram_size g"
  define len where "len = uboot_end C - CONFIG_SYS_MONITOR_BASE C"
  define page where "page = high AND NOT (mask 12)"
  define prog where "prog = (page - len) AND NOT (mask 14)"
  define bd where "bd = prog - TOTAL_MALLOC_LEN C - sizeof_bd C"
  define gd where "gd = bd - sizeof_gd C"
  define bp where "bp = gd - CONFIG_SYS_BOOTPARAMS_LEN C"
  define sp where "sp = (bp - 16) AND NOT (mask 4)"
  have masks: "4096 - 1 = (mask 12 :: u32)" "16 * 1024 - 1 = (mask 14 :: u32)" "0xF = (mask 4 :: u32)"
    by (simp_all add: mask_eq_exp_minus_1)
  have r': "ram_size (id_data r) = ram_size g" "text_addr r = prog" "bd_addr r = bd" "id_addr r = gd" "gd_bd (id_data r) = bd"
    "bi_boot_params (bd_data r) = bp" "addr_sp r = sp - 8" "frame r = [sp, sp - 4]"
    using r unfolding board_init_f_def Let_def g option.case masks
    by (auto simp: high_def len_def page_def prog_def bd_def gd_def bp_def sp_def)
  note room = ram [unfolded r'(1) board_room_def, folded len_def]
  have high: "unat high = unat (CONFIG_SYS_SDRAM_BASE C) + unat (ram_size g)"
    unfolding high_def using room(1) by (simp add: unat_word_ariths)
  have page: "unat page \<le> unat high" "unat high < unat page + 4096"
    using round_down_bounds [of 12 high] by (simp_all add: page_def)
  have p: "unat (page - len) = unat page - unat len" by (rule unat_minus_below) (use high page room in simp)
  have prog: "unat prog \<le> unat page - unat len" "unat page - unat len < unat prog + 16384" "16384 dvd unat prog"
    using round_down_bounds [of 14 "page - len"] by (simp_all add: prog_def p)
  have low: "unat (TOTAL_MALLOC_LEN C) + unat (sizeof_bd C) + unat (sizeof_gd C) + unat (CONFIG_SYS_BOOTPARAMS_LEN C) + 64
      + unat (CONFIG_SYS_SDRAM_BASE C) \<le> unat prog"
    using room(2) page prog(1,2) high by linarith
  have m: "unat (prog - TOTAL_MALLOC_LEN C) = unat prog - unat (TOTAL_MALLOC_LEN C)" by (rule unat_minus_below) (use low in simp)
  have bd: "unat bd = unat prog - unat (TOTAL_MALLOC_LEN C) - unat (sizeof_bd C)"
    unfolding bd_def m [symmetric] by (rule unat_minus_below) (use low m in simp)
  have gd: "unat gd = unat bd - unat (sizeof_gd C)" unfolding gd_def by (rule unat_minus_below) (use low bd in simp)
  have bp: "unat bp = unat gd - unat (CONFIG_SYS_BOOTPARAMS_LEN C)"
    unfolding bp_def by (rule unat_minus_below) (use low bd gd in simp)
  have bp16: "unat (bp - 16) = unat bp - 16" using unat_minus_below [of 16 bp] low bd gd bp by simp
  have sp: "unat sp \<le> unat bp - 16" "unat bp - 16 < unat sp + 16" "16 dvd unat sp"
    using round_down_bounds [of 4 "bp - 16"] by (simp_all add: sp_def bp16)
  have sp8: "unat (sp - 8) = unat sp - 8" using unat_minus_below [of 8 sp] low bd gd bp sp by simp
  have frame: "[sp, sp - 4] = [sp - 8 + 8, sp - 8 + 4]" by simp
  show ?thesis unfolding r' sp8 frame len_def [symmetric]
    using high page prog low bd gd bp sp by (intro conjI) simp_all
qed

text \<open>
  C30. The memory map of U-Boot. When the initialisations succeed and the memory found is large enough, the program, the heap, the
  board record, the global data, the boot parameters and the stack lie one below the other at the top of the memory: no two
  overlap, all are inside the memory, the program begins on 16 KByte and the first stack frame on 16 bytes, and the two words
  cleared for the frame lie between the stack pointer and the boot parameters.
\<close>
theorem board_memory_map:
  assumes r: "board_init_f C E bd0 = Some r"
    and ram: "unat (CONFIG_SYS_SDRAM_BASE C) + unat (ram_size (id_data r)) < 2 ^ 32" "board_room C \<le> unat (ram_size (id_data r))"
  shows "unat (text_addr r) + unat (uboot_end C - CONFIG_SYS_MONITOR_BASE C) \<le> unat (CONFIG_SYS_SDRAM_BASE C) + unat (ram_size (id_data r))
       \<and> 16384 dvd unat (text_addr r)
       \<and> unat (bd_addr r) + unat (sizeof_bd C) + unat (TOTAL_MALLOC_LEN C) = unat (text_addr r)
       \<and> unat (id_addr r) + unat (sizeof_gd C) = unat (bd_addr r) \<and> gd_bd (id_data r) = bd_addr r
       \<and> unat (bi_boot_params (bd_data r)) + unat (CONFIG_SYS_BOOTPARAMS_LEN C) = unat (id_addr r)
       \<and> unat (addr_sp r) + 8 + 16 \<le> unat (bi_boot_params (bd_data r)) \<and> 16 dvd unat (addr_sp r) + 8
       \<and> frame r = [addr_sp r + 8, addr_sp r + 4] \<and> unat (CONFIG_SYS_SDRAM_BASE C) \<le> unat (addr_sp r)"
  by (rule board_memory_layout [OF assms])

text \<open>A pointer into the program as it is linked leads to the same place of the copy.\<close>

definition moved :: "board_config \<Rightarrow> u32 \<Rightarrow> u32 \<Rightarrow> u32" where
  "moved C dest p = dest + (p - CONFIG_SYS_MONITOR_BASE C)"

lemma relocate_cmd_moved:
  "relocate_cmd C (dest - CONFIG_SYS_MONITOR_BASE C) c =
     \<lparr>cmd = moved C dest (cmd c), cmd_name = moved C dest (cmd_name c),
      cmd_usage = (if cmd_usage c = 0 then 0 else moved C dest (cmd_usage c)),
      cmd_help = (if CONFIG_SYS_LONGHELP C \<and> cmd_help c \<noteq> 0 then moved C dest (cmd_help c) else cmd_help c)\<rparr>"
  by (cases c) (simp add: relocate_cmd_def moved_def Let_def)

lemma board_init_r_fields:
  "r_cmds (board_init_r C E f g b dest cmds spec) = map (relocate_cmd C (dest - CONFIG_SYS_MONITOR_BASE C)) cmds"
  "hd (calls (board_init_r C E f g b dest cmds spec)) = Mem_malloc_init (dest - TOTAL_MALLOC_LEN C) (TOTAL_MALLOC_LEN C)"
  by (simp_all add: board_init_r_def Let_def)

text \<open>
  The two halves of the start agree. When \<open>board_init_r\<close> runs at the address to which \<open>board_init_f\<close> has sent the program, the
  heap it sets up first is the stretch that was reserved: it begins at the end of the board record and ends at the program;
  and a pointer of the command table into the program of length \<open>len\<close> leads to the same offset of the copy, inside the memory
  reserved for it, while a null pointer for the usage or help text stays null (and the help text is moved only when it is configured).
\<close>
theorem board_halves_agree:
  assumes r: "board_init_f C E bd0 = Some r"
    and ram: "unat (CONFIG_SYS_SDRAM_BASE C) + unat (ram_size (id_data r)) < 2 ^ 32" "board_room C \<le> unat (ram_size (id_data r))"
    and s: "s = board_init_r C E flag (id_data r) (bd_data r) (text_addr r) cmds spec"
  shows "(\<exists>heap. hd (calls s) = Mem_malloc_init heap (TOTAL_MALLOC_LEN C)
             \<and> unat heap = unat (bd_addr r) + unat (sizeof_bd C) \<and> unat heap + unat (TOTAL_MALLOC_LEN C) = unat (text_addr r))
       \<and> r_cmds s = map (\<lambda>c. \<lparr>cmd = moved C (text_addr r) (cmd c), cmd_name = moved C (text_addr r) (cmd_name c),
              cmd_usage = (if cmd_usage c = 0 then 0 else moved C (text_addr r) (cmd_usage c)),
              cmd_help = (if CONFIG_SYS_LONGHELP C \<and> cmd_help c \<noteq> 0 then moved C (text_addr r) (cmd_help c) else cmd_help c)\<rparr>) cmds
       \<and> (\<forall>p. unat (p - CONFIG_SYS_MONITOR_BASE C) < unat (uboot_end C - CONFIG_SYS_MONITOR_BASE C) \<longrightarrow>
             unat (moved C (text_addr r) p) = unat (text_addr r) + unat (p - CONFIG_SYS_MONITOR_BASE C)
             \<and> unat (moved C (text_addr r) p) < unat (CONFIG_SYS_SDRAM_BASE C) + unat (ram_size (id_data r)))"
proof -
  note map = board_memory_layout [OF r ram]
  have "unat (text_addr r - TOTAL_MALLOC_LEN C) = unat (text_addr r) - unat (TOTAL_MALLOC_LEN C)"
    by (rule unat_minus_below) (use map in linarith)
  moreover have "unat (moved C (text_addr r) p) = unat (text_addr r) + unat (p - CONFIG_SYS_MONITOR_BASE C)"
    if "unat (p - CONFIG_SYS_MONITOR_BASE C) < unat (uboot_end C - CONFIG_SYS_MONITOR_BASE C)" for p
    using map ram(1) that unfolding moved_def by (simp add: unat_word_ariths)
  ultimately show ?thesis
    using map by (auto simp: s board_init_r_fields relocate_cmd_moved)
qed

text \<open>
  Without memory there is no start: when \<open>initdram\<close> finds none, \<open>board_init_f\<close> hangs and \<open>relocate_code\<close> is never
  reached; otherwise the size it found is the size that the board record shows.
\<close>
theorem board_init_f_needs_ram:
  "board_init_f C E bd0 = Some r \<Longrightarrow>
     (\<exists>t. ram_size (id_data r) = initdram E t) \<and> 0 < ram_size (id_data r) \<and> bi_memsize (bd_data r) = ram_size (id_data r)"
  by (auto simp: board_init_f_def Let_def split: option.splits dest!: init_sequence_ram)

definition demo_config :: board_config where
  "demo_config = \<lparr>CONFIG_SYS_SDRAM_BASE = 0x80000000, CONFIG_SYS_MONITOR_BASE = 0xBFC00000, CONFIG_SYS_MONITOR_LEN = 0x30000,
     CONFIG_SYS_FLASH_BASE = 0xBFC00000, CONFIG_SYS_MALLOC_LEN = 0x20000, CONFIG_SYS_BOOTPARAMS_LEN = 0x20000,
     CONFIG_ENV_ADDR = 0xBFC30000, CONFIG_ENV_SIZE = 0x10000, CONFIG_BAUDRATE = 115200, CONFIG_ENV_IS_IN_NVRAM = False,
     CONFIG_ENV_IS_NOWHERE = False, CONFIG_BOARD_TYPES = False, CONFIG_INCA_IP = False, CONFIG_PURPLE = False,
     CONFIG_SYS_NO_FLASH = False, CONFIG_SYS_LONGHELP = True, CONFIG_CMD_NAND = True, CONFIG_CMD_ONENAND = False, CONFIG_PCI = False,
     CONFIG_CMD_NET = True, CONFIG_NET_MULTI = True, CONFIG_CMD_SPI = False, CONFIG_MISC_INIT_R = False, CONFIG_BITBANGMII = False,
     sizeof_bd = 0x38, sizeof_gd = 0x40, uboot_end = 0xBFC28123, uboot_end_data = 0xBFC26000\<rparr>"

definition demo_env :: board_env where
  "demo_env = \<lparr>init_other = (\<lambda>_ g. (0, g)), initdram = (\<lambda>_. 0x4000000), getenv_f = (\<lambda>_. (- 1, '''')), getenv = (\<lambda>_. None),
     simple_strtoul = (\<lambda>_ _. 0), getenv_IPaddr = (\<lambda>_. 0), flash_init = 0x800000\<rparr>"

lemma demo_start: "\<exists>r. board_init_f demo_config demo_env bd0 = Some r \<and> ram_size (id_data r) = 0x4000000
    \<and> text_addr r = 0x83FD4000 \<and> bd_addr r = 0x83FA3FC8 \<and> addr_sp r = 0x83F83F68"
  by (simp add: board_init_f_def init_sequence_def demo_config_def demo_env_def init_call_def init_func_ram_def display_banner_def
      board_early_init_f_def init_baudrate_def TOTAL_MALLOC_LEN_def)

theorem board_memory_map_witness:
  "\<forall>bd0. \<exists>r. board_init_f demo_config demo_env bd0 = Some r
     \<and> unat (text_addr r) + 0x28123 \<le> unat (0x80000000 :: u32) + unat (0x4000000 :: u32) \<and> 16384 dvd unat (text_addr r)
     \<and> unat (bi_boot_params (bd_data r)) + 0x20000 = unat (id_addr r) \<and> unat (addr_sp r) + 8 + 16 \<le> unat (bi_boot_params (bd_data r))"
proof
  fix bd0
  obtain r where r: "board_init_f demo_config demo_env bd0 = Some r" "ram_size (id_data r) = 0x4000000" using demo_start by blast
  have "unat (CONFIG_SYS_SDRAM_BASE demo_config) + unat (ram_size (id_data r)) < 2 ^ 32" "board_room demo_config \<le> unat (ram_size (id_data r))"
    by (simp_all add: r(2) board_room_def demo_config_def TOTAL_MALLOC_LEN_def)
  from board_memory_map [OF r(1) this] r show "\<exists>r. board_init_f demo_config demo_env bd0 = Some r
     \<and> unat (text_addr r) + 0x28123 \<le> unat (0x80000000 :: u32) + unat (0x4000000 :: u32) \<and> 16384 dvd unat (text_addr r)
     \<and> unat (bi_boot_params (bd_data r)) + 0x20000 = unat (id_addr r) \<and> unat (addr_sp r) + 8 + 16 \<le> unat (bi_boot_params (bd_data r))"
    by (intro exI [of _ r]) (simp add: demo_config_def)
qed

theorem board_halves_agree_witness:
  "\<forall>bd0 flag cmds spec. \<exists>r heap. board_init_f demo_config demo_env bd0 = Some r
     \<and> hd (calls (board_init_r demo_config demo_env flag (id_data r) (bd_data r) (text_addr r) cmds spec)) = Mem_malloc_init heap 0x30000
     \<and> unat heap = unat (bd_addr r) + 0x38 \<and> unat heap + 0x30000 = unat (text_addr r)
     \<and> unat (moved demo_config (text_addr r) 0xBFC01234) = unat (text_addr r) + 0x1234"
proof (intro allI)
  fix bd0 flag cmds spec
  obtain r where r: "board_init_f demo_config demo_env bd0 = Some r" "ram_size (id_data r) = 0x4000000" using demo_start by blast
  have ram: "unat (CONFIG_SYS_SDRAM_BASE demo_config) + unat (ram_size (id_data r)) < 2 ^ 32" "board_room demo_config \<le> unat (ram_size (id_data r))"
    by (simp_all add: r(2) board_room_def demo_config_def TOTAL_MALLOC_LEN_def)
  have T: "TOTAL_MALLOC_LEN demo_config = 0x30000" "sizeof_bd demo_config = 0x38" "CONFIG_SYS_MONITOR_BASE demo_config = 0xBFC00000"
    "uboot_end demo_config = 0xBFC28123" by (simp_all add: TOTAL_MALLOC_LEN_def demo_config_def)
  note halves = board_halves_agree [OF r(1) ram refl, where flag = flag and cmds = cmds and spec = spec, unfolded T]
  from halves obtain heap where
    "hd (calls (board_init_r demo_config demo_env flag (id_data r) (bd_data r) (text_addr r) cmds spec)) = Mem_malloc_init heap 0x30000"
    "unat heap = unat (bd_addr r) + 0x38" "unat heap + 0x30000 = unat (text_addr r)" by auto
  moreover from halves have "unat (moved demo_config (text_addr r) 0xBFC01234) = unat (text_addr r) + 0x1234" by auto
  ultimately show "\<exists>r heap. board_init_f demo_config demo_env bd0 = Some r
     \<and> hd (calls (board_init_r demo_config demo_env flag (id_data r) (bd_data r) (text_addr r) cmds spec)) = Mem_malloc_init heap 0x30000
     \<and> unat heap = unat (bd_addr r) + 0x38 \<and> unat heap + 0x30000 = unat (text_addr r)
     \<and> unat (moved demo_config (text_addr r) 0xBFC01234) = unat (text_addr r) + 0x1234"
    using r(1) by blast
qed

end
