(* ===== verification/Bootm.thy ===== *)
theory Bootm
  imports Prelude
begin

unbundle bit_operations_syntax

section \<open>Handing over to Linux (loader/bootm.c, loader/bootm\_qemu\_mips.c)\<close>

text \<open>
  The two \<open>do_bootm_linux\<close> of the U-Boot sources behind \<^verbatim>\<open>#if 0\<close>: the first cuts the command line into arguments and
  builds the tables \<open>argv\<close> and \<open>env\<close> in memory, the second leaves one string at a fixed place. Memory is a map from
  addresses to bytes and words are stored most significant byte first. A pointer into the command line is the index into the
  list of its characters, which ends where the NUL of C is; the line does not overlap the memory that is written. The
  environment, the images, the board record and the macro \<open>UNCACHED_SDRAM\<close> come from outside and are parameters.
  Messages on the console are left out.
\<close>

subsection \<open>Memory\<close>

fun put_bytes :: "u32 \<Rightarrow> u8 list \<Rightarrow> (u32 \<Rightarrow> u8) \<Rightarrow> u32 \<Rightarrow> u8" where
  "put_bytes a [] m = m"
| "put_bytes a (b # bs) m = put_bytes (a + 1) bs (m(a := b))"

definition get_bytes :: "u32 \<Rightarrow> nat \<Rightarrow> (u32 \<Rightarrow> u8) \<Rightarrow> u8 list" where
  "get_bytes a n m = map (\<lambda>i. m (a + of_nat i)) [0..<n]"

definition put_word :: "u32 \<Rightarrow> u32 \<Rightarrow> (u32 \<Rightarrow> u8) \<Rightarrow> u32 \<Rightarrow> u8" where
  "put_word a w = put_bytes a (be32_bytes w)"

definition chars :: "string \<Rightarrow> u8 list" where
  "chars s = map of_char s"

definition str_copy :: "u32 \<Rightarrow> u8 list \<Rightarrow> (u32 \<Rightarrow> u8) \<Rightarrow> u32 \<Rightarrow> u8" where
  "str_copy a s = put_bytes a (s @ [0])"

definition strchr :: "u8 list \<Rightarrow> u8 \<Rightarrow> nat \<Rightarrow> nat option" where
  "strchr line c i =
     (let k = i + length (takeWhile (\<lambda>x. x \<noteq> c) (drop i line)) in if k < length line then Some k else None)"

subsection \<open>The command line (\<open>linux_params_init\<close>)\<close>

abbreviation BLANK :: u8 where "BLANK \<equiv> 0x20"
abbreviation QUOTE :: u8 where "QUOTE \<equiv> 0x22"

definition LINUX_MAX_ENVS :: nat where "LINUX_MAX_ENVS = 256"
definition LINUX_MAX_ARGS :: nat where "LINUX_MAX_ARGS = 256"

record linux_params =
  linux_argc :: nat
  linux_argv :: u32
  linux_env :: u32
  linux_env_p :: u32
  linux_env_idx :: nat
  lmem :: "u32 \<Rightarrow> u8"

lemma strchr_bounds: "strchr line c i = Some k \<Longrightarrow> i \<le> k \<and> k < length line"
  by (auto simp: strchr_def Let_def split: if_splits)

function next_blank :: "u8 list \<Rightarrow> nat option \<Rightarrow> nat option \<Rightarrow> nat option" where
  "next_blank line (Some nxt) (Some quote) =
     (if quote < nxt
      then (case strchr line QUOTE (quote + 1) of
              None \<Rightarrow> None
            | Some nxt \<Rightarrow> next_blank line (strchr line BLANK (nxt + 1)) (strchr line QUOTE (nxt + 1)))
      else Some nxt)"
| "next_blank line None quote = None"
| "next_blank line (Some nxt) None = Some nxt"
  by pat_completeness auto
termination
  by (relation "measure (\<lambda>(line, _, quote). case quote of None \<Rightarrow> 0 | Some q \<Rightarrow> length line - q)")
    (auto split: option.split dest!: strchr_bounds)

function params_loop :: "u8 list \<Rightarrow> nat \<Rightarrow> u32 \<Rightarrow> linux_params \<Rightarrow> u32 \<times> linux_params" where
  "params_loop cl line argp s =
     (if line < length cl \<and> linux_argc s < LINUX_MAX_ARGS
      then let nxt = (case next_blank cl (strchr cl BLANK line) (strchr cl QUOTE line) of
                        None \<Rightarrow> length cl | Some nxt \<Rightarrow> nxt);
               m = put_word (linux_argv s + 4 * of_nat (linux_argc s)) argp (lmem s);
               m = put_bytes argp (take (nxt - line) (drop line cl)) m;
               m = m(argp + of_nat (nxt - line) := 0)
           in params_loop cl (if nxt < length cl then nxt + 1 else nxt) (argp + of_nat (nxt - line) + 1)
                (s\<lparr>linux_argc := linux_argc s + 1, lmem := m\<rparr>)
      else (argp, s))"
  by pat_completeness auto
termination by (relation "measure (\<lambda>(_, _, _, s). LINUX_MAX_ARGS - linux_argc s)") auto

definition linux_params_init :: "u32 \<Rightarrow> u8 list option \<Rightarrow> linux_params \<Rightarrow> linux_params" where
  "linux_params_init start line s =
     (let s = s\<lparr>linux_argc := 1, linux_argv := start, lmem := put_word start 0 (lmem s)\<rparr>;
          (argp, s) = params_loop (case line of None \<Rightarrow> [] | Some l \<Rightarrow> l) 0 (start + 4 * of_nat LINUX_MAX_ARGS) s;
          env = (argp + 15) AND NOT 15
      in s\<lparr>linux_env := env, lmem := put_word env 0 (lmem s), linux_env_p := env + 4 * of_nat LINUX_MAX_ENVS,
           linux_env_idx := 0\<rparr>)"

subsection \<open>The environment (\<open>linux_env_set\<close>)\<close>

definition linux_env_set :: "u8 list \<Rightarrow> u8 list \<Rightarrow> linux_params \<Rightarrow> linux_params" where
  "linux_env_set env_name env_val s =
     (if linux_env_idx s < LINUX_MAX_ENVS - 1
      then let p = linux_env_p s;
               m = put_word (linux_env s + 4 * of_nat (linux_env_idx s)) p (lmem s);
               m = str_copy p env_name m; p = p + of_nat (length env_name);
               m = str_copy p (chars ''='') m; p = p + 1;
               m = str_copy p env_val m; p = p + of_nat (length env_val);
               p = p + 1;
               m = put_word (linux_env s + 4 * of_nat (linux_env_idx s + 1)) 0 m
           in s\<lparr>linux_env_p := p, linux_env_idx := linux_env_idx s + 1, lmem := m\<rparr>
      else s)"

subsection \<open>The conversions of \<open>sprintf\<close>\<close>

definition digit :: "nat \<Rightarrow> u8" where
  "digit d = of_nat (if d < 10 then 48 + d else 55 + d)"

fun digits10 :: "nat \<Rightarrow> u8 list" where
  "digits10 n = (if n < 10 then [digit n] else digits10 (n div 10) @ [digit (n mod 10)])"

fun digits16 :: "nat \<Rightarrow> u8 list" where
  "digits16 n = (if n < 16 then [digit n] else digits16 (n div 16) @ [digit (n mod 16)])"

definition fmt_lu :: "u32 \<Rightarrow> u8 list" where
  "fmt_lu v = digits10 (unat v)"

definition fmt_X :: "u32 \<Rightarrow> u8 list" where
  "fmt_X v = digits16 (unat v)"

definition fmt_08X :: "u32 \<Rightarrow> u8 list" where
  "fmt_08X v = replicate (8 - length (fmt_X v)) 48 @ fmt_X v"

subsection \<open>\<open>do_bootm_linux\<close>\<close>

record bootm_board =
  CONFIG_MEMSIZE_IN_BYTES :: bool
  BOOTM_STATE_OS_GO :: u32
  UNCACHED_SDRAM :: "u32 \<Rightarrow> u32"
  getenv :: "string \<Rightarrow> u8 list option"
  bi_boot_params :: u32
  bi_memstart :: u32
  bi_flashstart :: u32
  bi_flashsize :: u32
  ram_size :: u32

record bootm_images =
  ep :: u32
  rd_start :: u32
  rd_end :: u32

text \<open>\<open>Kernel entry argc argv env m\<close> is the call of the kernel, which does not return.\<close>

datatype bootm_end = Returns u32 | Kernel u32 nat u32 u32 "u32 \<Rightarrow> u8"

definition env_if_set :: "bootm_board \<Rightarrow> string \<Rightarrow> linux_params \<Rightarrow> linux_params" where
  "env_if_set B name s = (case getenv B name of None \<Rightarrow> s | Some cp \<Rightarrow> linux_env_set (chars name) cp s)"

definition do_bootm_linux :: "bootm_board \<Rightarrow> u32 \<Rightarrow> bootm_images \<Rightarrow> linux_params \<Rightarrow> bootm_end" where
  "do_bootm_linux B flag images s =
     (if flag \<noteq> 0 \<and> flag \<noteq> BOOTM_STATE_OS_GO B then Returns 1
      else let s = linux_params_init (UNCACHED_SDRAM B (bi_boot_params B)) (getenv B ''bootargs'') s;
               env_buf = (if CONFIG_MEMSIZE_IN_BYTES B then fmt_lu (ram_size B) else fmt_lu (drop_bit 20 (ram_size B)));
               s = linux_env_set (chars ''memsize'') env_buf s;
               env_buf = chars ''0x'' @ fmt_08X (UNCACHED_SDRAM B (rd_start images));
               s = linux_env_set (chars ''initrd_start'') env_buf s;
               env_buf = chars ''0x'' @ fmt_X (rd_end images - rd_start images);
               s = linux_env_set (chars ''initrd_size'') env_buf s;
               env_buf = chars ''0x'' @ fmt_08X (bi_flashstart B);
               s = linux_env_set (chars ''flash_start'') env_buf s;
               env_buf = chars ''0x'' @ fmt_X (bi_flashsize B);
               s = linux_env_set (chars ''flash_size'') env_buf s;
               s = env_if_set B ''ethaddr'' s;
               s = env_if_set B ''eth1addr'' s
           in Kernel (ep images) (linux_argc s) (linux_argv s) (linux_env s) (lmem s))"

text \<open>The variant for QEMU. Without \<open>bootargs\<close> it takes the length of a null pointer: the result None.\<close>

definition do_bootm_linux_qemu :: "bootm_board \<Rightarrow> bootm_images \<Rightarrow> (u32 \<Rightarrow> u8) \<Rightarrow> bootm_end option" where
  "do_bootm_linux_qemu B images m =
     (case getenv B ''bootargs'' of
        None \<Rightarrow> None
      | Some bootargs \<Rightarrow>
          let bp = bi_memstart B + push_bit 20 16 - 256;
              m = put_word (bp - 4) 0x12345678 m;
              m = put_word (bp - 8) (ram_size B) m;
              m = str_copy bp bootargs m;
              start = bp + of_nat (length bootargs);
              len = rd_end images - rd_start images;
              m = (if 0 < len
                   then str_copy start (chars '' rd_start=0x'' @ fmt_08X (UNCACHED_SDRAM B (rd_start images))
                                          @ chars '' rd_size=0x'' @ fmt_X len) m
                   else m)
          in Some (Kernel (ep images) 0 0 0 m))"

subsection \<open>What the arguments are\<close>

text \<open>
  The specification reads the line once from left to right: an argument ends at the first blank outside
  quotes, and the quotes stay in it.
\<close>

fun quoted_word :: "bool \<Rightarrow> u8 list \<Rightarrow> u8 list" where
  "quoted_word q [] = []"
| "quoted_word q (c # cs) =
     (if c = BLANK \<and> \<not> q then [] else c # quoted_word (if c = QUOTE then \<not> q else q) cs)"

function args_of :: "u8 list \<Rightarrow> u8 list list" where
  "args_of line =
     (if line = [] then [] else quoted_word False line # args_of (drop (length (quoted_word False line) + 1) line))"
  by pat_completeness auto
termination by (relation "measure length") auto

declare args_of.simps [simp del] params_loop.simps [simp del] digits10.simps [simp del] digits16.simps [simp del]

lemma quoted_word_unquoted: "QUOTE \<notin> set (takeWhile (\<lambda>x. x \<noteq> BLANK) cs) \<Longrightarrow> quoted_word False cs = takeWhile (\<lambda>x. x \<noteq> BLANK) cs"
  by (induction cs) (auto split: if_splits)

lemma quoted_word_open: "QUOTE \<notin> set cs \<Longrightarrow> quoted_word True cs = cs"
  by (induction cs) auto

lemma quoted_word_closed: "QUOTE \<notin> set b \<Longrightarrow> quoted_word True (b @ QUOTE # cs) = b @ QUOTE # quoted_word False cs"
  by (induction b) auto

lemma quoted_word_first: "QUOTE \<notin> set a \<Longrightarrow> BLANK \<notin> set a \<Longrightarrow> quoted_word False (a @ QUOTE # cs) = a @ QUOTE # quoted_word True cs"
  by (induction a) auto

lemma quoted_word_no_blank: "BLANK \<notin> set cs \<Longrightarrow> quoted_word q cs = cs"
  by (induction cs arbitrary: q) auto

lemma length_quoted_word: "length (quoted_word q cs) \<le> length cs"
  by (induction cs arbitrary: q) auto

lemma quoted_word_prefix: "take (length (quoted_word q cs)) cs = quoted_word q cs"
  by (induction cs arbitrary: q) auto

lemma quoted_word_idem: "quoted_word q (quoted_word q cs) = quoted_word q cs"
  by (induction cs arbitrary: q) auto

lemma quoted_word_blank:
  "length (quoted_word q cs) < length cs \<Longrightarrow> cs = quoted_word q cs @ BLANK # drop (length (quoted_word q cs) + 1) cs"
  by (induction cs arbitrary: q) (auto split: if_splits)

fun join_blank :: "u8 list list \<Rightarrow> u8 list" where
  "join_blank [] = []"
| "join_blank [s] = s"
| "join_blank (s # t # ss) = s @ BLANK # join_blank (t # ss)"

text \<open>What \<open>strchr\<close> finds cuts the rest of the line.\<close>

lemma strchr_None: "strchr line c i = None \<longleftrightarrow> c \<notin> set (drop i line)"
proof -
  have "c \<notin> set ys \<longleftrightarrow> length (takeWhile (\<lambda>x. x \<noteq> c) ys) = length ys" for ys :: "u8 list"
    by (induction ys) auto
  from this [of "drop i line"] show ?thesis
    using length_takeWhile_le [of "\<lambda>x. x \<noteq> c" "drop i line"]
    by (cases "i \<le> length line") (auto simp: strchr_def Let_def)
qed

lemma strchr_Some:
  assumes "strchr line c i = Some k"
  shows "drop i line = take (k - i) (drop i line) @ c # drop (k + 1) line" "c \<notin> set (take (k - i) (drop i line))" "i \<le> k" "k < length line"
    and "take (k - i) (drop i line) = takeWhile (\<lambda>x. x \<noteq> c) (drop i line)"
proof -
  let ?w = "takeWhile (\<lambda>x. x \<noteq> c) (drop i line)"
  have k: "k = i + length ?w" "k < length line" using assms by (auto simp: strchr_def Let_def split: if_splits)
  then show w: "take (k - i) (drop i line) = ?w" by (metis add_diff_cancel_left' takeWhile_eq_take)
  have "line ! k = c" using k nth_length_takeWhile [of "\<lambda>x. x \<noteq> c" "drop i line"] by (auto simp: nth_append)
  then have "drop k line = c # drop (k + 1) line" using k(2) by (metis Cons_nth_drop_Suc Suc_eq_plus1)
  moreover have "drop i line = take (k - i) (drop i line) @ drop k line"
    using k by (metis append_take_drop_id drop_drop add.commute le_add1 le_add_diff_inverse)
  ultimately show "drop i line = take (k - i) (drop i line) @ c # drop (k + 1) line" by simp
  show "c \<notin> set (take (k - i) (drop i line))" unfolding w by (auto dest: set_takeWhileD)
  show "i \<le> k" "k < length line" using k by simp_all
qed

lemma next_blank_word:
  assumes "i \<le> length line"
  shows "(case next_blank line (strchr line BLANK i) (strchr line QUOTE i) of None \<Rightarrow> length line | Some k \<Rightarrow> k)
           = i + length (quoted_word False (drop i line))"
  using assms
proof (induction "length line - i" arbitrary: i rule: less_induct)
  case less
  let ?rest = "drop i line"
  show ?case
  proof (cases "strchr line BLANK i")
    case None
    with quoted_word_no_blank [of ?rest] show ?thesis using less.prems by (simp add: strchr_None [THEN iffD1, OF None])
  next
    case (Some n)
    note n = strchr_Some [OF Some]
    have ln: "length (take (n - i) ?rest) = n - i" using n(3,4) by simp
    show ?thesis
    proof (cases "strchr line QUOTE i")
      case None
      then have "QUOTE \<notin> set (takeWhile (\<lambda>x. x \<noteq> BLANK) ?rest)"
        by (auto simp: strchr_None dest: set_takeWhileD)
      from quoted_word_unquoted [OF this] have "length (quoted_word False ?rest) = n - i" using ln n(5) by simp
      then show ?thesis using n(3) by (simp add: Some None)
    next
      case q: (Some q)
      note r = strchr_Some [OF q]
      show ?thesis
      proof (cases "q < n")
        case False
        then have "set (take (n - i) ?rest) \<subseteq> set (take (q - i) ?rest)" by (simp add: set_take_subset_set_take)
        then have "QUOTE \<notin> set (takeWhile (\<lambda>x. x \<noteq> BLANK) ?rest)" using r(2) n(5) by auto
        from quoted_word_unquoted [OF this] have "length (quoted_word False ?rest) = n - i" using ln n(5) by simp
        then show ?thesis using n(3) False by (simp add: Some q)
      next
        case True
        let ?a = "take (q - i) ?rest"
        have "q - i \<le> n - i" using True by simp
        with n(2) have a: "BLANK \<notin> set ?a" using set_take_subset_set_take [of "q - i" "n - i" ?rest] by blast
        have len: "length ?a = q - i" using r(3,4) by simp
        note split = r(1) quoted_word_first [OF r(2) a]
        show ?thesis
        proof (cases "strchr line QUOTE (q + 1)")
          case None
          from strchr_None [THEN iffD1, OF None] have "quoted_word False ?rest = ?rest" by (metis split quoted_word_open)
          then show ?thesis using Some q None True less.prems by simp
        next
          case c: (Some e)
          note c' = strchr_Some [OF c]
          let ?b = "take (e - (q + 1)) (drop (q + 1) line)"
          have "quoted_word False ?rest = ?a @ QUOTE # ?b @ QUOTE # quoted_word False (drop (e + 1) line)"
            by (metis split c'(1,2) quoted_word_closed)
          then have "length (quoted_word False ?rest) = (e + 1 - i) + length (quoted_word False (drop (e + 1) line))"
            using c'(3,4) r(3) len by simp
          moreover have "length line - (e + 1) < length line - i" "e + 1 \<le> length line" using c' r(3) by simp_all
          ultimately show ?thesis using less.hyps [of "e + 1"] Some q c True c'(3) r(3) by simp
        qed
      qed
    qed
  qed
qed

lemma args_of_Nil [simp]: "args_of [] = []"
  by (simp add: args_of.simps)

lemma args_of_first:
  assumes "i < length cl"
  shows "args_of (drop i cl) = quoted_word False (drop i cl) # args_of (drop (i + length (quoted_word False (drop i cl)) + 1) cl)"
  using assms by (subst args_of.simps) (simp add: add.commute)

lemma args_of_set: "arg \<in> set (args_of line) \<Longrightarrow> set arg \<subseteq> set line"
proof (induction line rule: args_of.induct)
  case (1 line)
  show ?case
  proof (cases "line = []")
    case False
    let ?w = "quoted_word False line"
    have w: "args_of line = ?w # args_of (drop (length ?w + 1) line)" using False by (subst args_of.simps) simp
    show ?thesis
    proof (cases "arg = ?w")
      case True
      then show ?thesis by (metis quoted_word_prefix set_take_subset)
    next
      case other: False
      then have "set arg \<subseteq> set (drop (length ?w + 1) line)" using 1(1) [OF False] 1(2) w by simp
      then show ?thesis using set_drop_subset [of "length ?w + 1" line] by blast
    qed
  qed (use 1 in simp)
qed


end
