(* ===== verification/Bootm_Kernel.thy ===== *)
theory Bootm_Kernel
  imports Bootm
begin

unbundle bit_operations_syntax

section \<open>What the kernel finds in memory\<close>

text \<open>
  The tables that \<open>do_bootm_linux\<close> of \<^verbatim>\<open>bootm.c\<close> builds, argument by argument and variable by variable, up to the call of the
  kernel, and the string and the two words that the variant for QEMU leaves.
\<close>

subsection \<open>Memory that is written\<close>

text \<open>Objects in memory lie at addresses whose last byte does not wrap, so positions are compared as numbers.\<close>

lemma put_bytes_at:
  "unat a + length bs \<le> 2 ^ 32 \<Longrightarrow>
     put_bytes a bs m x = (if unat a \<le> unat x \<and> unat x < unat a + length bs then bs ! (unat x - unat a) else m x)"
proof (induction bs arbitrary: a m)
  case (Cons b bs)
  have x: "x = a \<longleftrightarrow> unat x = unat a" by (rule word_unat_eq_iff)
  define m' where "m' = m(a := b)"
  then have m': "m' x = (if x = a then b else m x)" by simp
  show ?case
  proof (cases "bs = []")
    case True
    then show ?thesis by (simp add: x)
  next
    case False
    then have "unat a + 1 < 2 ^ 32" using Cons.prems by (cases bs) simp_all
    then have "unat (a + 1) = unat a + 1" by (simp add: unat_word_ariths)
    then show ?thesis using Cons.IH [of "a + 1" m'] Cons.prems
      by (auto simp: nth_Cons' x m' simp flip: m'_def)
  qed
qed auto

lemma unat_add_nat: "unat (a :: u32) + n < 2 ^ 32 \<Longrightarrow> unat (a + of_nat n) = unat a + n"
  by (simp add: unat_word_ariths unat_of_nat)

lemma get_bytes_append: "get_bytes a (n + k) m = get_bytes a n m @ get_bytes (a + of_nat n) k m"
  by (rule nth_equalityI) (auto simp: get_bytes_def nth_append)

text \<open>\<open>keeps lo hi m m'\<close>: only addresses from \<open>lo\<close> to below \<open>hi\<close> have been written.\<close>

definition keeps :: "nat \<Rightarrow> nat \<Rightarrow> (u32 \<Rightarrow> u8) \<Rightarrow> (u32 \<Rightarrow> u8) \<Rightarrow> bool" where
  "keeps lo hi m m' \<longleftrightarrow> (\<forall>x. unat x < lo \<or> hi \<le> unat x \<longrightarrow> m' x = m x)"

lemma keeps_trans [trans]: "keeps lo hi m m' \<Longrightarrow> keeps lo hi m' m'' \<Longrightarrow> keeps lo hi m m''"
  by (simp add: keeps_def)

lemma keeps_weaken: "keeps lo hi m m' \<Longrightarrow> lo' \<le> lo \<Longrightarrow> hi \<le> hi' \<Longrightarrow> keeps lo' hi' m m'"
  by (auto simp: keeps_def)

lemma keeps_put_bytes: "unat a + length bs \<le> 2 ^ 32 \<Longrightarrow> keeps (unat a) (unat a + length bs) m (put_bytes a bs m)"
  by (auto simp: keeps_def put_bytes_at)

lemma get_bytes_keeps:
  assumes "keeps lo hi m m'" "unat a + n \<le> 2 ^ 32" "unat a + n \<le> lo \<or> hi \<le> unat a"
  shows "get_bytes a n m' = get_bytes a n m"
proof -
  have "m' (a + of_nat i) = m (a + of_nat i)" if "i < n" for i
    using assms that unat_add_nat [of a i] by (auto simp: keeps_def)
  then show ?thesis by (simp add: get_bytes_def)
qed

lemma get_put_bytes: "unat a + length bs \<le> 2 ^ 32 \<Longrightarrow> get_bytes a (length bs) (put_bytes a bs m) = bs"
  by (rule nth_equalityI) (auto simp: get_bytes_def put_bytes_at unat_add_nat)

text \<open>A word in memory, and a string with its NUL.\<close>

definition word_at :: "u32 \<Rightarrow> u32 \<Rightarrow> (u32 \<Rightarrow> u8) \<Rightarrow> bool" where
  "word_at a w m \<longleftrightarrow> get_bytes a 4 m = be32_bytes w"

definition str_at :: "u32 \<Rightarrow> u8 list \<Rightarrow> (u32 \<Rightarrow> u8) \<Rightarrow> bool" where
  "str_at a s m \<longleftrightarrow> 0 \<notin> set s \<and> get_bytes a (length s + 1) m = s @ [0]"

lemma word_at_put: "unat a + 4 \<le> 2 ^ 32 \<Longrightarrow> word_at a w (put_word a w m)"
  using get_put_bytes [of a "be32_bytes w" m] by (simp add: word_at_def put_word_def)

lemma keeps_put_word: "unat a + 4 \<le> 2 ^ 32 \<Longrightarrow> keeps (unat a) (unat a + 4) m (put_word a w m)"
  using keeps_put_bytes [of a "be32_bytes w" m] by (simp add: put_word_def)

lemma word_at_keeps:
  "word_at a w m \<Longrightarrow> keeps lo hi m m' \<Longrightarrow> unat a + 4 \<le> 2 ^ 32 \<Longrightarrow> unat a + 4 \<le> lo \<or> hi \<le> unat a \<Longrightarrow> word_at a w m'"
  using get_bytes_keeps by (simp add: word_at_def)

subsection \<open>A table of strings\<close>

text \<open>
  \<open>argv\<close> and \<open>env\<close> have the same shape: a table of pointers at \<open>tab\<close>, and the strings one behind the other from \<open>base\<close>.
\<close>

definition packed :: "u8 list list \<Rightarrow> u8 list" where
  "packed ss = concat (map (\<lambda>s. s @ [0]) ss)"

definition string_table :: "u32 \<Rightarrow> u32 \<Rightarrow> u8 list list \<Rightarrow> (u32 \<Rightarrow> u8) \<Rightarrow> bool" where
  "string_table tab base ss m \<longleftrightarrow>
     (\<forall>i < length ss. word_at (tab + 4 * of_nat i) (base + of_nat (length (packed (take i ss)))) m)
     \<and> get_bytes base (length (packed ss)) m = packed ss"

lemma packed_simps [simp]: "packed [] = []" "packed (s # ss) = s @ 0 # packed ss" "packed (ss @ ts) = packed ss @ packed ts"
  by (simp_all add: packed_def)

text \<open>Such a table is one of strings: each pointer leads to its string.\<close>

lemma string_table_str_at:
  assumes "string_table tab base ss m" "i < length ss" "0 \<notin> set (ss ! i)"
  shows "\<exists>p. word_at (tab + 4 * of_nat i) p m \<and> str_at p (ss ! i) m"
proof -
  let ?n = "length (packed (take i ss))" and ?s = "ss ! i"
  have "ss = take i ss @ ?s # drop (i + 1) ss" using assms(2) by (simp add: id_take_nth_drop)
  then have "packed ss = packed (take i ss) @ (?s @ [0]) @ packed (drop (i + 1) ss)"
    by (metis packed_simps(2,3) append.assoc append_Cons append_Nil)
  moreover have "get_bytes base (length (packed ss)) m = packed ss" using assms(1) by (simp add: string_table_def)
  ultimately have "get_bytes base (?n + ((length ?s + 1) + length (packed (drop (i + 1) ss)))) m
      = packed (take i ss) @ (?s @ [0]) @ packed (drop (i + 1) ss)"
    by (metis length_append length_append_singleton Suc_eq_plus1)
  then have "get_bytes (base + of_nat ?n) (length ?s + 1) m = ?s @ [0]"
    unfolding get_bytes_append by (simp add: get_bytes_def)
  then show ?thesis using assms unfolding string_table_def str_at_def by blast
qed

lemma string_table_snoc:
  assumes t: "string_table tab base ss m"
    and tab: "unat tab + 4 * length ss + 4 \<le> unat base" and base: "unat base + length (packed ss) < 2 ^ 32"
    and kept: "\<And>x. unat x < unat tab + 4 * length ss \<or> (unat base \<le> unat x \<and> unat x < unat base + length (packed ss)) \<Longrightarrow> m' x = m x"
    and ptr: "word_at (tab + 4 * of_nat (length ss)) (base + of_nat (length (packed ss))) m'"
    and str: "get_bytes (base + of_nat (length (packed ss))) (length s + 1) m' = s @ [0]"
  shows "string_table tab base (ss @ [s]) m'"
proof -
  have "word_at (tab + 4 * of_nat i) w m'" if "word_at (tab + 4 * of_nat i) w m" "i < length ss" for i w
  proof -
    have "unat (tab + 4 * of_nat i) = unat tab + 4 * i"
      using unat_add_nat [of tab "4 * i"] that(2) tab base by simp
    then have "unat (tab + 4 * of_nat i + of_nat j) < unat tab + 4 * length ss" if "j < 4" for j
      using unat_add_nat [of "tab + 4 * of_nat i" j] that \<open>i < length ss\<close> tab base by simp
    then have "get_bytes (tab + 4 * of_nat i) 4 m' = get_bytes (tab + 4 * of_nat i) 4 m"
      by (simp add: get_bytes_def kept)
    then show ?thesis using that(1) by (simp add: word_at_def)
  qed
  moreover have "get_bytes base (length (packed ss)) m' = get_bytes base (length (packed ss)) m"
    using base by (auto simp: get_bytes_def unat_add_nat intro!: kept)
  ultimately show ?thesis
    using t ptr str get_bytes_append [of base "length (packed ss)" "length s + 1" m']
    unfolding string_table_def by (auto simp: less_Suc_eq nth_append)
qed

lemma string_table_keeps:
  assumes t: "string_table tab base ss m" and k: "keeps lo hi m m'"
    and "unat tab + 4 * length ss \<le> unat base" "unat base + length (packed ss) \<le> lo" "unat base + length (packed ss) < 2 ^ 32"
  shows "string_table tab base ss m'"
proof -
  have "word_at (tab + 4 * of_nat i) w m'" if "word_at (tab + 4 * of_nat i) w m" "i < length ss" for i w
  proof (rule word_at_keeps [OF that(1) k])
    have "unat (tab + 4 * of_nat i) = unat tab + 4 * i"
      using unat_add_nat [of tab "4 * i"] that(2) assms(3-5) by simp
    then show "unat (tab + 4 * of_nat i) + 4 \<le> 2 ^ 32" "unat (tab + 4 * of_nat i) + 4 \<le> lo \<or> hi \<le> unat (tab + 4 * of_nat i)"
      using that(2) assms(3-5) by simp_all
  qed
  then show ?thesis using t get_bytes_keeps [OF k, of base "length (packed ss)"] assms(4,5) by (simp add: string_table_def)
qed

lemma packed_args_le: "length (packed (args_of line)) \<le> length line + 1"
proof (induction line rule: args_of.induct)
  case (1 line)
  show ?case
  proof (cases "line = []")
    case False
    let ?w = "quoted_word False line"
    have w: "args_of line = ?w # args_of (drop (length ?w + 1) line)" using False by (subst args_of.simps) simp
    show ?thesis
    proof (cases "length ?w < length line")
      case True
      then show ?thesis using 1 [OF False] by (simp add: w)
    next
      case False
      then show ?thesis using length_quoted_word [of False line] by (simp add: w)
    qed
  qed simp
qed

lemma packed_take_args_le: "length (packed (take n (args_of line))) \<le> length line + 1"
proof -
  have "length (packed (take n ss)) \<le> length (packed ss)" for ss
    by (metis append_take_drop_id length_append le_add1 packed_simps(3))
  then show ?thesis using packed_args_le [of line] by (rule order_trans)
qed

text \<open>One round of the loop adds the next argument to the table.\<close>

lemma params_round:
  assumes t: "string_table (start + 4) base ss m" and base: "unat base = unat start + 1024" and n: "length ss < 255"
    and room: "unat base + length (packed (ss @ [w])) \<le> 2 ^ 32"
    and m': "m' = (put_bytes argp w (put_word (start + 4 * of_nat (length ss + 1)) argp m))(argp + of_nat (length w) := 0)"
    and argp: "argp = base + of_nat (length (packed ss))"
  shows "string_table (start + 4) base (ss @ [w]) m'" "keeps (unat start + 4) (unat base + length (packed (ss @ [w]))) m m'"
proof -
  let ?a = "start + 4 * of_nat (length ss + 1)" and ?k = "length (packed ss)"
  have p: "unat argp = unat base + ?k" using room unfolding argp by (intro unat_add_nat) simp
  have a: "unat ?a = unat start + 4 * (length ss + 1)"
    using unat_add_nat [of start "4 * (length ss + 1)"] base n room by simp
  have s4: "unat (start + 4) = unat start + 4" using unat_add_nat [of start 4] base room by simp
  have put: "put_bytes argp (w @ [0]) m1 = (put_bytes argp w m1)(argp + of_nat (length w) := 0)" for m1
    by (induction w arbitrary: argp m1) (simp_all add: algebra_simps)
  have m': "m' = put_bytes argp (w @ [0]) (put_word ?a argp m)" by (simp add: m' put)
  have k1: "keeps (unat ?a) (unat ?a + 4) m (put_word ?a argp m)" using a base n room by (intro keeps_put_word) simp
  have k2: "keeps (unat argp) (unat argp + length (w @ [0])) (put_word ?a argp m) m'"
    unfolding m' using p room by (intro keeps_put_bytes) simp
  show "keeps (unat start + 4) (unat base + length (packed (ss @ [w]))) m m'"
    using keeps_trans [OF keeps_weaken [OF k1] keeps_weaken [OF k2]] a p base n by simp
  show "string_table (start + 4) base (ss @ [w]) m'"
  proof (rule string_table_snoc [OF t])
    show "unat (start + 4) + 4 * length ss + 4 \<le> unat base" using s4 base n by simp
    show "unat base + ?k < 2 ^ 32" using room by simp
    show "m' x = m x" if "unat x < unat (start + 4) + 4 * length ss \<or> (unat base \<le> unat x \<and> unat x < unat base + ?k)" for x
      using that k1 k2 a p s4 base n by (auto simp: keeps_def)
    have "word_at ?a argp (put_word ?a argp m)" using a base n room by (intro word_at_put) simp
    then have "word_at ?a argp m'" using a p base n room by (elim word_at_keeps [OF _ k2]) simp_all
    then show "word_at (start + 4 + 4 * of_nat (length ss)) (base + of_nat ?k) m'" by (simp add: argp algebra_simps)
    have "get_bytes argp (length (w @ [0])) m' = w @ [0]" unfolding m' using p room by (intro get_put_bytes) simp
    then show "get_bytes (base + of_nat ?k) (length w + 1) m' = w @ [0]" by (simp add: argp)
  qed
qed

lemma params_loop_result:
  assumes "string_table (start + 4) base ss (lmem s)" "unat base = unat start + 1024" "length ss \<le> 255"
    and "linux_argv s = start" "linux_argc s = length ss + 1" "i \<le> length cl"
    and "unat base + length (packed ss) + length (packed (args_of (drop i cl))) \<le> 2 ^ 32"
    and "ss' = ss @ take (255 - length ss) (args_of (drop i cl))"
  shows "\<exists>m'. params_loop cl i (base + of_nat (length (packed ss))) s
                = (base + of_nat (length (packed ss')), s\<lparr>linux_argc := length ss' + 1, lmem := m'\<rparr>)
              \<and> string_table (start + 4) base ss' m' \<and> keeps (unat start + 4) (unat base + length (packed ss')) (lmem s) m'"
  using assms
proof (induction "255 - length ss" arbitrary: ss s i rule: less_induct)
  case less
  let ?argp = "base + of_nat (length (packed ss))"
  show ?case
  proof (cases "i < length cl \<and> length ss < 255")
    case False
    then have "ss' = ss" using less.prems by auto
    moreover have "params_loop cl i ?argp s = (?argp, s)"
      using False less.prems(5) by (subst params_loop.simps) (auto simp: LINUX_MAX_ARGS_def)
    ultimately show ?thesis using less.prems by (intro exI [of _ "lmem s"]) (auto simp: keeps_def)
  next
    case True
    let ?w = "quoted_word False (drop i cl)"
    let ?j = "i + length ?w" and ?ss = "ss @ [?w]"
    define m' where "m' = (put_bytes ?argp ?w (put_word (start + 4 * of_nat (length ss + 1)) ?argp (lmem s)))(?argp + of_nat (length ?w) := 0)"
    define s1 where "s1 = s\<lparr>linux_argc := linux_argc s + 1, lmem := m'\<rparr>"
    have blank: "(case next_blank cl (strchr cl BLANK i) (strchr cl QUOTE i) of None \<Rightarrow> length cl | Some k \<Rightarrow> k) = ?j"
      by (rule next_blank_word) (use True in simp)
    have rest: "drop (if ?j < length cl then ?j + 1 else ?j) cl = drop (?j + 1) cl" by auto
    have step: "params_loop cl i ?argp s
        = params_loop cl (if ?j < length cl then ?j + 1 else ?j) (?argp + of_nat (length ?w) + 1) s1"
      using True less.prems(4,5) by (subst params_loop.simps) (simp add: blank LINUX_MAX_ARGS_def Let_def quoted_word_prefix m'_def s1_def)
    have args: "args_of (drop i cl) = ?w # args_of (drop (?j + 1) cl)" using args_of_first [of i cl] True by simp
    have ss': "ss' = ?ss @ take (255 - length ?ss) (args_of (drop (?j + 1) cl))"
      using True less.prems(8) by (simp add: args take_Cons')
    have room: "unat base + length (packed ?ss) \<le> 2 ^ 32" using less.prems(7) by (simp add: args)
    note round = params_round [OF less.prems(1,2) _ room m'_def refl]
    have argp: "?argp + of_nat (length ?w) + 1 = base + of_nat (length (packed ?ss))" by simp
    have "\<exists>m''. params_loop cl (if ?j < length cl then ?j + 1 else ?j) (base + of_nat (length (packed ?ss))) s1
         = (base + of_nat (length (packed ss')), s1\<lparr>linux_argc := length ss' + 1, lmem := m''\<rparr>)
       \<and> string_table (start + 4) base ss' m'' \<and> keeps (unat start + 4) (unat base + length (packed ss')) (lmem s1) m''"
    proof (rule less.hyps)
      show "255 - length ?ss < 255 - length ss" using True by (simp, arith)
      show "string_table (start + 4) base ?ss (lmem s1)" using round(1) True by (simp add: s1_def)
      show "(if ?j < length cl then ?j + 1 else ?j) \<le> length cl" using length_quoted_word [of False "drop i cl"] True by auto
      show "unat base + length (packed ?ss) + length (packed (args_of (drop (if ?j < length cl then ?j + 1 else ?j) cl))) \<le> 2 ^ 32"
        using less.prems(7) unfolding rest by (simp add: args)
      show "ss' = ?ss @ take (255 - length ?ss) (args_of (drop (if ?j < length cl then ?j + 1 else ?j) cl))" unfolding rest by (rule ss')
    qed (use less.prems True in \<open>simp_all add: s1_def\<close>)
    then obtain m'' where m'': "params_loop cl i ?argp s = (base + of_nat (length (packed ss')), s\<lparr>linux_argc := length ss' + 1, lmem := m''\<rparr>)"
        "string_table (start + 4) base ss' m''" "keeps (unat start + 4) (unat base + length (packed ss')) m' m''"
      unfolding step argp by (auto simp: s1_def)
    have "keeps (unat start + 4) (unat base + length (packed ss')) (lmem s) m'"
      by (rule keeps_weaken [OF round(2)]) (use True in \<open>simp_all add: ss'\<close>)
    from keeps_trans [OF this m''(3)] m'' show ?thesis by blast
  qed
qed

lemma align_16:
  assumes "unat (a :: u32) + 15 < 2 ^ 32"
  shows "unat ((a + 15) AND NOT 15) = (unat a + 15) div 16 * 16"
proof -
  have 15: "(15 :: u32) = mask 4" by (simp add: mask_eq_exp_minus_1)
  have "unat (a + 15) = unat a + 15" using unat_add_nat [of a 15] assms by simp
  then show ?thesis using unat_round_down [of 4 "a + 15"] unfolding 15 by simp
qed

text \<open>After \<open>linux_params_init\<close> the kernel's \<open>argv\<close> is complete, and an empty environment follows it.\<close>

lemma linux_params_init_result:
  assumes cl: "cl = (case line of None \<Rightarrow> [] | Some l \<Rightarrow> l)" and args: "args = take 255 (args_of cl)"
    and room: "unat start + length cl + 0x1000 < 2 ^ 32"
  obtains s' where "s' = linux_params_init start line s" "linux_argc s' = length args + 1" "linux_argv s' = start"
    "word_at start 0 (lmem s')" "string_table (start + 4) (start + 1024) args (lmem s')"
    "word_at (linux_env s') 0 (lmem s')" "linux_env_idx s' = 0" "linux_env_p s' = linux_env s' + 1024"
    "unat (linux_env s') = (unat start + 1024 + length (packed args) + 15) div 16 * 16"
    "keeps (unat start) (unat (linux_env s') + 4) (lmem s) (lmem s')"
proof -
  define m0 where "m0 = put_word start 0 (lmem s)"
  define s1 where "s1 = s\<lparr>linux_argc := 1, linux_argv := start, lmem := m0\<rparr>"
  let ?base = "start + 1024"
  have base: "unat ?base = unat start + 1024" "unat (start + 4) = unat start + 4"
    using unat_add_nat [of start 1024] unat_add_nat [of start 4] room by simp_all
  have n: "length (packed args) \<le> length cl + 1" unfolding args by (rule packed_take_args_le)
  have "\<exists>m1. params_loop cl 0 (?base + of_nat (length (packed []))) s1
        = (?base + of_nat (length (packed args)), s1\<lparr>linux_argc := length args + 1, lmem := m1\<rparr>)
      \<and> string_table (start + 4) ?base args m1 \<and> keeps (unat start + 4) (unat ?base + length (packed args)) (lmem s1) m1"
    by (rule params_loop_result [where ss = "[]"])
      (use base room packed_args_le [of cl] in \<open>simp_all add: s1_def args string_table_def get_bytes_def\<close>)
  then obtain m1 where m1: "params_loop cl 0 ?base s1 = (?base + of_nat (length (packed args)), s1\<lparr>linux_argc := length args + 1, lmem := m1\<rparr>)"
    "string_table (start + 4) ?base args m1" "keeps (unat start + 4) (unat ?base + length (packed args)) m0 m1"
    by (auto simp: s1_def)
  let ?argp = "?base + of_nat (length (packed args))"
  define env where "env = (?argp + 15) AND NOT 15"
  have argp: "unat ?argp = unat start + 1024 + length (packed args)"
    using unat_add_nat [of ?base "length (packed args)"] base n room by simp
  have env: "unat env = (unat start + 1024 + length (packed args) + 15) div 16 * 16"
    unfolding env_def argp [symmetric] by (rule align_16) (use argp n room in simp)
  have env_le: "unat start + 1024 + length (packed args) \<le> unat env" "unat env + 4 \<le> 2 ^ 32" using env n room by linarith+
  define m2 where "m2 = put_word env 0 m1"
  have k2: "keeps (unat env) (unat env + 4) m1 m2" unfolding m2_def by (rule keeps_put_word) (rule env_le)
  have loop: "params_loop (case line of None \<Rightarrow> [] | Some l \<Rightarrow> l) 0 (start + 4 * of_nat LINUX_MAX_ARGS)
      (s\<lparr>linux_argc := 1, linux_argv := start, lmem := put_word start 0 (lmem s)\<rparr>) = (?argp, s1\<lparr>linux_argc := length args + 1, lmem := m1\<rparr>)"
    using m1(1) by (simp add: s1_def m0_def cl LINUX_MAX_ARGS_def)
  have s': "linux_params_init start line s = s1\<lparr>linux_argc := length args + 1, linux_env := env, lmem := m2,
      linux_env_p := env + 1024, linux_env_idx := 0\<rparr>"
    by (simp only: linux_params_init_def Let_def loop prod.case) (simp add: s1_def env_def m2_def LINUX_MAX_ENVS_def)
  show thesis
  proof (rule that [OF refl], unfold s')
    let ?s = "s1\<lparr>linux_argc := length args + 1, linux_env := env, lmem := m2, linux_env_p := env + 1024, linux_env_idx := 0\<rparr>"
    have "word_at start 0 m0" unfolding m0_def by (rule word_at_put) (use room in simp)
    then have "word_at start 0 m1" by (rule word_at_keeps [OF _ m1(3)]) (use room in simp_all)
    then show "word_at start 0 (lmem ?s)" by (simp, elim word_at_keeps [OF _ k2]) (use room env_le in simp_all)
    have "word_at env 0 m2" unfolding m2_def by (rule word_at_put) (rule env_le)
    then show "word_at (linux_env ?s) 0 (lmem ?s)" by simp
    show "string_table (start + 4) ?base args (lmem ?s)"
      by (simp, rule string_table_keeps [OF m1(2) k2]) (use base env_le n room in \<open>simp_all add: args\<close>)
    have "keeps (unat start) (unat start + 4) (lmem s) m0" unfolding m0_def by (rule keeps_put_word) (use room in simp)
    then have "keeps (unat start) (unat env + 4) (lmem s) m0" by (rule keeps_weaken) (use env_le in simp_all)
    also have "keeps (unat start) (unat env + 4) m0 m1" using m1(3) by (rule keeps_weaken) (use env_le base in simp_all)
    also have "keeps (unat start) (unat env + 4) m1 m2" using k2 by (rule keeps_weaken) (use env_le in simp_all)
    finally show "keeps (unat start) (unat (linux_env ?s) + 4) (lmem s) (lmem ?s)" by simp
  qed (simp_all add: s1_def env)
qed

subsection \<open>The environment that is built\<close>

definition env_entry :: "u8 list \<times> u8 list \<Rightarrow> u8 list" where
  "env_entry e = fst e @ chars ''='' @ snd e"

text \<open>\<open>env_ok es s\<close>: the variables \<open>es\<close> have been set, in this order, and a null pointer ends the table.\<close>

definition env_ok :: "(u8 list \<times> u8 list) list \<Rightarrow> linux_params \<Rightarrow> bool" where
  "env_ok es s \<longleftrightarrow>
     string_table (linux_env s) (linux_env s + 1024) (map env_entry es) (lmem s)
     \<and> word_at (linux_env s + 4 * of_nat (length es)) 0 (lmem s)
     \<and> linux_env_idx s = length es
     \<and> linux_env_p s = linux_env s + 1024 + of_nat (length (packed (map env_entry es)))"

lemma put_bytes_snoc: "put_bytes a (xs @ [x]) m = (put_bytes a xs m)(a + of_nat (length xs) := x)"
  by (induction xs arbitrary: a m) (simp_all add: algebra_simps)

lemma put_bytes_append: "put_bytes a (xs @ ys) m = put_bytes (a + of_nat (length xs)) ys (put_bytes a xs m)"
  by (induction xs arbitrary: a m) (simp_all add: algebra_simps)

text \<open>A copy that starts at the NUL of the one before continues its string.\<close>

lemma str_copy_append: "str_copy (a + of_nat (length xs)) (y # ys) (str_copy a xs m) = str_copy a (xs @ y # ys) m"
  by (simp add: str_copy_def put_bytes_snoc put_bytes_append)

lemma str_copy_append': "str_copy (a + of_nat (length xs)) ys (str_copy a xs m) = str_copy a (xs @ ys) m"
  by (cases ys) (simp_all add: str_copy_append, simp add: str_copy_def put_bytes_snoc)

lemma env_set_ok:
  assumes ok: "env_ok es s" and n: "length es < 255"
    and room: "unat (linux_env s) + 1024 + length (packed (map env_entry (es @ [(name, val)]))) < 2 ^ 32"
    and s': "s' = linux_env_set name val s"
  shows "env_ok (es @ [(name, val)]) s'"
    "linux_argc s' = linux_argc s" "linux_argv s' = linux_argv s" "linux_env s' = linux_env s"
    "keeps (unat (linux_env s)) (unat (linux_env s) + 1024 + length (packed (map env_entry (es @ [(name, val)])))) (lmem s) (lmem s')"
proof -
  let ?env = "linux_env s" and ?k = "length (packed (map env_entry es))" and ?e = "env_entry (name, val)"
  let ?p = "?env + 1024 + of_nat ?k"
  let ?m1 = "put_word (?env + 4 * of_nat (length es)) ?p (lmem s)"
  let ?m2 = "str_copy ?p ?e ?m1" and ?stop = "?env + 4 * of_nat (length es + 1)"
  note ok = ok [unfolded env_ok_def]
  have len: "?k + length ?e + 1 = length (packed (map env_entry (es @ [(name, val)])))" by simp
  have base: "unat (?env + 1024) = unat ?env + 1024" using unat_add_nat [of ?env 1024] room by simp
  have p: "unat ?p = unat ?env + 1024 + ?k" using unat_add_nat [of "?env + 1024" ?k] base room len by simp
  have a: "unat (?env + 4 * of_nat i) = unat ?env + 4 * i" if "i \<le> 255" for i
    using unat_add_nat [of ?env "4 * i"] room that by simp
  have upd: "lmem s' = put_word ?stop 0 ?m2" "linux_env_p s' = ?p + of_nat (length ?e) + 1" "linux_env_idx s' = length es + 1"
    "linux_argc s' = linux_argc s" "linux_argv s' = linux_argv s" "linux_env s' = ?env"
    using ok n str_copy_append' [of ?p name "chars ''=''" ?m1] str_copy_append' [of ?p "name @ chars ''=''" val ?m1]
    by (simp_all add: s' linux_env_set_def LINUX_MAX_ENVS_def Let_def env_entry_def chars_def add.assoc)
  have e: "unat ?stop = unat ?env + 4 * length es + 4" using a [of "length es + 1"] n by simp
  have k1: "keeps (unat ?env + 4 * length es) (unat ?env + 4 * length es + 4) (lmem s) ?m1"
    using keeps_put_word [of "?env + 4 * of_nat (length es)" "lmem s" ?p] a [of "length es"] n room by simp
  have k2: "keeps (unat ?p) (unat ?p + length (?e @ [0])) ?m1 ?m2"
    unfolding str_copy_def using p room len by (intro keeps_put_bytes) simp
  have k3: "keeps (unat ?env + 4 * length es + 4) (unat ?env + 4 * length es + 8) ?m2 (lmem s')"
    unfolding upd by (rule keeps_weaken [OF keeps_put_word]) (use e n room in simp_all)
  have ptr: "word_at (?env + 4 * of_nat (length es)) ?p ?m1" by (rule word_at_put) (use a [of "length es"] n room in simp)
  have ptr: "word_at (?env + 4 * of_nat (length es)) ?p ?m2"
    by (rule word_at_keeps [OF ptr k2]) (use a [of "length es"] n room p in simp_all)
  have ptr: "word_at (?env + 4 * of_nat (length es)) ?p (lmem s')"
    by (rule word_at_keeps [OF ptr k3]) (use a [of "length es"] n room p in simp_all)
  have "get_bytes ?p (length (?e @ [0])) ?m2 = ?e @ [0]"
    unfolding str_copy_def using p room len by (intro get_put_bytes) simp
  moreover have "get_bytes ?p (length (?e @ [0])) (lmem s') = get_bytes ?p (length (?e @ [0])) ?m2"
    by (rule get_bytes_keeps [OF k3]) (use p room len n in simp_all)
  ultimately have str: "get_bytes ?p (length ?e + 1) (lmem s') = ?e @ [0]" by simp
  have "string_table ?env (?env + 1024) (map env_entry es @ [?e]) (lmem s')"
  proof (rule string_table_snoc [of _ _ _ "lmem s"])
    show "lmem s' x = lmem s x" if "unat x < unat ?env + 4 * length (map env_entry es)
        \<or> (unat (?env + 1024) \<le> unat x \<and> unat x < unat (?env + 1024) + length (packed (map env_entry es)))" for x
      using that k1 k2 k3 base p n by (auto simp: keeps_def)
  qed (use ok ptr str base n room len in simp_all)
  moreover have "word_at ?stop 0 (lmem s')" unfolding upd by (rule word_at_put) (use a [of "length es + 1"] n room in simp)
  ultimately show "env_ok (es @ [(name, val)]) s'" using upd by (simp add: env_ok_def algebra_simps)
  show "linux_argc s' = linux_argc s" "linux_argv s' = linux_argv s" "linux_env s' = ?env" by (fact upd)+
  have "keeps (unat ?env) (unat ?env + 1024 + length (packed (map env_entry (es @ [(name, val)])))) (lmem s) ?m1"
    using k1 by (rule keeps_weaken) (use n in simp_all)
  also have "keeps (unat ?env) (unat ?env + 1024 + length (packed (map env_entry (es @ [(name, val)])))) ?m1 ?m2"
    using k2 by (rule keeps_weaken) (use p len in simp_all)
  also have "keeps (unat ?env) (unat ?env + 1024 + length (packed (map env_entry (es @ [(name, val)])))) ?m2 (lmem s')"
    using k3 by (rule keeps_weaken) (use n in simp_all)
  finally show "keeps (unat ?env) (unat ?env + 1024 + length (packed (map env_entry (es @ [(name, val)])))) (lmem s) (lmem s')" .
qed

lemma env_sets_ok:
  assumes "env_ok es s" "length es + length vs \<le> 255"
    and "unat (linux_env s) + 1024 + length (packed (map env_entry (es @ vs))) < 2 ^ 32"
    and "s' = fold (\<lambda>(n, v). linux_env_set n v) vs s"
  shows "env_ok (es @ vs) s' \<and> linux_argc s' = linux_argc s \<and> linux_argv s' = linux_argv s \<and> linux_env s' = linux_env s
    \<and> keeps (unat (linux_env s)) (unat (linux_env s) + 1024 + length (packed (map env_entry (es @ vs)))) (lmem s) (lmem s')"
  using assms
proof (induction vs arbitrary: es s)
  case Nil
  then show ?case by (simp add: keeps_def)
next
  case (Cons e vs)
  obtain n v where e: "e = (n, v)" by fastforce
  have l: "length (packed (map env_entry (es @ [e]))) \<le> length (packed (map env_entry (es @ e # vs)))" by simp
  define s1 where "s1 = linux_env_set n v s"
  have "length es < 255" "unat (linux_env s) + 1024 + length (packed (map env_entry (es @ [(n, v)]))) < 2 ^ 32"
    using Cons.prems(2,3) l e by simp_all
  note set = env_set_ok [OF Cons.prems(1) this s1_def]
  have "keeps (unat (linux_env s)) (unat (linux_env s) + 1024 + length (packed (map env_entry (es @ e # vs)))) (lmem s) (lmem s1)"
    using set(5) by (rule keeps_weaken) (use l in \<open>simp_all add: e\<close>)
  moreover have "s' = fold (\<lambda>(n, v). linux_env_set n v) vs s1" using Cons.prems(4) by (simp add: e s1_def)
  ultimately show ?case using Cons.IH [OF set(1)] Cons.prems(2,3) set(2-4) by (auto simp: e intro: keeps_trans)
qed

definition bootm_vars :: "bootm_board \<Rightarrow> bootm_images \<Rightarrow> (u8 list \<times> u8 list) list" where
  "bootm_vars B images =
     [(chars ''memsize'', if CONFIG_MEMSIZE_IN_BYTES B then fmt_lu (ram_size B) else fmt_lu (drop_bit 20 (ram_size B))),
      (chars ''initrd_start'', chars ''0x'' @ fmt_08X (UNCACHED_SDRAM B (rd_start images))),
      (chars ''initrd_size'', chars ''0x'' @ fmt_X (rd_end images - rd_start images)),
      (chars ''flash_start'', chars ''0x'' @ fmt_08X (bi_flashstart B)),
      (chars ''flash_size'', chars ''0x'' @ fmt_X (bi_flashsize B))]
     @ (case getenv B ''ethaddr'' of None \<Rightarrow> [] | Some v \<Rightarrow> [(chars ''ethaddr'', v)])
     @ (case getenv B ''eth1addr'' of None \<Rightarrow> [] | Some v \<Rightarrow> [(chars ''eth1addr'', v)])"

lemma do_bootm_linux_sets:
  assumes "flag = 0 \<or> flag = BOOTM_STATE_OS_GO B"
    and "s1 = fold (\<lambda>(n, v). linux_env_set n v) (bootm_vars B images)
          (linux_params_init (UNCACHED_SDRAM B (bi_boot_params B)) (getenv B ''bootargs'') s)"
  shows "do_bootm_linux B flag images s = Kernel (ep images) (linux_argc s1) (linux_argv s1) (linux_env s1) (lmem s1)"
  using assms by (auto simp: do_bootm_linux_def bootm_vars_def env_if_set_def Let_def split: option.split)

text \<open>The strings are strings: no NUL inside.\<close>

lemma digit_nonzero: "d < 16 \<Longrightarrow> digit d \<noteq> 0"
proof -
  assume "d < 16"
  then have "unat (digit d) \<noteq> 0" by (simp add: digit_def unat_of_nat)
  then show ?thesis by auto
qed

lemma digits_nonzero: "0 \<notin> set (digits10 n)" "0 \<notin> set (digits16 n)"
proof -
  show "0 \<notin> set (digits10 n)"
    by (induction n rule: digits10.induct) (subst digits10.simps, auto simp: digit_nonzero dest!: sym [of 0])
  show "0 \<notin> set (digits16 n)"
    by (induction n rule: digits16.induct) (subst digits16.simps, auto simp: digit_nonzero dest!: sym [of 0])
qed

lemma bootm_vars_nonzero:
  assumes "\<forall>name v. getenv B name = Some v \<longrightarrow> 0 \<notin> set v" "e \<in> set (bootm_vars B images)"
  shows "0 \<notin> set (env_entry e)"
proof -
  have "0 \<notin> set (fmt_lu v)" "0 \<notin> set (fmt_X v)" "0 \<notin> set (fmt_08X v)" for v
    by (auto simp: fmt_lu_def fmt_X_def fmt_08X_def digits_nonzero)
  moreover have "0 \<notin> set (chars ''='')" "0 \<notin> set (chars ''0x'')" "0 \<notin> set (chars ''memsize'')" "0 \<notin> set (chars ''initrd_start'')"
    "0 \<notin> set (chars ''initrd_size'')" "0 \<notin> set (chars ''flash_start'')" "0 \<notin> set (chars ''flash_size'')"
    "0 \<notin> set (chars ''ethaddr'')" "0 \<notin> set (chars ''eth1addr'')"
    by (simp_all add: chars_def)
  ultimately show ?thesis
    using assms by (auto simp: bootm_vars_def env_entry_def split: option.splits if_splits)
qed

subsection \<open>Properties\<close>

text \<open>\<open>string_vector tab ss m\<close>: the pointers from \<open>tab\<close> lead to the strings \<open>ss\<close>.\<close>

definition string_vector :: "u32 \<Rightarrow> u8 list list \<Rightarrow> (u32 \<Rightarrow> u8) \<Rightarrow> bool" where
  "string_vector tab ss m \<longleftrightarrow> (\<forall>i < length ss. \<exists>p. word_at (tab + 4 * of_nat i) p m \<and> str_at p (ss ! i) m)"

lemma string_vectorI: "string_table tab base ss m \<Longrightarrow> \<forall>s \<in> set ss. 0 \<notin> set s \<Longrightarrow> string_vector tab ss m"
  unfolding string_vector_def by (auto intro: string_table_str_at)

text \<open>
  C28. \<open>do_bootm_linux\<close> starts the kernel at its entry point with the command line and the environment in memory: \<open>argv\<close> holds
  a null pointer and then, in order, the arguments into which the specification cuts the command line, at most 255 of
  them; \<open>env\<close> holds the strings \<open>name=value\<close> for the memory size, the initial RAM disk, the flash and the Ethernet
  addresses that are set, and ends in a null pointer. Pointers and strings do not overlap, and nothing outside a
  stretch behind \<open>bi_boot_params\<close> is written, whose size grows with the strings alone.
\<close>
theorem bootm_starts_kernel:
  assumes getenv: "\<forall>name v. getenv B name = Some v \<longrightarrow> 0 \<notin> set v"
    and flag: "flag = 0 \<or> flag = BOOTM_STATE_OS_GO B"
    and start: "start = UNCACHED_SDRAM B (bi_boot_params B)"
    and line: "line = (case getenv B ''bootargs'' of None \<Rightarrow> [] | Some l \<Rightarrow> l)" "args = take 255 (args_of line)"
    and vars: "vars = map env_entry (bootm_vars B images)"
    and room: "unat start + length line + length (packed vars) + 0x1000 < 2 ^ 32"
  shows "\<exists>env m. do_bootm_linux B flag images s = Kernel (ep images) (length args + 1) start env m
           \<and> word_at start 0 m \<and> string_vector (start + 4) args m
           \<and> string_vector env vars m \<and> word_at (env + 4 * of_nat (length vars)) 0 m
           \<and> keeps (unat start) (unat start + length line + length (packed vars) + 0x1000) (lmem s) m"
proof -
  have "unat start + length line + 0x1000 < 2 ^ 32" using room by simp
  from linux_params_init_result [OF line this] obtain s0 where s0:
    "s0 = linux_params_init start (getenv B ''bootargs'') s" "linux_argc s0 = length args + 1" "linux_argv s0 = start"
    "word_at start 0 (lmem s0)" "string_table (start + 4) (start + 1024) args (lmem s0)"
    "word_at (linux_env s0) 0 (lmem s0)" "linux_env_idx s0 = 0" "linux_env_p s0 = linux_env s0 + 1024"
    "unat (linux_env s0) = (unat start + 1024 + length (packed args) + 15) div 16 * 16"
    "keeps (unat start) (unat (linux_env s0) + 4) (lmem s) (lmem s0)" by blast
  let ?env = "linux_env s0"
  have "length (packed args) \<le> length line + 1" unfolding line(2) by (rule packed_take_args_le)
  with s0(9) have env: "unat start + 1024 + length (packed args) \<le> unat ?env" "unat ?env \<le> unat start + length line + 1040" by linarith+
  define s1 where "s1 = fold (\<lambda>(n, v). linux_env_set n v) (bootm_vars B images) s0"
  have "env_ok [] s0" using s0(6-8) by (simp add: env_ok_def string_table_def get_bytes_def)
  from env_sets_ok [OF this _ _ s1_def] have s1: "env_ok (bootm_vars B images) s1"
    "linux_argc s1 = length args + 1" "linux_argv s1 = start" "linux_env s1 = ?env"
    "keeps (unat ?env) (unat ?env + 1024 + length (packed vars)) (lmem s0) (lmem s1)"
    using room env s0(2,3) by (auto simp: vars bootm_vars_def split: option.splits)
  have small: "unat (start + 4) = unat start + 4" "unat (start + 1024) = unat start + 1024"
    using unat_add_nat [of start 4] unat_add_nat [of start 1024] room by simp_all
  have argv: "string_table (start + 4) (start + 1024) args (lmem s1)"
    by (rule string_table_keeps [OF s0(5) s1(5)]) (use small env room in \<open>simp_all add: line(2)\<close>)
  have "word_at start 0 (lmem s1)" by (rule word_at_keeps [OF s0(4) s1(5)]) (use env room in simp_all)
  moreover have "string_vector (start + 4) args (lmem s1)"
  proof (rule string_vectorI [OF argv])
    have "0 \<notin> set line" using getenv by (auto simp: line(1) split: option.split)
    then show "\<forall>s \<in> set args. 0 \<notin> set s" using args_of_set [of _ line] line(2) by (blast dest: in_set_takeD)
  qed
  moreover have "string_vector ?env vars (lmem s1)"
    using s1(1,4) bootm_vars_nonzero [OF getenv] unfolding env_ok_def vars by (intro string_vectorI) auto
  moreover have "word_at (?env + 4 * of_nat (length vars)) 0 (lmem s1)" using s1(1,4) by (simp add: env_ok_def vars)
  moreover have "keeps (unat start) (unat start + length line + length (packed vars) + 0x1000) (lmem s) (lmem s1)"
    using keeps_trans [OF keeps_weaken [OF s0(10)] keeps_weaken [OF s1(5)]] env by simp
  ultimately show ?thesis using do_bootm_linux_sets [OF flag s1_def [unfolded s0(1) start]] s1(2-4) by simp
qed

definition demo_board :: bootm_board where
  "demo_board = \<lparr>CONFIG_MEMSIZE_IN_BYTES = False, BOOTM_STATE_OS_GO = 0x400, UNCACHED_SDRAM = (\<lambda>a. a OR 0xA0000000),
     getenv = (\<lambda>name. if name = ''bootargs'' then Some (chars ''console=ttyS0 init=\"/bin/sh -c x\" ro'')
                      else if name = ''ethaddr'' then Some (chars ''00:11:22:33:44:55'') else None),
     bi_boot_params = 0x00F00000, bi_memstart = 0x80000000, bi_flashstart = 0xB0000000, bi_flashsize = 0x800000, ram_size = 0x4000000\<rparr>"

definition demo_images :: bootm_images where
  "demo_images = \<lparr>ep = 0x80100000, rd_start = 0x1000000, rd_end = 0x1234567\<rparr>"

lemma demo_args: "args_of (chars ''console=ttyS0 init=\"/bin/sh -c x\" ro'') = [chars ''console=ttyS0'', chars ''init=\"/bin/sh -c x\"'', chars ''ro'']"
  by (simp add: chars_def args_of.simps)

lemma demo_vars: "map env_entry (bootm_vars demo_board demo_images) =
  [chars ''memsize=64'', chars ''initrd_start=0xA1000000'', chars ''initrd_size=0x234567'',
   chars ''flash_start=0xB0000000'', chars ''flash_size=0x800000'', chars ''ethaddr=00:11:22:33:44:55'']"
  by (simp add: bootm_vars_def env_entry_def demo_board_def demo_images_def chars_def fmt_lu_def fmt_X_def fmt_08X_def
      digits10.simps digits16.simps digit_def)

theorem bootm_starts_kernel_witness:
  "\<forall>s. \<exists>env m. do_bootm_linux demo_board 0 demo_images s = Kernel 0x80100000 4 0xA0F00000 env m
     \<and> word_at 0xA0F00000 0 m
     \<and> string_vector 0xA0F00004 [chars ''console=ttyS0'', chars ''init=\"/bin/sh -c x\"'', chars ''ro''] m
     \<and> string_vector env [chars ''memsize=64'', chars ''initrd_start=0xA1000000'', chars ''initrd_size=0x234567'',
          chars ''flash_start=0xB0000000'', chars ''flash_size=0x800000'', chars ''ethaddr=00:11:22:33:44:55''] m
     \<and> word_at (env + 4 * of_nat 6) 0 m"
proof
  fix s
  let ?line = "chars ''console=ttyS0 init=\"/bin/sh -c x\" ro''"
    and ?args = "[chars ''console=ttyS0'', chars ''init=\"/bin/sh -c x\"'', chars ''ro'']"
    and ?vars = "[chars ''memsize=64'', chars ''initrd_start=0xA1000000'', chars ''initrd_size=0x234567'',
      chars ''flash_start=0xB0000000'', chars ''flash_size=0x800000'', chars ''ethaddr=00:11:22:33:44:55'']"
  have B: "\<forall>name v. getenv demo_board name = Some v \<longrightarrow> 0 \<notin> set v"
    "0xA0F00000 = UNCACHED_SDRAM demo_board (bi_boot_params demo_board)"
    "?line = (case getenv demo_board ''bootargs'' of None \<Rightarrow> [] | Some l \<Rightarrow> l)"
    by (simp_all add: demo_board_def chars_def)
  have "?args = take 255 (args_of ?line)" by (simp add: demo_args)
  moreover have "unat (0xA0F00000 :: u32) + length ?line + length (packed ?vars) + 0x1000 < 2 ^ 32" by (simp add: chars_def)
  ultimately obtain env m where "do_bootm_linux demo_board 0 demo_images s = Kernel (ep demo_images) (length ?args + 1) 0xA0F00000 env m"
    "word_at 0xA0F00000 0 m" "string_vector (0xA0F00000 + 4) ?args m" "string_vector env ?vars m" "word_at (env + 4 * of_nat (length ?vars)) 0 m"
    using bootm_starts_kernel [OF B(1) _ B(2,3) _ demo_vars [symmetric], where args = ?args and flag = 0 and s = s] by auto
  then show "\<exists>env m. do_bootm_linux demo_board 0 demo_images s = Kernel 0x80100000 4 0xA0F00000 env m
     \<and> word_at 0xA0F00000 0 m \<and> string_vector 0xA0F00004 ?args m \<and> string_vector env ?vars m \<and> word_at (env + 4 * of_nat 6) 0 m"
    by (intro exI [of _ env] exI [of _ m]) (simp add: demo_images_def)
qed

text \<open>The buffer of twelve characters, \<open>env_buf\<close>, is large enough.\<close>

lemma digits_length: "n < 10 ^ (k + 1) \<Longrightarrow> length (digits10 n) \<le> k + 1" "n < 16 ^ (k + 1) \<Longrightarrow> length (digits16 n) \<le> k + 1"
proof -
  show "n < 10 ^ (k + 1) \<Longrightarrow> length (digits10 n) \<le> k + 1"
  proof (induction k arbitrary: n)
    case (Suc k)
    then have "n div 10 < 10 ^ (k + 1)" by (simp add: div_less_iff_less_mult mult.commute)
    with Suc.IH show ?case by (subst digits10.simps) simp
  qed (subst digits10.simps, simp)
  show "n < 16 ^ (k + 1) \<Longrightarrow> length (digits16 n) \<le> k + 1"
  proof (induction k arbitrary: n)
    case (Suc k)
    then have "n div 16 < 16 ^ (k + 1)" by (simp add: div_less_iff_less_mult mult.commute)
    with Suc.IH show ?case by (subst digits16.simps) simp
  qed (subst digits16.simps, simp)
qed

text \<open>
  The values that \<open>do_bootm_linux\<close> prints into \<open>env_buf\<close> fit into its twelve bytes, the NUL included, for every size and
  address.
\<close>
theorem env_buf_fits:
  "length (fmt_lu v) + 1 \<le> 12 \<and> length (chars ''0x'' @ fmt_08X v) + 1 \<le> 12 \<and> length (chars ''0x'' @ fmt_X v) + 1 \<le> 12"
proof -
  have v: "unat v < 10 ^ (9 + 1)" "unat v < 16 ^ (7 + 1)"
    by (rule order_less_le_trans [OF unsigned_less], simp)+
  from digits_length(1) [OF v(1)] digits_length(2) [OF v(2)] show ?thesis
    by (simp_all add: fmt_lu_def fmt_X_def fmt_08X_def chars_def)
qed

subsection \<open>The variant for QEMU\<close>

definition qemu_line :: "bootm_board \<Rightarrow> bootm_images \<Rightarrow> u8 list \<Rightarrow> u8 list" where
  "qemu_line B images bootargs = bootargs @
     (if rd_start images = rd_end images then []
      else chars '' rd_start=0x'' @ fmt_08X (UNCACHED_SDRAM B (rd_start images)) @ chars '' rd_size=0x'' @ fmt_X (rd_end images - rd_start images))"

text \<open>
  The variant for QEMU leaves the command line, with the place of the initial RAM disk appended when there is one, as one
  string 256 bytes below the end of the first 16 MByte of memory, the memory size and a magic number in the two words
  before it, and starts the kernel. Its length is not checked against the 256 bytes.
\<close>
theorem qemu_starts_kernel:
  assumes "getenv B ''bootargs'' = Some bootargs" "0 \<notin> set bootargs"
    and bp: "bp = bi_memstart B + 0xFFFF00" and low: "8 \<le> unat bp" "unat bp + length (qemu_line B images bootargs) + 1 \<le> 2 ^ 32"
  shows "\<exists>m'. do_bootm_linux_qemu B images m = Some (Kernel (ep images) 0 0 0 m')
    \<and> str_at bp (qemu_line B images bootargs) m' \<and> word_at (bp - 4) 0x12345678 m' \<and> word_at (bp - 8) (ram_size B) m'
    \<and> keeps (unat bp - 8) (unat bp + length (qemu_line B images bootargs) + 1) m m'"
proof -
  let ?line = "qemu_line B images bootargs"
  define m1 where "m1 = put_word (bp - 4) 0x12345678 m"
  define m2 where "m2 = put_word (bp - 8) (ram_size B) m1"
  define m3 where "m3 = str_copy bp ?line m2"
  have u: "unat (bp - 4) = unat bp - 4" "unat (bp - 8) = unat bp - 8"
    using low(1) by (simp_all add: unat_sub word_le_nat_alt)
  have k1: "keeps (unat bp - 4) (unat bp) m m1"
    unfolding m1_def by (rule keeps_weaken [OF keeps_put_word]) (use u low in simp_all)
  have k2: "keeps (unat bp - 8) (unat bp - 4) m1 m2"
    unfolding m2_def by (rule keeps_weaken [OF keeps_put_word]) (use u low in simp_all)
  have k3: "keeps (unat bp) (unat bp + length ?line + 1) m2 m3"
    unfolding m3_def str_copy_def by (rule keeps_weaken [OF keeps_put_bytes]) (use low in simp_all)
  have bp': "bi_memstart B + push_bit 20 16 - 256 = bp" by (simp add: bp push_bit_eq_mult)
  have "do_bootm_linux_qemu B images m = Some (Kernel (ep images) 0 0 0 m3)"
    unfolding do_bootm_linux_qemu_def Let_def bp' assms(1)
    by (simp add: qemu_line_def m1_def m2_def m3_def str_copy_append' word_neq_0_conv [symmetric])
  moreover have "0 \<notin> set ?line"
    using assms(2) by (auto simp: qemu_line_def fmt_X_def fmt_08X_def digits_nonzero chars_def)
  then have "str_at bp ?line m3"
    unfolding str_at_def m3_def str_copy_def using low get_put_bytes [of bp "?line @ [0]" m2] by simp
  moreover have "word_at (bp - 4) 0x12345678 m1" unfolding m1_def by (rule word_at_put) (use u low in simp)
  then have "word_at (bp - 4) 0x12345678 m2" by (rule word_at_keeps [OF _ k2]) (use u low in simp_all)
  then have "word_at (bp - 4) 0x12345678 m3" by (rule word_at_keeps [OF _ k3]) (use u low in simp_all)
  moreover have "word_at (bp - 8) (ram_size B) m2" unfolding m2_def by (rule word_at_put) (use u low in simp)
  then have "word_at (bp - 8) (ram_size B) m3" by (rule word_at_keeps [OF _ k3]) (use u low in simp_all)
  moreover have "keeps (unat bp - 8) (unat bp + length ?line + 1) m m3"
    using keeps_trans [OF keeps_trans [OF keeps_weaken [OF k1] keeps_weaken [OF k2]] keeps_weaken [OF k3]] by simp
  ultimately show ?thesis by blast
qed

theorem qemu_starts_kernel_witness:
  "\<forall>m. \<exists>m'. do_bootm_linux_qemu demo_board demo_images m = Some (Kernel (ep demo_images) 0 0 0 m')
    \<and> str_at 0x80FFFF00 (qemu_line demo_board demo_images (chars ''console=ttyS0 init=\"/bin/sh -c x\" ro'')) m'
    \<and> word_at 0x80FFFEFC 0x12345678 m' \<and> word_at 0x80FFFEF8 0x4000000 m'
    \<and> qemu_line demo_board demo_images (chars ''console=ttyS0 init=\"/bin/sh -c x\" ro'')
       = chars ''console=ttyS0 init=\"/bin/sh -c x\" ro rd_start=0xA1000000 rd_size=0x234567''"
proof
  fix m
  let ?line = "chars ''console=ttyS0 init=\"/bin/sh -c x\" ro''"
  have l: "qemu_line demo_board demo_images ?line = chars ''console=ttyS0 init=\"/bin/sh -c x\" ro rd_start=0xA1000000 rd_size=0x234567''"
    by (simp add: qemu_line_def demo_board_def demo_images_def chars_def fmt_X_def fmt_08X_def digits16.simps digit_def)
  have B: "getenv demo_board ''bootargs'' = Some ?line" "0 \<notin> set ?line" "0x80FFFF00 = bi_memstart demo_board + 0xFFFF00"
    "8 \<le> unat (0x80FFFF00 :: u32)" "unat (0x80FFFF00 :: u32) + length (qemu_line demo_board demo_images ?line) + 1 \<le> 2 ^ 32"
    unfolding l by (simp_all add: demo_board_def chars_def)
  have ram: "ram_size demo_board = 0x4000000" by (simp add: demo_board_def)
  from qemu_starts_kernel [OF B, of m] obtain m' where
    "do_bootm_linux_qemu demo_board demo_images m = Some (Kernel (ep demo_images) 0 0 0 m')"
    "str_at 0x80FFFF00 (qemu_line demo_board demo_images ?line) m'" "word_at (0x80FFFF00 - 4) 0x12345678 m'"
    "word_at (0x80FFFF00 - 8) (ram_size demo_board) m'" by blast
  then show "\<exists>m'. do_bootm_linux_qemu demo_board demo_images m = Some (Kernel (ep demo_images) 0 0 0 m')
    \<and> str_at 0x80FFFF00 (qemu_line demo_board demo_images ?line) m'
    \<and> word_at 0x80FFFEFC 0x12345678 m' \<and> word_at 0x80FFFEF8 0x4000000 m'
    \<and> qemu_line demo_board demo_images ?line = chars ''console=ttyS0 init=\"/bin/sh -c x\" ro rd_start=0xA1000000 rd_size=0x234567''"
    by (intro exI [of _ m']) (simp add: l ram)
qed

end
