(* ===== verification/Bitfield.thy ===== *)
theory Bitfield
  imports Prelude
begin

section \<open>Fields of a word\<close>

text \<open>
  The pairs \<^verbatim>\<open>S_x\<close>, \<^verbatim>\<open>M_x\<close> of \<^verbatim>\<open>src/arch/include/arch_isa.h\<close> and the masks of \<^verbatim>\<open>reg_scu.h\<close>. Such a pair is a \<open>field\<close>: the header writes
  every mask as a run of bits shifted into place, and so does \<open>fld\<close>. The lemmas say when reading and writing
  fields does what the comments of the header say, for any word and any layout.
\<close>

record field =
  fname :: string
  fshift :: nat
  fmask :: u32

definition fld :: "string \<Rightarrow> nat \<Rightarrow> u32 \<Rightarrow> field" where
  "fld n s m = \<lparr>fname = n, fshift = s, fmask = push_bit s m\<rparr>"

text \<open>
  What the header says of the pair: the mask isolates the field and the shift count right-justifies it.
\<close>

definition get_field :: "field \<Rightarrow> u32 \<Rightarrow> u32" where
  "get_field f w = drop_bit (fshift f) (w AND fmask f)"

definition set_field :: "field \<Rightarrow> u32 \<Rightarrow> u32 \<Rightarrow> u32" where
  "set_field f v w = (w AND NOT (fmask f)) OR (push_bit (fshift f) v AND fmask f)"

text \<open>
  A layout is a list of fields. \<open>run_field\<close> is a contiguous run inside the word, \<open>disjoint_fields\<close>
  are fields no two of which share a bit, and a format partitions the word when its fields are disjoint
  and leave no bit over.
\<close>

definition MSK0 :: "nat \<Rightarrow> u32" where
  "MSK0 n = push_bit n 1 - 1"

definition field_width :: "field \<Rightarrow> nat" where
  "field_width f = length (filter (bit (fmask f)) [0..<32])"

definition run_field :: "field \<Rightarrow> bool" where
  "run_field f \<longleftrightarrow> fmask f = push_bit (fshift f) (MSK0 (field_width f)) \<and> 0 < field_width f \<and> fshift f + field_width f \<le> 32"

definition disjoint_fields :: "field list \<Rightarrow> bool" where
  "disjoint_fields fs \<longleftrightarrow> sorted_wrt (\<lambda>f g. fmask f AND fmask g = 0) fs"

definition partitions :: "field list \<Rightarrow> bool" where
  "partitions fs \<longleftrightarrow> list_all run_field fs \<and> disjoint_fields fs \<and> fold (\<lambda>f m. m OR fmask f) fs 0 = NOT 0"

definition assemble :: "field list \<Rightarrow> u32 list \<Rightarrow> u32" where
  "assemble fs vs = fold (\<lambda>(f, v) w. set_field f v w) (zip fs vs) 0"

lemma run_field_mask:
  assumes "run_field f"
  shows "fmask f = push_bit (fshift f) (MSK0 (field_width f))"
  using assms by (simp add: run_field_def)

lemma bit_MSK0: "bit (MSK0 n) i \<longleftrightarrow> i < 32 \<and> i < n"
proof -
  have "MSK0 n = mask n"
    by (simp add: MSK0_def mask_eq_exp_minus_1 push_bit_eq_mult)
  then show ?thesis
    by (auto simp: bit_simps)
qed

lemma bit_run_field:
  assumes "run_field f"
  shows "bit (fmask f) i \<longleftrightarrow> fshift f \<le> i \<and> i < fshift f + field_width f"
  using assms by (auto simp: run_field_mask bit_simps bit_MSK0 run_field_def)

lemma get_set_same:
  assumes "run_field f"
  shows "get_field f (set_field f v w) = v AND MSK0 (field_width f)"
proof (rule bit_word_eqI)
  fix i assume "i < LENGTH(32)"
  have "fshift f + field_width f \<le> 32"
    using assms by (simp add: run_field_def)
  then show "bit (get_field f (set_field f v w)) i = bit (v AND MSK0 (field_width f)) i"
    by (auto simp: get_field_def set_field_def bit_simps bit_run_field [OF assms] bit_MSK0)
qed

lemma set_get_same:
  assumes "run_field f"
  shows "set_field f (get_field f w) w = w"
  by (rule bit_word_eqI) (auto simp: get_field_def set_field_def bit_simps bit_run_field [OF assms])

lemma get_set_other:
  assumes "fmask f AND fmask g = 0"
  shows "get_field g (set_field f v w) = get_field g w"
proof -
  have n: "\<not> (bit (fmask f) i \<and> bit (fmask g) i)" for i
    using assms by (metis bit_and_iff bit_0_eq bot_apply bot_bool_def)
  show ?thesis
    by (rule bit_word_eqI) (use n in \<open>auto simp: get_field_def set_field_def bit_simps dest: bit_imp_le_length\<close>)
qed

subsection \<open>Assembling and taking apart a word\<close>

lemma set_field_get: "set_field f (get_field f w) a = (a AND NOT (fmask f)) OR (w AND fmask f)"
  if "run_field f"
  by (rule bit_word_eqI) (auto simp: get_field_def set_field_def bit_simps bit_run_field [OF that])

lemma partition_assemble:
  assumes "partitions fs"
  shows "assemble fs (map (\<lambda>f. get_field f w) fs) = w"
proof -
  have g: "fold (\<lambda>(f, v) x. set_field f v x) (zip fs (map (\<lambda>f. get_field f w) fs)) a AND fold (\<lambda>f m. m OR fmask f) fs u
      = w AND fold (\<lambda>f m. m OR fmask f) fs u"
    if "list_all run_field fs" "a AND u = w AND u" for fs a u
    using that
  proof (induction fs arbitrary: a u)
    case (Cons f fs)
    have "set_field f (get_field f w) a AND (u OR fmask f) = w AND (u OR fmask f)"
    proof (rule bit_word_eqI)
      fix i
      have "bit u i \<longrightarrow> bit a i = bit w i"
        using Cons.prems(2) by (metis bit_and_iff)
      then show "bit (set_field f (get_field f w) a AND (u OR fmask f)) i = bit (w AND (u OR fmask f)) i"
        using Cons.prems(1) by (auto simp: set_field_get bit_simps dest: bit_imp_le_length)
    qed
    with Cons show ?case
      by simp
  qed simp
  show ?thesis
    using assms g [of fs 0 0] by (simp add: partitions_def assemble_def)
qed

lemma get_fold_other:
  assumes "\<forall>(f, v) \<in> set ps. fmask f AND fmask g = 0"
  shows "get_field g (fold (\<lambda>(f, v) x. set_field f v x) ps a) = get_field g a"
  using assms by (induction ps arbitrary: a) (auto simp: get_set_other)

lemma assemble_get:
  assumes "list_all run_field fs" "disjoint_fields fs" "length vs = length fs" "i < length fs"
  shows "get_field (fs ! i) (assemble fs vs) = vs ! i AND MSK0 (field_width (fs ! i))"
proof -
  have g: "get_field (fs ! i) (fold (\<lambda>(f, v) x. set_field f v x) (zip fs vs) a) = vs ! i AND MSK0 (field_width (fs ! i))" for a
    using assms
  proof (induction fs vs arbitrary: a i rule: list_induct2')
    case (4 f fs v vs)
    show ?case
    proof (cases i)
      case 0
      have "\<forall>(g, v) \<in> set (zip fs vs). fmask g AND fmask f = 0"
        using 4 by (auto simp: disjoint_fields_def and.commute dest: set_zip_leftD)
      with 0 4 show ?thesis
        by (simp add: get_fold_other get_set_same)
    next
      case (Suc j)
      with 4 show ?thesis
        by (simp add: disjoint_fields_def)
    qed
  qed simp_all
  then show ?thesis
    by (simp add: assemble_def)
qed

subsection \<open>Layouts\<close>

text \<open>
  \<open>fields_ok\<close>: every field is a run of bits, and two fields share no bit or one lies inside the other. In such a
  layout writing a field changes no other one, but those that it contains and those that contain it.
\<close>

definition apart_or_nested :: "field \<Rightarrow> field \<Rightarrow> bool" where
  "apart_or_nested f g \<longleftrightarrow> fmask f AND fmask g \<in> {0, fmask f, fmask g}"

definition fields_ok :: "field list \<Rightarrow> bool" where
  "fields_ok fs \<longleftrightarrow> list_all run_field fs \<and> sorted_wrt apart_or_nested fs"

lemma sorted_wrt_sym:
  assumes "sorted_wrt P xs" "x \<in> set xs" "y \<in> set xs" "\<And>a b. P a b \<Longrightarrow> P b a" "P x x"
  shows "P x y"
  using assms by (induction xs) auto

lemma apart_or_nested_sym: "apart_or_nested f g \<Longrightarrow> apart_or_nested g f"
  by (auto simp: apart_or_nested_def and.commute)

lemma fields_independent:
  assumes "fields_ok fs" "f \<in> set fs" "g \<in> set fs"
  shows "get_field f (set_field f v w) = v AND MSK0 (field_width f)
    \<and> set_field f (get_field f w) w = w
    \<and> (get_field g (set_field f v w) = get_field g w \<or> fmask f AND fmask g \<in> {fmask f, fmask g})"
proof -
  have "run_field f" "apart_or_nested f g"
    using assms sorted_wrt_sym [of apart_or_nested fs f g] apart_or_nested_sym
    by (auto simp: fields_ok_def list_all_iff) (auto simp: apart_or_nested_def)
  then show ?thesis
    by (auto simp: get_set_same set_get_same get_set_other apart_or_nested_def)
qed

lemma fld_sel [simp]: "fname (fld n s m) = n" "fshift (fld n s m) = s" "fmask (fld n s m) = push_bit s m"
  by (simp_all add: fld_def)

lemma run_fld:
  assumes "m = MSK0 w" "0 < w" "s + w \<le> 32"
  shows "run_field (fld n s m)" "field_width (fld n s m) = w"
proof -
  have "{i. i < length [0..<32] \<and> bit (push_bit s (MSK0 w)) ([0..<32] ! i)} = {s..<s + w}"
    using assms(3) by (auto simp: bit_simps bit_MSK0)
  then have w: "field_width (fld n s m) = w"
    using assms(1) by (simp add: field_width_def fld_def length_filter_conv_card)
  then show "field_width (fld n s m) = w" "run_field (fld n s m)"
    using assms by (simp_all add: run_field_def fld_def)
qed

text \<open>The masks that the headers use, with their widths.\<close>

lemma run_flds:
  "s \<le> 31 \<Longrightarrow> run_field (fld n s 0x1)" "s \<le> 31 \<Longrightarrow> field_width (fld n s 0x1) = 1"
  "s \<le> 30 \<Longrightarrow> run_field (fld n s 0x3)" "s \<le> 30 \<Longrightarrow> field_width (fld n s 0x3) = 2"
  "s \<le> 29 \<Longrightarrow> run_field (fld n s 0x7)" "s \<le> 29 \<Longrightarrow> field_width (fld n s 0x7) = 3"
  "s \<le> 28 \<Longrightarrow> run_field (fld n s 0xF)" "s \<le> 28 \<Longrightarrow> field_width (fld n s 0xF) = 4"
  "s \<le> 27 \<Longrightarrow> run_field (fld n s 0x1F)" "s \<le> 27 \<Longrightarrow> field_width (fld n s 0x1F) = 5"
  "s \<le> 26 \<Longrightarrow> run_field (fld n s 0x3F)" "s \<le> 26 \<Longrightarrow> field_width (fld n s 0x3F) = 6"
  "s \<le> 25 \<Longrightarrow> run_field (fld n s 0x7F)" "s \<le> 25 \<Longrightarrow> field_width (fld n s 0x7F) = 7"
  "s \<le> 24 \<Longrightarrow> run_field (fld n s 0xFF)" "s \<le> 24 \<Longrightarrow> field_width (fld n s 0xFF) = 8"
  "s \<le> 23 \<Longrightarrow> run_field (fld n s 0x1FF)" "s \<le> 23 \<Longrightarrow> field_width (fld n s 0x1FF) = 9"
  "s \<le> 20 \<Longrightarrow> run_field (fld n s 0xFFF)" "s \<le> 20 \<Longrightarrow> field_width (fld n s 0xFFF) = 12"
  "s \<le> 17 \<Longrightarrow> run_field (fld n s 0x7FFF)" "s \<le> 17 \<Longrightarrow> field_width (fld n s 0x7FFF) = 15"
  "s \<le> 3 \<Longrightarrow> run_field (fld n s 0x1FFFFFFF)" "s \<le> 3 \<Longrightarrow> field_width (fld n s 0x1FFFFFFF) = 29"
  "s \<le> 13 \<Longrightarrow> run_field (fld n s 0x7FFFF)" "s \<le> 13 \<Longrightarrow> field_width (fld n s 0x7FFFF) = 19"
  "s \<le> 8 \<Longrightarrow> run_field (fld n s 0xFFFFFF)" "s \<le> 8 \<Longrightarrow> field_width (fld n s 0xFFFFFF) = 24"
  by (simp_all add: MSK0_def run_fld [of "0x1" 1] run_fld [of "0x3" 2] run_fld [of "0x7" 3] run_fld [of "0xF" 4] run_fld [of "0x1F" 5]
    run_fld [of "0x3F" 6] run_fld [of "0x7F" 7] run_fld [of "0xFF" 8] run_fld [of "0x1FF" 9] run_fld [of "0xFFF" 12]
    run_fld [of "0x7FFF" 15] run_fld [of "0x1FFFFFFF" 29] run_fld [of "0x7FFFF" 19] run_fld [of "0xFFFFFF" 24])

end
