(* ===== verification/Isa.thy ===== *)
theory Isa
  imports Bitfield
begin

section \<open>Instructions\<close>

text \<open>
  The part of \<^verbatim>\<open>src/arch/include/arch_isa.h\<close> that describes instructions: their fields, the access macros, the
  words that macros assemble. Macros are functions on 32-bit words.
\<close>

subsection \<open>Instruction formats\<close>

text \<open>
  The access macros, and the formats of the header's diagrams over the fields it defines below them.
\<close>

definition MIPS_OPCODE :: "u32 \<Rightarrow> u32" where "MIPS_OPCODE instr = drop_bit 26 instr AND MSK0 6"
definition MIPS_RS :: "u32 \<Rightarrow> u32" where "MIPS_RS instr = drop_bit 21 instr AND MSK0 5"
definition MIPS_RT :: "u32 \<Rightarrow> u32" where "MIPS_RT instr = drop_bit 16 instr AND MSK0 5"
definition MIPS_RD :: "u32 \<Rightarrow> u32" where "MIPS_RD instr = drop_bit 11 instr AND MSK0 5"
definition MIPS_SA :: "u32 \<Rightarrow> u32" where "MIPS_SA instr = drop_bit 6 instr AND MSK0 5"
definition MIPS_FUNC :: "u32 \<Rightarrow> u32" where "MIPS_FUNC instr = drop_bit 0 instr AND MSK0 6"
definition MIPS_TCODE :: "u32 \<Rightarrow> u32" where "MIPS_TCODE instr = drop_bit 6 instr AND MSK0 10"
definition MIPS_BCODE :: "u32 \<Rightarrow> u32" where "MIPS_BCODE instr = drop_bit 6 instr AND MSK0 20"
definition MIPS_BFUNC :: "u32 \<Rightarrow> u32" where "MIPS_BFUNC instr = drop_bit 3 instr AND MSK0 3"
definition MIPS_SEL :: "u32 \<Rightarrow> u32" where "MIPS_SEL instr = drop_bit 0 instr AND MSK0 3"
definition MIPS_OFFSET :: "u32 \<Rightarrow> u32" where "MIPS_OFFSET instr = drop_bit 0 instr AND MSK0 16"
definition MIPS_TARGET :: "u32 \<Rightarrow> u32" where "MIPS_TARGET instr = drop_bit 0 instr AND MSK0 26"

definition InstnOpcode :: field where "InstnOpcode = fld ''InstnOpcode'' 26 0x3f"
definition InstnRS :: field where "InstnRS = fld ''InstnRS'' 21 0x1f"
definition InstnRT :: field where "InstnRT = fld ''InstnRT'' 16 0x1f"
definition InstnRD :: field where "InstnRD = fld ''InstnRD'' 11 0x1f"
definition InstnSA :: field where "InstnSA = fld ''InstnSA'' 6 0x1f"
definition InstnTcode :: field where "InstnTcode = fld ''InstnTcode'' 6 0x3ff"
definition InstnBcode :: field where "InstnBcode = fld ''InstnBcode'' 6 0xfffff"
definition InstnFunc :: field where "InstnFunc = fld ''InstnFunc'' 0 0x3f"
definition InstnSel :: field where "InstnSel = fld ''InstnSel'' 0 0x7"
definition InstnOffset :: field where "InstnOffset = fld ''InstnOffset'' 0 0xffff"
definition InstnHint :: field where "InstnHint = InstnRT"
definition InstnJIndex :: field where "InstnJIndex = fld ''InstnJIndex'' 0 0x03ffffff"
definition InstnFmt :: field where "InstnFmt = InstnRS"
definition InstnFT :: field where "InstnFT = InstnRT"
definition InstnFS :: field where "InstnFS = InstnRD"
definition InstnFD :: field where "InstnFD = InstnSA"
definition InstnSub :: field where "InstnSub = InstnRS"
definition InstnCCcmp :: field where "InstnCCcmp = fld ''InstnCCcmp'' 8 0x7"
definition InstnCABS :: field where "InstnCABS = fld ''InstnCABS'' 6 0x1"
definition InstnCC :: field where "InstnCC = fld ''InstnCC'' 18 0x7"
definition InstnND :: field where "InstnND = fld ''InstnND'' 17 0x1"
definition InstnTF :: field where "InstnTF = fld ''InstnTF'' 16 0x1"
definition InstnFR :: field where "InstnFR = InstnRS"
definition InstnOp4 :: field where "InstnOp4 = fld ''InstnOp4'' 3 0x7"
definition InstnFmt3 :: field where "InstnFmt3 = fld ''InstnFmt3'' 0 0x7"
definition InstnHintX :: field where "InstnHintX = InstnRD"

lemmas instn_fields = InstnOpcode_def InstnRS_def InstnRT_def InstnRD_def InstnSA_def InstnTcode_def
  InstnBcode_def InstnFunc_def InstnSel_def InstnOffset_def InstnHint_def InstnJIndex_def InstnFmt_def
  InstnFT_def InstnFS_def InstnFD_def InstnSub_def InstnCCcmp_def InstnCABS_def InstnCC_def InstnND_def
  InstnTF_def InstnFR_def InstnOp4_def InstnFmt3_def InstnHintX_def

definition instn_formats :: "(string \<times> field list) list" where
  "instn_formats =
    [(''R'', [InstnOpcode, InstnRS, InstnRT, InstnRD, InstnSA, InstnFunc]),
     (''R trap'', [InstnOpcode, InstnRS, InstnRT, InstnTcode, InstnFunc]),
     (''R break'', [InstnOpcode, InstnBcode, InstnFunc]),
     (''I'', [InstnOpcode, InstnRS, InstnRT, InstnOffset]),
     (''I pref'', [InstnOpcode, InstnRS, InstnHint, InstnOffset]),
     (''J'', [InstnOpcode, InstnJIndex]),
     (''FP R'', [InstnOpcode, InstnFmt, InstnFT, InstnFS, InstnFD, InstnFunc]),
     (''FP move on cc'', [InstnOpcode, InstnFmt, InstnCC, InstnND, InstnTF, InstnFS, InstnFD, InstnFunc]),
     (''FP 3-operand'', [InstnOpcode, InstnFR, InstnFT, InstnFS, InstnFD, InstnOp4, InstnFmt3]),
     (''FP I'', [InstnOpcode, InstnRS, InstnFT, InstnOffset]),
     (''FP branch'', [InstnOpcode, InstnFmt, InstnCC, InstnND, InstnTF, InstnOffset])]"


text \<open>The access macros read the fields of the same name.\<close>

lemma and_push_drop: "drop_bit s (w AND push_bit s m) = drop_bit s w AND (m :: u32)" if "push_bit s m = push_bit s (m AND mask (32 - s))" "m AND mask (32 - s) = m" for w
proof (rule bit_word_eqI)
  fix i assume "i < LENGTH(32)"
  have "bit m i \<longrightarrow> i < 32 - s"
    using that(2) by (metis bit_and_iff bit_mask_iff)
  then show "bit (drop_bit s (w AND push_bit s m)) i = bit (drop_bit s w AND m) i"
    by (auto simp: bit_simps)
qed

lemma access_macros:
  "MIPS_OPCODE = get_field InstnOpcode" "MIPS_RS = get_field InstnRS" "MIPS_RT = get_field InstnRT"
  "MIPS_RD = get_field InstnRD" "MIPS_SA = get_field InstnSA" "MIPS_FUNC = get_field InstnFunc"
  "MIPS_TCODE = get_field InstnTcode" "MIPS_BCODE = get_field InstnBcode" "MIPS_SEL = get_field InstnSel"
  "MIPS_OFFSET = get_field InstnOffset" "MIPS_TARGET = get_field InstnJIndex"
  by (rule ext, simp add: MIPS_OPCODE_def MIPS_RS_def MIPS_RT_def MIPS_RD_def MIPS_SA_def MIPS_FUNC_def
    MIPS_TCODE_def MIPS_BCODE_def MIPS_SEL_def MIPS_OFFSET_def MIPS_TARGET_def instn_fields fld_def get_field_def
    MSK0_def and_push_drop)+

lemma instn_formats_partition: "list_all (\<lambda>(n, fs). partitions fs) instn_formats"
  by code_simp

text \<open>
  Every instruction format of the header takes a 32-bit word apart without loss: putting the fields of a
  word together again gives the word, and a word put together from field values gives each of them back,
  cut to its field.
\<close>

theorem instn_roundtrip:
  assumes "(n, fs) \<in> set instn_formats"
  shows "assemble fs (map (\<lambda>f. get_field f w) fs) = w
    \<and> (\<forall>vs i. length vs = length fs \<longrightarrow> i < length fs \<longrightarrow>
        get_field (fs ! i) (assemble fs vs) = vs ! i AND MSK0 (field_width (fs ! i)))"
proof -
  have "partitions fs"
    using assms instn_formats_partition by (auto simp: list_all_iff)
  then show ?thesis
    by (auto simp: partition_assemble assemble_get partitions_def)
qed

theorem instn_roundtrip_witness:
  "assemble [InstnOpcode, InstnRS, InstnRT, InstnOffset] (map (\<lambda>f. get_field f 0x8fa40010) [InstnOpcode, InstnRS, InstnRT, InstnOffset]) = 0x8fa40010
    \<and> get_field InstnRS (assemble [InstnOpcode, InstnRS, InstnRT, InstnOffset] [0x23, 29, 4, 0x10]) = 29"
proof -
  have m: "(''I'', [InstnOpcode, InstnRS, InstnRT, InstnOffset]) \<in> set instn_formats"
    by (simp add: instn_formats_def)
  have w: "(29 :: u32) AND MSK0 (field_width InstnRS) = 29"
    by code_simp
  show ?thesis
    using instn_roundtrip [OF m, of "0x8fa40010"]
      instn_roundtrip [OF m, of 0, THEN conjunct2, rule_format, of "[0x23, 29, 4, 0x10]" 1] w by simp
qed

text \<open>The codes of the branches and jumps, and the hints of the prefetch instruction; they fit their fields.\<close>

definition opcodes :: "(string \<times> u32) list" where
  "opcodes =
    [(''OPC_SPECIAL'', 0x0), (''OPC_REGIM'', 0x1), (''OPC_J'', 0x2), (''OPC_JAL'', 0x3),
     (''OPC_BEQ'', 0x4), (''OPC_BNE'', 0x5), (''OPC_BLEZ'', 0x6), (''OPC_BGTZ'', 0x7),
     (''OPC_BEQL'', 0x14), (''OPC_BNEL'', 0x15), (''OPC_BLEZL'', 0x16), (''OPC_BGTZL'', 0x17)]"

definition rt_codes :: "(string \<times> u32) list" where
  "rt_codes =
    [(''RT_BLTZ'', 0x0), (''RT_BGEZ'', 0x1), (''RT_BLTZL'', 0x2), (''RT_BGEZL'', 0x3),
     (''RT_BLTZAL'', 0x10), (''RT_BGEZAL'', 0x11), (''RT_BLTZALL'', 0x12), (''RT_BGEZALL'', 0x13)]"

definition func_codes :: "(string \<times> u32) list" where
  "func_codes =
    [(''FUNC_JR'', 0x8), (''FUNC_JALR'', 0x9)]"

definition pref_hints :: "(string \<times> u32) list" where
  "pref_hints =
    [(''PrefLoad'', 0), (''PrefStore'', 1), (''PrefLoadStreamed'', 4), (''PrefStoreStreamed'', 5),
     (''PrefLoadRetained'', 6), (''PrefStoreRetained'', 7), (''PrefWBInval'', 25), (''PrefNudge'', 25)]"

definition codes_fit :: "field \<Rightarrow> (string \<times> u32) list \<Rightarrow> bool" where
  "codes_fit f cs \<longleftrightarrow> list_all (\<lambda>(n, c). get_field f (push_bit (fshift f) c) = c) cs"

lemma codes_fit_fields:
  "codes_fit InstnOpcode opcodes" "codes_fit InstnRT rt_codes" "codes_fit InstnFunc func_codes" "codes_fit InstnHint pref_hints"
  by (simp_all add: codes_fit_def opcodes_def rt_codes_def func_codes_def pref_hints_def instn_fields fld_def get_field_def)

subsection \<open>Jumps, and the words of the coprocessor moves\<close>

definition OPC_J :: u32 where "OPC_J = 0x2"
definition OPC_JAL :: u32 where "OPC_JAL = 0x3"

definition MIPS_INSTR_BREAK :: u32 where "MIPS_INSTR_BREAK = 0x0005000d"
definition MIPS_INSTR_NOP :: u32 where "MIPS_INSTR_NOP = 0x00000000"
definition MIPS_INSTR_DERET :: u32 where "MIPS_INSTR_DERET = 0x4200001f"

definition MIPS_INSTR_JUMP :: "u32 \<Rightarrow> u32" where
  "MIPS_INSTR_JUMP a = push_bit 26 OPC_J OR (drop_bit 2 a AND MSK0 26)"

definition PSEUDO_MTC0_SELECT :: "u32 \<Rightarrow> u32 \<Rightarrow> u32 \<Rightarrow> u32" where
  "PSEUDO_MTC0_SELECT dst src sel = 0x40800000 OR push_bit 16 dst OR push_bit 11 src OR sel"

definition PSEUDO_MFC0_SELECT :: "u32 \<Rightarrow> u32 \<Rightarrow> u32 \<Rightarrow> u32" where
  "PSEUDO_MFC0_SELECT dst src sel = 0x40000000 OR push_bit 16 dst OR push_bit 11 src OR sel"


text \<open>
  A jump instruction reaches the word the macro was given when it stands in the same 256 MB region: the
  processor takes the upper four bits of the address from the instruction after the jump.
\<close>

definition jump_dest :: "u32 \<Rightarrow> u32 \<Rightarrow> u32" where
  "jump_dest pc instr = ((pc + 4) AND 0xF0000000) OR push_bit 2 (MIPS_TARGET instr)"

lemma bit_numeral_MSK0 [simp]: "MSK0 (numeral n) = mask (numeral n)"
  by (simp add: MSK0_def mask_eq_exp_minus_1 push_bit_eq_mult)

lemma Suc_Suc_sub: "2 \<le> i \<Longrightarrow> Suc (Suc (i - 2)) = i"
  by simp

lemma bit_OPC_J: "bit OPC_J n \<longleftrightarrow> n = 1"
  by (auto simp: OPC_J_def bit_2_iff)

theorem jump_reaches:
  assumes "a AND 3 = 0" "a AND 0xF0000000 = (pc + 4) AND 0xF0000000"
  shows "MIPS_OPCODE (MIPS_INSTR_JUMP a) = OPC_J \<and> jump_dest pc (MIPS_INSTR_JUMP a) = a"
proof
  show "MIPS_OPCODE (MIPS_INSTR_JUMP a) = OPC_J"
    by (rule bit_word_eqI)
      (auto simp: MIPS_OPCODE_def MIPS_INSTR_JUMP_def bit_OPC_J bit_simps)
  have m: "a AND 0xF0000000 = a AND NOT (mask 28)" "a AND 3 = a AND mask 2"
    by (rule arg_cong [of _ _ "\<lambda>m. a AND m"], code_simp)+
  have l: "\<not> bit a 0" "\<not> bit a 1"
  proof -
    have "bit (a AND mask 2) i = False" for i
      using assms(1) m(2) by simp
    from this [of 0] this [of 1] show "\<not> bit a 0" "\<not> bit a 1"
      by (simp_all add: bit_simps)
  qed
  have z: "bit a i \<Longrightarrow> 2 \<le> i" for i
    using l by (cases "i = 0 \<or> i = 1") auto
  have "MIPS_TARGET (MIPS_INSTR_JUMP a) = drop_bit 2 a AND mask 26"
    by (rule bit_word_eqI) (auto simp: MIPS_TARGET_def MIPS_INSTR_JUMP_def bit_simps)
  then have "jump_dest pc (MIPS_INSTR_JUMP a) = (a AND NOT (mask 28)) OR push_bit 2 (drop_bit 2 a AND mask 26)"
    using assms(2) m(1) by (simp add: jump_dest_def)
  also have "\<dots> = a"
  proof (rule bit_word_eqI)
    fix i assume "i < LENGTH(32)"
    then show "bit ((a AND NOT (mask 28)) OR push_bit 2 (drop_bit 2 a AND mask 26)) i = bit a i"
      using z [of i] Suc_Suc_sub [of i] by (cases "2 \<le> i") (auto simp: bit_simps)
  qed
  finally show "jump_dest pc (MIPS_INSTR_JUMP a) = a" .
qed

theorem jump_reaches_witness:
  "MIPS_OPCODE (MIPS_INSTR_JUMP 0xbfc00240) = OPC_J \<and> jump_dest 0xbfc00000 (MIPS_INSTR_JUMP 0xbfc00240) = 0xbfc00240"
  using jump_reaches [of "0xbfc00240" "0xbfc00000"] by simp

lemma bit_less_exp: "(x :: u32) < 2 ^ n \<Longrightarrow> n < 32 \<Longrightarrow> bit x i \<Longrightarrow> i < n"
proof -
  assume "x < 2 ^ n" "n < 32" "bit x i"
  moreover from \<open>n < 32\<close> have "unat ((2 :: u32) ^ n) = 2 ^ n"
    using unat_of_nat [of "2 ^ n", where 'a = 32] power_strict_increasing [of n 32 "2 :: nat"] by simp
  ultimately have "unat x < 2 ^ n" "bit (unat x) i"
    by (simp_all add: word_less_nat_alt bit_unsigned_iff)
  then show "i < n"
    by (metis bit_take_bit_iff take_bit_nat_eq_self)
qed

lemma move_fields:
  assumes "w = (push_bit 26 opc OR push_bit 21 rs) OR push_bit 16 rt OR push_bit 11 rd OR (sel :: u32)"
    "opc < 2 ^ 6" "rs < 2 ^ 5" "rt < 2 ^ 5" "rd < 2 ^ 5" "sel < 2 ^ 3"
  shows "map (\<lambda>f. f w) [MIPS_OPCODE, MIPS_RS, MIPS_RT, MIPS_RD, MIPS_SEL] = [opc, rs, rt, rd, sel]"
proof -
  note b = assms(2-6) [THEN bit_less_exp]
  have n: "bit opc n \<Longrightarrow> n < 6" "bit rs n \<Longrightarrow> n < 5" "bit rt n \<Longrightarrow> n < 5" "bit rd n \<Longrightarrow> n < 5" "bit sel n \<Longrightarrow> n < 3" for n
    using b [of n] by simp_all
  have z: "6 \<le> n \<Longrightarrow> \<not> bit opc n" "5 \<le> n \<Longrightarrow> \<not> bit rs n" "5 \<le> n \<Longrightarrow> \<not> bit rt n" "5 \<le> n \<Longrightarrow> \<not> bit rd n" "3 \<le> n \<Longrightarrow> \<not> bit sel n" for n
    using n [of n] by auto
  show ?thesis
    unfolding assms(1)
    by (auto simp: MIPS_OPCODE_def MIPS_RS_def MIPS_RT_def MIPS_RD_def MIPS_SEL_def bit_simps z intro!: bit_word_eqI dest: n)
qed

text \<open>
  The words that the select macros emit are the coprocessor-0 moves: the general register is in \<open>rt\<close>, the
  coprocessor register in \<open>rd\<close>. In \<^verbatim>\<open>PSEUDO_MTC0_SELECT\<close> the argument called \<open>dst\<close> is therefore the source
  of the move.
\<close>

theorem select_moves:
  assumes "dst < 32" "src < 32" "sel < 8"
  shows "map (\<lambda>f. f (PSEUDO_MTC0_SELECT dst src sel)) [MIPS_OPCODE, MIPS_RS, MIPS_RT, MIPS_RD, MIPS_SEL] = [0x10, 4, dst, src, sel]
    \<and> map (\<lambda>f. f (PSEUDO_MFC0_SELECT dst src sel)) [MIPS_OPCODE, MIPS_RS, MIPS_RT, MIPS_RD, MIPS_SEL] = [0x10, 0, dst, src, sel]"
proof -
  have w: "PSEUDO_MTC0_SELECT dst src sel = (push_bit 26 0x10 OR push_bit 21 4) OR push_bit 16 dst OR push_bit 11 src OR sel"
    "PSEUDO_MFC0_SELECT dst src sel = (push_bit 26 0x10 OR push_bit 21 0) OR push_bit 16 dst OR push_bit 11 src OR sel"
    by (simp_all add: PSEUDO_MTC0_SELECT_def PSEUDO_MFC0_SELECT_def)
  have "dst < 2 ^ 5" "src < 2 ^ 5" "sel < 2 ^ 3"
    using assms by simp_all
  then show ?thesis
    by (intro conjI move_fields [OF w(1)] move_fields [OF w(2)]) simp_all
qed

theorem select_moves_witness:
  "map (\<lambda>f. f (PSEUDO_MTC0_SELECT 8 16 1)) [MIPS_OPCODE, MIPS_RS, MIPS_RT, MIPS_RD, MIPS_SEL] = [0x10, 4, 8, 16, 1]"
  using select_moves [of 8 16 1] by simp

end
