(* ===== verification/Isa_Cp0.thy ===== *)
theory Isa_Cp0
  imports Bitfield
begin

section \<open>Coprocessor registers\<close>

text \<open>
  The register tables of \<^verbatim>\<open>src/arch/include/arch_isa.h\<close>, for the 32-bit architecture: each register with its
  number and select, its fields, the bits that are always zero (\<^verbatim>\<open>M_xxx0Fields\<close>) and those that are read-only
  (\<^verbatim>\<open>M_xxxRFields\<close>), and the values the header names for its fields. A register that the header leaves
  without fields has none here. The masks of the 64-bit variants are left out.
\<close>

record reg_desc =
  reg_name :: string
  reg_index :: nat
  reg_sel :: nat
  reg_fields :: "field list"
  zero_bits :: u32
  read_bits :: u32
  field_values :: "(string \<times> string \<times> u32) list"

subsection \<open>Coprocessor 0\<close>

definition Index_reg :: reg_desc where
  "Index_reg = \<lparr>reg_name = ''Index'', reg_index = 0, reg_sel = 0,
     reg_fields = [fld ''IndexP'' 31 0x1,
       fld ''IndexIndex'' 0 0x3F],
     zero_bits = 0x7FFFFFC0, read_bits = 0x80000000,
     field_values = []\<rparr>"

definition Random_reg :: reg_desc where
  "Random_reg = \<lparr>reg_name = ''Random'', reg_index = 1, reg_sel = 0,
     reg_fields = [fld ''RandomIndex'' 0 0x3F],
     zero_bits = 0xFFFFFFC0, read_bits = 0x3F,
     field_values = []\<rparr>"

definition EntryLo_reg :: reg_desc where
  "EntryLo_reg = \<lparr>reg_name = ''EntryLo'', reg_index = 2, reg_sel = 0,
     reg_fields = [fld ''EntryLoPFN'' 6 0xFFFFFF,
       fld ''EntryLoC'' 3 0x7,
       fld ''EntryLoD'' 2 0x1,
       fld ''EntryLoV'' 1 0x1,
       fld ''EntryLoG'' 0 0x1],
     zero_bits = 0x0, read_bits = 0xC0000000,
     field_values = [(''EntryLoC'', ''K_CacheAttrCWTnWA'', 0x0),
       (''EntryLoC'', ''K_CacheAttrCWTWA'', 0x1),
       (''EntryLoC'', ''K_CacheAttrU'', 0x2),
       (''EntryLoC'', ''K_CacheAttrC'', 0x3),
       (''EntryLoC'', ''K_CacheAttrCN'', 0x3),
       (''EntryLoC'', ''K_CacheAttrCNWBWA'', 0x3),
       (''EntryLoC'', ''K_CacheAttrCCE'', 0x4),
       (''EntryLoC'', ''K_CacheAttrCCS'', 0x5),
       (''EntryLoC'', ''K_CacheAttrCCU'', 0x6),
       (''EntryLoC'', ''K_CacheAttrUA'', 0x7)]\<rparr>"

definition Context_reg :: reg_desc where
  "Context_reg = \<lparr>reg_name = ''Context'', reg_index = 4, reg_sel = 0,
     reg_fields = [fld ''ContextPTEBase'' 23 0x1FF,
       fld ''ContextBadVPN'' 4 0x7FFFF],
     zero_bits = 0xF, read_bits = 0x7FFFF0,
     field_values = []\<rparr>"

definition PageMask_reg :: reg_desc where
  "PageMask_reg = \<lparr>reg_name = ''PageMask'', reg_index = 5, reg_sel = 0,
     reg_fields = [fld ''PageMaskMask'' 13 0xFFF],
     zero_bits = 0xFE001FFF, read_bits = 0x0,
     field_values = [(''PageMaskMask'', ''K_PageMask4K'', 0x0),
       (''PageMaskMask'', ''K_PageMask16K'', 0x3),
       (''PageMaskMask'', ''K_PageMask64K'', 0xF),
       (''PageMaskMask'', ''K_PageMask256K'', 0x3F),
       (''PageMaskMask'', ''K_PageMask1M'', 0xFF),
       (''PageMaskMask'', ''K_PageMask4M'', 0x3FF),
       (''PageMaskMask'', ''K_PageMask16M'', 0xFFF)]\<rparr>"

definition Wired_reg :: reg_desc where
  "Wired_reg = \<lparr>reg_name = ''Wired'', reg_index = 6, reg_sel = 0,
     reg_fields = [fld ''WiredIndex'' 0 0x3F],
     zero_bits = 0xFFFFFFC0, read_bits = 0x0,
     field_values = []\<rparr>"

definition BadVAddr_reg :: reg_desc where
  "BadVAddr_reg = \<lparr>reg_name = ''BadVAddr'', reg_index = 8, reg_sel = 0,
     reg_fields = [],
     zero_bits = 0x0, read_bits = 0xFFFFFFFF,
     field_values = []\<rparr>"

definition Count_reg :: reg_desc where
  "Count_reg = \<lparr>reg_name = ''Count'', reg_index = 9, reg_sel = 0,
     reg_fields = [],
     zero_bits = 0x0, read_bits = 0x0,
     field_values = []\<rparr>"

definition EntryHi_reg :: reg_desc where
  "EntryHi_reg = \<lparr>reg_name = ''EntryHi'', reg_index = 10, reg_sel = 0,
     reg_fields = [fld ''EntryHiVPN2'' 13 0x7FFFF,
       fld ''EntryHiASID'' 0 0xFF],
     zero_bits = 0x1F00, read_bits = 0x0,
     field_values = []\<rparr>"

definition Compare_reg :: reg_desc where
  "Compare_reg = \<lparr>reg_name = ''Compare'', reg_index = 11, reg_sel = 0,
     reg_fields = [],
     zero_bits = 0x0, read_bits = 0x0,
     field_values = []\<rparr>"

definition Status_reg :: reg_desc where
  "Status_reg = \<lparr>reg_name = ''Status'', reg_index = 12, reg_sel = 0,
     reg_fields = [fld ''StatusCU'' 28 0xF,
       fld ''StatusCU3'' 31 0x1,
       fld ''StatusCU2'' 30 0x1,
       fld ''StatusCU1'' 29 0x1,
       fld ''StatusCU0'' 28 0x1,
       fld ''StatusRP'' 27 0x1,
       fld ''StatusFR'' 26 0x1,
       fld ''StatusRE'' 25 0x1,
       fld ''StatusMX'' 24 0x1,
       fld ''StatusPX'' 23 0x1,
       fld ''StatusBEV'' 22 0x1,
       fld ''StatusTS'' 21 0x1,
       fld ''StatusSR'' 20 0x1,
       fld ''StatusNMI'' 19 0x1,
       fld ''StatusIM'' 8 0xFF,
       fld ''StatusIM7'' 15 0x1,
       fld ''StatusIM6'' 14 0x1,
       fld ''StatusIM5'' 13 0x1,
       fld ''StatusIM4'' 12 0x1,
       fld ''StatusIM3'' 11 0x1,
       fld ''StatusIM2'' 10 0x1,
       fld ''StatusIM1'' 9 0x1,
       fld ''StatusIM0'' 8 0x1,
       fld ''StatusKX'' 7 0x1,
       fld ''StatusSX'' 6 0x1,
       fld ''StatusUX'' 5 0x1,
       fld ''StatusKSU'' 3 0x3,
       fld ''StatusUM'' 4 0x1,
       fld ''StatusSM'' 3 0x1,
       fld ''StatusERL'' 2 0x1,
       fld ''StatusEXL'' 1 0x1,
       fld ''StatusIE'' 0 0x1],
     zero_bits = 0x40000, read_bits = 0x58000E0,
     field_values = [(''StatusKSU'', ''K_StatusKSU_U'', 0x2),
       (''StatusKSU'', ''K_StatusKSU_S'', 0x1),
       (''StatusKSU'', ''K_StatusKSU_K'', 0x0)]\<rparr>"

definition Cause_reg :: reg_desc where
  "Cause_reg = \<lparr>reg_name = ''Cause'', reg_index = 13, reg_sel = 0,
     reg_fields = [fld ''CauseBD'' 31 0x1,
       fld ''CauseTI'' 30 0x1,
       fld ''CauseCE'' 28 0x3,
       fld ''CauseDC'' 27 0x1,
       fld ''CausePCI'' 26 0x1,
       fld ''CauseIV'' 23 0x1,
       fld ''CauseWP'' 22 0x1,
       fld ''CauseIP'' 8 0xFF,
       fld ''CauseIPEXT'' 10 0x3F,
       fld ''CauseIP7'' 15 0x1,
       fld ''CauseIP6'' 14 0x1,
       fld ''CauseIP5'' 13 0x1,
       fld ''CauseIP4'' 12 0x1,
       fld ''CauseIP3'' 11 0x1,
       fld ''CauseIP2'' 10 0x1,
       fld ''CauseIP1'' 9 0x1,
       fld ''CauseIP0'' 8 0x1,
       fld ''CauseExcCode'' 2 0x1F],
     zero_bits = 0x4F3F0083, read_bits = 0xB000FC7C,
     field_values = [(''CauseCE'', ''K_CauseCE0'', 0x0),
       (''CauseCE'', ''K_CauseCE1'', 0x1),
       (''CauseCE'', ''K_CauseCE2'', 0x2),
       (''CauseCE'', ''K_CauseCE3'', 0x3)]\<rparr>"

definition EPC_reg :: reg_desc where
  "EPC_reg = \<lparr>reg_name = ''EPC'', reg_index = 14, reg_sel = 0,
     reg_fields = [],
     zero_bits = 0x0, read_bits = 0x0,
     field_values = []\<rparr>"

definition PRId_reg :: reg_desc where
  "PRId_reg = \<lparr>reg_name = ''PRId'', reg_index = 15, reg_sel = 0,
     reg_fields = [fld ''PRIdCoOpt'' 24 0xFF,
       fld ''PRIdCoID'' 16 0xFF,
       fld ''PRIdImp'' 8 0xFF,
       fld ''PRIdRev'' 0 0xFF],
     zero_bits = 0x0, read_bits = 0xFFFFFFFF,
     field_values = [(''PRIdCoID'', ''K_PRIdCoID_NONE'', 0x0),
       (''PRIdCoID'', ''K_PRIdCoID_MIPS'', 0x1),
       (''PRIdCoID'', ''K_PRIdCoID_Broadcom'', 0x2),
       (''PRIdCoID'', ''K_PRIdCoID_Alchemy'', 0x3),
       (''PRIdCoID'', ''K_PRIdCoID_SiByte'', 0x4),
       (''PRIdCoID'', ''K_PRIdCoID_SandCraft'', 0x5),
       (''PRIdCoID'', ''K_PRIdCoID_Philips'', 0x6),
       (''PRIdCoID'', ''K_PRIdCoID_NextAvailable'', 0x7),
       (''PRIdImp'', ''K_PRIdImp_R3000'', 0x1),
       (''PRIdImp'', ''K_PRIdImp_R305X'', 0x2),
       (''PRIdImp'', ''K_PRIdImp_R6000'', 0x3),
       (''PRIdImp'', ''K_PRIdImp_R4X00'', 0x4),
       (''PRIdImp'', ''K_PRIdImp_eLSI'', 0x5),
       (''PRIdImp'', ''K_PRIdImp_R6000A'', 0x6),
       (''PRIdImp'', ''K_PRIdImp_R3041'', 0x7),
       (''PRIdImp'', ''K_PRIdImp_R10000'', 0x9),
       (''PRIdImp'', ''K_PRIdImp_VR4200'', 0xA),
       (''PRIdImp'', ''K_PRIdImp_VR4300'', 0xB),
       (''PRIdImp'', ''K_PRIdImp_VR41XX'', 0xC),
       (''PRIdImp'', ''K_PRIdImp_R8000'', 0x10),
       (''PRIdImp'', ''K_PRIdImp_R4600'', 0x20),
       (''PRIdImp'', ''K_PRIdImp_R4700'', 0x21),
       (''PRIdImp'', ''K_PRIdImp_TR3900'', 0x22),
       (''PRIdImp'', ''K_PRIdImp_R5000'', 0x23),
       (''PRIdImp'', ''K_PRIdImp_R52XX'', 0x28),
       (''PRIdImp'', ''K_PRIdImp_R5400'', 0x54),
       (''PRIdImp'', ''K_PRIdImp_Jade'', 0x80),
       (''PRIdImp'', ''K_PRIdImp_Opal'', 0x81),
       (''PRIdImp'', ''K_PRIdImp_Ruby'', 0x82),
       (''PRIdImp'', ''K_PRIdImp_JadeLite'', 0x83),
       (''PRIdImp'', ''K_PRIdImp_4KEc'', 0x84),
       (''PRIdImp'', ''K_PRIdImp_4KEmp'', 0x85),
       (''PRIdImp'', ''K_PRIdImp_4KSc'', 0x86),
       (''PRIdImp'', ''K_PRIdImp_M4K'', 0x87),
       (''PRIdImp'', ''K_PRIdImp_25Kf'', 0x88),
       (''PRIdImp'', ''K_PRIdImp_5KE'', 0x89),
       (''PRIdImp'', ''K_PRIdImp_4KEc_32R2'', 0x90),
       (''PRIdImp'', ''K_PRIdImp_4KEmp_32R2'', 0x91),
       (''PRIdImp'', ''K_PRIdImp_4KSd'', 0x92),
       (''PRIdImp'', ''K_PRIdImp_24K'', 0x93),
       (''PRIdImp'', ''K_PRIdImp_34K'', 0x95),
       (''PRIdImp'', ''K_PRIdImp_24KE'', 0x96)]\<rparr>"

definition Config_reg :: reg_desc where
  "Config_reg = \<lparr>reg_name = ''Config'', reg_index = 16, reg_sel = 0,
     reg_fields = [fld ''ConfigMore'' 31 0x1,
       fld ''ConfigImpl'' 16 0x7FFF,
       fld ''ConfigBE'' 15 0x1,
       fld ''ConfigAT'' 13 0x3,
       fld ''ConfigAR'' 10 0x7,
       fld ''ConfigMT'' 7 0x7,
       fld ''ConfigK0'' 0 0x7,
       fld ''ConfigK23'' 28 0x7,
       fld ''ConfigKU'' 25 0x7,
       fld ''ConfigWC'' 19 0x1],
     zero_bits = 0x78, read_bits = 0x8000FF80,
     field_values = [(''ConfigAT'', ''K_ConfigAT_MIPS32'', 0x0),
       (''ConfigAT'', ''K_ConfigAT_MIPS64S'', 0x1),
       (''ConfigAT'', ''K_ConfigAT_MIPS64'', 0x2),
       (''ConfigMT'', ''K_ConfigMT_NoMMU'', 0x0),
       (''ConfigMT'', ''K_ConfigMT_TLBMMU'', 0x1),
       (''ConfigMT'', ''K_ConfigMT_BATMMU'', 0x2),
       (''ConfigMT'', ''K_ConfigMT_FMMMU'', 0x3)]\<rparr>"

definition Config1_reg :: reg_desc where
  "Config1_reg = \<lparr>reg_name = ''Config1'', reg_index = 16, reg_sel = 1,
     reg_fields = [fld ''Config1More'' 31 0x1,
       fld ''Config1MMUSize'' 25 0x3F,
       fld ''Config1IS'' 22 0x7,
       fld ''Config1IL'' 19 0x7,
       fld ''Config1IA'' 16 0x7,
       fld ''Config1DS'' 13 0x7,
       fld ''Config1DL'' 10 0x7,
       fld ''Config1DA'' 7 0x7,
       fld ''Config1C2'' 6 0x1,
       fld ''Config1MD'' 5 0x1,
       fld ''Config1PC'' 4 0x1,
       fld ''Config1WR'' 3 0x1,
       fld ''Config1CA'' 2 0x1,
       fld ''Config1EP'' 1 0x1,
       fld ''Config1FP'' 0 0x1],
     zero_bits = 0x60, read_bits = 0x7FFFFF9F,
     field_values = []\<rparr>"

definition Config2_reg :: reg_desc where
  "Config2_reg = \<lparr>reg_name = ''Config2'', reg_index = 16, reg_sel = 2,
     reg_fields = [fld ''Config2More'' 31 0x1,
       fld ''Config2SM'' 1 0x1,
       fld ''Config2TL'' 0 0x1],
     zero_bits = 0xFFFFFFFC, read_bits = 0x3,
     field_values = []\<rparr>"

definition LLAddr_reg :: reg_desc where
  "LLAddr_reg = \<lparr>reg_name = ''LLAddr'', reg_index = 17, reg_sel = 0,
     reg_fields = [],
     zero_bits = 0x0, read_bits = 0x0,
     field_values = []\<rparr>"

definition WatchLo_reg :: reg_desc where
  "WatchLo_reg = \<lparr>reg_name = ''WatchLo'', reg_index = 18, reg_sel = 0,
     reg_fields = [fld ''WatchLoVAddr'' 3 0x1FFFFFFF,
       fld ''WatchLoI'' 2 0x1,
       fld ''WatchLoR'' 1 0x1,
       fld ''WatchLoW'' 0 0x1],
     zero_bits = 0x0, read_bits = 0x0,
     field_values = []\<rparr>"

definition WatchHi_reg :: reg_desc where
  "WatchHi_reg = \<lparr>reg_name = ''WatchHi'', reg_index = 19, reg_sel = 0,
     reg_fields = [fld ''WatchHiM'' 31 0x1,
       fld ''WatchHiG'' 30 0x1,
       fld ''WatchHiASID'' 16 0xFF,
       fld ''WatchHiMask'' 3 0x1FF],
     zero_bits = 0x3F00F007, read_bits = 0x80000000,
     field_values = []\<rparr>"

definition Debug_reg :: reg_desc where
  "Debug_reg = \<lparr>reg_name = ''Debug'', reg_index = 23, reg_sel = 0,
     reg_fields = [fld ''DebugDBD'' 31 0x1,
       fld ''DebugDM'' 30 0x1,
       fld ''DebugNoDCR'' 29 0x1,
       fld ''DebugLSNM'' 28 0x1,
       fld ''DebugDoze'' 27 0x1,
       fld ''DebugHalt'' 26 0x1,
       fld ''DebugCountDM'' 25 0x1,
       fld ''DebugIBusEP'' 24 0x1,
       fld ''DebugMCheckP'' 23 0x1,
       fld ''DebugCacheEP'' 22 0x1,
       fld ''DebugDBusEP'' 21 0x1,
       fld ''DebugIEXI'' 20 0x1,
       fld ''DebugDDBSImpr'' 19 0x1,
       fld ''DebugDDBLImpr'' 18 0x1,
       fld ''DebugEJTAGver'' 15 0x7,
       fld ''DebugDExcCode'' 10 0x1F,
       fld ''DebugNoSSt'' 9 0x1,
       fld ''DebugSSt'' 8 0x1,
       fld ''DebugDINT'' 5 0x1,
       fld ''DebugDIB'' 4 0x1,
       fld ''DebugDDBS'' 3 0x1,
       fld ''DebugDDBL'' 2 0x1,
       fld ''DebugDBp'' 1 0x1,
       fld ''DebugDSS'' 0 0x1],
     zero_bits = 0x1F000C0, read_bits = 0xEC0FFE3F,
     field_values = []\<rparr>"

definition DEPC_reg :: reg_desc where
  "DEPC_reg = \<lparr>reg_name = ''DEPC'', reg_index = 24, reg_sel = 0,
     reg_fields = [],
     zero_bits = 0x0, read_bits = 0x0,
     field_values = []\<rparr>"

definition PerfCnt_reg :: reg_desc where
  "PerfCnt_reg = \<lparr>reg_name = ''PerfCnt'', reg_index = 25, reg_sel = 0,
     reg_fields = [fld ''PerfCntM'' 31 0x1,
       fld ''PerfCntEvent'' 5 0x3F,
       fld ''PerfCntIE'' 4 0x1,
       fld ''PerfCntU'' 3 0x1,
       fld ''PerfCntS'' 2 0x1,
       fld ''PerfCntK'' 1 0x1,
       fld ''PerfCntEXL'' 0 0x1],
     zero_bits = 0x7FFFF800, read_bits = 0x80000000,
     field_values = []\<rparr>"

definition ErrCtl_reg :: reg_desc where
  "ErrCtl_reg = \<lparr>reg_name = ''ErrCtl'', reg_index = 26, reg_sel = 0,
     reg_fields = [],
     zero_bits = 0x0, read_bits = 0x0,
     field_values = []\<rparr>"

definition CacheErr_reg :: reg_desc where
  "CacheErr_reg = \<lparr>reg_name = ''CacheErr'', reg_index = 27, reg_sel = 0,
     reg_fields = [],
     zero_bits = 0x0, read_bits = 0x0,
     field_values = []\<rparr>"

definition TagLo_reg :: reg_desc where
  "TagLo_reg = \<lparr>reg_name = ''TagLo'', reg_index = 28, reg_sel = 0,
     reg_fields = [],
     zero_bits = 0x0, read_bits = 0x0,
     field_values = []\<rparr>"

definition DataLo_reg :: reg_desc where
  "DataLo_reg = \<lparr>reg_name = ''DataLo'', reg_index = 28, reg_sel = 0,
     reg_fields = [],
     zero_bits = 0x0, read_bits = 0xFFFFFFFF,
     field_values = []\<rparr>"

definition TagHi_reg :: reg_desc where
  "TagHi_reg = \<lparr>reg_name = ''TagHi'', reg_index = 29, reg_sel = 0,
     reg_fields = [],
     zero_bits = 0x0, read_bits = 0x0,
     field_values = []\<rparr>"

definition DataHi_reg :: reg_desc where
  "DataHi_reg = \<lparr>reg_name = ''DataHi'', reg_index = 29, reg_sel = 0,
     reg_fields = [],
     zero_bits = 0x0, read_bits = 0xFFFFFFFF,
     field_values = []\<rparr>"

definition ErrorEPC_reg :: reg_desc where
  "ErrorEPC_reg = \<lparr>reg_name = ''ErrorEPC'', reg_index = 30, reg_sel = 0,
     reg_fields = [],
     zero_bits = 0x0, read_bits = 0x0,
     field_values = []\<rparr>"

definition DESAVE_reg :: reg_desc where
  "DESAVE_reg = \<lparr>reg_name = ''DESAVE'', reg_index = 31, reg_sel = 0,
     reg_fields = [],
     zero_bits = 0x0, read_bits = 0x0,
     field_values = []\<rparr>"

subsection \<open>Coprocessor 1\<close>

definition FIR_reg :: reg_desc where
  "FIR_reg = \<lparr>reg_name = ''FIR'', reg_index = 0, reg_sel = 0,
     reg_fields = [fld ''FIRConfigS'' 16 0x1,
       fld ''FIRConfigD'' 17 0x1,
       fld ''FIRConfigPS'' 18 0x1,
       fld ''FIRConfig3D'' 19 0x1,
       fld ''FIRImp'' 8 0xFF,
       fld ''FIRRev'' 0 0xFF],
     zero_bits = 0xFFF00000, read_bits = 0xFFFFF,
     field_values = []\<rparr>"

definition FCCR_reg :: reg_desc where
  "FCCR_reg = \<lparr>reg_name = ''FCCR'', reg_index = 25, reg_sel = 0,
     reg_fields = [fld ''FCCRCC'' 0 0xFF,
       fld ''FCCRCC7'' 7 0x1,
       fld ''FCCRCC6'' 6 0x1,
       fld ''FCCRCC5'' 5 0x1,
       fld ''FCCRCC4'' 4 0x1,
       fld ''FCCRCC3'' 3 0x1,
       fld ''FCCRCC2'' 2 0x1,
       fld ''FCCRCC1'' 1 0x1,
       fld ''FCCRCC0'' 0 0x1],
     zero_bits = 0xFFFFFF00, read_bits = 0xFF,
     field_values = []\<rparr>"

definition FEXR_reg :: reg_desc where
  "FEXR_reg = \<lparr>reg_name = ''FEXR'', reg_index = 26, reg_sel = 0,
     reg_fields = [fld ''FEXRExc'' 12 0x3F,
       fld ''FEXRExcE'' 17 0x1,
       fld ''FEXRExcV'' 16 0x1,
       fld ''FEXRExcZ'' 15 0x1,
       fld ''FEXRExcO'' 14 0x1,
       fld ''FEXRExcU'' 13 0x1,
       fld ''FEXRExcI'' 12 0x1,
       fld ''FEXRFlg'' 2 0x1F,
       fld ''FEXRFlgV'' 6 0x1,
       fld ''FEXRFlgZ'' 5 0x1,
       fld ''FEXRFlgO'' 4 0x1,
       fld ''FEXRFlgU'' 3 0x1,
       fld ''FEXRFlgI'' 2 0x1],
     zero_bits = 0xFFFC0F83, read_bits = 0x0,
     field_values = []\<rparr>"

definition FENR_reg :: reg_desc where
  "FENR_reg = \<lparr>reg_name = ''FENR'', reg_index = 28, reg_sel = 0,
     reg_fields = [fld ''FENREna'' 7 0x1F,
       fld ''FENREnaV'' 11 0x1,
       fld ''FENREnaZ'' 10 0x1,
       fld ''FENREnaO'' 9 0x1,
       fld ''FENREnaU'' 8 0x1,
       fld ''FENREnaI'' 7 0x1,
       fld ''FENRFS'' 2 0x1,
       fld ''FENRRM'' 0 0x3],
     zero_bits = 0xFFFFF078, read_bits = 0x0,
     field_values = []\<rparr>"

definition FCSR_reg :: reg_desc where
  "FCSR_reg = \<lparr>reg_name = ''FCSR'', reg_index = 31, reg_sel = 0,
     reg_fields = [fld ''FCSRFCC7_1'' 25 0x7F,
       fld ''FCSRCC7'' 31 0x1,
       fld ''FCSRCC6'' 30 0x1,
       fld ''FCSRCC5'' 29 0x1,
       fld ''FCSRCC4'' 28 0x1,
       fld ''FCSRCC3'' 27 0x1,
       fld ''FCSRCC2'' 26 0x1,
       fld ''FCSRCC1'' 25 0x1,
       fld ''FCSRFS'' 24 0x1,
       fld ''FCSRCC0'' 23 0x1,
       fld ''FCSRCC'' 23 0x1,
       fld ''FCSRImpl'' 21 0x3,
       fld ''FCSRExc'' 12 0x3F,
       fld ''FCSRExcE'' 17 0x1,
       fld ''FCSRExcV'' 16 0x1,
       fld ''FCSRExcZ'' 15 0x1,
       fld ''FCSRExcO'' 14 0x1,
       fld ''FCSRExcU'' 13 0x1,
       fld ''FCSRExcI'' 12 0x1,
       fld ''FCSREna'' 7 0x1F,
       fld ''FCSREnaV'' 11 0x1,
       fld ''FCSREnaZ'' 10 0x1,
       fld ''FCSREnaO'' 9 0x1,
       fld ''FCSREnaU'' 8 0x1,
       fld ''FCSREnaI'' 7 0x1,
       fld ''FCSRFlg'' 2 0x1F,
       fld ''FCSRFlgV'' 6 0x1,
       fld ''FCSRFlgZ'' 5 0x1,
       fld ''FCSRFlgO'' 4 0x1,
       fld ''FCSRFlgU'' 3 0x1,
       fld ''FCSRFlgI'' 2 0x1,
       fld ''FCSRRM'' 0 0x3],
     zero_bits = 0x1C0000, read_bits = 0x0,
     field_values = [(''FCSRRM'', ''K_FCSRRM_RN'', 0x0),
       (''FCSRRM'', ''K_FCSRRM_RZ'', 0x1),
       (''FCSRRM'', ''K_FCSRRM_RP'', 0x2),
       (''FCSRRM'', ''K_FCSRRM_RM'', 0x3)]\<rparr>"

definition cp0_regs :: "reg_desc list" where
  "cp0_regs =
    [Index_reg, Random_reg, EntryLo_reg, Context_reg, PageMask_reg, Wired_reg, BadVAddr_reg, Count_reg,
     EntryHi_reg, Compare_reg, Status_reg, Cause_reg, EPC_reg, PRId_reg, Config_reg, Config1_reg,
     Config2_reg, LLAddr_reg, WatchLo_reg, WatchHi_reg, Debug_reg, DEPC_reg, PerfCnt_reg, ErrCtl_reg,
     CacheErr_reg, TagLo_reg, DataLo_reg, TagHi_reg, DataHi_reg, ErrorEPC_reg, DESAVE_reg]"

definition cp1_regs :: "reg_desc list" where
  "cp1_regs =
    [FIR_reg, FCCR_reg, FEXR_reg, FENR_reg, FCSR_reg]"

lemmas reg_desc_defs = Index_reg_def Random_reg_def EntryLo_reg_def Context_reg_def PageMask_reg_def Wired_reg_def BadVAddr_reg_def Count_reg_def
  EntryHi_reg_def Compare_reg_def Status_reg_def Cause_reg_def EPC_reg_def PRId_reg_def Config_reg_def Config1_reg_def
  Config2_reg_def LLAddr_reg_def WatchLo_reg_def WatchHi_reg_def Debug_reg_def DEPC_reg_def PerfCnt_reg_def ErrCtl_reg_def
  CacheErr_reg_def TagLo_reg_def DataLo_reg_def TagHi_reg_def DataHi_reg_def ErrorEPC_reg_def DESAVE_reg_def FIR_reg_def
  FCCR_reg_def FEXR_reg_def FENR_reg_def FCSR_reg_def

subsection \<open>Layout\<close>

text \<open>
  \<open>layout_ok\<close>: every field is a run of bits, two fields share no bit or one lies inside the other, no
  always-zero bit is called read-only, and the named values fit a field of the register.
\<close>

definition layout_ok :: "reg_desc \<Rightarrow> bool" where
  "layout_ok r \<longleftrightarrow> fields_ok (reg_fields r)
    \<and> zero_bits r AND read_bits r = 0
    \<and> list_all (\<lambda>(f, k, v). list_ex (\<lambda>g. fname g = f \<and> v = v AND MSK0 (field_width g)) (reg_fields r)) (field_values r)"

lemma layouts_1:
  "layout_ok Index_reg"
  "layout_ok Random_reg"
  "layout_ok EntryLo_reg"
  "layout_ok Context_reg"
  "layout_ok PageMask_reg"
  "layout_ok Wired_reg"
  "layout_ok BadVAddr_reg"
  "layout_ok Count_reg"
  "layout_ok EntryHi_reg"
  "layout_ok Compare_reg"
  "layout_ok Status_reg"
  "layout_ok Cause_reg"
  by (simp_all add: layout_ok_def fields_ok_def reg_desc_defs run_flds apart_or_nested_def MSK0_def)

lemma layouts_2:
  "layout_ok EPC_reg"
  "layout_ok PRId_reg"
  "layout_ok Config_reg"
  "layout_ok Config1_reg"
  "layout_ok Config2_reg"
  "layout_ok LLAddr_reg"
  "layout_ok WatchLo_reg"
  "layout_ok WatchHi_reg"
  by (simp_all add: layout_ok_def fields_ok_def reg_desc_defs run_flds apart_or_nested_def MSK0_def)

lemma layouts_3:
  "layout_ok Debug_reg"
  "layout_ok DEPC_reg"
  "layout_ok PerfCnt_reg"
  "layout_ok ErrCtl_reg"
  "layout_ok CacheErr_reg"
  "layout_ok TagLo_reg"
  "layout_ok DataLo_reg"
  "layout_ok TagHi_reg"
  "layout_ok DataHi_reg"
  "layout_ok ErrorEPC_reg"
  "layout_ok DESAVE_reg"
  by (simp_all add: layout_ok_def fields_ok_def reg_desc_defs run_flds apart_or_nested_def MSK0_def)

lemma layouts_4:
  "layout_ok FIR_reg"
  "layout_ok FCCR_reg"
  "layout_ok FEXR_reg"
  "layout_ok FENR_reg"
  "layout_ok FCSR_reg"
  by (simp_all add: layout_ok_def fields_ok_def reg_desc_defs run_flds apart_or_nested_def MSK0_def)

lemma cp_layouts: "list_all layout_ok (cp0_regs @ cp1_regs)"
  by (simp add: cp0_regs_def cp1_regs_def layouts_1 layouts_2 layouts_3 layouts_4)

text \<open>
  What the layout is good for, in every register of the header: a field that was written reads back, and no
  other field changes with it, except the fields that it contains and those that contain it. Writing back
  what was read changes nothing.
\<close>

theorem reg_fields_independent:
  assumes "r \<in> set (cp0_regs @ cp1_regs)" "f \<in> set (reg_fields r)" "g \<in> set (reg_fields r)"
  shows "get_field f (set_field f v w) = v AND MSK0 (field_width f)
    \<and> set_field f (get_field f w) w = w
    \<and> (get_field g (set_field f v w) = get_field g w \<or> fmask f AND fmask g \<in> {fmask f, fmask g})"
proof -
  have "fields_ok (reg_fields r)"
    using cp_layouts assms(1) by (auto simp: list_all_iff layout_ok_def)
  then show ?thesis
    using assms(2,3) by (rule fields_independent)
qed

theorem reg_fields_independent_witness:
  "get_field (fld ''StatusIE'' 0 0x1) (set_field (fld ''StatusBEV'' 22 0x1) 0 0x00400001) = get_field (fld ''StatusIE'' 0 0x1) 0x00400001
    \<and> get_field (fld ''StatusBEV'' 22 0x1) (set_field (fld ''StatusBEV'' 22 0x1) 1 0x00000001) = 1"
proof -
  have m: "Status_reg \<in> set (cp0_regs @ cp1_regs)" "fld ''StatusBEV'' 22 0x1 \<in> set (reg_fields Status_reg)"
    "fld ''StatusIE'' 0 0x1 \<in> set (reg_fields Status_reg)"
    by (simp_all add: cp0_regs_def) (simp_all add: Status_reg_def fld_def)
  show ?thesis
    using reg_fields_independent [OF m, of 0 "0x00400001"] reg_fields_independent [OF m, of 1 1]
    by (simp add: run_flds MSK0_def)
qed

text \<open>
  The fields that the header defines inside the bits it declares always zero: software that masks a register
  with \<^verbatim>\<open>M_xxx0Fields\<close> takes these fields for reserved bits.
\<close>

definition fields_in_zero :: "reg_desc \<Rightarrow> string list" where
  "fields_in_zero r = map fname (filter (\<lambda>f. fmask f AND zero_bits r \<noteq> 0) (reg_fields r))"

theorem fields_called_zero:
  "concat (map fields_in_zero (cp0_regs @ cp1_regs)) =
    [''CauseTI'', ''CauseDC'', ''CausePCI'', ''Config1C2'', ''Config1MD'', ''Config2More'',
     ''DebugIBusEP'', ''DebugMCheckP'', ''DebugCacheEP'', ''DebugDBusEP'', ''DebugIEXI'']"
  by (simp add: fields_in_zero_def cp0_regs_def cp1_regs_def reg_desc_defs)

subsection \<open>Values of the exception code, the interrupt numbers, processor identities\<close>

text \<open>The codes \<^verbatim>\<open>EX_x\<close>, and \<^verbatim>\<open>EXC_x\<close>, the code in its place in \<^verbatim>\<open>Cause\<close>.\<close>

definition ex_codes :: "(string \<times> u32) list" where
  "ex_codes =
    [(''INT'', 0), (''MOD'', 1), (''TLBL'', 2), (''TLBS'', 3), (''ADEL'', 4), (''ADES'', 5),
     (''IBE'', 6), (''DBE'', 7), (''SYS'', 8), (''SYSCALL'', 8), (''BP'', 9), (''BREAK'', 9),
     (''RI'', 10), (''CPU'', 11), (''OV'', 12), (''TR'', 13), (''TRAP'', 13), (''FPE'', 15),
     (''C2E'', 18), (''MDMX'', 22), (''WATCH'', 23), (''MCHECK'', 24), (''CacheErr'', 30)]"

definition CauseExcCode :: field where "CauseExcCode = fld ''CauseExcCode'' 2 0x1f"

definition EXC :: "u32 \<Rightarrow> u32" where
  "EXC ex = push_bit (fshift CauseExcCode) ex"

text \<open>The numbers of the interrupts, from the mask bits of \<^verbatim>\<open>Status\<close>.\<close>

definition status_im :: "(string \<times> nat) list" where
  "status_im =
    [(''SW0'', 8 - 8), (''SW1'', 9 - 8), (''HW0'', 10 - 8), (''HW1'', 11 - 8), (''HW2'', 12 - 8),
     (''HW3'', 13 - 8), (''HW4'', 14 - 8), (''HW5'', 15 - 8), (''MAX'', 15 - 8)]"

text \<open>The identities of processors: company and implementation of \<^verbatim>\<open>PRId\<close>.\<close>

definition processor_ids :: "(string \<times> u32) list" where
  "processor_ids =
    [(''MIPS_4Kc'', push_bit 16 1 OR push_bit 8 0x80), (''MIPS_4Kmp'', push_bit 16 1 OR push_bit 8 0x83),
     (''MIPS_4KEc'', push_bit 16 1 OR push_bit 8 0x84), (''MIPS_4KEmp'', push_bit 16 1 OR push_bit 8 0x85),
     (''MIPS_4KSc'', push_bit 16 1 OR push_bit 8 0x86), (''MIPS_5Kc'', push_bit 16 1 OR push_bit 8 0x81),
     (''MIPS_20Kc'', push_bit 16 1 OR push_bit 8 0x82), (''QED_RM52XX'', push_bit 16 0 OR push_bit 8 0x28)]"

text \<open>
  Codes and identities read back through the fields of their registers; apart from the three second names no
  two exceptions share a code, and no two processors an identity.
\<close>

lemma codes_read_back:
  "CauseExcCode \<in> set (reg_fields Cause_reg)"
  "list_all (\<lambda>(n, ex). get_field CauseExcCode (EXC ex) = ex) ex_codes"
  "distinct (map snd (filter (\<lambda>(n, ex). n \<notin> {''SYSCALL'', ''BREAK'', ''TRAP''}) ex_codes))"
  "distinct (map snd processor_ids)"
  "list_all (\<lambda>(n, i). status_im ! i = (n, i)) (butlast status_im)"
  by (simp_all add: CauseExcCode_def Cause_reg_def ex_codes_def EXC_def get_field_def processor_ids_def status_im_def)

end
