(* ===== verification/Isa_Addr.thy ===== *)
theory Isa_Addr
  imports Bitfield Boot Cache
begin

section \<open>Segments, cache operations and general registers\<close>

text \<open>
  The part of \<^verbatim>\<open>src/arch/include/arch_isa.h\<close> about addresses and caches, for the 32-bit architecture
  (\<^verbatim>\<open>MIPSADDR64\<close> and \<^verbatim>\<open>MIPS_Model64\<close> not defined), and the cache operations of
  \<^verbatim>\<open>src/arch/mips32/mips32_cacheops.h\<close>. The bases of the unmapped segments are those that the boot program uses.
\<close>

subsection \<open>Segments\<close>

definition A_K2BASE :: u32 where [reg_defs]: "A_K2BASE = 0xC0000000"
definition A_K3BASE :: u32 where [reg_defs]: "A_K3BASE = 0xE0000000"
definition KSEG_MSK :: u32 where [reg_defs]: "KSEG_MSK = 0xE0000000"
definition M_KMAPPED :: u32 where [reg_defs]: "M_KMAPPED = 0x40000000"

definition KSEG1_A :: "u32 \<Rightarrow> u32" where "KSEG1_A addr = (addr AND NOT KSEG_MSK) OR A_K1BASE"
definition KSEG0_A :: "u32 \<Rightarrow> u32" where "KSEG0_A addr = (addr AND NOT KSEG_MSK) OR A_K0BASE"
definition KUSEG_A :: "u32 \<Rightarrow> u32" where "KUSEG_A addr = addr AND NOT KSEG_MSK"
definition UNCACHED :: "u32 \<Rightarrow> u32" where "UNCACHED addr = KSEG1_A addr"
definition CACHED :: "u32 \<Rightarrow> u32" where "CACHED addr = KSEG0_A addr"
definition PHYS :: "u32 \<Rightarrow> u32" where "PHYS addr = KUSEG_A addr"

text \<open>The segment fields of an address: the field and the value it has in the segment.\<close>

definition segments :: "(string \<times> field \<times> u32) list" where
  "segments =
    [(''KSEG3'', fld ''KSEG3'' 29 0x7, 7),
     (''KSSEG'', fld ''KSSEG'' 29 0x7, 6),
     (''SSEG'', fld ''SSEG'' 29 0x7, 6),
     (''KSEG1'', fld ''KSEG1'' 29 0x7, 5),
     (''KSEG0'', fld ''KSEG0'' 29 0x7, 4),
     (''KUSEG'', fld ''KUSEG'' 31 0x1, 0),
     (''SUSEG'', fld ''SUSEG'' 31 0x1, 0),
     (''USEG'', fld ''USEG'' 31 0x1, 0)]"

definition in_segment :: "string \<Rightarrow> u32 \<Rightarrow> bool" where
  "in_segment n a \<longleftrightarrow> list_ex (\<lambda>(m, f, k). m = n \<and> get_field f a = k) segments"

lemma seg_masks:
  "NOT KSEG_MSK = mask 29" "A_K0BASE = push_bit 29 4" "A_K1BASE = push_bit 29 5"
  by (simp_all add: reg_defs mask_eq_exp_minus_1)

lemma phys_take: "phys a = take_bit 29 a"
  by (simp add: phys_def take_bit_eq_mask mask_eq_exp_minus_1)

lemma seg_parts:
  "KSEG0_A a = take_bit 29 a OR push_bit 29 4" "KSEG1_A a = take_bit 29 a OR push_bit 29 5" "KUSEG_A a = take_bit 29 a"
  by (simp_all add: KSEG0_A_def KSEG1_A_def KUSEG_A_def seg_masks take_bit_eq_mask)

lemma take_seg: "take_bit 29 (take_bit 29 a OR push_bit 29 k) = take_bit 29 (a :: u32)"
  by (rule bit_word_eqI) (auto simp: bit_simps)

lemma take_push_seg: "take_bit 29 (push_bit 29 (k :: u32)) = 0"
  by (rule bit_word_eqI) (auto simp: bit_simps)

lemma seg_mask: "fld n 29 7 = \<lparr>fname = n, fshift = 29, fmask = push_bit 29 (mask 3)\<rparr>"
  by (simp add: fld_def mask_eq_exp_minus_1)

lemma get_seg: "get_field (fld n 29 7) (take_bit 29 a OR push_bit 29 k) = take_bit 3 (k :: u32)"
  unfolding seg_mask get_field_def by (rule bit_word_eqI) (auto simp: bit_simps)

lemma segment_iff:
  assumes "take_bit 3 k = k"
  shows "get_field (fld n 29 7) a = k \<longleftrightarrow> take_bit 29 a OR push_bit 29 k = a"
proof
  assume k: "get_field (fld n 29 7) a = k"
  show "take_bit 29 a OR push_bit 29 k = a"
    unfolding k [symmetric] seg_mask get_field_def
    by (rule bit_word_eqI) (auto simp: bit_simps)
next
  assume "take_bit 29 a OR push_bit 29 k = a"
  then show "get_field (fld n 29 7) a = k"
    using get_seg [of n a k] assms by metis
qed

text \<open>
  The address macros move an address between the segments and keep the byte it names: whatever segment it
  comes from, the cached and the uncached form reach the same RAM and undo each other.
\<close>

theorem segment_macros:
  "in_segment ''KSEG0'' (CACHED a) \<and> in_segment ''KSEG1'' (UNCACHED a)
    \<and> CACHED (UNCACHED a) = CACHED a \<and> UNCACHED (CACHED a) = UNCACHED a
    \<and> PHYS (CACHED a) = phys a \<and> PHYS (UNCACHED a) = phys a
    \<and> ram_load8 (CACHED a) s = ram_load8 a s \<and> ram_load8 (UNCACHED a) s = ram_load8 a s
    \<and> ram_store8 (UNCACHED a) v s = ram_store8 (CACHED a) v s
    \<and> (in_segment ''KSEG0'' a \<longleftrightarrow> CACHED a = a) \<and> (in_segment ''KSEG1'' a \<longleftrightarrow> UNCACHED a = a)"
  by (simp add: in_segment_def segments_def CACHED_def UNCACHED_def PHYS_def seg_parts take_seg phys_take get_seg
    segment_iff take_push_seg or.assoc ram_load8_def ram_store8_def del: push_bit_numeral)

subsection \<open>Cache operations\<close>

text \<open>Three sets of names for the operations of the \<^verbatim>\<open>cache\<close> instruction: by unit and function, by \<^verbatim>\<open>CACHE_OP\<close>, and those of Linux.\<close>

definition K_CachePriI :: u32 where "K_CachePriI = 0"
definition K_CachePriD :: u32 where "K_CachePriD = 1"
definition K_CachePriU :: u32 where "K_CachePriU = 1"
definition K_CacheTerU :: u32 where "K_CacheTerU = 2"
definition K_CacheSecU :: u32 where "K_CacheSecU = 3"
definition K_CacheIndexInv :: u32 where "K_CacheIndexInv = 0"
definition K_CacheIndexWBInv :: u32 where "K_CacheIndexWBInv = 0"
definition K_CacheIndexLdTag :: u32 where "K_CacheIndexLdTag = 1"
definition K_CacheIndexStTag :: u32 where "K_CacheIndexStTag = 2"
definition K_CacheHitInv :: u32 where "K_CacheHitInv = 4"
definition K_CacheFill :: u32 where "K_CacheFill = 5"
definition K_CacheHitWBInv :: u32 where "K_CacheHitWBInv = 5"
definition K_CacheHitWB :: u32 where "K_CacheHitWB = 6"
definition K_CacheFetchLock :: u32 where "K_CacheFetchLock = 7"
definition S_CacheFunc :: nat where "S_CacheFunc = 2"

definition ICIndexInv :: u32 where "ICIndexInv = push_bit S_CacheFunc K_CacheIndexInv OR K_CachePriI"
definition DCIndexWBInv :: u32 where "DCIndexWBInv = push_bit S_CacheFunc K_CacheIndexWBInv OR K_CachePriD"
definition ICIndexLdTag :: u32 where "ICIndexLdTag = push_bit S_CacheFunc K_CacheIndexLdTag OR K_CachePriI"
definition DCIndexLdTag :: u32 where "DCIndexLdTag = push_bit S_CacheFunc K_CacheIndexLdTag OR K_CachePriD"
definition ICIndexStTag :: u32 where "ICIndexStTag = push_bit S_CacheFunc K_CacheIndexStTag OR K_CachePriI"
definition DCIndexStTag :: u32 where "DCIndexStTag = push_bit S_CacheFunc K_CacheIndexStTag OR K_CachePriD"
definition ICHitInv :: u32 where "ICHitInv = push_bit S_CacheFunc K_CacheHitInv OR K_CachePriI"
definition DCHitInv :: u32 where "DCHitInv = push_bit S_CacheFunc K_CacheHitInv OR K_CachePriD"
definition ICFill :: u32 where "ICFill = push_bit S_CacheFunc K_CacheFill OR K_CachePriI"
definition DCHitWBInv :: u32 where "DCHitWBInv = push_bit S_CacheFunc K_CacheHitWBInv OR K_CachePriD"
definition DCHitWB :: u32 where "DCHitWB = push_bit S_CacheFunc K_CacheHitWB OR K_CachePriD"
definition ICFetchLock :: u32 where "ICFetchLock = push_bit S_CacheFunc K_CacheFetchLock OR K_CachePriI"
definition DCFetchLock :: u32 where "DCFetchLock = push_bit S_CacheFunc K_CacheFetchLock OR K_CachePriD"
definition DCIndexInv :: u32 where "DCIndexInv = DCIndexWBInv"

definition CACHE_OP :: "u32 \<Rightarrow> u32 \<Rightarrow> u32" where
  "CACHE_OP code type0 = push_bit 2 code OR type0"

definition ICACHE_INDEX_INVALIDATE :: u32 where "ICACHE_INDEX_INVALIDATE = CACHE_OP 0x0 0"
definition ICACHE_INDEX_LOAD_TAG :: u32 where "ICACHE_INDEX_LOAD_TAG = CACHE_OP 0x1 0"
definition ICACHE_INDEX_STORE_TAG :: u32 where "ICACHE_INDEX_STORE_TAG = CACHE_OP 0x2 0"
definition DCACHE_INDEX_WRITEBACK_INVALIDATE :: u32 where "DCACHE_INDEX_WRITEBACK_INVALIDATE = CACHE_OP 0x0 1"
definition DCACHE_INDEX_LOAD_TAG :: u32 where "DCACHE_INDEX_LOAD_TAG = CACHE_OP 0x1 1"
definition DCACHE_INDEX_STORE_TAG :: u32 where "DCACHE_INDEX_STORE_TAG = CACHE_OP 0x2 1"
definition ICACHE_ADDR_HIT_INVALIDATE :: u32 where "ICACHE_ADDR_HIT_INVALIDATE = CACHE_OP 0x4 0"
definition ICACHE_ADDR_FILL :: u32 where "ICACHE_ADDR_FILL = CACHE_OP 0x5 0"
definition ICACHE_ADDR_FETCH_LOCK :: u32 where "ICACHE_ADDR_FETCH_LOCK = CACHE_OP 0x7 0"
definition DCACHE_ADDR_HIT_INVALIDATE :: u32 where "DCACHE_ADDR_HIT_INVALIDATE = CACHE_OP 0x4 1"
definition DCACHE_ADDR_HIT_WRITEBACK_INVALIDATE :: u32 where "DCACHE_ADDR_HIT_WRITEBACK_INVALIDATE = CACHE_OP 0x5 1"
definition DCACHE_ADDR_HIT_WRITEBACK :: u32 where "DCACHE_ADDR_HIT_WRITEBACK = CACHE_OP 0x6 1"
definition DCACHE_ADDR_FETCH_LOCK :: u32 where "DCACHE_ADDR_FETCH_LOCK = CACHE_OP 0x7 1"

definition Index_Invalidate_I :: u32 where "Index_Invalidate_I = 0x00"
definition Index_Writeback_Inv_D :: u32 where "Index_Writeback_Inv_D = 0x01"
definition Index_Load_Tag_I :: u32 where "Index_Load_Tag_I = 0x04"
definition Index_Load_Tag_D :: u32 where "Index_Load_Tag_D = 0x05"
definition Index_Store_Tag_I :: u32 where "Index_Store_Tag_I = 0x08"
definition Index_Store_Tag_D :: u32 where "Index_Store_Tag_D = 0x09"
definition Create_Dirty_Excl_D :: u32 where "Create_Dirty_Excl_D = 0x0d"
definition Fill :: u32 where "Fill = 0x14"
definition Hit_Writeback_I :: u32 where "Hit_Writeback_I = 0x18"
definition Hit_Writeback_D :: u32 where "Hit_Writeback_D = 0x19"
definition Index_Invalidate_SI :: u32 where "Index_Invalidate_SI = 0x02"
definition Index_Writeback_Inv_SD :: u32 where "Index_Writeback_Inv_SD = 0x03"
definition Index_Load_Tag_SI :: u32 where "Index_Load_Tag_SI = 0x06"
definition Index_Load_Tag_SD :: u32 where "Index_Load_Tag_SD = 0x07"
definition Index_Store_Tag_SI :: u32 where "Index_Store_Tag_SI = 0x0A"
definition Index_Store_Tag_SD :: u32 where "Index_Store_Tag_SD = 0x0B"
definition Create_Dirty_Excl_SD :: u32 where "Create_Dirty_Excl_SD = 0x0f"
definition Hit_Invalidate_SI :: u32 where "Hit_Invalidate_SI = 0x12"
definition Hit_Invalidate_SD :: u32 where "Hit_Invalidate_SD = 0x13"
definition Hit_Writeback_Inv_SD :: u32 where "Hit_Writeback_Inv_SD = 0x17"
definition Hit_Writeback_SD :: u32 where "Hit_Writeback_SD = 0x1b"
definition Hit_Set_Virtual_SI :: u32 where "Hit_Set_Virtual_SI = 0x1e"
definition Hit_Set_Virtual_SD :: u32 where "Hit_Set_Virtual_SD = 0x1f"
definition R5K_Page_Invalidate_S :: u32 where "R5K_Page_Invalidate_S = 0x17"
definition Page_Invalidate_T :: u32 where "Page_Invalidate_T = 0x16"
definition Index_Writeback_Inv_S :: u32 where "Index_Writeback_Inv_S = 0x03"
definition Index_Load_Tag_S :: u32 where "Index_Load_Tag_S = 0x07"
definition Index_Store_Tag_S :: u32 where "Index_Store_Tag_S = 0x0B"
definition Hit_Invalidate_S :: u32 where "Hit_Invalidate_S = 0x13"
definition Cache_Barrier :: u32 where "Cache_Barrier = 0x14"
definition Hit_Writeback_Inv_S :: u32 where "Hit_Writeback_Inv_S = 0x17"
definition Index_Load_Data_I :: u32 where "Index_Load_Data_I = 0x18"
definition Index_Load_Data_D :: u32 where "Index_Load_Data_D = 0x19"
definition Index_Load_Data_S :: u32 where "Index_Load_Data_S = 0x1b"
definition Index_Store_Data_I :: u32 where "Index_Store_Data_I = 0x1c"
definition Index_Store_Data_D :: u32 where "Index_Store_Data_D = 0x1d"
definition Index_Store_Data_S :: u32 where "Index_Store_Data_S = 0x1f"

lemmas cache_op_defs = K_CachePriI_def K_CachePriD_def K_CachePriU_def K_CacheTerU_def K_CacheSecU_def K_CacheIndexInv_def K_CacheIndexWBInv_def K_CacheIndexLdTag_def K_CacheIndexStTag_def K_CacheHitInv_def K_CacheFill_def K_CacheHitWBInv_def K_CacheHitWB_def K_CacheFetchLock_def ICIndexInv_def DCIndexWBInv_def ICIndexLdTag_def DCIndexLdTag_def ICIndexStTag_def DCIndexStTag_def ICHitInv_def DCHitInv_def ICFill_def DCHitWBInv_def DCHitWB_def ICFetchLock_def DCFetchLock_def DCIndexInv_def ICACHE_INDEX_INVALIDATE_def ICACHE_INDEX_LOAD_TAG_def ICACHE_INDEX_STORE_TAG_def DCACHE_INDEX_WRITEBACK_INVALIDATE_def DCACHE_INDEX_LOAD_TAG_def DCACHE_INDEX_STORE_TAG_def ICACHE_ADDR_HIT_INVALIDATE_def ICACHE_ADDR_FILL_def ICACHE_ADDR_FETCH_LOCK_def DCACHE_ADDR_HIT_INVALIDATE_def DCACHE_ADDR_HIT_WRITEBACK_INVALIDATE_def DCACHE_ADDR_HIT_WRITEBACK_def DCACHE_ADDR_FETCH_LOCK_def Index_Invalidate_I_def Index_Writeback_Inv_D_def Index_Load_Tag_I_def Index_Load_Tag_D_def Index_Store_Tag_I_def Index_Store_Tag_D_def Create_Dirty_Excl_D_def Fill_def Hit_Writeback_I_def Hit_Writeback_D_def Index_Invalidate_SI_def Index_Writeback_Inv_SD_def Index_Load_Tag_SI_def Index_Load_Tag_SD_def Index_Store_Tag_SI_def Index_Store_Tag_SD_def Create_Dirty_Excl_SD_def Hit_Invalidate_SI_def Hit_Invalidate_SD_def Hit_Writeback_Inv_SD_def Hit_Writeback_SD_def Hit_Set_Virtual_SI_def Hit_Set_Virtual_SD_def R5K_Page_Invalidate_S_def Page_Invalidate_T_def Index_Writeback_Inv_S_def Index_Load_Tag_S_def Index_Store_Tag_S_def Hit_Invalidate_S_def Cache_Barrier_def Hit_Writeback_Inv_S_def Index_Load_Data_I_def Index_Load_Data_D_def Index_Load_Data_S_def Index_Store_Data_I_def Index_Store_Data_D_def Index_Store_Data_S_def

text \<open>The names agree with each other, and with the operations that \<^verbatim>\<open>mips32_cache.c\<close> issues.\<close>

lemma cache_op_names:
  "[ICIndexInv, DCIndexWBInv, ICIndexLdTag, DCIndexLdTag, ICIndexStTag, DCIndexStTag, ICHitInv, DCHitInv, ICFill, DCHitWBInv, DCHitWB]
    = [ICACHE_INDEX_INVALIDATE, DCACHE_INDEX_WRITEBACK_INVALIDATE, ICACHE_INDEX_LOAD_TAG, DCACHE_INDEX_LOAD_TAG,
       ICACHE_INDEX_STORE_TAG, DCACHE_INDEX_STORE_TAG, ICACHE_ADDR_HIT_INVALIDATE, DCACHE_ADDR_HIT_INVALIDATE,
       ICACHE_ADDR_FILL, DCACHE_ADDR_HIT_WRITEBACK_INVALIDATE, DCACHE_ADDR_HIT_WRITEBACK]"
  "[ICIndexInv, DCIndexWBInv, ICIndexLdTag, DCIndexLdTag, ICIndexStTag, DCIndexStTag, ICHitInv, DCHitInv, ICFill, DCHitWBInv, DCHitWB]
    = [Index_Invalidate_I, Index_Writeback_Inv_D, Index_Load_Tag_I, Index_Load_Tag_D, Index_Store_Tag_I, Index_Store_Tag_D,
       Hit_Invalidate_I, Hit_Invalidate_D, Fill, Hit_Writeback_Inv_D, Hit_Writeback_D]"
  by (simp_all add: cache_op_defs reg_defs S_CacheFunc_def CACHE_OP_def)

subsection \<open>Cache geometry\<close>

definition CACHE_CALC_SPW :: "u32 \<Rightarrow> u32" where
  "CACHE_CALC_SPW s = push_bit (unat s) 64"

definition CACHE_CALC_LS :: "u32 \<Rightarrow> u32" where
  "CACHE_CALC_LS l = (if l \<noteq> 0 then push_bit (unat l) 2 else 0)"

definition CACHE_CALC_BPW :: "u32 \<Rightarrow> u32 \<Rightarrow> u32" where
  "CACHE_CALC_BPW l s = CACHE_CALC_LS l * CACHE_CALC_SPW s"

definition CACHE_CALC_ASSOC :: "u32 \<Rightarrow> u32" where
  "CACHE_CALC_ASSOC a = a + 1"

definition Config1CacheSets :: "u32 list" where
  "Config1CacheSets = [64, 128, 256, 512, 1024, 2048, 4096, 8192]"

definition Config1CacheLineSize :: "u32 list" where
  "Config1CacheLineSize = [0, 4, 8, 16, 32, 64, 128, 256]"

lemma less_8_cases: "(x :: u32) < 8 \<Longrightarrow> x \<in> {0, 1, 2, 3, 4, 5, 6, 7}"
proof -
  assume "x < 8"
  then have "unat x < 8"
    by (simp add: word_less_nat_alt)
  then have "unat x = 0 \<or> unat x = 1 \<or> unat x = 2 \<or> unat x = 3 \<or> unat x = 4 \<or> unat x = 5 \<or> unat x = 6 \<or> unat x = 7"
    by arith
  then show ?thesis
    by (auto simp: word_unat_eq_iff)
qed

text \<open>The calculating macros and the tables of the header decode the three-bit fields of \<^verbatim>\<open>Config1\<close> alike.\<close>

lemma cache_tables:
  assumes "x < 8"
  shows "CACHE_CALC_SPW x = Config1CacheSets ! unat x" "CACHE_CALC_LS x = Config1CacheLineSize ! unat x"
  using less_8_cases [OF assms]
  by (auto simp: CACHE_CALC_SPW_def CACHE_CALC_LS_def Config1CacheSets_def Config1CacheLineSize_def)

subsection \<open>Names of the registers\<close>

text \<open>The names of the general registers with their numbers, for C code the numbers \<^verbatim>\<open>SYS_CPUREG_x\<close>, and the masks \<^verbatim>\<open>M_x\<close>.\<close>

definition gpr_names :: "(string \<times> nat) list" where
  "gpr_names =
    [(''zero'', 0), (''AT'', 1), (''v0'', 2), (''v1'', 3),
     (''a0'', 4), (''a1'', 5), (''a2'', 6), (''a3'', 7),
     (''t0'', 8), (''t1'', 9), (''t2'', 10), (''t3'', 11),
     (''t4'', 12), (''t5'', 13), (''t6'', 14), (''t7'', 15),
     (''s0'', 16), (''s1'', 17), (''s2'', 18), (''s3'', 19),
     (''s4'', 20), (''s5'', 21), (''s6'', 22), (''s7'', 23),
     (''t8'', 24), (''t9'', 25), (''k0'', 26), (''k1'', 27),
     (''gp'', 28), (''sp'', 29), (''s8'', 30), (''fp'', 30),
     (''ra'', 31)]"

definition gpr_indices :: "(string \<times> nat) list" where
  "gpr_indices =
    [(''r0'', 0), (''r1'', 1), (''r2'', 2), (''r3'', 3),
     (''r4'', 4), (''r5'', 5), (''r6'', 6), (''r7'', 7),
     (''r8'', 8), (''r9'', 9), (''r10'', 10), (''r11'', 11),
     (''r12'', 12), (''r13'', 13), (''r14'', 14), (''r15'', 15),
     (''r16'', 16), (''r17'', 17), (''r18'', 18), (''r19'', 19),
     (''r20'', 20), (''r21'', 21), (''r22'', 22), (''r23'', 23),
     (''r24'', 24), (''r25'', 25), (''r26'', 26), (''r27'', 27),
     (''r28'', 28), (''r29'', 29), (''r30'', 30), (''r31'', 31),
     (''hi'', 32), (''lo'', 33)]"

definition sys_cpureg :: "(string \<times> nat) list" where
  "sys_cpureg =
    [(''ZERO'', 0), (''AT'', 1), (''V0'', 2), (''V1'', 3),
     (''A0'', 4), (''A1'', 5), (''A2'', 6), (''A3'', 7),
     (''T0'', 8), (''T1'', 9), (''T2'', 10), (''T3'', 11),
     (''T4'', 12), (''T5'', 13), (''T6'', 14), (''T7'', 15),
     (''S0'', 16), (''S1'', 17), (''S2'', 18), (''S3'', 19),
     (''S4'', 20), (''S5'', 21), (''S6'', 22), (''S7'', 23),
     (''T8'', 24), (''T9'', 25), (''K0'', 26), (''K1'', 27),
     (''GP'', 28), (''SP'', 29), (''S8'', 30), (''FP'', 30),
     (''RA'', 31)]"

definition gpr_masks :: "(string \<times> u32) list" where
  "gpr_masks =
    [(''AT'', push_bit 1 1), (''v0'', push_bit 2 1), (''v1'', push_bit 3 1), (''a0'', push_bit 4 1),
     (''a1'', push_bit 5 1), (''a2'', push_bit 6 1), (''a3'', push_bit 7 1), (''t0'', push_bit 8 1),
     (''t1'', push_bit 9 1), (''t2'', push_bit 10 1), (''t3'', push_bit 11 1), (''t4'', push_bit 12 1),
     (''t5'', push_bit 13 1), (''t6'', push_bit 14 1), (''t7'', push_bit 15 1), (''s0'', push_bit 16 1),
     (''s1'', push_bit 17 1), (''s2'', push_bit 18 1), (''s3'', push_bit 19 1), (''s4'', push_bit 20 1),
     (''s5'', push_bit 21 1), (''s6'', push_bit 22 1), (''s7'', push_bit 23 1), (''t8'', push_bit 24 1),
     (''t9'', push_bit 25 1), (''k0'', push_bit 26 1), (''k1'', push_bit 27 1), (''gp'', push_bit 28 1),
     (''sp'', push_bit 29 1), (''fp'', push_bit 30 1), (''ra'', push_bit 31 1)]"

text \<open>Floating-point registers, and for the register of the pair the even or odd one.\<close>

definition fpr_names :: "(string \<times> nat) list" where
  "fpr_names =
    [(''fp0'', 0), (''fp1'', 1), (''fp2'', 2), (''fp3'', 3),
     (''fp4'', 4), (''fp5'', 5), (''fp6'', 6), (''fp7'', 7),
     (''fp8'', 8), (''fp9'', 9), (''fp10'', 10), (''fp11'', 11),
     (''fp12'', 12), (''fp13'', 13), (''fp14'', 14), (''fp15'', 15),
     (''fp16'', 16), (''fp17'', 17), (''fp18'', 18), (''fp19'', 19),
     (''fp20'', 20), (''fp21'', 21), (''fp22'', 22), (''fp23'', 23),
     (''fp24'', 24), (''fp25'', 25), (''fp26'', 26), (''fp27'', 27),
     (''fp28'', 28), (''fp29'', 29), (''fp30'', 30), (''fp31'', 31)]"

definition fpr_even :: "(string \<times> nat) list" where
  "fpr_even =
    [(''fp1_even'', 0), (''fp3_even'', 2), (''fp5_even'', 4), (''fp7_even'', 6),
     (''fp9_even'', 8), (''fp11_even'', 10), (''fp13_even'', 12), (''fp15_even'', 14),
     (''fp17_even'', 16), (''fp19_even'', 18), (''fp21_even'', 20), (''fp23_even'', 22),
     (''fp25_even'', 24), (''fp27_even'', 26), (''fp29_even'', 28), (''fp31_even'', 30)]"

definition fpr_odd :: "(string \<times> nat) list" where
  "fpr_odd =
    [(''fp0_odd'', 1), (''fp2_odd'', 3), (''fp4_odd'', 5), (''fp6_odd'', 7),
     (''fp8_odd'', 9), (''fp10_odd'', 11), (''fp12_odd'', 13), (''fp14_odd'', 15),
     (''fp16_odd'', 17), (''fp18_odd'', 19), (''fp20_odd'', 21), (''fp22_odd'', 23),
     (''fp24_odd'', 25), (''fp26_odd'', 27), (''fp28_odd'', 29), (''fp30_odd'', 31)]"

definition fpr_indices :: "(string \<times> nat) list" where
  "fpr_indices =
    [(''fp0'', 0), (''fp1'', 1), (''fp2'', 2), (''fp3'', 3),
     (''fp4'', 4), (''fp5'', 5), (''fp6'', 6), (''fp7'', 7),
     (''fp8'', 8), (''fp9'', 9), (''fp10'', 10), (''fp11'', 11),
     (''fp12'', 12), (''fp13'', 13), (''fp14'', 14), (''fp15'', 15),
     (''fp16'', 16), (''fp17'', 17), (''fp18'', 18), (''fp19'', 19),
     (''fp20'', 20), (''fp21'', 21), (''fp22'', 22), (''fp23'', 23),
     (''fp24'', 24), (''fp25'', 25), (''fp26'', 26), (''fp27'', 27),
     (''fp28'', 28), (''fp29'', 29), (''fp30'', 30), (''fp31'', 31)]"

text \<open>
  The tables agree: the numbers of the C code are those of the assembler names, a mask has the bit of its
  register, and the even and odd names are the halves of the pair.
\<close>

lemma gpr_tables_agree:
  "map snd sys_cpureg = map snd gpr_names"
  "map snd gpr_indices = [0..<34]"
  "list_all (\<lambda>(n, m). \<exists>i. map_of gpr_names n = Some i \<and> m = push_bit i 1) gpr_masks"
  by (simp_all add: sys_cpureg_def gpr_names_def gpr_indices_def gpr_masks_def upt_rec)

lemma fpr_tables_agree:
  "fpr_indices = fpr_names"
  "list_all (\<lambda>(n, i). \<exists>j. map_of fpr_names (take (length n - 5) n) = Some j \<and> odd j \<and> i = j - 1) fpr_even"
  "list_all (\<lambda>(n, i). \<exists>j. map_of fpr_names (take (length n - 4) n) = Some j \<and> even j \<and> i = j + 1) fpr_odd"
  by (simp_all add: fpr_indices_def fpr_names_def fpr_even_def fpr_odd_def)

end
