(* ===== verification/Ddr_Random.thy ===== *)
theory Ddr_Random
  imports Ddr_Verify
begin

unbundle bit_operations_syntax

section \<open>The memory test of the build with DATA\_VERIFY\_JACKY\<close>

text \<open>
  \<open>ram_random_verify\<close> and \<open>ram_verify_complex\<close> of \<^verbatim>\<open>boot/soc_landshark/dram_ram.c\<close>, which replace the bit flip test
  when \<^verbatim>\<open>DATA_VERIFY_JACKY\<close> is set. The random test writes to each tested word a value made of its address, to all
  of them before it reads the first. It is the one test of the file that could tell addresses apart; the
  theorems say which ones it does. \<^verbatim>\<open>ALL_ACCESS_TIMING_VERIFY\<close> is 0.
\<close>

definition random_value :: "u32 \<Rightarrow> u32" where
  "random_value p32 = (p32 OR 0x69D278E1) AND 0x5AC3A35C"

partial_function (option) random_write :: "'d machine \<Rightarrow> u32 \<Rightarrow> u32 \<Rightarrow> u32 \<Rightarrow> 'd sys \<Rightarrow> 'd sys option" where
  "random_write M p32 end0 granularity s =
     (let s = H_WR32 M p32 (random_value p32) s;
          p32 = p32 + 4 * (granularity div 4)
      in if p32 < end0 then random_write M p32 end0 granularity s else Some s)"

partial_function (option) random_check ::
    "config \<Rightarrow> 'd machine \<Rightarrow> u32 \<Rightarrow> u32 \<Rightarrow> u32 \<Rightarrow> u32 \<Rightarrow> 'd sys \<Rightarrow> (u32 \<times> 'd sys) option" where
  "random_check cf M start p32 end0 granularity s =
     (let (v, s) = H_RD32 M p32 s
      in if v \<noteq> random_value p32 then do {
           s \<leftarrow> dbg cf 0 (\<lambda>s. do { s \<leftarrow> c_put_char M (of_char (CHR '' '')) s; debugDumpStaticReg M p32 0 s }) s;
           Some (1, s)
         } else do {
           s \<leftarrow> verify_progress cf M start p32 s;
           let p32 = p32 + 4 * (granularity div 4);
           if p32 < end0 then random_check cf M start p32 end0 granularity s else Some (0, s)
         })"

definition ram_random_verify :: "config \<Rightarrow> 'd machine \<Rightarrow> u32 \<Rightarrow> u32 \<Rightarrow> u32 \<Rightarrow> 'd sys \<Rightarrow> (u32 \<times> 'd sys) option" where
  "ram_random_verify cf M start granularity counter s = do {
     let end0 = start + granularity * counter;
     s \<leftarrow> random_write M start end0 granularity s;
     random_check cf M start start end0 granularity s
   }"

definition pattern_data :: "u32 list" where
  "pattern_data =
    [0x0000ffff, NOT 0x0000ffff, 0x00ff00ff, NOT 0x00ff00ff, 0x0f0f0f0f, NOT 0x0f0f0f0f, 0x33333333, NOT 0x33333333,
     0x55555555, NOT 0x55555555, 0x76543210, NOT 0x76543210]"

definition pattern_str :: "string list" where
  "pattern_str =
    [''0000ffff'', ''ffff0000'', ''00ff00ff'', ''ff00ff00'', ''0f0f0f0f'', ''f0f0f0f0'', ''33333333'', ''cccccccc'',
     ''55555555'', ''aaaaaaaa'', ''76543210'', ''89abcdef'']"

definition complex_title :: "config \<Rightarrow> 'd machine \<Rightarrow> string \<Rightarrow> char \<Rightarrow> 'd sys \<Rightarrow> 'd sys option" where
  "complex_title cf M name c s =
     (if 1 < DEBUG_LEVEL cf then do {
        s \<leftarrow> c_put_str M (nl ''  write-read verification with '') s;
        s \<leftarrow> c_put_str M (str name) s;
        c_put_str M (str '': '') s
      } else if 0 < DEBUG_LEVEL cf then c_put_char M (of_char c) s
      else Some s)"

text \<open>The loop over the patterns, with those that are left.\<close>

fun complex_loop :: "config \<Rightarrow> 'd machine \<Rightarrow> u32 \<Rightarrow> u32 \<Rightarrow> u32 \<Rightarrow> (u32 \<times> string) list \<Rightarrow> 'd sys \<Rightarrow> (bool \<times> 'd sys) option" where
  "complex_loop cf M start granularity counter [] s = Some (True, s)"
| "complex_loop cf M start granularity counter ((p, name) # ps) s = do {
     s \<leftarrow> complex_title cf M name (CHR ''.'') s;
     (r, s) \<leftarrow> ram_pattern_verify cf M start granularity counter p s;
     if r \<noteq> 0 then Some (False, s) else complex_loop cf M start granularity counter ps s
   }"

definition ram_verify_complex :: "config \<Rightarrow> 'd machine \<Rightarrow> u32 \<Rightarrow> u32 \<Rightarrow> 'd sys \<Rightarrow> (u32 \<times> 'd sys) option" where
  "ram_verify_complex cf M start size0 s = do {
     let granularity = 4096;
     let counter = size0 div granularity;
     (ok, s) \<leftarrow> complex_loop cf M start granularity counter (zip pattern_data pattern_str) s;
     if \<not> ok then Some (1, s)
     else do {
       s \<leftarrow> complex_title cf M ([CHR 0x27] @ ''random'' @ [CHR 0x27]) (CHR ''~'') s;
       (r, s) \<leftarrow> ram_random_verify cf M start granularity counter s;
       if r \<noteq> 0 then Some (2, s) else Some (0, s)
     }
   }"

subsection \<open>What the random test returns\<close>

text \<open>The cells after the write loop: of the addresses that share a cell the last one wins.\<close>

definition written :: "(u32 \<Rightarrow> u32) \<Rightarrow> u32 list \<Rightarrow> (u32 \<Rightarrow> u32) \<Rightarrow> u32 \<Rightarrow> u32" where
  "written cell as R = fold (\<lambda>a R. R(cell a := random_value a)) as R"

text \<open>
  The test passes when each tested word reads back its own value although its cell holds the value of the
  last tested address that selects it.
\<close>

definition random_ok :: "(u32 \<Rightarrow> u32) \<Rightarrow> (u32 \<Rightarrow> u32 \<Rightarrow> u32) \<Rightarrow> u32 list \<Rightarrow> bool" where
  "random_ok cell line as \<longleftrightarrow> (\<forall>a \<in> set as. line a (random_value (last (filter (\<lambda>b. cell b = cell a) as))) = random_value a)"

lemma written_last:
  "written cell as R c = (if \<exists>a \<in> set as. cell a = c then random_value (last (filter (\<lambda>b. cell b = c) as)) else R c)"
proof (induction as arbitrary: R)
  case (Cons a as)
  have "written cell (a # as) R c = written cell as (R(cell a := random_value a)) c"
    by (simp add: written_def)
  moreover have "filter (\<lambda>b. cell b = c) as = [] \<longleftrightarrow> \<not> (\<exists>b \<in> set as. cell b = c)"
    by (auto simp: filter_empty_conv)
  ultimately show ?case
    unfolding Cons by auto
qed (simp add: written_def)

lemma random_ok_written:
  "(\<forall>a \<in> set as. line a (written cell as R (cell a)) = random_value a) \<longleftrightarrow> random_ok cell line as"
  unfolding random_ok_def written_last by (rule ball_cong) auto

definition complex_spec :: "(u32 \<Rightarrow> u32) \<Rightarrow> (u32 \<Rightarrow> u32 \<Rightarrow> u32) \<Rightarrow> u32 list \<Rightarrow> u32" where
  "complex_spec cell line as =
     (if \<not> (\<forall>p \<in> set pattern_data. \<forall>a \<in> set as. line a p = p) then 1 else if \<not> random_ok cell line as then 2 else 0)"

context dram
begin

lemma random_write_words:
  assumes range: "test_range start g n" and k: "k < max 1 n" and ready: "ready (dev s)"
  shows "\<exists>t. random_write M (start + of_nat (g * k)) (start + of_nat g * of_nat n) (of_nat g) s = Some t
    \<and> frame s t \<and> ready (dev t) \<and> raw (dev t) = written cell (map (\<lambda>j. start + of_nat (g * j)) [k..<max 1 n]) (raw (dev s))"
  using k ready
proof (induction "max 1 n - k" arbitrary: k s)
  case (Suc m)
  let ?a = "start + of_nat (g * k)" and ?e = "start + of_nat g * of_nat n"
  define s1 where "s1 = H_WR32 M ?a (random_value ?a) s"
  have s1: "ready (dev s1)" "raw (dev s1) = (raw (dev s))(cell ?a := random_value ?a)" "frame s s1"
    using store_ram [OF word_dram [OF range Suc.prems(1)]] Suc.prems(2) by (simp_all add: s1_def H_WR32_def frame_def)
  have step: "random_write M ?a ?e (of_nat g) s =
    (if Suc k < max 1 n then random_write M (start + of_nat (g * Suc k)) ?e (of_nat g) s1 else Some s1)"
    by (subst random_write.simps)
      (simp only: Let_def word_next [OF range] word_end [OF range Suc.prems(1)] s1_def)
  have u: "[k..<max 1 n] = k # [Suc k..<max 1 n]"
    using Suc.prems(1) by (rule upt_conv_Cons)
  show ?case
  proof (cases "Suc k < max 1 n")
    case True
    then obtain t where "random_write M (start + of_nat (g * Suc k)) ?e (of_nat g) s1 = Some t" "frame s1 t" "ready (dev t)"
      "raw (dev t) = written cell (map (\<lambda>j. start + of_nat (g * j)) [Suc k..<max 1 n]) (raw (dev s1))"
      using Suc.hyps(1) [of "Suc k" s1] Suc.hyps(2) s1(1) by fastforce
    then show ?thesis
      using True s1(2,3) unfolding step u by (auto simp: written_def simp del: of_nat_mult intro: frame_trans)
  next
    case False
    then show ?thesis
      using s1 unfolding step u by (simp add: written_def)
  qed
qed linarith

lemma random_check_words:
  assumes range: "test_range start g n" and k: "k < max 1 n" and s: "holds ready raw s0 R s"
  shows "\<exists>t. random_check cf M b (start + of_nat (g * k)) (start + of_nat g * of_nat n) (of_nat g) s =
      Some (if \<forall>a \<in> set (map (\<lambda>j. start + of_nat (g * j)) [k..<max 1 n]). line a (R (cell a)) = random_value a then 0 else 1, t)
    \<and> holds ready raw s0 R t"
  using k s
proof (induction "max 1 n - k" arbitrary: k s)
  case (Suc m)
  let ?a = "\<lambda>j. start + of_nat (g * j)" and ?e = "start + of_nat g * of_nat n"
  let ?ok = "\<lambda>a. line a (R (cell a)) = random_value a"
  obtain w s1 where l: "H_RD32 M (?a k) s = (w, s1)" by (metis prod.exhaust)
  have s1: "holds ready raw s0 R s1" by (rule port.load [OF Suc.prems(2) l])
  have "w = line (?a k) (raw (dev s) (cell (?a k)))"
    using load_ram [OF word_dram [OF range Suc.prems(1)]] l by (auto simp: H_RD32_def split: prod.splits)
  then have w: "w = random_value (?a k) \<longleftrightarrow> ?ok (?a k)" using Suc.prems(2) by (simp add: holds_def)
  let ?dump = "dbg cf 0 (\<lambda>s. do { s \<leftarrow> c_put_char M (of_char (CHR '' '')) s; debugDumpStaticReg M (?a k) 0 s })"
  have steady: "steady (holds ready raw s0 R) ?dump"
    unfolding dbg_def [abs_def] by (intro steady_intros port.put_steady port.dump_static)
  obtain s2 where s2: "?dump s1 = Some s2" "holds ready raw s0 R s2"
    using steadyE [OF steady s1] .
  obtain s3 where s3: "verify_progress cf M b (?a k) s1 = Some s3" "holds ready raw s0 R s3"
    using steadyE [OF verify_progress_steady s1] .
  have step: "random_check cf M b (?a k) ?e (of_nat g) s =
    (if \<not> ?ok (?a k) then Some (1, s2)
     else if Suc k < max 1 n then random_check cf M b (?a (Suc k)) ?e (of_nat g) s3 else Some (0, s3))"
    unfolding random_check.simps [of cf M b "?a k"] l w [symmetric] prod.case word_next [OF range] Let_def
      word_end [OF range Suc.prems(1)]
    using s2(1) s3(1) by simp
  have u: "[k..<max 1 n] = k # [Suc k..<max 1 n]"
    using Suc.prems(1) by (rule upt_conv_Cons)
  show ?case
  proof (cases "?ok (?a k) \<and> Suc k < max 1 n")
    case True
    then show ?thesis
      using Suc.hyps(1) [of "Suc k" s3] Suc.hyps(2) s3(2) unfolding step u by (simp del: of_nat_mult mult_Suc_right)
  next
    case False
    then show ?thesis
      using s2(2) s3(2) unfolding step u by (auto simp del: of_nat_mult)
  qed
qed linarith

lemma random_verify_words:
  assumes range: "test_range start g n" and ready: "ready (dev s)"
  obtains t where "ram_random_verify cf M start (of_nat g) (of_nat n) s =
      Some (if random_ok cell line (tested start g n) then 0 else 1, t)" "frame s t" "ready (dev t)"
proof -
  let ?e = "start + of_nat g * of_nat n"
  have z: "0 < max 1 n" "start + of_nat (g * 0) = start" by simp_all
  obtain u where u: "random_write M start ?e (of_nat g) s = Some u" "frame s u" "ready (dev u)"
    "raw (dev u) = written cell (tested start g n) (raw (dev s))"
    using random_write_words [OF range z(1) ready] unfolding z(2) tested_def by blast
  have h: "holds ready raw u (raw (dev u)) u" using u(3) by (simp add: holds_def)
  obtain t where t: "random_check cf M start start ?e (of_nat g) u =
      Some (if random_ok cell line (tested start g n) then 0 else 1, t)" "holds ready raw u (raw (dev u)) t"
    using random_check_words [OF range z(1) h, of cf start] unfolding z(2) tested_def [symmetric] u(4) random_ok_written by blast
  then show ?thesis
    using that u(1,2) by (auto simp: ram_random_verify_def holds_def intro: frame_trans)
qed

lemma complex_title_steady: "steady (holds ready raw s0 R) (complex_title cf M name c)"
  unfolding complex_title_def [abs_def] by (intro steady_intros port.put_steady)

lemma complex_loop_refines:
  assumes range: "test_range start g n"
  shows "ready (dev s) \<Longrightarrow> \<exists>t. complex_loop cf M start (of_nat g) (of_nat n) ps s =
    Some (\<forall>p \<in> fst ` set ps. \<forall>a \<in> set (tested start g n). line a p = p, t) \<and> frame s t \<and> ready (dev t)"
proof (induction ps arbitrary: s)
  case (Cons q ps)
  obtain p name where q: "q = (p, name)" by (cases q)
  let ?good = "\<forall>a \<in> set (tested start g n). line a p = p"
  obtain a where a: "complex_title cf M name (CHR ''.'') s = Some a" "frame s a" "ready (dev a)"
    using put_frame [OF complex_title_steady Cons.prems] .
  obtain b where b: "ram_pattern_verify cf M start (of_nat g) (of_nat n) p a = Some (if ?good then 0 else 1, b)"
    "frame a b" "ready (dev b)"
    using pattern_verify_words [OF range a(3)] .
  obtain t where t: "complex_loop cf M start (of_nat g) (of_nat n) ps b =
    Some (\<forall>p \<in> fst ` set ps. \<forall>a \<in> set (tested start g n). line a p = p, t)" "frame b t" "ready (dev t)"
    using Cons.IH b(3) by blast
  have f: "frame s b" "frame s t" using a(2) b(2) t(2) by (blast intro: frame_trans)+
  show ?case
  proof (cases ?good)
    case True
    with a(1) b(1) t f show ?thesis by (simp add: q)
  next
    case False
    then have "complex_loop cf M start (of_nat g) (of_nat n) (q # ps) s = Some (False, b)"
      using a(1) b(1) unfolding if_not_P [OF False] by (simp add: q)
    with False f(1) b(3) show ?thesis by (auto simp: q)
  qed
qed simp

lemma complex_refines:
  assumes range: "test_range start 4096 (unat size0 div 4096)" and ready: "ready (dev s)"
  shows "\<exists>t. ram_verify_complex cf M start size0 s =
      Some (complex_spec cell line (tested start 4096 (unat size0 div 4096)), t) \<and> frame s t \<and> ready (dev t)"
proof -
  let ?as = "tested start 4096 (unat size0 div 4096)"
  have n: "(size0 div 4096 :: u32) = of_nat (unat size0 div 4096)" by (simp add: word_arith_nat_div)
  have p: "fst ` set (zip pattern_data pattern_str) = set pattern_data"
    by (simp add: pattern_data_def pattern_str_def)
  let ?good = "\<forall>p \<in> set pattern_data. \<forall>a \<in> set ?as. line a p = p"
  obtain a where a: "complex_loop cf M start 4096 (size0 div 4096) (zip pattern_data pattern_str) s = Some (?good, a)"
    "frame s a" "ready (dev a)"
    using complex_loop_refines [OF range ready, of cf "zip pattern_data pattern_str"] unfolding p n by auto
  obtain b where b: "complex_title cf M ([CHR 0x27] @ ''random'' @ [CHR 0x27]) (CHR ''~'') a = Some b" "frame a b" "ready (dev b)"
    using put_frame [OF complex_title_steady a(3)] .
  obtain c where c: "ram_random_verify cf M start 4096 (size0 div 4096) b = Some (if random_ok cell line ?as then 0 else 1, c)"
    "frame b c" "ready (dev c)"
    using random_verify_words [OF range b(3), of cf] unfolding n by auto
  have f: "frame s c" using a(2) b(2) c(2) by (blast intro: frame_trans)
  have "ram_verify_complex cf M start size0 s =
    (if \<not> ?good then Some (1, a) else if random_ok cell line ?as then Some (0, c) else Some (2, c))"
    using a(1) b(1) c(1) by (simp add: ram_verify_complex_def Let_def)
  then show ?thesis
    using a(2,3) c(3) f unfolding complex_spec_def by (cases ?good; cases "random_ok cell line ?as") simp_all
qed

end

subsection \<open>Properties\<close>

text \<open>
  On every board, with every debug level, the test returns the result of its specification: 1 if some tested
  word does not return one of the twelve patterns, 2 if they all do but some word does not return its own
  value after all words were written, else 0.
\<close>

theorem ram_verify_complex_refines:
  assumes "dram M outs ready raw cell line" "ready (dev s)" "test_range start 4096 (unat size0 div 4096)"
  shows "\<exists>t. ram_verify_complex cf M start size0 s =
      Some (complex_spec cell line (tested start 4096 (unat size0 div 4096)), t) \<and> frame s t \<and> ready (dev t)"
  by (rule dram.complex_refines [OF assms(1,3,2)])

text \<open>The value of a word depends on these bits of its address only.\<close>

lemma or_and_split:
  "(x OR c) AND d = (x AND (d AND NOT c)) OR (d AND c)" "((x OR c) AND d) AND (d AND NOT c) = x AND (d AND NOT c)" for x c d :: u32
  by (rule bit_word_eqI; auto simp: bit_simps)+

lemma random_value_eq_iff: "random_value a = random_value b \<longleftrightarrow> a AND 0x1201831C = b AND 0x1201831C"
proof -
  have "random_value x = (x AND 0x1201831C) OR 0x48C22040" "random_value x AND 0x1201831C = x AND 0x1201831C" for x
    using or_and_split [of x "0x69D278E1" "0x5AC3A35C"] by (simp_all add: random_value_def)
  then show ?thesis
    by metis
qed

lemma random_ok_iff:
  "random_ok cell (\<lambda>_ v. v) as \<longleftrightarrow> (\<forall>a \<in> set as. \<forall>b \<in> set as. cell a = cell b \<longrightarrow> random_value a = random_value b)"
proof -
  have l: "last (filter (\<lambda>b. cell b = cell a) as) \<in> {b \<in> set as. cell b = cell a}" if "a \<in> set as" for a
  proof -
    have "filter (\<lambda>b. cell b = cell a) as \<noteq> []"
      using that by (auto simp: filter_empty_conv)
    from last_in_set [OF this] show ?thesis
      by simp
  qed
  show ?thesis
  proof
    assume ok: "random_ok cell (\<lambda>_ v. v) as"
    have "random_value a = random_value b" if "a \<in> set as" "b \<in> set as" "cell a = cell b" for a b
    proof -
      have "random_value (last (filter (\<lambda>c. cell c = cell a) as)) = random_value a"
        "random_value (last (filter (\<lambda>c. cell c = cell b) as)) = random_value b"
        using ok that(1,2) by (auto simp: random_ok_def)
      with that(3) show ?thesis
        by simp
    qed
    then show "\<forall>a \<in> set as. \<forall>b \<in> set as. cell a = cell b \<longrightarrow> random_value a = random_value b"
      by blast
  next
    assume eq: "\<forall>a \<in> set as. \<forall>b \<in> set as. cell a = cell b \<longrightarrow> random_value a = random_value b"
    have "random_value (last (filter (\<lambda>b. cell b = cell a) as)) = random_value a" if "a \<in> set as" for a
      using l [OF that] eq [rule_format, OF _ that, of "last (filter (\<lambda>b. cell b = cell a) as)"] by simp
    then show "random_ok cell (\<lambda>_ v. v) as"
      by (simp add: random_ok_def)
  qed
qed

text \<open>
  C27. Which address faults it finds: with sound data lines the result is 0 exactly when any two tested addresses that
  select the same cell agree in the address bits \<^verbatim>\<open>0x1201831C\<close>. Of the bits above the granularity these are A15, A16,
  A25 and A28: no other address line is verified.
\<close>

theorem ram_verify_complex_addresses:
  assumes "dram M outs ready raw cell (\<lambda>_ v. v)" "ready (dev s)" "test_range start 4096 (unat size0 div 4096)"
  shows "\<exists>r t. ram_verify_complex cf M start size0 s = Some (r, t)
    \<and> (r = 0 \<longleftrightarrow> (\<forall>a \<in> set (tested start 4096 (unat size0 div 4096)). \<forall>b \<in> set (tested start 4096 (unat size0 div 4096)).
         cell a = cell b \<longrightarrow> a AND 0x1201831C = b AND 0x1201831C))"
proof -
  let ?as = "tested start 4096 (unat size0 div 4096)"
  obtain t where "ram_verify_complex cf M start size0 s = Some (complex_spec cell (\<lambda>_ v. v) ?as, t)"
    using dram.complex_refines [OF assms(1,3,2)] by blast
  moreover have "complex_spec cell (\<lambda>_ v. v) ?as = 0 \<longleftrightarrow> random_ok cell (\<lambda>_ v. v) ?as"
    by (simp add: complex_spec_def)
  ultimately show ?thesis
    unfolding random_ok_iff random_value_eq_iff by blast
qed

text \<open>A board with a data line stuck at zero, for the first; for the second 256 MB without A12, and without A15.\<close>

theorem ram_verify_complex_refines_witness:
  "\<exists>t. ram_verify_complex uart_boot_config (ddr_board (\<lambda>_ v. v AND NOT 1) 0x0FFFFFFF 0xF) 0x80000000 0x10000000 board0 = Some (1, t)"
proof -
  let ?as = "tested 0x80000000 4096 (unat (0x10000000 :: u32) div 4096)"
  have "(0x0000ffff :: u32) \<in> set pattern_data" "(0x0000ffff :: u32) AND NOT 1 \<noteq> 0x0000ffff"
    by (simp_all add: pattern_data_def)
  then have "\<not> (\<forall>p \<in> set pattern_data. \<forall>a \<in> set ?as. p AND NOT 1 = p)"
    using start_tested by blast
  then have "complex_spec (dram_cell 0x0FFFFFFF) (\<lambda>_ v. v AND NOT 1) ?as = 1"
    unfolding complex_spec_def by (rule if_P)
  then show ?thesis
    using ram_verify_complex_refines [OF ddrb.dram_axioms [where line = "\<lambda>_ v. v AND NOT 1" and m = "0x0FFFFFFF" and lanes = "0xF"]
        board0_range, where cf = uart_boot_config]
    by auto
qed

theorem ram_verify_complex_addresses_witness:
  "(\<exists>t. ram_verify_complex uart_boot_config (ddr_board (\<lambda>_ v. v) 0x1FFFEFFF 0xF) 0x80000000 0x10000000 board0 = Some (0, t))
    \<and> (\<exists>r t. ram_verify_complex uart_boot_config (ddr_board (\<lambda>_ v. v) 0x1FFF7FFF 0xF) 0x80000000 0x10000000 board0 = Some (r, t) \<and> r \<noteq> 0)"
proof
  let ?as = "tested 0x80000000 4096 (unat (0x10000000 :: u32) div 4096)"
  note faults = ram_verify_complex_addresses [OF ddrb.dram_axioms board0_range]
  have "a AND 0x1201831C = b AND 0x1201831C" if "dram_cell 0x1FFFEFFF a = dram_cell 0x1FFFEFFF b" for a b
  proof -
    have m: "a AND 0x1201831C = dram_cell 0x1FFFEFFF a AND 0x1201831C" for a
      unfolding dram_cell_def by (simp add: bit.conj_disj_distrib2 and.assoc)
    show ?thesis
      unfolding m [of a] m [of b] that ..
  qed
  then show "\<exists>t. ram_verify_complex uart_boot_config (ddr_board (\<lambda>_ v. v) 0x1FFFEFFF 0xF) 0x80000000 0x10000000 board0 = Some (0, t)"
    using faults [of uart_boot_config "0x1FFFEFFF" "0xF"] by metis
  have "0x80008000 \<in> set ?as"
    by (auto simp: tested_def intro!: image_eqI [of _ _ 8])
  moreover have "0x80000000 \<in> set ?as"
    by (rule start_tested)
  moreover have "dram_cell 0x1FFF7FFF 0x80008000 = dram_cell 0x1FFF7FFF 0x80000000" "(0x80008000 :: u32) AND 0x1201831C \<noteq> 0x80000000 AND 0x1201831C"
    by (simp_all add: dram_cell_def)
  ultimately show "\<exists>r t. ram_verify_complex uart_boot_config (ddr_board (\<lambda>_ v. v) 0x1FFF7FFF 0xF) 0x80000000 0x10000000 board0 = Some (r, t) \<and> r \<noteq> 0"
    using faults [of uart_boot_config "0x1FFF7FFF" "0xF"] by metis
qed

end
