(* ===== verification/Scu_Fields.thy ===== *)
theory Scu_Fields
  imports Ddr_Up Bitfield
begin

unbundle bit_operations_syntax

section \<open>Fields of the system controller (boot/include/reg\_scu.h)\<close>

text \<open>
  The masks of \<^verbatim>\<open>reg_scu.h\<close>, a layout per register in the order of the header, with the values it names, and
  what \<open>scu_setup\<close>, the first stores of \<open>init_plls\<close>, means in these terms.
\<close>

definition rst_fields :: "field list" where
  "rst_fields = [
     fld ''RST_CLKGATE_MSK_SYS'' 0 1, fld ''RST_CLKGATE_MSK_MIPS'' 1 1, fld ''RST_CLKGATE_MSK_GIGE0_AP'' 2 1,
     fld ''RST_CLKGATE_MSK_GIGE1_AP'' 3 1, fld ''RST_CLKGATE_MSK_GIGE2_AP'' 4 1, fld ''RST_CLKGATE_MSK_SPA_AP'' 5 1,
     fld ''RST_CLKGATE_MSK_BMU_AP'' 6 1, fld ''RST_CLKGATE_MSK_CLASS_AP'' 7 1, fld ''RST_CLKGATE_MSK_HOST_AP'' 9 1,
     fld ''RST_CLKGATE_MSK_DSP'' 10 1, fld ''RST_MSK_DSP_AHB'' 11 1, fld ''RST_CLKGATE_MSK_PCIE'' 12 1,
     fld ''RST_CLKGATE_MSK_SATA'' 13 1, fld ''RST_CLKGATE_MSK_USB'' 14 1, fld ''RST_MSK_GIGE0'' 16 1,
     fld ''RST_MSK_GIGE1'' 17 1, fld ''RST_MSK_GIGE2'' 18 1, fld ''RST_MSK_SPA'' 19 1, fld ''RST_MSK_BMU'' 20 1,
     fld ''RST_MSK_CLASS'' 21 1, fld ''RST_MSK_HOST_AP'' 23 1, fld ''RST_MSK_BME_VCXO'' 24 1, fld ''RST_MSK_BME_FREQ_DM'' 25 1,
     fld ''RST_MSK_BME_MIPS'' 26 1, fld ''RST_CLKGATE_MSK_DDR_CTRL'' 27 1, fld ''RST_MSK_DDR_CTRL_AHB'' 28 1,
     fld ''RST_MSK_BME_AHB'' 29 1, fld ''RST_MSK_EXT_PINS'' 31 1]"

definition clkgate_fields :: "field list" where
  "clkgate_fields = [
     fld ''GIGE0_AP_CLK_GATE'' 2 1, fld ''GIGE1_AP_CLK_GATE'' 3 1, fld ''GIGE2_AP_CLK_GATE'' 4 1, fld ''SPA_AP_CLK_GATE'' 5 1,
     fld ''BMU_AP_CLK_GATE'' 6 1, fld ''CLASS_AP_CLK_GATE'' 7 1, fld ''HOST_AP_CLK_GATE'' 9 1, fld ''DSP_CLK_GATE'' 10 1,
     fld ''GMII_CLK_GATE'' 11 1, fld ''PCIE_CLK_GATE'' 12 1, fld ''SATA_CLK_GATE'' 13 1, fld ''USB_CLK_GATE'' 14 1,
     fld ''SPI0_SLOW_CLK_GATE'' 15 1, fld ''SPI_CLK_GATE'' 16 1, fld ''GIGE2_MAC_CLK_GATE'' 18 1,
     fld ''RMII_2P5MHZ_CLK_GATE'' 19 1, fld ''RMII_25MHZ_CLK_GATE'' 20 1, fld ''RMII_50MHZ_CLK_GATE'' 21 1,
     fld ''BME_VCXO_CLK_GATE'' 24 1, fld ''BME_FREQ_DM_CLK_GATE'' 25 1, fld ''BME_MIPS_CLK_GATE'' 26 1,
     fld ''DDR_CTRL_CLK_GATE'' 27 1, fld ''DSP_REF_CLK_GATE'' 28 1, fld ''DDR_CTRL_CLK_SRC'' 29 1]"

definition cpu_ctl_fields :: "field list" where
  "cpu_ctl_fields = [
     fld ''SCU_CTRL_STUS_BOOTMODE'' 0 7, fld ''SCU_CTRL_STUS_CHIP_TYPE'' 4 7, fld ''SCU_CTRL_AMC_CS0_MAP'' 8 1,
     fld ''SCU_CTRL_AMC_MAPPING'' 9 3, fld ''SCU_CTRL_MIPS_HSPORT_EN'' 11 1, fld ''SCU_CTRL_GIGE0_XMII'' 12 3,
     fld ''SCU_CTRL_GIGE1_XMII'' 14 3, fld ''SCU_CTRL_GIGE2_XMII'' 16 3, fld ''SCU_CTRL_EXTERNAL_SYNC'' 18 1,
     fld ''SCU_CTRL_USB_AHB_ERR'' 19 1, fld ''SCU_CTRL_XDSL_BONDING_EN'' 20 1, fld ''SCU_CTRL_VCXO_COMMON_CLOCK'' 21 1,
     fld ''SCU_CTRL_PCIE_REFCLK_O25M'' 22 1, fld ''SCU_CTRL_SATA_CLK_SCALE'' 23 3, fld ''SCU_CTRL_POWER_OPTIMIZE_CLK'' 25 1,
     fld ''SCU_CTRL_POWER_OPTIMIZE_MEM'' 26 1, fld ''SCU_CTRL_POWER_OPTIMIZE_EN'' 25 1, fld ''SCU_CTRL_DONOT_DISTURB'' 27 0xf,
     fld ''SCU_CTRL_SATA_REFCLK_INNER'' 31 1]"

definition boot_modes :: "(string \<times> u32) list" where
  "boot_modes = [
     (''BOOTMODE_NOR'', 0), (''BOOTMODE_SERIAL'', 1), (''BOOTMODE_NAND'', 2), (''BOOTMODE_UART1'', 3)]"

definition chip_types :: "(string \<times> u32) list" where
  "chip_types = [
     (''CHIP_7185'', 0), (''CHIP_7175'', 1), (''CHIP_7183'', 2), (''CHIP_7173'', 3), (''CHIP_7185SE'', 4), (''CHIP_7185HP'', 6)]"

definition xmii_modes :: "(string \<times> u32) list" where
  "xmii_modes = [
     (''XMIIMODE_MII'', 0), (''XMIIMODE_RMII'', 1), (''XMIIMODE_GMII'', 2), (''XMIIMODE_RGMII'', 3)]"

definition sata_clocks :: "(string \<times> u32) list" where
  "sata_clocks = [
     (''SATA_CLK_25M'', 0), (''SATA_CLK_50M'', 1), (''SATA_CLK_12M5'', 2)]"

definition rst_cause_fields :: "field list" where
  "rst_cause_fields = [
     fld ''SCU_RST_CAUSE_POWER'' 0 1, fld ''SCU_RST_CAUSE_SOFT'' 1 1, fld ''SCU_RST_CAUSE_WDT'' 2 1,
     fld ''SCU_RST_CAUSE_PLL_DRIFT'' 3 1]"

definition rst_strp_fields :: "field list" where
  "rst_strp_fields = [
     fld ''SCU_RST_STRAP_BOOTMODE'' 0 3, fld ''SCU_RST_STRAP_NAND_CAPACITY'' 3 7, fld ''SCU_RST_STRAP_NAND_PAGE'' 6 3,
     fld ''SCU_RST_STRAP_NAND_ROWADDR_CYCLE'' 8 1, fld ''SCU_RST_STRAP_JTAG_RTCK_BYPASS'' 9 1,
     fld ''SCU_RST_STRAP_AFE6_ENABLE'' 10 1, fld ''SCU_RST_STRAP_RGMII_PADS_LOW'' 11 1,
     fld ''SCU_RST_STRAP_EFUSE_RST_BYPASS'' 12 1]"

definition nand_capacities :: "(string \<times> u32) list" where
  "nand_capacities = [
     (''CAPACITY_S_64MB'', 0), (''CAPACITY_S_128MB'', 1), (''CAPACITY_S_256MB'', 2), (''CAPACITY_L_16GB'', 0),
     (''CAPACITY_L_32GB'', 1), (''CAPACITY_L_64GB'', 2), (''CAPACITY_512MB'', 3), (''CAPACITY_1GB'', 4), (''CAPACITY_2GB'', 5),
     (''CAPACITY_4GB'', 6), (''CAPACITY_8GB'', 7)]"

definition nand_pages :: "(string \<times> u32) list" where
  "nand_pages = [
     (''PAGE_512B'', 0), (''PAGE_2KB'', 1), (''PAGE_4KB'', 2)]"

definition nand_row_cycles :: "(string \<times> u32) list" where
  "nand_row_cycles = [
     (''NAND_ROW_ADDR_TWO_CYCLES'', 0), (''NAND_ROW_ADDR_THREE_CYCLES'', 1)]"

definition rev_num_fields :: "field list" where
  "rev_num_fields = [
     fld ''SCU_CHIP_VER1_MSK'' 7 0xf, fld ''SCU_CHIP_VER0_MSK'' 8 0xf, fld ''SCU_CHIP_ID_MSK'' 16 0xf]"

definition pll_pwr_rst_fields :: "field list" where
  "pll_pwr_rst_fields = [
     fld ''PLL_FIXED_POWER_UP'' 0 1, fld ''PLL_FIXED_LOCKDETECTOR_DOWN'' 1 1, fld ''PLL_FIXED_CALIBRATION'' 2 1,
     fld ''PLL_VCXO_POWER_UP'' 6 1, fld ''PLL_VCXO_LOCKDETECTOR_DOWN'' 7 1, fld ''PLL_VCXO_CALIBRATION'' 8 1,
     fld ''PLL_VCXO_SIGMADELTA_DOWN'' 9 1, fld ''PLL_GATEWAY_POWER_UP'' 12 1, fld ''PLL_GATEWAY_LOCKDETECTOR_DOWN'' 13 1,
     fld ''PLL_GATEWAY_CALIBRATION'' 14 1, fld ''PLL_GATEWAY_SIGMADELTA_DOWN'' 15 1, fld ''PLL_GATEWAY_POSTDIVIDER_UP'' 16 1,
     fld ''PLL_BME_POWER_UP'' 18 1, fld ''PLL_BME_LOCKDETECTOR_DOWN'' 19 1, fld ''PLL_BME_CALIBRATION'' 20 1,
     fld ''PLL_BME_SIGMADELTA_DOWN'' 21 1, fld ''PLL_BME_POSTDIVIDER_UP'' 22 1, fld ''PLL_DSP_POWER_UP'' 24 1,
     fld ''PLL_DSP_LOCKDETECTOR_DOWN'' 25 1, fld ''PLL_DSP_CALIBRATION'' 26 1, fld ''PLL_DSP_SIGMADELTA_DOWN'' 27 1,
     fld ''PLL_DSP_POSTDIVIDER_UP'' 28 1]"

definition vcxo_sigmadelta_fields :: "field list" where
  "vcxo_sigmadelta_fields = [
     fld ''VCXO_SIGMADELTA_DEFAULT'' 24 3, fld ''VCXO_SIGMADELTA_CURRENT'' 0 0xffffff]"

definition dsp_sigmadelta_fields :: "field list" where
  "dsp_sigmadelta_fields = [
     fld ''DSP_SIGMADELTA_DEFAULT'' 24 3, fld ''DSP_SIGMADELTA_CURRENT'' 0 0xffffff]"

definition gateway_sigmadelta_fields :: "field list" where
  "gateway_sigmadelta_fields = [
     fld ''GATEWAY_SIGMADELTA_DEFAULT'' 24 3, fld ''GATEWAY_SIGMADELTA_CURRENT'' 0 0xffffff]"

definition bme_sigmadelta_fields :: "field list" where
  "bme_sigmadelta_fields = [
     fld ''BME_SIGMADELTA_DEFAULT'' 24 3, fld ''BME_SIGMADELTA_CURRENT'' 0 0xffffff]"

definition pll_post_divider1_fields :: "field list" where
  "pll_post_divider1_fields = [
     fld ''PLL_PD1_SPI0_PD2_MSK'' 28 0x3, fld ''PLL_PD1_SPI0_PD1_MSK'' 24 0xf, fld ''PLL_PD1_DSP_FEEDBACK_DIV_MSK'' 16 0xff,
     fld ''PLL_PD1_BME_FEEDBACK_DIV_MSK'' 8 0xff, fld ''PLL_PD1_GATEWAY_FEEDBACK_DIV_MSK'' 0 0xff]"

definition pll_post_divider2_fields :: "field list" where
  "pll_post_divider2_fields = [
     fld ''PLL_PD1_DSP_PD2_MSK'' 28 0x3, fld ''PLL_PD1_DSP_PD1_MSK'' 24 0xf, fld ''PLL_PD1_FD_PD2_MSK'' 22 0x3,
     fld ''PLL_PD1_BME_PD2_MSK'' 20 0x3, fld ''PLL_PD1_FD_PD1_MSK'' 16 0xf, fld ''PLL_PD1_BME_PD1_MSK'' 12 0xf,
     fld ''PLL_PD1_AP_SYS_PD2_MSK'' 10 0x3, fld ''PLL_PD1_HOST_PD2_MSK'' 8 0x3, fld ''PLL_PD1_AP_SYS_PD1_MSK'' 4 0xf,
     fld ''PLL_PD1_HOST_PD1_MSK'' 0 0xf]"

definition pll_post_divider3_fields :: "field list" where
  "pll_post_divider3_fields = [
     fld ''ENABLE_GIGE_CLOCK'' 0 1, fld ''ENABLE_USB_CLOCK'' 1 1, fld ''ENABLE_SYN_REF_CLOCK'' 2 1,
     fld ''ENABLE_HOST_MIPS_CLOCK'' 3 1, fld ''ENABLE_BME_MIPS_CLOCK'' 4 1, fld ''ENABLE_DSP_CLOCK'' 5 1,
     fld ''ENABLE_AP_CLOCK'' 6 1, fld ''ENABLE_BME_FD_CLOCK'' 7 1, fld ''ENABLE_SYS_CLOCK'' 8 1, fld ''ENABLE_VCXO_CLOCK'' 9 1,
     fld ''ENABLE_SPI0_CLOCK'' 10 1, fld ''ENABLE_SPI_SLOW_CLOCK'' 11 1, fld ''BYPASS_DIV2_GATEWAY_PLL'' 12 1,
     fld ''BYPASS_DIV2_BME_PLL'' 13 1, fld ''BYPASS_DIV2_DSP_PLL'' 14 1, fld ''BYPASS_SIGMADELTA_GATEWAY_PLL'' 21 1,
     fld ''BYPASS_SIGMADELTA_BME_PLL'' 22 1, fld ''BYPASS_SIGMADELTA_DSP_PLL'' 23 1]"

definition nandctrl_status_fields :: "field list" where
  "nandctrl_status_fields = [
     fld ''NAND_CTRL_CHIP_BUSY'' 0 1, fld ''NAND_CTRL_PECC_BUSY'' 1 1]"

definition por_status_fields :: "field list" where
  "por_status_fields = [
     fld ''POR_CTRL_POWER_DOWN'' 0 1, fld ''POR_CTRL_IO_VOLT_MONITOR'' 1 1, fld ''POR_CTRL_CORE_VOLT_MONITOR'' 2 1,
     fld ''POR_CTRL_IO_VOLT_THRESHOLD'' 3 3, fld ''POR_CTRL_CORE_VOLT_THRESHOLD'' 5 3, fld ''POR_STAT_IO_VOLT_NOT_FAILED'' 7 1,
     fld ''POR_STAT_CORE_VOLT_NOT_FAILED'' 8 1]"

definition pll_status_fields :: "field list" where
  "pll_status_fields = [
     fld ''PLL_STAT_CALIBRATION_DONE'' 0 1, fld ''PLL_STAT_CALIBRATION_RUNING'' 1 1, fld ''PLL_STAT_CALIBRATION_VALUE'' 2 0x3f,
     fld ''PLL_STAT_LOCKED'' 9 1, fld ''PLL_STAT_BYPASSED'' 10 1]"


text \<open>The layout of each register of the structure; the others have no fields in the header.\<close>

fun scu_fields :: "scu_reg \<Rightarrow> field list" where
  "scu_fields rst_mask = rst_fields"
| "scu_fields rst_vec = rst_fields"
| "scu_fields clkgate = clkgate_fields"
| "scu_fields cpu_ctl_mask = cpu_ctl_fields"
| "scu_fields cpu_ctl = cpu_ctl_fields"
| "scu_fields rst_cause = rst_cause_fields"
| "scu_fields rst_strp = rst_strp_fields"
| "scu_fields rev_num = rev_num_fields"
| "scu_fields pll_pwr_rst = pll_pwr_rst_fields"
| "scu_fields pll_vcxo_sigmadelta = vcxo_sigmadelta_fields"
| "scu_fields pll_dsp_sigmadelta = dsp_sigmadelta_fields"
| "scu_fields pll_gateway_sigmadelta = gateway_sigmadelta_fields"
| "scu_fields pll_bme_sigmadelta = bme_sigmadelta_fields"
| "scu_fields pll_post_divider1 = pll_post_divider1_fields"
| "scu_fields pll_post_divider2 = pll_post_divider2_fields"
| "scu_fields pll_post_divider3 = pll_post_divider3_fields"
| "scu_fields nandctrl_status = nandctrl_status_fields"
| "scu_fields por_status = por_status_fields"
| "scu_fields pll_fixed_status = pll_status_fields"
| "scu_fields pll_vcxo_status = pll_status_fields"
| "scu_fields pll_gateway_status = pll_status_fields"
| "scu_fields pll_bme_status = pll_status_fields"
| "scu_fields pll_dsp_status = pll_status_fields"
| "scu_fields _ = []"

lemmas scu_field_defs = rst_fields_def clkgate_fields_def cpu_ctl_fields_def rst_cause_fields_def rst_strp_fields_def rev_num_fields_def
  pll_pwr_rst_fields_def vcxo_sigmadelta_fields_def dsp_sigmadelta_fields_def gateway_sigmadelta_fields_def
  bme_sigmadelta_fields_def pll_post_divider1_fields_def pll_post_divider2_fields_def pll_post_divider3_fields_def
  nandctrl_status_fields_def por_status_fields_def pll_status_fields_def

subsection \<open>Layout\<close>

lemma scu_layouts_1:
  "fields_ok rst_fields" "fields_ok clkgate_fields" "fields_ok cpu_ctl_fields"
  by (simp_all add: fields_ok_def scu_field_defs run_flds apart_or_nested_def)

lemma scu_layouts_2:
  "fields_ok rst_cause_fields" "fields_ok rst_strp_fields" "fields_ok pll_pwr_rst_fields" "fields_ok vcxo_sigmadelta_fields"
  "fields_ok dsp_sigmadelta_fields" "fields_ok gateway_sigmadelta_fields" "fields_ok bme_sigmadelta_fields"
  by (simp_all add: fields_ok_def scu_field_defs run_flds apart_or_nested_def)

lemma scu_layouts_3:
  "fields_ok pll_post_divider1_fields" "fields_ok pll_post_divider2_fields" "fields_ok pll_post_divider3_fields"
  "fields_ok nandctrl_status_fields" "fields_ok por_status_fields" "fields_ok pll_status_fields" "fields_ok []"
  by (simp_all add: fields_ok_def scu_field_defs run_flds apart_or_nested_def)

lemma scu_fields_ok: "r \<noteq> rev_num \<Longrightarrow> fields_ok (scu_fields r)"
  by (cases r rule: scu_fields.cases) (simp_all add: scu_layouts_1 scu_layouts_2 scu_layouts_3)

text \<open>
  In every register but the revision number the fields are independent. The two version masks of the revision
  number overlap: neither is a byte of the register that the comment of the header describes.
\<close>

theorem scu_fields_independent:
  assumes "r \<noteq> rev_num" "f \<in> set (scu_fields r)" "g \<in> set (scu_fields r)"
  shows "get_field f (set_field f v w) = v AND MSK0 (field_width f)
    \<and> set_field f (get_field f w) w = w
    \<and> (get_field g (set_field f v w) = get_field g w \<or> fmask f AND fmask g \<in> {fmask f, fmask g})"
  by (rule fields_independent [OF scu_fields_ok [OF assms(1)] assms(2,3)])

theorem scu_fields_independent_witness:
  "get_field (fld ''SCU_CTRL_GIGE1_XMII'' 14 3) (set_field (fld ''SCU_CTRL_GIGE2_XMII'' 16 3) 2 0x0000C000) = 3
    \<and> get_field (fld ''SCU_CTRL_GIGE2_XMII'' 16 3) (set_field (fld ''SCU_CTRL_GIGE2_XMII'' 16 3) 2 0x0000C000) = 2"
proof -
  have m: "cpu_ctl \<noteq> rev_num" "fld ''SCU_CTRL_GIGE2_XMII'' 16 3 \<in> set (scu_fields cpu_ctl)"
    "fld ''SCU_CTRL_GIGE1_XMII'' 14 3 \<in> set (scu_fields cpu_ctl)"
    by (simp_all add: cpu_ctl_fields_def fld_def)
  show ?thesis
    using scu_fields_independent [OF m, of 2 "0x0000C000"] by (simp add: run_flds MSK0_def get_field_def)
qed

theorem version_fields_overlap:
  "set_field (fld ''SCU_CHIP_VER0_MSK'' 8 0xf) 2 0x00030000 = 0x00030200
    \<and> map (\<lambda>f. get_field f 0x00030200) rev_num_fields = [4, 2, 3]"
  by (simp add: set_field_def get_field_def rev_num_fields_def)

subsection \<open>The first stores of init\_plls\<close>

text \<open>
  A set register is written under a mask register: the bits that are one in the mask keep their value.
  \<open>opened\<close> are the fields that a mask lets through.
\<close>

definition opened :: "u32 \<Rightarrow> field list \<Rightarrow> field list" where
  "opened m fs = filter (\<lambda>f. fmask f AND m = 0) fs"

definition decode :: "field list \<Rightarrow> u32 \<Rightarrow> (string \<times> u32) list" where
  "decode fs w = map (\<lambda>f. (fname f, get_field f w)) fs"

definition scu_setup_stores :: "(scu_reg \<times> u32) list" where
  "scu_setup_stores =
    [(bme_map0, 0xAF800000), (cpu_ctl_mask, 0xfffcfeff), (cpu_ctl, 0x00020100), (cpu_ctl_mask, 0xffffffff),
     (rst_mask, 0xC7DCF370), (clkgate, 0x08FFFFFC), (rst_vec, 0x18230C8F), (por_status, 0x20)]"

text \<open>The first value that the set-up stores to a register.\<close>

definition stored :: "scu_reg \<Rightarrow> u32" where
  "stored r = (case map_of scu_setup_stores r of None \<Rightarrow> 0 | Some v \<Rightarrow> v)"


end
