(* ===== verification/Nand_Strap.thy ===== *)
theory Nand_Strap
  imports Nand Scu_Fields
begin

unbundle bit_operations_syntax

section \<open>Registers and straps of the NAND controller (boot/include/reg\_nand.h)\<close>

text \<open>
  The rest of \<^verbatim>\<open>reg_nand.h\<close>: the offsets of the controller, its syndrome registers, and the macros that place
  timing and configuration values. In these terms: what \<open>init_nand_controller\<close> programs, and which straps make
  \<open>nand_init\<close> take the flash for one with pages of 4 KByte.
\<close>

definition nand_offsets :: "(string \<times> u32) list" where
  "nand_offsets = [
    (''EP501M3_DATA'', 0x0), (''EP501M3_COMMAND'', 0x8000), (''EP501M3_INDEX'', 0x8004), (''EP501M3_STATUS_0'', 0x8008),
    (''EP501M3_UNUSED_0'', 0x800C), (''EP501M3_ID_0'', 0x8010), (''EP501M3_UNUSED_1'', 0x8014), (''EP501M3_ID_2'', 0x8018),
    (''EP501M3_UNUSED_2'', 0x801C), (''EP501M3_ID_4'', 0x8020), (''EP501M3_UNUSED_3'', 0x8024), (''EP501M3_ID_6'', 0x8028),
    (''EP501M3_UNUSED_4'', 0x802C), (''EP501M3_INT_ENABLE'', 0x8030), (''EP501M3_INT_STATUS'', 0x8034),
    (''EP501M3_INT'', 0x8038), (''EP501M3_GENERIC_CMD'', 0x803C), (''EP501M3_GENERIC_STATUS'', 0x8040),
    (''EP501M3_GENERIC_DATA'', 0x8044), (''EP501M3_EXT_INDEX'', 0x8048), (''EP501M3_TIMING_0'', 0x804C),
    (''EP501M3_TIMING_1'', 0x8050), (''EP501M3_CONFIG'', 0x8054), (''EP501M3_DMA_ADDR'', 0x8058),
    (''EP501M3_BCH_STATUS'', 0x807C)]"

definition nand_syndromes :: "(string \<times> u32) list" where
  "nand_syndromes = [
    (''EP501M3_SECT0_SYNDROME12'', 0x8080), (''EP501M3_SECT0_SYNDROME34'', 0x8084), (''EP501M3_SECT0_SYNDROME56'', 0x8088),
    (''EP501M3_SECT0_SYNDROME78'', 0x808C), (''EP501M3_SECT1_SYNDROME12'', 0x8090), (''EP501M3_SECT1_SYNDROME34'', 0x8094),
    (''EP501M3_SECT1_SYNDROME56'', 0x8098), (''EP501M3_SECT1_SYNDROME78'', 0x809C), (''EP501M3_SECT2_SYNDROME12'', 0x80A0),
    (''EP501M3_SECT2_SYNDROME34'', 0x80A4), (''EP501M3_SECT2_SYNDROME56'', 0x80A8), (''EP501M3_SECT2_SYNDROME78'', 0x80AC),
    (''EP501M3_SECT3_SYNDROME12'', 0x80B0), (''EP501M3_SECT3_SYNDROME34'', 0x80B4), (''EP501M3_SECT3_SYNDROME56'', 0x80B8),
    (''EP501M3_SECT3_SYNDROME78'', 0x80BC), (''EP501M3_SECT4_SYNDROME12'', 0x80C0), (''EP501M3_SECT4_SYNDROME34'', 0x80C4),
    (''EP501M3_SECT4_SYNDROME56'', 0x80C8), (''EP501M3_SECT4_SYNDROME78'', 0x80CC), (''EP501M3_SECT5_SYNDROME12'', 0x80D0),
    (''EP501M3_SECT5_SYNDROME34'', 0x80D4), (''EP501M3_SECT5_SYNDROME56'', 0x80D8), (''EP501M3_SECT5_SYNDROME78'', 0x80DC),
    (''EP501M3_SECT6_SYNDROME12'', 0x80E0), (''EP501M3_SECT6_SYNDROME34'', 0x80E4), (''EP501M3_SECT6_SYNDROME56'', 0x80E8),
    (''EP501M3_SECT6_SYNDROME78'', 0x80EC), (''EP501M3_SECT7_SYNDROME12'', 0x80F0), (''EP501M3_SECT7_SYNDROME34'', 0x80F4),
    (''EP501M3_SECT7_SYNDROME56'', 0x80F8), (''EP501M3_SECT7_SYNDROME78'', 0x80FC)]"

definition EP501M3_SECTx_SYNDROMEy :: "u32 \<Rightarrow> u32 \<Rightarrow> u32" where
  "EP501M3_SECTx_SYNDROMEy x y = 0x8080 + x * 0x10 + y * 4"

definition NR_SYNDROMES :: nat where "NR_SYNDROMES = 8"
definition MAX_FIXABLE_ERRS :: nat where "MAX_FIXABLE_ERRS = NR_SYNDROMES div 2"

definition T0_TS :: "u32 \<Rightarrow> u32" where "T0_TS x = push_bit 0 (x AND 0xff)"
definition T0_TWP :: "u32 \<Rightarrow> u32" where "T0_TWP x = push_bit 8 (x AND 0xff)"
definition T0_TRP :: "u32 \<Rightarrow> u32" where "T0_TRP x = push_bit 16 (x AND 0xff)"
definition T0_TH :: "u32 \<Rightarrow> u32" where "T0_TH x = push_bit 24 (x AND 0xff)"
definition T1_TWH :: "u32 \<Rightarrow> u32" where "T1_TWH x = push_bit 0 (x AND 0xff)"
definition T1_TRH :: "u32 \<Rightarrow> u32" where "T1_TRH x = push_bit 8 (x AND 0xff)"
definition T1_TRR :: "u32 \<Rightarrow> u32" where "T1_TRR x = push_bit 16 (x AND 0xff)"
definition T1_TWB :: "u32 \<Rightarrow> u32" where "T1_TWB x = push_bit 24 (x AND 0xff)"
definition C_CSZ :: "u32 \<Rightarrow> u32" where "C_CSZ x = push_bit 0 (x AND 0x7)"
definition C_BNK :: "u32 \<Rightarrow> u32" where "C_BNK x = push_bit 6 (x AND 0x3)"
definition C_PSZ :: "u32 \<Rightarrow> u32" where "C_PSZ x = push_bit 8 (x AND 0x3)"
definition C_WPR :: "u32 \<Rightarrow> u32" where "C_WPR x = push_bit 10 (x AND 0x1)"
definition C_RAC :: "u32 \<Rightarrow> u32" where "C_RAC x = push_bit 12 (x AND 0x1)"

lemmas nand_field_defs = T0_TS_def T0_TWP_def T0_TRP_def T0_TH_def T1_TWH_def T1_TRH_def T1_TRR_def T1_TWB_def

text \<open>
  The registers are the words from \<open>0x8000\<close> without a hole but one, each syndrome register is where the macro puts it, and
  as many registers as syndromes, two in each, serve a sector.
\<close>

theorem nand_register_map:
  "map snd (tl nand_offsets) = map (\<lambda>i. 0x8000 + 4 * of_nat i) ([0..<23] @ [31])
   \<and> map snd nand_syndromes = concat (map (\<lambda>x. map (\<lambda>y. EP501M3_SECTx_SYNDROMEy x y) [0, 1, 2, 3]) [0, 1, 2, 3, 4, 5, 6, 7])
   \<and> length nand_syndromes = 8 * (NR_SYNDROMES div 2)"
  by (simp add: nand_offsets_def nand_syndromes_def EP501M3_SECTx_SYNDROMEy_def NR_SYNDROMES_def upt_conv_Cons)

lemma byte_mask: "(0xff :: u32) = mask 8"
  by (simp add: mask_eq_exp_minus_1)

text \<open>A macro of a timing register places its argument, cut to a byte, and disturbs no other field.\<close>

theorem nand_timing_fields:
  "map (\<lambda>k. get_field (fld n (8 * k) 0xff) (T0_TS a OR T0_TWP b OR T0_TRP c OR T0_TH d)) [0, 1, 2, 3] = map (\<lambda>x. x AND 0xff) [a, b, c, d]"
  "map (\<lambda>k. get_field (fld n (8 * k) 0xff) (T1_TWH a OR T1_TRH b OR T1_TRR c OR T1_TWB d)) [0, 1, 2, 3] = map (\<lambda>x. x AND 0xff) [a, b, c, d]"
  unfolding nand_field_defs byte_mask by (simp_all; intro conjI; rule bit_word_eqI; auto simp: get_field_def bit_simps)+

text \<open>
  The timings the driver programs: for pages of 4 KByte those of a slow chip, else the ones of the comment on
  bug 25257, each value in its field, stored to the first and then to the second timing register.
\<close>

theorem nand_timings:
  "init_nand_controller E M s =
    (if reset_strap_val E AND NAND_RESET_1GB_4KB_MASK = NAND_RESET_1GB_4KB
     then EP501M3_WR M EP501M3_TIMING_1 (T1_TWH 10 OR T1_TRH 10 OR T1_TRR 20 OR T1_TWB 100)
       (EP501M3_WR M EP501M3_TIMING_0 (T0_TS 10 OR T0_TWP 15 OR T0_TRP 15 OR T0_TH 5) s)
     else EP501M3_WR M EP501M3_TIMING_1 (T1_TWH 5 OR T1_TRH 5 OR T1_TRR 5 OR T1_TWB 25)
       (EP501M3_WR M EP501M3_TIMING_0 (T0_TS 5 OR T0_TWP 5 OR T0_TRP 5 OR T0_TH 4) s))"
  by (simp add: init_nand_controller_def EP501M3_WR_def nand_field_defs reg_defs)

text \<open>The bits under the mask.\<close>

lemma strap_4KB: "(v :: u32) AND 0x17 = 0x17 \<longleftrightarrow> v AND 7 = 7 \<and> bit v 4"
proof
  assume *: "v AND 0x17 = 0x17"
  show "v AND 7 = 7 \<and> bit v 4"
    using arg_cong [OF *, of "\<lambda>x. x AND 7"] arg_cong [OF *, of "\<lambda>x. bit x 4"] by (simp add: and.assoc bit_and_iff)
next
  assume *: "v AND 7 = 7 \<and> bit v 4"
  have "v AND push_bit n 1 = push_bit n 1" if "bit v n" for n
    by (rule bit_word_eqI) (use that in \<open>auto simp: bit_simps\<close>)
  from this [of 4] have "v AND push_bit 4 1 = push_bit 4 1"
    using * by blast
  moreover have "v AND (7 OR push_bit 4 1) = v AND 7 OR v AND push_bit 4 1"
    by (rule bit.conj_disj_distrib)
  ultimately show "v AND 0x17 = 0x17"
    using * by simp
qed

definition nand_strapped_4KB :: "u32 \<Rightarrow> bool" where
  "nand_strapped_4KB v \<longleftrightarrow> list_ex (\<lambda>f. fname f = ''SCU_RST_STRAP_NAND_PAGE'' \<and> map_of nand_pages ''PAGE_4KB'' = Some (get_field f v)) rst_strp_fields"

lemma boot_str_uart: "boot_str ! unat ((v :: u32) AND 7) = ''UART1_38400'' \<longleftrightarrow> v AND 7 = 7"
proof -
  have u: "unat (v AND 7) < 8" by (rule and_7_less)
  have "boot_str ! i = ''UART1_38400'' \<longleftrightarrow> i = 7" if "i < 8" for i
    using that by (auto simp: boot_str_def less_Suc_eq numeral_eq_Suc)
  then have "boot_str ! unat (v AND 7) = ''UART1_38400'' \<longleftrightarrow> unat (v AND 7) = unat (7 :: u32)"
    using u by simp
  then show ?thesis
    unfolding word_unat_eq_iff .
qed

text \<open>
  C9. Which straps select the 4 KByte geometry. The constant and the mask are \<^verbatim>\<open>0x17\<close>, the page code 2 and the capacity code 7
  written one after the other from bit 0 on. In the strap register of \<^verbatim>\<open>reg_scu.h\<close> these fields start at bit 3; the bits
  below are the boot mode, which \<open>detect_bootmode\<close> prints from the same register. So \<open>nand_init\<close> takes the flash for one
  with pages of 4 KByte exactly when the boot mode is that of the fast UART and bit 4 is set, whatever the page
  strap says; in a NAND boot the pages have always 2 KByte.
\<close>

theorem nand_strap_geometry:
  assumes "H_RD32 M (SCU rst_strp) s = (v, t)"
  shows "page_size (nand_chip (fst (nand_init M G s))) =
      (if boot_str ! unat (v AND 7) = ''UART1_38400'' \<and> bit v 4 then NAND_PAGE_SIZE_4KB else NAND_PAGE_SIZE_2KB)"
  using assms by (simp add: nand_init_def Let_def strap_4KB boot_str_uart reg_defs)

text \<open>A NAND boot with pages of 4 KByte and the largest capacity strapped, and the straps of the constant.\<close>

definition strapped :: "u32 \<Rightarrow> board sys" where
  "strapped v = (reset_board 1)\<lparr>dev := \<lparr>bregs = (\<lambda>a. if a = SCU rst_strp then v else 0), bouts = [], bcount = 0\<rparr>\<rparr>"

lemma strapped_read: "H_RD32 clock_board (SCU rst_strp) (strapped v) = (v, strapped v)"
  by (simp add: H_RD32_def clock_board_load strapped_def)

theorem nand_strap_geometry_witness:
  "(\<forall>G. page_size (nand_chip (fst (nand_init clock_board G (strapped 0xBA)))) = NAND_PAGE_SIZE_2KB)
    \<and> nand_strapped_4KB 0xBA \<and> boot_str ! unat (0xBA AND 7 :: u32) = ''NAND''
    \<and> (\<forall>G. page_size (nand_chip (fst (nand_init clock_board G (strapped 0x17)))) = NAND_PAGE_SIZE_4KB) \<and> \<not> nand_strapped_4KB 0x17"
  using nand_strap_geometry [OF strapped_read, of _ "0xBA"] nand_strap_geometry [OF strapped_read, of _ "0x17"]
  by (simp add: boot_str_def nand_strapped_4KB_def rst_strp_fields_def nand_pages_def get_field_def)

end
