(* ===== verification/Reg_Map.thy ===== *)
theory Reg_Map
  imports Nand_Strap Ddr_Regs
begin

unbundle bit_operations_syntax

section \<open>The register headers of the other blocks\<close>

text \<open>
  The registers of the blocks that the boot program does not drive, as the headers under \<^verbatim>\<open>boot/include\<close> give
  them: tables of names with addresses, bit numbers and codes, in the order of the header. With the blocks that are
  modelled elsewhere they are the register map of the chip: the theorems say that no two blocks
  share a word, and that headers which write the same thing twice agree.
\<close>

text \<open>\<^verbatim>\<open>reg_amc.h\<close>, \<^verbatim>\<open>reg_gpio.h\<close>, \<^verbatim>\<open>reg_ipc.h\<close>, \<^verbatim>\<open>reg_hsport.h\<close>, \<^verbatim>\<open>reg_voicedsp.h\<close>, \<^verbatim>\<open>reg_monitor.h\<close>.\<close>

definition AMC_CTL_BASE :: u32 where [reg_defs]: "AMC_CTL_BASE = 0xB9080000"

definition amc_banks :: "(string \<times> u32) list" where
  "amc_banks = [
    (''AMC_BANK0_BASE'', 0xBC000000), (''AMC_BANK1_BASE'', 0xBD000000), (''AMC_BANK2_BASE'', 0xBE000000),
    (''AMC_BANK3_BASE'', 0xBF000000)]"

definition amc_regs :: "(string \<times> u32) list" where
  "amc_regs = [
    (''AMC_AMGCTL'', AMC_CTL_BASE + 0), (''AMC_AMBCTL0'', AMC_CTL_BASE + 4), (''AMC_AMBCTL1'', AMC_CTL_BASE + 8)]"

definition gpio_regs :: "(string \<times> u32) list" where
  "gpio_regs = [
    (''GPIO_INPUT'', GPIO_BASE + 0x0), (''GPIO_OUTPUT_SET'', GPIO_BASE + 0x4), (''GPIO_OUTPUT_CLR'', GPIO_BASE + 0x8),
    (''GPIO_MODE_REG1'', GPIO_BASE + 0xC), (''GPIO_MODE_REG2'', GPIO_BASE + 0x10), (''GPIO_ALT_SELECT'', GPIO_BASE + 0x14),
    (''GPIO_ALT_DEFAULT'', GPIO_BASE + 0x18)]"

definition gpio_modes :: "(string \<times> u32) list" where
  "gpio_modes = [
    (''GPIO_NORMAL_INPUT'', 0), (''GPIO_NORMAL_OUTPUT'', 1), (''GPIO_OPEN_SOURCE'', 2), (''GPIO_OPEN_DRAIN'', 3),
    (''GPIO_NORMAL'', 0), (''GPIO_ALT'', 1)]"

definition IPC_BASE :: u32 where [reg_defs]: "IPC_BASE = 0xB9040000"

definition ipc_regs :: "(string \<times> u32) list" where
  "ipc_regs = [
    (''IPC_SRC_CONTROL_0'', IPC_BASE + 0x0), (''IPC_SRC_CONTROL_1'', IPC_BASE + 0x4), (''IPC_SRC_CONTROL_2'', IPC_BASE + 0x8),
    (''IPC_SRC_CONTROL_3'', IPC_BASE + 0xC), (''IPC_SRC_CONTROL_4'', IPC_BASE + 0x10),
    (''IPC_SRC_CONTROL_5'', IPC_BASE + 0x14), (''IPC_SRC_CONTROL_6'', IPC_BASE + 0x18),
    (''IPC_SRC_CONTROL_7'', IPC_BASE + 0x1C), (''IPC_DST_SELECT_0'', IPC_BASE + 0x20), (''IPC_DST_SELECT_1'', IPC_BASE + 0x24),
    (''IPC_DST_SELECT_2'', IPC_BASE + 0x28), (''IPC_DST_SELECT_3'', IPC_BASE + 0x2C), (''IPC_DST_SELECT_4'', IPC_BASE + 0x30),
    (''IPC_DST_SELECT_5'', IPC_BASE + 0x34), (''IPC_DST_SELECT_6'', IPC_BASE + 0x38), (''IPC_DST_SELECT_7'', IPC_BASE + 0x3C),
    (''IPC_STATUS_LOW_0'', IPC_BASE + 0x40), (''IPC_STATUS_HIGH_0'', IPC_BASE + 0x80)]"

definition timer_ints :: "(string \<times> nat) list" where
  "timer_ints = [
    (''TIMER0_INT'', 10), (''TIMER1_INT'', 11), (''TIMER2_INT'', 12), (''TIMER3_INT'', 13)]"

definition hsport_regs :: "(string \<times> u32) list" where
  "hsport_regs = [
    (''HSPORT_FIFTHRLD'', 0xB90D0000), (''HSPORT_RXCTRL'', 0xB90D0014), (''HSPORT_TXCTRL'', 0xB90D0030),
    (''HSPORT_RXDIV'', 0xB90D0010), (''HSPORT_TXDIV'', 0xB90D002C), (''HSPORT_RFSDIVMODE'', 0xB90D000C),
    (''HSPORT_MISCTRL'', 0xB90D0028), (''HSPORT_MCMRXENBL'', 0xB90D0020), (''HSPORT_MCMRXENBH'', 0xB90D0024),
    (''HSPORT_MCMTXENBL'', 0xB90D0018), (''HSPORT_MCMTXENBH'', 0xB90D001C), (''HSPORT_STATUS'', 0xB90D003C),
    (''HSPORT_FIFLVL'', 0xB90D0040), (''HSPORT_RXPTR'', 0xB90D0044), (''HSPORT_TXPTR'', 0xB90D0048),
    (''HSPORT_RXFIFO'', 0xB90D0100), (''HSPORT_TXFIFO'', 0xB90D0200)]"

definition voicedsp_regs :: "(string \<times> u32) list" where
  "voicedsp_regs = [
    (''DSP0_IDMA_BASE'', 0xB90B0000), (''DSP0_PMEM_REG'', 0xB90B0004), (''DSP0_DMEM_REG'', 0xB90B0008),
    (''DSP0_DMEM_REG_HW'', 0xB90B0008), (''DSP1_IDMA_BASE'', 0xB90B0010), (''DSP1_PMEM_REG'', 0xB90B0014),
    (''DSP1_DMEM_REG'', 0xB90B0018), (''DSP1_DMEM_REG_HW'', 0xB90B0018), (''DSP_IDMA_INTEN'', 0xB90B800C),
    (''DSP_IDMA0_ERR'', 0xB90B8014), (''DSP_ADDR_IDMA0_ERR'', 0xB90B8018), (''DSP_IDMA1_ERR'', 0xB90B8030),
    (''DSP_ADDR_IDMA1_ERR'', 0xB90B8034), (''DSP_CPE_PERINT'', 0xB90B803C), (''DSP_CPE_FLINT'', 0xB90B8040),
    (''DSP_CPE_PFLINT'', 0xB90B8044), (''DSP_ADDR_IACKREG'', 0xB90B8048), (''DSP_APU_DSP_FLAGREG'', 0xB90B804C),
    (''DSP_ADDR_DSP_CTRL'', 0xB90B8050)]"

definition MON_BASE :: u32 where [reg_defs]: "MON_BASE = 0xBF020000"

definition monitor_regs :: "(string \<times> u32) list" where
  "monitor_regs = [
    (''MON_HAPPY'', MON_BASE + 0x0), (''MON_SAD'', MON_BASE + 0x8), (''MON_PUTX_MON'', MON_BASE + 0x18),
    (''MON_PUTCH'', MON_BASE + 0x20), (''MON_VCDTRACE'', MON_BASE + 0x28), (''MON_TIME'', MON_BASE + 0x30),
    (''MON_SET_RETRY'', MON_BASE + 0x38), (''MON_LOCK'', MON_BASE + 0x40), (''MON_ACK'', MON_BASE + 0x48),
    (''MON_SET_SPLIT'', MON_BASE + 0x50), (''MON_SET_WS'', MON_BASE + 0x58), (''MON_DELAYED_INT'', MON_BASE + 0x60),
    (''MON_CLEAR_INT'', MON_BASE + 0x68), (''MON_CLKCFG'', MON_BASE + 0x80), (''MON_ENDIAN'', MON_BASE + 0x90),
    (''MON_VERBOSE'', MON_BASE + 0xb8), (''MON_SRAM_ADDR'', MON_BASE + 0xc0), (''MON_WDMAX'', MON_BASE + 0xc8)]"

text \<open>\<^verbatim>\<open>reg_timer.h\<close>: the four timers and the watchdog.\<close>

definition TIMER_BASE :: u32 where [reg_defs]: "TIMER_BASE = 0xB9050000"

definition timer_regs :: "(string \<times> u32) list" where
  "timer_regs = [
    (''TIMER_TOP_COUNT_0'', TIMER_BASE + 0x0), (''TIMER_TOP_COUNT_1'', TIMER_BASE + 0x8),
    (''TIMER_TOP_COUNT_2'', TIMER_BASE + 0x10), (''TIMER_TOP_COUNT_3'', TIMER_BASE + 0x18),
    (''TIMER_CONTROL_0'', TIMER_BASE + 0x4), (''TIMER_CONTROL_1'', TIMER_BASE + 0xC), (''TIMER_CONTROL_2'', TIMER_BASE + 0x14),
    (''TIMER_CONTROL_3'', TIMER_BASE + 0x1C), (''TIMER_PRESCALAR_0'', TIMER_BASE + 0x20),
    (''TIMER_PRESCALAR_1'', TIMER_BASE + 0x24), (''TIMER_INT_CONTROL'', TIMER_BASE + 0x38),
    (''TIMER_INT_STATUS'', TIMER_BASE + 0x3C), (''WDT_CONTROL'', TIMER_BASE + 0x28), (''WDT_PET'', TIMER_BASE + 0x2C),
    (''WDT_TOP_COUNT'', TIMER_BASE + 0x30), (''WDT_COUNT'', TIMER_BASE + 0x34)]"

definition timer_control_bits :: "(string \<times> nat) list" where
  "timer_control_bits = [
    (''TIMER_GPIO_EN'', 0), (''TIMER_ENABLE'', 1), (''TIMER_PERIODIC'', 2), (''TIMER_CHAIN_SELECT'', 3),
    (''TIMER_PRESCALAR'', 5), (''TIMER_PRESCALAR_DIS'', 6)]"

definition wdt_control_bits :: "(string \<times> nat) list" where
  "wdt_control_bits = [
    (''WDT_ENABLE'', 0), (''WDT_INT_MASK'', 1), (''WDT_RESET_MASK'', 2), (''WDT_TEST_MODE'', 3), (''LOCK_VAL'', 16)]"

definition WDT_LOCK_VAL :: u32 where [reg_defs]: "WDT_LOCK_VAL = 0x6BAD0000"

text \<open>\<^verbatim>\<open>reg_uart.h\<close>: the addresses of the first UART, the bits of its registers, and the line control values.\<close>

definition uart_regs :: "(string \<times> u32) list" where
  "uart_regs = [
    (''UART1_RBR'', UART1_BASE + 0x0), (''UART1_THR'', UART1_BASE + 0x0), (''UART1_DLL'', UART1_BASE + 0x0),
    (''UART1_DLH'', UART1_BASE + 0x4), (''UART1_IER'', UART1_BASE + 0x4), (''UART1_IIR'', UART1_BASE + 0x8),
    (''UART1_LCR'', UART1_BASE + 0xC), (''UART1_MCR'', UART1_BASE + 0x10), (''UART1_LSR'', UART1_BASE + 0x14),
    (''UART1_MSR'', UART1_BASE + 0x18), (''UART1_SCR'', UART1_BASE + 0x1C), (''UART1_RFCR2'', UART1_BASE + 0x20),
    (''UART1_RF_CHTOUT2'', UART1_BASE + 0x24), (''UART1_RFSTAT2'', UART1_BASE + 0x28), (''UART1_TFCR2'', UART1_BASE + 0x2C),
    (''UART1_TFSTAT2'', UART1_BASE + 0x30), (''UART1_FLOW_CTRL2'', UART1_BASE + 0x34)]"

definition uart_ier_bits :: "(string \<times> nat) list" where
  "uart_ier_bits = [
    (''IER_ERBFI'', 0), (''IER_ETBEI'', 1), (''IER_ERSI'', 2), (''IER_ECHTOUTI'', 3)]"

definition uart_iir_bits :: "(string \<times> nat) list" where
  "uart_iir_bits = [
    (''IIR_NINT'', 0), (''IIR_STATUS'', 1), (''IIR_CHTOUT'', 3)]"

definition uart_lcr_bits :: "(string \<times> nat) list" where
  "uart_lcr_bits = [
    (''LCR_WLS'', 0), (''LCR_STB'', 2), (''LCR_PEN'', 3), (''LCR_EPS'', 4), (''LCR_SP'', 5), (''LCR_SB'', 6), (''LCR_DLAB'', 7)]"

definition uart_lcr_values :: "(string \<times> u32) list" where
  "uart_lcr_values = [
    (''UART_LCR_WLS_7'', 0x2), (''UART_LCR_WLS_8'', 0x3), (''UART_LCR_STB_1'', 0x0), (''UART_LCR_STB_2'', 0x4),
    (''UART_LCR_PEN_0'', 0x0), (''UART_LCR_PEN_1'', 0x8), (''UART_LCR_EPS_O'', 0x0), (''UART_LCR_EPS_E'', 0x10),
    (''UART_LCR_SP_0'', 0x0), (''UART_LCR_SP_1'', 0x20), (''UART_LCR_SB_0'', 0x0), (''UART_LCR_SB_1'', 0x40),
    (''UART_LCR_DLAB_0'', 0x0), (''UART_LCR_DLAB_1'', 0x80)]"

definition uart_mcr_bits :: "(string \<times> nat) list" where
  "uart_mcr_bits = [
    (''MCR_DTR'', 0), (''MCR_RTS'', 1), (''MCR_OUT2'', 2), (''MCR_OUT1'', 3), (''MCR_LOOPBACK'', 4)]"

definition uart_lsr_bits :: "(string \<times> nat) list" where
  "uart_lsr_bits = [
    (''LSR_DR'', 0), (''LSR_OE'', 1), (''LSR_PE'', 2), (''LSR_FE'', 3), (''LSR_BI'', 4), (''LSR_THRE'', 5), (''LSR_TEMT'', 6),
    (''LSR_RX_FIFO_ERROR'', 7)]"

definition uart_msr_bits :: "(string \<times> nat) list" where
  "uart_msr_bits = [
    (''MSR_DCTS'', 0), (''MSR_DDSR'', 1), (''MSR_TERI'', 2), (''MSR_DDCD'', 3), (''MSR_CTS'', 4), (''MSR_DSR'', 5),
    (''MSR_RI'', 6), (''MSR_DCD'', 7)]"

text \<open>\<^verbatim>\<open>reg_spi.h\<close>: registers, first bits of their fields, and flash commands.\<close>

definition SPI_BASE :: u32 where [reg_defs]: "SPI_BASE = 0xB9020000"

definition spi_regs :: "(string \<times> u32) list" where
  "spi_regs = [
    (''SPI_GLOB_CONFIG'', SPI_BASE + 0x0), (''SPI_PORT_CONFIG'', SPI_BASE + 0x4), (''SPI_BLOCK_SIZE'', SPI_BASE + 0x8),
    (''SPI_INSTR'', SPI_BASE + 0xC), (''SPI_ADDRESS'', SPI_BASE + 0x10), (''SPI_DEV_MODE_BYTE'', SPI_BASE + 0x14),
    (''SPI_FIFO_BNDR'', SPI_BASE + 0x18), (''SPI_DEV_RSR'', SPI_BASE + 0x1C), (''SPI_DEV_RCR'', SPI_BASE + 0x20),
    (''SPI_STATUS'', SPI_BASE + 0x24), (''SPI_INT'', SPI_BASE + 0x28), (''SPI_INT_EN'', SPI_BASE + 0x2C),
    (''SPI_RX_FIFO'', SPI_BASE + 0xBFC), (''SPI_TX_FIFO'', SPI_BASE + 0xAFC)]"

definition spi_glob_config_bits :: "(string \<times> nat) list" where
  "spi_glob_config_bits = [
    (''SPI_CE'', 0), (''SPI_CLK_POL'', 1), (''SPI_PD'', 2), (''SPI_SR_COLD'', 3), (''SPI_SR_WORM'', 4),
    (''SPI_AHB_RESP_CTRL'', 5), (''SPI_AHB_WAIT_MAX'', 7), (''SPI_FIFO_RST'', 11), (''SPI_INTR_PORT0'', 26),
    (''SPI_AHB_RESP_ACTIVE'', 30)]"

definition spi_port_config_bits :: "(string \<times> nat) list" where
  "spi_port_config_bits = [
    (''SPI_IE'', 0), (''SPI_START'', 1), (''SPI_STOP'', 2), (''SPI_HOLD'', 3), (''SPI_DEV_SEL'', 4), (''SPI_CLK_SEL'', 7),
    (''SPI_RF_RST'', 12), (''SPI_TF_RST'', 13), (''SPI_WRR_SIZE'', 14), (''SPI_RES_INSTR_TYPE'', 16)]"

definition spi_fifo_bndr_bits :: "(string \<times> nat) list" where
  "spi_fifo_bndr_bits = [
    (''SPI_RF_ALMOST_FULL_BNDR'', 0), (''SPI_RF_ALMOST_EMPTY_BNDR'', 8), (''SPI_TF_ALMOST_FULL_BNDR'', 16),
    (''SPI_TF_ALMOST_EMPTY_BNDR'', 24)]"

definition spi_rsr_bits :: "(string \<times> nat) list" where
  "spi_rsr_bits = [
    (''SPI_WIP'', 0), (''SPI_WEL'', 1), (''SPI_BP0'', 2), (''SPI_BP1'', 3), (''SPI_BP2'', 4), (''SPI_E_ERR'', 5),
    (''SPI_P_ERR'', 6), (''SPI_SRWD'', 7)]"

definition spi_rcr_bits :: "(string \<times> nat) list" where
  "spi_rcr_bits = [
    (''SPI_FREEZE'', 0), (''SPI_QUAD'', 1), (''SPI_TBPARM'', 2), (''SPI_BPNV'', 3), (''SPI_LOCK'', 4), (''SPI_TBPROT'', 5)]"

definition spi_status_bits :: "(string \<times> nat) list" where
  "spi_status_bits = [
    (''SPI_BUSY'', 0), (''SPI_RF_RST_DONE'', 1), (''SPI_TF_RST_DONE'', 2), (''SPI_CLK_STABLE'', 3), (''SPI_CLK_POL_DONE'', 4),
    (''SPI_HOLD_RESUME_DONE'', 5), (''SPI_STOP_DONE'', 6), (''SPI_CLK_CHG_DONE'', 3)]"

definition spi_int_bits :: "(string \<times> nat) list" where
  "spi_int_bits = [
    (''SPI_RF_FULL'', 0), (''SPI_TF_FULL'', 1), (''SPI_RF_EMPTY'', 2), (''SPI_TF_EMPTY'', 3), (''SPI_RF_ALMOST_FULL'', 4),
    (''SPI_TF_ALMOST_FULL'', 5), (''SPI_RF_ALMOST_EMPTY'', 6), (''SPI_TF_ALMOST_EMPTY'', 7), (''SPI_TRNF_END'', 8),
    (''SPI_TRNF_ERR'', 9), (''SPI_DONE'', 10)]"

definition spi_cmds :: "(string \<times> u8) list" where
  "spi_cmds = [
    (''SPI_CMD_READ'', 0x3), (''SPI_CMD_FAST_READ'', 0xB), (''SPI_CMD_DOR'', 0x3B), (''SPI_CMD_QOR'', 0x6B),
    (''SPI_CMD_DIOR'', 0xBB), (''SPI_CMD_QIOR'', 0xEB), (''SPI_CMD_RDID'', 0x9F), (''SPI_CMD_READ_ID'', 0x90),
    (''SPI_CMD_WREN'', 0x6), (''SPI_CMD_WRDI'', 0x4), (''SPI_CMD_P4E'', 0x20), (''SPI_CMD_P8E'', 0x40), (''SPI_CMD_SE'', 0xD8),
    (''SPI_CMD_BE'', 0xC7), (''SPI_CMD_PP'', 0x2), (''SPI_CMD_QPP'', 0x32), (''SPI_CMD_RDSR'', 0x5), (''SPI_CMD_WRR'', 0x1),
    (''SPI_CMD_RCR'', 0x35), (''SPI_CMD_CLSR'', 0x30), (''SPI_CMD_DP'', 0xB9), (''SPI_CMD_RES'', 0xAB),
    (''SPI_CMD_OTPP'', 0x42), (''SPI_CMD_OTPR'', 0x4B)]"

text \<open>\<^verbatim>\<open>reg_dma.h\<close>: the first controller relative to its base, the second with the addresses written out.\<close>

definition DMA_BASE :: u32 where [reg_defs]: "DMA_BASE = 0xB90A0000"

definition dma_regs :: "(string \<times> u32) list" where
  "dma_regs = [
    (''DMA_ID'', DMA_BASE + 0x0), (''DMA_CTRL'', DMA_BASE + 0x4), (''DMA_PER_CHAN_NO'', DMA_BASE + 0x8),
    (''DMA_CPE_INT_EN'', DMA_BASE + 0x120), (''DMA_CPE_INT'', DMA_BASE + 0x124), (''DMA_APU_INT_EN'', DMA_BASE + 0x128),
    (''DMA_APU_INT'', DMA_BASE + 0x12C), (''DMA_ERR_ADDR'', DMA_BASE + 0x130), (''DMA_ACTIVE_CHA_NO'', DMA_BASE + 0x134),
    (''DMA_BUFFER_STATUS'', DMA_BASE + 0x138), (''DMA_SOURCE_ADDR'', DMA_BASE + 0x13C), (''DMA_DEST_ADDR'', DMA_BASE + 0x140),
    (''DMA_CRC_RESULT'', DMA_BASE + 0x144), (''DMA_DEBUG'', DMA_BASE + 0x148), (''DMA_CH0_BASE'', DMA_BASE + 0x10),
    (''DMA_CH0_CTRL'', DMA_BASE + 0x14), (''DMA_CH0_STATUS'', DMA_BASE + 0x18), (''DMA_CH0_CBD_ADDR'', DMA_BASE + 0x1C),
    (''DMA_CH1_BASE'', DMA_BASE + 0x20), (''DMA_CH1_CTRL'', DMA_BASE + 0x24), (''DMA_CH1_STATUS'', DMA_BASE + 0x28),
    (''DMA_CH1_CBD_ADDR'', DMA_BASE + 0x2C), (''DMA_CH2_BASE'', DMA_BASE + 0x30), (''DMA_CH2_CTRL'', DMA_BASE + 0x34),
    (''DMA_CH2_STATUS'', DMA_BASE + 0x38), (''DMA_CH2_CBD_ADDR'', DMA_BASE + 0x3C), (''DMA_CH3_BASE'', DMA_BASE + 0x40),
    (''DMA_CH3_CTRL'', DMA_BASE + 0x44), (''DMA_CH3_STATUS'', DMA_BASE + 0x48), (''DMA_CH3_CBD_ADDR'', DMA_BASE + 0x4C),
    (''DMA_CH4_BASE'', DMA_BASE + 0x50), (''DMA_CH4_CTRL'', DMA_BASE + 0x54), (''DMA_CH4_STATUS'', DMA_BASE + 0x58),
    (''DMA_CH4_CBD_ADDR'', DMA_BASE + 0x5C), (''DMA_CH5_BASE'', DMA_BASE + 0x60), (''DMA_CH5_CTRL'', DMA_BASE + 0x64),
    (''DMA_CH5_STATUS'', DMA_BASE + 0x68), (''DMA_CH5_CBD_ADDR'', DMA_BASE + 0x6C), (''DMA_CH6_BASE'', DMA_BASE + 0x70),
    (''DMA_CH6_CTRL'', DMA_BASE + 0x74), (''DMA_CH6_STATUS'', DMA_BASE + 0x78), (''DMA_CH6_CBD_ADDR'', DMA_BASE + 0x7C)]"

definition dma_channel :: "(string \<times> u32) list" where
  "dma_channel = [
    (''DMA_CH_BASE'', DMA_BASE + 0x10), (''DMA_CH_CTRL'', DMA_BASE + 0x14), (''DMA_CH_STATUS'', DMA_BASE + 0x18),
    (''DMA_CH_CBD_ADDR'', DMA_BASE + 0x1C)]"

definition dma_ctrl_bits :: "(string \<times> nat) list" where
  "dma_ctrl_bits = [
    (''DMA_EN'', 0), (''DMA_RST'', 1), (''DMA_BURST_8'', 2)]"

definition dma_channel_bits :: "(string \<times> nat) list" where
  "dma_channel_bits = [
    (''DMA_CH_EN'', 24), (''DMA_CH_START'', 16), (''DMA_BD_INT_EN'', 15), (''DMA_DONE_INT_EN'', 14), (''DMA_INT_DST'', 10),
    (''DMA_SD'', 8), (''DMA_FLY_BY_SRC'', 7), (''DMA_FLY_BY_DEST'', 6), (''DMA_BYTE_EN'', 4), (''DMA_SRC_SYNK_MODE'', 3),
    (''DMA_CRC_EN'', 2), (''DMA_CH_RST'', 0)]"

definition dma1_regs :: "(string \<times> u32) list" where
  "dma1_regs = [
    (''DMA1_ID'', 0xB90A8000), (''DMA1_CTRL'', 0xB90A8004), (''DMA1_PER_CHAN_NO'', 0xB90A8008),
    (''DMA1_CPE_INT_EN'', 0xB90A8120), (''DMA1_CPE_INT'', 0xB90A8124), (''DMA1_APU_INT_EN'', 0xB90A8128),
    (''DMA1_APU_INT'', 0xB90A812C), (''DMA1_ERR_ADDR'', 0xB90A8130), (''DMA1_ACTIVE_CH_NO'', 0xB90A8134),
    (''DMA1_BUFFER_STATUS'', 0xB90A8138), (''DMA1_SOURCE_ADDR'', 0xB90A813C), (''DMA1_DEST_ADDR'', 0xB90A8140),
    (''DMA1_CRC_RESULT'', 0xB90A8144), (''DMA1_CH0_BASE'', 0xB90A8010), (''DMA1_CH0_CTRL'', 0xB90A8014),
    (''DMA1_CH0_STATUS'', 0xB90A8018), (''DMA1_CH0_CBD_ADDR'', 0xB90A801C), (''DMA1_CH1_BASE'', 0xB90A8020),
    (''DMA1_CH1_CTRL'', 0xB90A8024), (''DMA1_CH1_STATUS'', 0xB90A8028), (''DMA1_CH1_CBD_ADDR'', 0xB90A802C),
    (''DMA1_CH2_BASE'', 0xB90A8030), (''DMA1_CH2_CTRL'', 0xB90A8034), (''DMA1_CH2_STATUS'', 0xB90A8038),
    (''DMA1_CH2_CBD_ADDR'', 0xB90A803C), (''DMA1_CH3_BASE'', 0xB90A8040), (''DMA1_CH3_CTRL'', 0xB90A8044),
    (''DMA1_CH3_STATUS'', 0xB90A8048), (''DMA1_CH3_CBD_ADDR'', 0xB90A804C), (''DMA1_CH4_BASE'', 0xB90A8050),
    (''DMA1_CH4_CTRL'', 0xB90A8054), (''DMA1_CH4_STATUS'', 0xB90A8058), (''DMA1_CH4_CBD_ADDR'', 0xB90A805C),
    (''DMA1_CH5_BASE'', 0xB90A8060), (''DMA1_CH5_CTRL'', 0xB90A8064), (''DMA1_CH5_STATUS'', 0xB90A8068),
    (''DMA1_CH5_CBD_ADDR'', 0xB90A806C), (''DMA1_CH6_BASE'', 0xB90A8070), (''DMA1_CH6_CTRL'', 0xB90A8074),
    (''DMA1_CH6_STATUS'', 0xB90A8078), (''DMA1_CH6_CBD_ADDR'', 0xB90A807C)]"

text \<open>\<^verbatim>\<open>reg_aps.h\<close>: the accelerator processors.\<close>

definition ap_regs :: "(string \<times> u32) list" where
  "ap_regs = [
    (''GEMAC1_BASE'', 0xB9200000), (''GEMAC1_APU_CSR'', 0xB9200300), (''GEMAC1_APU_PMEM'', 0xB9204000),
    (''GEMAC1_APU_DMEM'', 0xB9208000), (''GEMAC2_BASE'', 0xB9210000), (''GEMAC2_APU_CSR'', 0xB9210300),
    (''GEMAC2_APU_PMEM'', 0xB9214000), (''GEMAC2_APU_DMEM'', 0xB9218000), (''XDSL_BASE'', 0xB9220000),
    (''XDSL_APU_CSR'', 0xB9220300), (''XDSL_APU_PMEM'', 0xB9224000), (''XDSL_APU_DMEM'', 0xB9228000),
    (''SPA_BASE'', 0xB9230000), (''SPA_APU_CSR'', 0xB9230300), (''SPA_APU_PMEM'', 0xB9234000), (''SPA_APU_DMEM'', 0xB9238000),
    (''BMU_BASE'', 0xB9240000), (''BMU_APU_CSR'', 0xB9240300), (''BMU_APU_PMEM'', 0xB9244000), (''BMU_APU_DMEM'', 0xB9248000),
    (''EAP_BASE'', 0xB9250000), (''EAP_APU_CSR'', 0xB9250300), (''EAP_APU_PMEM'', 0xB9254000), (''EAP_APU_DMEM'', 0xB9258000),
    (''CLASS1_BASE'', 0xB9260000), (''CLASS1_APU_CSR'', 0xB9260300), (''CLASS1_APU_PMEM'', 0xB9264000),
    (''CLASS1_APU_DMEM'', 0xB9268000), (''CLASS2_BASE'', 0xB9270000), (''CLASS2_APU_CSR'', 0xB9270300),
    (''CLASS2_APU_PMEM'', 0xB9274000), (''CLASS2_APU_DMEM'', 0xB9278000), (''HAP_BASE'', 0xB9290000),
    (''HAP_APU_CSR'', 0xB9290300), (''HAP_APU_PMEM'', 0xB9294000), (''HAP_APU_DMEM'', 0xB9298000)]"

definition CLASS_BUFFER :: u32 where [reg_defs]: "CLASS_BUFFER = 0xB9280300"

definition DMEM_AREA_OFFSET :: u32 where [reg_defs]: "DMEM_AREA_OFFSET = 0x8000"


lemmas reg_tables = amc_regs_def gpio_regs_def ipc_regs_def hsport_regs_def voicedsp_regs_def monitor_regs_def timer_regs_def
  uart_regs_def spi_regs_def dma_regs_def dma1_regs_def ap_regs_def nand_offsets_def nand_syndromes_def

subsection \<open>The register map\<close>

text \<open>The blocks in the order of their addresses.\<close>

definition reg_blocks :: "(string \<times> u32 list) list" where
  "reg_blocks =
    [(''SCU'', map SCU scu_struct), (''UART1'', map snd uart_regs), (''UART2'', map (\<lambda>r. UART2_BASE + uart_offset r) [u0, u1, iir, lcr, mcr, lsr, msr, scr]),
     (''SPI'', map snd spi_regs), (''GPIO'', map snd gpio_regs), (''IPC'', map snd ipc_regs), (''TIMER'', map snd timer_regs),
     (''AMC'', map snd amc_regs), (''NAND'', map (\<lambda>(_, r). EP501M3_BASE + r) (nand_offsets @ nand_syndromes)),
     (''DMA'', map snd dma_regs), (''DMA1'', map snd dma1_regs), (''DSP'', map snd voicedsp_regs), (''HSPORT'', map snd hsport_regs),
     (''DDR_CTL'', map DDR_CTL ddr_ctl_struct), (''DDR_PHY'', map DDR_PHY ddr_phy_struct), (''AP'', map snd ap_regs)]"

text \<open>The first and the last word of each, which bound it.\<close>

definition block_bounds :: "(u32 \<times> u32) list" where
  "block_bounds =
    [(0xB9000000, 0xB90000FC), (0xB9010000, 0xB9010034), (0xB9018000, 0xB901801C), (0xB9020000, 0xB9020BFC), (0xB9030000, 0xB9030018),
     (0xB9040000, 0xB9040080), (0xB9050000, 0xB905003C), (0xB9080000, 0xB9080008), (0xB9090000, 0xB90980FC), (0xB90A0000, 0xB90A0148),
     (0xB90A8000, 0xB90A8144), (0xB90B0000, 0xB90B8050), (0xB90D0000, 0xB90D0200), (0xB9100000, 0xB91000FC), (0xB9108100, 0xB9108164),
     (0xB9200000, 0xB9298000)]"

definition in_bounds :: "u32 \<times> u32 \<Rightarrow> u32 \<Rightarrow> bool" where
  "in_bounds b a \<longleftrightarrow> fst b \<le> a \<and> a \<le> snd b \<and> a AND 3 = 0"

lemma blocks_in_bounds: "list_all2 (\<lambda>b as. list_all (in_bounds b) as) block_bounds (map snd reg_blocks)"
  unfolding reg_blocks_def block_bounds_def list.map snd_conv list_all2_Cons list_all2_Nil
  by (intro conjI TrueI; code_simp)

lemma list_all2_right: "list_all2 P xs ys \<Longrightarrow> y \<in> set ys \<Longrightarrow> \<exists>x \<in> set xs. P x y"
  by (induction rule: list_all2_induct) auto

lemma bounds_apart:
  assumes "list_all2 (\<lambda>b as. list_all (in_bounds b) as) bs bls" "sorted_wrt (\<lambda>b c. snd b < fst c) bs"
  shows "sorted_wrt (\<lambda>as cs. list_all (\<lambda>x. list_all (\<lambda>y. x < y) cs) as) bls"
  using assms
proof (induction rule: list_all2_induct)
  case (Cons b bs as bls)
  have "list_all (\<lambda>x. list_all (\<lambda>y. x < y) cs) as" if m: "cs \<in> set bls" for cs
  proof -
    obtain c where c: "c \<in> set bs" "list_all (in_bounds c) cs"
      using list_all2_right [OF Cons.hyps(2) m] by blast
    with Cons.prems have "snd b < fst c"
      by simp
    with c(2) Cons.hyps(1) show ?thesis
      by (force simp: list_all_iff in_bounds_def)
  qed
  with Cons show ?case
    by simp
qed simp

lemma blocks_sorted: "sorted_wrt (\<lambda>b c. snd b < fst c) block_bounds"
  by (simp add: block_bounds_def)

text \<open>
  No two blocks share a word: in the order of the list every register of a block is below every register of the
  next ones, and all are aligned words between \<open>0xB9000000\<close> and \<open>0xBA000000\<close>, uncached.
\<close>

theorem register_map:
  "sorted_wrt (\<lambda>as cs. list_all (\<lambda>x. list_all (\<lambda>y. x < y) cs) as) (map snd reg_blocks)
   \<and> list_all (list_all (\<lambda>x. x AND 3 = 0 \<and> 0xB9000000 \<le> x \<and> x < 0xBA000000)) (map snd reg_blocks)"
proof
  show "sorted_wrt (\<lambda>as cs. list_all (\<lambda>x. list_all (\<lambda>y. x < y) cs) as) (map snd reg_blocks)"
    by (rule bounds_apart [OF blocks_in_bounds blocks_sorted])
  have b: "0xB9000000 \<le> fst b \<and> snd b < 0xBA000000" if "b \<in> set block_bounds" for b
    using that by (auto simp: block_bounds_def)
  show "list_all (list_all (\<lambda>x. x AND 3 = 0 \<and> 0xB9000000 \<le> x \<and> x < 0xBA000000)) (map snd reg_blocks)"
    unfolding list_all_iff
  proof (intro ballI)
    fix as x
    assume as: "as \<in> set (map snd reg_blocks)" "x \<in> set as"
    then obtain c where "c \<in> set block_bounds" "in_bounds c x"
      using list_all2_right [OF blocks_in_bounds as(1)] by (auto simp: list_all_iff)
    with b [of c] show "x AND 3 = 0 \<and> 0xB9000000 \<le> x \<and> x < 0xBA000000"
      by (auto simp: in_bounds_def intro: order_trans le_less_trans)
  qed
qed

text \<open>
  The second DMA controller, whose addresses the header writes out, is the first one moved by \<open>0x8000\<close> without its debug
  register, and each channel is the generic one moved by its number times 16.
\<close>

theorem dma_controllers_agree:
  "map snd dma1_regs = map (\<lambda>(_, a). a + 0x8000) (filter (\<lambda>(n, _). n \<noteq> ''DMA_DEBUG'') dma_regs)
   \<and> map snd (drop 14 dma_regs) = concat (map (\<lambda>c. map (\<lambda>(_, a). a + 0x10 * c) dma_channel) [0, 1, 2, 3, 4, 5, 6])"
  by (simp add: dma_regs_def dma1_regs_def dma_channel_def reg_defs)

text \<open>Every accelerator processor has its control registers and memories at the same offsets from its base.\<close>

theorem ap_blocks_regular:
  "map snd ap_regs = concat (map (\<lambda>b. [b, b + 0x300, b + 0x4000, b + DMEM_AREA_OFFSET])
     [0xB9200000, 0xB9210000, 0xB9220000, 0xB9230000, 0xB9240000, 0xB9250000, 0xB9260000, 0xB9270000, 0xB9290000])"
  by (simp add: ap_regs_def reg_defs)

text \<open>
  The symbolic UART addresses are those of the structure, each line control value is its bit number shifted by the
  value it names, and the LSR masks that the console polls are the bits of the table.
\<close>

theorem uart_names_agree:
  "map snd (take 11 uart_regs) = map UART1 [u0, u0, u0, u1, u1, iir, lcr, mcr, lsr, msr, scr]
   \<and> map snd uart_lcr_values = map2 (\<lambda>v b. push_bit b v) [2, 3, 0, 1, 0, 1, 0, 1, 0, 1, 0, 1, 0, 1]
       (concat (map (\<lambda>(_, b). [b, b]) uart_lcr_bits))
   \<and> map_of uart_lsr_bits ''LSR_DR'' = Some 0 \<and> UART_LSR_BITMASK_DR = push_bit 0 1
   \<and> map_of uart_lsr_bits ''LSR_THRE'' = Some 5 \<and> UART_LSR_BITMASK_THRE = push_bit 5 1"
  by (simp add: uart_regs_def uart_lcr_values_def uart_lcr_bits_def uart_lsr_bits_def uart_defs)

text \<open>In the SPI headers two status bits have one number; all other bits of a register and all commands differ.\<close>

theorem spi_codes_distinct:
  "distinct (map snd spi_cmds) \<and> list_all (\<lambda>bs. distinct (map snd bs))
     [spi_glob_config_bits, spi_port_config_bits, spi_fifo_bndr_bits, spi_rsr_bits, spi_rcr_bits, butlast spi_status_bits, spi_int_bits]
   \<and> map_of spi_status_bits ''SPI_CLK_CHG_DONE'' = map_of spi_status_bits ''SPI_CLK_STABLE''"
  by (simp add: spi_cmds_def spi_glob_config_bits_def spi_port_config_bits_def spi_fifo_bndr_bits_def spi_rsr_bits_def
      spi_rcr_bits_def spi_status_bits_def spi_int_bits_def)

end
