(* ===== verification/C_Char.thy ===== *)
theory C_Char
  imports Prelude
begin

unbundle bit_operations_syntax

section \<open>Character classes (include/c\_char.h)\<close>

text \<open>
  The class bits and the macros over the table \<^verbatim>\<open>_ctype\<close>, which the tree declares and does not define: it is an
  argument. A macro is true when its value is not zero. \<open>iscntrl\<close> names a bit \<^verbatim>\<open>_CTL\<close> that the header does
  not define (the bit is \<^verbatim>\<open>_CTR\<close>), so it has no meaning and is left out.
\<close>

definition ctrl_chars :: "(string \<times> u8) list" where
  "ctrl_chars = map (\<lambda>(n, c). (n, of_char c - 0x40))
    [(''CTRL_A'', CHR ''A''), (''CTRL_B'', CHR ''B''), (''CTRL_C'', CHR ''C''), (''CTRL_D'', CHR ''D''), (''CTRL_E'', CHR ''E''),
     (''CTRL_F'', CHR ''F''), (''CTRL_H'', CHR ''H''), (''CTRL_K'', CHR ''K''), (''CTRL_N'', CHR ''N''), (''CTRL_P'', CHR ''P''),
     (''CTRL_U'', CHR ''U'')]"

definition named_chars :: "(string \<times> u8) list" where
  "named_chars = [(''DEL'', 0x7F), (''TAB'', 0x09), (''CR'', 0x0D), (''LF'', 0x0A), (''ESC'', 0x1B), (''SP'', 0x20), (''CSI'', 0x9B)]"

definition CT_UPC :: u8 where "CT_UPC = 0x1"
definition CT_LWR :: u8 where "CT_LWR = 0x2"
definition CT_DIG :: u8 where "CT_DIG = 0x4"
definition CT_SPC :: u8 where "CT_SPC = 0x8"
definition CT_PUN :: u8 where "CT_PUN = 0x10"
definition CT_CTR :: u8 where "CT_CTR = 0x20"
definition CT_HEX :: u8 where "CT_HEX = 0x40"
definition CT_BLK :: u8 where "CT_BLK = 0x80"

definition in_class :: "(u8 \<Rightarrow> u8) \<Rightarrow> u8 \<Rightarrow> u8 \<Rightarrow> bool" where
  "in_class ctype m c \<longleftrightarrow> ctype c AND m \<noteq> 0"

definition isalpha :: "(u8 \<Rightarrow> u8) \<Rightarrow> u8 \<Rightarrow> bool" where "isalpha ctype = in_class ctype (CT_UPC OR CT_LWR)"
definition isupper :: "(u8 \<Rightarrow> u8) \<Rightarrow> u8 \<Rightarrow> bool" where "isupper ctype = in_class ctype CT_UPC"
definition islower :: "(u8 \<Rightarrow> u8) \<Rightarrow> u8 \<Rightarrow> bool" where "islower ctype = in_class ctype CT_LWR"
definition isdigit :: "(u8 \<Rightarrow> u8) \<Rightarrow> u8 \<Rightarrow> bool" where "isdigit ctype = in_class ctype CT_DIG"
definition isxdigit :: "(u8 \<Rightarrow> u8) \<Rightarrow> u8 \<Rightarrow> bool" where "isxdigit ctype = in_class ctype (CT_DIG OR CT_HEX)"
definition isspace :: "(u8 \<Rightarrow> u8) \<Rightarrow> u8 \<Rightarrow> bool" where "isspace ctype = in_class ctype CT_SPC"
definition ispunct :: "(u8 \<Rightarrow> u8) \<Rightarrow> u8 \<Rightarrow> bool" where "ispunct ctype = in_class ctype CT_PUN"
definition isalnum :: "(u8 \<Rightarrow> u8) \<Rightarrow> u8 \<Rightarrow> bool" where "isalnum ctype = in_class ctype (CT_UPC OR CT_LWR OR CT_DIG)"
definition isprint :: "(u8 \<Rightarrow> u8) \<Rightarrow> u8 \<Rightarrow> bool" where "isprint ctype = in_class ctype (CT_PUN OR CT_UPC OR CT_LWR OR CT_DIG OR CT_BLK)"
definition isgraph :: "(u8 \<Rightarrow> u8) \<Rightarrow> u8 \<Rightarrow> bool" where "isgraph ctype = in_class ctype (CT_PUN OR CT_UPC OR CT_LWR OR CT_DIG)"
definition isascii :: "u8 \<Rightarrow> bool" where "isascii c \<longleftrightarrow> c \<le> 0x7f"
definition toascii :: "u8 \<Rightarrow> u8" where "toascii c = c AND 0x7f"

lemmas char_class_defs = isalpha_def isupper_def islower_def isdigit_def isxdigit_def isspace_def ispunct_def isalnum_def isprint_def isgraph_def

lemma in_class_or: "in_class ctype (m OR n) c \<longleftrightarrow> in_class ctype m c \<or> in_class ctype n c"
  unfolding in_class_def bit.conj_disj_distrib by (metis or_eq_0_iff)

text \<open>
  With any table the classes are related as in C: letters are the upper and lower case ones, letters and digits the
  alphanumeric ones, the graphic characters these and punctuation, the printing ones these and the blank.
\<close>

theorem char_classes:
  "isalpha ct c \<longleftrightarrow> isupper ct c \<or> islower ct c"
  "isalnum ct c \<longleftrightarrow> isalpha ct c \<or> isdigit ct c"
  "isgraph ct c \<longleftrightarrow> isalnum ct c \<or> ispunct ct c"
  "isprint ct c \<longleftrightarrow> isgraph ct c \<or> in_class ct CT_BLK c"
  "isxdigit ct c \<longleftrightarrow> isdigit ct c \<or> in_class ct CT_HEX c"
  by (auto simp: char_class_defs in_class_or)

text \<open>\<open>toascii\<close> gives an ASCII character and leaves the ASCII characters alone; the control characters are ASCII.\<close>

lemma unat_toascii: "unat (toascii c) = unat c mod 128"
proof -
  have "toascii c = take_bit 7 c"
    by (simp add: toascii_def take_bit_eq_mask mask_eq_exp_minus_1)
  moreover have "unat (take_bit 7 c) = unat c mod 128" for c :: u8
    by (simp add: unsigned_take_bit_eq) (simp add: take_bit_eq_mod)
  ultimately show ?thesis
    by simp
qed

lemma unat_isascii: "isascii c \<longleftrightarrow> unat c < 128"
  by (simp add: isascii_def word_le_nat_alt less_Suc_eq_le [symmetric])

theorem ascii_chars:
  "isascii (toascii c)" "toascii c = c \<longleftrightarrow> isascii c"
  "list_all (\<lambda>(_, k). isascii k \<and> k < 0x20) ctrl_chars"
  by (simp_all add: unat_isascii unat_toascii word_unat_eq_iff mod_eq_self_iff_div_eq_0 div_eq_0_iff ctrl_chars_def of_char_def)

end
