(* ===== verification/Spec2Isabelle.thy ===== *)
theory Spec2Isabelle
  imports Crc_Lib Crc_Old Crc_Test General_Ops Xmodem_Script Pll_Old Bhdr Nand_Demo Boot_Nand Nor_Boot Esr Cache Timer Irq Traps Board Bootm_Kernel Isa Start Ddr_Random Reg_Map C_Char
begin

text \<open>
  A verification library for iboot, the boot loader of the Vx185 ("landshark") system on chip: a C program
  for a bare MIPS32 core that brings up clocks and memory, loads an image over the serial line or from NAND
  flash, and jumps to it; with it the host tool that prepares the images, and the drivers of the tree.

  \<^bold>\<open>The program and its theories\<close>

  \<^item> \<open>Prelude\<close>: the C integer types of \<^verbatim>\<open>include/global_type.h\<close> (\<open>u8\<close>, \<open>u16\<close>, \<open>u32\<close>, \<open>u64\<close>), big-endian byte views
    of words, the collections \<open>reg_defs\<close>, \<open>io_simps\<close> and \<open>crc_laws\<close>, and lemmas on words and lists.
  \<^item> \<open>Machine\<close>: what a C function of the boot program sees. \<open>'d machine\<close> is the parameter for the devices
    (loads, stores and the CP0 count register, each of which may change the state \<open>'d\<close>), \<open>'d sys\<close> is the state:
    the globals \<open>gSysClock\<close> and \<open>gChipVersion\<close>, the devices, RAM by physical address. The accessors \<open>H_RD32\<close>, \<open>H_WR32\<close>
    and the polls \<open>c_poll32_until_set\<close>/\<open>clr\<close> are functions on it.
  \<^item> \<open>Steady\<close>: a small total-correctness calculus for the steps between the interesting ones.
  \<^item> \<open>General_Ops\<close>: the macros of \<^verbatim>\<open>include/general_endian.h\<close>, \<^verbatim>\<open>general_bitsop.h\<close> and \<^verbatim>\<open>global_type.h\<close>.
  \<^item> \<open>Crc_Engine\<close>, \<open>Crc_Lib\<close> (\<^verbatim>\<open>lib/crc32.c\<close>), \<open>Crc_Old\<close> and \<open>Crc_Test\<close> (\<^verbatim>\<open>lib/crc32_old.c\<close>): the CRC routines. The
    engine states the register that is stepped bit by bit as locales, the three implementations interpret
    them, so the table lemma is proved once.
  \<^item> \<open>Uart\<close> (\<^verbatim>\<open>boot/soc_landshark/uart_ram.c\<close>), \<open>Soc\<close> (\<^verbatim>\<open>soc_ram.c\<close>, \<^verbatim>\<open>reg_scu.h\<close>, \<open>mdelay\<close> of \<^verbatim>\<open>timer_ram.c\<close>), \<open>Timer\<close> (the
    rest of \<^verbatim>\<open>timer_ram.c\<close>), \<open>Pll\<close> and \<open>Pll_Old\<close> (\<^verbatim>\<open>pll_ram.c\<close>), \<open>Ddr_Regs\<close>, \<open>Ddr\<close>, \<open>Ddr_Verify\<close>, \<open>Ddr_Random\<close>,
    \<open>Ddr_Up\<close> (\<^verbatim>\<open>dram_ram.c\<close>, \<^verbatim>\<open>reg_ddr.h\<close>).
  \<^item> \<open>Scu_Fields\<close> (the masks of \<^verbatim>\<open>reg_scu.h\<close> as fields), \<open>Nand_Strap\<close> (\<^verbatim>\<open>reg_nand.h\<close>), \<open>Reg_Map\<close> (the headers of the blocks
    that the program does not drive), \<open>C_Char\<close> (\<^verbatim>\<open>include/c_char.h\<close>).
  \<^item> \<open>Xmodem\<close>, \<open>Xmodem_Script\<close> (\<^verbatim>\<open>loader/xmodem.c\<close>): the receiver as a state machine of four states, \<open>xm_step\<close> one round
    of its loop, and what it does on a scripted line.
  \<^item> \<open>Nand\<close> (all of \<^verbatim>\<open>devices/nand/dev_nand.c\<close>, with the constants of \<^verbatim>\<open>fs/include/lib_fs_ubi.h\<close>), \<open>Nand_Read\<close> (the page
    reader), \<open>Nand_Scan\<close> and \<open>Nand_Volume\<close> (the scans for volume table and volume), \<open>Nand_Load\<close> (the copy), \<open>Nand_Uboot\<close>
    (their composition), \<open>Nand_Demo\<close> (flash contents for the witnesses).
  \<^item> \<open>Boot\<close>, \<open>Boot_Demo\<close>, \<open>Boot_Nand\<close> (\<^verbatim>\<open>loader/fboot.c\<close>): \<open>main\<close> of the UART and of the NAND build.
  \<^item> \<open>Nor\<close> (\<^verbatim>\<open>devices/nor/dev_nor_amd.c\<close>) and \<open>Nor_Boot\<close> (the disabled NOR branch of \<open>main\<close>).
  \<^item> \<open>Bhdr\<close> (\<^verbatim>\<open>tools/src/bh/bhdr.c\<close>), a host program: options, header, CRCs, output file, report.
  \<^item> \<open>Esr\<close> (\<^verbatim>\<open>arch/include/arch_esr.h\<close>), \<open>Cache\<close> (\<^verbatim>\<open>arch/mips32/mips32_cache.c\<close>).
  \<^item> The processor header \<^verbatim>\<open>arch/include/arch_isa.h\<close>: \<open>Bitfield\<close> (the pairs \<^verbatim>\<open>S_x\<close>, \<^verbatim>\<open>M_x\<close> as fields of a word), \<open>Isa\<close> (instruction
    formats, access macros, assembled words), \<open>Isa_Addr\<close> (segments, cache operations and geometry, register names),
    \<open>Isa_Cp0\<close> (every coprocessor register with its fields, reserved bits and named values).
  \<^item> \<open>Start\<close> (\<^verbatim>\<open>arch/mips32/start.S\<close>): the coprocessor after reset, the cache initialisation, the exception entry. A processor
    is the parameter \<open>cpu\<close>: read and write a coprocessor register, and the \<^verbatim>\<open>cache\<close> instruction.
  \<^item> The U-Boot sources kept behind \<^verbatim>\<open>#if 0\<close>: \<open>Board\<close> (\<^verbatim>\<open>loader/board.c\<close>), \<open>Bootm\<close> and \<open>Bootm_Kernel\<close> (\<^verbatim>\<open>loader/bootm.c\<close>,
    \<^verbatim>\<open>bootm_qemu_mips.c\<close>), \<open>Irq\<close> (\<^verbatim>\<open>arch/mips32/mips32_interrupts.c\<close>), \<open>Traps\<close> (\<^verbatim>\<open>mips32_traps.c\<close>). They call nothing of the
    boot program, so each has a state of its own.

  \<open>main\<close> calls \<open>c_detect_chip\<close>, \<open>init_plls\<close> and \<open>c_auto_ddr\<close>, then \<open>xmodem_load\<close> or \<open>read_uboot\<close>; all of them write to the
  console through \<open>c_put_char\<close> and wait with \<open>mdelay\<close>, and all of them go to the devices through \<open>Machine\<close> only. The
  globals couple them: \<open>init_plls\<close> sets \<open>gSysClock\<close>, from which \<open>xmodem_load\<close> takes its timeouts.

  \<^bold>\<open>Conventions\<close>

  A C function is one definition of the same name. C integers are words, so arithmetic wraps as it does on
  the target; state is passed explicitly; a status code is the returned value, and every early return is
  a branch. A loop without a bound in the code is \<open>partial_function (option)\<close>: None is the run that never
  returns, and no fuel is used anywhere. Where the code does return, that it does is a conclusion of
  the theorem (\<open>= Some ...\<close>). Loops with a measure are \<open>function\<close>s with termination proofs. What the build chooses with
  \<open>-D\<close> (chip, debug level, boot device, CRC standard) is an argument or a record (\<open>config\<close>, \<open>crc_std\<close>, \<open>nor_build\<close>),
  so the theorems hold for every build that compiles. Registers are datatypes with offset functions. Names
  that clash with HOL are suffixed.

  Code that is not in the repository is a parameter: the devices (\<open>machine\<close>, \<open>bus16\<close>), the NAND headers and
  the boot ROM routine (\<open>nand_env\<close>), the byte order conversions of the host (\<open>crc_host\<close>), the bit reversals of the CRC
  test, the \<open>cache\<close> instruction, the file system and options of the host program.

  \<^bold>\<open>Interfaces\<close>

  What one part relies on in another is a locale, interpreted on the model's own definitions:

  \<^item> \<open>crc_register\<close>, \<open>crc_table\<close>, \<open>crc_reversible\<close>, \<open>crc_wide\<close>, \<open>crc_on_host\<close>: the CRC register and its table; interpreted for
    every polynomial and both bit orders of the three implementations.
  \<^item> \<open>char_port\<close>: get and put of a character, RAM bytes and the timeout clock, what \<open>xmodem_load\<close> is written against;
    interpreted by \<open>c_get_char_timout\<close> and \<open>c_put_char\<close> on every machine. \<open>scripted_port\<close> extends it with a known line.
  \<^item> \<open>console\<close>: a UART whose transmitter gets ready. \<open>clock_hw\<close> adds PLLs that lock, \<open>dram\<close> the memory cells behind the
    addresses, \<open>ddr_hw\<close> the calibration, \<open>boot_hw\<close> is both, \<open>nand_boot_hw\<close> adds the flash. Each states documented behaviour of
    the hardware; none says what the software achieves.
  \<^item> \<open>nand_regs\<close> is the NAND controller, \<open>nand_part\<close> the page driver as the scans see it; \<open>nand_hw\<close> shows by \<open>sublocale\<close> that
    \<open>read_nand_page\<close> on the first gives the second, and \<open>nand_boot\<close> is the client that composes the scans.
  \<^item> \<open>nor_chip\<close>, \<open>nor_port\<close>: a flash that erases a sector and programs a word on the AMD command sequences.
  \<^item> \<open>cp0_clock\<close> (count and compare registers that show the passing of time), \<open>irq_ctl\<close> (mask registers that hold what is
    written).
  \<^item> \<open>steady_put\<close>, \<open>steady_port\<close>: a predicate on the state that console output and polls keep.

  The boards are executable devices: \<open>board_machine\<close> (console), \<open>clock_board\<close>, \<open>ddr_board\<close> (with chosen address lines, so
  that memories which mirror are boards too), \<open>nand_machine\<close>, \<open>sim_machine\<close> (a scripted UART), \<open>nor_machine\<close> (the AMD command
  automaton) and \<open>full_machine\<close>, which has all of clocks, memory, NAND and serial line and runs \<open>main\<close> from reset to the
  jump. The interpretations on them show that the assumptions can hold, and the witnesses run on them.

  \<^bold>\<open>What is shown\<close>

  \<^item> Boot: with the interfaces' hardware \<open>main\<close> downloads the sender's image and jumps to it (UART) or loads the volume
    \<open>uboot\<close> or its backup and jumps (NAND); it always reaches the loader, and the two ways it goes wrong (a
    soft reset, an unreadable NAND) are theorems too.
  \<^item> XMODEM: a session with repetitions, damage and silences stores exactly the sender's data; what is stored
    has passed the checks. The console never loses a character, and delays wait what the counter says.
  \<^item> NAND: the scans compute specifications that are recursions over the blocks of the flash, the copy concatenates the
    blocks in logical order, and \<open>read_uboot\<close> refines the composition; where they fail is characterised.
    The straps decide the geometry: in a NAND boot it is never the one with pages of 4 KByte, whatever is strapped.
  \<^item> Clocks and memory: all PLLs run with the frequencies of the table, the older \<open>init_plls\<close> left the same registers, and \<open>c_auto_ddr\<close> succeeds exactly when calibration
    does and the memory test passes; the test finds every stuck or swapped bit and misses address faults.
    The test of the build with \<^verbatim>\<open>DATA_VERIFY_JACKY\<close> verifies four of the address lines above its granularity.
  \<^item> Registers: what the first stores of \<open>init_plls\<close> set in the fields of the header, and a register map in which no two
    blocks share a word.
  \<^item> CRC: the table routines equal the bitwise ones, these equal division of polynomials over GF(2), the three
    implementations agree, and the unit test of the source passes for all inputs.
  \<^item> Boot header tool: the files written, byte by byte, their checksums, and every failure outcome.
  \<^item> Timer: in every run the time stamp is the number of jiffies since the reset, across wrap-arounds of the count.
  \<^item> U-Boot sources: the memory map of \<open>board_init_f\<close> is disjoint and \<open>board_init_r\<close> uses it; the kernel finds its
    arguments and environment, cut as the specification says; an enabled interrupt has a handler (reachability of an \<open>inductive\<close>
    step relation); the printed call chain ends.
  \<^item> Processor: instruction words are taken apart and put together without loss, a jump macro reaches its target, the segment
    macros name one byte, fields of a register are independent, and the fields that the header declares reserved by
    mistake are listed. The start-up code visits each line of both caches once and enters \<^verbatim>\<open>main\<close> with interrupts off.
  \<^item> NOR, cache, macros and exception frame: functional behaviour on every branch, with the defects found.

  \<^bold>\<open>Not modelled\<close>

  The assembly (\<^verbatim>\<open>*.S\<close>: ROM variants of the drivers, debug monitor, the messages of \<^verbatim>\<open>start.S\<close>), whose C variants are modelled. The disabled
  older variants in \<^verbatim>\<open>dram_ram.c\<close> and \<^verbatim>\<open>timer_ram.c\<close>, and the last fragment of \<^verbatim>\<open>pll_ram.c\<close>, which belongs to no function; \<^verbatim>\<open>mip32s_arch.c\<close>, which is disabled and has calls only; the 64-bit masks and assembler macros of \<^verbatim>\<open>arch_isa.h\<close>; the 2 and 4 bit CRC tables, which the tree does not contain. Timing is the count
  register: how many instructions pass between two accesses is the machine's choice. Volatile accesses are
  in program order; caches and interrupts are not part of a machine.
\<close>

end
